(* ===== verification/Go_Strings.thy ===== *)
theory Go_Strings
  imports Main
begin

text \<open>
  The part of Go's \<^verbatim>\<open>strings\<close>, \<^verbatim>\<open>strconv\<close> and \<^verbatim>\<open>fmt\<close> packages that the modelled code uses.

  A Go string is a sequence of bytes, here a HOL \<^typ>\<open>string\<close> whose characters are the bytes.
  White space is Unicode white space in its UTF-8 encoding, as in \<^verbatim>\<open>unicode.IsSpace\<close>: each
  encoding starts with a byte that is never a continuation byte, so scanning byte by byte finds
  the same spaces as decoding runes. Case mapping is exact on ASCII letters and on the
  non-ASCII characters whose image is an ASCII letter (\<^verbatim>\<open>U+212A\<close> and \<^verbatim>\<open>U+0130\<close> for
  \<^verbatim>\<open>ToLower\<close>, \<^verbatim>\<open>U+212A\<close> and \<^verbatim>\<open>U+017F\<close> for \<^verbatim>\<open>EqualFold\<close>), so comparisons with ASCII
  constants, which is what the code does with the result, agree with Go; other non-ASCII
  letters keep their case.
\<close>

named_theorems go_simps \<open>unfolding rules of the string library\<close>

subsection \<open>White space\<close>

definition ascii_space :: "char \<Rightarrow> bool" where
  "ascii_space c \<longleftrightarrow> c = CHR 0x20 \<or> c = CHR 0x09 \<or> c = CHR 0x0A \<or> c = CHR 0x0B
     \<or> c = CHR 0x0C \<or> c = CHR 0x0D"

definition space2 :: "char \<Rightarrow> char \<Rightarrow> bool" where
  "space2 a b \<longleftrightarrow> a = CHR 0xC2 \<and> (b = CHR 0x85 \<or> b = CHR 0xA0)"

definition space3 :: "char \<Rightarrow> char \<Rightarrow> char \<Rightarrow> bool" where
  "space3 a b c \<longleftrightarrow>
     (a = CHR 0xE1 \<and> b = CHR 0x9A \<and> c = CHR 0x80)
   \<or> (a = CHR 0xE2 \<and> b = CHR 0x80 \<and>
        c \<in> set [CHR 0x80, CHR 0x81, CHR 0x82, CHR 0x83, CHR 0x84, CHR 0x85, CHR 0x86,
                 CHR 0x87, CHR 0x88, CHR 0x89, CHR 0x8A, CHR 0xA8, CHR 0xA9, CHR 0xAF])
   \<or> (a = CHR 0xE2 \<and> b = CHR 0x81 \<and> c = CHR 0x9F)
   \<or> (a = CHR 0xE3 \<and> b = CHR 0x80 \<and> c = CHR 0x80)"

fun drop_space :: "string \<Rightarrow> string option" where
  "drop_space [] = None"
| "drop_space (a # s) =
     (if ascii_space a then Some s
      else case s of
        [] \<Rightarrow> None
      | b # t \<Rightarrow>
          if space2 a b then Some t
          else (case t of [] \<Rightarrow> None | c # u \<Rightarrow> if space3 a b c then Some u else None))"

text \<open>The same at the end of a string, on the reversed string.\<close>

fun drop_space_rev :: "string \<Rightarrow> string option" where
  "drop_space_rev [] = None"
| "drop_space_rev (a # s) =
     (if ascii_space a then Some s
      else case s of
        [] \<Rightarrow> None
      | b # t \<Rightarrow>
          if space2 b a then Some t
          else (case t of [] \<Rightarrow> None | c # u \<Rightarrow> if space3 c b a then Some u else None))"

lemma drop_space_length: "drop_space s = Some t \<Longrightarrow> length t < length s"
  by (cases s) (auto split: if_splits list.splits)

lemma drop_space_rev_length: "drop_space_rev s = Some t \<Longrightarrow> length t < length s"
  by (cases s) (auto split: if_splits list.splits)

function trim_left_space :: "string \<Rightarrow> string" where
  "trim_left_space s = (case drop_space s of None \<Rightarrow> s | Some t \<Rightarrow> trim_left_space t)"
  by pat_completeness auto
termination
  by (relation "measure length") (auto dest: drop_space_length)

function trim_left_space_rev :: "string \<Rightarrow> string" where
  "trim_left_space_rev s = (case drop_space_rev s of None \<Rightarrow> s | Some t \<Rightarrow> trim_left_space_rev t)"
  by pat_completeness auto
termination
  by (relation "measure length") (auto dest: drop_space_rev_length)

declare trim_left_space.simps [simp del] trim_left_space_rev.simps [simp del]

definition trim_right_space :: "string \<Rightarrow> string" where
  "trim_right_space s = rev (trim_left_space_rev (rev s))"

text \<open>\<^verbatim>\<open>strings.TrimSpace\<close>.\<close>

definition trim_space :: "string \<Rightarrow> string" where
  "trim_space s = trim_right_space (trim_left_space s)"

lemma trim_left_space_None: "drop_space s = None \<Longrightarrow> trim_left_space s = s"
  by (simp add: trim_left_space.simps [of s])

lemma trim_left_space_Some: "drop_space s = Some t \<Longrightarrow> trim_left_space s = trim_left_space t"
  by (simp add: trim_left_space.simps [of s])

lemma trim_left_space_rev_None: "drop_space_rev s = None \<Longrightarrow> trim_left_space_rev s = s"
  by (simp add: trim_left_space_rev.simps [of s])

lemma trim_left_space_rev_Some:
  "drop_space_rev s = Some t \<Longrightarrow> trim_left_space_rev s = trim_left_space_rev t"
  by (simp add: trim_left_space_rev.simps [of s])

lemma drop_space_trim_left: "drop_space (trim_left_space s) = None"
proof (induction s rule: trim_left_space.induct)
  case (1 s)
  then show ?case
    by (cases "drop_space s") (auto simp: trim_left_space_None trim_left_space_Some)
qed

lemma drop_space_rev_trim_left_rev: "drop_space_rev (trim_left_space_rev s) = None"
proof (induction s rule: trim_left_space_rev.induct)
  case (1 s)
  then show ?case
    by (cases "drop_space_rev s") (auto simp: trim_left_space_rev_None trim_left_space_rev_Some)
qed

lemma drop_space_rev_suffix: "drop_space_rev s = Some t \<Longrightarrow> \<exists>p. s = p @ t"
proof (cases s)
  case (Cons a r)
  assume d: "drop_space_rev s = Some t"
  consider "t = r" | b where "r = b # t" | b c where "r = b # c # t"
    using d Cons by (auto split: if_splits list.splits)
  then show ?thesis
    by cases (use Cons in \<open>auto intro: exI [of _ "[a]"] exI [of _ "[a, _]"] exI [of _ "[a, _, _]"]\<close>)
qed simp

lemma trim_left_space_rev_suffix: "\<exists>p. s = p @ trim_left_space_rev s"
proof (induction s rule: trim_left_space_rev.induct)
  case (1 s)
  show ?case
  proof (cases "drop_space_rev s")
    case None
    then show ?thesis by (simp add: trim_left_space_rev_None)
  next
    case (Some t)
    with 1 obtain p where "t = p @ trim_left_space_rev t" by blast
    moreover obtain q where "s = q @ t" using drop_space_rev_suffix Some by blast
    ultimately have "s = (q @ p) @ trim_left_space_rev s"
      using Some by (simp add: trim_left_space_rev_Some)
    then show ?thesis by blast
  qed
qed

lemma trim_right_space_prefix: "\<exists>q. s = trim_right_space s @ q"
proof -
  obtain p where "rev s = p @ trim_left_space_rev (rev s)"
    using trim_left_space_rev_suffix by blast
  then have "rev (rev s) = rev (trim_left_space_rev (rev s)) @ rev p"
    by (metis rev_append)
  then show ?thesis by (auto simp: trim_right_space_def)
qed

text \<open>A string without leading space has no prefix with leading space.\<close>

lemma drop_space_prefix_None: "drop_space (s @ q) = None \<Longrightarrow> drop_space s = None"
  by (cases s) (auto split: if_splits list.splits)

lemma trim_space_no_leading: "drop_space (trim_space s) = None"
proof -
  obtain q where "trim_left_space s = trim_space s @ q"
    using trim_right_space_prefix unfolding trim_space_def by blast
  then show ?thesis
    using drop_space_trim_left [of s] drop_space_prefix_None [of "trim_space s" q] by simp
qed

lemma trim_space_no_trailing: "drop_space_rev (rev (trim_space s)) = None"
  by (simp add: trim_space_def trim_right_space_def drop_space_rev_trim_left_rev)

lemma trim_space_fixed:
  "drop_space s = None \<Longrightarrow> drop_space_rev (rev s) = None \<Longrightarrow> trim_space s = s"
  by (simp add: trim_space_def trim_right_space_def trim_left_space_None trim_left_space_rev_None)

lemma trim_space_idem [simp]: "trim_space (trim_space s) = trim_space s"
  by (rule trim_space_fixed [OF trim_space_no_leading trim_space_no_trailing])

lemma trim_space_Nil [simp]: "trim_space [] = []"
  by (rule trim_space_fixed) simp_all

lemmas trim_space_eval [go_simps] =
  trim_space_def trim_right_space_def trim_left_space.simps trim_left_space_rev.simps
  ascii_space_def space2_def space3_def

subsection \<open>Case mapping\<close>

definition lower_char :: "char \<Rightarrow> char" where
  "lower_char c = (if 65 \<le> (of_char c :: nat) \<and> (of_char c :: nat) \<le> 90
                   then char_of ((of_char c :: nat) + 32) else c)"

text \<open>\<^verbatim>\<open>strings.ToLower\<close>: the Kelvin sign and the dotted capital I become ASCII letters.\<close>

fun to_lower :: "string \<Rightarrow> string" where
  "to_lower [] = []"
| "to_lower (a # s) =
     (if a = CHR 0xE2 \<and> take 2 s = [CHR 0x84, CHR 0xAA] then CHR ''k'' # to_lower (drop 2 s)
      else if a = CHR 0xC4 \<and> take 1 s = [CHR 0xB0] then CHR ''i'' # to_lower (drop 1 s)
      else lower_char a # to_lower s)"

text \<open>\<^verbatim>\<open>strings.EqualFold\<close>: equality after simple case folding.\<close>

fun fold_case :: "string \<Rightarrow> string" where
  "fold_case [] = []"
| "fold_case (a # s) =
     (if a = CHR 0xE2 \<and> take 2 s = [CHR 0x84, CHR 0xAA] then CHR ''k'' # fold_case (drop 2 s)
      else if a = CHR 0xC5 \<and> take 1 s = [CHR 0xBF] then CHR ''s'' # fold_case (drop 1 s)
      else lower_char a # fold_case s)"

definition equal_fold :: "string \<Rightarrow> string \<Rightarrow> bool" where
  "equal_fold s t \<longleftrightarrow> fold_case s = fold_case t"

text \<open>The normal form the code compares: \<^verbatim>\<open>strings.ToLower(strings.TrimSpace(s))\<close>.\<close>

definition norm_lower :: "string \<Rightarrow> string" where
  "norm_lower s = to_lower (trim_space s)"

lemma norm_lower_trim [simp]: "norm_lower (trim_space s) = norm_lower s"
  by (simp add: norm_lower_def)

lemma norm_lower_Nil [simp]: "norm_lower [] = []"
  by (simp add: norm_lower_def)

lemmas to_lower_eval [go_simps] = norm_lower_def equal_fold_def lower_char_def

subsection \<open>Searching and cutting\<close>

definition has_prefix :: "string \<Rightarrow> string \<Rightarrow> bool" where
  "has_prefix s p \<longleftrightarrow> take (length p) s = p"

definition has_suffix :: "string \<Rightarrow> string \<Rightarrow> bool" where
  "has_suffix s p \<longleftrightarrow> take (length p) (rev s) = rev p"

definition trim_prefix :: "string \<Rightarrow> string \<Rightarrow> string" where
  "trim_prefix s p = (if has_prefix s p then drop (length p) s else s)"

text \<open>\<^verbatim>\<open>strings.Index\<close>, with \<^term>\<open>None\<close> for the result \<open>-1\<close>.\<close>

fun index_of :: "string \<Rightarrow> string \<Rightarrow> nat option" where
  "index_of [] p = (if p = [] then Some 0 else None)"
| "index_of (c # s) p =
     (if has_prefix (c # s) p then Some 0 else map_option Suc (index_of s p))"

definition contains :: "string \<Rightarrow> string \<Rightarrow> bool" where
  "contains s p \<longleftrightarrow> index_of s p \<noteq> None"

text \<open>\<^verbatim>\<open>strings.TrimRight(s, cutset)\<close> and \<^verbatim>\<open>strings.TrimLeft\<close> for an ASCII cutset.\<close>

definition trim_right_set :: "string \<Rightarrow> string \<Rightarrow> string" where
  "trim_right_set s cutset = rev (dropWhile (\<lambda>c. c \<in> set cutset) (rev s))"

definition trim_left_set :: "string \<Rightarrow> string \<Rightarrow> string" where
  "trim_left_set s cutset = dropWhile (\<lambda>c. c \<in> set cutset) s"

text \<open>\<^verbatim>\<open>strings.Cut\<close>-like: \<open>SplitN(s, sep, 2)\<close> gives one part, or the two around the first \<open>sep\<close>.\<close>

definition split_n2 :: "string \<Rightarrow> string \<Rightarrow> string list" where
  "split_n2 s sep =
     (case index_of s sep of
        None \<Rightarrow> [s]
      | Some i \<Rightarrow> [take i s, drop (i + length sep) s])"

text \<open>\<^verbatim>\<open>strings.Split\<close> by a one-byte separator.\<close>

fun split_char :: "char \<Rightarrow> string \<Rightarrow> string list" where
  "split_char sep [] = [[]]"
| "split_char sep (c # s) =
     (if c = sep then [] # split_char sep s
      else (case split_char sep s of [] \<Rightarrow> [[c]] | w # ws \<Rightarrow> (c # w) # ws))"

text \<open>\<^verbatim>\<open>strings.Join\<close>.\<close>

fun join :: "string list \<Rightarrow> string \<Rightarrow> string" where
  "join [] sep = []"
| "join [w] sep = w"
| "join (w # v # ws) sep = w @ sep @ join (v # ws) sep"

text \<open>\<^verbatim>\<open>strings.Fields\<close>: the maximal runs of bytes that are not white space.\<close>

function fields_acc :: "string \<Rightarrow> string \<Rightarrow> string list" where
  "fields_acc acc s =
     (case drop_space s of
        Some t \<Rightarrow> (if acc = [] then fields_acc [] t else acc # fields_acc [] t)
      | None \<Rightarrow> (case s of
            [] \<Rightarrow> if acc = [] then [] else [acc]
          | c # t \<Rightarrow> fields_acc (acc @ [c]) t))"
  by pat_completeness auto
termination
  by (relation "measure (\<lambda>(acc, s). length s)") (auto dest: drop_space_length)

declare fields_acc.simps [simp del]

definition fields :: "string \<Rightarrow> string list" where
  "fields s = fields_acc [] s"

text \<open>\<^verbatim>\<open>strings.ReplaceAll(s, old, new)\<close> for a non-empty \<open>old\<close>: left to right, no overlaps.\<close>

function replace_all :: "string \<Rightarrow> string \<Rightarrow> string \<Rightarrow> string" where
  "replace_all s old new =
     (case s of [] \<Rightarrow> []
      | c # t \<Rightarrow> if old \<noteq> [] \<and> has_prefix s old
                 then new @ replace_all (drop (length old) s) old new
                 else c # replace_all t old new)"
  by pat_completeness auto
termination
  by (relation "measure (\<lambda>(s, old, new). length s)") (auto simp: neq_Nil_conv)

declare replace_all.simps [simp del]

lemmas search_eval [go_simps] =
  has_prefix_def has_suffix_def trim_prefix_def contains_def trim_right_set_def
  trim_left_set_def split_n2_def fields_def fields_acc.simps replace_all.simps

subsection \<open>Decimal numerals\<close>

definition digit_char :: "nat \<Rightarrow> char" where
  "digit_char d = char_of (d + 48)"

fun nat_digits :: "nat \<Rightarrow> string" where
  "nat_digits n = (if n < 10 then [digit_char n] else nat_digits (n div 10) @ [digit_char (n mod 10)])"

declare nat_digits.simps [simp del]

text \<open>\<^verbatim>\<open>strconv.Itoa\<close>, also the \<^verbatim>\<open>%d\<close> of \<^verbatim>\<open>fmt.Sprintf\<close>.\<close>

definition itoa :: "int \<Rightarrow> string" where
  "itoa i = (if i < 0 then CHR ''-'' # nat_digits (nat (- i)) else nat_digits (nat i))"

definition is_digit :: "char \<Rightarrow> bool" where
  "is_digit c \<longleftrightarrow> 48 \<le> (of_char c :: nat) \<and> (of_char c :: nat) \<le> 57"

fun digits_value :: "nat \<Rightarrow> string \<Rightarrow> nat" where
  "digits_value acc [] = acc"
| "digits_value acc (c # s) = digits_value (10 * acc + ((of_char c :: nat) - 48)) s"

lemma of_char_digit_char: "d < 10 \<Longrightarrow> (of_char (digit_char d) :: nat) = d + 48"
  by (simp add: digit_char_def)

lemma digits_value_append:
  "digits_value acc (s @ t) = digits_value (digits_value acc s) t"
  by (induction s arbitrary: acc) simp_all

lemma nat_digits_value: "digits_value 0 (nat_digits n) = n"
proof (induction n rule: nat_digits.induct)
  case (1 n)
  show ?case
  proof (cases "n < 10")
    case True
    then show ?thesis by (simp add: nat_digits.simps [of n] of_char_digit_char)
  next
    case False
    with 1 show ?thesis
      by (simp add: nat_digits.simps [of n] digits_value_append of_char_digit_char)
  qed
qed

lemma nat_digits_is_digit: "c \<in> set (nat_digits n) \<Longrightarrow> is_digit c"
proof (induction n rule: nat_digits.induct)
  case (1 n)
  then show ?case
    by (cases "n < 10") (auto simp: nat_digits.simps [of n] of_char_digit_char is_digit_def)
qed

lemma nat_digits_inj: "nat_digits m = nat_digits n \<longleftrightarrow> m = n"
  using nat_digits_value by metis

lemma itoa_inj [simp]: "itoa i = itoa j \<longleftrightarrow> i = j"
proof
  have dash: "CHR ''-'' \<notin> set (nat_digits k)" for k
    using nat_digits_is_digit [of "CHR ''-''" k] by (auto simp: is_digit_def)
  have neq: "CHR ''-'' # s \<noteq> nat_digits k" for s k
    using dash [of k] by (metis list.set_intros(1))
  assume eq: "itoa i = itoa j"
  show "i = j"
  proof (cases "i < 0")
    case True
    then show ?thesis
      using eq neq by (auto simp: itoa_def nat_digits_inj split: if_splits)
  next
    case False
    then show ?thesis
      using eq neq by (auto simp: itoa_def nat_digits_inj neq [symmetric] split: if_splits)
  qed
qed simp

lemma itoa_chars: "c \<in> set (itoa i) \<Longrightarrow> is_digit c \<or> c = CHR ''-''"
  by (auto simp: itoa_def dest: nat_digits_is_digit split: if_splits)

text \<open>Two separated fields can be told apart when the separator is not in the first.\<close>

lemma append_sep_inj:
  assumes "a @ x # b = a' @ x # b'" and "x \<notin> set a" and "x \<notin> set a'"
  shows "a = a' \<and> b = b'"
  using assms
proof (induction a arbitrary: a')
  case Nil
  then show ?case by (cases a') auto
next
  case (Cons y ys)
  then show ?case by (cases a') auto
qed

subsection \<open>Splitting, joining and blank texts\<close>

lemma split_char_fresh: "c \<notin> set w \<Longrightarrow> split_char c w = [w]"
  by (induction w) auto

lemma split_char_append: "c \<notin> set w \<Longrightarrow> split_char c (w @ c # s) = w # split_char c s"
  by (induction w) auto

lemma split_char_join:
  "ws \<noteq> [] \<Longrightarrow> list_all (\<lambda>w. c \<notin> set w) ws \<Longrightarrow> split_char c (join ws [c]) = ws"
  by (induction ws "[c]" rule: join.induct) (auto simp: split_char_fresh split_char_append)

lemma replace_all_fresh: "c \<notin> set s \<Longrightarrow> replace_all s (c # old) new = s"
proof (induction s)
  case (Cons x s)
  then show ?case by (subst replace_all.simps) (auto simp: has_prefix_def)
qed (simp add: replace_all.simps)

lemma trim_right_set_last: "s \<noteq> [] \<Longrightarrow> last s \<notin> set cs \<Longrightarrow> trim_right_set s cs = s"
  by (cases s rule: rev_cases) (auto simp: trim_right_set_def)

text \<open>A text that begins with a printable ASCII character is not blank.\<close>

definition space_byte :: "char \<Rightarrow> bool" where
  "space_byte c \<longleftrightarrow> ascii_space c \<or> 128 \<le> (of_char c :: nat)"

lemma space_bytes: "space2 a b \<Longrightarrow> space_byte a \<and> space_byte b" "space3 a b c \<Longrightarrow> space_byte a \<and> space_byte b \<and> space_byte c"
  by (auto simp: space2_def space3_def space_byte_def)

lemma drop_space_rev_bytes: "drop_space_rev s = Some t \<Longrightarrow> \<exists>p. s = p @ t \<and> list_all space_byte p"
proof (cases s)
  case (Cons a r)
  assume d: "drop_space_rev s = Some t"
  then consider "t = r" "ascii_space a" | b where "r = b # t" "space2 b a" | b c where "r = b # c # t" "space3 c b a"
    using Cons by (auto split: if_splits list.splits)
  then show ?thesis
  proof cases
    case 1
    then show ?thesis using Cons by (auto intro: exI [of _ "[a]"] simp: space_byte_def)
  next
    case 2
    then show ?thesis using Cons space_bytes(1) by (auto intro!: exI [of _ "[a, b]"])
  next
    case 3
    then show ?thesis using Cons space_bytes(2) by (auto intro!: exI [of _ "[a, b, c]"])
  qed
qed simp

lemma trim_left_space_rev_Nil: "trim_left_space_rev s = [] \<Longrightarrow> list_all space_byte s"
proof (induction s rule: trim_left_space_rev.induct)
  case (1 s)
  show ?case
  proof (cases "drop_space_rev s")
    case None
    then show ?thesis using 1 by (simp add: trim_left_space_rev_None)
  next
    case (Some t)
    then show ?thesis using 1 drop_space_rev_bytes [OF Some] by (auto simp: trim_left_space_rev_Some)
  qed
qed

lemma trim_space_not_blank:
  assumes "\<not> space_byte c" shows "trim_space (c # s) \<noteq> []"
proof -
  have "\<not> ascii_space c" "\<not> space2 c b" "\<not> space3 c b d" for b d
    using assms space_bytes(1) [of c b] space_bytes(2) [of c b d] by (auto simp: space_byte_def)
  then have "drop_space (c # s) = None" by (simp split: list.split)
  then have "trim_space (c # s) = rev (trim_left_space_rev (rev (c # s)))"
    by (simp add: trim_space_def trim_right_space_def trim_left_space_None)
  then show ?thesis using trim_left_space_rev_Nil [of "rev (c # s)"] assms by auto
qed

end
