(* ===== verification/Db.thy ===== *)
theory Db
  imports Complex_Main Go_Strings
begin

text \<open>
  The database underneath every service: the row types of \<^verbatim>\<open>internal/db/models.go\<close>, the
  tables of the embedded migrations, and the way Go code runs statements on them.

  A table is the list of its rows in insertion order together with its AUTOINCREMENT counter.
  A \<^verbatim>\<open>sql.NullX\<close> is an option, a \<^verbatim>\<open>time.Time\<close> an integer number of nanoseconds on one
  clock, a \<^verbatim>\<open>json.RawMessage\<close> an optional byte string, a finite \<^verbatim>\<open>float64\<close> a rational.

  A call of the store is a function from the database to an error or a value and the new
  database. Besides the errors a statement raises itself (no row, duplicate key, foreign key),
  the connection may fail at any call: the field \<open>faults\<close> is the schedule of those failures,
  one boolean consumed per call, so a theorem about an arbitrary database is a theorem about
  every pattern of failures. \<open>run_tx\<close> is \<^verbatim>\<open>RunTxWithStore\<close>: begin, run, commit or roll back.
\<close>

named_theorems db_simps \<open>execution of store calls\<close>

type_synonym time = int

subsection \<open>Rows\<close>

record gitlab_instance =
  gi_id :: int
  gi_url :: string
  gi_name :: string
  gi_created_at :: time
  gi_updated_at :: time

record project =
  pr_id :: int
  pr_gitlab_instance_id :: int
  pr_gitlab_project_id :: int
  pr_path_with_namespace :: string
  pr_enabled :: bool
  pr_created_at :: time
  pr_updated_at :: time

record project_policy =
  pp_id :: int
  pp_project_id :: int
  pp_confidence_threshold :: rat
  pp_severity_threshold :: string
  pp_include_paths :: "string option"
  pp_exclude_paths :: "string option"
  pp_gate_mode :: string
  pp_provider_route :: string
  pp_extra :: "string option"
  pp_created_at :: time
  pp_updated_at :: time

record hook_event =
  he_id :: int
  he_delivery_key :: string
  he_hook_source :: string
  he_event_type :: string
  he_gitlab_instance_id :: "int option"
  he_project_id :: "int option"
  he_mr_iid :: "int option"
  he_action :: string
  he_head_sha :: string
  he_payload :: "string option"
  he_verification_outcome :: string
  he_rejection_reason :: string
  he_received_at :: time

record merge_request =
  mr_id :: int
  mr_project_id :: int
  mr_mr_iid :: int
  mr_title :: string
  mr_source_branch :: string
  mr_target_branch :: string
  mr_author :: string
  mr_state :: string
  mr_is_draft :: bool
  mr_head_sha :: string
  mr_web_url :: string
  mr_created_at :: time
  mr_updated_at :: time

record mr_version =
  mv_id :: int
  mv_merge_request_id :: int
  mv_gitlab_version_id :: int
  mv_base_sha :: string
  mv_start_sha :: string
  mv_head_sha :: string
  mv_patch_id_sha :: string
  mv_created_at :: time

record review_run =
  rr_id :: int
  rr_project_id :: int
  rr_merge_request_id :: int
  rr_hook_event_id :: "int option"
  rr_trigger_type :: string
  rr_head_sha :: string
  rr_status :: string
  rr_error_code :: string
  rr_error_detail :: "string option"
  rr_superseded_by_run_id :: "int option"
  rr_retry_count :: int
  rr_max_retries :: int
  rr_next_retry_at :: "time option"
  rr_claimed_by :: string
  rr_claimed_at :: "time option"
  rr_started_at :: "time option"
  rr_completed_at :: "time option"
  rr_provider_latency_ms :: int
  rr_provider_tokens_total :: int
  rr_idempotency_key :: string
  rr_created_at :: time
  rr_updated_at :: time
  rr_scope_json :: "string option"

record review_finding =
  rf_id :: int
  rf_review_run_id :: int
  rf_merge_request_id :: int
  rf_category :: string
  rf_severity :: string
  rf_confidence :: rat
  rf_title :: string
  rf_body_markdown :: "string option"
  rf_path :: string
  rf_anchor_kind :: string
  rf_old_line :: "int option"
  rf_new_line :: "int option"
  rf_range_start_kind :: "string option"
  rf_range_start_old_line :: "int option"
  rf_range_start_new_line :: "int option"
  rf_range_end_kind :: "string option"
  rf_range_end_old_line :: "int option"
  rf_range_end_new_line :: "int option"
  rf_anchor_snippet :: "string option"
  rf_evidence :: "string option"
  rf_suggested_patch :: "string option"
  rf_canonical_key :: string
  rf_anchor_fingerprint :: string
  rf_semantic_fingerprint :: string
  rf_state :: string
  rf_matched_finding_id :: "int option"
  rf_last_seen_run_id :: "int option"
  rf_gitlab_discussion_id :: string
  rf_error_code :: string
  rf_created_at :: time
  rf_updated_at :: time

record gitlab_discussion =
  gd_id :: int
  gd_review_finding_id :: int
  gd_merge_request_id :: int
  gd_gitlab_discussion_id :: string
  gd_discussion_type :: string
  gd_resolved :: bool
  gd_superseded_by_discussion_id :: "int option"
  gd_created_at :: time
  gd_updated_at :: time

record comment_action =
  ca_id :: int
  ca_review_run_id :: int
  ca_review_finding_id :: "int option"
  ca_action_type :: string
  ca_idempotency_key :: string
  ca_status :: string
  ca_error_code :: string
  ca_error_detail :: "string option"
  ca_retry_count :: int
  ca_latency_ms :: int
  ca_created_at :: time
  ca_updated_at :: time

record audit_log =
  al_id :: int
  al_entity_type :: string
  al_entity_id :: int
  al_action :: string
  al_actor :: string
  al_detail :: "string option"
  al_delivery_key :: string
  al_hook_source :: string
  al_verification_outcome :: string
  al_rejection_reason :: string
  al_error_code :: string
  al_created_at :: time

record worker_heartbeat =
  wh_worker_id :: string
  wh_hostname :: string
  wh_version :: string
  wh_configured_concurrency :: int
  wh_started_at :: time
  wh_last_seen_at :: time
  wh_created_at :: time
  wh_updated_at :: time

record identity_mapping =
  im_id :: int
  im_platform :: string
  im_project_path :: string
  im_git_identity_key :: string
  im_git_email :: string
  im_git_name :: string
  im_observed_role :: string
  im_platform_username :: string
  im_platform_user_id :: string
  im_head_sha :: string
  im_confidence :: rat
  im_source :: string
  im_status :: string
  im_last_seen_run_id :: "int option"
  im_resolved_by :: string
  im_resolved_at :: "time option"
  im_resolution_detail :: "string option"
  im_created_at :: time
  im_updated_at :: time

subsection \<open>Zero values\<close>

text \<open>The zero values of the row types, as a Go struct literal leaves unset fields.\<close>

definition zero_gitlab_instance :: gitlab_instance where
  "zero_gitlab_instance = \<lparr>gi_id = 0, gi_url = [], gi_name = [], gi_created_at = 0, gi_updated_at = 0\<rparr>"

definition zero_project :: project where
  "zero_project = \<lparr>pr_id = 0, pr_gitlab_instance_id = 0, pr_gitlab_project_id = 0, pr_path_with_namespace =
     [], pr_enabled = False, pr_created_at = 0, pr_updated_at = 0\<rparr>"

definition zero_project_policy :: project_policy where
  "zero_project_policy = \<lparr>pp_id = 0, pp_project_id = 0, pp_confidence_threshold = 0, pp_severity_threshold = [],
     pp_include_paths = None, pp_exclude_paths = None, pp_gate_mode = [], pp_provider_route =
     [], pp_extra = None, pp_created_at = 0, pp_updated_at = 0\<rparr>"

definition zero_hook_event :: hook_event where
  "zero_hook_event = \<lparr>he_id = 0, he_delivery_key = [], he_hook_source = [], he_event_type = [],
     he_gitlab_instance_id = None, he_project_id = None, he_mr_iid = None, he_action = [],
     he_head_sha = [], he_payload = None, he_verification_outcome = [], he_rejection_reason =
     [], he_received_at = 0\<rparr>"

definition zero_merge_request :: merge_request where
  "zero_merge_request = \<lparr>mr_id = 0, mr_project_id = 0, mr_mr_iid = 0, mr_title = [], mr_source_branch = [],
     mr_target_branch = [], mr_author = [], mr_state = [], mr_is_draft = False, mr_head_sha =
     [], mr_web_url = [], mr_created_at = 0, mr_updated_at = 0\<rparr>"

definition zero_review_run :: review_run where
  "zero_review_run = \<lparr>rr_id = 0, rr_project_id = 0, rr_merge_request_id = 0, rr_hook_event_id = None,
     rr_trigger_type = [], rr_head_sha = [], rr_status = [], rr_error_code = [],
     rr_error_detail = None, rr_superseded_by_run_id = None, rr_retry_count = 0,
     rr_max_retries = 0, rr_next_retry_at = None, rr_claimed_by = [], rr_claimed_at = None,
     rr_started_at = None, rr_completed_at = None, rr_provider_latency_ms = 0,
     rr_provider_tokens_total = 0, rr_idempotency_key = [], rr_created_at = 0, rr_updated_at
     = 0, rr_scope_json = None\<rparr>"

definition zero_review_finding :: review_finding where
  "zero_review_finding = \<lparr>rf_id = 0, rf_review_run_id = 0, rf_merge_request_id = 0, rf_category = [], rf_severity
     = [], rf_confidence = 0, rf_title = [], rf_body_markdown = None, rf_path = [],
     rf_anchor_kind = [], rf_old_line = None, rf_new_line = None, rf_range_start_kind = None,
     rf_range_start_old_line = None, rf_range_start_new_line = None, rf_range_end_kind =
     None, rf_range_end_old_line = None, rf_range_end_new_line = None, rf_anchor_snippet =
     None, rf_evidence = None, rf_suggested_patch = None, rf_canonical_key = [],
     rf_anchor_fingerprint = [], rf_semantic_fingerprint = [], rf_state = [],
     rf_matched_finding_id = None, rf_last_seen_run_id = None, rf_gitlab_discussion_id = [],
     rf_error_code = [], rf_created_at = 0, rf_updated_at = 0\<rparr>"

definition zero_gitlab_discussion :: gitlab_discussion where
  "zero_gitlab_discussion = \<lparr>gd_id = 0, gd_review_finding_id = 0, gd_merge_request_id = 0, gd_gitlab_discussion_id =
     [], gd_discussion_type = [], gd_resolved = False, gd_superseded_by_discussion_id = None,
     gd_created_at = 0, gd_updated_at = 0\<rparr>"

definition zero_comment_action :: comment_action where
  "zero_comment_action = \<lparr>ca_id = 0, ca_review_run_id = 0, ca_review_finding_id = None, ca_action_type = [],
     ca_idempotency_key = [], ca_status = [], ca_error_code = [], ca_error_detail = None,
     ca_retry_count = 0, ca_latency_ms = 0, ca_created_at = 0, ca_updated_at = 0\<rparr>"

subsection \<open>Tables\<close>

record 'r table =
  rows :: "'r list"
  next_id :: int

definition empty_table :: "'r table" where
  "empty_table = \<lparr>rows = [], next_id = 1\<rparr>"

definition insert_row :: "(int \<Rightarrow> 'r) \<Rightarrow> 'r table \<Rightarrow> 'r table" where
  "insert_row mk t = t\<lparr>rows := rows t @ [mk (next_id t)], next_id := next_id t + 1\<rparr>"

definition update_rows :: "('r \<Rightarrow> bool) \<Rightarrow> ('r \<Rightarrow> 'r) \<Rightarrow> 'r table \<Rightarrow> 'r table" where
  "update_rows p f t = t\<lparr>rows := map (\<lambda>r. if p r then f r else r) (rows t)\<rparr>"

definition find_row :: "('r \<Rightarrow> bool) \<Rightarrow> 'r table \<Rightarrow> 'r option" where
  "find_row p t = List.find p (rows t)"

definition count_rows :: "('r \<Rightarrow> bool) \<Rightarrow> 'r table \<Rightarrow> int" where
  "count_rows p t = int (length (filter p (rows t)))"

record db =
  instances :: "gitlab_instance table"
  projects :: "project table"
  policies :: "project_policy table"
  hook_events :: "hook_event table"
  merge_requests :: "merge_request table"
  mr_versions :: "mr_version table"
  review_runs :: "review_run table"
  review_findings :: "review_finding table"
  discussions :: "gitlab_discussion table"
  comment_actions :: "comment_action table"
  audit_logs :: "audit_log table"
  heartbeats :: "worker_heartbeat list"
  identity_mappings :: "identity_mapping table"
  last_rowid :: int
  clock :: time
  faults :: "bool list"

definition empty_db :: db where
  "empty_db = \<lparr>instances = empty_table, projects = empty_table, policies = empty_table,
     hook_events = empty_table, merge_requests = empty_table, mr_versions = empty_table,
     review_runs = empty_table, review_findings = empty_table, discussions = empty_table,
     comment_actions = empty_table, audit_logs = empty_table, heartbeats = [], identity_mappings = empty_table,
     last_rowid = 0, clock = 0, faults = []\<rparr>"

subsection \<open>Errors and store calls\<close>

text \<open>
  Errors by what the code can ask of them: \<open>errors.Is(err, sql.ErrNoRows)\<close>,
  \<open>db.IsDuplicateKeyError(err)\<close>, \<open>errors.As(err, &runErr)\<close>. Wrapping with \<^verbatim>\<open>%w\<close> keeps
  all of them, so a wrapped error is the error it wraps; \<open>ErrMsg\<close> is a fresh error text.
\<close>

datatype go_error =
    ErrNoRows
  | ErrDuplicateKey
  | ErrForeignKey
  | ErrDB
  | ErrNoClaimableRuns
  | ErrRunCancelled
  | ErrContext
  | ErrRun string bool string
  | ErrAction int string
  | ErrMsg string

definition is_duplicate_key_error :: "go_error \<Rightarrow> bool" where
  "is_duplicate_key_error e \<longleftrightarrow> e = ErrDuplicateKey"

type_synonym 'a dbm = "db \<Rightarrow> (go_error + 'a) \<times> db"

definition ret :: "'a \<Rightarrow> 'a dbm" where
  "ret x s = (Inr x, s)"

definition throw :: "go_error \<Rightarrow> 'a dbm" where
  "throw e s = (Inl e, s)"

text \<open>\<open>x, err := m; if err != nil { return err }; ...\<close>\<close>

definition bindM :: "'a dbm \<Rightarrow> ('a \<Rightarrow> 'b dbm) \<Rightarrow> 'b dbm" where
  "bindM m f s = (case m s of (Inl e, s') \<Rightarrow> (Inl e, s') | (Inr x, s') \<Rightarrow> f x s')"

text \<open>\<open>x, err := m\<close> with both looked at.\<close>

definition tryM :: "'a dbm \<Rightarrow> (go_error + 'a \<Rightarrow> 'b dbm) \<Rightarrow> 'b dbm" where
  "tryM m h s = (case m s of (r, s') \<Rightarrow> h r s')"

text \<open>A \<open>for\<close> loop that returns on the first error.\<close>

fun forM :: "'x list \<Rightarrow> ('x \<Rightarrow> unit dbm) \<Rightarrow> unit dbm" where
  "forM [] f = ret ()"
| "forM (x # xs) f = bindM (f x) (\<lambda>_. forM xs f)"

text \<open>One call over the connection.\<close>

definition stmt :: "'a dbm \<Rightarrow> 'a dbm" where
  "stmt f s = (case faults s of
       [] \<Rightarrow> f s
     | b # bs \<Rightarrow> if b then (Inl ErrDB, s\<lparr>faults := bs\<rparr>) else f (s\<lparr>faults := bs\<rparr>))"

text \<open>Rolling back restores the tables; the connection keeps its position in the fault schedule
  and its last inserted id.\<close>

definition rollback :: "db \<Rightarrow> db \<Rightarrow> db" where
  "rollback s0 s = s0\<lparr>faults := faults s, last_rowid := last_rowid s\<rparr>"

definition run_tx :: "'a dbm \<Rightarrow> 'a dbm" where
  "run_tx m s =
     (case stmt (ret ()) s of
        (Inl e, s1) \<Rightarrow> (Inl e, s1)
      | (Inr _, s1) \<Rightarrow>
          (case m s1 of
             (Inl e, s2) \<Rightarrow> (Inl e, rollback s1 s2)
           | (Inr x, s2) \<Rightarrow>
               (case stmt (ret ()) s2 of
                  (Inl e, s3) \<Rightarrow> (Inl e, rollback s1 s3)
                | (Inr _, s3) \<Rightarrow> (Inr x, s3))))"

text \<open>Statement shapes: a query of one row, a query of all rows, an update, an insert.\<close>

definition query_row :: "(db \<Rightarrow> 'r table) \<Rightarrow> ('r \<Rightarrow> bool) \<Rightarrow> 'r dbm" where
  "query_row tbl p = stmt (\<lambda>s. case find_row p (tbl s) of
       None \<Rightarrow> (Inl ErrNoRows, s) | Some r \<Rightarrow> (Inr r, s))"

definition exec :: "(db \<Rightarrow> db) \<Rightarrow> unit dbm" where
  "exec f = stmt (\<lambda>s. (Inr (), f s))"

definition insert_into ::
  "(db \<Rightarrow> 'r table) \<Rightarrow> (('r table \<Rightarrow> 'r table) \<Rightarrow> db \<Rightarrow> db) \<Rightarrow> (time \<Rightarrow> int \<Rightarrow> 'r) \<Rightarrow> int dbm" where
  "insert_into tbl upd mk s =
     (Inr (next_id (tbl s)), (upd (insert_row (mk (clock s))) s)\<lparr>last_rowid := next_id (tbl s)\<rparr>)"

text \<open>ORDER BY created_at DESC LIMIT 1: the first row in the descending order.\<close>

definition latest_by :: "('r \<Rightarrow> time) \<Rightarrow> 'r list \<Rightarrow> 'r list" where
  "latest_by tm rs = sort_key (\<lambda>r. - tm r) rs"

definition query_first :: "(db \<Rightarrow> 'r list) \<Rightarrow> 'r dbm" where
  "query_first sel = stmt (\<lambda>s. case sel s of [] \<Rightarrow> (Inl ErrNoRows, s) | r # _ \<Rightarrow> (Inr r, s))"

definition query_all :: "(db \<Rightarrow> 'r list) \<Rightarrow> 'r list dbm" where
  "query_all sel = stmt (\<lambda>s. (Inr (sel s), s))"

definition page :: "nat \<Rightarrow> nat \<Rightarrow> 'r list \<Rightarrow> 'r list" where
  "page limit offset rs = take limit (drop offset rs)"

subsection \<open>Execution lemmas\<close>

lemma ret_apply [db_simps]: "ret x s = (Inr x, s)"
  by (simp add: ret_def)

lemma throw_apply [db_simps]: "throw e s = (Inl e, s)"
  by (simp add: throw_def)

lemma bindM_Inl [db_simps]: "m s = (Inl e, s') \<Longrightarrow> bindM m f s = (Inl e, s')"
  by (simp add: bindM_def)

lemma bindM_Inr [db_simps]: "m s = (Inr x, s') \<Longrightarrow> bindM m f s = f x s'"
  by (simp add: bindM_def)

lemma tryM_apply [db_simps]: "m s = (r, s') \<Longrightarrow> tryM m h s = h r s'"
  by (simp add: tryM_def)

lemma stmt_ok [db_simps]: "faults s = [] \<Longrightarrow> stmt f s = f s"
  by (simp add: stmt_def)

lemma stmt_cases:
  assumes "stmt f s = (r, t)"
  obtains (fault) "r = Inl ErrDB" and "t = s\<lparr>faults := tl (faults s)\<rparr>"
  | (run) "f (s\<lparr>faults := tl (faults s)\<rparr>) = (r, t)"
proof (cases "faults s")
  case Nil
  then have e: "s\<lparr>faults := tl (faults s)\<rparr> = s" by (cases s) simp
  have "f s = (r, t)" using assms Nil by (simp add: stmt_def)
  then have "f (s\<lparr>faults := tl (faults s)\<rparr>) = (r, t)" unfolding e .
  then show ?thesis by (rule run)
next
  case (Cons b bs)
  with assms fault run show ?thesis by (cases b) (simp_all add: stmt_def)
qed

lemma bindM_ret [simp]: "bindM (ret x) f = f x"
  by (rule ext) (simp add: bindM_def ret_def)

lemma bindM_throw [simp]: "bindM (throw e) f = throw e"
  by (rule ext) (simp add: bindM_def throw_def)

lemma bindM_ret_right [simp]: "bindM m ret = m"
  by (rule ext) (auto simp: bindM_def ret_def split: prod.splits sum.splits)

lemma bindM_assoc: "bindM (bindM m f) g = bindM m (\<lambda>x. bindM (f x) g)"
  by (rule ext) (auto simp: bindM_def split: prod.splits sum.splits)

lemma bindM_elim:
  assumes "bindM m f s = (Inr y, t)"
  obtains x s' where "m s = (Inr x, s')" and "f x s' = (Inr y, t)"
  using assms by (auto simp: bindM_def split: prod.splits sum.splits)

lemma tryM_elim:
  assumes "tryM m h s = (y, t)"
  obtains r s' where "m s = (r, s')" and "h r s' = (y, t)"
  using assms by (auto simp: tryM_def split: prod.splits)

lemma run_InrI: "\<not> isl (fst (m s)) \<Longrightarrow> m s = (Inr (projr (fst (m s))), snd (m s))"
  by (cases "m s") (auto simp: sum.collapse)

lemma exec_ok [db_simps]: "faults s = [] \<Longrightarrow> exec f s = (Inr (), f s)"
  by (simp add: exec_def stmt_def)

subsection \<open>Lookup and update of rows\<close>

lemma rows_insert_row [simp]: "rows (insert_row mk t) = rows t @ [mk (next_id t)]"
  by (simp add: insert_row_def)

lemma next_id_insert_row [simp]: "next_id (insert_row mk t) = next_id t + 1"
  by (simp add: insert_row_def)

lemma rows_update_rows [simp]:
  "rows (update_rows p f t) = map (\<lambda>r. if p r then f r else r) (rows t)"
  by (simp add: update_rows_def)

lemma next_id_update_rows [simp]: "next_id (update_rows p f t) = next_id t"
  by (simp add: update_rows_def)

lemma find_row_Some:
  "find_row p t = Some r \<Longrightarrow> r \<in> set (rows t) \<and> p r"
  by (auto simp: find_row_def find_Some_iff)

lemma find_row_None: "find_row p t = None \<longleftrightarrow> (\<forall>r \<in> set (rows t). \<not> p r)"
  by (auto simp: find_row_def find_None_iff)

lemma find_append: "List.find p (xs @ ys) = (case List.find p xs of Some x \<Rightarrow> Some x | None \<Rightarrow> List.find p ys)"
  by (induction xs) auto

lemma find_row_insert_row:
  "find_row p (insert_row mk t) =
     (case find_row p t of Some r \<Rightarrow> Some r
      | None \<Rightarrow> if p (mk (next_id t)) then Some (mk (next_id t)) else None)"
  by (simp add: find_row_def find_append split: option.split)

lemma find_map_keep:
  assumes "\<And>r. p (f r) = p r"
  shows "List.find p (map f xs) = map_option f (List.find p xs)"
  using assms by (induction xs) auto

lemma find_row_update_rows:
  assumes "\<And>r. p (f r) = p r"
  shows "find_row p (update_rows q f t) = map_option (\<lambda>r. if q r then f r else r) (find_row p t)"
  unfolding find_row_def rows_update_rows
  by (rule find_map_keep) (simp add: assms)

text \<open>With distinct keys, a lookup finds a row exactly when the row is in the table.\<close>

lemma find_row_key:
  assumes "distinct (map key (rows t))" and "r \<in> set (rows t)"
  shows "find_row (\<lambda>x. key x = key r) t = Some r"
proof -
  obtain r' where r': "find_row (\<lambda>x. key x = key r) t = Some r'"
    using assms(2) find_row_None [of "\<lambda>x. key x = key r" t] by (cases "find_row (\<lambda>x. key x = key r) t") auto
  then have "r' \<in> set (rows t)" "key r' = key r" using find_row_Some by fastforce+
  then have "r' = r" using assms by (auto simp: distinct_map dest: inj_onD)
  with r' show ?thesis by simp
qed

subsection \<open>What every call of a program keeps\<close>

text \<open>
  A reflexive and transitive relation between the database before and after, insensitive to the
  connection's own bookkeeping, holds of a whole program when it holds of its statements. An
  invariant is the instance \<open>R s t \<longleftrightarrow> (I s \<longrightarrow> I t)\<close>.
\<close>

definition keeps :: "(db \<Rightarrow> db \<Rightarrow> bool) \<Rightarrow> 'a dbm \<Rightarrow> bool" where
  "keeps R m \<longleftrightarrow> (\<forall>s. R s (snd (m s)))"

lemma keepsD: "keeps R m \<Longrightarrow> m s = (r, t) \<Longrightarrow> R s t"
  unfolding keeps_def by (metis snd_conv)

lemma keepsI: "(\<And>s r t. m s = (r, t) \<Longrightarrow> R s t) \<Longrightarrow> keeps R m"
  unfolding keeps_def by (metis prod.collapse)

locale store_rel =
  fixes R :: "db \<Rightarrow> db \<Rightarrow> bool"
  assumes R_refl: "R s s"
    and R_trans: "R s t \<Longrightarrow> R t u \<Longrightarrow> R s u"
    and R_conn: "R s (s\<lparr>faults := fs, last_rowid := i\<rparr>)"
begin

lemma R_faults: "R s (s\<lparr>faults := fs\<rparr>)"
  using R_conn [where s = s and fs = fs and i = "last_rowid s"] by simp

lemma keeps_ret: "keeps R (ret x)"
  by (simp add: keeps_def ret_def R_refl)

lemma keeps_throw: "keeps R (throw e)"
  by (simp add: keeps_def throw_def R_refl)

lemma keeps_bindM:
  assumes "keeps R m" and "\<And>x. keeps R (f x)"
  shows "keeps R (bindM m f)"
proof (rule keepsI)
  fix s r t
  assume "bindM m f s = (r, t)"
  then show "R s t"
    using keepsD [OF assms(1)] keepsD [OF assms(2)] R_trans
    by (auto simp: bindM_def split: prod.splits sum.splits) blast
qed

lemma keeps_tryM:
  assumes "keeps R m" and "\<And>x. keeps R (h x)"
  shows "keeps R (tryM m h)"
proof (rule keepsI)
  fix s r t
  assume "tryM m h s = (r, t)"
  then show "R s t"
    using keepsD [OF assms(1)] keepsD [OF assms(2)] R_trans
    by (auto simp: tryM_def split: prod.splits) blast
qed

lemma keeps_forM:
  assumes "\<And>x. keeps R (f x)"
  shows "keeps R (forM xs f)"
  using assms by (induction xs) (auto intro: keeps_ret keeps_bindM)

lemma keeps_stmt:
  assumes "\<And>s. R s (snd (f s))"
  shows "keeps R (stmt f)"
proof -
  have "R s (snd (f (s\<lparr>faults := fs\<rparr>)))" for s fs
    using R_faults assms R_trans by blast
  then show ?thesis
    by (auto simp: keeps_def stmt_def assms R_faults split: list.splits)
qed

lemma keeps_query_row: "keeps R (query_row tbl p)"
  unfolding query_row_def by (rule keeps_stmt) (simp add: R_refl split: option.splits)

lemma keeps_exec: "(\<And>s. R s (f s)) \<Longrightarrow> keeps R (exec f)"
  unfolding exec_def by (rule keeps_stmt) simp

lemma keeps_query_first: "keeps R (query_first sel)"
  unfolding query_first_def by (rule keeps_stmt) (simp add: R_refl split: list.splits)

lemma keeps_query_all: "keeps R (query_all sel)"
  unfolding query_all_def by (rule keeps_stmt) (simp add: R_refl)

lemma R_rollback: "R s (rollback s t)"
  unfolding rollback_def by (rule R_conn)

lemma keeps_run_tx:
  assumes "keeps R m"
  shows "keeps R (run_tx m)"
proof (rule keepsI)
  fix s r t
  assume run: "run_tx m s = (r, t)"
  have st: "keeps R (stmt (ret ()))"
    by (rule keeps_stmt) (simp add: ret_def R_refl)
  obtain b s1 where b: "stmt (ret ()) s = (b, s1)" by (cases "stmt (ret ()) s")
  have s1: "R s s1" using keepsD [OF st b] .
  show "R s t"
  proof (cases b)
    case (Inl e)
    with run b s1 show ?thesis by (simp add: run_tx_def)
  next
    case (Inr u)
    obtain x s2 where x: "m s1 = (x, s2)" by (cases "m s1")
    have s2: "R s1 s2" using keepsD [OF assms x] .
    obtain y s3 where y: "stmt (ret ()) s2 = (y, s3)" by (cases "stmt (ret ()) s2")
    have s3: "R s2 s3" using keepsD [OF st y] .
    have "R s1 t"
      using run b x y Inr R_rollback s2 s3 R_trans [OF s2 s3]
      by (auto simp: run_tx_def split: sum.splits)
    with s1 R_trans show ?thesis by blast
  qed
qed

text \<open>One step into a program whose first call keeps the relation.\<close>

lemma bindM_step:
  assumes "keeps R m" and "bindM m f s = (r, t)"
  obtains (err) e where "r = Inl e" and "R s t"
  | (ok) x s1 where "R s s1" and "m s = (Inr x, s1)" and "f x s1 = (r, t)"
  using assms(2) keepsD [OF assms(1)] by (auto simp: bindM_def split: prod.splits sum.splits)

lemmas keeps_rules =
  keeps_ret keeps_throw keeps_bindM keeps_tryM keeps_forM keeps_query_row
  keeps_query_first keeps_query_all keeps_run_tx

end

text \<open>A transaction that reports an error has changed no table.\<close>

definition same_tables :: "db \<Rightarrow> db \<Rightarrow> bool" where
  "same_tables s t \<longleftrightarrow> (\<exists>fs i. t = s\<lparr>faults := fs, last_rowid := i\<rparr>)"

interpretation same: store_rel same_tables
proof unfold_locales
  show "same_tables s s" for s
    unfolding same_tables_def by (rule exI [of _ "faults s"], rule exI [of _ "last_rowid s"]) simp
  show "same_tables s (s\<lparr>faults := fs, last_rowid := i\<rparr>)" for s fs i
    unfolding same_tables_def by blast
  show "same_tables s u" if "same_tables s t" and "same_tables t u" for s t u
  proof -
    from that obtain fs i gs j
      where "t = s\<lparr>faults := fs, last_rowid := i\<rparr>" and "u = t\<lparr>faults := gs, last_rowid := j\<rparr>"
      unfolding same_tables_def by blast
    then have "u = s\<lparr>faults := gs, last_rowid := j\<rparr>" by simp
    then show ?thesis unfolding same_tables_def by blast
  qed
qed

lemma run_tx_error_same_tables:
  assumes "run_tx m s = (Inl e, t)"
  shows "same_tables s t"
proof -
  have st: "keeps same_tables (stmt (ret ()))"
    by (rule same.keeps_stmt) (simp add: ret_def same.R_refl)
  obtain b s1 where b: "stmt (ret ()) s = (b, s1)" by (cases "stmt (ret ()) s")
  have s1: "same_tables s s1" using keepsD [OF st b] .
  have "same_tables s1 t \<or> t = s1"
    using assms b same.R_rollback [of s1]
    by (auto simp: run_tx_def split: sum.splits prod.splits)
  with s1 same.R_trans show ?thesis by blast
qed

lemma query_row_Inr:
  assumes "query_row tbl p s = (Inr r, t)" and "\<And>fs. tbl (s\<lparr>faults := fs\<rparr>) = tbl s"
  shows "find_row p (tbl s) = Some r \<and> same_tables s t"
proof
  show "same_tables s t" by (rule keepsD [OF same.keeps_query_row assms(1)])
  show "find_row p (tbl s) = Some r"
    using assms(1) unfolding query_row_def
    by (cases rule: stmt_cases) (auto simp: assms(2) split: option.splits)
qed

lemma run_tx_InrE:
  assumes "run_tx m s = (Inr x, t)"
  obtains s1 s2 where "same_tables s s1" and "m s1 = (Inr x, s2)" and "same_tables s2 t"
proof -
  have st: "keeps same_tables (stmt (ret ()))"
    by (rule same.keeps_stmt) (simp add: ret_def same.R_refl)
  obtain b s1 where b: "stmt (ret ()) s = (b, s1)" by (cases "stmt (ret ()) s")
  with assms obtain s2 where s2: "m s1 = (Inr x, s2)" "stmt (ret ()) s2 = (Inr (), t)"
    by (auto simp: run_tx_def split: sum.splits prod.splits)
  show ?thesis by (rule that [OF keepsD [OF st b] s2(1) keepsD [OF st s2(2)]])
qed

lemma run_tx_ok:
  assumes "faults s = []" and "m s = (Inr x, t)" and "faults t = []"
  shows "run_tx m s = (Inr x, t)"
  using assms by (simp add: run_tx_def stmt_def ret_def)

lemma run_tx_err:
  assumes "faults s = []" and "m s = (Inl e, t)"
  shows "run_tx m s = (Inl e, rollback s t)"
  using assms by (simp add: run_tx_def stmt_def ret_def)

subsection \<open>Uniquely keyed tables\<close>

text \<open>
  A table is in order when ids and keys are distinct and the counter is above every id. Inserts of
  a fresh key and updates that keep id and key preserve it.
\<close>

definition table_ok :: "('r \<Rightarrow> int) \<Rightarrow> ('r \<Rightarrow> 'k) \<Rightarrow> 'r table \<Rightarrow> bool" where
  "table_ok rid key t \<longleftrightarrow> distinct (map rid (rows t)) \<and> distinct (map key (rows t))
     \<and> 0 < next_id t \<and> (\<forall>r \<in> set (rows t). 0 < rid r \<and> rid r < next_id t)"

lemma table_ok_empty [simp]: "table_ok rid key empty_table"
  by (simp add: table_ok_def empty_table_def)

lemma table_ok_insert:
  assumes "table_ok rid key t" and "find_row (\<lambda>r. key r = k) t = None"
    and "rid (mk (next_id t)) = next_id t" and "key (mk (next_id t)) = k"
  shows "table_ok rid key (insert_row mk t)"
  using assms by (auto simp: table_ok_def find_row_None)

lemma map_update_key:
  assumes "\<And>r. key (f r) = key r"
  shows "map key (map (\<lambda>r. if p r then f r else r) xs) = map key xs"
  using assms by (induction xs) auto

lemma table_ok_update:
  assumes "table_ok rid key t" and "\<And>r. rid (f r) = rid r" and "\<And>r. key (f r) = key r"
  shows "table_ok rid key (update_rows p f t)"
  using assms map_update_key [of rid f p] map_update_key [of key f p]
  by (auto simp: table_ok_def simp del: map_map)

lemma table_ok_find_id:
  assumes "table_ok rid key t" and "r \<in> set (rows t)"
  shows "find_row (\<lambda>x. rid x = rid r) t = Some r"
  using assms by (intro find_row_key) (auto simp: table_ok_def)

lemma table_ok_find_key:
  assumes "table_ok rid key t" and "r \<in> set (rows t)"
  shows "find_row (\<lambda>x. key x = key r) t = Some r"
  using assms by (intro find_row_key) (auto simp: table_ok_def)

text \<open>
  The interface every idempotency check of the services relies on: a lookup by key and an INSERT
  guarded by UNIQUE on that key.
\<close>

locale keyed_insert =
  fixes tbl :: "db \<Rightarrow> 'r table"
    and rid :: "'r \<Rightarrow> int"
    and key :: "'r \<Rightarrow> string"
    and pkey :: "'p \<Rightarrow> string"
    and ins :: "'p \<Rightarrow> int dbm"
    and get :: "string \<Rightarrow> 'r dbm"
  assumes get_eq: "get k = query_row tbl (\<lambda>r. key r = k)"
    and ins_some: "ins p s = (Inr i, t) \<Longrightarrow> find_row (\<lambda>r. key r = pkey p) (tbl s) = None \<and>
      (\<exists>mk. tbl t = insert_row mk (tbl s) \<and> i = next_id (tbl s)
         \<and> rid (mk (next_id (tbl s))) = next_id (tbl s) \<and> key (mk (next_id (tbl s))) = pkey p)"
    and ins_none: "ins p s = (Inl e, t) \<Longrightarrow> tbl t = tbl s"
    and ins_dup: "faults s = [] \<Longrightarrow> find_row (\<lambda>r. key r = pkey p) (tbl s) \<noteq> None \<Longrightarrow>
      ins p s = (Inl ErrDuplicateKey, s)"
    and ins_faults: "faults s = [] \<Longrightarrow> faults (snd (ins p s)) = []"
begin

lemma ins_keeps_ok:
  assumes "ins p s = (r, t)" and "table_ok rid key (tbl s)"
  shows "table_ok rid key (tbl t)"
proof (cases r)
  case (Inl e)
  with assms ins_none show ?thesis by simp
next
  case (Inr i)
  with assms(1) ins_some obtain mk where mk: "find_row (\<lambda>r. key r = pkey p) (tbl s) = None"
    "tbl t = insert_row mk (tbl s)" "rid (mk (next_id (tbl s))) = next_id (tbl s)"
    "key (mk (next_id (tbl s))) = pkey p" by blast
  show ?thesis unfolding mk(2)
    by (rule table_ok_insert [where k = "pkey p"]) (use assms(2) mk in auto)
qed

text \<open>What was inserted is found under its key, with the id the INSERT reported.\<close>

lemma get_after_ins:
  assumes "ins p s = (Inr i, t)" and "faults s = []"
  shows "\<exists>r. get (pkey p) t = (Inr r, t) \<and> rid r = i \<and> key r = pkey p"
proof -
  from ins_some [OF assms(1)] obtain mk where mk: "find_row (\<lambda>r. key r = pkey p) (tbl s) = None"
    "tbl t = insert_row mk (tbl s)" "i = next_id (tbl s)" "rid (mk (next_id (tbl s))) = next_id (tbl s)"
    "key (mk (next_id (tbl s))) = pkey p" by blast
  have "faults t = []" using ins_faults [OF assms(2), of p] assms(1) by simp
  with mk show ?thesis
    by (simp add: get_eq query_row_def stmt_def find_row_insert_row)
qed

text \<open>An insert is refused exactly when the key is taken: a second one never adds a row.\<close>

lemma ins_twice:
  assumes "ins p s = (Inr i, t)" and "faults s = []" and "pkey q = pkey p"
  shows "ins q t = (Inl ErrDuplicateKey, t)"
proof (rule ins_dup)
  show "faults t = []" using ins_faults [OF assms(2), of p] assms(1) by simp
  from ins_some [OF assms(1)] assms(3)
  show "find_row (\<lambda>r. key r = pkey q) (tbl t) \<noteq> None"
    by (auto simp: find_row_insert_row)
qed

end

end
