(* ===== verification/Db_Runs.thy ===== *)
theory Db_Runs
  imports Db "HOL-Library.Product_Lexorder"
begin

text \<open>
  The statements on \<^verbatim>\<open>review_runs\<close>: \<^verbatim>\<open>internal/db/sqlitedb/review_runs.go\<close>. Each UPDATE is the
  function its SET clause denotes, applied to the rows of its WHERE clause;
  \<^verbatim>\<open>CURRENT_TIMESTAMP\<close> and \<^verbatim>\<open>datetime('now')\<close> read the database clock. The theory ends with the
  invariant of the table and what each statement does to it.
\<close>

definition second :: time where
  "second = 1000000000"

definition minute :: time where
  "minute = 60 * second"

subsection \<open>Statements\<close>

definition update_runs ::
  "(time \<Rightarrow> review_run \<Rightarrow> bool) \<Rightarrow> (time \<Rightarrow> review_run \<Rightarrow> review_run) \<Rightarrow> int dbm" where
  "update_runs p f = stmt (\<lambda>s.
     (Inr (count_rows (p (clock s)) (review_runs s)),
      s\<lparr>review_runs := update_rows (p (clock s)) (f (clock s)) (review_runs s)\<rparr>))"

definition rowsAffected :: "int dbm \<Rightarrow> bool dbm" where
  "rowsAffected m = bindM m (\<lambda>n. ret (n > 0))"

definition discard :: "int dbm \<Rightarrow> unit dbm" where
  "discard m = bindM m (\<lambda>_. ret ())"

text \<open>The rows that \<^verbatim>\<open>CancelPendingRunsForMR\<close> and \<^verbatim>\<open>SupersedeActiveRunsForMR\<close> touch: waiting,
  running, or failed with a retry scheduled.\<close>

definition run_active :: "review_run \<Rightarrow> bool" where
  "run_active r \<longleftrightarrow> rr_status r \<in> set [''pending'', ''running'']
     \<or> (rr_status r = ''failed'' \<and> rr_next_retry_at r \<noteq> None)"

definition CancelPendingRunsForMR :: "int \<Rightarrow> unit dbm" where
  "CancelPendingRunsForMR mergeRequestID = discard (update_runs
     (\<lambda>_ r. rr_merge_request_id r = mergeRequestID \<and> run_active r)
     (\<lambda>now r. r\<lparr>rr_status := ''cancelled'', rr_error_code := [], rr_error_detail := None,
        rr_superseded_by_run_id := None, rr_next_retry_at := None, rr_updated_at := now\<rparr>))"

definition SupersedeActiveRunsForMR :: "int option \<Rightarrow> int \<Rightarrow> int \<Rightarrow> unit dbm" where
  "SupersedeActiveRunsForMR supersededByRunID mergeRequestID rid = discard (update_runs
     (\<lambda>_ r. rr_merge_request_id r = mergeRequestID \<and> rr_id r \<noteq> rid \<and> run_active r)
     (\<lambda>now r. r\<lparr>rr_status := ''cancelled'', rr_error_code := ''superseded_by_new_head'',
        rr_error_detail := Some ''Superseded by a newer MR head review run'',
        rr_superseded_by_run_id := supersededByRunID, rr_next_retry_at := None,
        rr_updated_at := now\<rparr>))"

definition ClaimReviewRun :: "string \<Rightarrow> int \<Rightarrow> unit dbm" where
  "ClaimReviewRun claimedBy rid = discard (update_runs (\<lambda>_ r. rr_id r = rid)
     (\<lambda>now r. r\<lparr>rr_status := ''running'', rr_claimed_by := claimedBy, rr_claimed_at := Some now,
        rr_started_at := (case rr_started_at r of None \<Rightarrow> Some now | Some t \<Rightarrow> Some t),
        rr_next_retry_at := None, rr_error_code := [], rr_error_detail := None,
        rr_updated_at := now\<rparr>))"

text \<open>WHERE and ORDER BY of \<^verbatim>\<open>GetNextClaimableReviewRun\<close>.\<close>

definition claimable :: "time \<Rightarrow> review_run \<Rightarrow> bool" where
  "claimable now r \<longleftrightarrow> rr_status r = ''pending''
     \<or> (rr_status r = ''failed'' \<and>
        (case rr_next_retry_at r of None \<Rightarrow> False | Some t \<Rightarrow> t \<le> now))"

definition claim_order :: "review_run \<Rightarrow> int \<times> int \<times> int \<times> int" where
  "claim_order r = (if rr_status r = ''pending'' then 0 else 1,
     (case rr_next_retry_at r of Some t \<Rightarrow> t | None \<Rightarrow> rr_created_at r),
     rr_created_at r, rr_id r)"

fun first_by :: "('r \<Rightarrow> 'k::linorder) \<Rightarrow> 'r list \<Rightarrow> 'r option" where
  "first_by k [] = None"
| "first_by k (x # xs) = (case first_by k xs of
       None \<Rightarrow> Some x | Some y \<Rightarrow> if k x \<le> k y then Some x else Some y)"

lemma first_by_None: "first_by k xs = None \<longleftrightarrow> xs = []"
  by (cases xs) (auto split: option.splits)

lemma first_by_Some:
  "first_by k xs = Some x \<Longrightarrow> x \<in> set xs \<and> (\<forall>y \<in> set xs. k x \<le> k y)"
proof (induction xs arbitrary: x)
  case (Cons a xs)
  then show ?case
    by (cases "first_by k xs") (fastforce simp: first_by_None split: if_splits)+
qed simp

definition GetNextClaimableReviewRun :: "review_run dbm" where
  "GetNextClaimableReviewRun = stmt (\<lambda>s.
     case first_by claim_order (filter (claimable (clock s)) (rows (review_runs s))) of
       None \<Rightarrow> (Inl ErrNoRows, s) | Some r \<Rightarrow> (Inr r, s))"

definition GetReviewRun :: "int \<Rightarrow> review_run dbm" where
  "GetReviewRun rid = query_row review_runs (\<lambda>r. rr_id r = rid)"

definition GetReviewRunByIdempotencyKey :: "string \<Rightarrow> review_run dbm" where
  "GetReviewRunByIdempotencyKey key = query_row review_runs (\<lambda>r. rr_idempotency_key r = key)"

record insert_review_run_params =
  irp_project_id :: int
  irp_merge_request_id :: int
  irp_hook_event_id :: "int option"
  irp_trigger_type :: string
  irp_head_sha :: string
  irp_status :: string
  irp_max_retries :: int
  irp_idempotency_key :: string
  irp_scope_json :: "string option"

definition new_run :: "insert_review_run_params \<Rightarrow> time \<Rightarrow> int \<Rightarrow> review_run" where
  "new_run a now i =
     \<lparr>rr_id = i, rr_project_id = irp_project_id a, rr_merge_request_id = irp_merge_request_id a,
      rr_hook_event_id = irp_hook_event_id a, rr_trigger_type = irp_trigger_type a,
      rr_head_sha = irp_head_sha a, rr_status = irp_status a, rr_error_code = [],
      rr_error_detail = None, rr_superseded_by_run_id = None, rr_retry_count = 0,
      rr_max_retries = irp_max_retries a, rr_next_retry_at = None, rr_claimed_by = [],
      rr_claimed_at = None, rr_started_at = None, rr_completed_at = None,
      rr_provider_latency_ms = 0, rr_provider_tokens_total = 0,
      rr_idempotency_key = irp_idempotency_key a, rr_created_at = now, rr_updated_at = now,
      rr_scope_json = irp_scope_json a\<rparr>"

text \<open>The INSERT checks UNIQUE (idempotency_key) and the foreign keys of the migration; it returns
  the result's \<^verbatim>\<open>LastInsertId\<close>.\<close>

definition InsertReviewRun :: "insert_review_run_params \<Rightarrow> int dbm" where
  "InsertReviewRun a = stmt (\<lambda>s.
     if find_row (\<lambda>r. rr_idempotency_key r = irp_idempotency_key a) (review_runs s) \<noteq> None
     then (Inl ErrDuplicateKey, s)
     else if find_row (\<lambda>p. pr_id p = irp_project_id a) (projects s) = None
       \<or> find_row (\<lambda>m. mr_id m = irp_merge_request_id a) (merge_requests s) = None
       \<or> (case irp_hook_event_id a of None \<Rightarrow> False
          | Some h \<Rightarrow> find_row (\<lambda>e. he_id e = h) (hook_events s) = None)
     then (Inl ErrForeignKey, s)
     else (Inr (next_id (review_runs s)),
           s\<lparr>review_runs := insert_row (new_run a (clock s)) (review_runs s),
             last_rowid := next_id (review_runs s)\<rparr>))"

definition ListPendingRuns :: "nat \<Rightarrow> review_run list dbm" where
  "ListPendingRuns limit = stmt (\<lambda>s. (Inr (take limit (sort_key rr_created_at
     (filter (\<lambda>r. rr_status r = ''pending'' \<and>
        (case rr_next_retry_at r of None \<Rightarrow> True | Some t \<Rightarrow> t \<le> clock s)) (rows (review_runs s))))), s))"

definition ListReviewRunsByMR :: "int \<Rightarrow> review_run list dbm" where
  "ListReviewRunsByMR mergeRequestID = stmt (\<lambda>s. (Inr (sort_key (\<lambda>r. - rr_created_at r)
     (filter (\<lambda>r. rr_merge_request_id r = mergeRequestID) (rows (review_runs s)))), s))"

record mark_failed_params =
  mfp_error_code :: string
  mfp_error_detail :: "string option"
  mfp_retry_count :: int
  mfp_id :: int

record mark_retryable_params =
  mrp_error_code :: string
  mrp_error_detail :: "string option"
  mrp_retry_count :: int
  mrp_next_retry_at :: "time option"
  mrp_id :: int

record completed_params =
  cp_provider_latency_ms :: int
  cp_provider_tokens_total :: int
  cp_id :: int

definition set_failed :: "mark_failed_params \<Rightarrow> time \<Rightarrow> review_run \<Rightarrow> review_run" where
  "set_failed a now r = r\<lparr>rr_status := ''failed'', rr_error_code := mfp_error_code a,
     rr_error_detail := mfp_error_detail a, rr_retry_count := mfp_retry_count a,
     rr_next_retry_at := None, rr_updated_at := now\<rparr>"

definition set_retryable :: "mark_retryable_params \<Rightarrow> time \<Rightarrow> review_run \<Rightarrow> review_run" where
  "set_retryable a now r = r\<lparr>rr_status := ''failed'', rr_error_code := mrp_error_code a,
     rr_error_detail := mrp_error_detail a, rr_retry_count := mrp_retry_count a,
     rr_next_retry_at := mrp_next_retry_at a, rr_updated_at := now\<rparr>"

definition set_completed :: "completed_params \<Rightarrow> time \<Rightarrow> review_run \<Rightarrow> review_run" where
  "set_completed a now r = r\<lparr>rr_status := ''completed'', rr_completed_at := Some now,
     rr_provider_latency_ms := cp_provider_latency_ms a,
     rr_provider_tokens_total := cp_provider_tokens_total a, rr_error_code := [],
     rr_error_detail := None, rr_next_retry_at := None, rr_updated_at := now\<rparr>"

definition MarkReviewRunFailed :: "mark_failed_params \<Rightarrow> unit dbm" where
  "MarkReviewRunFailed a = discard (update_runs (\<lambda>_ r. rr_id r = mfp_id a) (set_failed a))"

definition MarkReviewRunRetryableFailure :: "mark_retryable_params \<Rightarrow> unit dbm" where
  "MarkReviewRunRetryableFailure a =
     discard (update_runs (\<lambda>_ r. rr_id r = mrp_id a) (set_retryable a))"

text \<open>The reaper: running rows claimed more than \<open>timeout\<close> minutes ago.\<close>

definition run_stale :: "int \<Rightarrow> time \<Rightarrow> review_run \<Rightarrow> bool" where
  "run_stale timeout now r \<longleftrightarrow> rr_status r = ''running'' \<and>
     (case rr_claimed_at r of None \<Rightarrow> False | Some t \<Rightarrow> t < now - timeout * minute)"

definition set_reaped :: "time \<Rightarrow> review_run \<Rightarrow> review_run" where
  "set_reaped now r = r\<lparr>rr_status := ''failed'', rr_error_code := ''worker_timeout'',
     rr_error_detail := Some ''Run exceeded claim timeout and was reaped for retry'',
     rr_retry_count := rr_retry_count r + 1, rr_next_retry_at := Some (now + 30 * second),
     rr_updated_at := now\<rparr>"

definition ReapStaleRunningRuns :: "int \<Rightarrow> int dbm" where
  "ReapStaleRunningRuns timeout = update_runs (run_stale timeout) set_reaped"

definition UpdateReviewRunCompleted :: "completed_params \<Rightarrow> unit dbm" where
  "UpdateReviewRunCompleted a = discard (update_runs (\<lambda>_ r. rr_id r = cp_id a) (set_completed a))"

definition UpdateReviewRunStatus :: "string \<Rightarrow> string \<Rightarrow> string option \<Rightarrow> int \<Rightarrow> unit dbm" where
  "UpdateReviewRunStatus status code detail rid = discard (update_runs (\<lambda>_ r. rr_id r = rid)
     (\<lambda>now r. r\<lparr>rr_status := status, rr_error_code := code, rr_error_detail := detail,
        rr_updated_at := now\<rparr>))"

definition UpdateRunScopeJSON :: "string option \<Rightarrow> int \<Rightarrow> unit dbm" where
  "UpdateRunScopeJSON scope rid = discard (update_runs (\<lambda>_ r. rr_id r = rid)
     (\<lambda>now r. r\<lparr>rr_scope_json := scope, rr_updated_at := now\<rparr>))"

definition MarkReviewRunRetryableFailureIfRunning :: "mark_retryable_params \<Rightarrow> bool dbm" where
  "MarkReviewRunRetryableFailureIfRunning a = rowsAffected (update_runs
     (\<lambda>_ r. rr_id r = mrp_id a \<and> rr_status r = ''running'') (set_retryable a))"

definition MarkReviewRunFailedIfRunning :: "mark_failed_params \<Rightarrow> bool dbm" where
  "MarkReviewRunFailedIfRunning a = rowsAffected (update_runs
     (\<lambda>_ r. rr_id r = mfp_id a \<and> rr_status r = ''running'') (set_failed a))"

definition UpdateReviewRunCompletedIfRunning :: "completed_params \<Rightarrow> bool dbm" where
  "UpdateReviewRunCompletedIfRunning a = rowsAffected (update_runs
     (\<lambda>_ r. rr_id r = cp_id a \<and> rr_status r = ''running'') (set_completed a))"

definition UpdateReviewRunProviderMetrics :: "int \<Rightarrow> int \<Rightarrow> int \<Rightarrow> unit dbm" where
  "UpdateReviewRunProviderMetrics latency tokens rid = discard (update_runs (\<lambda>_ r. rr_id r = rid)
     (\<lambda>now r. r\<lparr>rr_provider_latency_ms := latency, rr_provider_tokens_total := tokens,
        rr_updated_at := now\<rparr>))"

definition RetryReviewRunNow :: "int \<Rightarrow> unit dbm" where
  "RetryReviewRunNow rid = discard (update_runs (\<lambda>_ r. rr_id r = rid)
     (\<lambda>now r. r\<lparr>rr_status := ''failed'', rr_next_retry_at := Some now, rr_claimed_by := [],
        rr_claimed_at := None, rr_updated_at := now\<rparr>))"

definition CancelReviewRun :: "int \<Rightarrow> string \<Rightarrow> string \<Rightarrow> unit dbm" where
  "CancelReviewRun rid code detail = discard (update_runs (\<lambda>_ r. rr_id r = rid)
     (\<lambda>now r. r\<lparr>rr_status := ''cancelled'', rr_error_code := code, rr_error_detail := Some detail,
        rr_superseded_by_run_id := None, rr_next_retry_at := None, rr_updated_at := now\<rparr>))"

definition RequeueReviewRun :: "int \<Rightarrow> unit dbm" where
  "RequeueReviewRun rid = discard (update_runs (\<lambda>_ r. rr_id r = rid)
     (\<lambda>now r. r\<lparr>rr_status := ''pending'', rr_error_code := [], rr_error_detail := None,
        rr_superseded_by_run_id := None, rr_next_retry_at := None, rr_claimed_by := [],
        rr_claimed_at := None, rr_started_at := None, rr_completed_at := None,
        rr_provider_latency_ms := 0, rr_provider_tokens_total := 0, rr_updated_at := now\<rparr>))"

subsection \<open>The table's invariant\<close>

definition run_row_ok :: "review_run \<Rightarrow> bool" where
  "run_row_ok r \<longleftrightarrow> (rr_next_retry_at r \<noteq> None \<longrightarrow> rr_status r = ''failed'')
     \<and> (rr_status r = ''running'' \<longrightarrow> rr_claimed_at r \<noteq> None)"

definition runs_inv :: "db \<Rightarrow> bool" where
  "runs_inv s \<longleftrightarrow> table_ok rr_id rr_idempotency_key (review_runs s)
     \<and> (\<forall>r \<in> set (rows (review_runs s)). run_row_ok r)"

definition keeps_runs_inv :: "db \<Rightarrow> db \<Rightarrow> bool" where
  "keeps_runs_inv s t \<longleftrightarrow> (runs_inv s \<longrightarrow> runs_inv t)"

lemma runs_inv_conn: "runs_inv (s\<lparr>faults := fs, last_rowid := i\<rparr>) = runs_inv s"
  by (simp add: runs_inv_def)

interpretation rinv: store_rel keeps_runs_inv
proof
  fix s t u fs i
  show "keeps_runs_inv s s" by (simp add: keeps_runs_inv_def)
  show "keeps_runs_inv s t \<Longrightarrow> keeps_runs_inv t u \<Longrightarrow> keeps_runs_inv s u"
    by (simp add: keeps_runs_inv_def)
  show "keeps_runs_inv s (s\<lparr>faults := fs, last_rowid := i\<rparr>)"
    by (simp add: keeps_runs_inv_def runs_inv_conn)
qed

lemma keeps_inv_update_runs:
  assumes "\<And>now r. rr_id (f now r) = rr_id r"
    and "\<And>now r. rr_idempotency_key (f now r) = rr_idempotency_key r"
    and "\<And>now r. run_row_ok r \<Longrightarrow> p now r \<Longrightarrow> run_row_ok (f now r)"
  shows "keeps keeps_runs_inv (update_runs p f)"
  unfolding update_runs_def
proof (rule rinv.keeps_stmt)
  fix s :: db
  let ?t = "s\<lparr>review_runs := update_rows (p (clock s)) (f (clock s)) (review_runs s)\<rparr>"
  have "runs_inv ?t" if "runs_inv s"
    using that assms(3) table_ok_update [of rr_id rr_idempotency_key "review_runs s" "f (clock s)"] assms(1,2)
    by (auto simp: runs_inv_def)
  then show "keeps_runs_inv s (snd (Inr (count_rows (p (clock s)) (review_runs s)), ?t))"
    by (simp add: keeps_runs_inv_def)
qed

lemma keeps_inv_discard: "keeps keeps_runs_inv m \<Longrightarrow> keeps keeps_runs_inv (discard m)"
  unfolding discard_def by (intro rinv.keeps_rules)

lemma keeps_inv_rowsAffected: "keeps keeps_runs_inv m \<Longrightarrow> keeps keeps_runs_inv (rowsAffected m)"
  unfolding rowsAffected_def by (intro rinv.keeps_rules)

lemma keeps_inv_InsertReviewRun:
  assumes "irp_status a \<noteq> ''running''"
  shows "keeps keeps_runs_inv (InsertReviewRun a)"
  unfolding InsertReviewRun_def
proof (rule rinv.keeps_stmt)
  fix s :: db
  have "runs_inv (s\<lparr>review_runs := insert_row (new_run a (clock s)) (review_runs s), last_rowid := i\<rparr>)"
    if "runs_inv s" and "find_row (\<lambda>r. rr_idempotency_key r = irp_idempotency_key a) (review_runs s) = None" for i
    using that assms
      table_ok_insert [where mk = "new_run a (clock s)" and t = "review_runs s" and rid = rr_id
        and key = rr_idempotency_key and k = "irp_idempotency_key a"]
    by (auto simp: runs_inv_def new_run_def run_row_ok_def)
  then show "keeps_runs_inv s (snd (if find_row (\<lambda>r. rr_idempotency_key r = irp_idempotency_key a) (review_runs s) \<noteq> None
     then (Inl ErrDuplicateKey, s)
     else if find_row (\<lambda>p. pr_id p = irp_project_id a) (projects s) = None
       \<or> find_row (\<lambda>m. mr_id m = irp_merge_request_id a) (merge_requests s) = None
       \<or> (case irp_hook_event_id a of None \<Rightarrow> False
          | Some h \<Rightarrow> find_row (\<lambda>e. he_id e = h) (hook_events s) = None)
     then (Inl ErrForeignKey, s)
     else (Inr (next_id (review_runs s)),
           s\<lparr>review_runs := insert_row (new_run a (clock s)) (review_runs s),
             last_rowid := next_id (review_runs s)\<rparr>)))"
    by (simp add: keeps_runs_inv_def)
qed

interpretation run_key: keyed_insert review_runs rr_id rr_idempotency_key
  irp_idempotency_key InsertReviewRun GetReviewRunByIdempotencyKey
proof
  fix k p s i t e
  show "GetReviewRunByIdempotencyKey k = query_row review_runs (\<lambda>r. rr_idempotency_key r = k)"
    by (simp add: GetReviewRunByIdempotencyKey_def)
  show "InsertReviewRun p s = (Inr i, t) \<Longrightarrow>
    find_row (\<lambda>r. rr_idempotency_key r = irp_idempotency_key p) (review_runs s) = None \<and>
    (\<exists>mk. review_runs t = insert_row mk (review_runs s) \<and> i = next_id (review_runs s)
       \<and> rr_id (mk (next_id (review_runs s))) = next_id (review_runs s)
       \<and> rr_idempotency_key (mk (next_id (review_runs s))) = irp_idempotency_key p)"
    unfolding InsertReviewRun_def
    by (erule stmt_cases)
      (auto simp: new_run_def split: if_splits intro!: exI [of _ "new_run p (clock s)"])
  show "InsertReviewRun p s = (Inl e, t) \<Longrightarrow> review_runs t = review_runs s"
    unfolding InsertReviewRun_def by (erule stmt_cases) (auto split: if_splits)
  show "faults s = [] \<Longrightarrow> find_row (\<lambda>r. rr_idempotency_key r = irp_idempotency_key p) (review_runs s) \<noteq> None
    \<Longrightarrow> InsertReviewRun p s = (Inl ErrDuplicateKey, s)"
    by (simp add: InsertReviewRun_def stmt_ok)
  show "faults s = [] \<Longrightarrow> faults (snd (InsertReviewRun p s)) = []"
    by (simp add: InsertReviewRun_def stmt_ok)
qed

lemmas keeps_inv_rules = keeps_inv_discard keeps_inv_rowsAffected keeps_inv_update_runs

lemmas set_defs = set_failed_def set_retryable_def set_completed_def set_reaped_def

subsection \<open>Rows by id\<close>

definition run_of :: "db \<Rightarrow> int \<Rightarrow> review_run option" where
  "run_of s rid = find_row (\<lambda>r. rr_id r = rid) (review_runs s)"

lemma run_of_mem: "run_of s rid = Some r \<Longrightarrow> r \<in> set (rows (review_runs s)) \<and> rr_id r = rid"
  unfolding run_of_def by (drule find_row_Some) simp

lemma run_of_unique:
  assumes "runs_inv s" and "r \<in> set (rows (review_runs s))"
  shows "run_of s (rr_id r) = Some r"
  unfolding run_of_def
  by (rule table_ok_find_id) (use assms in \<open>auto simp: runs_inv_def\<close>)

lemma GetReviewRun_ok:
  "faults s = [] \<Longrightarrow> GetReviewRun rid s =
     (case run_of s rid of None \<Rightarrow> Inl ErrNoRows | Some r \<Rightarrow> Inr r, s)"
  by (simp add: GetReviewRun_def query_row_def stmt_def run_of_def split: option.splits)

lemma GetReviewRun_state: "GetReviewRun rid s = (r, t) \<Longrightarrow> same_tables s t"
  unfolding GetReviewRun_def by (rule keepsD [OF same.keeps_query_row])

lemma run_of_update_runs:
  assumes "\<And>now r. rr_id (f now r) = rr_id r"
  shows "run_of (s\<lparr>review_runs := update_rows (p now) (f now) (review_runs s)\<rparr>) rid
         = map_option (\<lambda>r. if p now r then f now r else r) (run_of s rid)"
  unfolding run_of_def by (simp add: find_row_update_rows assms)

text \<open>Statements under an arbitrary fault schedule.\<close>

lemma run_of_same_tables: "same_tables s t \<Longrightarrow> run_of t rid = run_of s rid"
  by (auto simp: same_tables_def run_of_def)

lemma runs_inv_same_tables: "same_tables s t \<Longrightarrow> runs_inv t = runs_inv s"
  by (auto simp: same_tables_def runs_inv_conn)

lemma clock_same_tables: "same_tables s t \<Longrightarrow> clock t = clock s \<and> review_runs t = review_runs s"
  by (auto simp: same_tables_def)

lemma update_runs_InrE:
  assumes "update_runs p f s = (Inr n, t)"
  obtains "clock t = clock s"
    and "review_runs t = update_rows (p (clock s)) (f (clock s)) (review_runs s)"
  using assms unfolding update_runs_def by (cases rule: stmt_cases) auto

lemma discard_InrE:
  assumes "discard m s = (Inr u, t)"
  obtains n where "m s = (Inr n, t)"
  using assms by (auto simp: discard_def ret_def elim: bindM_elim)

lemma GetReviewRun_InrE:
  assumes "GetReviewRun rid s = (Inr r, t)"
  obtains "run_of s rid = Some r" and "same_tables s t"
proof
  show "same_tables s t" using GetReviewRun_state [OF assms] .
  show "run_of s rid = Some r"
    using assms unfolding GetReviewRun_def query_row_def
    by (cases rule: stmt_cases) (auto simp: run_of_def split: option.splits)
qed

lemma GetNextClaimableReviewRun_InrE:
  assumes "GetNextClaimableReviewRun s = (Inr r, t)"
  obtains "r \<in> set (filter (claimable (clock s)) (rows (review_runs s)))"
    and "\<And>y. y \<in> set (filter (claimable (clock s)) (rows (review_runs s))) \<Longrightarrow> claim_order r \<le> claim_order y"
    and "same_tables s t"
proof -
  have f: "first_by claim_order (filter (claimable (clock s)) (rows (review_runs s))) = Some r
      \<and> (\<exists>fs. t = s\<lparr>faults := fs\<rparr>)"
    using assms unfolding GetNextClaimableReviewRun_def
    by (cases rule: stmt_cases) (auto split: option.splits)
  then obtain fs where t: "t = s\<lparr>faults := fs\<rparr>" by blast
  note fb = first_by_Some [OF conjunct1 [OF f]]
  show ?thesis
    by (rule that) (use fb same.R_faults [of s fs] t in simp_all)
qed

subsection \<open>Conditional terminal writes\<close>

text \<open>
  The three \<^verbatim>\<open>...IfRunning\<close> statements have one contract: they write only a row that is
  still running, and report whether they did.
\<close>

locale if_running_write =
  fixes wr :: "'p \<Rightarrow> bool dbm"
    and target :: "'p \<Rightarrow> int"
    and upd :: "'p \<Rightarrow> time \<Rightarrow> review_run \<Rightarrow> review_run"
    and final :: string
  assumes wr_def: "wr p = rowsAffected (update_runs
      (\<lambda>_ r. rr_id r = target p \<and> rr_status r = ''running'') (upd p))"
    and upd_id: "rr_id (upd p now r) = rr_id r"
    and upd_status: "rr_status (upd p now r) = final"
begin

lemma wr_ok:
  assumes "faults s = []"
  shows "wr p s = (Inr (\<exists>r \<in> set (rows (review_runs s)). rr_id r = target p \<and> rr_status r = ''running''),
    s\<lparr>review_runs := update_rows (\<lambda>r. rr_id r = target p \<and> rr_status r = ''running'')
        (upd p (clock s)) (review_runs s)\<rparr>)"
  using assms
  by (auto simp: wr_def rowsAffected_def update_runs_def bindM_def stmt_def ret_def count_rows_def
      length_greater_0_conv filter_empty_conv simp del: length_greater_0_conv)

text \<open>Only the target row can change, and only if it was running.\<close>

lemma wr_frame:
  assumes "wr p s = (r, t)" and "run_of s rid = Some x"
    and "rid \<noteq> target p \<or> rr_status x \<noteq> ''running''"
  shows "run_of t rid = Some x"
proof -
  have x: "rr_id x = rid" using assms(2) run_of_mem by blast
  from assms(1) obtain q where
    "stmt (\<lambda>s. (Inr (count_rows (\<lambda>r. rr_id r = target p \<and> rr_status r = ''running'') (review_runs s)),
       s\<lparr>review_runs := update_rows (\<lambda>r. rr_id r = target p \<and> rr_status r = ''running'')
           (upd p (clock s)) (review_runs s)\<rparr>)) s = (q, t)"
    by (auto simp: wr_def rowsAffected_def update_runs_def bindM_def ret_def split: prod.splits sum.splits)
  then show ?thesis
    by (cases rule: stmt_cases) (use assms(2,3) x in \<open>auto simp: run_of_def find_row_update_rows upd_id\<close>)
qed

lemma wr_sets_final:
  assumes "faults s = []" and "run_of s (target p) = Some x" and "rr_status x = ''running''"
  shows "\<exists>t. wr p s = (Inr True, t) \<and> run_of t (target p) = Some (upd p (clock s) x)
           \<and> rr_status (upd p (clock s) x) = final"
  using assms run_of_mem [OF assms(2)]
  by (auto simp: wr_ok run_of_def find_row_update_rows upd_id upd_status)

lemma wr_skips:
  assumes "faults s = []" and "runs_inv s" and "run_of s (target p) = Some x"
    and "rr_status x \<noteq> ''running''"
  shows "wr p s = (Inr False, s)"
proof -
  have no: "\<not> (rr_id r = target p \<and> rr_status r = ''running'')" if "r \<in> set (rows (review_runs s))" for r
    using run_of_unique [OF assms(2) that] assms(3,4) by auto
  have "map (\<lambda>r. if rr_id r = target p \<and> rr_status r = ''running'' then upd p (clock s) r else r)
      (rows (review_runs s)) = rows (review_runs s)"
    by (rule map_idI) (use no in auto)
  then show ?thesis
    using no assms(1) by (auto simp: wr_ok update_rows_def)
qed

end

interpretation retry_write: if_running_write
  MarkReviewRunRetryableFailureIfRunning mrp_id set_retryable "''failed''"
  by unfold_locales (auto simp: MarkReviewRunRetryableFailureIfRunning_def set_retryable_def)

interpretation fail_write: if_running_write
  MarkReviewRunFailedIfRunning mfp_id set_failed "''failed''"
  by unfold_locales (auto simp: MarkReviewRunFailedIfRunning_def set_failed_def)

interpretation done_write: if_running_write
  UpdateReviewRunCompletedIfRunning cp_id set_completed "''completed''"
  by unfold_locales (auto simp: UpdateReviewRunCompletedIfRunning_def set_completed_def)

subsection \<open>A small database\<close>

text \<open>A pending run and a running one, for evaluation on concrete inputs.\<close>

definition sample_pending :: review_run where
  "sample_pending = zero_review_run\<lparr>rr_id := 1, rr_project_id := 1, rr_merge_request_id := 1,
     rr_status := ''pending'', rr_max_retries := 3, rr_idempotency_key := ''k1''\<rparr>"

definition sample_running :: review_run where
  "sample_running = zero_review_run\<lparr>rr_id := 2, rr_project_id := 1, rr_merge_request_id := 1,
     rr_status := ''running'', rr_claimed_by := ''w'', rr_claimed_at := Some 0,
     rr_max_retries := 3, rr_idempotency_key := ''k2''\<rparr>"

definition sample_project :: project where
  "sample_project = zero_project\<lparr>pr_id := 1, pr_gitlab_instance_id := 1, pr_gitlab_project_id := 42\<rparr>"

definition sample_mr :: merge_request where
  "sample_mr = zero_merge_request\<lparr>mr_id := 1, mr_project_id := 1, mr_mr_iid := 7, mr_state := ''opened''\<rparr>"

definition sample_db :: db where
  "sample_db = empty_db\<lparr>
     instances := \<lparr>rows = [zero_gitlab_instance\<lparr>gi_id := 1, gi_url := ''https://g.io''\<rparr>], next_id = 2\<rparr>,
     projects := \<lparr>rows = [sample_project], next_id = 2\<rparr>,
     merge_requests := \<lparr>rows = [sample_mr], next_id = 2\<rparr>,
     review_runs := \<lparr>rows = [sample_pending, sample_running], next_id = 3\<rparr>, clock := 1000\<rparr>"

definition sample_db2 :: db where
  "sample_db2 = sample_db\<lparr>review_runs := \<lparr>rows = [sample_pending,
     sample_pending\<lparr>rr_id := 2, rr_idempotency_key := ''k2''\<rparr>], next_id = 3\<rparr>\<rparr>"

end
