(* ===== verification/Db_Entities.thy ===== *)
theory Db_Entities
  imports Db
begin

text \<open>
  Statements on instances, projects, policies, merge requests, versions, hook events and audit
  logs: \<^verbatim>\<open>projects.go\<close>, \<^verbatim>\<open>merge_requests.go\<close>, \<^verbatim>\<open>hook_events.go\<close> and \<^verbatim>\<open>audit_logs.go\<close> of
  \<^verbatim>\<open>internal/db/sqlitedb\<close>. An INSERT checks
  the UNIQUE and FOREIGN KEY constraints of \<^verbatim>\<open>migrations_sqlite\<close>.

  What \<^verbatim>\<open>LastInsertId\<close> reports after an upsert that updated a row is the driver's business: it
  is the parameter \<open>lid\<close>, from the connection's previous insert id and the id of the updated
  row to the reported number.
\<close>

type_synonym last_id = "int \<Rightarrow> int \<Rightarrow> int"

subsection \<open>Instances and projects\<close>

definition GetGitlabInstance :: "int \<Rightarrow> gitlab_instance dbm" where
  "GetGitlabInstance i = query_row instances (\<lambda>r. gi_id r = i)"

definition GetGitlabInstanceByURL :: "string \<Rightarrow> gitlab_instance dbm" where
  "GetGitlabInstanceByURL url = query_row instances (\<lambda>r. gi_url r = url)"

definition GetProject :: "int \<Rightarrow> project dbm" where
  "GetProject i = query_row projects (\<lambda>r. pr_id r = i)"

definition GetProjectByGitlabID :: "int \<Rightarrow> int \<Rightarrow> project dbm" where
  "GetProjectByGitlabID instanceID gitlabProjectID = query_row projects
     (\<lambda>r. pr_gitlab_instance_id r = instanceID \<and> pr_gitlab_project_id r = gitlabProjectID)"

definition GetProjectPolicy :: "int \<Rightarrow> project_policy dbm" where
  "GetProjectPolicy projectID = query_row policies (\<lambda>r. pp_project_id r = projectID)"

definition new_instance :: "string \<Rightarrow> string \<Rightarrow> time \<Rightarrow> int \<Rightarrow> gitlab_instance" where
  "new_instance url name now i =
     \<lparr>gi_id = i, gi_url = url, gi_name = name, gi_created_at = now, gi_updated_at = now\<rparr>"

definition InsertGitlabInstance :: "string \<Rightarrow> string \<Rightarrow> int dbm" where
  "InsertGitlabInstance url name = stmt (\<lambda>s.
     if find_row (\<lambda>r. gi_url r = url) (instances s) \<noteq> None then (Inl ErrDuplicateKey, s)
     else insert_into instances instances_update (new_instance url name) s)"

definition UpsertGitlabInstance :: "last_id \<Rightarrow> string \<Rightarrow> string \<Rightarrow> int dbm" where
  "UpsertGitlabInstance lid url name = stmt (\<lambda>s.
     case find_row (\<lambda>r. gi_url r = url) (instances s) of
       Some r \<Rightarrow> (Inr (lid (last_rowid s) (gi_id r)),
          s\<lparr>instances := update_rows (\<lambda>x. gi_url x = url)
             (\<lambda>x. x\<lparr>gi_name := name, gi_updated_at := clock s\<rparr>) (instances s)\<rparr>)
     | None \<Rightarrow> insert_into instances instances_update (new_instance url name) s)"

definition new_project :: "int \<Rightarrow> int \<Rightarrow> string \<Rightarrow> bool \<Rightarrow> time \<Rightarrow> int \<Rightarrow> project" where
  "new_project instanceID gitlabProjectID path enabled now i =
     \<lparr>pr_id = i, pr_gitlab_instance_id = instanceID, pr_gitlab_project_id = gitlabProjectID,
      pr_path_with_namespace = path, pr_enabled = enabled, pr_created_at = now, pr_updated_at = now\<rparr>"

definition no_instance :: "int \<Rightarrow> db \<Rightarrow> bool" where
  "no_instance i s \<longleftrightarrow> find_row (\<lambda>r. gi_id r = i) (instances s) = None"

definition no_project :: "int \<Rightarrow> db \<Rightarrow> bool" where
  "no_project i s \<longleftrightarrow> find_row (\<lambda>r. pr_id r = i) (projects s) = None"

definition no_merge_request :: "int \<Rightarrow> db \<Rightarrow> bool" where
  "no_merge_request i s \<longleftrightarrow> find_row (\<lambda>r. mr_id r = i) (merge_requests s) = None"

definition InsertProject :: "int \<Rightarrow> int \<Rightarrow> string \<Rightarrow> bool \<Rightarrow> int dbm" where
  "InsertProject instanceID gitlabProjectID path enabled = stmt (\<lambda>s.
     if find_row (\<lambda>r. pr_gitlab_instance_id r = instanceID
          \<and> pr_gitlab_project_id r = gitlabProjectID) (projects s) \<noteq> None
     then (Inl ErrDuplicateKey, s)
     else if no_instance instanceID s then (Inl ErrForeignKey, s)
     else insert_into projects projects_update
       (new_project instanceID gitlabProjectID path enabled) s)"

definition UpsertProject :: "last_id \<Rightarrow> int \<Rightarrow> int \<Rightarrow> string \<Rightarrow> bool \<Rightarrow> int dbm" where
  "UpsertProject lid instanceID gitlabProjectID path enabled = stmt (\<lambda>s.
     case find_row (\<lambda>r. pr_gitlab_instance_id r = instanceID
            \<and> pr_gitlab_project_id r = gitlabProjectID) (projects s) of
       Some r \<Rightarrow> (Inr (lid (last_rowid s) (pr_id r)),
          s\<lparr>projects := update_rows (\<lambda>x. pr_gitlab_instance_id x = instanceID
               \<and> pr_gitlab_project_id x = gitlabProjectID)
             (\<lambda>x. x\<lparr>pr_path_with_namespace := path, pr_updated_at := clock s\<rparr>) (projects s)\<rparr>)
     | None \<Rightarrow> if no_instance instanceID s then (Inl ErrForeignKey, s)
         else insert_into projects projects_update
           (new_project instanceID gitlabProjectID path enabled) s)"

record policy_params =
  ppp_project_id :: int
  ppp_confidence_threshold :: rat
  ppp_severity_threshold :: string
  ppp_include_paths :: "string option"
  ppp_exclude_paths :: "string option"
  ppp_gate_mode :: string
  ppp_provider_route :: string
  ppp_extra :: "string option"

definition InsertProjectPolicy :: "policy_params \<Rightarrow> int dbm" where
  "InsertProjectPolicy a = stmt (\<lambda>s.
     if find_row (\<lambda>r. pp_project_id r = ppp_project_id a) (policies s) \<noteq> None
     then (Inl ErrDuplicateKey, s)
     else if no_project (ppp_project_id a) s then (Inl ErrForeignKey, s)
     else insert_into policies policies_update (\<lambda>now i.
       \<lparr>pp_id = i, pp_project_id = ppp_project_id a,
        pp_confidence_threshold = ppp_confidence_threshold a,
        pp_severity_threshold = ppp_severity_threshold a,
        pp_include_paths = ppp_include_paths a, pp_exclude_paths = ppp_exclude_paths a,
        pp_gate_mode = ppp_gate_mode a, pp_provider_route = ppp_provider_route a,
        pp_extra = ppp_extra a, pp_created_at = now, pp_updated_at = now\<rparr>) s)"

subsection \<open>Merge requests\<close>

record merge_request_params =
  mrq_project_id :: int
  mrq_mr_iid :: int
  mrq_title :: string
  mrq_source_branch :: string
  mrq_target_branch :: string
  mrq_author :: string
  mrq_state :: string
  mrq_is_draft :: bool
  mrq_head_sha :: string
  mrq_web_url :: string

definition new_merge_request :: "merge_request_params \<Rightarrow> time \<Rightarrow> int \<Rightarrow> merge_request" where
  "new_merge_request a now i =
     \<lparr>mr_id = i, mr_project_id = mrq_project_id a, mr_mr_iid = mrq_mr_iid a, mr_title = mrq_title a,
      mr_source_branch = mrq_source_branch a, mr_target_branch = mrq_target_branch a,
      mr_author = mrq_author a, mr_state = mrq_state a, mr_is_draft = mrq_is_draft a,
      mr_head_sha = mrq_head_sha a, mr_web_url = mrq_web_url a, mr_created_at = now,
      mr_updated_at = now\<rparr>"

definition update_merge_request :: "merge_request_params \<Rightarrow> time \<Rightarrow> merge_request \<Rightarrow> merge_request" where
  "update_merge_request a now r = r\<lparr>mr_title := mrq_title a,
      mr_source_branch := mrq_source_branch a, mr_target_branch := mrq_target_branch a,
      mr_author := mrq_author a, mr_state := mrq_state a, mr_is_draft := mrq_is_draft a,
      mr_head_sha := mrq_head_sha a, mr_web_url := mrq_web_url a, mr_updated_at := now\<rparr>"

definition GetMergeRequest :: "int \<Rightarrow> merge_request dbm" where
  "GetMergeRequest i = query_row merge_requests (\<lambda>r. mr_id r = i)"

definition mr_at :: "int \<Rightarrow> int \<Rightarrow> merge_request \<Rightarrow> bool" where
  "mr_at projectID mrIID r \<longleftrightarrow> mr_project_id r = projectID \<and> mr_mr_iid r = mrIID"

definition GetMergeRequestByProjectMR :: "int \<Rightarrow> int \<Rightarrow> merge_request dbm" where
  "GetMergeRequestByProjectMR projectID mrIID = query_row merge_requests (mr_at projectID mrIID)"

definition InsertMergeRequest :: "merge_request_params \<Rightarrow> int dbm" where
  "InsertMergeRequest a = stmt (\<lambda>s.
     if find_row (mr_at (mrq_project_id a) (mrq_mr_iid a)) (merge_requests s) \<noteq> None
     then (Inl ErrDuplicateKey, s)
     else if no_project (mrq_project_id a) s then (Inl ErrForeignKey, s)
     else insert_into merge_requests merge_requests_update (new_merge_request a) s)"

definition UpsertMergeRequest :: "last_id \<Rightarrow> merge_request_params \<Rightarrow> int dbm" where
  "UpsertMergeRequest lid a = stmt (\<lambda>s.
     case find_row (mr_at (mrq_project_id a) (mrq_mr_iid a)) (merge_requests s) of
       Some r \<Rightarrow> (Inr (lid (last_rowid s) (mr_id r)),
          s\<lparr>merge_requests := update_rows (mr_at (mrq_project_id a) (mrq_mr_iid a))
             (update_merge_request a (clock s)) (merge_requests s)\<rparr>)
     | None \<Rightarrow> if no_project (mrq_project_id a) s then (Inl ErrForeignKey, s)
         else insert_into merge_requests merge_requests_update (new_merge_request a) s)"

definition UpdateMergeRequestState :: "string \<Rightarrow> string \<Rightarrow> int \<Rightarrow> unit dbm" where
  "UpdateMergeRequestState state headSha i = exec (\<lambda>s.
     s\<lparr>merge_requests := update_rows (\<lambda>r. mr_id r = i)
        (\<lambda>r. r\<lparr>mr_state := state, mr_head_sha := headSha, mr_updated_at := clock s\<rparr>)
        (merge_requests s)\<rparr>)"

definition GetLatestMRVersion :: "int \<Rightarrow> mr_version dbm" where
  "GetLatestMRVersion mergeRequestID = query_first (\<lambda>s. latest_by mv_created_at
     (filter (\<lambda>v. mv_merge_request_id v = mergeRequestID) (rows (mr_versions s))))"

definition InsertMRVersion :: "int \<Rightarrow> int \<Rightarrow> string \<Rightarrow> string \<Rightarrow> string \<Rightarrow> string \<Rightarrow> int dbm" where
  "InsertMRVersion mrID versionID base start head patch = stmt (\<lambda>s.
     if find_row (\<lambda>v. mv_merge_request_id v = mrID \<and> mv_gitlab_version_id v = versionID)
          (mr_versions s) \<noteq> None
     then (Inl ErrDuplicateKey, s)
     else if no_merge_request mrID s then (Inl ErrForeignKey, s)
     else insert_into mr_versions mr_versions_update (\<lambda>now i.
       \<lparr>mv_id = i, mv_merge_request_id = mrID, mv_gitlab_version_id = versionID, mv_base_sha = base,
        mv_start_sha = start, mv_head_sha = head, mv_patch_id_sha = patch, mv_created_at = now\<rparr>) s)"

subsection \<open>Hook events and audit logs\<close>

record hook_event_params =
  hep_delivery_key :: string
  hep_hook_source :: string
  hep_event_type :: string
  hep_gitlab_instance_id :: "int option"
  hep_project_id :: "int option"
  hep_mr_iid :: "int option"
  hep_action :: string
  hep_head_sha :: string
  hep_payload :: "string option"
  hep_verification_outcome :: string
  hep_rejection_reason :: string

definition new_hook_event :: "hook_event_params \<Rightarrow> time \<Rightarrow> int \<Rightarrow> hook_event" where
  "new_hook_event a now i =
     \<lparr>he_id = i, he_delivery_key = hep_delivery_key a, he_hook_source = hep_hook_source a,
      he_event_type = hep_event_type a, he_gitlab_instance_id = hep_gitlab_instance_id a,
      he_project_id = hep_project_id a, he_mr_iid = hep_mr_iid a, he_action = hep_action a,
      he_head_sha = hep_head_sha a, he_payload = hep_payload a,
      he_verification_outcome = hep_verification_outcome a,
      he_rejection_reason = hep_rejection_reason a, he_received_at = now\<rparr>"

definition GetHookEventByDeliveryKey :: "string \<Rightarrow> hook_event dbm" where
  "GetHookEventByDeliveryKey key = query_row hook_events (\<lambda>e. he_delivery_key e = key)"

definition InsertHookEvent :: "hook_event_params \<Rightarrow> int dbm" where
  "InsertHookEvent a = stmt (\<lambda>s.
     if find_row (\<lambda>e. he_delivery_key e = hep_delivery_key a) (hook_events s) \<noteq> None
     then (Inl ErrDuplicateKey, s)
     else insert_into hook_events hook_events_update (new_hook_event a) s)"

definition ListHookEventsByProjectMR :: "int \<Rightarrow> int \<Rightarrow> nat \<Rightarrow> nat \<Rightarrow> hook_event list dbm" where
  "ListHookEventsByProjectMR projectID mrIID limit offset = query_all (\<lambda>s.
     page limit offset (latest_by he_received_at
       (filter (\<lambda>e. he_project_id e = Some projectID \<and> he_mr_iid e = Some mrIID)
         (rows (hook_events s)))))"

record audit_params =
  alp_entity_type :: string
  alp_entity_id :: int
  alp_action :: string
  alp_actor :: string
  alp_detail :: "string option"
  alp_delivery_key :: string
  alp_hook_source :: string
  alp_verification_outcome :: string
  alp_rejection_reason :: string
  alp_error_code :: string

definition new_audit_log :: "audit_params \<Rightarrow> time \<Rightarrow> int \<Rightarrow> audit_log" where
  "new_audit_log a now i =
     \<lparr>al_id = i, al_entity_type = alp_entity_type a, al_entity_id = alp_entity_id a,
      al_action = alp_action a, al_actor = alp_actor a, al_detail = alp_detail a,
      al_delivery_key = alp_delivery_key a, al_hook_source = alp_hook_source a,
      al_verification_outcome = alp_verification_outcome a,
      al_rejection_reason = alp_rejection_reason a, al_error_code = alp_error_code a,
      al_created_at = now\<rparr>"

definition InsertAuditLog :: "audit_params \<Rightarrow> int dbm" where
  "InsertAuditLog a = stmt (insert_into audit_logs audit_logs_update (new_audit_log a))"

definition ListAuditLogsByDeliveryKey :: "string \<Rightarrow> audit_log list dbm" where
  "ListAuditLogsByDeliveryKey key = query_all (\<lambda>s.
     latest_by al_created_at (filter (\<lambda>a. al_delivery_key a = key) (rows (audit_logs s))))"

definition ListAuditLogsByEntity :: "string \<Rightarrow> int \<Rightarrow> nat \<Rightarrow> nat \<Rightarrow> audit_log list dbm" where
  "ListAuditLogsByEntity entityType entityID limit offset = query_all (\<lambda>s.
     page limit offset (latest_by al_created_at
       (filter (\<lambda>a. al_entity_type a = entityType \<and> al_entity_id a = entityID)
         (rows (audit_logs s)))))"

subsection \<open>Keyed inserts\<close>

interpretation hook_key: keyed_insert hook_events he_id he_delivery_key
  hep_delivery_key InsertHookEvent GetHookEventByDeliveryKey
proof
  fix k p s i t e
  show "GetHookEventByDeliveryKey k = query_row hook_events (\<lambda>r. he_delivery_key r = k)"
    by (simp add: GetHookEventByDeliveryKey_def)
  show "InsertHookEvent p s = (Inr i, t) \<Longrightarrow>
    find_row (\<lambda>r. he_delivery_key r = hep_delivery_key p) (hook_events s) = None \<and>
    (\<exists>mk. hook_events t = insert_row mk (hook_events s) \<and> i = next_id (hook_events s)
       \<and> he_id (mk (next_id (hook_events s))) = next_id (hook_events s)
       \<and> he_delivery_key (mk (next_id (hook_events s))) = hep_delivery_key p)"
    unfolding InsertHookEvent_def
    by (erule stmt_cases)
      (auto simp: new_hook_event_def insert_into_def split: if_splits
        intro!: exI [of _ "new_hook_event p (clock s)"])
  show "InsertHookEvent p s = (Inl e, t) \<Longrightarrow> hook_events t = hook_events s"
    unfolding InsertHookEvent_def by (erule stmt_cases) (auto simp: insert_into_def split: if_splits)
  show "faults s = [] \<Longrightarrow> find_row (\<lambda>r. he_delivery_key r = hep_delivery_key p) (hook_events s) \<noteq> None
    \<Longrightarrow> InsertHookEvent p s = (Inl ErrDuplicateKey, s)"
    by (simp add: InsertHookEvent_def stmt_ok)
  show "faults s = [] \<Longrightarrow> faults (snd (InsertHookEvent p s)) = []"
    by (simp add: InsertHookEvent_def stmt_ok insert_into_def)
qed

end
