(* ===== verification/Go_Json.thy ===== *)
theory Go_Json
  imports Main Go_Strings
begin

text \<open>
  JSON values and the part of \<^verbatim>\<open>encoding/json\<close> and \<^verbatim>\<open>strconv\<close> the services rely on. Numbers are kept
  as their literal text. Reading bytes into a value and writing a value to bytes are parameters of
  the definitions that need them (\<open>decode\<close>, \<open>marshal\<close>), so every theorem holds for any reader and
  writer; what \<^verbatim>\<open>json.Unmarshal\<close> does with the value when the target is a struct is modelled here:
  keys match a field up to case, later members overwrite earlier ones, \<^verbatim>\<open>null\<close> leaves a field alone,
  a member of the wrong type is an error, and repeated objects for one struct field are merged.
\<close>

datatype json =
    JNull
  | JBool bool
  | JNumber string
  | JString string
  | JArray "json list"
  | JObject "(string \<times> json) list"

type_synonym members = "(string \<times> json) list"

subsection \<open>Maps\<close>

text \<open>Decoding into \<^verbatim>\<open>any\<close> builds maps: of the members with one name the last stays.\<close>

fun last_members :: "(string \<times> 'a) list \<Rightarrow> (string \<times> 'a) list" where
  "last_members [] = []"
| "last_members ((k, v) # kvs) = (if k \<in> fst ` set kvs then last_members kvs else (k, v) # last_members kvs)"

fun go_value :: "json \<Rightarrow> json" where
  "go_value (JObject kvs) = JObject (last_members (map (\<lambda>(k, v). (k, go_value v)) kvs))"
| "go_value (JArray vs) = JArray (map go_value vs)"
| "go_value v = v"

lemma last_members_keys: "fst ` set (last_members kvs) = fst ` set kvs"
  by (induction kvs rule: last_members.induct) auto

lemma last_members_distinct: "distinct (map fst (last_members kvs))"
  by (induction kvs rule: last_members.induct) (use last_members_keys in \<open>auto simp: image_iff\<close>)

lemma last_members_subset: "set (last_members kvs) \<subseteq> set kvs"
  by (induction kvs rule: last_members.induct) auto

subsection \<open>Numbers and booleans\<close>

text \<open>\<^verbatim>\<open>strconv.ParseBool\<close> and \<^verbatim>\<open>json.Number.Int64\<close>.\<close>

definition parse_bool :: "string \<Rightarrow> bool option" where
  "parse_bool t = (if t \<in> set [''1'', ''t'', ''T'', ''TRUE'', ''true'', ''True''] then Some True
     else if t \<in> set [''0'', ''f'', ''F'', ''FALSE'', ''false'', ''False''] then Some False
     else None)"

definition parse_int64 :: "string \<Rightarrow> int option" where
  "parse_int64 t =
     (let (neg, ds) = (case t of c # cs \<Rightarrow>
            if c = CHR ''-'' then (True, cs) else if c = CHR ''+'' then (False, cs) else (False, t)
          | [] \<Rightarrow> (False, []));
          v = (if neg then - int (digits_value 0 ds) else int (digits_value 0 ds))
      in if ds = [] \<or> \<not> list_all is_digit ds then None
         else if v < - (2 ^ 63) \<or> v \<ge> 2 ^ 63 then None else Some v)"

subsection \<open>Struct fields\<close>

definition named :: "string \<Rightarrow> members \<Rightarrow> json list" where
  "named k kvs = map snd (filter (\<lambda>(k', _). equal_fold k' k) kvs)"

text \<open>\<open>None\<close> is a type error.\<close>

fun string_field :: "string \<Rightarrow> json list \<Rightarrow> string option" where
  "string_field acc [] = Some acc"
| "string_field acc (JString t # vs) = string_field t vs"
| "string_field acc (JNull # vs) = string_field acc vs"
| "string_field acc (_ # vs) = None"

fun bool_field :: "bool \<Rightarrow> json list \<Rightarrow> bool option" where
  "bool_field acc [] = Some acc"
| "bool_field acc (JBool b # vs) = bool_field b vs"
| "bool_field acc (JNull # vs) = bool_field acc vs"
| "bool_field acc (_ # vs) = None"

fun int_field :: "int \<Rightarrow> json list \<Rightarrow> int option" where
  "int_field acc [] = Some acc"
| "int_field acc (JNumber t # vs) = (case parse_int64 t of None \<Rightarrow> None | Some i \<Rightarrow> int_field i vs)"
| "int_field acc (JNull # vs) = int_field acc vs"
| "int_field acc (_ # vs) = None"

text \<open>A pointer field: \<^verbatim>\<open>null\<close> sets it to nil.\<close>

fun int_ptr_field :: "int option \<Rightarrow> json list \<Rightarrow> int option option" where
  "int_ptr_field acc [] = Some acc"
| "int_ptr_field acc (JNumber t # vs) =
     (case parse_int64 t of None \<Rightarrow> None | Some i \<Rightarrow> int_ptr_field (Some i) vs)"
| "int_ptr_field acc (JNull # vs) = int_ptr_field None vs"
| "int_ptr_field acc (_ # vs) = None"

fun struct_field :: "members \<Rightarrow> json list \<Rightarrow> members option" where
  "struct_field acc [] = Some acc"
| "struct_field acc (JObject kvs # vs) = struct_field (acc @ kvs) vs"
| "struct_field acc (JNull # vs) = struct_field acc vs"
| "struct_field acc (_ # vs) = None"

text \<open>The top-level value.\<close>

fun struct_value :: "json \<Rightarrow> members option" where
  "struct_value (JObject kvs) = Some kvs"
| "struct_value JNull = Some []"
| "struct_value _ = None"

definition str_of :: "string \<Rightarrow> members \<Rightarrow> string option" where
  "str_of k kvs = string_field [] (named k kvs)"

definition int_of :: "string \<Rightarrow> members \<Rightarrow> int option" where
  "int_of k kvs = int_field 0 (named k kvs)"

definition bool_of :: "string \<Rightarrow> members \<Rightarrow> bool option" where
  "bool_of k kvs = bool_field False (named k kvs)"

definition struct_of :: "string \<Rightarrow> members \<Rightarrow> members option" where
  "struct_of k kvs = struct_field [] (named k kvs)"

text \<open>A repeated array member is read into the elements that are there; \<^verbatim>\<open>null\<close> leaves an element alone.\<close>

fun merge_strings :: "string list \<Rightarrow> json list \<Rightarrow> string list option" where
  "merge_strings old [] = Some []"
| "merge_strings old (JString t # vs) = map_option ((#) t) (merge_strings (tl old) vs)"
| "merge_strings old (JNull # vs) = map_option ((#) (case old of [] \<Rightarrow> [] | x # _ \<Rightarrow> x)) (merge_strings (tl old) vs)"
| "merge_strings old (_ # vs) = None"

fun strings_field :: "string list \<Rightarrow> json list \<Rightarrow> string list option" where
  "strings_field acc [] = Some acc"
| "strings_field acc (JArray xs # vs) = (case merge_strings acc xs of None \<Rightarrow> None | Some ys \<Rightarrow> strings_field ys vs)"
| "strings_field acc (JNull # vs) = strings_field [] vs"
| "strings_field acc (_ # vs) = None"

definition strings_of :: "string \<Rightarrow> members \<Rightarrow> string list option" where
  "strings_of k kvs = strings_field [] (named k kvs)"

text \<open>What is left in the target when the error of \<^verbatim>\<open>Unmarshal\<close> is ignored: members of the wrong type
  are skipped.\<close>

fun string_lax :: "string \<Rightarrow> json list \<Rightarrow> string" where
  "string_lax acc [] = acc"
| "string_lax acc (JString t # vs) = string_lax t vs"
| "string_lax acc (_ # vs) = string_lax acc vs"

fun int_lax :: "int \<Rightarrow> json list \<Rightarrow> int" where
  "int_lax acc [] = acc"
| "int_lax acc (JNumber t # vs) = int_lax (case parse_int64 t of None \<Rightarrow> acc | Some i \<Rightarrow> i) vs"
| "int_lax acc (_ # vs) = int_lax acc vs"

fun struct_lax :: "members \<Rightarrow> json list \<Rightarrow> members" where
  "struct_lax acc [] = acc"
| "struct_lax acc (JObject kvs # vs) = struct_lax (acc @ kvs) vs"
| "struct_lax acc (_ # vs) = struct_lax acc vs"

end
