(* ===== verification/Hooks_Normalize.thy ===== *)
theory Hooks_Normalize
  imports Main Go_Json "HOL-Library.Monad_Syntax"
begin

text \<open>
  Webhook normalization, \<^verbatim>\<open>internal/hooks/normalize.go\<close>: from GitLab merge request and note payloads
  and CI triggers to one event type, with the idempotency key that identifies a logical trigger.
  \<open>decode\<close> reads the payload bytes, \<open>sha\<close> is the hexadecimal form of the first 16 bytes of
  SHA-256, \<open>marshal\<close> writes a JSON value.
\<close>

record normalized_event =
  ev_gitlab_instance_url :: string
  ev_project_id :: int
  ev_project_path :: string
  ev_mr_iid :: int
  ev_action :: string
  ev_head_sha :: string
  ev_head_sha_deferred :: bool
  ev_is_draft :: bool
  ev_hook_source :: string
  ev_trigger_type :: string
  ev_event_type :: string
  ev_idempotency_key :: string
  ev_title :: string
  ev_source_branch :: string
  ev_target_branch :: string
  ev_author :: string
  ev_web_url :: string
  ev_state :: string
  ev_scope_json :: "string option"

record hook_source_probe =
  hsp_group_id :: "int option"
  hsp_group_path :: string
  hsp_group_name :: string
  hsp_g_id :: int
  hsp_g_name :: string
  hsp_g_path :: string
  hsp_g_full_path :: string

record webhook_payload =
  wp_object_kind :: string
  wp_event_type :: string
  wp_probe :: hook_source_probe
  wp_iid :: int
  wp_action :: string
  wp_title :: string
  wp_source_branch :: string
  wp_target_branch :: string
  wp_state :: string
  wp_created_at :: string
  wp_updated_at :: string
  wp_actioned_at :: string
  wp_oldrev :: string
  wp_work_in_progress :: bool
  wp_draft :: bool
  wp_url :: string
  wp_last_commit_id :: string
  wp_project_id :: int
  wp_path_with_namespace :: string
  wp_web_url :: string
  wp_username :: string

definition decode_probe :: "members \<Rightarrow> hook_source_probe option" where
  "decode_probe kvs = do {
     gid \<leftarrow> int_ptr_field None (named ''group_id'' kvs);
     gpath \<leftarrow> str_of ''group_path'' kvs; gname \<leftarrow> str_of ''group_name'' kvs;
     g \<leftarrow> struct_of ''group'' kvs;
     i \<leftarrow> int_of ''id'' g; n \<leftarrow> str_of ''name'' g; p \<leftarrow> str_of ''path'' g; fp \<leftarrow> str_of ''full_path'' g;
     Some \<lparr>hsp_group_id = gid, hsp_group_path = gpath, hsp_group_name = gname, hsp_g_id = i,
       hsp_g_name = n, hsp_g_path = p, hsp_g_full_path = fp\<rparr>}"

definition decode_webhook :: "json \<Rightarrow> webhook_payload option" where
  "decode_webhook v = do {
     kvs \<leftarrow> struct_value v;
     kind \<leftarrow> str_of ''object_kind'' kvs; etype \<leftarrow> str_of ''event_type'' kvs;
     probe \<leftarrow> decode_probe kvs;
     oa \<leftarrow> struct_of ''object_attributes'' kvs;
     iid \<leftarrow> int_of ''iid'' oa; action \<leftarrow> str_of ''action'' oa; title \<leftarrow> str_of ''title'' oa;
     sb \<leftarrow> str_of ''source_branch'' oa; tb \<leftarrow> str_of ''target_branch'' oa; state \<leftarrow> str_of ''state'' oa;
     ca \<leftarrow> str_of ''created_at'' oa; ua \<leftarrow> str_of ''updated_at'' oa; aa \<leftarrow> str_of ''actioned_at'' oa;
     oldrev \<leftarrow> str_of ''oldrev'' oa; wip \<leftarrow> bool_of ''work_in_progress'' oa;
     draft \<leftarrow> bool_of ''draft'' oa; url \<leftarrow> str_of ''url'' oa;
     lc \<leftarrow> struct_of ''last_commit'' oa; lcid \<leftarrow> str_of ''id'' lc;
     pr \<leftarrow> struct_of ''project'' kvs;
     pid \<leftarrow> int_of ''id'' pr; pns \<leftarrow> str_of ''path_with_namespace'' pr; wurl \<leftarrow> str_of ''web_url'' pr;
     us \<leftarrow> struct_of ''user'' kvs; un \<leftarrow> str_of ''username'' us;
     Some \<lparr>wp_object_kind = kind, wp_event_type = etype, wp_probe = probe, wp_iid = iid,
       wp_action = action, wp_title = title, wp_source_branch = sb, wp_target_branch = tb,
       wp_state = state, wp_created_at = ca, wp_updated_at = ua, wp_actioned_at = aa,
       wp_oldrev = oldrev, wp_work_in_progress = wip, wp_draft = draft, wp_url = url,
       wp_last_commit_id = lcid, wp_project_id = pid, wp_path_with_namespace = pns,
       wp_web_url = wurl, wp_username = un\<rparr>}"

subsection \<open>Hook source\<close>

definition normalizeWebhookSourceFallback :: "string \<Rightarrow> string" where
  "normalizeWebhookSourceFallback fallback = (let v = norm_lower fallback in
     if v = ''system'' then ''system'' else if v = ''group'' then ''group'' else ''project'')"

definition hasGroupWebhookScope :: "hook_source_probe \<Rightarrow> bool" where
  "hasGroupWebhookScope p \<longleftrightarrow> hsp_group_id p \<noteq> None \<or> hsp_group_path p \<noteq> [] \<or> hsp_group_name p \<noteq> []
     \<or> hsp_g_id p > 0 \<or> hsp_g_path p \<noteq> [] \<or> hsp_g_full_path p \<noteq> [] \<or> hsp_g_name p \<noteq> []"

definition resolveWebhookSourceProbe :: "hook_source_probe \<Rightarrow> string \<Rightarrow> string" where
  "resolveWebhookSourceProbe probe fallback =
     (let nf = normalizeWebhookSourceFallback fallback in
      if nf = ''system'' \<or> nf = ''group'' then nf
      else if hasGroupWebhookScope probe then ''group'' else nf)"

definition resolveWebhookSource :: "webhook_payload \<Rightarrow> string \<Rightarrow> string" where
  "resolveWebhookSource raw fallback = resolveWebhookSourceProbe (wp_probe raw) fallback"

definition inferWebhookSource :: "(string \<Rightarrow> json option) \<Rightarrow> string \<Rightarrow> string \<Rightarrow> string" where
  "inferWebhookSource decode payload fallback =
     (case Option.bind (Option.bind (decode payload) struct_value) decode_probe of
        None \<Rightarrow> normalizeWebhookSourceFallback fallback
      | Some probe \<Rightarrow> resolveWebhookSourceProbe probe fallback)"

subsection \<open>Idempotency key\<close>

definition omitempty :: "string \<Rightarrow> string \<Rightarrow> members" where
  "omitempty k v = (if v = [] then [] else [(k, JString v)])"

definition computeDeferredHeadSHAKey ::
  "(json \<Rightarrow> string) \<Rightarrow> (string \<Rightarrow> string) \<Rightarrow> webhook_payload \<Rightarrow> string" where
  "computeDeferredHeadSHAKey marshal sha raw = sha (marshal (JObject
     ([(''action'', JString (wp_action raw))] @ omitempty ''oldrev'' (wp_oldrev raw)
      @ omitempty ''state'' (wp_state raw) @ omitempty ''created_at'' (wp_created_at raw)
      @ omitempty ''updated_at'' (wp_updated_at raw) @ omitempty ''actioned_at'' (wp_actioned_at raw)
      @ omitempty ''source_branch'' (wp_source_branch raw)
      @ omitempty ''target_branch'' (wp_target_branch raw) @ omitempty ''url'' (wp_url raw))))"

definition sha_component :: "string \<Rightarrow> bool \<Rightarrow> string \<Rightarrow> string" where
  "sha_component headSHA deferred disc =
     (if deferred then (if disc \<noteq> [] then ''deferred:'' @ disc else ''deferred'') else headSHA)"

definition idempotency_input ::
  "string \<Rightarrow> int \<Rightarrow> int \<Rightarrow> string \<Rightarrow> bool \<Rightarrow> string \<Rightarrow> string \<Rightarrow> string" where
  "idempotency_input instanceURL projectID mrIID headSHA deferred triggerType disc =
     trim_right_set instanceURL ''/'' @ ''|'' @ itoa projectID @ ''|'' @ itoa mrIID @ ''|''
       @ sha_component headSHA deferred disc @ ''|'' @ triggerType"

definition computeIdempotencyKey :: "(string \<Rightarrow> string) \<Rightarrow>
    string \<Rightarrow> int \<Rightarrow> int \<Rightarrow> string \<Rightarrow> bool \<Rightarrow> string \<Rightarrow> string \<Rightarrow> string" where
  "computeIdempotencyKey sha instanceURL projectID mrIID headSHA deferred triggerType disc =
     sha (idempotency_input instanceURL projectID mrIID headSHA deferred triggerType disc)"

definition extractInstanceURL :: "string \<Rightarrow> string" where
  "extractInstanceURL webURL =
     (if webURL = [] then []
      else case index_of webURL ''://'' of
        None \<Rightarrow> []
      | Some protoEnd \<Rightarrow>
          (case index_of (drop (protoEnd + 3) webURL) ''/'' of
             None \<Rightarrow> webURL
           | Some slashIdx \<Rightarrow> take (protoEnd + 3 + slashIdx) webURL))"

subsection \<open>Events\<close>

definition NormalizeWebhook :: "(string \<Rightarrow> json option) \<Rightarrow> (json \<Rightarrow> string) \<Rightarrow> (string \<Rightarrow> string) \<Rightarrow>
    string \<Rightarrow> string \<Rightarrow> string \<Rightarrow> normalized_event option" where
  "NormalizeWebhook decode marshal sha payload headerEventType hookSource =
     (case Option.bind (decode payload) decode_webhook of
        None \<Rightarrow> None
      | Some raw \<Rightarrow>
         (let et0 = headerEventType;
              et1 = (if et0 = [] then wp_event_type raw else et0);
              eventType = (if et1 = [] then wp_object_kind raw else et1);
              instanceURL = extractInstanceURL (wp_web_url raw);
              headSHA = wp_last_commit_id raw;
              deferred = (headSHA = []);
              disc = (if deferred then computeDeferredHeadSHAKey marshal sha raw else [])
          in Some \<lparr>ev_gitlab_instance_url = instanceURL, ev_project_id = wp_project_id raw,
               ev_project_path = wp_path_with_namespace raw, ev_mr_iid = wp_iid raw,
               ev_action = wp_action raw, ev_head_sha = headSHA, ev_head_sha_deferred = deferred,
               ev_is_draft = (wp_draft raw \<or> wp_work_in_progress raw),
               ev_hook_source = resolveWebhookSource raw hookSource,
               ev_trigger_type = ''webhook'', ev_event_type = eventType,
               ev_idempotency_key = computeIdempotencyKey sha instanceURL (wp_project_id raw)
                 (wp_iid raw) headSHA deferred ''webhook'' disc,
               ev_title = wp_title raw, ev_source_branch = wp_source_branch raw,
               ev_target_branch = wp_target_branch raw, ev_author = wp_username raw,
               ev_web_url = wp_url raw, ev_state = wp_state raw, ev_scope_json = None\<rparr>))"

record ci_trigger_input =
  ci_gitlab_instance_url :: string
  ci_project_id :: int
  ci_project_path :: string
  ci_mr_iid :: int
  ci_head_sha :: string

definition NormalizeCITrigger :: "(string \<Rightarrow> string) \<Rightarrow> ci_trigger_input \<Rightarrow> normalized_event" where
  "NormalizeCITrigger sha i =
     \<lparr>ev_gitlab_instance_url = ci_gitlab_instance_url i, ev_project_id = ci_project_id i,
      ev_project_path = ci_project_path i, ev_mr_iid = ci_mr_iid i, ev_action = ''ci_trigger'',
      ev_head_sha = ci_head_sha i, ev_head_sha_deferred = (ci_head_sha i = []),
      ev_is_draft = False, ev_hook_source = ''ci'', ev_trigger_type = ''ci'',
      ev_event_type = ''ci_trigger'',
      ev_idempotency_key = computeIdempotencyKey sha (ci_gitlab_instance_url i) (ci_project_id i)
        (ci_mr_iid i) (ci_head_sha i) (ci_head_sha i = []) ''ci'' [],
      ev_title = [], ev_source_branch = [], ev_target_branch = [], ev_author = [], ev_web_url = [],
      ev_state = [], ev_scope_json = None\<rparr>"

subsection \<open>Note events\<close>

record normalized_note_event =
  ne_gitlab_instance_url :: string
  ne_project_id :: int
  ne_project_path :: string
  ne_mr_iid :: int
  ne_head_sha :: string
  ne_note_body :: string
  ne_note_author :: string
  ne_discussion_id :: string
  ne_noteable_type :: string
  ne_hook_source :: string
  ne_delivery_key :: string

record note_webhook_payload =
  nwp_object_kind :: string
  nwp_event_type :: string
  nwp_note :: string
  nwp_noteable_type :: string
  nwp_discussion_id :: string
  nwp_username :: string
  nwp_project_id :: int
  nwp_path_with_namespace :: string
  nwp_web_url :: string
  nwp_iid :: int
  nwp_last_commit_id :: string

definition decode_note :: "json \<Rightarrow> note_webhook_payload option" where
  "decode_note v = do {
     kvs \<leftarrow> struct_value v;
     kind \<leftarrow> str_of ''object_kind'' kvs; etype \<leftarrow> str_of ''event_type'' kvs;
     oa \<leftarrow> struct_of ''object_attributes'' kvs;
     note \<leftarrow> str_of ''note'' oa; nt \<leftarrow> str_of ''noteable_type'' oa; disc \<leftarrow> str_of ''discussion_id'' oa;
     us \<leftarrow> struct_of ''user'' kvs; un \<leftarrow> str_of ''username'' us;
     pr \<leftarrow> struct_of ''project'' kvs;
     pid \<leftarrow> int_of ''id'' pr; pns \<leftarrow> str_of ''path_with_namespace'' pr; wurl \<leftarrow> str_of ''web_url'' pr;
     mr \<leftarrow> struct_of ''merge_request'' kvs;
     iid \<leftarrow> int_of ''iid'' mr; lc \<leftarrow> struct_of ''last_commit'' mr; lcid \<leftarrow> str_of ''id'' lc;
     Some \<lparr>nwp_object_kind = kind, nwp_event_type = etype, nwp_note = note, nwp_noteable_type = nt,
       nwp_discussion_id = disc, nwp_username = un, nwp_project_id = pid,
       nwp_path_with_namespace = pns, nwp_web_url = wurl, nwp_iid = iid, nwp_last_commit_id = lcid\<rparr>}"

definition NormalizeNoteWebhook ::
  "(string \<Rightarrow> json option) \<Rightarrow> string \<Rightarrow> string \<Rightarrow> string \<Rightarrow> normalized_note_event option" where
  "NormalizeNoteWebhook decode payload headerEventType hookSource =
     (case Option.bind (decode payload) decode_note of
        None \<Rightarrow> None
      | Some raw \<Rightarrow> Some \<lparr>ne_gitlab_instance_url = extractInstanceURL (nwp_web_url raw),
          ne_project_id = nwp_project_id raw, ne_project_path = nwp_path_with_namespace raw,
          ne_mr_iid = nwp_iid raw, ne_head_sha = nwp_last_commit_id raw, ne_note_body = nwp_note raw,
          ne_note_author = nwp_username raw, ne_discussion_id = nwp_discussion_id raw,
          ne_noteable_type = nwp_noteable_type raw,
          ne_hook_source = normalizeWebhookSourceFallback hookSource, ne_delivery_key = []\<rparr>)"

subsection \<open>Event types\<close>

definition IsNoteEventType :: "string \<Rightarrow> bool" where
  "IsNoteEventType h \<longleftrightarrow> norm_lower h = ''note'' \<or> norm_lower h = ''note hook''"

definition IsMergeRequestEventType :: "string \<Rightarrow> bool" where
  "IsMergeRequestEventType h \<longleftrightarrow> norm_lower h = ''merge_request'' \<or> norm_lower h = ''merge request hook''"

definition IsSystemHookHeader :: "string \<Rightarrow> bool" where
  "IsSystemHookHeader h \<longleftrightarrow> equal_fold (trim_space h) ''system hook''"

definition payload_kind :: "(string \<Rightarrow> json option) \<Rightarrow> string \<Rightarrow> string option" where
  "payload_kind decode payload =
     Option.bind (Option.bind (decode payload) struct_value) (str_of ''object_kind'')"

definition IsNotePayload :: "(string \<Rightarrow> json option) \<Rightarrow> string \<Rightarrow> bool" where
  "IsNotePayload decode payload \<longleftrightarrow> (case payload_kind decode payload of
     None \<Rightarrow> False | Some k \<Rightarrow> equal_fold k ''note'')"

definition IsMergeRequestPayload :: "(string \<Rightarrow> json option) \<Rightarrow> string \<Rightarrow> bool" where
  "IsMergeRequestPayload decode payload \<longleftrightarrow> (case payload_kind decode payload of
     None \<Rightarrow> False | Some k \<Rightarrow> equal_fold k ''merge_request'')"

definition IsMergeRequestNotePayload :: "(string \<Rightarrow> json option) \<Rightarrow> string \<Rightarrow> bool" where
  "IsMergeRequestNotePayload decode payload \<longleftrightarrow>
     (case do { v \<leftarrow> decode payload; kvs \<leftarrow> struct_value v; k \<leftarrow> str_of ''object_kind'' kvs;
                oa \<leftarrow> struct_of ''object_attributes'' kvs; nt \<leftarrow> str_of ''noteable_type'' oa;
                Some (k, nt) } of
        None \<Rightarrow> False
      | Some (k, nt) \<Rightarrow> equal_fold k ''note'' \<and> equal_fold nt ''MergeRequest'')"

subsection \<open>The key identifies the trigger\<close>

lemma trim_right_set_chars: "c \<in> set (trim_right_set s cs) \<Longrightarrow> c \<in> set s"
  by (auto simp: trim_right_set_def dest: set_dropWhileD)

lemma idempotency_input_inj:
  assumes "idempotency_input u p m h d tt disc = idempotency_input u' p' m' h' d' tt' disc'"
    and "CHR ''|'' \<notin> set u" and "CHR ''|'' \<notin> set u'" and "CHR ''|'' \<notin> set tt" and "CHR ''|'' \<notin> set tt'"
  shows "trim_right_set u ''/'' = trim_right_set u' ''/'' \<and> p = p' \<and> m = m'
    \<and> sha_component h d disc = sha_component h' d' disc' \<and> tt = tt'"
proof -
  have no: "CHR ''|'' \<notin> set (itoa i)" for i using itoa_chars [of "CHR ''|''" i] by (auto simp: is_digit_def)
  have u: "CHR ''|'' \<notin> set (trim_right_set u ''/'')" "CHR ''|'' \<notin> set (trim_right_set u' ''/'')"
    using assms(2,3) trim_right_set_chars by blast+
  let ?b = "CHR ''|''"
  have "trim_right_set u ''/'' @ ?b # itoa p @ ?b # itoa m @ ?b # sha_component h d disc @ ?b # tt
      = trim_right_set u' ''/'' @ ?b # itoa p' @ ?b # itoa m' @ ?b # sha_component h' d' disc' @ ?b # tt'"
    using assms(1) by (simp add: idempotency_input_def)
  from append_sep_inj [OF this u]
  have e1: "trim_right_set u ''/'' = trim_right_set u' ''/''"
    and r1: "itoa p @ ?b # itoa m @ ?b # sha_component h d disc @ ?b # tt
      = itoa p' @ ?b # itoa m' @ ?b # sha_component h' d' disc' @ ?b # tt'" by blast+
  from append_sep_inj [OF r1 no no]
  have e2: "itoa p = itoa p'"
    and r2: "itoa m @ ?b # sha_component h d disc @ ?b # tt = itoa m' @ ?b # sha_component h' d' disc' @ ?b # tt'"
    by blast+
  from append_sep_inj [OF r2 no no]
  have e3: "itoa m = itoa m'"
    and r3: "sha_component h d disc @ ?b # tt = sha_component h' d' disc' @ ?b # tt'" by blast+
  from arg_cong [OF r3, of rev]
  have "rev tt @ ?b # rev (sha_component h d disc) = rev tt' @ ?b # rev (sha_component h' d' disc')" by simp
  from append_sep_inj [OF this] assms(4,5)
  have "rev tt = rev tt'" "rev (sha_component h d disc) = rev (sha_component h' d' disc')" by simp_all
  then show ?thesis using e1 e2 e3 by simp
qed

text \<open>Idempotency key. For instance URLs and trigger types without a vertical bar, two equal
  idempotency keys mean the same instance up to trailing slashes, project, merge request, head (or
  deferred discriminator) and trigger type, unless two different inputs collide under the hash.\<close>

theorem idempotency_key_identifies:
  assumes "computeIdempotencyKey sha u p m h d tt disc = computeIdempotencyKey sha u' p' m' h' d' tt' disc'"
    and "CHR ''|'' \<notin> set u" and "CHR ''|'' \<notin> set u'" and "CHR ''|'' \<notin> set tt" and "CHR ''|'' \<notin> set tt'"
  shows "(trim_right_set u ''/'' = trim_right_set u' ''/'' \<and> p = p' \<and> m = m'
      \<and> sha_component h d disc = sha_component h' d' disc' \<and> tt = tt')
    \<or> (\<exists>a b. a \<noteq> b \<and> sha a = sha b)"
proof (cases "idempotency_input u p m h d tt disc = idempotency_input u' p' m' h' d' tt' disc'")
  case True
  from idempotency_input_inj [OF this assms(2-5)] show ?thesis ..
next
  case False
  then show ?thesis using assms(1) unfolding computeIdempotencyKey_def by blast
qed

theorem idempotency_key_identifies_witness:
  "trim_right_set ''https://g.io/'' ''/'' = trim_right_set ''https://g.io'' ''/''"
proof -
  have "computeIdempotencyKey (\<lambda>x. x) ''https://g.io/'' 1 2 ''abc'' False ''webhook'' []
      = computeIdempotencyKey (\<lambda>x. x) ''https://g.io'' 1 2 ''abc'' False ''webhook'' []" by code_simp
  from idempotency_key_identifies [OF this] show ?thesis by simp
qed

text \<open>Hook source independence. The event of a payload does not depend on how the hook was
  delivered: for any two headers and hook sources the results differ at most in the recorded source
  and event type, in particular the idempotency key is the same.\<close>

theorem normalize_source_independent:
  "map_option (\<lambda>e. e\<lparr>ev_hook_source := [], ev_event_type := []\<rparr>)
     (NormalizeWebhook decode marshal sha payload h1 src1)
   = map_option (\<lambda>e. e\<lparr>ev_hook_source := [], ev_event_type := []\<rparr>)
     (NormalizeWebhook decode marshal sha payload h2 src2)"
  by (simp add: NormalizeWebhook_def Let_def split: option.split)

text \<open>CI triggers are separate. A CI trigger and a webhook for the same instance, project,
  merge request and head never share a key unless the hash collides.\<close>

theorem ci_key_distinct:
  assumes "NormalizeWebhook decode marshal sha payload hdr src = Some e"
    and "CHR ''|'' \<notin> set (ev_gitlab_instance_url e)" and "CHR ''|'' \<notin> set (ci_gitlab_instance_url i)"
    and "ev_idempotency_key e = ev_idempotency_key (NormalizeCITrigger sha i)"
  shows "\<exists>a b. a \<noteq> b \<and> sha a = sha b"
proof -
  from assms(1) obtain p m h d disc u where
    k: "ev_idempotency_key e = computeIdempotencyKey sha u p m h d ''webhook'' disc" "u = ev_gitlab_instance_url e"
    by (auto simp: NormalizeWebhook_def Let_def split: option.splits)
  have "computeIdempotencyKey sha u p m h d ''webhook'' disc
      = computeIdempotencyKey sha (ci_gitlab_instance_url i) (ci_project_id i)
        (ci_mr_iid i) (ci_head_sha i) (ci_head_sha i = []) ''ci'' []"
    using assms(4) k by (simp add: NormalizeCITrigger_def)
  then have "sha (idempotency_input u p m h d ''webhook'' disc)
      = sha (idempotency_input (ci_gitlab_instance_url i) (ci_project_id i)
          (ci_mr_iid i) (ci_head_sha i) (ci_head_sha i = []) ''ci'' [])"
    by (simp only: computeIdempotencyKey_def)
  moreover have "idempotency_input u p m h d ''webhook'' disc
      \<noteq> idempotency_input (ci_gitlab_instance_url i) (ci_project_id i)
          (ci_mr_iid i) (ci_head_sha i) (ci_head_sha i = []) ''ci'' []" (is "?x \<noteq> ?y")
  proof
    assume "?x = ?y"
    from idempotency_input_inj [OF this] assms(2,3) k(2) show False by simp
  qed
  ultimately show ?thesis by blast
qed

theorem ci_key_distinct_witness:
  "\<exists>a b. a \<noteq> b \<and> (\<lambda>_ :: string. ''k'') a = (\<lambda>_ :: string. ''k'') b"
proof -
  let ?n = "NormalizeWebhook (\<lambda>_. Some JNull) (\<lambda>_. []) (\<lambda>_. ''k'') [] [] []"
  let ?i = "\<lparr>ci_gitlab_instance_url = [], ci_project_id = 0, ci_project_path = [], ci_mr_iid = 0, ci_head_sha = []\<rparr>"
  have 1: "?n = Some (the ?n)" by code_simp
  have 2: "CHR ''|'' \<notin> set (ev_gitlab_instance_url (the ?n))" by code_simp
  have 3: "CHR ''|'' \<notin> set (ci_gitlab_instance_url ?i)" by simp
  have 4: "ev_idempotency_key (the ?n) = ev_idempotency_key (NormalizeCITrigger (\<lambda>_. ''k'') ?i)" by code_simp
  show ?thesis by (rule ci_key_distinct [OF 1 2 3 4])
qed

subsection \<open>Instance URL\<close>

lemma has_prefix_append: "has_prefix (p @ b) p"
  by (simp add: has_prefix_def)

lemma index_of_Some:
  "index_of s p = Some i \<Longrightarrow> i \<le> length s \<and> has_prefix (drop i s) p"
  by (induction s arbitrary: i) (auto simp: has_prefix_def split: if_splits)

lemma index_of_first:
  assumes "index_of a p = None" and "\<And>k. k < length a \<Longrightarrow> \<not> has_prefix (drop k a @ p @ b) p"
  shows "index_of (a @ p @ b) p = Some (length a)"
  using assms
proof (induction a)
  case Nil
  then have "p \<noteq> []" by auto
  then show ?case by (cases "p @ b") (use has_prefix_append [of p b] in auto)
next
  case (Cons c a)
  have "\<not> has_prefix (c # a @ p @ b) p" using Cons.prems(2) [of 0] by simp
  moreover have "index_of a p = None" using Cons.prems(1) by (auto split: if_splits)
  moreover have "\<not> has_prefix (drop k a @ p @ b) p" if "k < length a" for k
    using Cons.prems(2) [of "Suc k"] that by simp
  ultimately show ?case using Cons.IH by simp
qed

lemma index_of_fresh:
  assumes "hd p \<notin> set a" and "p \<noteq> []"
  shows "index_of a p = None" and "index_of (a @ p @ b) p = Some (length a)"
proof -
  show "index_of a p = None"
    using assms by (induction a) (auto simp: has_prefix_def, metis hd_take length_greater_0_conv list.sel(1) list.size(3))
  moreover have "\<not> has_prefix (drop k a @ p @ b) p" if "k < length a" for k
  proof
    assume "has_prefix (drop k a @ p @ b) p"
    then have "hd p = hd (drop k a @ p @ b)"
      using assms(2) by (metis has_prefix_def hd_take length_greater_0_conv)
    also have "\<dots> = a ! k" using that by (simp add: hd_append hd_drop_conv_nth)
    finally show False using assms(1) that by auto
  qed
  ultimately show "index_of (a @ p @ b) p = Some (length a)" by (rule index_of_first)
qed

text \<open>Instance URL. For a project URL made of a scheme without a colon, a host (with port) without
  a slash and any path, the instance URL is scheme and host alone, so all projects of one instance
  share it, and it is its own instance URL.\<close>

theorem extractInstanceURL_host:
  assumes "CHR '':'' \<notin> set scheme" and "CHR ''/'' \<notin> set host"
  shows "extractInstanceURL (scheme @ ''://'' @ host @ ''/'' @ path) = scheme @ ''://'' @ host
    \<and> extractInstanceURL (scheme @ ''://'' @ host) = scheme @ ''://'' @ host"
proof -
  have proto: "index_of (scheme @ ''://'' @ r) ''://'' = Some (length scheme)" for r
    using index_of_fresh(2) [of "''://''" scheme r] assms(1) by simp
  have slash: "index_of (host @ ''/'' @ path) ''/'' = Some (length host)" "index_of host ''/'' = None"
    using index_of_fresh [of "''/''" host] assms(2) by simp_all
  have rest: "drop (length scheme + 3) (scheme @ ''://'' @ r) = r" for r by simp
  have pre: "take (length scheme + 3 + length host) (scheme @ ''://'' @ host @ ''/'' @ path) = scheme @ ''://'' @ host"
    by (simp add: numeral_3_eq_3)
  show ?thesis
    unfolding extractInstanceURL_def proto rest slash option.case pre by simp
qed

theorem extractInstanceURL_host_witness:
  "extractInstanceURL (''https'' @ ''://'' @ ''gitlab.example.com:8443'' @ ''/'' @ ''group/repo'')
     = ''https://gitlab.example.com:8443''"
  using extractInstanceURL_host [of "''https''" "''gitlab.example.com:8443''" "''group/repo''"] by simp

end
