(* ===== verification/Runs.thy ===== *)
theory Runs
  imports Db_Runs Db_Entities Hooks_Normalize
begin

text \<open>
  The run lifecycle, \<^verbatim>\<open>internal/runs/service.go\<close>: from a normalized event to review runs. An open or
  update event upserts instance, project and merge request and inserts a pending run unless its
  idempotency key is taken; an update also supersedes the other active runs of the merge request;
  close and merge cancel them. Everything happens in one transaction. \<open>lid\<close> is what the driver's
  \<^verbatim>\<open>LastInsertId\<close> reports after an upsert that updated a row.
\<close>

definition defaultMaxRetries :: int where
  "defaultMaxRetries = 3"

subsection \<open>Operations\<close>

definition ensureInstance :: "last_id \<Rightarrow> string \<Rightarrow> int dbm" where
  "ensureInstance lid instanceURL =
     (if instanceURL = [] then throw (ErrMsg ''empty gitlab instance URL'')
      else bindM (UpsertGitlabInstance lid instanceURL instanceURL) (\<lambda>i.
        if i > 0 then ret i
        else bindM (GetGitlabInstanceByURL instanceURL) (\<lambda>inst. ret (gi_id inst))))"

definition ensureProject :: "last_id \<Rightarrow> int \<Rightarrow> int \<Rightarrow> string \<Rightarrow> int dbm" where
  "ensureProject lid instanceID gitlabProjectID projectPath =
     bindM (UpsertProject lid instanceID gitlabProjectID projectPath True) (\<lambda>i.
       if i > 0 then ret i
       else bindM (GetProjectByGitlabID instanceID gitlabProjectID) (\<lambda>p. ret (pr_id p)))"

definition mr_params :: "int \<Rightarrow> normalized_event \<Rightarrow> merge_request_params" where
  "mr_params projectID ev =
     \<lparr>mrq_project_id = projectID, mrq_mr_iid = ev_mr_iid ev, mrq_title = ev_title ev,
      mrq_source_branch = ev_source_branch ev, mrq_target_branch = ev_target_branch ev,
      mrq_author = ev_author ev, mrq_state = ev_state ev, mrq_is_draft = ev_is_draft ev,
      mrq_head_sha = ev_head_sha ev, mrq_web_url = ev_web_url ev\<rparr>"

definition upsertMergeRequest :: "last_id \<Rightarrow> int \<Rightarrow> normalized_event \<Rightarrow> int dbm" where
  "upsertMergeRequest lid projectID ev =
     bindM (UpsertMergeRequest lid (mr_params projectID ev)) (\<lambda>i.
       if i > 0 then ret i
       else bindM (GetMergeRequestByProjectMR projectID (ev_mr_iid ev)) (\<lambda>m. ret (mr_id m)))"

definition run_params :: "int \<Rightarrow> int \<Rightarrow> normalized_event \<Rightarrow> int \<Rightarrow> insert_review_run_params" where
  "run_params projectID mrID ev hookEventID =
     \<lparr>irp_project_id = projectID, irp_merge_request_id = mrID,
      irp_hook_event_id = (if hookEventID > 0 then Some hookEventID else None),
      irp_trigger_type = ev_trigger_type ev, irp_head_sha = ev_head_sha ev,
      irp_status = ''pending'', irp_max_retries = defaultMaxRetries,
      irp_idempotency_key = ev_idempotency_key ev, irp_scope_json = ev_scope_json ev\<rparr>"

text \<open>The idempotency check and the insert, with the duplicate-key race answered as "not created".\<close>

definition insert_pending :: "int \<Rightarrow> int \<Rightarrow> normalized_event \<Rightarrow> int \<Rightarrow> bool dbm" where
  "insert_pending projectID mrID ev hookEventID =
     tryM (InsertReviewRun (run_params projectID mrID ev hookEventID)) (\<lambda>r. case r of
       Inl e \<Rightarrow> if is_duplicate_key_error e then ret False else throw e
     | Inr _ \<Rightarrow> ret True)"

definition check_and_insert :: "int \<Rightarrow> int \<Rightarrow> normalized_event \<Rightarrow> int \<Rightarrow> bool dbm" where
  "check_and_insert projectID mrID ev hookEventID =
     tryM (GetReviewRunByIdempotencyKey (ev_idempotency_key ev)) (\<lambda>r. case r of
       Inr existing \<Rightarrow> if rr_id existing > 0 then ret False
         else insert_pending projectID mrID ev hookEventID
     | Inl e \<Rightarrow> if e \<noteq> ErrNoRows then throw e else insert_pending projectID mrID ev hookEventID)"

definition createPendingRun :: "last_id \<Rightarrow> normalized_event \<Rightarrow> int \<Rightarrow> bool dbm" where
  "createPendingRun lid ev hookEventID =
     bindM (ensureInstance lid (ev_gitlab_instance_url ev)) (\<lambda>instanceID.
     bindM (ensureProject lid instanceID (ev_project_id ev) (ev_project_path ev)) (\<lambda>projectID.
     bindM (upsertMergeRequest lid projectID ev) (\<lambda>mrID.
     check_and_insert projectID mrID ev hookEventID)))"

definition handleUpdate :: "last_id \<Rightarrow> normalized_event \<Rightarrow> int \<Rightarrow> unit dbm" where
  "handleUpdate lid ev hookEventID =
     bindM (createPendingRun lid ev hookEventID) (\<lambda>created.
       if \<not> created then ret ()
       else bindM (GetReviewRunByIdempotencyKey (ev_idempotency_key ev)) (\<lambda>newRun.
         SupersedeActiveRunsForMR (Some (rr_id newRun)) (rr_merge_request_id newRun) (rr_id newRun)))"

definition cancelRuns :: "last_id \<Rightarrow> normalized_event \<Rightarrow> string \<Rightarrow> unit dbm" where
  "cancelRuns lid ev action =
     bindM (ensureInstance lid (ev_gitlab_instance_url ev)) (\<lambda>instanceID.
     tryM (GetProjectByGitlabID instanceID (ev_project_id ev)) (\<lambda>p. case p of
       Inl e \<Rightarrow> if e = ErrNoRows then ret () else throw e
     | Inr pr \<Rightarrow>
        tryM (GetMergeRequestByProjectMR (pr_id pr) (ev_mr_iid ev)) (\<lambda>m. case m of
          Inl e \<Rightarrow> if e = ErrNoRows then ret () else throw e
        | Inr mr \<Rightarrow>
            bindM (UpdateMergeRequestState (if action = ''merge'' then ''merged'' else ''closed'')
                     (ev_head_sha ev) (mr_id mr)) (\<lambda>_.
            CancelPendingRunsForMR (mr_id mr)))))"

definition ProcessEventWithQuerier :: "last_id \<Rightarrow> normalized_event \<Rightarrow> int \<Rightarrow> unit dbm" where
  "ProcessEventWithQuerier lid ev hookEventID =
     (let action = to_lower (ev_action ev) in
      if action \<in> set [''open'', ''reopen''] then
        bindM (createPendingRun lid ev hookEventID) (\<lambda>_. ret ())
      else if action \<in> set [''update'', ''ci_trigger'', ''manual_trigger''] then
        handleUpdate lid ev hookEventID
      else if action \<in> set [''close'', ''merge''] then cancelRuns lid ev action
      else ret ())"

definition ProcessEvent :: "last_id \<Rightarrow> normalized_event \<Rightarrow> int \<Rightarrow> unit dbm" where
  "ProcessEvent lid ev hookEventID = run_tx (ProcessEventWithQuerier lid ev hookEventID)"

subsection \<open>The entity statements leave the runs alone\<close>

definition same_runs :: "db \<Rightarrow> db \<Rightarrow> bool" where
  "same_runs s t \<longleftrightarrow> review_runs t = review_runs s \<and> clock t = clock s"

interpretation sruns: store_rel same_runs
  by unfold_locales (simp_all add: same_runs_def)

lemma same_runs_entities:
  "keeps same_runs (UpsertGitlabInstance lid u n)"
  "keeps same_runs (UpsertProject lid i p path en)"
  "keeps same_runs (UpsertMergeRequest lid a)"
  "keeps same_runs (UpdateMergeRequestState st h i)"
  "keeps same_runs (GetGitlabInstanceByURL u)"
  "keeps same_runs (GetProjectByGitlabID i p)"
  "keeps same_runs (GetMergeRequestByProjectMR p m)"
  "keeps same_runs (GetReviewRunByIdempotencyKey k)"
  unfolding UpsertGitlabInstance_def UpsertProject_def UpsertMergeRequest_def UpdateMergeRequestState_def
    GetGitlabInstanceByURL_def GetProjectByGitlabID_def GetMergeRequestByProjectMR_def
    GetReviewRunByIdempotencyKey_def
  by (auto intro!: sruns.keeps_stmt sruns.keeps_exec sruns.keeps_query_row
      simp: same_runs_def insert_into_def split: option.splits)

lemma same_runs_ensure:
  "keeps same_runs (ensureInstance lid u)"
  "keeps same_runs (ensureProject lid i p path)"
  "keeps same_runs (upsertMergeRequest lid p ev)"
  unfolding ensureInstance_def ensureProject_def upsertMergeRequest_def
  by (auto intro!: sruns.keeps_rules same_runs_entities)

lemma same_runs_same_tables: "same_tables s t \<Longrightarrow> same_runs s t"
  by (auto simp: same_tables_def same_runs_def)

subsection \<open>Creating a run\<close>

lemma insert_pending_cases:
  assumes "insert_pending p m ev h s = (r, t)"
  obtains (created) "r = Inr True" and "clock t = clock s"
      and "review_runs t = insert_row (new_run (run_params p m ev h) (clock s)) (review_runs s)"
      and "find_row (\<lambda>x. rr_idempotency_key x = ev_idempotency_key ev) (review_runs s) = None"
  | (not_created) "r \<noteq> Inr True" and "same_runs s t"
proof -
  from assms obtain q where q: "InsertReviewRun (run_params p m ev h) s = (q, t)"
    and r: "(case q of Inl e \<Rightarrow> if is_duplicate_key_error e then Inr False else Inl e | Inr _ \<Rightarrow> Inr True) = r"
    by (auto simp: insert_pending_def tryM_def ret_def throw_def split: prod.splits sum.splits if_splits)
  have key: "irp_idempotency_key (run_params p m ev h) = ev_idempotency_key ev" by (simp add: run_params_def)
  from q show ?thesis unfolding InsertReviewRun_def
  proof (cases rule: stmt_cases)
    case fault
    then show ?thesis using r not_created by (auto simp: same_runs_def is_duplicate_key_error_def)
  next
    case run
    then show ?thesis using r created not_created key
      by (auto simp: same_runs_def split: if_splits)
  qed
qed

lemma check_and_insert_cases:
  assumes "check_and_insert p m ev h s = (r, t)"
  obtains (created) "r = Inr True" and "clock t = clock s"
      and "review_runs t = insert_row (new_run (run_params p m ev h) (clock s)) (review_runs s)"
      and "find_row (\<lambda>x. rr_idempotency_key x = ev_idempotency_key ev) (review_runs s) = None"
  | (not_created) "r \<noteq> Inr True" and "same_runs s t"
proof -
  from assms obtain q s1 where q: "GetReviewRunByIdempotencyKey (ev_idempotency_key ev) s = (q, s1)"
    and c: "(case q of Inr existing \<Rightarrow> if rr_id existing > 0 then ret False else insert_pending p m ev h
       | Inl e \<Rightarrow> if e \<noteq> ErrNoRows then throw e else insert_pending p m ev h) s1 = (r, t)"
    unfolding check_and_insert_def by (rule tryM_elim)
  have s1: "same_runs s s1" using keepsD [OF same_runs_entities(8) q] .
  have "insert_pending p m ev h s1 = (r, t) \<or> (r \<noteq> Inr True \<and> t = s1)"
    using c by (auto simp: ret_def throw_def split: sum.splits if_splits)
  then show ?thesis
  proof
    assume "insert_pending p m ev h s1 = (r, t)"
    then show ?thesis
      by (cases rule: insert_pending_cases)
        (use s1 created not_created sruns.R_trans in \<open>auto simp: same_runs_def\<close>)
  qed (use s1 not_created in auto)
qed

text \<open>The three upserts, then the check: the run is created on some project and merge request, or
  the runs are untouched.\<close>

lemma createPendingRun_cases:
  assumes "createPendingRun lid ev h s = (r, t)"
  obtains (created) p m where "r = Inr True" and "clock t = clock s"
      and "review_runs t = insert_row (new_run (run_params p m ev h) (clock s)) (review_runs s)"
      and "find_row (\<lambda>x. rr_idempotency_key x = ev_idempotency_key ev) (review_runs s) = None"
  | (not_created) "r \<noteq> Inr True" and "same_runs s t"
proof -
  have "(\<exists>p m s1. same_runs s s1 \<and> check_and_insert p m ev h s1 = (r, t)) \<or> (r \<noteq> Inr True \<and> same_runs s t)"
    using same_runs_ensure(1) assms unfolding createPendingRun_def
  proof (cases rule: sruns.bindM_step)
    case (ok i s1)
    from same_runs_ensure(2) ok(3) show ?thesis
    proof (cases rule: sruns.bindM_step)
      case (ok p s2)
      from same_runs_ensure(3) ok(3) show ?thesis
        by (cases rule: sruns.bindM_step) (use \<open>same_runs s s1\<close> ok(1) sruns.R_trans in blast)+
    qed (use ok(1) sruns.R_trans in blast)
  qed auto
  then show ?thesis
  proof
    assume "\<exists>p m s1. same_runs s s1 \<and> check_and_insert p m ev h s1 = (r, t)"
    then obtain p m s1 where s1: "same_runs s s1" "check_and_insert p m ev h s1 = (r, t)" by blast
    from s1(2) show ?thesis
      by (cases rule: check_and_insert_cases)
        (use s1 created not_created sruns.R_trans in \<open>auto simp: same_runs_def\<close>)
  qed (use not_created in blast)
qed

subsection \<open>Events\<close>

definition key_taken :: "string \<Rightarrow> db \<Rightarrow> bool" where
  "key_taken k s \<longleftrightarrow> find_row (\<lambda>x. rr_idempotency_key x = k) (review_runs s) \<noteq> None"

definition cancel_action :: "normalized_event \<Rightarrow> bool" where
  "cancel_action ev \<longleftrightarrow> to_lower (ev_action ev) \<in> set [''close'', ''merge'']"

text \<open>All or nothing. If processing an event fails, at whatever call and for whatever reason, no
  table has changed.\<close>

theorem ProcessEvent_atomic:
  assumes "ProcessEvent lid ev h s = (Inl e, t)"
  shows "same_tables s t"
  using assms unfolding ProcessEvent_def by (rule run_tx_error_same_tables)

theorem ProcessEvent_atomic_witness:
  "same_tables (empty_db\<lparr>faults := [False, False, True]\<rparr>)
     (snd (ProcessEvent (\<lambda>_ r. r) (NormalizeCITrigger (\<lambda>_. ''k'')
        \<lparr>ci_gitlab_instance_url = ''https://g.io'', ci_project_id = 1, ci_project_path = ''a/b'',
         ci_mr_iid = 2, ci_head_sha = ''abc''\<rparr>) 0 (empty_db\<lparr>faults := [False, False, True]\<rparr>)))"
  (is "same_tables ?s (snd (ProcessEvent ?l ?ev 0 ?s))")
proof -
  have "fst (ProcessEvent ?l ?ev 0 ?s) = Inl ErrDB" by code_simp
  then have "ProcessEvent ?l ?ev 0 ?s = (Inl ErrDB, snd (ProcessEvent ?l ?ev 0 ?s))" by (metis prod.collapse)
  then show ?thesis by (rule ProcessEvent_atomic)
qed

lemma handleUpdate_taken:
  assumes "handleUpdate lid ev h s = (r, t)" and "key_taken (ev_idempotency_key ev) s"
  shows "same_runs s t"
proof -
  obtain q s1 where q: "createPendingRun lid ev h s = (q, s1)" by (cases "createPendingRun lid ev h s")
  then show ?thesis
  proof (cases rule: createPendingRun_cases)
    case not_created
    then show ?thesis
      using assms(1) q by (cases q) (auto simp: handleUpdate_def bindM_def ret_def)
  qed (use assms(2) in \<open>simp add: key_taken_def\<close>)
qed

text \<open>Idempotent delivery. Once a run exists for the idempotency key of an event, processing that
  event again, as open, reopen, update, CI or manual trigger, creates no run and changes none,
  whatever else fails on the way.\<close>

theorem ProcessEvent_idempotent:
  assumes "key_taken (ev_idempotency_key ev) s" and "\<not> cancel_action ev"
    and "ProcessEvent lid ev h s = (r, t)"
  shows "review_runs t = review_runs s"
proof (cases r)
  case (Inl e)
  with assms(3) show ?thesis
    using run_tx_error_same_tables same_runs_same_tables by (force simp: ProcessEvent_def same_runs_def)
next
  case (Inr u)
  with assms(3) obtain s1 s2 where st: "same_tables s s1" "same_tables s2 t"
    and m: "ProcessEventWithQuerier lid ev h s1 = (Inr u, s2)"
    unfolding ProcessEvent_def by (auto elim: run_tx_InrE)
  have taken: "key_taken (ev_idempotency_key ev) s1"
    using assms(1) same_runs_same_tables [OF st(1)] by (simp add: key_taken_def same_runs_def)
  have create: "same_runs s1 s2" if "createPendingRun lid ev h s1 = (q, s2)" for q
    using that by (cases rule: createPendingRun_cases) (use taken in \<open>auto simp: key_taken_def\<close>)
  have "same_runs s1 s2"
    using m assms(2) create handleUpdate_taken [OF _ taken] sruns.R_refl
    by (auto simp: ProcessEventWithQuerier_def Let_def cancel_action_def ret_def bindM_def
        split: if_splits prod.splits sum.splits)
  then show ?thesis
    using same_runs_same_tables [OF st(1)] same_runs_same_tables [OF st(2)] by (simp add: same_runs_def)
qed

definition sample_event :: normalized_event where
  "sample_event = (NormalizeCITrigger (\<lambda>_. ''k1'') \<lparr>ci_gitlab_instance_url = ''https://g.io'',
     ci_project_id = 42, ci_project_path = ''a/b'', ci_mr_iid = 7, ci_head_sha = ''abc''\<rparr>)"

theorem ProcessEvent_idempotent_witness:
  "review_runs (snd (ProcessEvent (\<lambda>_ r. r) sample_event 0 sample_db)) = review_runs sample_db"
  by (rule ProcessEvent_idempotent [of sample_event sample_db "\<lambda>_ r. r" 0 "fst (ProcessEvent (\<lambda>_ r. r) sample_event 0 sample_db)"])
    (code_simp, code_simp, simp)

lemma GetByKey_Inr:
  assumes "GetReviewRunByIdempotencyKey k s = (Inr x, t)"
  shows "find_row (\<lambda>r. rr_idempotency_key r = k) (review_runs s) = Some x \<and> same_runs s t"
proof
  show "same_runs s t" using keepsD [OF same_runs_entities(8) assms] .
  show "find_row (\<lambda>r. rr_idempotency_key r = k) (review_runs s) = Some x"
    using assms unfolding GetReviewRunByIdempotencyKey_def query_row_def
    by (cases rule: stmt_cases) (auto split: option.splits)
qed

definition set_superseded :: "int option \<Rightarrow> time \<Rightarrow> review_run \<Rightarrow> review_run" where
  "set_superseded by_id now r = r\<lparr>rr_status := ''cancelled'', rr_error_code := ''superseded_by_new_head'',
     rr_error_detail := Some ''Superseded by a newer MR head review run'',
     rr_superseded_by_run_id := by_id, rr_next_retry_at := None, rr_updated_at := now\<rparr>"

lemma SupersedeActiveRunsForMR_eq:
  "SupersedeActiveRunsForMR by_id m i = discard (update_runs
     (\<lambda>_ r. rr_merge_request_id r = m \<and> rr_id r \<noteq> i \<and> run_active r) (set_superseded by_id))"
  unfolding SupersedeActiveRunsForMR_def set_superseded_def ..

lemma SupersedeActiveRunsForMR_InrE:
  assumes "SupersedeActiveRunsForMR by_id m i s = (Inr u, t)"
  obtains "review_runs t = update_rows (\<lambda>r. rr_merge_request_id r = m \<and> rr_id r \<noteq> i \<and> run_active r)
      (set_superseded by_id (clock s)) (review_runs s)"
  using assms unfolding SupersedeActiveRunsForMR_eq by (auto elim!: discard_InrE update_runs_InrE)

text \<open>A new head supersedes. When an update event creates a run, under any pattern of failures
  that lets the transaction commit, exactly one row is added: it is pending, carries the event's key
  and head, and every other active run of its merge request, and no other run, is now cancelled
  and points to it.\<close>

theorem handleUpdate_supersedes:
  assumes "handleUpdate lid ev h s = (Inr (), t)" and "\<not> key_taken (ev_idempotency_key ev) s"
    and "runs_inv s" and "review_runs t \<noteq> review_runs s"
  shows "\<exists>x. rr_status x = ''pending'' \<and> rr_idempotency_key x = ev_idempotency_key ev
      \<and> rr_head_sha x = ev_head_sha ev \<and> rr_id x = next_id (review_runs s)
      \<and> rows (review_runs t) = map (\<lambda>r. if rr_merge_request_id r = rr_merge_request_id x \<and> run_active r
            then set_superseded (Some (rr_id x)) (clock s) r else r) (rows (review_runs s)) @ [x]"
proof -
  obtain q s1 where q: "createPendingRun lid ev h s = (q, s1)" by (cases "createPendingRun lid ev h s")
  then show ?thesis
  proof (cases rule: createPendingRun_cases)
    case not_created
    then have "t = s1" using assms(1) q by (cases q) (auto simp: handleUpdate_def bindM_def ret_def)
    with not_created(2) assms(4) show ?thesis by (simp add: same_runs_def)
  next
    case (created p m)
    define x where "x = new_run (run_params p m ev h) (clock s) (next_id (review_runs s))"
    have x: "rr_id x = next_id (review_runs s)" "rr_status x = ''pending''" "rr_merge_request_id x = m"
      "rr_idempotency_key x = ev_idempotency_key ev" "rr_head_sha x = ev_head_sha ev"
      by (simp_all add: x_def new_run_def run_params_def)
    have s1: "review_runs s1 = insert_row (\<lambda>_. x) (review_runs s)"
      unfolding created(3) x_def insert_row_def ..
    from assms(1) q created(1) have
      "bindM (GetReviewRunByIdempotencyKey (ev_idempotency_key ev)) (\<lambda>n.
         SupersedeActiveRunsForMR (Some (rr_id n)) (rr_merge_request_id n) (rr_id n)) s1 = (Inr (), t)"
      by (simp add: handleUpdate_def bindM_def)
    then obtain y s2 where y: "GetReviewRunByIdempotencyKey (ev_idempotency_key ev) s1 = (Inr y, s2)"
      and sup: "SupersedeActiveRunsForMR (Some (rr_id y)) (rr_merge_request_id y) (rr_id y) s2 = (Inr (), t)"
      by (rule bindM_elim)
    from GetByKey_Inr [OF y] have s2: "same_runs s1 s2"
      and "find_row (\<lambda>r. rr_idempotency_key r = ev_idempotency_key ev) (review_runs s1) = Some y" by blast+
    then have yx: "y = x" using s1 created(4) x by (simp add: find_row_insert_row)
    let ?p = "\<lambda>r. rr_merge_request_id r = m \<and> rr_id r \<noteq> next_id (review_runs s) \<and> run_active r"
    have sup': "SupersedeActiveRunsForMR (Some (rr_id x)) m (next_id (review_runs s)) s2 = (Inr (), t)"
      using sup by (simp only: yx x(1,3))
    have t: "review_runs t = update_rows ?p (set_superseded (Some (rr_id x)) (clock s)) (review_runs s1)"
    proof (rule SupersedeActiveRunsForMR_InrE [OF sup'])
      assume "review_runs t = update_rows ?p (set_superseded (Some (rr_id x)) (clock s2)) (review_runs s2)"
      moreover have "clock s2 = clock s" "review_runs s2 = review_runs s1"
        using s2 created(2) by (simp_all add: same_runs_def)
      ultimately show ?thesis by (simp only:)
    qed
    have old: "rr_id r \<noteq> next_id (review_runs s)" if "r \<in> set (rows (review_runs s))" for r
      using assms(3) that by (auto simp: runs_inv_def table_ok_def)
    have eq: "(if ?p r then set_superseded (Some (rr_id x)) (clock s) r else r)
        = (if rr_merge_request_id r = rr_merge_request_id x \<and> run_active r
           then set_superseded (Some (rr_id x)) (clock s) r else r)" if "r \<in> set (rows (review_runs s))" for r
      unfolding x(3) using old [OF that] by simp
    have "rows (review_runs t) = map (\<lambda>r. if rr_merge_request_id r = rr_merge_request_id x \<and> run_active r
            then set_superseded (Some (rr_id x)) (clock s) r else r) (rows (review_runs s)) @ [x]"
      unfolding t rows_update_rows s1 rows_insert_row map_append
      by (rule arg_cong2 [where f = append, OF map_cong [OF refl eq]]) (simp_all add: x(1))
    with x show ?thesis by blast
  qed
qed

theorem handleUpdate_supersedes_witness:
  "\<exists>x. rr_id x = 3 \<and> rr_status x = ''pending'' \<and>
     rows (review_runs (snd (handleUpdate (\<lambda>_ r. r) (sample_event\<lparr>ev_idempotency_key := ''k9''\<rparr>) 0 sample_db)))
     = map (\<lambda>r. if rr_merge_request_id r = rr_merge_request_id x \<and> run_active r
         then set_superseded (Some (rr_id x)) 1000 r else r) [sample_pending, sample_running] @ [x]"
proof -
  let ?ev = "sample_event\<lparr>ev_idempotency_key := ''k9''\<rparr>"
  let ?r = "handleUpdate (\<lambda>_ r. r) ?ev 0 sample_db"
  have f: "fst ?r = Inr ()" by code_simp
  have 1: "?r = (Inr (), snd ?r)" using f by (metis prod.collapse)
  have 2: "\<not> key_taken (ev_idempotency_key ?ev) sample_db" by code_simp
  have 3: "runs_inv sample_db" by code_simp
  have 4: "review_runs (snd ?r) \<noteq> review_runs sample_db" by code_simp
  have c: "clock sample_db = 1000" "next_id (review_runs sample_db) = 3"
    "rows (review_runs sample_db) = [sample_pending, sample_running]" by code_simp+
  from handleUpdate_supersedes [OF 1 2 3 4, unfolded c] show ?thesis
    by (elim exE conjE) (intro exI conjI)
qed

subsection \<open>Upsert, then look up\<close>

text \<open>
  The three \<open>ensure\<close> functions share one contract. What they rely on from the driver is that an upsert
  which updated a row reports either that row's id or nothing (the fallback the code was written for).
\<close>

definition driver_ok :: "last_id \<Rightarrow> bool" where
  "driver_ok lid \<longleftrightarrow> (\<forall>prev i. lid prev i = i \<or> lid prev i = 0)"

locale upsert_lookup =
  fixes tbl :: "db \<Rightarrow> 'r table"
    and tupd :: "('r table \<Rightarrow> 'r table) \<Rightarrow> db \<Rightarrow> db"
    and rid :: "'r \<Rightarrow> int"
    and key :: "'r \<Rightarrow> 'k"
    and pkey :: "'p \<Rightarrow> 'k"
    and fk :: "'p \<Rightarrow> db \<Rightarrow> bool"
    and mk :: "'p \<Rightarrow> time \<Rightarrow> int \<Rightarrow> 'r"
    and upd :: "'p \<Rightarrow> time \<Rightarrow> 'r \<Rightarrow> 'r"
    and up :: "last_id \<Rightarrow> 'p \<Rightarrow> int dbm"
    and get :: "'p \<Rightarrow> 'r dbm"
  assumes up_ok: "faults s = [] \<Longrightarrow> up lid p s = (case find_row (\<lambda>r. key r = pkey p) (tbl s) of
        Some r \<Rightarrow> (Inr (lid (last_rowid s) (rid r)), tupd (update_rows (\<lambda>r. key r = pkey p) (upd p (clock s))) s)
      | None \<Rightarrow> if fk p s then insert_into tbl tupd (mk p) s else (Inl ErrForeignKey, s))"
    and get_eq: "get p = query_row tbl (\<lambda>r. key r = pkey p)"
    and mk_ok: "rid (mk p now i) = i" "key (mk p now i) = pkey p"
    and upd_ok: "rid (upd p now r) = rid r" "key (upd p now r) = key r"
    and tupd_ok: "tbl (tupd f s) = f (tbl s)" "faults (tupd f s) = faults s" "last_rowid (tupd f s) = last_rowid s"
begin

lemma ensure_ok:
  assumes "faults s = []" and "driver_ok lid" and "table_ok rid key (tbl s)" and "fk p s"
  shows "\<exists>f r l. bindM (up lid p) (\<lambda>i. if i > 0 then ret i else bindM (get p) (\<lambda>r. ret (rid r))) s
      = (Inr (rid r), (tupd f s)\<lparr>last_rowid := l\<rparr>)
    \<and> r \<in> set (rows (f (tbl s))) \<and> key r = pkey p \<and> table_ok rid key (f (tbl s))
    \<and> (\<forall>r0. r0 \<in> set (rows (tbl s)) \<and> key r0 = pkey p \<longrightarrow> rid r = rid r0)"
proof (cases "find_row (\<lambda>r. key r = pkey p) (tbl s)")
  case None
  let ?f = "insert_row (mk p (clock s))" and ?r = "mk p (clock s) (next_id (tbl s))"
  have pos: "0 < next_id (tbl s)" using assms(3) by (simp add: table_ok_def)
  have ok: "table_ok rid key (?f (tbl s))" by (rule table_ok_insert [OF assms(3) None]) (simp_all add: mk_ok)
  have run: "bindM (up lid p) (\<lambda>i. if i > 0 then ret i else bindM (get p) (\<lambda>r. ret (rid r))) s
      = (Inr (rid ?r), (tupd ?f s)\<lparr>last_rowid := next_id (tbl s)\<rparr>)"
    using pos None assms(1,4) by (simp add: bindM_def up_ok insert_into_def ret_def mk_ok)
  have none: "key r0 \<noteq> pkey p" if "r0 \<in> set (rows (tbl s))" for r0
    using None that by (simp add: find_row_None)
  show ?thesis
    by (rule exI [of _ ?f], rule exI [of _ ?r], rule exI [of _ "next_id (tbl s)"])
      (use run ok none in \<open>auto simp: mk_ok\<close>)
next
  case (Some r0)
  let ?f = "update_rows (\<lambda>r. key r = pkey p) (upd p (clock s))" and ?r = "upd p (clock s) r0"
  have r0: "r0 \<in> set (rows (tbl s))" "key r0 = pkey p" using find_row_Some [OF Some] by auto
  have ok: "table_ok rid key (?f (tbl s))" by (rule table_ok_update [OF assms(3)]) (simp_all add: upd_ok)
  have look: "find_row (\<lambda>r. key r = pkey p) (?f (tbl s)) = Some ?r"
    using Some r0(2) by (simp add: find_row_update_rows upd_ok)
  have pos: "0 < rid r0" using assms(3) r0(1) by (simp add: table_ok_def)
  have "get p (tupd ?f s) = (Inr ?r, tupd ?f s)"
    using look assms(1) by (simp add: get_eq query_row_def stmt_ok tupd_ok)
  moreover have "lid (last_rowid s) (rid r0) = rid r0 \<or> lid (last_rowid s) (rid r0) = 0"
    using assms(2) by (simp add: driver_ok_def)
  ultimately have "bindM (up lid p) (\<lambda>i. if i > 0 then ret i else bindM (get p) (\<lambda>r. ret (rid r))) s
      = (Inr (rid ?r), tupd ?f s)"
    using pos Some assms(1) by (auto simp: bindM_def up_ok ret_def upd_ok)
  moreover have "(tupd ?f s)\<lparr>last_rowid := last_rowid s\<rparr> = tupd ?f s"
    unfolding tupd_ok(3) [of ?f s, symmetric] by (cases "tupd ?f s") simp
  moreover have "?r \<in> set (rows (?f (tbl s)))" using r0 by auto
  moreover have "rid r1 = rid r0" if "r1 \<in> set (rows (tbl s))" "key r1 = pkey p" for r1
    using table_ok_find_key [OF assms(3) that(1)] that(2) Some by simp
  ultimately show ?thesis
    using ok r0(2) by (intro exI [of _ ?f] exI [of _ ?r] exI [of _ "last_rowid s"]) (auto simp: upd_ok)
qed

end

interpretation up_instance: upsert_lookup instances instances_update gi_id gi_url "\<lambda>u. u" "\<lambda>_ _. True"
  "\<lambda>u. new_instance u u" "\<lambda>u now r. r\<lparr>gi_name := u, gi_updated_at := now\<rparr>"
  "\<lambda>lid u. UpsertGitlabInstance lid u u" GetGitlabInstanceByURL
  by unfold_locales
    (auto simp: UpsertGitlabInstance_def GetGitlabInstanceByURL_def new_instance_def stmt_ok split: option.split)

interpretation up_project: upsert_lookup projects projects_update pr_id
  "\<lambda>r. (pr_gitlab_instance_id r, pr_gitlab_project_id r)" "\<lambda>(i, g, path). (i, g)"
  "\<lambda>(i, g, path) s. \<not> no_instance i s" "\<lambda>(i, g, path). new_project i g path True"
  "\<lambda>(i, g, path) now r. r\<lparr>pr_path_with_namespace := path, pr_updated_at := now\<rparr>"
  "\<lambda>lid (i, g, path). UpsertProject lid i g path True" "\<lambda>(i, g, path). GetProjectByGitlabID i g"
  by unfold_locales
    (auto simp: UpsertProject_def GetProjectByGitlabID_def new_project_def stmt_ok split: option.split)

lemma mr_at_eq: "mr_at p i = (\<lambda>r. (mr_project_id r, mr_mr_iid r) = (p, i))"
  by (auto simp: mr_at_def)

interpretation up_mr: upsert_lookup merge_requests merge_requests_update mr_id
  "\<lambda>r. (mr_project_id r, mr_mr_iid r)" "\<lambda>a. (mrq_project_id a, mrq_mr_iid a)"
  "\<lambda>a s. \<not> no_project (mrq_project_id a) s" new_merge_request update_merge_request
  UpsertMergeRequest "\<lambda>a. GetMergeRequestByProjectMR (mrq_project_id a) (mrq_mr_iid a)"
  by unfold_locales
    (auto simp: UpsertMergeRequest_def GetMergeRequestByProjectMR_def new_merge_request_def
      update_merge_request_def mr_at_eq stmt_ok split: option.split)

subsection \<open>Creation and cancellation\<close>

definition entities_ok :: "db \<Rightarrow> bool" where
  "entities_ok s \<longleftrightarrow> table_ok gi_id gi_url (instances s)
     \<and> table_ok pr_id (\<lambda>r. (pr_gitlab_instance_id r, pr_gitlab_project_id r)) (projects s)
     \<and> table_ok mr_id (\<lambda>r. (mr_project_id r, mr_mr_iid r)) (merge_requests s)"

lemma ensureInstance_ok:
  assumes "faults s = []" and "driver_ok lid" and "entities_ok s" and "u \<noteq> []"
  shows "\<exists>f r l. ensureInstance lid u s = (Inr (gi_id r), s\<lparr>instances := f (instances s), last_rowid := l\<rparr>)
    \<and> r \<in> set (rows (f (instances s))) \<and> gi_url r = u \<and> table_ok gi_id gi_url (f (instances s))
    \<and> (\<forall>r0. r0 \<in> set (rows (instances s)) \<and> gi_url r0 = u \<longrightarrow> gi_id r = gi_id r0)"
proof -
  from up_instance.ensure_ok [where p = u, OF assms(1,2)] assms(3) obtain f r l where
    "bindM (UpsertGitlabInstance lid u u) (\<lambda>i. if i > 0 then ret i
        else bindM (GetGitlabInstanceByURL u) (\<lambda>r. ret (gi_id r))) s
      = (Inr (gi_id r), (instances_update f s)\<lparr>last_rowid := l\<rparr>)"
    "r \<in> set (rows (f (instances s)))" "gi_url r = u" "table_ok gi_id gi_url (f (instances s))"
    "\<forall>r0. r0 \<in> set (rows (instances s)) \<and> gi_url r0 = u \<longrightarrow> gi_id r = gi_id r0"
    by (auto simp: entities_ok_def)
  moreover have "instances_update f s = s\<lparr>instances := f (instances s)\<rparr>" by simp
  ultimately show ?thesis
    unfolding ensureInstance_def using assms(4)
    by (intro exI [of _ f] exI [of _ r] exI [of _ l]) simp
qed

lemma ensureProject_ok:
  assumes "faults s = []" and "driver_ok lid" and "entities_ok s" and "\<not> no_instance i s"
  shows "\<exists>f r l. ensureProject lid i g path s = (Inr (pr_id r), s\<lparr>projects := f (projects s), last_rowid := l\<rparr>)
    \<and> r \<in> set (rows (f (projects s))) \<and> pr_gitlab_instance_id r = i \<and> pr_gitlab_project_id r = g
    \<and> table_ok pr_id (\<lambda>r. (pr_gitlab_instance_id r, pr_gitlab_project_id r)) (f (projects s))"
proof -
  from up_project.ensure_ok [where p = "(i, g, path)", OF assms(1,2)] assms(3,4) obtain f r l where
    "bindM (UpsertProject lid i g path True) (\<lambda>x. if x > 0 then ret x
        else bindM (GetProjectByGitlabID i g) (\<lambda>r. ret (pr_id r))) s
      = (Inr (pr_id r), (projects_update f s)\<lparr>last_rowid := l\<rparr>)"
    "r \<in> set (rows (f (projects s)))" "pr_gitlab_instance_id r = i" "pr_gitlab_project_id r = g"
    "table_ok pr_id (\<lambda>r. (pr_gitlab_instance_id r, pr_gitlab_project_id r)) (f (projects s))"
    by (auto simp: entities_ok_def)
  moreover have "projects_update f s = s\<lparr>projects := f (projects s)\<rparr>" by simp
  ultimately show ?thesis
    unfolding ensureProject_def by (intro exI [of _ f] exI [of _ r] exI [of _ l]) simp
qed

lemma upsertMergeRequest_ok:
  assumes "faults s = []" and "driver_ok lid" and "entities_ok s" and "\<not> no_project p s"
  shows "\<exists>f r l. upsertMergeRequest lid p ev s
      = (Inr (mr_id r), s\<lparr>merge_requests := f (merge_requests s), last_rowid := l\<rparr>)
    \<and> r \<in> set (rows (f (merge_requests s))) \<and> mr_project_id r = p \<and> mr_mr_iid r = ev_mr_iid ev
    \<and> table_ok mr_id (\<lambda>r. (mr_project_id r, mr_mr_iid r)) (f (merge_requests s))"
proof -
  have mp: "mrq_project_id (mr_params p ev) = p" "mrq_mr_iid (mr_params p ev) = ev_mr_iid ev"
    by (simp_all add: mr_params_def)
  from up_mr.ensure_ok [where p = "mr_params p ev", OF assms(1,2), unfolded mp] assms(3,4) obtain f r l where
    "bindM (UpsertMergeRequest lid (mr_params p ev)) (\<lambda>x. if x > 0 then ret x
        else bindM (GetMergeRequestByProjectMR p (ev_mr_iid ev)) (\<lambda>r. ret (mr_id r))) s
      = (Inr (mr_id r), (merge_requests_update f s)\<lparr>last_rowid := l\<rparr>)"
    "r \<in> set (rows (f (merge_requests s)))" "mr_project_id r = p" "mr_mr_iid r = ev_mr_iid ev"
    "table_ok mr_id (\<lambda>r. (mr_project_id r, mr_mr_iid r)) (f (merge_requests s))"
    by (auto simp: entities_ok_def)
  moreover have "merge_requests_update f s = s\<lparr>merge_requests := f (merge_requests s)\<rparr>" by simp
  ultimately show ?thesis
    unfolding upsertMergeRequest_def by (intro exI [of _ f] exI [of _ r] exI [of _ l]) simp
qed

lemma row_not_none: "r \<in> set (rows t) \<Longrightarrow> p r \<Longrightarrow> find_row p t \<noteq> None"
  by (auto simp: find_row_None)

lemma check_and_insert_fresh:
  assumes "faults s = []" and "\<not> key_taken (ev_idempotency_key ev) s"
    and "\<not> no_project p s" and "\<not> no_merge_request m s"
    and "h > 0 \<longrightarrow> find_row (\<lambda>e. he_id e = h) (hook_events s) \<noteq> None"
  shows "\<exists>t. check_and_insert p m ev h s = (Inr True, t)
    \<and> review_runs t = insert_row (new_run (run_params p m ev h) (clock s)) (review_runs s)
    \<and> projects t = projects s \<and> merge_requests t = merge_requests s"
proof -
  have g: "GetReviewRunByIdempotencyKey (ev_idempotency_key ev) s = (Inl ErrNoRows, s)"
    using assms(1,2) by (simp add: GetReviewRunByIdempotencyKey_def query_row_def stmt_ok key_taken_def)
  have i: "InsertReviewRun (run_params p m ev h) s = (Inr (next_id (review_runs s)),
      s\<lparr>review_runs := insert_row (new_run (run_params p m ev h) (clock s)) (review_runs s),
        last_rowid := next_id (review_runs s)\<rparr>)"
    using assms
    by (simp add: InsertReviewRun_def stmt_ok key_taken_def run_params_def no_project_def no_merge_request_def)
  show ?thesis
    using g i by (simp add: check_and_insert_def tryM_def insert_pending_def ret_def)
qed

text \<open>A fresh event creates its run. Without connection failures, with a driver that reports the
  upserted row or nothing, an event with a non-empty instance URL and a fresh key creates one pending
  run, attached to the project and the merge request the event names.\<close>

theorem createPendingRun_creates:
  assumes "faults s = []" and "driver_ok lid" and "entities_ok s" and "ev_gitlab_instance_url ev \<noteq> []"
    and "\<not> key_taken (ev_idempotency_key ev) s"
    and "h > 0 \<longrightarrow> find_row (\<lambda>e. he_id e = h) (hook_events s) \<noteq> None"
  shows "\<exists>t p m. createPendingRun lid ev h s = (Inr True, t)
    \<and> review_runs t = insert_row (new_run (run_params (pr_id p) (mr_id m) ev h) (clock s)) (review_runs s)
    \<and> p \<in> set (rows (projects t)) \<and> pr_gitlab_project_id p = ev_project_id ev
    \<and> m \<in> set (rows (merge_requests t)) \<and> mr_project_id m = pr_id p \<and> mr_mr_iid m = ev_mr_iid ev"
proof -
  from ensureInstance_ok [OF assms(1-4)] obtain f i l where
    i: "ensureInstance lid (ev_gitlab_instance_url ev) s = (Inr (gi_id i), s\<lparr>instances := f (instances s), last_rowid := l\<rparr>)"
    "i \<in> set (rows (f (instances s)))" "table_ok gi_id gi_url (f (instances s))" by blast
  let ?s1 = "s\<lparr>instances := f (instances s), last_rowid := l\<rparr>"
  have s1: "faults ?s1 = []" "entities_ok ?s1" "\<not> no_instance (gi_id i) ?s1"
    using assms(1,3) i(2,3) row_not_none [OF i(2)] by (simp_all add: entities_ok_def no_instance_def)
  from ensureProject_ok [OF s1(1) assms(2) s1(2,3)] obtain f2 p l2 where
    p: "ensureProject lid (gi_id i) (ev_project_id ev) (ev_project_path ev) ?s1
        = (Inr (pr_id p), ?s1\<lparr>projects := f2 (projects ?s1), last_rowid := l2\<rparr>)"
    "p \<in> set (rows (f2 (projects ?s1)))" "pr_gitlab_project_id p = ev_project_id ev"
    "table_ok pr_id (\<lambda>r. (pr_gitlab_instance_id r, pr_gitlab_project_id r)) (f2 (projects ?s1))" by blast
  let ?s2 = "?s1\<lparr>projects := f2 (projects ?s1), last_rowid := l2\<rparr>"
  have s2: "faults ?s2 = []" "entities_ok ?s2" "\<not> no_project (pr_id p) ?s2"
    using s1(1,2) p(2,4) row_not_none [OF p(2)] by (simp_all add: entities_ok_def no_project_def)
  from upsertMergeRequest_ok [OF s2(1) assms(2) s2(2,3), of ev] obtain f3 m l3 where
    m: "upsertMergeRequest lid (pr_id p) ev ?s2
        = (Inr (mr_id m), ?s2\<lparr>merge_requests := f3 (merge_requests ?s2), last_rowid := l3\<rparr>)"
    "m \<in> set (rows (f3 (merge_requests ?s2)))" "mr_project_id m = pr_id p" "mr_mr_iid m = ev_mr_iid ev" by blast
  let ?s3 = "?s2\<lparr>merge_requests := f3 (merge_requests ?s2), last_rowid := l3\<rparr>"
  have s3: "faults ?s3 = []" "\<not> key_taken (ev_idempotency_key ev) ?s3" "\<not> no_project (pr_id p) ?s3"
    "\<not> no_merge_request (mr_id m) ?s3" "h > 0 \<longrightarrow> find_row (\<lambda>e. he_id e = h) (hook_events ?s3) \<noteq> None"
    using s2(1,3) assms(5,6) row_not_none [OF m(2)]
    by (simp_all add: key_taken_def no_project_def no_merge_request_def)
  from check_and_insert_fresh [OF s3] obtain t where
    t: "check_and_insert (pr_id p) (mr_id m) ev h ?s3 = (Inr True, t)"
    "review_runs t = insert_row (new_run (run_params (pr_id p) (mr_id m) ev h) (clock ?s3)) (review_runs ?s3)"
    "projects t = projects ?s3" "merge_requests t = merge_requests ?s3" by blast
  have "createPendingRun lid ev h s = (Inr True, t)"
    using i(1) p(1) m(1) t(1) by (simp add: createPendingRun_def bindM_def)
  with t(2-4) p(2,3) m(2-4) show ?thesis by (intro exI [of _ t] exI [of _ p] exI [of _ m]) simp
qed

theorem createPendingRun_creates_witness:
  "\<exists>t. createPendingRun (\<lambda>_ r. r) (sample_event\<lparr>ev_idempotency_key := ''k9''\<rparr>) 0 sample_db = (Inr True, t)
     \<and> length (rows (review_runs t)) = 3"
proof -
  let ?ev = "sample_event\<lparr>ev_idempotency_key := ''k9''\<rparr>"
  have h: "faults sample_db = []" "entities_ok sample_db" "ev_gitlab_instance_url ?ev \<noteq> []"
    "\<not> key_taken (ev_idempotency_key ?ev) sample_db" by code_simp+
  have d: "driver_ok (\<lambda>_ r. r)" by (simp add: driver_ok_def)
  have z: "(0 :: int) > 0 \<longrightarrow> find_row (\<lambda>e. he_id e = 0) (hook_events sample_db) \<noteq> None" by simp
  have c: "length (rows (review_runs sample_db)) = 2" by code_simp
  from createPendingRun_creates [OF h(1) d h(2-4) z] show ?thesis by (auto simp: c)
qed

definition set_cancelled :: "time \<Rightarrow> review_run \<Rightarrow> review_run" where
  "set_cancelled now r = r\<lparr>rr_status := ''cancelled'', rr_error_code := [], rr_error_detail := None,
     rr_superseded_by_run_id := None, rr_next_retry_at := None, rr_updated_at := now\<rparr>"

lemma CancelPendingRunsForMR_ok:
  assumes "faults s = []"
  shows "CancelPendingRunsForMR m s = (Inr (), s\<lparr>review_runs := update_rows
     (\<lambda>r. rr_merge_request_id r = m \<and> run_active r) (set_cancelled (clock s)) (review_runs s)\<rparr>)"
  using assms unfolding CancelPendingRunsForMR_def set_cancelled_def
  by (simp add: discard_def update_runs_def bindM_def stmt_ok ret_def)

lemma set_cancelled_inactive: "\<not> run_active (set_cancelled now r)"
  by (simp add: run_active_def set_cancelled_def)

text \<open>Close and merge. For a merge request known to the database, a close or merge event succeeds,
  records the new state, cancels every pending, running or retry-scheduled run of that merge request,
  so that none is active any more, and leaves all other runs as they are.\<close>

theorem cancelRuns_cancels:
  assumes "faults s = []" and "driver_ok lid" and "entities_ok s" and "ev_gitlab_instance_url ev \<noteq> []"
    and "i \<in> set (rows (instances s))" and "gi_url i = ev_gitlab_instance_url ev"
    and "p \<in> set (rows (projects s))" and "pr_gitlab_instance_id p = gi_id i" and "pr_gitlab_project_id p = ev_project_id ev"
    and "m \<in> set (rows (merge_requests s))" and "mr_project_id m = pr_id p" and "mr_mr_iid m = ev_mr_iid ev"
  shows "\<exists>t. cancelRuns lid ev action s = (Inr (), t)
    \<and> rows (review_runs t) = map (\<lambda>r. if rr_merge_request_id r = mr_id m \<and> run_active r
          then set_cancelled (clock s) r else r) (rows (review_runs s))
    \<and> (\<forall>r. r \<in> set (rows (review_runs t)) \<and> rr_merge_request_id r = mr_id m \<longrightarrow> \<not> run_active r)
    \<and> (\<exists>m'. find_row (\<lambda>x. mr_id x = mr_id m) (merge_requests t) = Some m'
        \<and> mr_state m' = (if action = ''merge'' then ''merged'' else ''closed''))"
proof -
  from ensureInstance_ok [OF assms(1-4)] obtain f r l where
    e: "ensureInstance lid (ev_gitlab_instance_url ev) s = (Inr (gi_id r), s\<lparr>instances := f (instances s), last_rowid := l\<rparr>)
    \<and> r \<in> set (rows (f (instances s))) \<and> gi_url r = ev_gitlab_instance_url ev \<and> table_ok gi_id gi_url (f (instances s))
    \<and> (\<forall>r0. r0 \<in> set (rows (instances s)) \<and> gi_url r0 = ev_gitlab_instance_url ev \<longrightarrow> gi_id r = gi_id r0)"
    by (elim exE)
  let ?s1 = "s\<lparr>instances := f (instances s), last_rowid := l\<rparr>"
  have r: "gi_id r = gi_id i" using e assms(5,6) by auto
  have "find_row (\<lambda>x. (pr_gitlab_instance_id x, pr_gitlab_project_id x) = (pr_gitlab_instance_id p, pr_gitlab_project_id p)) (projects s) = Some p"
    using assms(3,7) by (intro table_ok_find_key [where rid = pr_id]) (simp_all add: entities_ok_def)
  then have gp: "GetProjectByGitlabID (gi_id i) (ev_project_id ev) ?s1 = (Inr p, ?s1)"
    using assms(1,8,9) by (simp add: GetProjectByGitlabID_def query_row_def stmt_ok)
  have fm: "find_row (\<lambda>x. (mr_project_id x, mr_mr_iid x) = (mr_project_id m, mr_mr_iid m)) (merge_requests s) = Some m"
    using assms(3,10) by (intro table_ok_find_key [where rid = mr_id]) (simp_all add: entities_ok_def)
  then have gm: "GetMergeRequestByProjectMR (pr_id p) (ev_mr_iid ev) ?s1 = (Inr m, ?s1)"
    using assms(1,11,12) by (simp add: GetMergeRequestByProjectMR_def query_row_def stmt_ok mr_at_eq)
  let ?st = "if action = ''merge'' then ''merged'' else ''closed''"
  let ?u = "\<lambda>r. r\<lparr>mr_state := ?st, mr_head_sha := ev_head_sha ev, mr_updated_at := clock s\<rparr>"
  let ?s2 = "?s1\<lparr>merge_requests := update_rows (\<lambda>r. mr_id r = mr_id m) ?u (merge_requests s)\<rparr>"
  have up: "UpdateMergeRequestState ?st (ev_head_sha ev) (mr_id m) ?s1 = (Inr (), ?s2)"
    using assms(1) by (simp add: UpdateMergeRequestState_def exec_ok)
  let ?t = "?s2\<lparr>review_runs := update_rows (\<lambda>r. rr_merge_request_id r = mr_id m \<and> run_active r)
     (set_cancelled (clock s)) (review_runs s)\<rparr>"
  have ca: "CancelPendingRunsForMR (mr_id m) ?s2 = (Inr (), ?t)"
    using assms(1) CancelPendingRunsForMR_ok [of ?s2 "mr_id m"] by simp
  have run: "cancelRuns lid ev action s = (Inr (), ?t)"
    unfolding cancelRuns_def bindM_def tryM_def conjunct1 [OF e] r using gp gm up ca by simp
  have fid: "find_row (\<lambda>x. mr_id x = mr_id m) (merge_requests s) = Some m"
    using assms(3,10) by (intro table_ok_find_id [where key = "\<lambda>r. (mr_project_id r, mr_mr_iid r)"]) (simp_all add: entities_ok_def)
  have "find_row (\<lambda>x. mr_id x = mr_id m) (merge_requests ?t) = Some (?u m)"
    using fid by (simp add: find_row_update_rows)
  then show ?thesis
    using run by (intro exI [of _ ?t]) (auto simp: set_cancelled_inactive)
qed

theorem cancelRuns_cancels_witness:
  "\<exists>t. cancelRuns (\<lambda>_ r. r) sample_event ''merge'' sample_db = (Inr (), t)
     \<and> (\<forall>r. r \<in> set (rows (review_runs t)) \<and> rr_merge_request_id r = 1 \<longrightarrow> \<not> run_active r)"
proof -
  let ?i = "zero_gitlab_instance\<lparr>gi_id := 1, gi_url := ''https://g.io''\<rparr>"
  have h: "faults sample_db = []" "entities_ok sample_db" "ev_gitlab_instance_url sample_event \<noteq> []"
    "?i \<in> set (rows (instances sample_db))" "gi_url ?i = ev_gitlab_instance_url sample_event"
    "sample_project \<in> set (rows (projects sample_db))" "pr_gitlab_instance_id sample_project = gi_id ?i"
    "pr_gitlab_project_id sample_project = ev_project_id sample_event"
    "sample_mr \<in> set (rows (merge_requests sample_db))" "mr_project_id sample_mr = pr_id sample_project"
    "mr_mr_iid sample_mr = ev_mr_iid sample_event" by code_simp+
  have d: "driver_ok (\<lambda>_ r. r)" by (simp add: driver_ok_def)
  have m: "mr_id sample_mr = 1" by code_simp
  from cancelRuns_cancels [OF h(1) d h(2-11), of "''merge''", unfolded m] show ?thesis
    by (elim exE conjE) (intro exI conjI)
qed

text \<open>Stale insert id. With a driver whose \<^verbatim>\<open>LastInsertId\<close> after an updating upsert is the id of the
  connection's previous insert, as SQLite documents \<^verbatim>\<open>last_insert_rowid\<close>, \<^verbatim>\<open>ensureInstance\<close> returns
  that unrelated id instead of the id of the instance: the positive number is taken before the
  lookup.\<close>

theorem ensureInstance_stale_id:
  "\<exists>s t i. entities_ok s \<and> faults s = [] \<and> i \<in> set (rows (instances s)) \<and> gi_url i = ''https://g.io''
     \<and> ensureInstance (\<lambda>prev _. prev) ''https://g.io'' s = (Inr 57, t) \<and> gi_id i \<noteq> 57
     \<and> find_row (\<lambda>r. gi_id r = 57) (instances t) = None"
proof -
  let ?s = "sample_db\<lparr>last_rowid := 57\<rparr>"
  let ?i = "zero_gitlab_instance\<lparr>gi_id := 1, gi_url := ''https://g.io''\<rparr>"
  have f: "fst (ensureInstance (\<lambda>prev _. prev) ''https://g.io'' ?s) = Inr 57" by code_simp
  have "entities_ok ?s" "faults ?s = []" "?i \<in> set (rows (instances ?s))" "gi_url ?i = ''https://g.io''"
    "gi_id ?i \<noteq> 57"
    "find_row (\<lambda>r. gi_id r = 57) (instances (snd (ensureInstance (\<lambda>prev _. prev) ''https://g.io'' ?s))) = None"
    by code_simp+
  moreover have "ensureInstance (\<lambda>prev _. prev) ''https://g.io'' ?s
      = (Inr 57, snd (ensureInstance (\<lambda>prev _. prev) ''https://g.io'' ?s))" using f by (metis prod.collapse)
  ultimately show ?thesis by blast
qed

end
