(* ===== verification/Db_Findings.thy ===== *)
theory Db_Findings
  imports Db_Entities
begin

text \<open>
  Statements on findings, GitLab discussions and comment actions: \<^verbatim>\<open>review_findings.go\<close>,
  \<^verbatim>\<open>gitlab_discussions.go\<close> and \<^verbatim>\<open>comment_actions.go\<close> of \<^verbatim>\<open>internal/db/sqlitedb\<close>. A list ordered
  by creation time is a stable sort of the rows in id order.
\<close>

definition update_findings :: "(review_finding \<Rightarrow> bool) \<Rightarrow> (review_finding \<Rightarrow> review_finding) \<Rightarrow> unit dbm" where
  "update_findings p f = exec (\<lambda>s. s\<lparr>review_findings :=
     update_rows p (\<lambda>r. (f r)\<lparr>rf_updated_at := clock s\<rparr>) (review_findings s)\<rparr>)"

definition no_run :: "int \<Rightarrow> db \<Rightarrow> bool" where
  "no_run i s \<longleftrightarrow> find_row (\<lambda>r. rr_id r = i) (review_runs s) = None"

definition no_finding :: "int \<Rightarrow> db \<Rightarrow> bool" where
  "no_finding i s \<longleftrightarrow> find_row (\<lambda>r. rf_id r = i) (review_findings s) = None"

definition GetFindingByMRAndDiscussionID :: "int \<Rightarrow> string \<Rightarrow> review_finding dbm" where
  "GetFindingByMRAndDiscussionID mrID discussionID = query_row review_findings
     (\<lambda>f. rf_merge_request_id f = mrID \<and> rf_gitlab_discussion_id f = discussionID)"

definition GetReviewFinding :: "int \<Rightarrow> review_finding dbm" where
  "GetReviewFinding i = query_row review_findings (\<lambda>f. rf_id f = i)"

text \<open>The columns an INSERT names are those of the row given, the others take their defaults.\<close>

definition new_finding :: "review_finding \<Rightarrow> time \<Rightarrow> int \<Rightarrow> review_finding" where
  "new_finding a now i = a\<lparr>rf_id := i, rf_matched_finding_id := None, rf_last_seen_run_id := None,
     rf_gitlab_discussion_id := [], rf_error_code := [], rf_created_at := now, rf_updated_at := now\<rparr>"

definition InsertReviewFinding :: "review_finding \<Rightarrow> int dbm" where
  "InsertReviewFinding a = stmt (\<lambda>s.
     if no_run (rf_review_run_id a) s \<or> no_merge_request (rf_merge_request_id a) s
     then (Inl ErrForeignKey, s)
     else insert_into review_findings review_findings_update (new_finding a) s)"

definition finding_live :: "review_finding \<Rightarrow> bool" where
  "finding_live f \<longleftrightarrow> rf_state f \<in> set [''new'', ''posted'', ''active'']"

definition ListActiveFindingsByMR :: "int \<Rightarrow> review_finding list dbm" where
  "ListActiveFindingsByMR mrID = query_all (\<lambda>s. sort_key rf_created_at
     (filter (\<lambda>f. rf_merge_request_id f = mrID \<and> finding_live f) (rows (review_findings s))))"

definition ListFindingsByMergeRequest :: "int \<Rightarrow> review_finding list dbm" where
  "ListFindingsByMergeRequest mrID = query_all (\<lambda>s. sort_key rf_created_at
     (filter (\<lambda>f. rf_merge_request_id f = mrID) (rows (review_findings s))))"

definition ListFindingsByRun :: "int \<Rightarrow> review_finding list dbm" where
  "ListFindingsByRun runID = query_all (\<lambda>s. sort_key rf_created_at
     (filter (\<lambda>f. rf_review_run_id f = runID) (rows (review_findings s))))"

definition UpdateFindingDiscussionID :: "string \<Rightarrow> int \<Rightarrow> unit dbm" where
  "UpdateFindingDiscussionID discussionID i = update_findings (\<lambda>f. rf_id f = i)
     (\<lambda>f. f\<lparr>rf_gitlab_discussion_id := discussionID\<rparr>)"

definition UpdateFindingLastSeen :: "int option \<Rightarrow> int \<Rightarrow> unit dbm" where
  "UpdateFindingLastSeen lastSeenRunID i = update_findings (\<lambda>f. rf_id f = i)
     (\<lambda>f. f\<lparr>rf_last_seen_run_id := lastSeenRunID\<rparr>)"

text \<open>The position columns of \<^verbatim>\<open>UpdateFindingRelocationParams\<close>.\<close>

record relocation =
  rl_path :: string
  rl_anchor_kind :: string
  rl_old_line :: "int option"
  rl_new_line :: "int option"
  rl_range_start_kind :: "string option"
  rl_range_start_old_line :: "int option"
  rl_range_start_new_line :: "int option"
  rl_range_end_kind :: "string option"
  rl_range_end_old_line :: "int option"
  rl_range_end_new_line :: "int option"
  rl_anchor_snippet :: "string option"
  rl_anchor_fingerprint :: string
  rl_semantic_fingerprint :: string
  rl_last_seen_run_id :: "int option"

definition relocate :: "relocation \<Rightarrow> review_finding \<Rightarrow> review_finding" where
  "relocate a f = f\<lparr>rf_path := rl_path a, rf_anchor_kind := rl_anchor_kind a,
     rf_old_line := rl_old_line a, rf_new_line := rl_new_line a,
     rf_range_start_kind := rl_range_start_kind a,
     rf_range_start_old_line := rl_range_start_old_line a,
     rf_range_start_new_line := rl_range_start_new_line a,
     rf_range_end_kind := rl_range_end_kind a,
     rf_range_end_old_line := rl_range_end_old_line a,
     rf_range_end_new_line := rl_range_end_new_line a,
     rf_anchor_snippet := rl_anchor_snippet a, rf_anchor_fingerprint := rl_anchor_fingerprint a,
     rf_semantic_fingerprint := rl_semantic_fingerprint a,
     rf_last_seen_run_id := rl_last_seen_run_id a\<rparr>"

definition UpdateFindingRelocation :: "relocation \<Rightarrow> int \<Rightarrow> unit dbm" where
  "UpdateFindingRelocation a i = update_findings (\<lambda>f. rf_id f = i) (relocate a)"

definition UpdateFindingState :: "string \<Rightarrow> int option \<Rightarrow> int \<Rightarrow> unit dbm" where
  "UpdateFindingState state matched i = update_findings (\<lambda>f. rf_id f = i)
     (\<lambda>f. f\<lparr>rf_state := state, rf_matched_finding_id := matched\<rparr>)"

subsection \<open>Discussions\<close>

definition GetGitlabDiscussion :: "int \<Rightarrow> gitlab_discussion dbm" where
  "GetGitlabDiscussion i = query_row discussions (\<lambda>d. gd_id d = i)"

definition GetGitlabDiscussionByFinding :: "int \<Rightarrow> gitlab_discussion dbm" where
  "GetGitlabDiscussionByFinding findingID = query_first (\<lambda>s. latest_by gd_created_at
     (filter (\<lambda>d. gd_review_finding_id d = findingID) (rows (discussions s))))"

definition GetGitlabDiscussionByMergeRequestAndFinding :: "int \<Rightarrow> int \<Rightarrow> gitlab_discussion dbm" where
  "GetGitlabDiscussionByMergeRequestAndFinding mrID findingID = query_first (\<lambda>s.
     latest_by gd_created_at (filter (\<lambda>d. gd_merge_request_id d = mrID
        \<and> gd_review_finding_id d = findingID) (rows (discussions s))))"

definition InsertGitlabDiscussion :: "int \<Rightarrow> int \<Rightarrow> string \<Rightarrow> string \<Rightarrow> bool \<Rightarrow> int dbm" where
  "InsertGitlabDiscussion findingID mrID discussionID dtype isResolved = stmt (\<lambda>s.
     if no_finding findingID s \<or> no_merge_request mrID s then (Inl ErrForeignKey, s)
     else insert_into discussions discussions_update (\<lambda>now i.
       \<lparr>gd_id = i, gd_review_finding_id = findingID, gd_merge_request_id = mrID,
        gd_gitlab_discussion_id = discussionID, gd_discussion_type = dtype, gd_resolved = isResolved,
        gd_superseded_by_discussion_id = None, gd_created_at = now, gd_updated_at = now\<rparr>) s)"

definition update_discussion :: "int \<Rightarrow> (gitlab_discussion \<Rightarrow> gitlab_discussion) \<Rightarrow> unit dbm" where
  "update_discussion i f = exec (\<lambda>s. s\<lparr>discussions := update_rows (\<lambda>d. gd_id d = i)
     (\<lambda>d. (f d)\<lparr>gd_updated_at := clock s\<rparr>) (discussions s)\<rparr>)"

definition UpdateGitlabDiscussionResolved :: "bool \<Rightarrow> int \<Rightarrow> unit dbm" where
  "UpdateGitlabDiscussionResolved isResolved i = update_discussion i (\<lambda>d. d\<lparr>gd_resolved := isResolved\<rparr>)"

definition UpdateGitlabDiscussionSupersededBy :: "int option \<Rightarrow> int \<Rightarrow> unit dbm" where
  "UpdateGitlabDiscussionSupersededBy by_id i =
     update_discussion i (\<lambda>d. d\<lparr>gd_superseded_by_discussion_id := by_id\<rparr>)"

subsection \<open>Comment actions\<close>

record comment_action_params =
  cap_review_run_id :: int
  cap_review_finding_id :: "int option"
  cap_action_type :: string
  cap_idempotency_key :: string
  cap_status :: string

definition GetCommentActionByIdempotencyKey :: "string \<Rightarrow> comment_action dbm" where
  "GetCommentActionByIdempotencyKey key = query_row comment_actions (\<lambda>c. ca_idempotency_key c = key)"

definition new_action :: "comment_action_params \<Rightarrow> time \<Rightarrow> int \<Rightarrow> comment_action" where
  "new_action a now i = \<lparr>ca_id = i, ca_review_run_id = cap_review_run_id a,
     ca_review_finding_id = cap_review_finding_id a, ca_action_type = cap_action_type a,
     ca_idempotency_key = cap_idempotency_key a, ca_status = cap_status a, ca_error_code = [],
     ca_error_detail = None, ca_retry_count = 0, ca_latency_ms = 0, ca_created_at = now,
     ca_updated_at = now\<rparr>"

definition InsertCommentAction :: "comment_action_params \<Rightarrow> int dbm" where
  "InsertCommentAction a = stmt (\<lambda>s.
     if find_row (\<lambda>c. ca_idempotency_key c = cap_idempotency_key a) (comment_actions s) \<noteq> None
     then (Inl ErrDuplicateKey, s)
     else if no_run (cap_review_run_id a) s
       \<or> (case cap_review_finding_id a of None \<Rightarrow> False | Some f \<Rightarrow> no_finding f s)
     then (Inl ErrForeignKey, s)
     else insert_into comment_actions comment_actions_update (new_action a) s)"

definition ListCommentActionsByRun :: "int \<Rightarrow> comment_action list dbm" where
  "ListCommentActionsByRun runID = query_all (\<lambda>s. sort_key ca_created_at
     (filter (\<lambda>c. ca_review_run_id c = runID) (rows (comment_actions s))))"

definition UpdateCommentActionStatus ::
  "string \<Rightarrow> string \<Rightarrow> string option \<Rightarrow> int \<Rightarrow> int \<Rightarrow> int \<Rightarrow> unit dbm" where
  "UpdateCommentActionStatus status code detail latency retries i = exec (\<lambda>s.
     s\<lparr>comment_actions := update_rows (\<lambda>c. ca_id c = i)
        (\<lambda>c. c\<lparr>ca_status := status, ca_error_code := code, ca_error_detail := detail,
           ca_latency_ms := latency, ca_retry_count := retries, ca_updated_at := clock s\<rparr>)
        (comment_actions s)\<rparr>)"

interpretation action_key: keyed_insert comment_actions ca_id ca_idempotency_key
  cap_idempotency_key InsertCommentAction GetCommentActionByIdempotencyKey
proof
  fix k p s i t e
  show "GetCommentActionByIdempotencyKey k = query_row comment_actions (\<lambda>r. ca_idempotency_key r = k)"
    by (simp add: GetCommentActionByIdempotencyKey_def)
  show "InsertCommentAction p s = (Inr i, t) \<Longrightarrow>
    find_row (\<lambda>r. ca_idempotency_key r = cap_idempotency_key p) (comment_actions s) = None \<and>
    (\<exists>mk. comment_actions t = insert_row mk (comment_actions s) \<and> i = next_id (comment_actions s)
       \<and> ca_id (mk (next_id (comment_actions s))) = next_id (comment_actions s)
       \<and> ca_idempotency_key (mk (next_id (comment_actions s))) = cap_idempotency_key p)"
    unfolding InsertCommentAction_def
    by (erule stmt_cases)
      (auto simp: new_action_def insert_into_def split: if_splits
        intro!: exI [of _ "new_action p (clock s)"])
  show "InsertCommentAction p s = (Inl e, t) \<Longrightarrow> comment_actions t = comment_actions s"
    unfolding InsertCommentAction_def
    by (erule stmt_cases) (auto simp: insert_into_def split: if_splits)
  show "faults s = [] \<Longrightarrow> find_row (\<lambda>r. ca_idempotency_key r = cap_idempotency_key p) (comment_actions s) \<noteq> None
    \<Longrightarrow> InsertCommentAction p s = (Inl ErrDuplicateKey, s)"
    by (simp add: InsertCommentAction_def stmt_ok)
  show "faults s = [] \<Longrightarrow> faults (snd (InsertCommentAction p s)) = []"
    by (simp add: InsertCommentAction_def stmt_ok insert_into_def)
qed

end
