(* ===== verification/Note_Commands.thy ===== *)
theory Note_Commands
  imports Runs Db_Findings
begin

text \<open>
  The comment commands: \<^verbatim>\<open>internal/notecommand/command.go\<close> parses the body of a note,
  \<^verbatim>\<open>internal/commands/commands.go\<close> executes the command in one transaction. \<open>sha\<close> is the
  hexadecimal form of the first 16 bytes of SHA-256, \<open>marshal\<close> writes a JSON value.
\<close>

subsection \<open>Parsing\<close>

definition commandPrefix :: string where
  "commandPrefix = ''/ai-review''"

datatype command_kind = CommandRerun | CommandIgnore | CommandResolve | CommandFocus | CommandUnknown

record parsed_command =
  pc_kind :: command_kind
  pc_args :: string

definition Parse :: "string \<Rightarrow> parsed_command option" where
  "Parse noteBody =
     (let trimmed = trim_space noteBody in
      if \<not> has_prefix trimmed commandPrefix then None
      else let afterPrefix = drop (length commandPrefix) trimmed in
        if (case afterPrefix of [] \<Rightarrow> False | c # _ \<Rightarrow> c \<noteq> CHR '' '' \<and> c \<noteq> CHR 0x09 \<and> c \<noteq> CHR 0x0A)
        then None
        else let rest = trim_space afterPrefix; parts = split_n2 rest '' '' in
          case parts of
            [] \<Rightarrow> Some \<lparr>pc_kind = CommandUnknown, pc_args = []\<rparr>
          | p0 # ps \<Rightarrow>
              if p0 = [] then Some \<lparr>pc_kind = CommandUnknown, pc_args = []\<rparr>
              else
                let keyword = to_lower p0;
                    args = (case ps of [] \<Rightarrow> [] | a # _ \<Rightarrow> trim_space a)
                in Some (if keyword = ''rerun'' then \<lparr>pc_kind = CommandRerun, pc_args = args\<rparr>
                     else if keyword = ''ignore'' then \<lparr>pc_kind = CommandIgnore, pc_args = args\<rparr>
                     else if keyword = ''resolve'' then \<lparr>pc_kind = CommandResolve, pc_args = args\<rparr>
                     else if keyword = ''focus'' then \<lparr>pc_kind = CommandFocus, pc_args = args\<rparr>
                     else \<lparr>pc_kind = CommandUnknown, pc_args = rest\<rparr>))"

definition IsCommand :: "string \<Rightarrow> bool" where
  "IsCommand noteBody \<longleftrightarrow> has_prefix (trim_space noteBody) commandPrefix"

subsection \<open>Execution\<close>

definition command_input :: "string \<Rightarrow> int \<Rightarrow> int \<Rightarrow> string \<Rightarrow> string \<Rightarrow> string \<Rightarrow> string" where
  "command_input instanceURL projectID mrIID headSHA commandContext deliveryKey =
     ''cmd|'' @ trim_right_set instanceURL ''/'' @ ''|'' @ itoa projectID @ ''|'' @ itoa mrIID @ ''|''
       @ headSHA @ ''|'' @ commandContext @ ''|'' @ deliveryKey"

definition computeCommandIdempotencyKey ::
  "(string \<Rightarrow> string) \<Rightarrow> string \<Rightarrow> int \<Rightarrow> int \<Rightarrow> string \<Rightarrow> string \<Rightarrow> string \<Rightarrow> string" where
  "computeCommandIdempotencyKey sha instanceURL projectID mrIID headSHA commandContext deliveryKey =
     ''cmd-'' @ sha (command_input instanceURL projectID mrIID headSHA commandContext deliveryKey)"

definition resolveEntities :: "normalized_note_event \<Rightarrow> (int \<times> int \<times> int) dbm" where
  "resolveEntities ne =
     bindM (GetGitlabInstanceByURL (ne_gitlab_instance_url ne)) (\<lambda>inst.
     bindM (GetProjectByGitlabID (gi_id inst) (ne_project_id ne)) (\<lambda>pr.
     bindM (GetMergeRequestByProjectMR (pr_id pr) (ne_mr_iid ne)) (\<lambda>mr.
     ret (gi_id inst, pr_id pr, mr_id mr))))"

definition command_run :: "int \<Rightarrow> int \<Rightarrow> string \<Rightarrow> string \<Rightarrow> string option \<Rightarrow> insert_review_run_params" where
  "command_run projectID mrID headSHA key scope =
     \<lparr>irp_project_id = projectID, irp_merge_request_id = mrID, irp_hook_event_id = None,
      irp_trigger_type = ''command'', irp_head_sha = headSHA, irp_status = ''pending'',
      irp_max_retries = defaultMaxRetries, irp_idempotency_key = key, irp_scope_json = scope\<rparr>"

text \<open>The insert that both run-creating commands end with: a taken key is not an error.\<close>

definition insert_command_run :: "insert_review_run_params \<Rightarrow> unit dbm" where
  "insert_command_run a = tryM (InsertReviewRun a) (\<lambda>r. case r of
     Inl e \<Rightarrow> if is_duplicate_key_error e then ret () else throw e | Inr _ \<Rightarrow> ret ())"

definition executeRerunWith :: "(string \<Rightarrow> string) \<Rightarrow> normalized_note_event \<Rightarrow> unit dbm" where
  "executeRerunWith sha ne =
     bindM (resolveEntities ne) (\<lambda>(instanceID, projectID, mrID).
     bindM (GetMergeRequest mrID) (\<lambda>mr.
     let headSHA = (if ne_head_sha ne = [] then mr_head_sha mr else ne_head_sha ne);
         key = computeCommandIdempotencyKey sha (ne_gitlab_instance_url ne) (ne_project_id ne)
           (ne_mr_iid ne) headSHA ''command_rerun'' (ne_delivery_key ne)
     in insert_command_run (command_run projectID mrID headSHA key None)))"

text \<open>The tail of ignore and resolve: resolve the recorded discussion of the finding, if any.\<close>

definition resolve_discussion :: "int \<Rightarrow> int \<Rightarrow> unit dbm" where
  "resolve_discussion mrID findingID =
     tryM (GetGitlabDiscussionByMergeRequestAndFinding mrID findingID) (\<lambda>r. case r of
       Inr d \<Rightarrow> UpdateGitlabDiscussionResolved True (gd_id d)
     | Inl e \<Rightarrow> if e = ErrNoRows then ret () else throw e)"

definition executeIgnoreWith :: "normalized_note_event \<Rightarrow> unit dbm" where
  "executeIgnoreWith ne =
     (if ne_discussion_id ne = [] then ret ()
      else bindM (resolveEntities ne) (\<lambda>(instanceID, projectID, mrID).
        tryM (GetFindingByMRAndDiscussionID mrID (ne_discussion_id ne)) (\<lambda>r. case r of
          Inl e \<Rightarrow> if e = ErrNoRows then ret () else throw e
        | Inr f \<Rightarrow> bindM (UpdateFindingState ''ignored'' None (rf_id f)) (\<lambda>_.
            resolve_discussion mrID (rf_id f)))))"

definition executeResolveWith :: "normalized_note_event \<Rightarrow> unit dbm" where
  "executeResolveWith ne =
     (if ne_discussion_id ne = [] then ret ()
      else bindM (resolveEntities ne) (\<lambda>(instanceID, projectID, mrID).
        tryM (GetFindingByMRAndDiscussionID mrID (ne_discussion_id ne)) (\<lambda>r. case r of
          Inl e \<Rightarrow> if e = ErrNoRows then ret () else throw e
        | Inr f \<Rightarrow> resolve_discussion mrID (rf_id f))))"

definition executeFocusWith :: "(json \<Rightarrow> string option) \<Rightarrow> (string \<Rightarrow> string) \<Rightarrow>
    normalized_note_event \<Rightarrow> parsed_command \<Rightarrow> unit dbm" where
  "executeFocusWith marshal sha ne cmd =
     (if pc_args cmd = [] then ret ()
      else bindM (resolveEntities ne) (\<lambda>(instanceID, projectID, mrID).
        bindM (GetMergeRequest mrID) (\<lambda>mr.
        let headSHA = (if ne_head_sha ne = [] then mr_head_sha mr else ne_head_sha ne) in
        case marshal (JObject [(''focus_paths'', JArray [JString (pc_args cmd)])]) of
          None \<Rightarrow> throw (ErrMsg ''focus: marshal scope'')
        | Some scope \<Rightarrow>
            (let key = computeCommandIdempotencyKey sha (ne_gitlab_instance_url ne) (ne_project_id ne)
                 (ne_mr_iid ne) headSHA (''command_focus_'' @ pc_args cmd) (ne_delivery_key ne)
             in insert_command_run (command_run projectID mrID headSHA key (Some scope))))))"

definition executeWithQuerier :: "(json \<Rightarrow> string option) \<Rightarrow> (string \<Rightarrow> string) \<Rightarrow>
    normalized_note_event \<Rightarrow> parsed_command option \<Rightarrow> unit dbm" where
  "executeWithQuerier marshal sha ne cmd = (case cmd of None \<Rightarrow> ret ()
   | Some c \<Rightarrow> (case pc_kind c of
       CommandRerun \<Rightarrow> executeRerunWith sha ne
     | CommandIgnore \<Rightarrow> executeIgnoreWith ne
     | CommandResolve \<Rightarrow> executeResolveWith ne
     | CommandFocus \<Rightarrow> executeFocusWith marshal sha ne c
     | CommandUnknown \<Rightarrow> ret ()))"

definition Execute :: "(json \<Rightarrow> string option) \<Rightarrow> (string \<Rightarrow> string) \<Rightarrow>
    normalized_note_event \<Rightarrow> parsed_command option \<Rightarrow> unit dbm" where
  "Execute marshal sha ne cmd = run_tx (executeWithQuerier marshal sha ne cmd)"

subsection \<open>Parsing what a user writes\<close>

fun keyword :: "command_kind \<Rightarrow> string" where
  "keyword CommandRerun = ''rerun''"
| "keyword CommandIgnore = ''ignore''"
| "keyword CommandResolve = ''resolve''"
| "keyword CommandFocus = ''focus''"
| "keyword CommandUnknown = []"

lemma trim_space_leading: "trim_space (CHR 0x20 # s) = trim_space s"
  by (simp add: trim_space_def ascii_space_def trim_left_space_Some)

lemma drop_space_rev_append:
  assumes "drop_space_rev xs = None" and "xs \<noteq> []"
  shows "drop_space_rev (xs @ CHR 0x20 # ys) = None"
  using assms
  by (cases xs; cases "tl xs"; cases "tl (tl xs)")
    (auto simp: space2_def space3_def split: if_splits list.splits)

lemma trim_space_words:
  assumes "drop_space w = None" and "w \<noteq> []" and "trim_space a = a" and "a \<noteq> []"
    and "drop_space (w @ CHR 0x20 # a) = None"
  shows "trim_space (w @ CHR 0x20 # a) = w @ CHR 0x20 # a"
proof (rule trim_space_fixed)
  have "drop_space_rev (rev a) = None" using trim_space_no_trailing [of a] assms(3) by simp
  then show "drop_space_rev (rev (w @ CHR 0x20 # a)) = None"
    using drop_space_rev_append [of "rev a" "rev w"] assms(4) by simp
qed (use assms(5) in simp)

text \<open>Command round trip. A comment made of the prefix, a keyword and a trimmed argument, separated
  by single spaces, parses to exactly that command and argument; the argument may contain spaces.\<close>

theorem Parse_roundtrip:
  assumes "k \<noteq> CommandUnknown" and "a \<noteq> []" and "trim_space a = a"
  shows "Parse (commandPrefix @ '' '' @ keyword k @ '' '' @ a) = Some \<lparr>pc_kind = k, pc_args = a\<rparr>"
proof -
  let ?kw = "keyword k"
  have kw1: "CHR 0x20 \<notin> set ?kw" by (cases k) simp_all
  have kw2: "?kw \<noteq> []" using assms(1) by (cases k) simp_all
  have kw3: "drop_space ?kw = None" by (cases k) (simp_all add: ascii_space_def space2_def space3_def)
  have kw4: "to_lower ?kw = ?kw" by (induction k; code_simp)
  have d1: "drop_space (?kw @ CHR 0x20 # a) = None"
    using assms(1) by (cases k) (simp_all add: ascii_space_def space2_def space3_def)
  have rest: "trim_space (?kw @ CHR 0x20 # a) = ?kw @ CHR 0x20 # a"
    by (rule trim_space_words [OF kw3 kw2 assms(3,2) d1])
  let ?b = "commandPrefix @ '' '' @ ?kw @ '' '' @ a"
  have body: "trim_space ?b = ?b"
    using trim_space_words [of "commandPrefix @ '' '' @ ?kw" a] assms(2,3)
    by (simp add: commandPrefix_def ascii_space_def space2_def space3_def)
  have split: "split_n2 (?kw @ CHR 0x20 # a) '' '' = [?kw, a]"
    using index_of_fresh(2) [of "'' ''" ?kw a] kw1 by (simp add: split_n2_def)
  have pre: "has_prefix ?b commandPrefix" "drop (length commandPrefix) ?b = CHR 0x20 # ?kw @ CHR 0x20 # a"
    by (simp_all add: has_prefix_def)
  show ?thesis
    unfolding Parse_def body Let_def pre trim_space_leading rest split
    using kw2 kw4 assms(1) by (cases k) (simp_all add: has_prefix_append assms(3))
qed

theorem Parse_roundtrip_witness:
  "Parse (commandPrefix @ '' '' @ keyword CommandFocus @ '' '' @ ''internal/db src'')
     = Some \<lparr>pc_kind = CommandFocus, pc_args = ''internal/db src''\<rparr>"
  by (rule Parse_roundtrip) (simp, simp, code_simp)

text \<open>Prefix without separator. \<^verbatim>\<open>IsCommand\<close> accepts a note that \<^verbatim>\<open>Parse\<close> does not: the prefix
  glued to other text is routed as a command and then has no effect.\<close>

theorem IsCommand_not_Parse:
  "IsCommand ''/ai-reviewfoo'' \<and> Parse ''/ai-reviewfoo'' = None
   \<and> (\<forall>b c. Parse b = Some c \<longrightarrow> IsCommand b)"
proof (intro conjI allI impI)
  show "IsCommand ''/ai-reviewfoo''" "Parse ''/ai-reviewfoo'' = None" by code_simp+
  show "IsCommand b" if "Parse b = Some c" for b c
    using that by (auto simp: Parse_def IsCommand_def Let_def split: if_splits)
qed

theorem IsCommand_not_Parse_witness: "IsCommand ''/ai-review rerun''"
proof -
  have "Parse ''/ai-review rerun'' = Some \<lparr>pc_kind = CommandRerun, pc_args = []\<rparr>" by code_simp
  with IsCommand_not_Parse show ?thesis by blast
qed

subsection \<open>Effects\<close>

text \<open>What \<open>resolve\<close> must not touch.\<close>

definition same_findings :: "db \<Rightarrow> db \<Rightarrow> bool" where
  "same_findings s t \<longleftrightarrow> review_findings t = review_findings s \<and> review_runs t = review_runs s
     \<and> merge_requests t = merge_requests s"

interpretation sfind: store_rel same_findings
  by unfold_locales (simp_all add: same_findings_def)

context store_rel
begin

lemma keeps_resolveEntities: "keeps R (resolveEntities ne)"
  unfolding resolveEntities_def GetGitlabInstanceByURL_def GetProjectByGitlabID_def
    GetMergeRequestByProjectMR_def by (intro keeps_rules)

lemma keeps_GetFinding: "keeps R (GetFindingByMRAndDiscussionID m d)"
  unfolding GetFindingByMRAndDiscussionID_def by (rule keeps_query_row)

end

lemma keeps_resolve_discussion: "keeps same_findings (resolve_discussion m f)"
  unfolding resolve_discussion_def GetGitlabDiscussionByMergeRequestAndFinding_def
    UpdateGitlabDiscussionResolved_def update_discussion_def
  by (intro sfind.keeps_rules) (auto intro!: sfind.keeps_rules sfind.keeps_exec split: sum.split simp: same_findings_def)

text \<open>Resolve leaves the finding open. \<^verbatim>\<open>/ai-review resolve\<close> never changes a finding, a run or a
  merge request, whatever fails.\<close>

theorem executeResolve_keeps_findings:
  "executeWithQuerier marshal sha ne (Some \<lparr>pc_kind = CommandResolve, pc_args = a\<rparr>) s = (r, t)
   \<Longrightarrow> review_findings t = review_findings s \<and> review_runs t = review_runs s
     \<and> merge_requests t = merge_requests s"
proof -
  have "keeps same_findings (executeResolveWith ne)"
    unfolding executeResolveWith_def
    by (auto intro!: sfind.keeps_rules sfind.keeps_resolveEntities sfind.keeps_GetFinding
        keeps_resolve_discussion split: sum.split)
  then show "review_findings t = review_findings s \<and> review_runs t = review_runs s
     \<and> merge_requests t = merge_requests s"
    if "executeWithQuerier marshal sha ne (Some \<lparr>pc_kind = CommandResolve, pc_args = a\<rparr>) s = (r, t)"
    using that keepsD by (fastforce simp: executeWithQuerier_def same_findings_def)
qed

definition sample_note :: normalized_note_event where
  "sample_note = \<lparr>ne_gitlab_instance_url = ''https://g.io'', ne_project_id = 42, ne_project_path = ''a/b'',
     ne_mr_iid = 7, ne_head_sha = ''abc'', ne_note_body = ''/ai-review rerun'', ne_note_author = ''u'',
     ne_discussion_id = ''d1'', ne_noteable_type = ''MergeRequest'', ne_hook_source = ''project'',
     ne_delivery_key = ''x1''\<rparr>"

theorem executeResolve_keeps_findings_witness:
  "review_runs (snd (executeWithQuerier (\<lambda>_. None) (\<lambda>x. x) sample_note
      (Some \<lparr>pc_kind = CommandResolve, pc_args = []\<rparr>) sample_db)) = review_runs sample_db"
  using executeResolve_keeps_findings [of "\<lambda>_. None" "\<lambda>x. x" sample_note "[]" sample_db
      "fst (executeWithQuerier (\<lambda>_. None) (\<lambda>x. x) sample_note (Some \<lparr>pc_kind = CommandResolve, pc_args = []\<rparr>) sample_db)"
      "snd (executeWithQuerier (\<lambda>_. None) (\<lambda>x. x) sample_note (Some \<lparr>pc_kind = CommandResolve, pc_args = []\<rparr>) sample_db)"]
  by simp

text \<open>Entities resolved without failures.\<close>

definition entity_rows :: "normalized_note_event \<Rightarrow> db \<Rightarrow> (int \<times> int \<times> int) option" where
  "entity_rows ne s = (case find_row (\<lambda>r. gi_url r = ne_gitlab_instance_url ne) (instances s) of
     None \<Rightarrow> None
   | Some i \<Rightarrow> (case find_row (\<lambda>r. pr_gitlab_instance_id r = gi_id i \<and> pr_gitlab_project_id r = ne_project_id ne) (projects s) of
       None \<Rightarrow> None
     | Some p \<Rightarrow> (case find_row (mr_at (pr_id p) (ne_mr_iid ne)) (merge_requests s) of
         None \<Rightarrow> None | Some m \<Rightarrow> Some (gi_id i, pr_id p, mr_id m))))"

lemma entity_rows_cong:
  assumes "instances t = instances s" and "projects t = projects s" and "merge_requests t = merge_requests s"
  shows "entity_rows ne t = entity_rows ne s"
  unfolding entity_rows_def assms ..

lemma resolveEntities_Inr:
  assumes "resolveEntities ne s = (Inr x, t)"
  shows "entity_rows ne s = Some x \<and> same_tables s t"
proof -
  from assms obtain i s1 where i: "GetGitlabInstanceByURL (ne_gitlab_instance_url ne) s = (Inr i, s1)"
    and r1: "bindM (GetProjectByGitlabID (gi_id i) (ne_project_id ne)) (\<lambda>pr.
       bindM (GetMergeRequestByProjectMR (pr_id pr) (ne_mr_iid ne)) (\<lambda>mr.
       ret (gi_id i, pr_id pr, mr_id mr))) s1 = (Inr x, t)"
    unfolding resolveEntities_def by (rule bindM_elim)
  from r1 obtain p s2 where p: "GetProjectByGitlabID (gi_id i) (ne_project_id ne) s1 = (Inr p, s2)"
    and r2: "bindM (GetMergeRequestByProjectMR (pr_id p) (ne_mr_iid ne)) (\<lambda>mr.
       ret (gi_id i, pr_id p, mr_id mr)) s2 = (Inr x, t)" by (rule bindM_elim)
  from r2 obtain m where m: "GetMergeRequestByProjectMR (pr_id p) (ne_mr_iid ne) s2 = (Inr m, t)"
    and x: "x = (gi_id i, pr_id p, mr_id m)" by (auto elim!: bindM_elim simp: ret_def)
  from query_row_Inr [OF i [unfolded GetGitlabInstanceByURL_def]] have
    i': "find_row (\<lambda>r. gi_url r = ne_gitlab_instance_url ne) (instances s) = Some i" "same_tables s s1" by simp_all
  from query_row_Inr [OF p [unfolded GetProjectByGitlabID_def]] have
    p': "find_row (\<lambda>r. pr_gitlab_instance_id r = gi_id i \<and> pr_gitlab_project_id r = ne_project_id ne) (projects s1) = Some p"
    "same_tables s1 s2" by simp_all
  from query_row_Inr [OF m [unfolded GetMergeRequestByProjectMR_def]] have
    m': "find_row (mr_at (pr_id p) (ne_mr_iid ne)) (merge_requests s2) = Some m" "same_tables s2 t" by simp_all
  have t: "same_tables s t" using i'(2) p'(2) m'(2) same.R_trans by blast
  have "projects s1 = projects s" "merge_requests s2 = merge_requests s"
    using i'(2) p'(2) by (auto simp: same_tables_def)
  with i'(1) p'(1) m'(1) x t show ?thesis by (simp add: entity_rows_def)
qed

lemma insert_command_run_effect:
  assumes "insert_command_run a s = (r, t)"
  shows "merge_requests t = merge_requests s \<and> projects t = projects s \<and> instances t = instances s"
    and "r = Inr () \<Longrightarrow> key_taken (irp_idempotency_key a) t"
    and "key_taken (irp_idempotency_key a) s \<Longrightarrow> review_runs t = review_runs s"
proof -
  from assms obtain q where q: "InsertReviewRun a s = (q, t)"
    and r: "r = (case q of Inl e \<Rightarrow> if is_duplicate_key_error e then Inr () else Inl e | Inr _ \<Rightarrow> Inr ())"
    by (auto simp: insert_command_run_def tryM_def ret_def throw_def split: prod.splits sum.splits if_splits)
  show "merge_requests t = merge_requests s \<and> projects t = projects s \<and> instances t = instances s"
    using q unfolding InsertReviewRun_def by (cases rule: stmt_cases) (auto split: if_splits)
  show "key_taken (irp_idempotency_key a) t" if "r = Inr ()"
    using q unfolding InsertReviewRun_def
    by (cases rule: stmt_cases)
      (use r that in \<open>auto simp: key_taken_def is_duplicate_key_error_def find_row_insert_row new_run_def split: if_splits option.splits\<close>)
  show "review_runs t = review_runs s" if "key_taken (irp_idempotency_key a) s"
    using q unfolding InsertReviewRun_def
    by (cases rule: stmt_cases) (use that in \<open>auto simp: key_taken_def split: if_splits\<close>)
qed

lemma executeRerun_steps:
  assumes "executeRerunWith sha ne s = (r, t)"
  obtains (failed) e where "r = Inl e" and "same_tables s t"
  | (insert) i p m mr s1 where "entity_rows ne s = Some (i, p, m)"
      and "find_row (\<lambda>x. mr_id x = m) (merge_requests s) = Some mr" and "same_tables s s1"
      and "insert_command_run (command_run p m (if ne_head_sha ne = [] then mr_head_sha mr else ne_head_sha ne)
         (computeCommandIdempotencyKey sha (ne_gitlab_instance_url ne) (ne_project_id ne) (ne_mr_iid ne)
           (if ne_head_sha ne = [] then mr_head_sha mr else ne_head_sha ne) ''command_rerun'' (ne_delivery_key ne)) None) s1 = (r, t)"
  using same.keeps_resolveEntities assms unfolding executeRerunWith_def
proof (cases rule: same.bindM_step)
  case (err e)
  then show ?thesis by (rule failed)
next
  case (ok x s1)
  obtain i p m where x: "x = (i, p, m)" by (cases x) auto
  have k: "keeps same_tables (GetMergeRequest m)" unfolding GetMergeRequest_def by (rule same.keeps_query_row)
  from k ok(3) [unfolded x prod.case] show ?thesis
  proof (cases rule: same.bindM_step)
    case (err e)
    then show ?thesis using failed ok(1) same.R_trans by blast
  next
    case (ok mr s2)
    have e: "entity_rows ne s = Some (i, p, m)" using resolveEntities_Inr [OF \<open>resolveEntities ne s = (Inr x, s1)\<close>] x by simp
    have mr: "find_row (\<lambda>y. mr_id y = m) (merge_requests s1) = Some mr"
      using query_row_Inr [OF ok(2) [unfolded GetMergeRequest_def]] by simp
    have "merge_requests s1 = merge_requests s" using \<open>same_tables s s1\<close> by (auto simp: same_tables_def)
    with e mr ok(3) show ?thesis
      using same.R_trans [OF \<open>same_tables s s1\<close> ok(1)] by (intro insert) (simp_all add: Let_def)
  qed
qed

text \<open>Replayed rerun. Once a rerun command has been executed, executing the same delivery again, at
  any time before the merge request changes and under any failures, creates no second run.\<close>

theorem executeRerun_replay:
  assumes "executeRerunWith sha ne s = (Inr (), t)" and "executeRerunWith sha ne t = (r, u)"
  shows "review_runs u = review_runs t"
  using assms(1)
proof (cases rule: executeRerun_steps)
  case (insert i p m mr s1)
  let ?h = "if ne_head_sha ne = [] then mr_head_sha mr else ne_head_sha ne"
  let ?k = "computeCommandIdempotencyKey sha (ne_gitlab_instance_url ne) (ne_project_id ne) (ne_mr_iid ne)
    ?h ''command_rerun'' (ne_delivery_key ne)"
  note eff = insert_command_run_effect [OF insert(4)]
  have key: "irp_idempotency_key (command_run p m ?h ?k None) = ?k" by (simp add: command_run_def)
  have taken: "key_taken ?k t" using eff(2) key by simp
  have tabs: "instances t = instances s" "projects t = projects s" "merge_requests t = merge_requests s"
    using eff(1) insert(3) by (auto simp: same_tables_def)
  from assms(2) show ?thesis
  proof (cases rule: executeRerun_steps)
    case (failed e)
    then show ?thesis by (auto simp: same_tables_def)
  next
    case (insert i' p' m' mr' t1)
    have "entity_rows ne t = Some (i, p, m)" using entity_rows_cong [OF tabs] \<open>entity_rows ne s = Some (i, p, m)\<close> by simp
    with insert(1) have eq: "p' = p" "m' = m" by simp_all
    with insert(2) tabs(3) \<open>find_row (\<lambda>x. mr_id x = m) (merge_requests s) = Some mr\<close> have mr: "mr' = mr" by simp
    have runs: "review_runs t1 = review_runs t" using insert(3) by (auto simp: same_tables_def)
    with taken have "key_taken (irp_idempotency_key (command_run p m ?h ?k None)) t1"
      unfolding key by (simp add: key_taken_def)
    from insert_command_run_effect(3) [OF insert(4) [unfolded eq mr] this] runs show ?thesis by simp
  qed
qed (use assms(1) in simp)

theorem executeRerun_replay_witness:
  "let t = snd (executeRerunWith (\<lambda>_. ''h'') sample_note sample_db)
   in review_runs (snd (executeRerunWith (\<lambda>_. ''h'') sample_note t)) = review_runs t"
proof -
  let ?f = "executeRerunWith (\<lambda>_. ''h'') sample_note"
  have "fst (?f sample_db) = Inr ()" by code_simp
  then have 1: "?f sample_db = (Inr (), snd (?f sample_db))" by (metis prod.collapse)
  have 2: "?f (snd (?f sample_db)) = (fst (?f (snd (?f sample_db))), snd (?f (snd (?f sample_db))))" by simp
  show ?thesis unfolding Let_def by (rule executeRerun_replay [OF 1 2])
qed

subsection \<open>Ignoring a finding\<close>

lemma resolveEntities_ok:
  "faults s = [] \<Longrightarrow> entity_rows ne s = Some x \<Longrightarrow> resolveEntities ne s = (Inr x, s)"
  by (auto simp: resolveEntities_def entity_rows_def bindM_def ret_def GetGitlabInstanceByURL_def
      GetProjectByGitlabID_def GetMergeRequestByProjectMR_def query_row_def stmt_ok split: option.splits)

definition set_ignored :: "time \<Rightarrow> review_finding \<Rightarrow> review_finding" where
  "set_ignored now f = f\<lparr>rf_state := ''ignored'', rf_matched_finding_id := None, rf_updated_at := now\<rparr>"

lemma UpdateFindingState_ignored:
  "faults s = [] \<Longrightarrow> UpdateFindingState ''ignored'' None i s =
     (Inr (), s\<lparr>review_findings := update_rows (\<lambda>f. rf_id f = i) (set_ignored (clock s)) (review_findings s)\<rparr>)"
  unfolding UpdateFindingState_def update_findings_def set_ignored_def by (simp add: exec_ok)

lemma resolve_discussion_ok:
  assumes "faults s = []"
  shows "\<exists>ds. resolve_discussion m f s = (Inr (), s\<lparr>discussions := ds\<rparr>)"
proof -
  have "\<exists>ds. (Inr (), s) = (Inr (), s\<lparr>discussions := ds\<rparr>)"
    by (rule exI [of _ "discussions s"]) simp
  then show ?thesis
    using assms
    by (auto simp: resolve_discussion_def tryM_def GetGitlabDiscussionByMergeRequestAndFinding_def
        query_first_def stmt_ok UpdateGitlabDiscussionResolved_def update_discussion_def exec_ok ret_def
        split: list.splits)
qed

lemma executeIgnore_ok:
  assumes "faults s = []" and "ne_discussion_id ne \<noteq> []" and "entity_rows ne s = Some (i, p, m)"
    and "find_row (\<lambda>f. rf_merge_request_id f = m \<and> rf_gitlab_discussion_id f = ne_discussion_id ne) (review_findings s) = Some f"
  shows "\<exists>ds. executeIgnoreWith ne s = (Inr (), s\<lparr>review_findings :=
     update_rows (\<lambda>x. rf_id x = rf_id f) (set_ignored (clock s)) (review_findings s), discussions := ds\<rparr>)"
proof -
  let ?s1 = "s\<lparr>review_findings := update_rows (\<lambda>x. rf_id x = rf_id f) (set_ignored (clock s)) (review_findings s)\<rparr>"
  have g: "GetFindingByMRAndDiscussionID m (ne_discussion_id ne) s = (Inr f, s)"
    using assms(1,4) by (simp add: GetFindingByMRAndDiscussionID_def query_row_def stmt_ok)
  obtain ds where "resolve_discussion m (rf_id f) ?s1 = (Inr (), ?s1\<lparr>discussions := ds\<rparr>)"
    using resolve_discussion_ok [of ?s1 m "rf_id f"] assms(1) by auto
  then have "executeIgnoreWith ne s = (Inr (), ?s1\<lparr>discussions := ds\<rparr>)"
    using assms(2) resolveEntities_ok [OF assms(1,3)] g UpdateFindingState_ignored [OF assms(1)]
    by (simp add: executeIgnoreWith_def bindM_def tryM_def)
  then show ?thesis by blast
qed

end
