(* ===== verification/Hooks_Handler.thy ===== *)
theory Hooks_Handler
  imports Note_Commands
begin

text \<open>
  Webhook ingress, \<^verbatim>\<open>internal/hooks/handler.go\<close>: token check, size and syntax check of the body,
  deduplication by delivery key, routing of note commands and merge request events, one transaction
  for the hook event and what it causes, and an audit log entry for the outcome.

  A request is the headers the handler reads and its body (\<open>None\<close> when reading fails); the
  response is the status code and the members of the JSON object. \<open>decode\<close>, \<open>marshal\<close> and \<open>sha\<close>
  are as in normalization, \<open>quote\<close> is the \<^verbatim>\<open>%q\<close> verb, \<open>fresh\<close> the generated UUID. The run processor
  and the command processor are interfaces of the handler.
\<close>

definition maxPayloadBytes :: nat where
  "maxPayloadBytes = 1048576"

record webhook_request =
  rq_token :: string
  rq_webhook_uuid :: string
  rq_delivery :: string
  rq_event_uuid :: string
  rq_event :: string
  rq_body :: "string option"

type_synonym response = "int \<times> (string \<times> string) list"

record handler =
  hd_secret :: string
  hd_run_processor :: "(normalized_event \<Rightarrow> int \<Rightarrow> unit dbm) option"
  hd_command_processor :: "(normalized_note_event \<Rightarrow> parsed_command option \<Rightarrow> unit dbm) option"

record codec =
  cd_decode :: "string \<Rightarrow> json option"
  cd_marshal :: "json \<Rightarrow> string"
  cd_sha :: "string \<Rightarrow> string"
  cd_quote :: "string \<Rightarrow> string"
  cd_fresh :: string

definition verifyToken :: "handler \<Rightarrow> string \<Rightarrow> bool" where
  "verifyToken h token = (if hd_secret h = [] \<or> token = [] then False else token = hd_secret h)"

definition extractDeliveryKey :: "string \<Rightarrow> webhook_request \<Rightarrow> string" where
  "extractDeliveryKey fresh r =
     (if rq_webhook_uuid r \<noteq> [] then rq_webhook_uuid r
      else if rq_delivery r \<noteq> [] then rq_delivery r
      else if rq_event_uuid r \<noteq> [] then rq_event_uuid r
      else ''synthetic-'' @ fresh)"

definition detectHookSource :: "webhook_request \<Rightarrow> string" where
  "detectHookSource r = (if equal_fold (rq_event r) ''System Hook'' then ''system'' else ''project'')"

definition toNullInt64 :: "int \<Rightarrow> int option" where
  "toNullInt64 v = (if v = 0 then None else Some v)"

record parsed_event =
  pe_event_type :: string
  pe_action :: string
  pe_project_id :: int
  pe_mr_iid :: int
  pe_head_sha :: string

definition parseWebhookPayload :: "(string \<Rightarrow> json option) \<Rightarrow> string \<Rightarrow> string \<Rightarrow> parsed_event" where
  "parseWebhookPayload decode payload headerEventType =
     (let kvs = (case decode payload of Some (JObject m) \<Rightarrow> m | _ \<Rightarrow> []);
          oa = struct_lax [] (named ''object_attributes'' kvs);
          lc = struct_lax [] (named ''last_commit'' oa);
          pr = struct_lax [] (named ''project'' kvs);
          et1 = (if headerEventType = [] then string_lax [] (named ''event_type'' kvs) else headerEventType);
          et = (if et1 = [] then string_lax [] (named ''object_kind'' kvs) else et1)
      in \<lparr>pe_event_type = et, pe_action = string_lax [] (named ''action'' oa),
          pe_project_id = int_lax 0 (named ''id'' pr), pe_mr_iid = int_lax 0 (named ''iid'' oa),
          pe_head_sha = string_lax [] (named ''id'' lc)\<rparr>)"

definition hook_params :: "string \<Rightarrow> string \<Rightarrow> parsed_event \<Rightarrow> string \<Rightarrow> string \<Rightarrow> string \<Rightarrow> hook_event_params" where
  "hook_params deliveryKey hookSource parsed payload outcome reason =
     \<lparr>hep_delivery_key = deliveryKey, hep_hook_source = hookSource, hep_event_type = pe_event_type parsed,
      hep_gitlab_instance_id = None, hep_project_id = toNullInt64 (pe_project_id parsed),
      hep_mr_iid = toNullInt64 (pe_mr_iid parsed), hep_action = pe_action parsed,
      hep_head_sha = pe_head_sha parsed, hep_payload = Some payload,
      hep_verification_outcome = outcome, hep_rejection_reason = reason\<rparr>"

definition insertHookEvent :: "string \<Rightarrow> string \<Rightarrow> parsed_event \<Rightarrow> string \<Rightarrow> string \<Rightarrow> string \<Rightarrow> int dbm" where
  "insertHookEvent deliveryKey hookSource parsed payload outcome reason =
     InsertHookEvent (hook_params deliveryKey hookSource parsed payload outcome reason)"

definition writeAuditLog ::
  "(string \<Rightarrow> string) \<Rightarrow> string \<Rightarrow> string \<Rightarrow> string \<Rightarrow> string \<Rightarrow> string \<Rightarrow> unit dbm" where
  "writeAuditLog quote deliveryKey hookSource outcome reason eventType =
     tryM (InsertAuditLog
       \<lparr>alp_entity_type = ''webhook'', alp_entity_id = 0, alp_action = ''webhook_received'',
        alp_actor = ''system'',
        alp_detail = Some (CHR 0x7B # CHR 0x22 # ''event_type'' @ CHR 0x22 # '':'' @ quote eventType @ [CHR 0x7D]),
        alp_delivery_key = deliveryKey, alp_hook_source = hookSource,
        alp_verification_outcome = outcome, alp_rejection_reason = reason, alp_error_code = []\<rparr>) (\<lambda>_. ret ())"

definition respond :: "unit dbm \<Rightarrow> int \<Rightarrow> (string \<times> string) list \<Rightarrow> response dbm" where
  "respond m status body = bindM m (\<lambda>_. ret (status, body))"

definition insert_note_event :: "codec \<Rightarrow> string \<Rightarrow> string \<Rightarrow> parsed_event \<Rightarrow> string \<Rightarrow> string \<Rightarrow> unit dbm" where
  "insert_note_event c deliveryKey hookSource parsed payload eventType =
     tryM (insertHookEvent deliveryKey hookSource parsed payload ''verified'' []) (\<lambda>_.
     writeAuditLog (cd_quote c) deliveryKey hookSource ''verified'' [] eventType)"

definition handleNoteEvent :: "codec \<Rightarrow> handler \<Rightarrow> string \<Rightarrow> string \<Rightarrow> string \<Rightarrow> string \<Rightarrow> response dbm" where
  "handleNoteEvent c h deliveryKey hookSource eventType payload =
     (let audit = writeAuditLog (cd_quote c) deliveryKey hookSource in
      case NormalizeNoteWebhook (cd_decode c) payload eventType hookSource of
        None \<Rightarrow> respond (audit ''rejected'' ''note_normalization_error'' eventType) 400
                 [(''error'', ''failed to normalize note payload'')]
      | Some ne0 \<Rightarrow>
         (let ne = ne0\<lparr>ne_delivery_key := deliveryKey\<rparr>;
              parsed = \<lparr>pe_event_type = eventType, pe_action = ''note'', pe_project_id = ne_project_id ne,
                        pe_mr_iid = ne_mr_iid ne, pe_head_sha = ne_head_sha ne\<rparr>
          in if \<not> IsCommand (ne_note_body ne) then
               respond (insert_note_event c deliveryKey hookSource parsed payload eventType) 200
                 [(''status'', ''accepted''), (''command'', ''none'')]
             else case hd_command_processor h of
               None \<Rightarrow> respond (insert_note_event c deliveryKey hookSource parsed payload eventType) 200
                        [(''status'', ''accepted''), (''command'', ''unprocessed'')]
             | Some cp \<Rightarrow>
                 tryM (run_tx (bindM (insertHookEvent deliveryKey hookSource parsed payload ''verified'' []) (\<lambda>_.
                       cp ne (Parse (ne_note_body ne))))) (\<lambda>r. case r of
                   Inl e \<Rightarrow> if is_duplicate_key_error e
                     then respond (audit ''deduplicated'' [] eventType) 200 [(''status'', ''duplicate'')]
                     else ret (500, [(''error'', ''command execution failed'')])
                 | Inr _ \<Rightarrow> respond (audit ''verified'' [] eventType) 200
                     [(''status'', ''accepted''), (''command'', ''processed'')])))"

text \<open>Steps 5 to 7: normalize, record and process in one transaction, audit.\<close>

definition handleMergeRequest :: "codec \<Rightarrow> handler \<Rightarrow> string \<Rightarrow> string \<Rightarrow> string \<Rightarrow> string \<Rightarrow> response dbm" where
  "handleMergeRequest c h deliveryKey hookSource0 eventType payload =
     (case NormalizeWebhook (cd_decode c) (cd_marshal c) (cd_sha c) payload eventType hookSource0 of
        None \<Rightarrow> respond (writeAuditLog (cd_quote c) deliveryKey hookSource0 ''rejected'' ''normalization_error'' eventType)
                 400 [(''error'', ''failed to normalize payload'')]
      | Some ev \<Rightarrow>
         (let hookSource = ev_hook_source ev;
              audit = writeAuditLog (cd_quote c) deliveryKey hookSource;
              parsed = \<lparr>pe_event_type = ev_event_type ev, pe_action = ev_action ev,
                        pe_project_id = ev_project_id ev, pe_mr_iid = ev_mr_iid ev, pe_head_sha = ev_head_sha ev\<rparr>
          in tryM (run_tx (bindM (insertHookEvent deliveryKey hookSource parsed payload ''verified'' []) (\<lambda>hookEventID.
               case hd_run_processor h of None \<Rightarrow> ret () | Some rp \<Rightarrow> rp ev hookEventID))) (\<lambda>r. case r of
               Inl e \<Rightarrow> if is_duplicate_key_error e
                 then respond (audit ''deduplicated'' [] (pe_event_type parsed)) 200 [(''status'', ''duplicate'')]
                 else respond (audit ''rejected'' ''db_error'' (pe_event_type parsed)) 500 [(''error'', ''internal error'')]
             | Inr _ \<Rightarrow> respond (audit ''verified'' [] (pe_event_type parsed)) 200 [(''status'', ''accepted'')])))"

definition route_event :: "codec \<Rightarrow> handler \<Rightarrow> string \<Rightarrow> string \<Rightarrow> string \<Rightarrow> string \<Rightarrow> response dbm" where
  "route_event c h deliveryKey hookSource eventType payload =
     (let isNote = (IsNoteEventType eventType
            \<or> (IsSystemHookHeader eventType \<and> IsNotePayload (cd_decode c) payload));
          isMR = (IsMergeRequestEventType eventType
            \<or> (IsSystemHookHeader eventType \<and> IsMergeRequestPayload (cd_decode c) payload))
      in if isNote \<and> IsMergeRequestNotePayload (cd_decode c) payload
         then handleNoteEvent c h deliveryKey hookSource eventType payload
         else if \<not> isMR then
           (let parsed = parseWebhookPayload (cd_decode c) payload eventType in
            respond (tryM (insertHookEvent deliveryKey hookSource parsed payload ''verified'' []) (\<lambda>_.
               writeAuditLog (cd_quote c) deliveryKey hookSource ''verified'' [] (pe_event_type parsed)))
              200 [(''status'', ''ignored''), (''reason'', ''unsupported_event'')])
         else handleMergeRequest c h deliveryKey hookSource eventType payload)"

text \<open>Step 3: acknowledge a delivery key seen before; a failing lookup is not an obstacle.\<close>

definition dedup_and_route :: "codec \<Rightarrow> handler \<Rightarrow> string \<Rightarrow> string \<Rightarrow> string \<Rightarrow> string \<Rightarrow> response dbm" where
  "dedup_and_route c h deliveryKey hookSource eventType body =
     (if deliveryKey \<noteq> [] then
        tryM (GetHookEventByDeliveryKey deliveryKey) (\<lambda>e. case e of
          Inr existing \<Rightarrow> if he_id existing > 0
            then respond (writeAuditLog (cd_quote c) deliveryKey hookSource ''deduplicated'' [] eventType)
                   200 [(''status'', ''duplicate'')]
            else route_event c h deliveryKey hookSource eventType body
        | Inl _ \<Rightarrow> route_event c h deliveryKey hookSource eventType body)
      else route_event c h deliveryKey hookSource eventType body)"

definition ServeHTTP :: "codec \<Rightarrow> handler \<Rightarrow> webhook_request \<Rightarrow> response dbm" where
  "ServeHTTP c h r =
     (let deliveryKey = extractDeliveryKey (cd_fresh c) r;
          hookSource0 = detectHookSource r;
          eventType = rq_event r;
          audit = (\<lambda>src outcome reason. writeAuditLog (cd_quote c) deliveryKey src outcome reason eventType)
      in if \<not> verifyToken h (rq_token r) then
           respond (audit hookSource0 ''rejected'' (if rq_token r \<noteq> [] then ''invalid_token'' else ''missing_token''))
             401 [(''error'', ''unauthorized'')]
         else case rq_body r of
           None \<Rightarrow> respond (audit hookSource0 ''rejected'' ''body_read_error'') 400 [(''error'', ''failed to read body'')]
         | Some body0 \<Rightarrow>
            (let body = take (maxPayloadBytes + 1) body0 in
             if length body > maxPayloadBytes then
               respond (audit hookSource0 ''rejected'' ''payload_too_large'') 400 [(''error'', ''payload too large'')]
             else if cd_decode c body = None then
               respond (audit hookSource0 ''rejected'' ''malformed_json'') 400 [(''error'', ''malformed JSON'')]
             else dedup_and_route c h deliveryKey (inferWebhookSource (cd_decode c) body hookSource0)
                    eventType body))"

subsection \<open>Frames\<close>

text \<open>Only the audit log differs.\<close>

definition only_audit :: "db \<Rightarrow> db \<Rightarrow> bool" where
  "only_audit s t \<longleftrightarrow> (\<exists>a fs l. t = s\<lparr>audit_logs := a, faults := fs, last_rowid := l\<rparr>)"

interpretation oaudit: store_rel only_audit
proof unfold_locales
  show "only_audit s s" for s
    unfolding only_audit_def
    by (rule exI [of _ "audit_logs s"], rule exI [of _ "faults s"], rule exI [of _ "last_rowid s"]) simp
  show "only_audit s (s\<lparr>faults := fs, last_rowid := i\<rparr>)" for s fs i
    unfolding only_audit_def by (rule exI [of _ "audit_logs s"], rule exI [of _ fs], rule exI [of _ i]) simp
  show "only_audit s u" if "only_audit s t" and "only_audit t u" for s t u
  proof -
    from that obtain a fs l b gs k where "t = s\<lparr>audit_logs := a, faults := fs, last_rowid := l\<rparr>"
      and "u = t\<lparr>audit_logs := b, faults := gs, last_rowid := k\<rparr>" unfolding only_audit_def by blast
    then have "u = s\<lparr>audit_logs := b, faults := gs, last_rowid := k\<rparr>" by simp
    then show ?thesis unfolding only_audit_def by blast
  qed
qed

lemma only_audit_tables:
  assumes "only_audit s t"
  shows "hook_events t = hook_events s" "review_runs t = review_runs s" "merge_requests t = merge_requests s"
    "projects t = projects s" "instances t = instances s" "review_findings t = review_findings s"
    "comment_actions t = comment_actions s" "discussions t = discussions s"
  using assms by (auto simp: only_audit_def)

lemma only_audit_same_tables: "same_tables s t \<Longrightarrow> only_audit s t"
proof -
  assume "same_tables s t"
  then obtain fs i where "t = s\<lparr>faults := fs, last_rowid := i\<rparr>" by (auto simp: same_tables_def)
  then show ?thesis using oaudit.R_conn by simp
qed

lemma keeps_writeAuditLog: "keeps only_audit (writeAuditLog q d h out reason e)"
proof -
  have "only_audit s (snd (insert_into audit_logs audit_logs_update mk s))" for s mk
    unfolding only_audit_def insert_into_def
    by (rule exI [of _ "insert_row (mk (clock s)) (audit_logs s)"], rule exI [of _ "faults s"],
        rule exI [of _ "next_id (audit_logs s)"]) simp
  then show ?thesis
    unfolding writeAuditLog_def InsertAuditLog_def
    by (intro oaudit.keeps_tryM oaudit.keeps_ret oaudit.keeps_stmt)
qed

lemma writeAuditLog_Inr: "writeAuditLog q d h out reason e s = (Inr (), snd (writeAuditLog q d h out reason e s))"
  by (simp add: writeAuditLog_def tryM_def ret_def split: prod.split)

lemma respond_audit:
  "respond (writeAuditLog q d h out reason e) st b s = (Inr (st, b), snd (writeAuditLog q d h out reason e s))"
  unfolding respond_def bindM_def by (subst writeAuditLog_Inr) (simp add: ret_def)

lemma respond_audit_only:
  assumes "respond (writeAuditLog q d h out reason e) st b s = (r, t)"
  shows "r = Inr (st, b) \<and> only_audit s t"
  using assms keepsD [OF keeps_writeAuditLog] unfolding respond_audit by (metis prod.collapse prod.inject)

lemma verifyToken_iff: "verifyToken h tok \<longleftrightarrow> hd_secret h \<noteq> [] \<and> tok = hd_secret h"
  by (auto simp: verifyToken_def)

text \<open>Authentication. A request whose token is not the configured non-empty secret is answered 401
  and changes nothing but the audit log, whatever its body, headers and the failures of the
  connection.\<close>

theorem unauthenticated_rejected:
  assumes "hd_secret h = [] \<or> rq_token r \<noteq> hd_secret h" and "ServeHTTP c h r s = (res, t)"
  shows "res = Inr (401, [(''error'', ''unauthorized'')]) \<and> only_audit s t"
proof -
  have "\<not> verifyToken h (rq_token r)" using assms(1) by (auto simp: verifyToken_iff)
  with assms(2) show ?thesis by (simp add: ServeHTTP_def Let_def respond_audit_only)
qed

text \<open>The transaction of step 6: on success the hook event is recorded, on failure nothing is.\<close>

lemma insertHookEvent_recorded:
  assumes "insertHookEvent d src p pl out reason s = (Inr i, t)"
  shows "find_row (\<lambda>e. he_delivery_key e = d) (hook_events t) \<noteq> None"
  using hook_key.ins_some [OF assms [unfolded insertHookEvent_def]]
  by (auto simp: find_row_insert_row hook_params_def)

definition hook_recorded :: "string \<Rightarrow> db \<Rightarrow> bool" where
  "hook_recorded d s \<longleftrightarrow> find_row (\<lambda>e. he_delivery_key e = d) (hook_events s) \<noteq> None"

lemma hook_recorded_cong: "hook_events t = hook_events s \<Longrightarrow> hook_recorded d t = hook_recorded d s"
  by (simp add: hook_recorded_def)

definition keeps_recorded :: "string \<Rightarrow> db \<Rightarrow> db \<Rightarrow> bool" where
  "keeps_recorded d s t \<longleftrightarrow> (hook_recorded d s \<longrightarrow> hook_recorded d t)"

interpretation krec: store_rel "keeps_recorded d" for d
  by unfold_locales (auto simp: keeps_recorded_def hook_recorded_def)

text \<open>The transaction that records an event and processes it: a failure leaves every table but the audit log as it was.\<close>

lemma recorded_event_outcomes:
  assumes run: "tryM (run_tx (bindM (insertHookEvent d src p pl out reason) k)) (\<lambda>r. case r of
       Inl e \<Rightarrow> if is_duplicate_key_error e
         then respond (writeAuditLog q d1 h1 o1 r1 e1) 200 [(''status'', ''duplicate'')]
         else respond (writeAuditLog q d2 h2 o2 r2 e2) 500 [(''error'', ''internal error'')]
     | Inr _ \<Rightarrow> respond (writeAuditLog q d3 h3 o3 r3 e3) 200 [(''status'', ''accepted'')]) s = (res, t)"
    and k: "\<And>i. keeps (keeps_recorded d) (k i)"
  shows "(res = Inr (200, [(''status'', ''duplicate'')]) \<and> only_audit s t)
    \<or> (res = Inr (500, [(''error'', ''internal error'')]) \<and> only_audit s t)
    \<or> (res = Inr (200, [(''status'', ''accepted'')]) \<and> hook_recorded d t)"
proof -
  let ?tx = "bindM (insertHookEvent d src p pl out reason) k"
  obtain x s1 where x: "run_tx ?tx s = (x, s1)" by (cases "run_tx ?tx s")
  show ?thesis
  proof (cases x)
    case (Inl e)
    then have o1: "only_audit s s1" using run_tx_error_same_tables x only_audit_same_tables by blast
    show ?thesis
    proof (cases "is_duplicate_key_error e")
      case True
      then have "respond (writeAuditLog q d1 h1 o1 r1 e1) 200 [(''status'', ''duplicate'')] s1 = (res, t)"
        using run x Inl by (simp add: tryM_def)
      from respond_audit_only [OF this] show ?thesis using oaudit.R_trans [OF o1] by blast
    next
      case False
      then have "respond (writeAuditLog q d2 h2 o2 r2 e2) 500 [(''error'', ''internal error'')] s1 = (res, t)"
        using run x Inl by (simp add: tryM_def)
      from respond_audit_only [OF this] show ?thesis using oaudit.R_trans [OF o1] by blast
    qed
  next
    case (Inr u)
    with x obtain s2 s3 where st: "same_tables s s2" "?tx s2 = (Inr u, s3)" "same_tables s3 s1"
      by (auto elim: run_tx_InrE)
    from st(2) obtain i s4 where i: "insertHookEvent d src p pl out reason s2 = (Inr i, s4)"
      and rp: "k i s4 = (Inr u, s3)" by (rule bindM_elim)
    have r4: "hook_recorded d s4" using insertHookEvent_recorded [OF i] by (simp add: hook_recorded_def)
    have r3: "hook_recorded d s3" using keepsD [OF k rp] r4 by (simp add: keeps_recorded_def)
    have "respond (writeAuditLog q d3 h3 o3 r3 e3) 200 [(''status'', ''accepted'')] s1 = (res, t)"
      using run x Inr by (simp add: tryM_def)
    then have ra: "res = Inr (200, [(''status'', ''accepted'')]) \<and> only_audit s1 t"
      by (rule respond_audit_only)
    have "hook_events t = hook_events s1" using ra by (simp add: only_audit_tables(1))
    moreover have "hook_events s1 = hook_events s3" using st(3) by (auto simp: same_tables_def)
    ultimately have "hook_recorded d t" using r3 hook_recorded_cong [of t s3 d] by simp
    with ra show ?thesis by simp
  qed
qed


subsection \<open>Redelivery\<close>

lemma insertHookEvent_taken:
  assumes "hook_recorded d s" and "insertHookEvent d src p pl out reason s = (q, t)"
  shows "\<exists>e. q = Inl e \<and> same_tables s t"
proof -
  have "\<exists>e. q = Inl e"
    using hook_key.ins_some [of "hook_params d src p pl out reason" s] assms
    by (cases q) (auto simp: insertHookEvent_def hook_params_def hook_recorded_def)
  moreover have "same_tables s t"
    using assms(2) unfolding insertHookEvent_def InsertHookEvent_def
  proof (cases rule: stmt_cases)
    case fault
    then show ?thesis using same.R_faults by simp
  next
    case run
    then have "t = s\<lparr>faults := tl (faults s)\<rparr>"
      using assms(1) by (auto simp: hook_recorded_def hook_params_def)
    then show ?thesis using same.R_faults by simp
  qed
  ultimately show ?thesis by blast
qed

lemma tx_taken:
  assumes "hook_recorded d s" and "run_tx (bindM (insertHookEvent d src p pl out reason) f) s = (q, t)"
  shows "\<exists>e. q = Inl e \<and> same_tables s t"
proof (cases q)
  case (Inl e)
  with assms(2) run_tx_error_same_tables show ?thesis by blast
next
  case (Inr x)
  with assms(2) obtain s1 s2 where s1: "same_tables s s1"
    and m: "bindM (insertHookEvent d src p pl out reason) f s1 = (Inr x, s2)" by (auto elim: run_tx_InrE)
  from m obtain i s3 where i: "insertHookEvent d src p pl out reason s1 = (Inr i, s3)" by (rule bindM_elim)
  have "hook_recorded d s1" using assms(1) s1 hook_recorded_cong [of s1 s d] by (auto simp: same_tables_def)
  from insertHookEvent_taken [OF this i] show ?thesis by simp
qed

lemma only_audit_after:
  assumes "same_tables s s1" and "respond (writeAuditLog q d h out reason e) st b s1 = (r, t)"
  shows "only_audit s t"
  by (rule oaudit.R_trans [OF only_audit_same_tables [OF assms(1)] conjunct2 [OF respond_audit_only [OF assms(2)]]])

lemma insert_then_audit_taken:
  assumes "hook_recorded d s"
    and "respond (tryM (insertHookEvent d src p pl out reason) (\<lambda>_. writeAuditLog q d2 h2 o2 r2 e2)) st b s = (r, t)"
  shows "only_audit s t"
proof -
  obtain x s1 where x: "insertHookEvent d src p pl out reason s = (x, s1)" by (cases "insertHookEvent d src p pl out reason s")
  have s1: "same_tables s s1" using insertHookEvent_taken [OF assms(1) x] by blast
  have "respond (writeAuditLog q d2 h2 o2 r2 e2) st b s1 = (r, t)"
    using assms(2) x by (simp add: respond_def bindM_def tryM_def)
  from only_audit_after [OF s1 this] show ?thesis .
qed

lemma tx_taken_audit:
  assumes "hook_recorded d s" and "tryM (run_tx (bindM (insertHookEvent d sr p pl out reason) f)) k s = (r, t)"
    and "\<And>e s1. k (Inl e) s1 = (r, t) \<Longrightarrow> only_audit s1 t"
  shows "only_audit s t"
proof -
  from assms(2) obtain q s1 where q: "run_tx (bindM (insertHookEvent d sr p pl out reason) f) s = (q, s1)"
    and k1: "k q s1 = (r, t)" by (rule tryM_elim)
  from tx_taken [OF assms(1) q] obtain e where "q = Inl e" "same_tables s s1" by blast
  with k1 assms(3) only_audit_same_tables oaudit.R_trans show ?thesis by blast
qed

text \<open>The lookup of the delivery key changes nothing.\<close>

lemma lookup_delivery:
  assumes "GetHookEventByDeliveryKey d s = (x, s1)"
  shows "same_tables s s1" "hook_recorded d s \<Longrightarrow> hook_recorded d s1"
proof -
  show "same_tables s s1" using keepsD [OF same.keeps_query_row assms [unfolded GetHookEventByDeliveryKey_def]] .
  then show "hook_recorded d s \<Longrightarrow> hook_recorded d s1" using hook_recorded_cong [of s1 s d] by (auto simp: same_tables_def)
qed

lemma route_event_taken:
  assumes "hook_recorded d s" and "route_event c h d src et payload s = (r, t)"
  shows "only_audit s t"
proof -
  note tx = tx_taken_audit [OF assms(1)]
  have resp: "only_audit s1 t" if "respond (writeAuditLog q d2 h2 o2 r2 e2) st b s1 = (r, t)" for q d2 h2 o2 r2 e2 st b s1
    using respond_audit_only [OF that] by blast
  have ret: "only_audit s1 t" if "ret x s1 = (r, t)" for s1 and x :: response
    using that oaudit.R_refl by (simp add: ret_def)
  have n1: "only_audit s t" if "handleNoteEvent c h d src et payload s = (r, t)"
    using that unfolding handleNoteEvent_def Let_def insert_note_event_def
    by (auto split: option.splits if_splits intro: resp ret insert_then_audit_taken [OF assms(1)] elim!: tx)
  have mr: "only_audit s t" if "handleMergeRequest c h d src et payload s = (r, t)"
    using that unfolding handleMergeRequest_def Let_def
    by (auto split: option.splits if_splits intro: resp elim!: tx)
  show ?thesis
    using assms(2) n1 mr insert_then_audit_taken [OF assms(1)]
    unfolding route_event_def Let_def by (auto split: if_splits)
qed

text \<open>Redelivery. Once a delivery key is recorded, delivering it again changes nothing but the audit
  log: not the runs, not the findings, not the merge requests, whichever event, body and processors,
  and whatever fails, even when the duplicate check itself fails.\<close>

theorem redelivery_changes_nothing:
  assumes "hook_recorded (extractDeliveryKey (cd_fresh c) r) s" and "ServeHTTP c h r s = (res, t)"
  shows "only_audit s t"
proof -
  let ?d = "extractDeliveryKey (cd_fresh c) r"
  have resp: "only_audit s1 t" if "respond (writeAuditLog q d2 h2 o2 r2 e2) st b s1 = (res, t)" for q d2 h2 o2 r2 e2 st b s1
    using respond_audit_only [OF that] by blast
  have look: "only_audit s t" if d: "dedup_and_route c h ?d src et body s = (res, t)" for src et body
  proof -
    obtain x s1 where x: "GetHookEventByDeliveryKey ?d s = (x, s1)" by (cases "GetHookEventByDeliveryKey ?d s")
    note s1 = lookup_delivery(1) [OF x] and route = route_event_taken [OF lookup_delivery(2) [OF x assms(1)]]
    have "only_audit s1 t" if "?d \<noteq> []"
      using d that x resp route by (auto simp: dedup_and_route_def tryM_def split: sum.splits if_splits)
    then have "?d \<noteq> [] \<Longrightarrow> only_audit s t" using oaudit.R_trans [OF only_audit_same_tables [OF s1]] by blast
    moreover have "?d = [] \<Longrightarrow> only_audit s t"
      using d route_event_taken [OF assms(1)] by (simp add: dedup_and_route_def)
    ultimately show ?thesis by blast
  qed
  show ?thesis
    using assms(2) resp look unfolding ServeHTTP_def Let_def
    by (cases "rq_body r") (auto split: if_splits)
qed

subsection \<open>Failing commands\<close>

text \<open>Failed commands are rolled back, silently. When a comment command fails, the response is 500 and
  no table has changed: the delivery is not recorded, so GitLab's retry is not taken for a duplicate.
  The audit log has not changed either, so this outcome is the one that leaves no audit entry.\<close>

theorem failed_command_leaves_no_trace:
  assumes "handleNoteEvent c h d src et payload s = (Inr (500, b), t)"
  shows "same_tables s t"
proof -
  have no: "respond m st bb s1 \<noteq> (Inr (500, b), t)" if "st \<noteq> 500" for m st bb s1
    using that by (auto simp: respond_def bindM_def ret_def split: prod.splits sum.splits)
  have "same_tables s t"
    if "tryM (run_tx m) (\<lambda>r. case r of
         Inl e \<Rightarrow> if is_duplicate_key_error e then respond a 200 b1 else ret (500, b2)
       | Inr _ \<Rightarrow> respond a2 200 b3) s = (Inr (500, b), t)" for m :: "unit dbm" and a b1 b2 a2 b3
  proof -
    from that obtain q s1 where q: "run_tx m s = (q, s1)"
      and k: "(case q of Inl e \<Rightarrow> if is_duplicate_key_error e then respond a 200 b1 else ret (500, b2)
        | Inr _ \<Rightarrow> respond a2 200 b3) s1 = (Inr (500, b), t)" by (rule tryM_elim)
    from k no obtain e where "q = Inl e" and "t = s1"
      by (cases q) (auto simp: ret_def split: if_splits)
    with q run_tx_error_same_tables show ?thesis by blast
  qed
  note tx = this
  show ?thesis
    using assms unfolding handleNoteEvent_def Let_def
    by (auto split: option.splits if_splits intro: tx simp: no)
qed

subsection \<open>Concrete requests\<close>

definition sample_codec :: codec where
  "sample_codec = \<lparr>cd_decode = (\<lambda>_. Some (JObject [(''object_kind'', JString ''note''),
       (''object_attributes'', JObject [(''noteable_type'', JString ''MergeRequest''), (''note'', JString ''/ai-review rerun'')])])),
     cd_marshal = (\<lambda>_. []), cd_sha = (\<lambda>_. ''h''), cd_quote = (\<lambda>x. x), cd_fresh = ''u''\<rparr>"

definition sample_handler :: handler where
  "sample_handler = \<lparr>hd_secret = ''s3cret'', hd_run_processor = Some (ProcessEventWithQuerier (\<lambda>_ r. r)),
     hd_command_processor = Some (executeWithQuerier (\<lambda>_. Some []) (\<lambda>_. ''h''))\<rparr>"

definition sample_request :: webhook_request where
  "sample_request = \<lparr>rq_token = ''s3cret'', rq_webhook_uuid = ''dk'', rq_delivery = [], rq_event_uuid = [],
     rq_event = ''Merge Request Hook'', rq_body = Some ''x''\<rparr>"

definition sample_hook_db :: db where
  "sample_hook_db = sample_db\<lparr>hook_events := \<lparr>rows = [zero_hook_event\<lparr>he_id := 1, he_delivery_key := ''dk''\<rparr>], next_id = 2\<rparr>\<rparr>"

theorem unauthenticated_rejected_witness:
  "fst (ServeHTTP sample_codec sample_handler (sample_request\<lparr>rq_token := ''wrong''\<rparr>) sample_db)
     = Inr (401, [(''error'', ''unauthorized'')])"
proof -
  let ?r = "sample_request\<lparr>rq_token := ''wrong''\<rparr>"
  have "hd_secret sample_handler = [] \<or> rq_token ?r \<noteq> hd_secret sample_handler" by code_simp
  from unauthenticated_rejected [OF this, of sample_codec sample_db] show ?thesis
    by (metis prod.collapse)
qed


theorem redelivery_changes_nothing_witness:
  "only_audit sample_hook_db (snd (ServeHTTP sample_codec sample_handler sample_request sample_hook_db))"
proof -
  have 1: "hook_recorded (extractDeliveryKey (cd_fresh sample_codec) sample_request) sample_hook_db" by code_simp
  have 2: "ServeHTTP sample_codec sample_handler sample_request sample_hook_db
      = (fst (ServeHTTP sample_codec sample_handler sample_request sample_hook_db),
         snd (ServeHTTP sample_codec sample_handler sample_request sample_hook_db))" by simp
  show ?thesis by (rule redelivery_changes_nothing [OF 1 2])
qed

theorem failed_command_leaves_no_trace_witness:
  "let r = handleNoteEvent sample_codec sample_handler ''dk9'' ''project'' ''Note Hook'' ''x'' empty_db
   in fst r = Inr (500, [(''error'', ''command execution failed'')]) \<and> same_tables empty_db (snd r)"
proof -
  let ?r = "handleNoteEvent sample_codec sample_handler ''dk9'' ''project'' ''Note Hook'' ''x'' empty_db"
  have f: "fst ?r = Inr (500, [(''error'', ''command execution failed'')])" by code_simp
  then have "?r = (Inr (500, [(''error'', ''command execution failed'')]), snd ?r)" by (metis prod.collapse)
  from failed_command_leaves_no_trace [OF this] f show ?thesis unfolding Let_def by blast
qed

end
