(* ===== verification/Github_Hooks.thy ===== *)
theory Github_Hooks
  imports Hooks_Handler
begin

text \<open>
  GitHub ingress, \<^verbatim>\<open>internal/githubhooks\<close>: a delivery is authenticated by the signature of its body, de-duplicated by its
  delivery key, normalised to the event type of the GitLab side, and recorded and processed in one transaction.
  \<open>hmac\<close> is the hexadecimal form of HMAC-SHA256 under a secret; \<open>decode\<close>, \<open>sha\<close>, \<open>quote\<close> and the generated
  UUID are those of the codec of \<open>Hooks_Handler\<close>.
\<close>

subsection \<open>Normalisation\<close>

record github_payload =
  ghp_action :: string
  ghp_number :: int
  ghp_repository_id :: int
  ghp_repository_full_name :: string
  ghp_repository_html_url :: string
  ghp_title :: string
  ghp_state :: string
  ghp_draft :: bool
  ghp_html_url :: string
  ghp_merged :: bool
  ghp_user_login :: string
  ghp_base_ref :: string
  ghp_head_ref :: string
  ghp_head_sha :: string

text \<open>The other fields of the payload are read for their types only.\<close>

definition github_branch :: "string \<Rightarrow> members \<Rightarrow> (string \<times> string) option" where
  "github_branch k pr = do {
     b \<leftarrow> struct_of k pr;
     ref \<leftarrow> str_of ''ref'' b; sha \<leftarrow> str_of ''sha'' b;
     repo \<leftarrow> struct_of ''repo'' b; _ \<leftarrow> str_of ''html_url'' repo;
     Some (ref, sha)}"

definition decode_github :: "json \<Rightarrow> github_payload option" where
  "decode_github v = do {
     kvs \<leftarrow> struct_value v;
     action \<leftarrow> str_of ''action'' kvs; number \<leftarrow> int_of ''number'' kvs;
     repo \<leftarrow> struct_of ''repository'' kvs;
     rid \<leftarrow> int_of ''id'' repo; name \<leftarrow> str_of ''full_name'' repo; rurl \<leftarrow> str_of ''html_url'' repo;
     pr \<leftarrow> struct_of ''pull_request'' kvs;
     _ \<leftarrow> int_of ''id'' pr; _ \<leftarrow> int_of ''number'' pr;
     title \<leftarrow> str_of ''title'' pr; _ \<leftarrow> str_of ''body'' pr; state \<leftarrow> str_of ''state'' pr;
     draft \<leftarrow> bool_of ''draft'' pr; url \<leftarrow> str_of ''html_url'' pr; merged \<leftarrow> bool_of ''merged'' pr;
     user \<leftarrow> struct_of ''user'' pr; login \<leftarrow> str_of ''login'' user;
     base \<leftarrow> github_branch ''base'' pr; head \<leftarrow> github_branch ''head'' pr;
     Some \<lparr>ghp_action = action, ghp_number = number, ghp_repository_id = rid, ghp_repository_full_name = name,
       ghp_repository_html_url = rurl, ghp_title = title, ghp_state = state, ghp_draft = draft, ghp_html_url = url,
       ghp_merged = merged, ghp_user_login = login, ghp_base_ref = fst base, ghp_head_ref = fst head,
       ghp_head_sha = snd head\<rparr>}"

definition normalizeState :: "string \<Rightarrow> bool \<Rightarrow> string" where
  "normalizeState state merged = (if norm_lower state = ''closed'' \<and> merged then ''merged'' else norm_lower state)"

definition normalizeAction :: "string \<Rightarrow> bool \<Rightarrow> string" where
  "normalizeAction action merged =
     (let a = norm_lower action in
      if a = ''opened'' then ''open''
      else if a = ''reopened'' then ''reopen''
      else if a = ''synchronize'' then ''update''
      else if a = ''closed'' then (if merged then ''merge'' else ''close'')
      else a)"

definition github_computeIdempotencyKey :: "(string \<Rightarrow> string) \<Rightarrow> string \<Rightarrow> int \<Rightarrow> int \<Rightarrow> string \<Rightarrow> bool \<Rightarrow> string \<Rightarrow> string" where
  "github_computeIdempotencyKey sha instanceURL projectID mrIID headSHA deferred triggerType =
     sha (trim_right_set instanceURL ''/'' @ ''|'' @ itoa projectID @ ''|'' @ itoa mrIID @ ''|''
       @ (if deferred then ''deferred'' else headSHA) @ ''|'' @ triggerType)"

definition github_extractInstanceURL :: "string \<Rightarrow> string" where
  "github_extractInstanceURL webURL0 =
     (let webURL = trim_space webURL0 in
      if webURL = [] then []
      else case index_of webURL ''://'' of
        None \<Rightarrow> []
      | Some protoEnd \<Rightarrow>
          (case index_of (drop (protoEnd + 3) webURL) ''/'' of
             None \<Rightarrow> webURL
           | Some slashIdx \<Rightarrow> take (protoEnd + 3 + slashIdx) webURL))"

definition github_scope :: string where
  "github_scope = [CHR 0x7B, CHR 0x22] @ ''platform'' @ [CHR 0x22] @ '':'' @ [CHR 0x22] @ ''github'' @ [CHR 0x22, CHR 0x7D]"

definition github_NormalizeWebhook :: "(string \<Rightarrow> json option) \<Rightarrow> (string \<Rightarrow> string) \<Rightarrow> string \<Rightarrow> string \<Rightarrow> normalized_event option" where
  "github_NormalizeWebhook decode sha payload eventType =
     (case Option.bind (decode payload) decode_github of
        None \<Rightarrow> None
      | Some raw \<Rightarrow>
         (let instanceURL = github_extractInstanceURL (ghp_repository_html_url raw);
              headSHA = trim_space (ghp_head_sha raw);
              deferred = (headSHA = [])
          in Some \<lparr>ev_gitlab_instance_url = instanceURL, ev_project_id = ghp_repository_id raw,
               ev_project_path = trim_space (ghp_repository_full_name raw), ev_mr_iid = ghp_number raw,
               ev_action = normalizeAction (ghp_action raw) (ghp_merged raw), ev_head_sha = headSHA,
               ev_head_sha_deferred = deferred, ev_is_draft = ghp_draft raw, ev_hook_source = ''project'',
               ev_trigger_type = ''webhook'', ev_event_type = trim_space eventType,
               ev_idempotency_key = github_computeIdempotencyKey sha instanceURL (ghp_repository_id raw) (ghp_number raw)
                 headSHA deferred ''webhook'',
               ev_title = trim_space (ghp_title raw), ev_source_branch = trim_space (ghp_head_ref raw),
               ev_target_branch = trim_space (ghp_base_ref raw), ev_author = trim_space (ghp_user_login raw),
               ev_web_url = trim_space (ghp_html_url raw), ev_state = normalizeState (ghp_state raw) (ghp_merged raw),
               ev_scope_json = Some github_scope\<rparr>))"

subsection \<open>Handler\<close>

record github_request =
  ghr_signature :: string
  ghr_delivery :: string
  ghr_event :: string
  ghr_body :: "string option"

record github_handler =
  ghd_secret :: string
  ghd_run_processor :: "(normalized_event \<Rightarrow> int \<Rightarrow> unit dbm) option"

definition verifySignature :: "(string \<Rightarrow> string \<Rightarrow> string) \<Rightarrow> github_handler \<Rightarrow> string \<Rightarrow> string \<Rightarrow> bool" where
  "verifySignature hmac h signature body =
     (if trim_space (ghd_secret h) = [] \<or> trim_space signature = [] then False
      else ''sha256='' @ hmac (ghd_secret h) body = signature)"

definition github_extractDeliveryKey :: "string \<Rightarrow> github_request \<Rightarrow> string" where
  "github_extractDeliveryKey fresh r = (if ghr_delivery r \<noteq> [] then ghr_delivery r else ''synthetic-'' @ fresh)"

definition handlePullRequest :: "codec \<Rightarrow> github_handler \<Rightarrow> string \<Rightarrow> string \<Rightarrow> string \<Rightarrow> response dbm" where
  "handlePullRequest c h deliveryKey eventType payload =
     (let audit = (\<lambda>outcome reason. writeAuditLog (cd_quote c) deliveryKey ''project'' outcome reason eventType) in
      case github_NormalizeWebhook (cd_decode c) (cd_sha c) payload eventType of
        None \<Rightarrow> respond (audit ''rejected'' ''normalization_error'') 400 [(''error'', ''failed to normalize payload'')]
      | Some ev \<Rightarrow>
         (let parsed = \<lparr>pe_event_type = ev_event_type ev, pe_action = ev_action ev, pe_project_id = ev_project_id ev,
                pe_mr_iid = ev_mr_iid ev, pe_head_sha = ev_head_sha ev\<rparr>
          in tryM (run_tx (bindM (insertHookEvent deliveryKey ''project'' parsed payload ''verified'' []) (\<lambda>hookEventID.
               case ghd_run_processor h of None \<Rightarrow> ret () | Some rp \<Rightarrow> rp ev hookEventID))) (\<lambda>r. case r of
               Inl e \<Rightarrow> if is_duplicate_key_error e
                 then respond (audit ''deduplicated'' []) 200 [(''status'', ''duplicate'')]
                 else respond (audit ''rejected'' ''db_error'') 500 [(''error'', ''internal error'')]
             | Inr _ \<Rightarrow> respond (audit ''verified'' []) 200 [(''status'', ''accepted'')])))"

definition github_route :: "codec \<Rightarrow> github_handler \<Rightarrow> string \<Rightarrow> string \<Rightarrow> string \<Rightarrow> response dbm" where
  "github_route c h deliveryKey eventType payload =
     (if eventType \<noteq> ''pull_request'' then
        respond (tryM (insertHookEvent deliveryKey ''project''
            \<lparr>pe_event_type = eventType, pe_action = [], pe_project_id = 0, pe_mr_iid = 0, pe_head_sha = []\<rparr> payload ''verified'' []) (\<lambda>_.
          writeAuditLog (cd_quote c) deliveryKey ''project'' ''verified'' [] eventType))
          200 [(''status'', ''ignored''), (''reason'', ''unsupported_event'')]
      else handlePullRequest c h deliveryKey eventType payload)"

definition github_dedup_and_route :: "codec \<Rightarrow> github_handler \<Rightarrow> string \<Rightarrow> string \<Rightarrow> string \<Rightarrow> response dbm" where
  "github_dedup_and_route c h deliveryKey eventType body =
     (if deliveryKey \<noteq> [] then
        tryM (GetHookEventByDeliveryKey deliveryKey) (\<lambda>e. case e of
          Inr existing \<Rightarrow> if he_id existing > 0
            then respond (writeAuditLog (cd_quote c) deliveryKey ''project'' ''deduplicated'' [] eventType)
                   200 [(''status'', ''duplicate'')]
            else github_route c h deliveryKey eventType body
        | Inl _ \<Rightarrow> github_route c h deliveryKey eventType body)
      else github_route c h deliveryKey eventType body)"

definition github_ServeHTTP :: "(string \<Rightarrow> string \<Rightarrow> string) \<Rightarrow> codec \<Rightarrow> github_handler \<Rightarrow> github_request \<Rightarrow> response dbm" where
  "github_ServeHTTP hmac c h r =
     (let deliveryKey = github_extractDeliveryKey (cd_fresh c) r;
          eventType = trim_space (ghr_event r);
          reject = (\<lambda>reason. writeAuditLog (cd_quote c) deliveryKey ''project'' ''rejected'' reason eventType)
      in case ghr_body r of
           None \<Rightarrow> respond (reject ''body_read_error'') 400 [(''error'', ''failed to read body'')]
         | Some body0 \<Rightarrow>
            (let body = take (maxPayloadBytes + 1) body0 in
             if length body > maxPayloadBytes then
               respond (reject ''payload_too_large'') 400 [(''error'', ''payload too large'')]
             else if \<not> verifySignature hmac h (ghr_signature r) body then
               respond (reject ''invalid_signature'') 401 [(''error'', ''unauthorized'')]
             else if cd_decode c body = None then
               respond (reject ''malformed_json'') 400 [(''error'', ''malformed JSON'')]
             else github_dedup_and_route c h deliveryKey eventType body))"

subsection \<open>Shared with the GitLab side\<close>

text \<open>Both platforms form the idempotency key of an event in the same way, so a key never mixes them up as long as the
  instances differ.\<close>

lemma github_key_eq:
  "github_computeIdempotencyKey sha instanceURL projectID mrIID headSHA deferred triggerType =
     computeIdempotencyKey sha instanceURL projectID mrIID headSHA deferred triggerType []"
  by (simp add: github_computeIdempotencyKey_def computeIdempotencyKey_def idempotency_input_def sha_component_def)

lemma github_url_eq: "github_extractInstanceURL u = extractInstanceURL (trim_space u)"
  by (simp add: github_extractInstanceURL_def extractInstanceURL_def Let_def)

subsection \<open>Authentication\<close>

text \<open>C38 (forged GitHub deliveries). A delivery that changes anything but the audit log was signed: its body was read in
  full and the signature header is that of the body under a secret that is not blank. Every other delivery is
  answered with an error status.\<close>

theorem github_forged_rejected:
  assumes "github_ServeHTTP hmac c h r s = (res, t)"
    and "\<not> (\<exists>body. ghr_body r = Some body \<and> length body \<le> maxPayloadBytes \<and> trim_space (ghd_secret h) \<noteq> []
      \<and> ghr_signature r = ''sha256='' @ hmac (ghd_secret h) body)"
  shows "only_audit s t \<and> (\<exists>status msg. res = Inr (status, [(''error'', msg)]) \<and> status \<in> {400, 401})"
proof -
  have reject: "only_audit s t \<and> res = Inr (st, [(''error'', msg)])"
    if "respond (writeAuditLog q d src out reason e) st [(''error'', msg)] s = (res, t)" for q d src out reason e st msg
    using respond_audit_only [OF that] by blast
  show ?thesis
  proof (cases "ghr_body r")
    case None
    then show ?thesis using assms(1) reject by (fastforce simp: github_ServeHTTP_def Let_def)
  next
    case (Some body)
    show ?thesis
    proof (cases "length body \<le> maxPayloadBytes")
      case True
      with Some assms(2) have "\<not> verifySignature hmac h (ghr_signature r) body" by (auto simp: verifySignature_def)
      with True Some show ?thesis using assms(1) reject by (fastforce simp: github_ServeHTTP_def Let_def)
    next
      case False
      with Some show ?thesis using assms(1) reject by (fastforce simp: github_ServeHTTP_def Let_def)
    qed
  qed
qed

subsection \<open>Events\<close>

text \<open>A pull request event has four outcomes: a rejected payload, a duplicate and an internal error each leave every table
  but the audit log as it was; the event is accepted only if it is recorded.\<close>

theorem pull_request_event_outcomes:
  assumes "handlePullRequest c h d et payload s = (res, t)"
    and "\<And>rp ev i. ghd_run_processor h = Some rp \<Longrightarrow> keeps (keeps_recorded d) (rp ev i)"
  shows "(res = Inr (400, [(''error'', ''failed to normalize payload'')]) \<and> only_audit s t)
    \<or> (res = Inr (200, [(''status'', ''duplicate'')]) \<and> only_audit s t)
    \<or> (res = Inr (500, [(''error'', ''internal error'')]) \<and> only_audit s t)
    \<or> (res = Inr (200, [(''status'', ''accepted'')]) \<and> hook_recorded d t)"
proof (cases "github_NormalizeWebhook (cd_decode c) (cd_sha c) payload et")
  case None
  with assms(1) show ?thesis by (simp add: handlePullRequest_def respond_audit_only)
next
  case (Some ev)
  have k: "keeps (keeps_recorded d) (case ghd_run_processor h of None \<Rightarrow> ret () | Some rp \<Rightarrow> rp ev i)" for i
    using assms(2) by (cases "ghd_run_processor h") (simp_all add: krec.keeps_ret)
  show ?thesis using recorded_event_outcomes [OF assms(1) [unfolded handlePullRequest_def Some Let_def option.case] k] by blast
qed

lemma github_route_taken:
  assumes "hook_recorded d s" and "github_route c h d et payload s = (r, t)"
  shows "only_audit s t"
proof -
  have resp: "only_audit s1 t" if "respond (writeAuditLog q d2 h2 o2 r2 e2) st b s1 = (r, t)" for q d2 h2 o2 r2 e2 st b s1
    using respond_audit_only [OF that] by blast
  have "only_audit s t" if "handlePullRequest c h d et payload s = (r, t)"
    using that unfolding handlePullRequest_def Let_def
    by (auto split: option.splits if_splits intro: resp elim!: tx_taken_audit [OF assms(1)])
  then show ?thesis using assms(2) insert_then_audit_taken [OF assms(1)]
    unfolding github_route_def by (auto split: if_splits)
qed

text \<open>GitHub redelivery. Once a delivery key is recorded, delivering it again changes nothing but the audit log,
  whatever event, body and run processor, and whatever fails.\<close>

theorem github_redelivery_changes_nothing:
  assumes "hook_recorded (github_extractDeliveryKey (cd_fresh c) r) s" and "github_ServeHTTP hmac c h r s = (res, t)"
  shows "only_audit s t"
proof -
  let ?d = "github_extractDeliveryKey (cd_fresh c) r"
  have resp: "only_audit s1 t" if "respond (writeAuditLog q d2 h2 o2 r2 e2) st b s1 = (res, t)" for q d2 h2 o2 r2 e2 st b s1
    using respond_audit_only [OF that] by blast
  have look: "only_audit s t" if d: "github_dedup_and_route c h ?d et body s = (res, t)" for et body
  proof (cases "?d = []")
    case True
    then show ?thesis using d github_route_taken [OF assms(1)] by (simp add: github_dedup_and_route_def)
  next
    case False
    obtain x s1 where x: "GetHookEventByDeliveryKey ?d s = (x, s1)" by (cases "GetHookEventByDeliveryKey ?d s")
    note s1 = lookup_delivery(1) [OF x] and route = github_route_taken [OF lookup_delivery(2) [OF x assms(1)]]
    have "only_audit s1 t"
      using d False x resp route by (auto simp: github_dedup_and_route_def tryM_def split: sum.splits if_splits)
    then show ?thesis by (rule oaudit.R_trans [OF only_audit_same_tables [OF s1]])
  qed
  show ?thesis
    using assms(2) resp look unfolding github_ServeHTTP_def Let_def by (cases "ghr_body r") (auto split: if_splits)
qed

subsection \<open>Concrete deliveries\<close>

definition sample_pull_request :: json where
  "sample_pull_request = JObject [(''action'', JString ''closed''), (''number'', JNumber ''7''),
     (''repository'', JObject [(''id'', JNumber ''3''), (''full_name'', JString ''g/p''), (''html_url'', JString ''https://h/g/p'')]),
     (''pull_request'', JObject [(''merged'', JBool True), (''state'', JString ''closed''), (''head'', JObject [(''sha'', JString ''abc'')])])]"

definition github_codec :: codec where
  "github_codec = \<lparr>cd_decode = (\<lambda>_. Some sample_pull_request), cd_marshal = (\<lambda>_. []), cd_sha = (\<lambda>t. t), cd_quote = (\<lambda>x. x), cd_fresh = ''u''\<rparr>"

definition sample_hmac :: "string \<Rightarrow> string \<Rightarrow> string" where
  "sample_hmac secret body = secret @ body"

definition github_sample_handler :: github_handler where
  "github_sample_handler = \<lparr>ghd_secret = ''k'', ghd_run_processor = Some (ProcessEventWithQuerier (\<lambda>_ r. r))\<rparr>"

definition github_sample_request :: github_request where
  "github_sample_request = \<lparr>ghr_signature = ''sha256=kx'', ghr_delivery = ''dk'', ghr_event = ''pull_request'', ghr_body = Some ''x''\<rparr>"

lemma pull_request_example:
  "map_option (\<lambda>ev. (ev_action ev, ev_state ev, ev_idempotency_key ev))
     (github_NormalizeWebhook (cd_decode github_codec) (cd_sha github_codec) ''x'' ''pull_request'')
   = Some (''merge'', ''merged'', ''https://h|3|7|abc|webhook'')"
  by code_simp

theorem github_forged_rejected_witness:
  "let r = github_ServeHTTP sample_hmac github_codec github_sample_handler (github_sample_request\<lparr>ghr_signature := ''sha256=zz''\<rparr>) sample_db
   in only_audit sample_db (snd r)"
proof -
  let ?q = "github_sample_request\<lparr>ghr_signature := ''sha256=zz''\<rparr>"
  let ?r = "github_ServeHTTP sample_hmac github_codec github_sample_handler ?q sample_db"
  have 1: "?r = (fst ?r, snd ?r)" by simp
  have 2: "\<not> (\<exists>body. ghr_body ?q = Some body \<and> length body \<le> maxPayloadBytes \<and> trim_space (ghd_secret github_sample_handler) \<noteq> []
      \<and> ghr_signature ?q = ''sha256='' @ sample_hmac (ghd_secret github_sample_handler) body)"
    by (simp add: github_sample_request_def github_sample_handler_def sample_hmac_def)
  show ?thesis unfolding Let_def using github_forged_rejected [OF 1 2] by blast
qed

theorem github_redelivery_changes_nothing_witness:
  "only_audit sample_hook_db (snd (github_ServeHTTP sample_hmac github_codec github_sample_handler github_sample_request sample_hook_db))"
proof -
  let ?r = "github_ServeHTTP sample_hmac github_codec github_sample_handler github_sample_request sample_hook_db"
  have 1: "hook_recorded (github_extractDeliveryKey (cd_fresh github_codec) github_sample_request) sample_hook_db" by code_simp
  have 2: "?r = (fst ?r, snd ?r)" by simp
  show ?thesis by (rule github_redelivery_changes_nothing [OF 1 2])
qed

end
