(* ===== verification/Review_Request.thy ===== *)
theory Review_Request
  imports Complex_Main Go_Strings
begin

text \<open>
  The data of \<^verbatim>\<open>internal/context/assembler.go\<close> that the assembler, the rules loader, the changed-line index and the
  engine share: the review request, its changes and hunks, the coverage report, the trusted rules and the limits of a
  policy, with \<^verbatim>\<open>gitlab.MergeRequestDiff\<close>. A Go map that is only looked up by key is an association list with
  distinct keys; the JSON tags play no role.
\<close>

record merge_request_diff =
  md_old_path :: string
  md_new_path :: string
  md_diff :: string
  md_a_mode :: string
  md_b_mode :: string
  md_new_file :: bool
  md_renamed_file :: bool
  md_deleted_file :: bool
  md_generated_file :: bool
  md_collapsed :: bool
  md_too_large :: bool

record project_context =
  pjc_project_id :: int
  pjc_full_path :: string
  pjc_default_branch :: string

record merge_request_context =
  mc_iid :: int
  mc_title :: string
  mc_description :: string
  mc_author :: string

record version_context =
  vc_base_sha :: string
  vc_start_sha :: string
  vc_head_sha :: string
  vc_patch_id_sha :: string

record trusted_rules =
  tr_platform_policy :: string
  tr_project_policy :: string
  tr_review_markdown :: string
  tr_directory_reviews :: "(string \<times> string) list"
  tr_rules_digest :: string

record hunk =
  hk_old_start :: int
  hk_old_lines :: int
  hk_new_start :: int
  hk_new_lines :: int
  hk_patch :: string
  hk_context_before :: "string list"
  hk_context_after :: "string list"
  hk_changed_lines :: int
  hk_truncated :: bool

record related_file =
  rlf_path :: string
  rlf_relation :: string
  rlf_snippet :: string
  rlf_relevance :: string

record change =
  ch_path :: string
  ch_old_path :: string
  ch_review :: string
  ch_status :: string
  ch_generated :: bool
  ch_too_large :: bool
  ch_collapsed :: bool
  ch_truncated :: bool
  ch_changed_lines :: int
  ch_hunks :: "hunk list"
  ch_previously_reviewed :: bool
  ch_related_files :: "related_file list"

record historical_finding =
  hf_semantic_fingerprint :: string
  hf_title :: string
  hf_path :: string
  hf_body_markdown :: string
  hf_discussion_id :: string
  hf_discussion_type :: string
  hf_resolved :: bool

record incremental_state =
  is_previous_head_sha :: string
  is_previous_reviewed_paths :: "string list"
  is_is_incremental :: bool

record review_request =
  rvq_schema_version :: string
  rvq_review_run_id :: string
  rvq_project :: project_context
  rvq_merge_request :: merge_request_context
  rvq_version :: version_context
  rvq_rules :: trusted_rules
  rvq_changes :: "change list"
  rvq_historical_context :: "historical_finding list"
  rvq_incremental_state :: incremental_state

record excluded_file =
  xf_path :: string
  xf_reason :: string

record skipped_scope =
  ss_path :: string
  ss_reason :: string
  ss_changed_lines :: int

record coverage_report =
  cr_reviewed_paths :: "string list"
  cr_skipped_files :: int
  cr_skipped_lines :: int
  cr_summary :: string
  cr_mode :: string
  cr_total_changed_lines :: int
  cr_reviewed_changed_lines :: int
  cr_hunks_total :: int
  cr_hunks_in_prompt :: int
  cr_ratio :: rat
  cr_skipped :: "skipped_scope list"

record policy_settings =
  ps_include_paths :: "string list"
  ps_exclude_paths :: "string list"
  ps_context_lines_before :: int
  ps_context_lines_after :: int
  ps_max_changed_lines :: int
  ps_max_files :: int

record pr_size_strategy =
  sz_category :: string
  sz_max_context_lines :: int
  sz_prioritize_files :: bool
  sz_chunk_review :: bool
  sz_focus_areas :: "string list"

record assemble_input =
  ai_review_run_id :: int
  ai_project :: project_context
  ai_merge_request :: merge_request_context
  ai_version :: version_context
  ai_rules :: trusted_rules
  ai_settings :: policy_settings
  ai_diffs :: "merge_request_diff list"
  ai_historical_context :: "historical_finding list"
  ai_incremental_state :: incremental_state

record assembly_result =
  ar_request :: review_request
  ar_excluded :: "excluded_file list"
  ar_truncated :: bool
  ar_total_changed_lines :: int
  ar_mode :: string
  ar_coverage :: coverage_report
  ar_size_strategy :: pr_size_strategy

subsection \<open>Zero values\<close>

definition zero_change :: change where
  "zero_change = \<lparr>ch_path = [], ch_old_path = [], ch_review = [], ch_status = [], ch_generated = False, ch_too_large = False,
     ch_collapsed = False, ch_truncated = False, ch_changed_lines = 0, ch_hunks = [], ch_previously_reviewed = False,
     ch_related_files = []\<rparr>"

definition zero_rules :: trusted_rules where
  "zero_rules = \<lparr>tr_platform_policy = [], tr_project_policy = [], tr_review_markdown = [], tr_directory_reviews = [],
     tr_rules_digest = []\<rparr>"

definition zero_version :: version_context where
  "zero_version = \<lparr>vc_base_sha = [], vc_start_sha = [], vc_head_sha = [], vc_patch_id_sha = []\<rparr>"

definition zero_request :: review_request where
  "zero_request = \<lparr>rvq_schema_version = [], rvq_review_run_id = [],
     rvq_project = \<lparr>pjc_project_id = 0, pjc_full_path = [], pjc_default_branch = []\<rparr>,
     rvq_merge_request = \<lparr>mc_iid = 0, mc_title = [], mc_description = [], mc_author = []\<rparr>,
     rvq_version = zero_version, rvq_rules = zero_rules, rvq_changes = [], rvq_historical_context = [],
     rvq_incremental_state = \<lparr>is_previous_head_sha = [], is_previous_reviewed_paths = [], is_is_incremental = False\<rparr>\<rparr>"

definition zero_coverage :: coverage_report where
  "zero_coverage = \<lparr>cr_reviewed_paths = [], cr_skipped_files = 0, cr_skipped_lines = 0, cr_summary = [], cr_mode = [],
     cr_total_changed_lines = 0, cr_reviewed_changed_lines = 0, cr_hunks_total = 0, cr_hunks_in_prompt = 0, cr_ratio = 0,
     cr_skipped = []\<rparr>"

subsection \<open>Paths\<close>

text \<open>\<^verbatim>\<open>normalizePath\<close> of the assembler.\<close>

definition context_normalizePath :: "string \<Rightarrow> string" where
  "context_normalizePath v = trim_prefix (replace_all (trim_space v) [CHR 0x5C] ''/'') ''./''"

text \<open>\<^verbatim>\<open>strings.LastIndex(p, "/")\<close>: the parent directory of a path, when the slash is not at its start.\<close>

definition parent_dir :: "string \<Rightarrow> string option" where
  "parent_dir p = (case dropWhile (\<lambda>c. c \<noteq> CHR ''/'') (rev p) of
     [] \<Rightarrow> None | _ # r \<Rightarrow> if r = [] then None else Some (rev r))"

lemma parent_dir_length: "parent_dir p = Some d \<Longrightarrow> length d < length p"
proof -
  assume "parent_dir p = Some d"
  then obtain x r where r: "dropWhile (\<lambda>c. c \<noteq> CHR ''/'') (rev p) = x # r" "d = rev r"
    by (auto simp: parent_dir_def split: list.splits if_splits)
  have "length (x # r) \<le> length (rev p)" by (metis r(1) length_dropWhile_le)
  then show ?thesis by (simp add: r(2))
qed

text \<open>The directories a path is looked up in, the nearest first.\<close>

function ancestors :: "string \<Rightarrow> string list" where
  "ancestors p = (case parent_dir p of None \<Rightarrow> [] | Some d \<Rightarrow> d # ancestors d)"
  by pat_completeness auto
termination
  by (relation "measure length") (auto dest: parent_dir_length)

declare ancestors.simps [simp del]

fun first_found :: "('k \<times> 'v) list \<Rightarrow> 'k list \<Rightarrow> 'v option" where
  "first_found m [] = None"
| "first_found m (k # ks) = (case map_of m k of Some v \<Rightarrow> Some v | None \<Rightarrow> first_found m ks)"

text \<open>\<^verbatim>\<open>TrustedRules.ReviewForPath\<close>.\<close>

definition ReviewForPath :: "trusted_rules \<Rightarrow> string \<Rightarrow> string" where
  "ReviewForPath t filePath =
     (if tr_directory_reviews t = [] then tr_review_markdown t
      else case first_found (tr_directory_reviews t) (ancestors (context_normalizePath filePath)) of
        Some review \<Rightarrow> review
      | None \<Rightarrow> tr_review_markdown t)"

end
