(* ===== verification/Diff_Index.thy ===== *)
theory Diff_Index
  imports Review_Request Go_Json
begin

text \<open>
  The data of a review and the changed-line index: \<^verbatim>\<open>internal/reviewcore/\<close>\<^verbatim>\<open>finding.go\<close>,
  \<^verbatim>\<open>location.go\<close>, \<^verbatim>\<open>target.go\<close>, \<^verbatim>\<open>artifact.go\<close>, \<^verbatim>\<open>bundle.go\<close> and \<^verbatim>\<open>diffindex.go\<close>. A \<^verbatim>\<open>map[int]bool\<close> that is only
  ever set is the list of its keys.
\<close>

subsection \<open>Data\<close>

record canonical_location =
  cl_path :: string
  cl_side :: string
  cl_start_line :: int
  cl_end_line :: int
  cl_snippet :: string
  cl_platform_metadata :: string

record finding_identity =
  fi_category :: string
  fi_normalized_claim :: string
  fi_evidence_fingerprint :: string
  fi_standards :: "string list"
  fi_location :: canonical_location

record core_finding =
  cf_category :: string
  cf_severity :: string
  cf_title :: string
  cf_body :: string
  cf_claim :: string
  cf_confidence :: rat
  cf_identity :: finding_identity

record review_target =
  rt_platform :: string
  rt_url :: string
  rt_repository :: string
  rt_project_id :: int
  rt_change_number :: int
  rt_base_url :: string

record reviewer_artifact =
  ra_reviewer_id :: string
  ra_reviewer_kind :: string
  ra_target :: review_target
  ra_summary :: string
  ra_findings :: "core_finding list"

subsection \<open>The index\<close>

datatype location_verdict = LocationUnknown | LocationInDiff | LocationOutOfDiff

type_synonym line_span = "int \<times> int"

record file_line_index =
  fx_old_lines :: "int list"
  fx_new_lines :: "int list"
  fx_anchors :: "int list"
  fx_old_spans :: "line_span list"
  fx_new_spans :: "line_span list"
  fx_partial_old :: "line_span list"
  fx_partial_new :: "line_span list"

definition empty_index :: file_line_index where
  "empty_index = \<lparr>fx_old_lines = [], fx_new_lines = [], fx_anchors = [], fx_old_spans = [],
     fx_new_spans = [], fx_partial_old = [], fx_partial_new = []\<rparr>"

definition maxInt :: "int \<Rightarrow> int \<Rightarrow> int" where
  "maxInt l r = (if l > r then l else r)"

text \<open>\<^verbatim>\<open>strconv.Atoi\<close>: \<^verbatim>\<open>int\<close> has 64 bits.\<close>

definition header_number :: "string \<Rightarrow> int option" where
  "header_number f = (let s = trim_left_set f ''-+'' in
     parse_int64 (case index_of s '','' of None \<Rightarrow> s | Some i \<Rightarrow> take i s))"

definition parseHunkHeader :: "string \<Rightarrow> (int \<times> int) option" where
  "parseHunkHeader header =
     (case Go_Strings.fields header of
        f0 # f1 # f2 # _ \<Rightarrow>
          if \<not> has_prefix f1 ''-'' \<or> \<not> has_prefix f2 ''+'' then None
          else (case (header_number f1, header_number f2) of
              (Some a, Some b) \<Rightarrow> Some (a, b) | _ \<Rightarrow> None)
      | _ \<Rightarrow> None)"

text \<open>The body of the loop over the lines of a patch; \<open>ns\<close> is the hunk's new start.\<close>

definition set_anchor :: "int \<Rightarrow> int \<Rightarrow> file_line_index \<Rightarrow> file_line_index" where
  "set_anchor ns newN f =
     f\<lparr>fx_anchors := newN # (if newN - 1 \<ge> ns then (newN - 1) # fx_anchors f else fx_anchors f)\<rparr>"

fun scan_lines :: "int \<Rightarrow> int \<Rightarrow> int \<Rightarrow> bool \<Rightarrow> file_line_index \<Rightarrow> string list \<Rightarrow> file_line_index" where
  "scan_lines ns oldN newN pending f [] = (if pending then set_anchor ns newN f else f)"
| "scan_lines ns oldN newN pending f (l # ls) =
     (case l of
        [] \<Rightarrow> scan_lines ns oldN newN pending f ls
      | c # _ \<Rightarrow>
          if c = CHR 0x5C then scan_lines ns oldN newN pending f ls
          else if c = CHR ''-'' then
            scan_lines ns (oldN + 1) newN True (f\<lparr>fx_old_lines := oldN # fx_old_lines f\<rparr>) ls
          else if c = CHR ''+'' then
            scan_lines ns oldN (newN + 1) False (f\<lparr>fx_new_lines := newN # fx_new_lines f\<rparr>) ls
          else
            scan_lines ns (oldN + 1) (newN + 1) False (if pending then set_anchor ns newN f else f) ls)"

definition indexHunk :: "file_line_index \<Rightarrow> hunk \<Rightarrow> file_line_index" where
  "indexHunk f h =
     (let oldSpan = (hk_old_start h, hk_old_start h + maxInt (hk_old_lines h) 1 - 1);
          newSpan = (hk_new_start h, hk_new_start h + maxInt (hk_new_lines h) 1 - 1)
      in if hk_truncated h then
           f\<lparr>fx_partial_old := fx_partial_old f @ [oldSpan], fx_partial_new := fx_partial_new f @ [newSpan]\<rparr>
         else
           (let f1 = f\<lparr>fx_old_spans := fx_old_spans f @ [oldSpan], fx_new_spans := fx_new_spans f @ [newSpan]\<rparr>;
                lines = split_char (CHR 0x0A) (hk_patch h)
            in case lines of
                 l0 # ls \<Rightarrow>
                   if has_prefix l0 ''@@'' then
                     (case parseHunkHeader l0 of
                        Some (a, b) \<Rightarrow> scan_lines (hk_new_start h) a b False f1 ls
                      | None \<Rightarrow> scan_lines (hk_new_start h) (hk_old_start h) (hk_new_start h) False f1 ls)
                   else scan_lines (hk_new_start h) (hk_old_start h) (hk_new_start h) False f1 lines
               | [] \<Rightarrow> f1))"

text \<open>The map from paths to files: later changes overwrite earlier ones.\<close>

definition change_paths :: "change \<Rightarrow> string list" where
  "change_paths c = filter (\<lambda>p. p \<noteq> []) [trim_space (ch_path c), trim_space (ch_old_path c)]"

fun buildChangedLineIndex :: "change list \<Rightarrow> (string \<rightharpoonup> file_line_index) \<Rightarrow> (string \<rightharpoonup> file_line_index)" where
  "buildChangedLineIndex [] idx = idx"
| "buildChangedLineIndex (c # cs) idx =
     (if ch_hunks c = [] then buildChangedLineIndex cs idx
      else let f = foldl indexHunk empty_index (ch_hunks c) in
        buildChangedLineIndex cs (foldl (\<lambda>m p. m(p \<mapsto> f)) idx (change_paths c)))"

definition withinSpans :: "line_span list \<Rightarrow> int \<Rightarrow> int \<Rightarrow> bool" where
  "withinSpans spans start stop \<longleftrightarrow> list_ex (\<lambda>(a, b). start \<ge> a \<and> stop \<le> b) spans"

definition verify :: "(string \<rightharpoonup> file_line_index) \<Rightarrow> canonical_location \<Rightarrow> location_verdict" where
  "verify idx loc =
     (let path = trim_space (cl_path loc) in
      if path = [] \<or> cl_start_line loc \<le> 0 then LocationUnknown
      else case idx path of
        None \<Rightarrow> LocationUnknown
      | Some f \<Rightarrow>
          (let line = cl_start_line loc; last = maxInt line (cl_end_line loc) in
           if cl_side loc = ''old'' then
             (if line \<in> set (fx_old_lines f) \<and> withinSpans (fx_old_spans f) line last then LocationInDiff
              else if withinSpans (fx_partial_old f) line last then LocationInDiff
              else LocationOutOfDiff)
           else
             (if (line \<in> set (fx_new_lines f) \<or> line \<in> set (fx_anchors f))
                  \<and> withinSpans (fx_new_spans f) line last then LocationInDiff
              else if withinSpans (fx_partial_new f) line last then LocationInDiff
              else LocationOutOfDiff)))"

subsection \<open>The reference: numbering the lines of a hunk\<close>

text \<open>What the loop computes, stated on positions: the line at position \<open>k\<close> of a patch has on a side the
  number of the start plus the lines before it that exist on that side.\<close>

definition skipped :: "string \<Rightarrow> bool" where
  "skipped l \<longleftrightarrow> l = [] \<or> hd l = CHR 0x5C"

definition removed :: "string \<Rightarrow> bool" where
  "removed l \<longleftrightarrow> l \<noteq> [] \<and> hd l = CHR ''-''"

definition added :: "string \<Rightarrow> bool" where
  "added l \<longleftrightarrow> l \<noteq> [] \<and> hd l = CHR ''+''"

definition on_old :: "string \<Rightarrow> bool" where
  "on_old l \<longleftrightarrow> \<not> skipped l \<and> \<not> added l"

definition on_new :: "string \<Rightarrow> bool" where
  "on_new l \<longleftrightarrow> \<not> skipped l \<and> \<not> removed l"

definition number_at :: "(string \<Rightarrow> bool) \<Rightarrow> int \<Rightarrow> string list \<Rightarrow> nat \<Rightarrow> int" where
  "number_at side start ls k = start + int (length (filter side (take k ls)))"

definition added_lines :: "int \<Rightarrow> string list \<Rightarrow> int set" where
  "added_lines start ls = {number_at on_new start ls k | k. k < length ls \<and> added (ls ! k)}"

definition removed_lines :: "int \<Rightarrow> string list \<Rightarrow> int set" where
  "removed_lines start ls = {number_at on_old start ls k | k. k < length ls \<and> removed (ls ! k)}"

text \<open>A deletion is pure when the next line that counts is not an added one but a context line or the
  end of the hunk; its anchors are the lines around the gap.\<close>

definition gap :: "string list \<Rightarrow> bool" where
  "gap ls \<longleftrightarrow> (case filter (\<lambda>l. \<not> skipped l) ls of [] \<Rightarrow> True | l # _ \<Rightarrow> on_old l \<and> on_new l)"

definition around :: "int \<Rightarrow> int \<Rightarrow> int set" where
  "around ns n = {n} \<union> {m. m = n - 1 \<and> m \<ge> ns}"

definition deletion_anchors :: "int \<Rightarrow> int \<Rightarrow> string list \<Rightarrow> int set" where
  "deletion_anchors ns start ls =
     (\<Union>k \<in> {k. k < length ls \<and> removed (ls ! k) \<and> gap (drop (Suc k) ls)}. around ns (number_at on_new start ls k))"

lemmas line_kinds = skipped_def removed_def added_def on_old_def on_new_def

lemma number_at_Nil_pos [simp]: "number_at side start ls 0 = start"
  by (simp add: number_at_def)

lemma number_at_Cons [simp]:
  "number_at side start (l # ls) (Suc k) = number_at side (if side l then start + 1 else start) ls k"
  by (simp add: number_at_def)

lemma added_lines_Nil [simp]: "added_lines n [] = {}"
  by (simp add: added_lines_def)

lemma removed_lines_Nil [simp]: "removed_lines n [] = {}"
  by (simp add: removed_lines_def)

lemma deletion_anchors_Nil [simp]: "deletion_anchors ns n [] = {}"
  by (simp add: deletion_anchors_def)

lemma positions_Cons:
  "{f k | k. k < length (l # ls) \<and> P k}
     = (if P 0 then {f 0} else {}) \<union> {f (Suc k) | k. k < length ls \<and> P (Suc k)}"
  using less_Suc_eq_0_disj by auto

lemma added_lines_Cons [simp]:
  "added_lines n (l # ls) =
     (if added l then {n} else {}) \<union> added_lines (if on_new l then n + 1 else n) ls"
  unfolding added_lines_def positions_Cons by simp

lemma removed_lines_Cons [simp]:
  "removed_lines n (l # ls) =
     (if removed l then {n} else {}) \<union> removed_lines (if on_old l then n + 1 else n) ls"
  unfolding removed_lines_def positions_Cons by simp

lemma deletion_anchors_Cons [simp]:
  "deletion_anchors ns n (l # ls) =
     (if removed l \<and> gap ls then around ns n else {})
       \<union> deletion_anchors ns (if on_new l then n + 1 else n) ls"
proof -
  have "{k. k < length (l # ls) \<and> removed ((l # ls) ! k) \<and> gap (drop (Suc k) (l # ls))}
      = (if removed l \<and> gap ls then {0} else {})
        \<union> Suc ` {k. k < length ls \<and> removed (ls ! k) \<and> gap (drop (Suc k) ls)}"
    using less_Suc_eq_0_disj by auto
  then show ?thesis
    unfolding deletion_anchors_def by (simp add: UN_Un)
qed

lemma gap_Nil [simp]: "gap []"
  by (simp add: gap_def)

lemma gap_Cons [simp]: "gap (l # ls) \<longleftrightarrow> (if skipped l then gap ls else on_old l \<and> on_new l)"
  by (simp add: gap_def)

subsection \<open>The loop computes the reference\<close>

lemma set_anchor_anchors [simp]:
  "set (fx_anchors (set_anchor ns n f)) = set (fx_anchors f) \<union> around ns n"
  by (auto simp: set_anchor_def around_def)

lemma set_anchor_frame [simp]:
  "fx_new_lines (set_anchor ns n f) = fx_new_lines f"
  "fx_old_lines (set_anchor ns n f) = fx_old_lines f"
  "fx_old_spans (set_anchor ns n f) = fx_old_spans f"
  "fx_new_spans (set_anchor ns n f) = fx_new_spans f"
  "fx_partial_old (set_anchor ns n f) = fx_partial_old f"
  "fx_partial_new (set_anchor ns n f) = fx_partial_new f"
  by (simp_all add: set_anchor_def)

lemma scan_lines_new:
  "set (fx_new_lines (scan_lines ns a n p f ls)) = set (fx_new_lines f) \<union> added_lines n ls"
  by (induction ls arbitrary: a n p f) (auto simp: line_kinds split: list.splits)

lemma scan_lines_old:
  "set (fx_old_lines (scan_lines ns a n p f ls)) = set (fx_old_lines f) \<union> removed_lines a ls"
  by (induction ls arbitrary: a n p f) (auto simp: line_kinds split: list.splits)

lemma scan_lines_anchors:
  "set (fx_anchors (scan_lines ns a n p f ls))
     = set (fx_anchors f) \<union> (if p \<and> gap ls then around ns n else {}) \<union> deletion_anchors ns n ls"
  by (induction ls arbitrary: a n p f) (auto simp: line_kinds split: list.splits)

lemma scan_lines_spans [simp]:
  "fx_old_spans (scan_lines ns a n p f ls) = fx_old_spans f"
  "fx_new_spans (scan_lines ns a n p f ls) = fx_new_spans f"
  "fx_partial_old (scan_lines ns a n p f ls) = fx_partial_old f"
  "fx_partial_new (scan_lines ns a n p f ls) = fx_partial_new f"
  by (induction ls arbitrary: a n p f) (simp_all split: list.splits)

text \<open>Where the numbering of a hunk starts and which lines it numbers: the header, when there is one,
  restates the starts.\<close>

definition hunk_body :: "hunk \<Rightarrow> int \<times> int \<times> string list" where
  "hunk_body h =
     (let lines = split_char (CHR 0x0A) (hk_patch h) in
      if has_prefix (hd lines) ''@@'' then
        (case parseHunkHeader (hd lines) of
           Some (a, b) \<Rightarrow> (a, b, tl lines) | None \<Rightarrow> (hk_old_start h, hk_new_start h, tl lines))
      else (hk_old_start h, hk_new_start h, lines))"

definition hunk_added :: "hunk \<Rightarrow> int set" where
  "hunk_added h = (case hunk_body h of (a, b, ls) \<Rightarrow> added_lines b ls)"

definition hunk_removed :: "hunk \<Rightarrow> int set" where
  "hunk_removed h = (case hunk_body h of (a, b, ls) \<Rightarrow> removed_lines a ls)"

definition hunk_anchors :: "hunk \<Rightarrow> int set" where
  "hunk_anchors h = (case hunk_body h of (a, b, ls) \<Rightarrow> deletion_anchors (hk_new_start h) b ls)"

definition old_span :: "hunk \<Rightarrow> line_span" where
  "old_span h = (hk_old_start h, hk_old_start h + maxInt (hk_old_lines h) 1 - 1)"

definition new_span :: "hunk \<Rightarrow> line_span" where
  "new_span h = (hk_new_start h, hk_new_start h + maxInt (hk_new_lines h) 1 - 1)"

lemma split_char_not_Nil [simp]: "split_char c s \<noteq> []"
  by (cases s) (auto split: list.splits)

lemma indexHunk_body:
  assumes "\<not> hk_truncated h"
  shows "indexHunk f h =
    (case hunk_body h of (a, b, ls) \<Rightarrow> scan_lines (hk_new_start h) a b False
       (f\<lparr>fx_old_spans := fx_old_spans f @ [old_span h], fx_new_spans := fx_new_spans f @ [new_span h]\<rparr>) ls)"
proof -
  obtain l0 ls where "split_char (CHR 0x0A) (hk_patch h) = l0 # ls"
    using split_char_not_Nil by (meson neq_Nil_conv)
  then show ?thesis
    using assms by (simp add: indexHunk_def hunk_body_def old_span_def new_span_def Let_def split: option.splits)
qed

lemma indexHunk_truncated:
  "hk_truncated h \<Longrightarrow> indexHunk f h =
     f\<lparr>fx_partial_old := fx_partial_old f @ [old_span h], fx_partial_new := fx_partial_new f @ [new_span h]\<rparr>"
  by (simp add: indexHunk_def old_span_def new_span_def Let_def)

text \<open>A file's index collects its hunks.\<close>

definition full :: "hunk list \<Rightarrow> hunk set" where
  "full hs = {h \<in> set hs. \<not> hk_truncated h}"

definition partial :: "hunk list \<Rightarrow> hunk set" where
  "partial hs = {h \<in> set hs. hk_truncated h}"

definition holds_hunks :: "hunk list \<Rightarrow> file_line_index \<Rightarrow> bool" where
  "holds_hunks hs f \<longleftrightarrow>
     set (fx_new_lines f) = \<Union> (hunk_added ` full hs)
   \<and> set (fx_old_lines f) = \<Union> (hunk_removed ` full hs)
   \<and> set (fx_anchors f) = \<Union> (hunk_anchors ` full hs)
   \<and> set (fx_new_spans f) = new_span ` full hs \<and> set (fx_old_spans f) = old_span ` full hs
   \<and> set (fx_partial_new f) = new_span ` partial hs \<and> set (fx_partial_old f) = old_span ` partial hs"

lemma full_snoc: "full (hs @ [h]) = (if hk_truncated h then full hs else insert h (full hs))"
  by (auto simp: full_def)

lemma partial_snoc: "partial (hs @ [h]) = (if hk_truncated h then insert h (partial hs) else partial hs)"
  by (auto simp: partial_def)

lemma holds_hunks_Nil: "holds_hunks [] empty_index"
  by (simp add: holds_hunks_def empty_index_def full_def partial_def)

lemma holds_hunks_snoc:
  assumes "holds_hunks hs f"
  shows "holds_hunks (hs @ [h]) (indexHunk f h)"
proof (cases "hk_truncated h")
  case True
  then show ?thesis
    using assms by (simp add: holds_hunks_def indexHunk_truncated full_snoc partial_snoc)
next
  case False
  obtain a b ls where b: "hunk_body h = (a, b, ls)" by (cases "hunk_body h") auto
  show ?thesis
    using assms False
    by (simp add: holds_hunks_def indexHunk_body full_snoc partial_snoc b scan_lines_new scan_lines_old
        scan_lines_anchors hunk_added_def hunk_removed_def hunk_anchors_def Un_commute)
qed

lemma holds_hunks_foldl: "holds_hunks hs (foldl indexHunk empty_index hs)"
  by (induction hs rule: rev_induct) (simp_all add: holds_hunks_Nil holds_hunks_snoc)

subsection \<open>The verdict on a location\<close>

definition inside :: "int \<Rightarrow> int \<Rightarrow> line_span \<Rightarrow> bool" where
  "inside line stop sp \<longleftrightarrow> fst sp \<le> line \<and> stop \<le> snd sp"

text \<open>\<open>touches old c line stop\<close>: the change touched this line, as far as its hunks tell.\<close>

definition touches :: "bool \<Rightarrow> change \<Rightarrow> int \<Rightarrow> int \<Rightarrow> bool" where
  "touches old c line stop \<longleftrightarrow>
     (let hs = ch_hunks c; span = (if old then old_span else new_span);
          marks = (\<lambda>h. if old then hunk_removed h else hunk_added h \<union> hunk_anchors h)
      in (\<exists>h \<in> full hs. line \<in> marks h) \<and> (\<exists>h \<in> full hs. inside line stop (span h))
       \<or> (\<exists>h \<in> partial hs. inside line stop (span h)))"

text \<open>The change that speaks for a path is the last one that names it and has hunks.\<close>

definition change_of :: "change list \<Rightarrow> string \<Rightarrow> change option" where
  "change_of cs path = find (\<lambda>c. ch_hunks c \<noteq> [] \<and> path \<in> set (change_paths c)) (rev cs)"

lemma foldl_upd: "foldl (\<lambda>m p. m(p \<mapsto> v)) idx ps x = (if x \<in> set ps then Some v else idx x)"
  by (induction ps arbitrary: idx) auto

lemma find_concat: "find P (xs @ ys) = (case find P xs of None \<Rightarrow> find P ys | Some x \<Rightarrow> Some x)"
  by (induction xs) auto

lemma buildChangedLineIndex_lookup:
  "buildChangedLineIndex cs idx path =
     (case change_of cs path of
        None \<Rightarrow> idx path | Some c \<Rightarrow> Some (foldl indexHunk empty_index (ch_hunks c)))"
proof (induction cs arbitrary: idx)
  case Nil
  then show ?case by (simp add: change_of_def)
next
  case (Cons c cs)
  then show ?case
    by (auto simp: change_of_def find_concat foldl_upd Let_def split: option.splits)
qed

lemma withinSpans_iff: "withinSpans spans line stop \<longleftrightarrow> (\<exists>sp \<in> set spans. inside line stop sp)"
  by (simp add: withinSpans_def inside_def list_ex_iff case_prod_beta)

lemma touches_new:
  assumes "holds_hunks (ch_hunks c) f"
  shows "touches False c line stop \<longleftrightarrow>
    (line \<in> set (fx_new_lines f) \<or> line \<in> set (fx_anchors f)) \<and> withinSpans (fx_new_spans f) line stop
      \<or> withinSpans (fx_partial_new f) line stop"
  using assms unfolding holds_hunks_def touches_def withinSpans_iff Let_def
  by (simp only: UN_iff bex_simps(7) Un_iff bex_disj_distrib if_False)

lemma touches_old:
  assumes "holds_hunks (ch_hunks c) f"
  shows "touches True c line stop \<longleftrightarrow>
    line \<in> set (fx_old_lines f) \<and> withinSpans (fx_old_spans f) line stop
      \<or> withinSpans (fx_partial_old f) line stop"
  using assms unfolding holds_hunks_def touches_def withinSpans_iff Let_def
  by (simp only: UN_iff bex_simps if_True)

lemma verify_cases:
  "verify (buildChangedLineIndex cs Map.empty) loc =
     (let path = trim_space (cl_path loc) in
      if path = [] \<or> cl_start_line loc \<le> 0 then LocationUnknown
      else case change_of cs path of
        None \<Rightarrow> LocationUnknown
      | Some c \<Rightarrow>
          if touches (cl_side loc = ''old'') c (cl_start_line loc) (max (cl_start_line loc) (cl_end_line loc))
          then LocationInDiff else LocationOutOfDiff)"
proof (cases "change_of cs (trim_space (cl_path loc))")
  case None
  then show ?thesis by (simp add: verify_def buildChangedLineIndex_lookup Let_def)
next
  case (Some c)
  note h = holds_hunks_foldl [of "ch_hunks c"]
  have m: "maxInt l r = max l r" for l r by (simp add: maxInt_def max_def)
  show ?thesis
    using Some touches_new [OF h] touches_old [OF h]
    by (cases "cl_side loc = ''old''", simp_all add: verify_def buildChangedLineIndex_lookup m Let_def, blast)
qed

text \<open>C33 (location verdicts): the verdict of the changed-line index on a finding's location is the one
  read off the hunks: unknown without a path, a line or a reviewed change for the path; in the diff
  exactly when the line is an added line or an anchor of a pure deletion (on the old side a removed
  line) and the range fits in a hunk, or the range fits in a truncated hunk; outside otherwise.\<close>

theorem verify_verdict:
  "verify (buildChangedLineIndex cs Map.empty) loc =
     (let path = trim_space (cl_path loc) in
      if path = [] \<or> cl_start_line loc \<le> 0 then LocationUnknown
      else case change_of cs path of
        None \<Rightarrow> LocationUnknown
      | Some c \<Rightarrow>
          if touches (cl_side loc = ''old'') c (cl_start_line loc) (max (cl_start_line loc) (cl_end_line loc))
          then LocationInDiff else LocationOutOfDiff)"
  by (rule verify_cases)

subsection \<open>Hunk headers\<close>

definition plain :: "char \<Rightarrow> bool" where
  "plain c \<longleftrightarrow> is_digit c \<or> c \<in> set ''@-+,''"

lemma digit_not_space:
  "is_digit c \<Longrightarrow> \<not> ascii_space c \<and> c \<noteq> CHR 0xC2 \<and> c \<noteq> CHR 0xE1 \<and> c \<noteq> CHR 0xE2 \<and> c \<noteq> CHR 0xE3"
  by (auto simp: is_digit_def ascii_space_def)

lemma plain_not_space:
  "plain c \<Longrightarrow> \<not> ascii_space c \<and> c \<noteq> CHR 0xC2 \<and> c \<noteq> CHR 0xE1 \<and> c \<noteq> CHR 0xE2 \<and> c \<noteq> CHR 0xE3"
  using digit_not_space unfolding plain_def by (elim disjE) (blast, auto simp: ascii_space_def)

lemma drop_space_plain: "plain c \<Longrightarrow> drop_space (c # s) = None"
  using plain_not_space [of c] by (simp add: space2_def space3_def split: list.splits)

lemma fields_acc_plain: "list_all plain w \<Longrightarrow> fields_acc acc (w @ s) = fields_acc (acc @ w) s"
proof (induction w arbitrary: acc)
  case (Cons c w)
  then show ?case
    by (simp add: fields_acc.simps [of acc "c # w @ s"] drop_space_plain del: drop_space.simps)
qed simp

lemma fields_acc_blank:
  "acc \<noteq> [] \<Longrightarrow> fields_acc acc (CHR 0x20 # s) = acc # fields_acc [] s"
  by (simp add: fields_acc.simps [of acc] ascii_space_def)

lemma nat_digits_plain: "list_all plain (nat_digits n)"
  using nat_digits_is_digit by (auto simp: list_all_iff plain_def)

lemma itoa_nonneg: "0 \<le> i \<Longrightarrow> itoa i = nat_digits (nat i)"
  by (simp add: itoa_def)

lemma nat_digits_not_Nil [simp]: "nat_digits n \<noteq> []"
  by (subst nat_digits.simps) simp

lemma nat_digits_all_digits: "list_all is_digit (nat_digits n)"
  using nat_digits_is_digit by (auto simp: list_all_iff)

lemma is_digit_sign: "is_digit c \<Longrightarrow> c \<noteq> CHR ''-'' \<and> c \<noteq> CHR ''+'' \<and> c \<noteq> CHR '',''"
  by (auto simp: is_digit_def)

lemma parse_int64_nat_digits:
  assumes "int n < 2 ^ 63"
  shows "parse_int64 (nat_digits n) = Some (int n)"
proof -
  obtain c cs where d: "nat_digits n = c # cs" using nat_digits_not_Nil [of n] by (cases "nat_digits n") auto
  have "c \<noteq> CHR ''-''" "c \<noteq> CHR ''+''"
    using nat_digits_all_digits [of n] is_digit_sign [of c] by (auto simp: d)
  then have "parse_int64 (c # cs) =
      (let v = int (digits_value 0 (c # cs))
       in if v < - (2 ^ 63) \<or> v \<ge> 2 ^ 63 then None else Some v)"
    using nat_digits_all_digits [of n] by (simp add: parse_int64_def d)
  moreover have "digits_value 0 (c # cs) = n"
    using nat_digits_value [of n] by (simp only: d)
  ultimately show ?thesis using assms by (simp add: d Let_def del: digits_value.simps)
qed

lemma index_of_comma:
  "list_all is_digit ds \<Longrightarrow> index_of (ds @ CHR '','' # r) '','' = Some (length ds)"
  by (induction ds) (auto simp: has_prefix_def dest: is_digit_sign)

lemma trim_left_set_sign:
  assumes "x = CHR ''-'' \<or> x = CHR ''+''"
  shows "trim_left_set (x # nat_digits n @ r) ''-+'' = nat_digits n @ r"
proof -
  obtain c cs where d: "nat_digits n = c # cs" using nat_digits_not_Nil [of n] by (cases "nat_digits n") auto
  have "c \<noteq> CHR ''-'' \<and> c \<noteq> CHR ''+''"
    using nat_digits_all_digits [of n] is_digit_sign [of c] by (simp add: d)
  then show ?thesis using assms by (auto simp: trim_left_set_def d)
qed

lemma header_number_range:
  assumes "x = CHR ''-'' \<or> x = CHR ''+''" and "int n < 2 ^ 63"
  shows "header_number (x # nat_digits n @ CHR '','' # r) = Some (int n)"
  using assms
  by (simp add: header_number_def trim_left_set_sign index_of_comma nat_digits_all_digits parse_int64_nat_digits Let_def)

definition hunk_header :: "nat \<Rightarrow> nat \<Rightarrow> nat \<Rightarrow> nat \<Rightarrow> string \<Rightarrow> string" where
  "hunk_header a b c d sec =
     ''@@ -'' @ nat_digits a @ '','' @ nat_digits b @ '' +'' @ nat_digits c @ '','' @ nat_digits d @ '' '' @ sec"

lemma hunk_header_fields:
  "\<exists>fs. Go_Strings.fields (hunk_header a b c d r) =
     ''@@'' # (''-'' @ nat_digits a @ '','' @ nat_digits b) # (''+'' @ nat_digits c @ '','' @ nat_digits d) # fs"
proof -
  let ?f1 = "''-'' @ nat_digits a @ '','' @ nat_digits b"
  let ?f2 = "''+'' @ nat_digits c @ '','' @ nat_digits d"
  have p: "list_all plain ''@@''" "list_all plain ?f1" "list_all plain ?f2"
    using nat_digits_plain by (simp_all add: plain_def)
  have ne: "''@@'' \<noteq> []" "?f1 \<noteq> []" "?f2 \<noteq> []" by simp_all
  have "hunk_header a b c d r = ''@@'' @ CHR 0x20 # ?f1 @ CHR 0x20 # ?f2 @ CHR 0x20 # r"
    by (simp add: hunk_header_def)
  moreover have w: "fields_acc [] (w @ CHR 0x20 # t) = w # fields_acc [] t"
    if "list_all plain w" "w \<noteq> []" for w t
    using that by (simp add: fields_acc_plain fields_acc_blank)
  ultimately have "Go_Strings.fields (hunk_header a b c d r) = ''@@'' # ?f1 # ?f2 # fields_acc [] r"
    by (simp only: Go_Strings.fields_def w [OF p(1) ne(1)] w [OF p(2) ne(2)] w [OF p(3) ne(3)])
  then show ?thesis by blast
qed

text \<open>The header of a unified diff hunk is read back: the numbers are those printed, whatever the line counts and the
  section text after it.\<close>

lemma parseHunkHeader_printed:
  assumes "int a < 2 ^ 63" and "int c < 2 ^ 63"
  shows "parseHunkHeader (hunk_header a b c d section) = Some (int a, int c)"
proof -
  obtain fs where "Go_Strings.fields (hunk_header a b c d section) =
     ''@@'' # (''-'' @ nat_digits a @ '','' @ nat_digits b) # (''+'' @ nat_digits c @ '','' @ nat_digits d) # fs"
    using hunk_header_fields by blast
  then show ?thesis
    using assms by (simp add: parseHunkHeader_def has_prefix_def header_number_range)
qed

end
