(* ===== verification/Hunks.thy ===== *)
theory Hunks
  imports Diff_Index
begin

text \<open>
  Hunks of a unified diff, as \<^verbatim>\<open>internal/context/assembler.go\<close> reads, cuts and prints them. The regular expression of
  a hunk header is deterministic and is read from left to right; the number of a header that does not fit in 64 bits
  is the largest one, as \<^verbatim>\<open>strconv.Atoi\<close> returns it next to the error the code ignores.
\<close>

subsection \<open>Reading\<close>

record parsed_hunk =
  ph_old_start :: int
  ph_new_start :: int
  ph_trailer :: string
  ph_lines :: "string list"

definition isChangeLine :: "string \<Rightarrow> bool" where
  "isChangeLine line \<longleftrightarrow> has_prefix line ''+'' \<or> has_prefix line ''-''"

definition atoi_clipped :: "string \<Rightarrow> int" where
  "atoi_clipped ds = min (int (digits_value 0 ds)) (2 ^ 63 - 1)"

definition take_digits :: "string \<Rightarrow> (string \<times> string) option" where
  "take_digits s = (if takeWhile is_digit s = [] then None else Some (takeWhile is_digit s, dropWhile is_digit s))"

text \<open>\<^verbatim>\<open>(\d+)(?:,(\d+))?\<close>: the first number and the rest.\<close>

definition take_range :: "string \<Rightarrow> (string \<times> string) option" where
  "take_range s = (case take_digits s of
     None \<Rightarrow> None
   | Some (ds, r) \<Rightarrow>
       if has_prefix r '','' then (case take_digits (drop 1 r) of None \<Rightarrow> Some (ds, r) | Some (_, r') \<Rightarrow> Some (ds, r'))
       else Some (ds, r))"

definition take_literal :: "string \<Rightarrow> string \<Rightarrow> string option" where
  "take_literal p s = (if has_prefix s p then Some (drop (length p) s) else None)"

definition hunkHeaderPattern :: "string \<Rightarrow> (string \<times> string \<times> string) option" where
  "hunkHeaderPattern line =
     (case take_literal ''@@ -'' line of
        None \<Rightarrow> None
      | Some s1 \<Rightarrow> (case take_range s1 of
          None \<Rightarrow> None
        | Some (old, s2) \<Rightarrow> (case take_literal '' +'' s2 of
            None \<Rightarrow> None
          | Some s3 \<Rightarrow> (case take_range s3 of
              None \<Rightarrow> None
            | Some (new, s4) \<Rightarrow> (case take_literal '' @@'' s4 of
                None \<Rightarrow> None
              | Some trailer \<Rightarrow> Some (old, new, trailer))))))"

text \<open>A line goes to the hunk read last; lines before the first header are dropped. The error names the header.\<close>

fun append_line :: "string \<Rightarrow> parsed_hunk list \<Rightarrow> parsed_hunk list" where
  "append_line l [] = []"
| "append_line l [h] = [h\<lparr>ph_lines := ph_lines h @ [l]\<rparr>]"
| "append_line l (h # hs) = h # append_line l hs"

fun scan_diff :: "parsed_hunk list \<Rightarrow> string list \<Rightarrow> string + parsed_hunk list" where
  "scan_diff hunks [] = Inr hunks"
| "scan_diff hunks (line # rest) =
     (if has_prefix line ''@@'' then
        (case hunkHeaderPattern line of
           None \<Rightarrow> Inl line
         | Some (old, new, trailer) \<Rightarrow>
             scan_diff (hunks @ [\<lparr>ph_old_start = atoi_clipped old, ph_new_start = atoi_clipped new,
               ph_trailer = trailer, ph_lines = []\<rparr>]) rest)
      else scan_diff (append_line line hunks) rest)"

definition parseHunks :: "string \<Rightarrow> string + parsed_hunk list" where
  "parseHunks diff0 =
     (let diff = trim_right_set (replace_all diff0 [CHR 0x0D, CHR 0x0A] [CHR 0x0A]) [CHR 0x0A] in
      if trim_space diff = [] then Inr [] else scan_diff [] (split_char (CHR 0x0A) diff))"

fun count_changes :: "string list \<Rightarrow> int" where
  "count_changes [] = 0"
| "count_changes (l # ls) = (if isChangeLine l then 1 + count_changes ls else count_changes ls)"

definition changedLines :: "parsed_hunk \<Rightarrow> int" where
  "changedLines h = count_changes (ph_lines h)"

definition sum_changes :: "parsed_hunk list \<Rightarrow> int" where
  "sum_changes hs = sum_list (map changedLines hs)"

definition countHunks :: "string \<Rightarrow> int" where
  "countHunks d = (case parseHunks d of Inl _ \<Rightarrow> 0 | Inr hs \<Rightarrow> int (length hs))"

definition countChangedLines :: "string \<Rightarrow> int" where
  "countChangedLines d = (case parseHunks d of Inl _ \<Rightarrow> 0 | Inr hs \<Rightarrow> sum_changes hs)"

subsection \<open>Cutting\<close>

definition noNewlineMarker :: string where
  "noNewlineMarker = CHR 0x5C # '' No newline at end of file''"

fun trailing_lines :: "int \<Rightarrow> int \<Rightarrow> string list \<Rightarrow> string list" where
  "trailing_lines limit shown [] = []"
| "trailing_lines limit shown (l # ls) =
     (if has_prefix l '' '' then (if shown \<ge> limit then [] else l # trailing_lines limit (shown + 1) ls)
      else if l = noNewlineMarker then l # trailing_lines limit shown ls
      else [])"

fun truncate_lines :: "int \<Rightarrow> int \<Rightarrow> int \<Rightarrow> string list \<Rightarrow> string list" where
  "truncate_lines remaining trailing seen [] = []"
| "truncate_lines remaining trailing seen (l # ls) =
     (if isChangeLine l then
        (if seen \<ge> remaining then []
         else if seen + 1 = remaining then l # trailing_lines trailing 0 ls
         else l # truncate_lines remaining trailing (seen + 1) ls)
      else l # truncate_lines remaining trailing seen ls)"

definition truncate_hunk :: "int \<Rightarrow> int \<Rightarrow> parsed_hunk \<Rightarrow> parsed_hunk" where
  "truncate_hunk remaining trailingContext h =
     (if remaining \<le> 0 \<or> changedLines h \<le> remaining then h
      else h\<lparr>ph_lines := truncate_lines remaining trailingContext 0 (ph_lines h)\<rparr>)"

subsection \<open>Printing\<close>

fun countLineSpans :: "string list \<Rightarrow> int \<times> int" where
  "countLineSpans [] = (0, 0)"
| "countLineSpans (l # ls) = (case countLineSpans ls of (old, new) \<Rightarrow>
     (case l of
        [] \<Rightarrow> (old, new)
      | c # _ \<Rightarrow> if c = CHR '' '' then (old + 1, new + 1)
                 else if c = CHR ''-'' then (old + 1, new)
                 else if c = CHR ''+'' then (old, new + 1) else (old, new)))"

definition context_only :: "string list \<Rightarrow> string list" where
  "context_only ls = map (drop 1) (filter (\<lambda>l. has_prefix l '' '') ls)"

definition surroundingContext :: "string list \<Rightarrow> int \<Rightarrow> int \<Rightarrow> string list \<times> string list" where
  "surroundingContext lines beforeLimit afterLimit =
     (if \<not> list_ex isChangeLine lines then ([], [])
      else let before = context_only (takeWhile (\<lambda>l. \<not> isChangeLine l) lines);
               after = context_only (rev (takeWhile (\<lambda>l. \<not> isChangeLine l) (rev lines)))
           in (if beforeLimit > 0 \<and> int (length before) > beforeLimit then drop (length before - nat beforeLimit) before else before,
               if afterLimit > 0 \<and> int (length after) > afterLimit then take (nat afterLimit) after else after))"

definition formatHunkHeader :: "int \<Rightarrow> int \<Rightarrow> int \<Rightarrow> int \<Rightarrow> string \<Rightarrow> string" where
  "formatHunkHeader oldStart oldLines newStart newLines trailer =
     ''@@ -'' @ itoa oldStart @ '','' @ itoa oldLines @ '' +'' @ itoa newStart @ '','' @ itoa newLines @ '' @@'' @ trailer"

definition toHunk :: "int \<Rightarrow> int \<Rightarrow> parsed_hunk \<Rightarrow> hunk" where
  "toHunk linesBefore linesAfter h =
     (case (countLineSpans (ph_lines h), surroundingContext (ph_lines h) linesBefore linesAfter) of
        ((oldLines, newLines), (before, after)) \<Rightarrow>
          \<lparr>hk_old_start = ph_old_start h, hk_old_lines = oldLines, hk_new_start = ph_new_start h, hk_new_lines = newLines,
           hk_patch = join (formatHunkHeader (ph_old_start h) oldLines (ph_new_start h) newLines (ph_trailer h) # ph_lines h)
             [CHR 0x0A],
           hk_context_before = before, hk_context_after = after, hk_changed_lines = changedLines h, hk_truncated = False\<rparr>)"

subsection \<open>What cutting keeps\<close>

lemma count_changes_nonneg [simp]: "0 \<le> count_changes ls"
  by (induction ls) auto

lemma changedLines_nonneg [simp]: "0 \<le> changedLines h"
  by (simp add: changedLines_def)

lemma sum_changes_nonneg [simp]: "0 \<le> sum_changes hs"
  by (induction hs) (auto simp: sum_changes_def)

lemma sum_changes_simps [simp]:
  "sum_changes [] = 0" "sum_changes (h # hs) = changedLines h + sum_changes hs" "sum_changes (hs @ ks) = sum_changes hs + sum_changes ks"
  by (simp_all add: sum_changes_def)

lemma not_change_context: "has_prefix l '' '' \<Longrightarrow> \<not> isChangeLine l"
  by (cases l) (auto simp: isChangeLine_def has_prefix_def)

lemma not_change_marker: "\<not> isChangeLine noNewlineMarker"
  by (simp add: isChangeLine_def has_prefix_def noNewlineMarker_def)

lemma trailing_lines_no_change: "count_changes (trailing_lines limit shown ls) = 0"
  by (induction limit shown ls rule: trailing_lines.induct) (auto simp: not_change_context not_change_marker)

lemma trailing_lines_prefix: "\<exists>rest. ls = trailing_lines limit shown ls @ rest"
  by (induction limit shown ls rule: trailing_lines.induct) auto

lemma truncate_lines_prefix: "\<exists>rest. ls = truncate_lines remaining trailing seen ls @ rest"
proof (induction remaining trailing seen ls rule: truncate_lines.induct)
  case (2 remaining trailing seen l ls)
  then show ?case using trailing_lines_prefix [of ls trailing 0] by auto
qed simp

lemma truncate_lines_count:
  assumes "seen < remaining" and "remaining - seen \<le> count_changes ls"
  shows "count_changes (truncate_lines remaining trailing seen ls) = remaining - seen"
  using assms
proof (induction remaining trailing seen ls rule: truncate_lines.induct)
  case (2 remaining trailing seen l ls)
  then show ?case by (auto simp: trailing_lines_no_change)
qed simp

text \<open>Cutting a hunk. A hunk that exceeds the remaining budget is cut to a prefix of its lines that has exactly as
  many changed lines as the budget allows; start lines and section text are kept.\<close>

theorem truncate_hunk_exact:
  assumes "0 < remaining" and "remaining < changedLines h"
  shows "changedLines (truncate_hunk remaining trailing h) = remaining
    \<and> (\<exists>rest. ph_lines h = ph_lines (truncate_hunk remaining trailing h) @ rest)
    \<and> truncate_hunk remaining trailing h = h\<lparr>ph_lines := ph_lines (truncate_hunk remaining trailing h)\<rparr>"
  using assms truncate_lines_count [of 0 remaining "ph_lines h" trailing] truncate_lines_prefix [of "ph_lines h" remaining trailing 0]
  by (simp add: truncate_hunk_def changedLines_def)

lemma truncate_hunk_count: "0 < remaining \<Longrightarrow> remaining < changedLines h \<Longrightarrow> changedLines (truncate_hunk remaining trailing h) = remaining"
  using truncate_lines_count [of 0 remaining "ph_lines h" trailing] by (simp add: truncate_hunk_def changedLines_def)

lemma toHunk_changed_lines [simp]: "hk_changed_lines (toHunk b a h) = changedLines h"
  by (simp add: toHunk_def split: prod.splits)

subsection \<open>Printing and reading back\<close>

text \<open>Numbers in a header.\<close>

lemma take_digits_nat: "\<not> is_digit c \<Longrightarrow> take_digits (nat_digits n @ c # r) = Some (nat_digits n, c # r)"
proof -
  assume c: "\<not> is_digit c"
  have d: "\<And>x. x \<in> set (nat_digits n) \<Longrightarrow> is_digit x" by (rule nat_digits_is_digit)
  have "takeWhile is_digit (nat_digits n @ c # r) = nat_digits n" using d c by (simp add: takeWhile_append2)
  moreover have "dropWhile is_digit (nat_digits n @ c # r) = c # r" using d c by (simp add: dropWhile_append2)
  moreover have "nat_digits n \<noteq> []" by (simp add: nat_digits.simps [of n])
  ultimately show ?thesis by (simp add: take_digits_def)
qed

lemma take_range_nat:
  "\<not> is_digit c \<Longrightarrow> take_range (nat_digits m @ CHR '','' # nat_digits n @ c # r) = Some (nat_digits m, c # r)"
  by (simp add: take_range_def take_digits_nat has_prefix_def is_digit_def)

lemma take_literal_append: "take_literal p (p @ s) = Some s"
  by (simp add: take_literal_def has_prefix_def)

lemma hunkHeaderPattern_printed:
  "hunkHeaderPattern (''@@ -'' @ nat_digits a @ '','' @ nat_digits b @ '' +'' @ nat_digits c @ '','' @ nat_digits d @ '' @@'' @ t)
   = Some (nat_digits a, nat_digits c, t)"
proof -
  have sp: "\<not> is_digit (CHR '' '')" by (simp add: is_digit_def)
  have "take_literal ''@@ -'' (''@@ -'' @ s) = Some s" "take_literal '' +'' (CHR '' '' # CHR ''+'' # s) = Some s"
    "take_literal '' @@'' (CHR '' '' # CHR ''@'' # CHR ''@'' # s) = Some s" for s
    by (simp_all add: take_literal_def has_prefix_def)
  then show ?thesis
    using take_range_nat [OF sp] by (simp add: hunkHeaderPattern_def)
qed

lemma formatHunkHeader_nat:
  assumes "0 \<le> a" "0 \<le> b" "0 \<le> c" "0 \<le> d"
  shows "formatHunkHeader a b c d t =
    ''@@ -'' @ nat_digits (nat a) @ '','' @ nat_digits (nat b) @ '' +'' @ nat_digits (nat c) @ '','' @ nat_digits (nat d) @ '' @@'' @ t"
  using assms by (simp add: formatHunkHeader_def itoa_def)

lemma countLineSpans_nonneg: "0 \<le> fst (countLineSpans ls) \<and> 0 \<le> snd (countLineSpans ls)"
  by (induction ls) (auto split: prod.splits list.splits)

text \<open>A hunk that is printed as it is: its numbers are not negative and fit in 64 bits, no line break is hidden in a
  line, no line looks like a header, and the last line is not empty.\<close>

definition one_line :: "string \<Rightarrow> bool" where
  "one_line l \<longleftrightarrow> CHR 0x0A \<notin> set l \<and> CHR 0x0D \<notin> set l"

definition printable_hunk :: "parsed_hunk \<Rightarrow> bool" where
  "printable_hunk h \<longleftrightarrow> 0 \<le> ph_old_start h \<and> ph_old_start h < 2 ^ 63 \<and> 0 \<le> ph_new_start h \<and> ph_new_start h < 2 ^ 63
     \<and> one_line (ph_trailer h) \<and> list_all one_line (ph_lines h) \<and> list_all (\<lambda>l. \<not> has_prefix l ''@@'') (ph_lines h)
     \<and> (ph_lines h \<noteq> [] \<longrightarrow> last (ph_lines h) \<noteq> [])"

lemma scan_diff_body:
  "list_all (\<lambda>l. \<not> has_prefix l ''@@'') ls \<Longrightarrow> scan_diff [h] ls = Inr [h\<lparr>ph_lines := ph_lines h @ ls\<rparr>]"
  by (induction ls arbitrary: h) simp_all

lemma nat_digits_one_line: "one_line (nat_digits n)"
  using nat_digits_is_digit [of "CHR 0x0A" n] nat_digits_is_digit [of "CHR 0x0D" n] by (auto simp: one_line_def is_digit_def)

lemma one_line_append [simp]: "one_line (s @ t) \<longleftrightarrow> one_line s \<and> one_line t"
  by (auto simp: one_line_def)

lemma one_line_join: "list_all one_line ws \<Longrightarrow> CHR 0x0D \<notin> set (join ws [CHR 0x0A])"
  by (induction ws "[CHR 0x0A]" rule: join.induct) (auto simp: one_line_def)

lemma join_last: "ws \<noteq> [] \<Longrightarrow> last ws \<noteq> [] \<Longrightarrow> join ws sep \<noteq> [] \<and> last (join ws sep) = last (last ws)"
  by (induction ws sep rule: join.induct) auto

lemma toHunk_patch:
  assumes "printable_hunk h"
  obtains b d where "hk_patch (toHunk lb la h) =
    join ((''@@ -'' @ nat_digits (nat (ph_old_start h)) @ '','' @ nat_digits b @ '' +'' @ nat_digits (nat (ph_new_start h)) @ '',''
       @ nat_digits d @ '' @@'' @ ph_trailer h) # ph_lines h) [CHR 0x0A]"
proof -
  obtain b d where bd: "countLineSpans (ph_lines h) = (b, d)" by fastforce
  then have "0 \<le> b" "0 \<le> d" using countLineSpans_nonneg [of "ph_lines h"] by simp_all
  then show ?thesis
    using that [of "nat b" "nat d"] assms bd
    by (simp add: toHunk_def printable_hunk_def formatHunkHeader_nat split: prod.split)
qed

lemma header_one_line:
  "one_line t \<Longrightarrow> one_line (''@@ -'' @ nat_digits a @ '','' @ nat_digits b @ '' +'' @ nat_digits c @ '','' @ nat_digits d @ '' @@'' @ t)"
  using nat_digits_one_line by (simp add: one_line_def)

lemma printed_lines:
  assumes "printable_hunk h" and "one_line header" and "header \<noteq> []"
  shows "split_char (CHR 0x0A) (join (header # ph_lines h) [CHR 0x0A]) = header # ph_lines h"
    and "trim_right_set (replace_all (join (header # ph_lines h) [CHR 0x0A]) [CHR 0x0D, CHR 0x0A] [CHR 0x0A]) [CHR 0x0A]
      = join (header # ph_lines h) [CHR 0x0A]"
proof -
  have lines: "list_all one_line (header # ph_lines h)" using assms by (simp add: printable_hunk_def)
  then show "split_char (CHR 0x0A) (join (header # ph_lines h) [CHR 0x0A]) = header # ph_lines h"
    by (intro split_char_join) (auto simp: list_all_iff one_line_def)
  let ?l = "last (header # ph_lines h)"
  have "?l \<noteq> []" "one_line ?l" using assms lines by (auto simp: printable_hunk_def list_all_iff)
  then have "last ?l \<in> set ?l" "CHR 0x0A \<notin> set ?l" by (simp_all only: last_in_set one_line_def simp_thms)
  then have "last ?l \<notin> set [CHR 0x0A]" by (metis empty_iff empty_set set_ConsD)
  then show "trim_right_set (replace_all (join (header # ph_lines h) [CHR 0x0A]) [CHR 0x0D, CHR 0x0A] [CHR 0x0A]) [CHR 0x0A]
      = join (header # ph_lines h) [CHR 0x0A]"
    using join_last [of "header # ph_lines h" "[CHR 0x0A]"] \<open>?l \<noteq> []\<close>
    by (simp only: replace_all_fresh [OF one_line_join [OF lines]] trim_right_set_last list.distinct not_False_eq_True simp_thms)
qed

text \<open>C27 (hunks are printed and read back). The patch of a hunk is read back as the same hunk, and the changed-line index
  reads from it the start lines and the lines of that hunk: what a reviewer is shown is numbered as the diff is.\<close>

theorem patch_roundtrip:
  assumes "printable_hunk h"
  shows "parseHunks (hk_patch (toHunk linesBefore linesAfter h)) = Inr [h]
    \<and> hunk_body (toHunk linesBefore linesAfter h) = (ph_old_start h, ph_new_start h, ph_lines h)"
proof -
  obtain b d where p: "hk_patch (toHunk linesBefore linesAfter h) =
    join ((''@@ -'' @ nat_digits (nat (ph_old_start h)) @ '','' @ nat_digits b @ '' +'' @ nat_digits (nat (ph_new_start h)) @ '',''
       @ nat_digits d @ '' @@'' @ ph_trailer h) # ph_lines h) [CHR 0x0A]"
    by (rule toHunk_patch [OF assms])
  define header where "header = ''@@ -'' @ nat_digits (nat (ph_old_start h)) @ '','' @ nat_digits b @ '' +''
       @ nat_digits (nat (ph_new_start h)) @ '','' @ nat_digits d @ '' @@'' @ ph_trailer h"
  have p': "hk_patch (toHunk linesBefore linesAfter h) = join (header # ph_lines h) [CHR 0x0A]" by (simp only: p header_def)
  have n: "0 \<le> ph_old_start h" "ph_old_start h < 2 ^ 63" "0 \<le> ph_new_start h" "ph_new_start h < 2 ^ 63"
    and body: "list_all (\<lambda>l. \<not> has_prefix l ''@@'') (ph_lines h)" and t: "one_line (ph_trailer h)"
    using assms by (simp_all add: printable_hunk_def)
  have hdr: "one_line header" "header \<noteq> []" "has_prefix header ''@@''" "\<exists>r. header = CHR ''@'' # r"
    using header_one_line [OF t] by (simp_all add: header_def has_prefix_def)
  have rd: "hunkHeaderPattern header = Some (nat_digits (nat (ph_old_start h)), nat_digits (nat (ph_new_start h)), ph_trailer h)"
    unfolding header_def by (rule hunkHeaderPattern_printed)
  have at: "atoi_clipped (nat_digits (nat a)) = a" if "0 \<le> a" "a < 2 ^ 63" for a
    using that by (simp add: atoi_clipped_def nat_digits_value)
  let ?text = "join (header # ph_lines h) [CHR 0x0A]"
  have "\<exists>r. ?text = CHR ''@'' # r" using hdr(4) by (cases "ph_lines h") auto
  then have blank: "trim_space ?text \<noteq> []" using trim_space_not_blank [of "CHR ''@''"] by (auto simp: space_byte_def ascii_space_def)
  have "parseHunks ?text = scan_diff [] (header # ph_lines h)"
    by (simp only: parseHunks_def Let_def printed_lines [OF assms hdr(1,2)] blank if_False simp_thms)
  also have "\<dots> = Inr [h]"
    using hdr(3) rd scan_diff_body [OF body] at [OF n(1,2)] at [OF n(3,4)] by simp
  finally have one: "parseHunks (hk_patch (toHunk linesBefore linesAfter h)) = Inr [h]" by (simp only: p')
  have "header = hunk_header (nat (ph_old_start h)) b (nat (ph_new_start h)) d (''@@'' @ ph_trailer h)"
    by (simp add: header_def hunk_header_def)
  then have "parseHunkHeader header = Some (ph_old_start h, ph_new_start h)"
    using parseHunkHeader_printed [of "nat (ph_old_start h)" "nat (ph_new_start h)" b d "''@@'' @ ph_trailer h"] n by simp
  then have "hunk_body (toHunk linesBefore linesAfter h) = (ph_old_start h, ph_new_start h, ph_lines h)"
    using hdr(3) unfolding hunk_body_def Let_def p' printed_lines(1) [OF assms hdr(1,2)] by simp
  with one show ?thesis by blast
qed

definition sample_hunk :: parsed_hunk where
  "sample_hunk = \<lparr>ph_old_start = 10, ph_new_start = 12, ph_trailer = '' func main'', ph_lines = ['' a'', ''-b'', ''+c'', ''+d'', '' e'', ''+f'']\<rparr>"

theorem patch_roundtrip_witness:
  "parseHunks (hk_patch (toHunk 3 3 sample_hunk)) = Inr [sample_hunk] \<and> hunk_body (toHunk 3 3 sample_hunk) = (10, 12, ph_lines sample_hunk)"
  using patch_roundtrip [of sample_hunk 3 3] by (simp add: printable_hunk_def sample_hunk_def one_line_def has_prefix_def)

theorem truncate_hunk_exact_witness:
  "changedLines (truncate_hunk 2 3 sample_hunk) = 2 \<and> ph_lines (truncate_hunk 2 3 sample_hunk) = ['' a'', ''-b'', ''+c'']"
  using truncate_hunk_exact [of 2 sample_hunk 3]
  by (simp add: sample_hunk_def changedLines_def truncate_hunk_def isChangeLine_def has_prefix_def noNewlineMarker_def)

end
