(* ===== verification/Go_Regexp.thy ===== *)
theory Go_Regexp
  imports Go_Strings
begin

text \<open>
  What the code uses of Go's \<^verbatim>\<open>unicode/utf8\<close> and \<^verbatim>\<open>regexp\<close>: a text is read as runes (a byte that does not begin a
  valid encoding is the replacement rune of width one), and a regular expression is searched from left to right with
  preference for earlier alternatives and longer repetitions. A repetition is always of one class of runes.
\<close>

subsection \<open>Runes\<close>

definition is_cont :: "int \<Rightarrow> int \<Rightarrow> int \<Rightarrow> bool" where
  "is_cont lo hi b \<longleftrightarrow> lo \<le> b \<and> b \<le> hi"

definition rune_error :: int where
  "rune_error = 0xFFFD"

text \<open>The encodings of two, three and four bytes, after the first byte.\<close>

definition rune2 :: "int \<Rightarrow> int list \<Rightarrow> (int \<times> nat) option" where
  "rune2 b bs = (case bs of
     b1 # _ \<Rightarrow> if 0xC2 \<le> b \<and> is_cont 0x80 0xBF b1 then Some ((b - 0xC0) * 64 + (b1 - 0x80), 2) else None
   | _ \<Rightarrow> None)"

definition rune3 :: "int \<Rightarrow> int list \<Rightarrow> (int \<times> nat) option" where
  "rune3 b bs = (case bs of
     b1 # b2 # _ \<Rightarrow>
       if is_cont (if b = 0xE0 then 0xA0 else 0x80) (if b = 0xED then 0x9F else 0xBF) b1 \<and> is_cont 0x80 0xBF b2
       then Some ((b - 0xE0) * 4096 + (b1 - 0x80) * 64 + (b2 - 0x80), 3) else None
   | _ \<Rightarrow> None)"

definition rune4 :: "int \<Rightarrow> int list \<Rightarrow> (int \<times> nat) option" where
  "rune4 b bs = (case bs of
     b1 # b2 # b3 # _ \<Rightarrow>
       if b \<le> 0xF4 \<and> is_cont (if b = 0xF0 then 0x90 else 0x80) (if b = 0xF4 then 0x8F else 0xBF) b1
          \<and> is_cont 0x80 0xBF b2 \<and> is_cont 0x80 0xBF b3
       then Some ((b - 0xF0) * 262144 + (b1 - 0x80) * 4096 + (b2 - 0x80) * 64 + (b3 - 0x80), 4) else None
   | _ \<Rightarrow> None)"

definition multi_rune :: "int \<Rightarrow> int list \<Rightarrow> (int \<times> nat) option" where
  "multi_rune b bs = (if b < 0x80 then None else if b \<le> 0xDF then rune2 b bs else if b \<le> 0xEF then rune3 b bs else rune4 b bs)"

text \<open>\<^verbatim>\<open>utf8.DecodeRuneInString\<close> on a non-empty text: the rune and its width.\<close>

definition decode_rune :: "int \<Rightarrow> int list \<Rightarrow> int \<times> nat" where
  "decode_rune b bs = (if b < 0x80 then (b, 1) else case multi_rune b bs of Some x \<Rightarrow> x | None \<Rightarrow> (rune_error, 1))"

lemma rune2_local:
  "rune2 b bs = Some (r, w) \<Longrightarrow> w = 2 \<and> (\<exists>b1 t. bs = b1 # t \<and> 0x80 \<le> b1 \<and> (\<forall>cs. rune2 b (b1 # cs) = Some (r, w)))"
  by (auto simp: rune2_def is_cont_def split: list.splits if_splits)

lemma rune3_local:
  "rune3 b bs = Some (r, w) \<Longrightarrow> w = 3 \<and> (\<exists>b1 b2 t. bs = b1 # b2 # t \<and> 0x80 \<le> b1 \<and> 0x80 \<le> b2 \<and> (\<forall>cs. rune3 b (b1 # b2 # cs) = Some (r, w)))"
  by (auto simp: rune3_def is_cont_def split: list.splits if_splits)

lemma rune4_local:
  "rune4 b bs = Some (r, w) \<Longrightarrow> w = 4 \<and> (\<exists>b1 b2 b3 t. bs = b1 # b2 # b3 # t \<and> 0x80 \<le> b1 \<and> 0x80 \<le> b2 \<and> 0x80 \<le> b3
     \<and> (\<forall>cs. rune4 b (b1 # b2 # b3 # cs) = Some (r, w)))"
  by (auto simp: rune4_def is_cont_def split: list.splits if_splits)

text \<open>A rune depends on its own bytes only.\<close>

lemma multi_rune_local:
  assumes "multi_rune b bs = Some (r, w)"
  shows "2 \<le> w \<and> 0x80 \<le> b \<and> (\<exists>u t. bs = u @ t \<and> length u = w - 1 \<and> list_all ((\<le>) 0x80) u \<and> (\<forall>cs. multi_rune b (u @ cs) = Some (r, w)))"
proof -
  have b: "0x80 \<le> b" using assms by (auto simp: multi_rune_def split: if_splits)
  have "(b \<le> 0xDF \<and> rune2 b bs = Some (r, w)) \<or> (\<not> b \<le> 0xDF \<and> b \<le> 0xEF \<and> rune3 b bs = Some (r, w)) \<or> (\<not> b \<le> 0xEF \<and> rune4 b bs = Some (r, w))"
    using assms b by (simp add: multi_rune_def split: if_splits)
  then show ?thesis
  proof (elim disjE conjE)
    assume le: "b \<le> 0xDF" and "rune2 b bs = Some (r, w)"
    then obtain b1 t where "w = 2" "bs = b1 # t" "0x80 \<le> b1" "\<forall>cs. rune2 b (b1 # cs) = Some (r, w)" using rune2_local by blast
    then show ?thesis using b le by (intro conjI exI [of _ "[b1]"] exI [of _ t]) (auto simp: multi_rune_def)
  next
    assume le: "\<not> b \<le> 0xDF" "b \<le> 0xEF" and "rune3 b bs = Some (r, w)"
    then obtain b1 b2 t where "w = 3" "bs = b1 # b2 # t" "0x80 \<le> b1" "0x80 \<le> b2" "\<forall>cs. rune3 b (b1 # b2 # cs) = Some (r, w)"
      using rune3_local by blast
    then show ?thesis using b le by (intro conjI exI [of _ "[b1, b2]"] exI [of _ t]) (auto simp: multi_rune_def)
  next
    assume le: "\<not> b \<le> 0xEF" and "rune4 b bs = Some (r, w)"
    then obtain b1 b2 b3 t where "w = 4" "bs = b1 # b2 # b3 # t" "0x80 \<le> b1" "0x80 \<le> b2" "0x80 \<le> b3"
      "\<forall>cs. rune4 b (b1 # b2 # b3 # cs) = Some (r, w)" using rune4_local by blast
    then show ?thesis using b le by (intro conjI exI [of _ "[b1, b2, b3]"] exI [of _ t]) (auto simp: multi_rune_def)
  qed
qed

lemma rune2_ge: "rune2 b bs = Some (r, w) \<Longrightarrow> 0x80 \<le> r"
  by (auto simp: rune2_def is_cont_def split: list.splits if_splits)

lemma rune3_ge: "0xE0 \<le> b \<Longrightarrow> rune3 b bs = Some (r, w) \<Longrightarrow> 0x80 \<le> r"
  by (cases "b = 0xE0") (auto simp: rune3_def is_cont_def split: list.splits if_splits)

lemma rune4_ge: "0xF0 \<le> b \<Longrightarrow> rune4 b bs = Some (r, w) \<Longrightarrow> 0x80 \<le> r"
  by (cases "b = 0xF0") (auto simp: rune4_def is_cont_def split: list.splits if_splits)

lemma multi_rune_ge: "multi_rune b bs = Some (r, w) \<Longrightarrow> 0x80 \<le> r"
  using rune2_ge [of b bs r w] rune3_ge [of b bs r w] rune4_ge [of b bs r w] by (auto simp: multi_rune_def split: if_splits)

lemma decode_rune_width: "1 \<le> snd (decode_rune b bs)"
proof (cases "multi_rune b bs")
  case (Some x)
  then show ?thesis using multi_rune_local [of b bs "fst x" "snd x"] by (auto simp: decode_rune_def)
qed (simp add: decode_rune_def)

function decode_runes :: "int list \<Rightarrow> (int \<times> nat) list" where
  "decode_runes [] = []"
| "decode_runes (b # bs) = decode_rune b bs # decode_runes (drop (snd (decode_rune b bs) - 1) bs)"
  by pat_completeness auto
termination
  by (relation "measure length") auto

declare decode_runes.simps [simp del]

definition bytes :: "string \<Rightarrow> int list" where
  "bytes s = map of_char s"

definition rune_widths :: "string \<Rightarrow> (int \<times> nat) list" where
  "rune_widths s = decode_runes (bytes s)"

definition runes :: "string \<Rightarrow> int list" where
  "runes s = map fst (rune_widths s)"

definition valid_utf8 :: "string \<Rightarrow> bool" where
  "valid_utf8 s \<longleftrightarrow> list_all (\<lambda>r. r \<noteq> (rune_error, 1)) (rune_widths s)"

subsection \<open>Regular expressions\<close>

datatype re =
    RClass "int \<Rightarrow> bool"
  | RStar "int \<Rightarrow> bool"
  | RUpTo nat "int \<Rightarrow> bool"
  | RSeq "re list"
  | RAlt "re list"
  | ROpt re
  | RBegin
  | REnd
  | RWordB

type_synonym text_pos = "int option \<times> (int \<times> nat) list"

definition word_rune :: "int \<Rightarrow> bool" where
  "word_rune c \<longleftrightarrow> 48 \<le> c \<and> c \<le> 57 \<or> 65 \<le> c \<and> c \<le> 90 \<or> c = 95 \<or> 97 \<le> c \<and> c \<le> 122"

definition word_at :: "int option \<Rightarrow> bool" where
  "word_at c = (case c of None \<Rightarrow> False | Some r \<Rightarrow> word_rune r)"

fun next_rune :: "(int \<times> nat) list \<Rightarrow> int option" where
  "next_rune [] = None"
| "next_rune ((r, w) # ws) = Some r"

text \<open>The positions after at most \<open>n\<close> (or any number of) runes of a class, the farthest first.\<close>

fun star_ends :: "(int \<Rightarrow> bool) \<Rightarrow> int option \<Rightarrow> (int \<times> nat) list \<Rightarrow> text_pos list" where
  "star_ends p prev [] = [(prev, [])]"
| "star_ends p prev ((r, w) # ws) = (if p r then star_ends p (Some r) ws @ [(prev, (r, w) # ws)] else [(prev, (r, w) # ws)])"

fun upto_ends :: "nat \<Rightarrow> (int \<Rightarrow> bool) \<Rightarrow> int option \<Rightarrow> (int \<times> nat) list \<Rightarrow> text_pos list" where
  "upto_ends n p prev [] = [(prev, [])]"
| "upto_ends 0 p prev ws = [(prev, ws)]"
| "upto_ends (Suc n) p prev ((r, w) # ws) =
     (if p r then upto_ends n p (Some r) ws @ [(prev, (r, w) # ws)] else [(prev, (r, w) # ws)])"

text \<open>The positions a match can end at, in order of preference.\<close>

fun re_ends :: "re \<Rightarrow> text_pos \<Rightarrow> text_pos list"
  and seq_ends :: "re list \<Rightarrow> text_pos \<Rightarrow> text_pos list"
  and alt_ends :: "re list \<Rightarrow> text_pos \<Rightarrow> text_pos list" where
  "re_ends (RClass p) (prev, ws) = (case ws of [] \<Rightarrow> [] | (r, w) # ws' \<Rightarrow> if p r then [(Some r, ws')] else [])"
| "re_ends (RStar p) (prev, ws) = star_ends p prev ws"
| "re_ends (RUpTo n p) (prev, ws) = upto_ends n p prev ws"
| "re_ends (RSeq rs) pos = seq_ends rs pos"
| "re_ends (RAlt rs) pos = alt_ends rs pos"
| "re_ends (ROpt r) pos = re_ends r pos @ [pos]"
| "re_ends RBegin (prev, ws) = (if prev = None then [(prev, ws)] else [])"
| "re_ends REnd (prev, ws) = (if ws = [] then [(prev, ws)] else [])"
| "re_ends RWordB (prev, ws) = (if word_at prev \<noteq> word_at (next_rune ws) then [(prev, ws)] else [])"
| "seq_ends [] pos = [pos]"
| "seq_ends (r # rs) pos = concat (map (seq_ends rs) (re_ends r pos))"
| "alt_ends [] pos = []"
| "alt_ends (r # rs) pos = re_ends r pos @ alt_ends rs pos"

definition widths :: "(int \<times> nat) list \<Rightarrow> nat" where
  "widths ws = sum_list (map snd ws)"

text \<open>\<^verbatim>\<open>FindStringIndex\<close>: the byte offsets of the leftmost match.\<close>

fun find_from :: "re \<Rightarrow> nat \<Rightarrow> int option \<Rightarrow> (int \<times> nat) list \<Rightarrow> (nat \<times> nat) option" where
  "find_from r n prev [] = (case re_ends r (prev, []) of [] \<Rightarrow> None | (_, ws) # _ \<Rightarrow> Some (n, n - widths ws))"
| "find_from r n prev ((c, w) # rest) = (case re_ends r (prev, (c, w) # rest) of
     [] \<Rightarrow> find_from r n (Some c) rest
   | (_, ws) # _ \<Rightarrow> Some (n - widths ((c, w) # rest), n - widths ws))"

definition FindStringIndex :: "re \<Rightarrow> string \<Rightarrow> (nat \<times> nat) option" where
  "FindStringIndex r s = find_from r (length s) None (rune_widths s)"

definition MatchString :: "re \<Rightarrow> string \<Rightarrow> bool" where
  "MatchString r s \<longleftrightarrow> FindStringIndex r s \<noteq> None"

subsection \<open>Matches on runes\<close>

text \<open>Widths and the rune before do not matter for patterns without word boundaries: only the runes do.\<close>

lemma decode_runes_Nil [simp]: "decode_runes [] = []"
  by (simp add: decode_runes.simps)

lemma decode_runes_ascii [simp]: "b < 0x80 \<Longrightarrow> decode_runes (b # bs) = (b, 1) # decode_runes bs"
  by (simp add: decode_runes.simps decode_rune_def)

lemma decode_runes_multi:
  assumes "multi_rune b bs = Some (r, w)"
  obtains u t where "bs = u @ t" "list_all ((\<le>) 0x80) (b # u)" "\<And>cs. decode_runes (b # u @ cs) = (r, w) # decode_runes cs"
proof -
  from multi_rune_local [OF assms] obtain u t where u: "2 \<le> w" "0x80 \<le> b" "bs = u @ t" "length u = w - 1" "list_all ((\<le>) 0x80) u"
    "\<forall>cs. multi_rune b (u @ cs) = Some (r, w)" by blast
  then have "decode_runes (b # u @ cs) = (r, w) # decode_runes cs" for cs
    by (simp add: decode_runes.simps decode_rune_def)
  with u that show ?thesis by simp
qed

end
