(* ===== verification/Glob.thy ===== *)
theory Glob
  imports Go_Regexp Review_Request
begin

text \<open>
  Path patterns of a policy: \<^verbatim>\<open>globToRegexp\<close>, \<^verbatim>\<open>compilePatterns\<close> and \<^verbatim>\<open>matchesAny\<close> of \<^verbatim>\<open>internal/context/assembler.go\<close>, with the
  fragment of the syntax of \<^verbatim>\<open>regexp\<close> that \<^verbatim>\<open>globToRegexp\<close> writes.
\<close>

subsection \<open>From a pattern to a regular expression\<close>

definition specials :: string where
  "specials = [CHR ''.'', CHR ''+'', CHR 0x28, CHR 0x29, CHR 0x7C, CHR 0x5E, CHR 0x24, CHR 0x7B, CHR 0x7D, CHR 0x5B, CHR 0x5D, CHR 0x5C]"

fun glob_body :: "string \<Rightarrow> string" where
  "glob_body [] = []"
| "glob_body (ch # s) =
     (if ch = CHR ''*'' then
        (case s of
           c # t \<Rightarrow> if c = CHR ''*'' then ''.*'' @ glob_body t else ''[^/]*'' @ glob_body s
         | [] \<Rightarrow> ''[^/]*'')
      else if ch = CHR 0x3F then ''[^/]'' @ glob_body s
      else if ch \<in> set specials then CHR 0x5C # ch # glob_body s
      else ch # glob_body s)"

definition globToRegexp :: "string \<Rightarrow> string" where
  "globToRegexp pattern = ''^'' @ glob_body pattern @ ''$''"

text \<open>\<^verbatim>\<open>regexp.Compile\<close> on this fragment: an error for invalid UTF-8 and for a dangling operator.\<close>

definition not_newline :: "int \<Rightarrow> bool" where
  "not_newline c \<longleftrightarrow> c \<noteq> 10"

definition not_slash :: "int \<Rightarrow> bool" where
  "not_slash c \<longleftrightarrow> c \<noteq> 47"

definition alnum_rune :: "int \<Rightarrow> bool" where
  "alnum_rune c \<longleftrightarrow> 48 \<le> c \<and> c \<le> 57 \<or> 65 \<le> c \<and> c \<le> 90 \<or> 97 \<le> c \<and> c \<le> 122"

fun parse_re :: "int list \<Rightarrow> re list option" where
  "parse_re [] = Some []"
| "parse_re (c # cs) =
     (if c = 94 then map_option ((#) RBegin) (parse_re cs)
      else if c = 36 then map_option ((#) REnd) (parse_re cs)
      else if c = 46 then
        (if take 1 cs = [42] then map_option ((#) (RStar not_newline)) (parse_re (drop 1 cs))
         else map_option ((#) (RClass not_newline)) (parse_re cs))
      else if c = 91 then
        (if take 4 cs = [94, 47, 93, 42] then map_option ((#) (RStar not_slash)) (parse_re (drop 4 cs))
         else if take 3 cs = [94, 47, 93] then map_option ((#) (RClass not_slash)) (parse_re (drop 3 cs))
         else None)
      else if c = 92 then
        (case cs of
           [] \<Rightarrow> None
         | x # cs' \<Rightarrow> if x < 0x80 \<and> \<not> alnum_rune x then map_option ((#) (RClass ((=) x))) (parse_re cs') else None)
      else if c \<in> {40, 41, 42, 43, 63, 123, 124} then None
      else map_option ((#) (RClass ((=) c))) (parse_re cs))"

definition regexp_Compile :: "string \<Rightarrow> re option" where
  "regexp_Compile s = (if valid_utf8 s then map_option RSeq (parse_re (runes s)) else None)"

fun compilePatterns :: "string list \<Rightarrow> re list option" where
  "compilePatterns [] = Some []"
| "compilePatterns (p # ps) =
     (let pattern = context_normalizePath p in
      if pattern = [] then compilePatterns ps
      else case regexp_Compile (globToRegexp pattern) of
        None \<Rightarrow> None
      | Some r \<Rightarrow> map_option ((#) r) (compilePatterns ps))"

definition matchesAny :: "string \<Rightarrow> re list \<Rightarrow> bool" where
  "matchesAny path patterns = list_ex (\<lambda>r. MatchString r (context_normalizePath path)) patterns"

subsection \<open>What a pattern means\<close>

text \<open>A double star stands for any text without a line break, a star for any text without a slash, a question mark
  for one rune that is not a slash, every other rune for itself.\<close>

datatype glob_token = AnyPath | AnySegment | AnyRune | Rune int

fun glob_tokens :: "int list \<Rightarrow> glob_token list" where
  "glob_tokens [] = []"
| "glob_tokens (c # cs) =
     (if c = 42 then (if take 1 cs = [42] then AnyPath # glob_tokens (drop 1 cs) else AnySegment # glob_tokens cs)
      else if c = 63 then AnyRune # glob_tokens cs
      else Rune c # glob_tokens cs)"

inductive glob_matches :: "glob_token list \<Rightarrow> int list \<Rightarrow> bool" where
  nothing: "glob_matches [] []"
| any_path: "list_all not_newline u \<Longrightarrow> glob_matches ts s \<Longrightarrow> glob_matches (AnyPath # ts) (u @ s)"
| any_segment: "list_all not_slash u \<Longrightarrow> glob_matches ts s \<Longrightarrow> glob_matches (AnySegment # ts) (u @ s)"
| any_rune: "not_slash c \<Longrightarrow> glob_matches ts s \<Longrightarrow> glob_matches (AnyRune # ts) (c # s)"
| rune: "glob_matches ts s \<Longrightarrow> glob_matches (Rune c # ts) (c # s)"

inductive_simps glob_matches_simps [simp]:
  "glob_matches [] s" "glob_matches (AnyPath # ts) s" "glob_matches (AnySegment # ts) s" "glob_matches (AnyRune # ts) s" "glob_matches (Rune c # ts) s"

fun token_re :: "glob_token \<Rightarrow> re" where
  "token_re AnyPath = RStar not_newline"
| "token_re AnySegment = RStar not_slash"
| "token_re AnyRune = RClass not_slash"
| "token_re (Rune c) = RClass ((=) c)"

subsection \<open>Matching\<close>

lemma star_ends_set:
  "(\<exists>pos \<in> set (star_ends p prev ws). Q (map fst (snd pos))) \<longleftrightarrow> (\<exists>u v. map fst ws = u @ v \<and> list_all p u \<and> Q v)"
proof (induction p prev ws rule: star_ends.induct)
  case (1 p prev)
  then show ?case by simp
next
  case (2 p prev r w ws)
  show ?case
  proof
    assume "\<exists>pos \<in> set (star_ends p prev ((r, w) # ws)). Q (map fst (snd pos))"
    then have "Q (r # map fst ws) \<or> p r \<and> (\<exists>pos \<in> set (star_ends p (Some r) ws). Q (map fst (snd pos)))"
      by (auto split: if_splits)
    then show "\<exists>u v. map fst ((r, w) # ws) = u @ v \<and> list_all p u \<and> Q v"
    proof
      assume "Q (r # map fst ws)"
      then show ?thesis by (intro exI [of _ "[]"] exI [of _ "r # map fst ws"]) simp
    next
      assume "p r \<and> (\<exists>pos \<in> set (star_ends p (Some r) ws). Q (map fst (snd pos)))"
      then obtain u v where "p r" "map fst ws = u @ v" "list_all p u" "Q v" using 2 by auto
      then show ?thesis by (intro exI [of _ "r # u"] exI [of _ v]) simp
    qed
  next
    assume "\<exists>u v. map fst ((r, w) # ws) = u @ v \<and> list_all p u \<and> Q v"
    then obtain u v where uv: "r # map fst ws = u @ v" "list_all p u" "Q v" by auto
    show "\<exists>pos \<in> set (star_ends p prev ((r, w) # ws)). Q (map fst (snd pos))"
    proof (cases u)
      case Nil
      then show ?thesis using uv by (cases "p r") auto
    next
      case (Cons x u')
      then have "p r" "\<exists>u v. map fst ws = u @ v \<and> list_all p u \<and> Q v" using uv by auto
      then show ?thesis using 2 by auto
    qed
  qed
qed

lemma concat_map_not_Nil: "concat (map f xs) \<noteq> [] \<longleftrightarrow> (\<exists>x \<in> set xs. f x \<noteq> [])"
  by auto

text \<open>The regular expression of a pattern, anchored at the end, matches exactly what the pattern means.\<close>

lemma token_res_match:
  "seq_ends (map token_re ts @ [REnd]) (prev, ws) \<noteq> [] \<longleftrightarrow> glob_matches ts (map fst ws)"
proof (induction ts arbitrary: prev ws)
  case Nil
  then show ?case by simp
next
  case (Cons t ts)
  have IH: "seq_ends (map token_re ts @ [REnd]) pos \<noteq> [] \<longleftrightarrow> glob_matches ts (map fst (snd pos))" for pos
    using Cons.IH [of "fst pos" "snd pos"] by simp
  have step: "seq_ends (map token_re (t # ts) @ [REnd]) (prev, ws) \<noteq> []
      \<longleftrightarrow> (\<exists>pos \<in> set (re_ends (token_re t) (prev, ws)). glob_matches ts (map fst (snd pos)))"
    using IH by (simp add: concat_map_not_Nil)
  show ?case
  proof (cases t)
    case AnyPath
    then show ?thesis unfolding step using star_ends_set [of not_newline prev ws "glob_matches ts"] by simp
  next
    case AnySegment
    then show ?thesis unfolding step using star_ends_set [of not_slash prev ws "glob_matches ts"] by simp
  next
    case AnyRune
    then show ?thesis unfolding step by (cases ws) auto
  next
    case (Rune c)
    then show ?thesis unfolding step by (cases ws) auto
  qed
qed

lemma find_anchored_later: "find_from (RSeq (RBegin # rs)) n (Some c) ws = None"
  by (induction ws arbitrary: c) auto

lemma find_anchored: "find_from (RSeq (RBegin # rs)) n None ws \<noteq> None \<longleftrightarrow> seq_ends rs (None, ws) \<noteq> []"
  by (cases ws) (auto simp: find_anchored_later split: list.splits)

subsection \<open>Reading what \<^verbatim>\<open>globToRegexp\<close> writes\<close>

fun rune_body :: "int list \<Rightarrow> int list" where
  "rune_body [] = []"
| "rune_body (c # cs) =
     (if c = 42 then (if take 1 cs = [42] then [46, 42] @ rune_body (drop 1 cs) else [91, 94, 47, 93, 42] @ rune_body cs)
      else if c = 63 then [91, 94, 47, 93] @ rune_body cs
      else if c \<in> set (bytes specials) then [92, c] @ rune_body cs
      else c # rune_body cs)"

lemma bytes_specials: "bytes specials = [46, 43, 40, 41, 124, 94, 36, 123, 125, 91, 93, 92]"
  by (simp add: bytes_def specials_def)

lemma rune_body_first: "take 1 (rune_body cs @ [36]) \<noteq> [42]"
  by (cases cs) (auto simp: bytes_specials)

lemma parse_rune_body: "parse_re (rune_body cs @ [36]) = Some (map token_re (glob_tokens cs) @ [REnd])"
proof (induction cs rule: rune_body.induct)
  case (2 c cs)
  have h: "take (Suc 0) (rune_body cs @ [36]) \<noteq> [42]" using rune_body_first [of cs] by simp
  consider "c = 42" "take 1 cs = [42]" | "c = 42" "take 1 cs \<noteq> [42]" | "c = 63" | "c \<noteq> 42" "c \<noteq> 63" "c \<in> set (bytes specials)"
    | "c \<noteq> 42" "c \<noteq> 63" "c \<notin> set (bytes specials)" by blast
  then show ?case
  proof cases
    case 4
    then have "c < 0x80 \<and> \<not> alnum_rune c" by (auto simp: bytes_specials alnum_rune_def)
    then show ?thesis using 4 "2.IH"(4) by simp
  next
    case 5
    then have "c \<notin> {94, 36, 46, 91, 92, 40, 41, 42, 43, 63, 123, 124}" by (auto simp: bytes_specials)
    then show ?thesis using 5 "2.IH"(5) by simp
  qed (use "2.IH" h in \<open>simp_all add: not_slash_def [abs_def]\<close>)
qed simp

definition sound_runes :: "(int \<times> nat) list \<Rightarrow> bool" where
  "sound_runes ws = list_all (\<lambda>r. r \<noteq> (rune_error, 1)) ws"

lemma bytes_simps [simp]: "bytes [] = []" "bytes (c # s) = of_char c # bytes s" "bytes (s @ t) = bytes s @ bytes t"
  by (simp_all add: bytes_def)

lemma special_byte: "(of_char c :: int) \<in> set (bytes specials) \<longleftrightarrow> c \<in> set specials"
  by (auto simp: bytes_def)

lemma special_ascii: "c \<in> set specials \<Longrightarrow> (of_char c :: int) < 128"
  by (auto simp: specials_def)

lemma glob_body_plain:
  "list_all (\<lambda>c. 128 \<le> (of_char c :: int)) u \<Longrightarrow> glob_body (u @ s) = u @ glob_body s"
proof (induction u)
  case (Cons c u)
  then have "128 \<le> (of_char c :: int)" by simp
  then have "c \<noteq> CHR ''*''" "c \<noteq> CHR 0x3F" "c \<notin> set specials" using special_ascii [of c] by auto
  then show ?case using Cons by simp
qed simp

lemma bytes_append_conv: "bytes s = u @ t \<Longrightarrow> \<exists>u' t'. s = u' @ t' \<and> bytes u' = u \<and> bytes t' = t"
  by (auto simp: bytes_def map_eq_append_conv)

text \<open>A sound text begins with an ASCII character or with the bytes of one larger rune.\<close>

lemma sound_cases:
  assumes "sound_runes (decode_runes (bytes (ch # s)))"
  shows "((of_char ch :: int) < 0x80 \<and> sound_runes (decode_runes (bytes s)))
    \<or> (\<exists>u t r w. s = u @ t \<and> list_all (\<lambda>c. 128 \<le> (of_char c :: int)) (ch # u) \<and> 128 \<le> r \<and> (r, w) \<noteq> (rune_error, 1)
         \<and> (\<forall>cs. decode_runes (bytes (ch # u) @ cs) = (r, w) # decode_runes cs) \<and> sound_runes (decode_runes (bytes t)))"
proof (cases "(of_char ch :: int) < 0x80")
  case True
  then show ?thesis using assms by (simp add: sound_runes_def)
next
  case False
  then obtain r w where m: "multi_rune (of_char ch) (bytes s) = Some (r, w)"
    using assms by (auto simp: sound_runes_def decode_runes.simps decode_rune_def split: option.splits)
  obtain u t where u: "bytes s = u @ t" "list_all ((\<le>) 0x80) (of_char ch # u)"
    "\<And>cs. decode_runes (of_char ch # u @ cs) = (r, w) # decode_runes cs"
    using decode_runes_multi [OF m] by metis
  obtain u' t' where s: "s = u' @ t'" "bytes u' = u" "bytes t' = t" using bytes_append_conv [OF u(1)] by blast
  have "decode_runes (bytes (ch # s)) = (r, w) # decode_runes t" using u(1,3) by simp
  then have "(r, w) \<noteq> (rune_error, 1)" "sound_runes (decode_runes (bytes t'))" using assms s(3) by (simp_all add: sound_runes_def)
  moreover have "list_all (\<lambda>c. 128 \<le> (of_char c :: int)) (ch # u')"
    using u(2) s(2) by (auto simp: bytes_def list_all_iff)
  moreover have "\<forall>cs. decode_runes (bytes (ch # u') @ cs) = (r, w) # decode_runes cs" using u(3) s(2) by simp
  ultimately show ?thesis using s(1) multi_rune_ge [OF m] by blast
qed

lemma first_rune_star:
  assumes "sound_runes (decode_runes (bytes s))"
  shows "take 1 (map fst (decode_runes (bytes s))) = [42] \<longleftrightarrow> (\<exists>t. s = CHR ''*'' # t)"
proof (cases s)
  case (Cons d r)
  have star: "(of_char d :: int) = 42 \<longleftrightarrow> d = CHR ''*''" using of_char_eq_iff [of d "CHR ''*''", where 'a = int] by simp
  from sound_cases [OF assms [unfolded Cons]] show ?thesis
  proof
    assume "(of_char d :: int) < 0x80 \<and> sound_runes (decode_runes (bytes r))"
    then show ?thesis using star Cons by auto
  next
    assume "\<exists>u t x w. r = u @ t \<and> list_all (\<lambda>c. 128 \<le> (of_char c :: int)) (d # u) \<and> 128 \<le> x \<and> (x, w) \<noteq> (rune_error, 1)
         \<and> (\<forall>cs. decode_runes (bytes (d # u) @ cs) = (x, w) # decode_runes cs) \<and> sound_runes (decode_runes (bytes t))"
    then obtain u t x w where m: "r = u @ t" "128 \<le> (of_char d :: int)" "128 \<le> x" "\<And>cs. decode_runes (bytes (d # u) @ cs) = (x, w) # decode_runes cs"
      by auto
    then have "decode_runes (bytes s) = (x, w) # decode_runes (bytes t)" using m(4) [of "bytes t"] Cons by simp
    then show ?thesis using m(2,3) Cons star by auto
  qed
qed simp

lemma glob_body_runes:
  assumes "sound_runes (decode_runes (bytes p))"
  shows "\<exists>X. decode_runes (bytes (glob_body p) @ cs) = X @ decode_runes cs \<and> sound_runes X
    \<and> map fst X = rune_body (map fst (decode_runes (bytes p)))"
  using assms
proof (induction p rule: length_induct)
  case (1 p)
  have IH: "\<exists>X. decode_runes (bytes (glob_body t) @ cs) = X @ decode_runes cs \<and> sound_runes X
      \<and> map fst X = rune_body (map fst (decode_runes (bytes t)))" if "length t < length p" "sound_runes (decode_runes (bytes t))" for t
    using 1 that by blast
  show ?case
  proof (cases p)
    case Nil
    then show ?thesis by (simp add: sound_runes_def)
  next
    case (Cons ch s)
    let ?b = "of_char ch :: int"
    have star: "?b = 42 \<longleftrightarrow> ch = CHR ''*''" and quest: "?b = 63 \<longleftrightarrow> ch = CHR 0x3F"
      using of_char_eq_iff [of ch "CHR ''*''", where 'a = int] of_char_eq_iff [of ch "CHR 0x3F", where 'a = int] by simp_all
    from sound_cases [OF 1(2) [unfolded Cons]] show ?thesis
    proof
      assume a: "?b < 0x80 \<and> sound_runes (decode_runes (bytes s))"
      obtain X where X: "decode_runes (bytes (glob_body s) @ cs) = X @ decode_runes cs" "sound_runes X"
        "map fst X = rune_body (map fst (decode_runes (bytes s)))" using IH [of s] a Cons by auto
      show ?thesis
      proof (cases "ch = CHR ''*'' \<and> (\<exists>t. s = CHR ''*'' # t)")
        case True
        then obtain t where t: "s = CHR ''*'' # t" by blast
        obtain Y where "decode_runes (bytes (glob_body t) @ cs) = Y @ decode_runes cs" "sound_runes Y"
          "map fst Y = rune_body (map fst (decode_runes (bytes t)))" using IH [of t] a Cons t by (auto simp: sound_runes_def)
        then show ?thesis using True Cons t
          by (intro exI [of _ "(46, 1) # (42, 1) # Y"]) (simp add: sound_runes_def rune_error_def)
      next
        case single: False
        show ?thesis
        proof (cases "ch = CHR ''*''")
          case True
          then have "glob_body p = ''[^/]*'' @ glob_body s" using single Cons by (auto split: list.splits)
          moreover have "take 1 (map fst (decode_runes (bytes s))) \<noteq> [42]" using first_rune_star [of s] a single True by blast
          ultimately show ?thesis using X Cons True
            by (intro exI [of _ "(91, 1) # (94, 1) # (47, 1) # (93, 1) # (42, 1) # X"]) (simp add: sound_runes_def rune_error_def)
        next
          case False
          then show ?thesis using X Cons a star quest special_byte [of ch]
            by (intro exI [of _ "(if ch = CHR 0x3F then [(91, 1), (94, 1), (47, 1), (93, 1)]
                else if ch \<in> set specials then [(92, 1), (?b, 1)] else [(?b, 1)]) @ X"])
               (simp add: sound_runes_def rune_error_def)
        qed
      qed
    next
      assume "\<exists>u t r w. s = u @ t \<and> list_all (\<lambda>c. 128 \<le> (of_char c :: int)) (ch # u) \<and> 128 \<le> r \<and> (r, w) \<noteq> (rune_error, 1)
         \<and> (\<forall>cs. decode_runes (bytes (ch # u) @ cs) = (r, w) # decode_runes cs) \<and> sound_runes (decode_runes (bytes t))"
      then obtain u t r w where m: "s = u @ t" "list_all (\<lambda>c. 128 \<le> (of_char c :: int)) (ch # u)" "128 \<le> r" "(r, w) \<noteq> (rune_error, 1)"
        "\<And>cs. decode_runes (bytes (ch # u) @ cs) = (r, w) # decode_runes cs" "sound_runes (decode_runes (bytes t))" by blast
      obtain X where X: "decode_runes (bytes (glob_body t) @ cs) = X @ decode_runes cs" "sound_runes X"
        "map fst X = rune_body (map fst (decode_runes (bytes t)))" using IH [of t] m Cons by auto
      have "glob_body p = (ch # u) @ glob_body t" using glob_body_plain [OF m(2), of t] Cons m(1) by simp
      then have d: "decode_runes (bytes (glob_body p) @ cs) = (r, w) # X @ decode_runes cs"
        using m(5) [of "bytes (glob_body t) @ cs"] X(1) by simp
      have "decode_runes (bytes p) = (r, w) # decode_runes (bytes t)" using m(5) [of "bytes t"] Cons m(1) by simp
      moreover have "r \<noteq> 42" "r \<noteq> 63" "r \<notin> set (bytes specials)" using m(3) by (auto simp: bytes_specials)
      ultimately show ?thesis using d X(2,3) m(4) by (intro exI [of _ "(r, w) # X"]) (simp add: sound_runes_def)
    qed
  qed
qed

lemma globToRegexp_runes:
  assumes "valid_utf8 p"
  shows "valid_utf8 (globToRegexp p)" "runes (globToRegexp p) = 94 # rune_body (runes p) @ [36]"
proof -
  have "sound_runes (decode_runes (bytes p))" using assms by (simp add: valid_utf8_def rune_widths_def sound_runes_def)
  from glob_body_runes [OF this, of "[36]"] obtain X where X: "decode_runes (bytes (glob_body p) @ [36]) = X @ [(36, 1)]" "sound_runes X"
    "map fst X = rune_body (map fst (decode_runes (bytes p)))" by auto
  then have "rune_widths (globToRegexp p) = (94, 1) # X @ [(36, 1)]" by (simp add: rune_widths_def globToRegexp_def)
  then show "valid_utf8 (globToRegexp p)" "runes (globToRegexp p) = 94 # rune_body (runes p) @ [36]"
    using X(2,3) by (simp_all add: valid_utf8_def sound_runes_def rune_error_def runes_def rune_widths_def)
qed

lemma glob_compiles:
  assumes "valid_utf8 p"
  shows "regexp_Compile (globToRegexp p) = Some (RSeq (RBegin # map token_re (glob_tokens (runes p)) @ [REnd]))"
  using globToRegexp_runes [OF assms] parse_rune_body [of "runes p"] by (simp add: regexp_Compile_def)

lemma glob_match:
  "MatchString (RSeq (RBegin # map token_re ts @ [REnd])) s \<longleftrightarrow> glob_matches ts (runes s)"
  using find_anchored [of "map token_re ts @ [REnd]" "length s" "rune_widths s"] token_res_match [of ts None "rune_widths s"]
  by (simp add: MatchString_def FindStringIndex_def runes_def)

text \<open>C26 (path patterns). When the patterns of a policy are valid UTF-8 they compile, and a path matches one of them
  exactly when the pattern, read as a glob, matches it: a double star crosses directories, a star and a question
  mark stay within one, every other character stands for itself; blank patterns match nothing.\<close>

theorem matchesAny_glob:
  assumes "list_all (\<lambda>p. valid_utf8 (context_normalizePath p)) patterns"
  shows "\<exists>rs. compilePatterns patterns = Some rs
    \<and> matchesAny path rs = list_ex (\<lambda>p. context_normalizePath p \<noteq> []
        \<and> glob_matches (glob_tokens (runes (context_normalizePath p))) (runes (context_normalizePath path))) patterns"
  using assms
proof (induction patterns)
  case (Cons p ps)
  then obtain rs where "compilePatterns ps = Some rs"
    "matchesAny path rs = list_ex (\<lambda>p. context_normalizePath p \<noteq> []
        \<and> glob_matches (glob_tokens (runes (context_normalizePath p))) (runes (context_normalizePath path))) ps" by auto
  then show ?case using Cons.prems by (auto simp: Let_def matchesAny_def glob_compiles glob_match)
qed (simp add: matchesAny_def)

theorem matchesAny_glob_witness:
  "\<exists>rs. compilePatterns [''internal/**'', ''*.md''] = Some rs
    \<and> matchesAny ''internal/a/b.go'' rs = list_ex (\<lambda>p. context_normalizePath p \<noteq> []
        \<and> glob_matches (glob_tokens (runes (context_normalizePath p))) (runes (context_normalizePath ''internal/a/b.go'')))
        [''internal/**'', ''*.md'']"
proof (rule matchesAny_glob)
  show "list_all (\<lambda>p. valid_utf8 (context_normalizePath p)) [''internal/**'', ''*.md'']" by code_simp
qed

lemma glob_examples:
  "map_option (map (\<lambda>r. map (MatchString r) [''internal/a/b.go'', ''README.md'', ''docs/x.md''])) (compilePatterns [''internal/**'', ''*.md'', ''./'', ''docs/?.md''])
   = Some [[True, False, False], [False, True, False], [False, False, True]]"
  by code_simp

end
