(* ===== verification/Go_Float.thy ===== *)
theory Go_Float
  imports Main Complex_Main "HOL-Library.Log_Nat"
begin

text \<open>
  The \<^verbatim>\<open>float64\<close> arithmetic of the coverage computation. A finite \<^verbatim>\<open>float64\<close> is the rational it denotes;
  an operation is the exact one followed by rounding to 53 significant bits, ties to even. The
  exponent range is not modelled: the operands are quotients of 64-bit integers and percentages of
  them, far inside it.
\<close>

definition half_even :: "rat \<Rightarrow> int" where
  "half_even y =
     (let f = \<lfloor>y\<rfloor>; d = y - of_int f in
      if d < 1 / 2 then f else if d > 1 / 2 then f + 1 else if even f then f else f + 1)"

text \<open>The binary exponent of a positive rational \<open>p / q\<close> is the difference of the bit lengths or one
  less.\<close>

definition exponent :: "rat \<Rightarrow> int" where
  "exponent x =
     (case quotient_of x of (p, q) \<Rightarrow>
        let e = bitlen p - bitlen q in if x < 2 powi e then e - 1 else e)"

definition round53 :: "rat \<Rightarrow> rat" where
  "round53 x =
     (if x = 0 then 0
      else let ulp = 2 powi (exponent \<bar>x\<bar> - 52) in of_int (half_even (x / ulp)) * ulp)"

definition float_of_int :: "int \<Rightarrow> rat" where
  "float_of_int i = round53 (of_int i)"

definition fdiv :: "rat \<Rightarrow> rat \<Rightarrow> rat" where
  "fdiv x y = round53 (x / y)"

definition fmul :: "rat \<Rightarrow> rat \<Rightarrow> rat" where
  "fmul x y = round53 (x * y)"

definition fadd :: "rat \<Rightarrow> rat \<Rightarrow> rat" where
  "fadd x y = round53 (x + y)"

text \<open>The conversion \<^verbatim>\<open>int(f)\<close> truncates.\<close>

definition int_of_float :: "rat \<Rightarrow> int" where
  "int_of_float x = (if x \<ge> 0 then \<lfloor>x\<rfloor> else \<lceil>x\<rceil>)"

subsection \<open>Error of the rounding\<close>

lemma half_even_error: "\<bar>of_int (half_even y) - y\<bar> \<le> 1 / 2"
proof -
  have "of_int \<lfloor>y\<rfloor> \<le> y" "y < of_int \<lfloor>y\<rfloor> + 1" by linarith+
  then show ?thesis unfolding half_even_def Let_def abs_if by (auto split: if_splits; linarith)
qed

lemma half_even_int [simp]: "half_even (of_int i) = i"
  by (simp add: half_even_def)

lemma round53_error: "\<bar>round53 x - x\<bar> \<le> 2 powi (exponent \<bar>x\<bar> - 52) / 2"
proof (cases "x = 0")
  case True
  then show ?thesis by (simp add: round53_def)
next
  case False
  define u :: rat where "u = 2 powi (exponent \<bar>x\<bar> - 52)"
  have u: "u > 0" by (simp add: u_def)
  have "round53 x - x = (of_int (half_even (x / u)) - x / u) * u"
    using False u by (simp add: round53_def u_def Let_def algebra_simps)
  then have "\<bar>round53 x - x\<bar> = \<bar>of_int (half_even (x / u)) - x / u\<bar> * u"
    using u by (simp add: abs_mult)
  also have "\<dots> \<le> 1 / 2 * u"
    using half_even_error u by (intro mult_right_mono) auto
  finally show ?thesis by (simp add: u_def)
qed

lemma exponent_upper:
  assumes "0 < x" and "x < 1"
  shows "exponent x < 0"
proof -
  obtain p q where pq: "quotient_of x = (p, q)" by (cases "quotient_of x")
  have q: "q > 0" using quotient_of_denom_pos [OF pq] .
  have x: "x = of_int p / of_int q" using quotient_of_div [OF pq] .
  have p: "0 < p" "p < q" using assms q by (simp_all add: x zero_less_divide_iff)
  have "bitlen p \<le> bitlen q" using p by (simp add: bitlen_def floorlog_mono)
  then have d: "bitlen p - bitlen q < 0 \<or> bitlen p - bitlen q = 0" by linarith
  show ?thesis
    using d assms(2) by (auto simp: exponent_def pq Let_def)
qed

lemma exponent_int:
  assumes "0 < i" and "i < 2 ^ 53"
  shows "exponent (of_int i) \<le> 52"
proof -
  have "quotient_of (of_int i) = (i, 1)" 
    by (simp add: of_int_rat quotient_of_Fract Rat.normalize_def)
  moreover have "bitlen i \<le> 53"
    using assms by (simp add: bitlen_le_iff_power)
  moreover have "bitlen 1 = 1" using bitlen_twopow_add_eq [of 0 0] by simp
  ultimately show ?thesis by (simp add: exponent_def Let_def)
qed

lemma round53_int:
  assumes "\<bar>i\<bar> < 2 ^ 53"
  shows "round53 (of_int i) = of_int i"
proof (cases "i = 0")
  case True
  then show ?thesis by (simp add: round53_def)
next
  case False
  define e where "e = exponent \<bar>of_int i\<bar>"
  have "e \<le> 52" using exponent_int [of "\<bar>i\<bar>"] assms False by (simp add: e_def)
  then obtain k where k: "e - 52 = - int k" by (metis diff_le_0_iff_le neg_le_0_iff_le nonneg_int_cases minus_minus neg_0_le_iff_le)
  have "(of_int i :: rat) / 2 powi (e - 52) = of_int (i * 2 ^ k)"
    by (simp add: k power_int_minus divide_inverse)
  then have "half_even (of_int i / 2 powi (e - 52)) = i * 2 ^ k" by (simp only: half_even_int)
  then show ?thesis
    using False by (simp add: round53_def Let_def e_def [symmetric] k power_int_minus)
qed

lemma round53_unit:
  assumes "0 < x" and "x < 1"
  shows "\<bar>round53 x - x\<bar> \<le> 1 / 2 ^ 53"
proof -
  have "exponent \<bar>x\<bar> - 52 \<le> - 53" using exponent_upper [OF assms] assms by simp
  then have "(2 :: rat) powi (exponent \<bar>x\<bar> - 52) \<le> 2 powi (- 53)" by (intro power_int_increasing) auto
  also have "(2 :: rat) powi (- 53) = 1 / 2 ^ 53"
    unfolding power_int_minus power_int_numeral by (rule inverse_eq_divide)
  finally have "\<bar>round53 x - x\<bar> \<le> (1 / 2 ^ 53) / 2"
    using round53_error [of x] divide_right_mono [of _ "1 / 2 ^ 53" 2] by (meson order_trans zero_le_numeral)
  also have "(1 / 2 ^ 53) / 2 \<le> (1 / 2 ^ 53 :: rat)" by simp
  finally show ?thesis .
qed

end
