(* ===== verification/Assembler.thy ===== *)
theory Assembler
  imports Hunks Glob Go_Float Db_Findings "HOL-Library.Monad_Syntax" "HOL-Library.Multiset"
begin

text \<open>
  The context assembler, \<^verbatim>\<open>internal/context/assembler.go\<close>: the limits of a policy, which files are left out and why,
  how the hunks of the rest are fitted into the budget of changed lines, and the report on what was covered.
  The reader of JSON is the parameter \<open>decode\<close>, the retriever of related files an optional function.
\<close>

subsection \<open>Settings\<close>

definition DefaultPolicySettings :: policy_settings where
  "DefaultPolicySettings = \<lparr>ps_include_paths = [], ps_exclude_paths = [], ps_context_lines_before = 20,
     ps_context_lines_after = 20, ps_max_changed_lines = 2500, ps_max_files = 80\<rparr>"

definition withDefaults :: "policy_settings \<Rightarrow> policy_settings" where
  "withDefaults s = s\<lparr>
     ps_context_lines_before := if ps_context_lines_before s \<le> 0 then 20 else ps_context_lines_before s,
     ps_context_lines_after := if ps_context_lines_after s \<le> 0 then 20 else ps_context_lines_after s,
     ps_max_changed_lines := if ps_max_changed_lines s \<le> 0 then 2500 else ps_max_changed_lines s,
     ps_max_files := if ps_max_files s \<le> 0 then 80 else ps_max_files s\<rparr>"

definition applyPolicyExtra :: "int \<Rightarrow> int \<Rightarrow> int \<Rightarrow> int \<Rightarrow> policy_settings \<Rightarrow> policy_settings" where
  "applyPolicyExtra maxFiles maxChangedLines linesBefore linesAfter s = s\<lparr>
     ps_max_files := if maxFiles > 0 then maxFiles else ps_max_files s,
     ps_max_changed_lines := if maxChangedLines > 0 then maxChangedLines else ps_max_changed_lines s,
     ps_context_lines_before := if linesBefore > 0 then linesBefore else ps_context_lines_before s,
     ps_context_lines_after := if linesAfter > 0 then linesAfter else ps_context_lines_after s\<rparr>"

definition raw_empty :: "string option \<Rightarrow> bool" where
  "raw_empty raw \<longleftrightarrow> (case raw of None \<Rightarrow> True | Some t \<Rightarrow> t = [] \<or> t = ''null'')"

definition raw_text :: "string option \<Rightarrow> string" where
  "raw_text raw = (case raw of None \<Rightarrow> [] | Some t \<Rightarrow> t)"

definition decodePathList :: "(string \<Rightarrow> json option) \<Rightarrow> string option \<Rightarrow> string list option" where
  "decodePathList decode raw =
     (if raw_empty raw then Some []
      else case decode (raw_text raw) of
        Some (JArray vs) \<Rightarrow> merge_strings [] vs
      | Some JNull \<Rightarrow> Some []
      | _ \<Rightarrow> None)"

text \<open>The limits in one object of the extra settings: files, changed lines, lines before and after.\<close>

definition extra_limits :: "members \<Rightarrow> (int \<times> int \<times> int \<times> int) option" where
  "extra_limits kvs = do {
     files \<leftarrow> int_of ''max_files'' kvs; changed \<leftarrow> int_of ''max_changed_lines'' kvs;
     ctx \<leftarrow> struct_of ''context'' kvs;
     before \<leftarrow> int_of ''lines_before'' ctx; after \<leftarrow> int_of ''lines_after'' ctx;
     Some (files, changed, before, after)
   }"

definition apply_limits :: "int \<times> int \<times> int \<times> int \<Rightarrow> policy_settings \<Rightarrow> policy_settings" where
  "apply_limits l = (case l of (files, changed, before, after) \<Rightarrow> applyPolicyExtra files changed before after)"

definition decode_extra :: "(string \<Rightarrow> json option) \<Rightarrow> string option \<Rightarrow> members option" where
  "decode_extra decode raw = (if raw_empty raw then Some [] else Option.bind (decode (raw_text raw)) struct_value)"

definition SettingsFromPolicy :: "(string \<Rightarrow> json option) \<Rightarrow> project_policy option \<Rightarrow> policy_settings option" where
  "SettingsFromPolicy decode policy = (case policy of
     None \<Rightarrow> Some DefaultPolicySettings
   | Some p \<Rightarrow> do {
       incl \<leftarrow> decodePathList decode (pp_include_paths p);
       excl \<leftarrow> decodePathList decode (pp_exclude_paths p);
       kvs \<leftarrow> decode_extra decode (pp_extra p);
       outer \<leftarrow> extra_limits kvs;
       review \<leftarrow> struct_of ''review'' kvs;
       inner \<leftarrow> extra_limits review;
       Some (withDefaults (apply_limits inner (apply_limits outer
         (DefaultPolicySettings\<lparr>ps_include_paths := incl, ps_exclude_paths := excl\<rparr>))))
     })"

record compiled_settings = policy_settings +
  st_include :: "re list"
  st_exclude :: "re list"

definition prepareSettings :: "policy_settings \<Rightarrow> compiled_settings option" where
  "prepareSettings settings0 =
     (let s = withDefaults settings0 in
      case compilePatterns (ps_include_paths s) of
        None \<Rightarrow> None
      | Some incl \<Rightarrow> (case compilePatterns (ps_exclude_paths s) of
          None \<Rightarrow> None
        | Some excl \<Rightarrow> Some \<lparr>ps_include_paths = ps_include_paths s, ps_exclude_paths = ps_exclude_paths s,
            ps_context_lines_before = ps_context_lines_before s, ps_context_lines_after = ps_context_lines_after s,
            ps_max_changed_lines = ps_max_changed_lines s, ps_max_files = ps_max_files s,
            st_include = incl, st_exclude = excl\<rparr>))"

subsection \<open>Files\<close>

definition changePath :: "merge_request_diff \<Rightarrow> string" where
  "changePath d = (if context_normalizePath (md_new_path d) \<noteq> [] then context_normalizePath (md_new_path d)
     else context_normalizePath (md_old_path d))"

definition changeStatus :: "merge_request_diff \<Rightarrow> string" where
  "changeStatus d = (if md_new_file d then ''added'' else if md_deleted_file d then ''deleted''
     else if md_renamed_file d then ''renamed'' else ''modified'')"

definition isVendorPath :: "string \<Rightarrow> bool" where
  "isVendorPath path \<longleftrightarrow> ''vendor'' \<in> set (split_char (CHR ''/'') (context_normalizePath path))"

definition base_name :: "string \<Rightarrow> string" where
  "base_name path = rev (takeWhile (\<lambda>c. c \<noteq> CHR ''/'') (rev path))"

definition lock_files :: "string list" where
  "lock_files = [''go.sum'', ''package-lock.json'', ''yarn.lock'', ''pnpm-lock.yaml'', ''cargo.lock'', ''gemfile.lock'',
     ''composer.lock'', ''pipfile.lock'', ''poetry.lock'', ''podfile.lock'']"

definition isLockFile :: "string \<Rightarrow> bool" where
  "isLockFile path \<longleftrightarrow> (let base = to_lower (base_name (context_normalizePath path)) in
     has_suffix base ''.lock'' \<or> base \<in> set lock_files)"

definition binary_suffixes :: "string list" where
  "binary_suffixes = [''.png'', ''.jpg'', ''.jpeg'', ''.gif'', ''.bmp'', ''.ico'', ''.webp'', ''.pdf'', ''.zip'', ''.gz'', ''.tar'',
     ''.tgz'', ''.7z'', ''.jar'', ''.class'', ''.so'', ''.dll'', ''.dylib'', ''.exe'', ''.bin'', ''.mp3'', ''.mp4'', ''.mov'', ''.avi'',
     ''.woff'', ''.woff2'', ''.ttf'', ''.otf'', ''.eot'']"

definition isBinaryFile :: "string \<Rightarrow> string \<Rightarrow> bool" where
  "isBinaryFile path diffText \<longleftrightarrow>
     (let lowerPath = to_lower (context_normalizePath path); lowerDiff = to_lower diffText in
      list_ex (has_suffix lowerPath) binary_suffixes
      \<or> contains lowerDiff ''binary files'' \<or> contains lowerDiff ''git binary patch'' \<or> contains diffText [CHR 0x00])"

definition excludedReason :: "string \<Rightarrow> merge_request_diff \<Rightarrow> compiled_settings \<Rightarrow> string" where
  "excludedReason path d st =
     (if md_generated_file d then ''generated_file''
      else if md_too_large d then ''too_large''
      else if isBinaryFile path (md_diff d) then ''binary_file''
      else if isVendorPath path then ''vendor_path''
      else if isLockFile path then ''lock_file''
      else if st_include st \<noteq> [] \<and> \<not> matchesAny path (st_include st) then ''path_not_included''
      else if st_exclude st \<noteq> [] \<and> matchesAny path (st_exclude st) then ''path_excluded''
      else [])"

definition fileRiskScore :: "string \<Rightarrow> int" where
  "fileRiskScore path =
     (let lower = to_lower path in
      if contains lower ''_test.'' \<or> contains lower ''/test/'' \<or> contains lower ''/tests/'' \<or> has_prefix lower ''test'' then 1
      else if list_ex (has_suffix lower) [''.md'', ''.txt'', ''.yaml'', ''.yml'', ''.json'', ''.toml'', ''.ini'', ''.cfg''] then 0
      else 2)"

text \<open>\<^verbatim>\<open>sort.SliceStable\<close> by falling score.\<close>

definition prioritizeFiles :: "merge_request_diff list \<Rightarrow> merge_request_diff list" where
  "prioritizeFiles ds = sort_key (\<lambda>d. - fileRiskScore (changePath d)) ds"

definition classifyPRSize :: "merge_request_diff list \<Rightarrow> policy_settings \<Rightarrow> pr_size_strategy" where
  "classifyPRSize ds s =
     (let totalChanged = sum_list (map (\<lambda>d. countChangedLines (md_diff d)) ds);
          ctx = ps_context_lines_before s + ps_context_lines_after s
      in if totalChanged < 100 then
           \<lparr>sz_category = ''small'', sz_max_context_lines = ctx, sz_prioritize_files = False, sz_chunk_review = False, sz_focus_areas = []\<rparr>
         else if totalChanged < 500 then
           \<lparr>sz_category = ''medium'', sz_max_context_lines = ctx, sz_prioritize_files = False, sz_chunk_review = False, sz_focus_areas = []\<rparr>
         else if totalChanged \<le> ps_max_changed_lines s then
           \<lparr>sz_category = ''large'', sz_max_context_lines = ctx div 2, sz_prioritize_files = True, sz_chunk_review = False, sz_focus_areas = []\<rparr>
         else
           \<lparr>sz_category = ''xlarge'', sz_max_context_lines = ctx div 4, sz_prioritize_files = True, sz_chunk_review = True, sz_focus_areas = []\<rparr>)"

subsection \<open>One file\<close>

datatype assemble_error = BadPattern | BadHunkHeader string string

text \<open>The loop over the hunks of a file: the change, the changed lines of the request so far, and whether the request
  is truncated.\<close>

fun add_hunks :: "compiled_settings \<Rightarrow> parsed_hunk list \<Rightarrow> change \<times> int \<times> bool \<Rightarrow> change \<times> int \<times> bool" where
  "add_hunks st [] acc = acc"
| "add_hunks st (parsed0 # rest) (c, used, truncated) =
     (let remaining = ps_max_changed_lines st - used in
      if remaining \<le> 0 then (c\<lparr>ch_truncated := True\<rparr>, used, True)
      else let cut = changedLines parsed0 > remaining;
               parsed = (if cut then truncate_hunk remaining (ps_context_lines_after st) parsed0 else parsed0);
               h = toHunk (ps_context_lines_before st) (ps_context_lines_after st) parsed
           in if hk_changed_lines h = 0 then add_hunks st rest (c, used, truncated)
              else add_hunks st rest
                (c\<lparr>ch_truncated := ch_truncated c \<or> cut,
                   ch_hunks := ch_hunks c @ [if cut then h\<lparr>hk_truncated := True\<rparr> else h],
                   ch_changed_lines := ch_changed_lines c + hk_changed_lines h\<rparr>,
                 used + hk_changed_lines h, truncated \<or> cut))"

definition new_change :: "assemble_input \<Rightarrow> merge_request_diff \<Rightarrow> change" where
  "new_change i d =
     (let path = changePath d in
      zero_change\<lparr>ch_path := path, ch_old_path := context_normalizePath (md_old_path d),
        ch_review := ReviewForPath (ai_rules i) path, ch_status := changeStatus d, ch_generated := md_generated_file d,
        ch_too_large := md_too_large d, ch_collapsed := md_collapsed d,
        ch_previously_reviewed := is_is_incremental (ai_incremental_state i)
          \<and> list_ex (\<lambda>prev. context_normalizePath prev = path) (is_previous_reviewed_paths (ai_incremental_state i))\<rparr>)"

definition exclude_file :: "string \<Rightarrow> string \<Rightarrow> assembly_result \<Rightarrow> assembly_result" where
  "exclude_file path reason r = r\<lparr>ar_excluded := ar_excluded r @ [\<lparr>xf_path = path, xf_reason = reason\<rparr>],
     ar_coverage := (ar_coverage r)\<lparr>cr_skipped_files := cr_skipped_files (ar_coverage r) + 1\<rparr>\<rparr>"

definition skip_scope :: "string \<Rightarrow> string \<Rightarrow> int \<Rightarrow> assembly_result \<Rightarrow> assembly_result" where
  "skip_scope path reason n r = r\<lparr>ar_coverage := (ar_coverage r)\<lparr>cr_skipped := cr_skipped (ar_coverage r)
     @ [\<lparr>ss_path = path, ss_reason = reason, ss_changed_lines = n\<rparr>]\<rparr>\<rparr>"

definition count_file :: "merge_request_diff \<Rightarrow> assembly_result \<Rightarrow> assembly_result" where
  "count_file d r = r\<lparr>ar_coverage := (ar_coverage r)\<lparr>
     cr_skipped_lines := cr_skipped_lines (ar_coverage r) + countChangedLines (md_diff d),
     cr_total_changed_lines := cr_total_changed_lines (ar_coverage r) + countChangedLines (md_diff d),
     cr_hunks_total := cr_hunks_total (ar_coverage r) + countHunks (md_diff d)\<rparr>\<rparr>"

definition add_change :: "change \<Rightarrow> int \<Rightarrow> assembly_result \<Rightarrow> assembly_result" where
  "add_change c fileChangedLines r =
     (let cov = ar_coverage r;
          r1 = r\<lparr>ar_request := (ar_request r)\<lparr>rvq_changes := rvq_changes (ar_request r) @ [c]\<rparr>,
                 ar_coverage := cov\<lparr>cr_reviewed_paths := cr_reviewed_paths cov @ [ch_path c],
                   cr_skipped_lines := cr_skipped_lines cov - ch_changed_lines c,
                   cr_reviewed_changed_lines := cr_reviewed_changed_lines cov + ch_changed_lines c,
                   cr_hunks_in_prompt := cr_hunks_in_prompt cov + int (length (ch_hunks c))\<rparr>\<rparr>
      in if ch_truncated c \<and> fileChangedLines > ch_changed_lines c
         then skip_scope (ch_path c) ''truncated'' (fileChangedLines - ch_changed_lines c) r1 else r1)"

text \<open>The body of the loop over the diffs.\<close>

definition assemble_file :: "compiled_settings \<Rightarrow> assemble_input \<Rightarrow> merge_request_diff \<Rightarrow> assembly_result \<Rightarrow> assemble_error + assembly_result" where
  "assemble_file st i d r0 =
     (let path = changePath d in
      if path = [] then Inr r0
      else let fileChangedLines = countChangedLines (md_diff d); r = count_file d r0; reason = excludedReason path d st in
        if reason \<noteq> [] then Inr (skip_scope path reason fileChangedLines (exclude_file path reason r))
        else if int (length (rvq_changes (ar_request r))) \<ge> ps_max_files st then
          Inr (skip_scope path ''scope_limit'' fileChangedLines
            (exclude_file path ''scope_limit'' (r\<lparr>ar_truncated := True, ar_mode := ''degradation''\<rparr>)))
        else case parseHunks (md_diff d) of
          Inl line \<Rightarrow> Inl (BadHunkHeader path line)
        | Inr [] \<Rightarrow> Inr (exclude_file path ''no_hunks'' r)
        | Inr hunks \<Rightarrow>
            (case add_hunks st hunks (new_change i d, ar_total_changed_lines r, ar_truncated r) of
               (c, used, truncated) \<Rightarrow>
                 let r1 = r\<lparr>ar_total_changed_lines := used, ar_truncated := truncated\<rparr> in
                 if ch_hunks c = [] then
                   Inr (if ch_truncated c then skip_scope path ''scope_limit'' fileChangedLines (exclude_file path ''scope_limit'' r1) else r1)
                 else Inr (add_change c fileChangedLines r1)))"

fun assemble_files :: "compiled_settings \<Rightarrow> assemble_input \<Rightarrow> merge_request_diff list \<Rightarrow> assembly_result \<Rightarrow> assemble_error + assembly_result" where
  "assemble_files st i [] r = Inr r"
| "assemble_files st i (d # ds) r = (case assemble_file st i d r of Inl e \<Rightarrow> Inl e | Inr r' \<Rightarrow> assemble_files st i ds r')"

subsection \<open>The request\<close>

definition related_for :: "related_file list \<Rightarrow> string \<Rightarrow> related_file list" where
  "related_for related path = filter (\<lambda>rf. context_normalizePath (rlf_path rf) = context_normalizePath path) related"

definition enrichChangesWithRelatedFiles :: "related_file list \<Rightarrow> change list \<Rightarrow> change list" where
  "enrichChangesWithRelatedFiles related cs =
     map (\<lambda>c. if related_for related (ch_path c) = [] then c else c\<lparr>ch_related_files := related_for related (ch_path c)\<rparr>) cs"

definition hasScopeLimitExclusion :: "excluded_file list \<Rightarrow> bool" where
  "hasScopeLimitExclusion xs = list_ex (\<lambda>x. xf_reason x = ''scope_limit'') xs"

definition summarizeCoverage :: "assembly_result \<Rightarrow> string" where
  "summarizeCoverage r =
     (let cov = ar_coverage r; reviewed = itoa (int (length (cr_reviewed_paths cov))) in
      if ar_mode r = ''degradation'' then
        ''Partial coverage: reviewed '' @ reviewed @ '' file(s), skipped '' @ itoa (cr_skipped_files cov) @ '' file(s) and ''
          @ itoa (cr_skipped_lines cov) @ '' changed line(s) because the merge request exceeded review limits.''
      else if ar_mode r = ''truncated'' then
        ''Full-scope review with truncation: reviewed '' @ reviewed @ '' file(s) and truncated context after ''
          @ itoa (ar_total_changed_lines r) @ '' changed line(s).''
      else ''Full coverage: reviewed '' @ reviewed @ '' file(s).'')"

definition final_mode :: "assembly_result \<Rightarrow> string" where
  "final_mode r = (if ar_mode r \<noteq> [] then ar_mode r
     else if ar_excluded r \<noteq> [] \<and> hasScopeLimitExclusion (ar_excluded r) then ''degradation''
     else if ar_truncated r then ''truncated'' else ''full_scope'')"

definition finish_coverage :: "assembly_result \<Rightarrow> assembly_result" where
  "finish_coverage r0 =
     (let r = r0\<lparr>ar_mode := final_mode r0\<rparr>;
          cov = ar_coverage r;
          ratio = (if cr_total_changed_lines cov > 0
                   then fdiv (float_of_int (cr_reviewed_changed_lines cov)) (float_of_int (cr_total_changed_lines cov)) else 1);
          r1 = r\<lparr>ar_coverage := cov\<lparr>cr_mode := ar_mode r, cr_ratio := ratio\<rparr>\<rparr>
      in r1\<lparr>ar_coverage := (ar_coverage r1)\<lparr>cr_summary := summarizeCoverage r1\<rparr>\<rparr>)"

definition start_result :: "assemble_input \<Rightarrow> pr_size_strategy \<Rightarrow> assembly_result" where
  "start_result i sz = \<lparr>ar_request = \<lparr>rvq_schema_version = ''1.0'', rvq_review_run_id = itoa (ai_review_run_id i),
       rvq_project = ai_project i, rvq_merge_request = ai_merge_request i, rvq_version = ai_version i,
       rvq_rules = ai_rules i, rvq_changes = [], rvq_historical_context = ai_historical_context i,
       rvq_incremental_state = ai_incremental_state i\<rparr>,
     ar_excluded = [], ar_truncated = False, ar_total_changed_lines = 0, ar_mode = [], ar_coverage = zero_coverage,
     ar_size_strategy = sz\<rparr>"

definition retrieve_related :: "(int \<Rightarrow> string \<Rightarrow> string list \<Rightarrow> related_file list option) option \<Rightarrow> assemble_input \<Rightarrow> assembly_result \<Rightarrow> assembly_result" where
  "retrieve_related retriever i r = (case retriever of
     None \<Rightarrow> r
   | Some f \<Rightarrow>
       if rvq_changes (ar_request r) = [] then r
       else case f (pjc_project_id (ai_project i)) (vc_head_sha (ai_version i)) (map ch_path (rvq_changes (ar_request r))) of
         None \<Rightarrow> r
       | Some related \<Rightarrow> r\<lparr>ar_request := (ar_request r)\<lparr>rvq_changes :=
           enrichChangesWithRelatedFiles related (rvq_changes (ar_request r))\<rparr>\<rparr>)"

definition Assemble :: "(int \<Rightarrow> string \<Rightarrow> string list \<Rightarrow> related_file list option) option \<Rightarrow> assemble_input \<Rightarrow> assemble_error + assembly_result" where
  "Assemble retriever i = (case prepareSettings (ai_settings i) of
     None \<Rightarrow> Inl BadPattern
   | Some st \<Rightarrow>
       let sz = classifyPRSize (ai_diffs i) (policy_settings.truncate st);
           ds = (if sz_prioritize_files sz then prioritizeFiles (ai_diffs i) else ai_diffs i)
       in case assemble_files st i ds (start_result i sz) of
            Inl e \<Rightarrow> Inl e
          | Inr r \<Rightarrow> Inr (finish_coverage (retrieve_related retriever i r)))"

subsection \<open>Earlier findings\<close>

definition historical_entry :: "review_finding \<Rightarrow> gitlab_discussion option \<Rightarrow> historical_finding" where
  "historical_entry f disc =
     \<lparr>hf_semantic_fingerprint = rf_semantic_fingerprint f, hf_title = rf_title f, hf_path = rf_path f,
      hf_body_markdown = (case rf_body_markdown f of None \<Rightarrow> [] | Some b \<Rightarrow> b),
      hf_discussion_id = (case disc of None \<Rightarrow> rf_gitlab_discussion_id f | Some d \<Rightarrow> gd_gitlab_discussion_id d),
      hf_discussion_type = (case disc of None \<Rightarrow> [] | Some d \<Rightarrow> gd_discussion_type d),
      hf_resolved = (case disc of None \<Rightarrow> False | Some d \<Rightarrow> gd_resolved d)\<rparr>"

fun historical_entries :: "int \<Rightarrow> review_finding list \<Rightarrow> historical_finding list dbm" where
  "historical_entries mrID [] = ret []"
| "historical_entries mrID (f # fs) =
     tryM (GetGitlabDiscussionByMergeRequestAndFinding mrID (rf_id f)) (\<lambda>res.
       (case res of
          Inr d \<Rightarrow> bindM (historical_entries mrID fs) (\<lambda>hs. ret (historical_entry f (Some d) # hs))
        | Inl e \<Rightarrow> if e \<noteq> ErrNoRows then throw e
                   else bindM (historical_entries mrID fs) (\<lambda>hs. ret (historical_entry f None # hs))))"

definition LoadHistoricalContext :: "int \<Rightarrow> historical_finding list dbm" where
  "LoadHistoricalContext mrID = bindM (ListActiveFindingsByMR mrID) (historical_entries mrID)"

subsection \<open>Fitting hunks into the budget\<close>

definition hunk_lines :: "hunk list \<Rightarrow> int" where
  "hunk_lines hs = sum_list (map hk_changed_lines hs)"

lemma hunk_lines_simps [simp]: "hunk_lines [] = 0" "hunk_lines (h # hs) = hk_changed_lines h + hunk_lines hs"
  "hunk_lines (hs @ ks) = hunk_lines hs + hunk_lines ks"
  by (simp_all add: hunk_lines_def)

definition change_ok :: "change \<Rightarrow> bool" where
  "change_ok c \<longleftrightarrow> ch_changed_lines c = hunk_lines (ch_hunks c) \<and> list_all (\<lambda>h. 0 < hk_changed_lines h) (ch_hunks c)"

text \<open>What the loop over the hunks guarantees: the budget is kept, the change holds what was added, nothing is lost
  unless the change is marked as truncated.\<close>

definition fits :: "int \<Rightarrow> int \<Rightarrow> change \<times> int \<times> bool \<Rightarrow> change \<times> int \<times> bool \<Rightarrow> bool" where
  "fits limit n before after \<longleftrightarrow> (case (before, after) of ((c, u, t), (c', u', t')) \<Rightarrow>
     u' \<le> limit \<and> u' - u = ch_changed_lines c' - ch_changed_lines c \<and> ch_changed_lines c \<le> ch_changed_lines c'
     \<and> ch_changed_lines c' \<le> ch_changed_lines c + n
     \<and> (\<not> ch_truncated c' \<longrightarrow> ch_changed_lines c' = ch_changed_lines c + n)
     \<and> ch_path c' = ch_path c \<and> change_ok c'
     \<and> (t \<longrightarrow> t') \<and> (ch_truncated c' \<longrightarrow> ch_truncated c \<or> t'))"

lemma add_hunks_truncated: "ch_truncated c \<Longrightarrow> ch_truncated (fst (add_hunks st hs (c, u, t)))"
  by (induction hs arbitrary: c u t) (auto simp: Let_def)

lemma add_hunks_fits:
  assumes "change_ok c" and "u \<le> ps_max_changed_lines st"
  shows "fits (ps_max_changed_lines st) (sum_changes hs) (c, u, t) (add_hunks st hs (c, u, t))"
  using assms
proof (induction hs arbitrary: c u t)
  case Nil
  then show ?case by (simp add: fits_def)
next
  case (Cons h hs)
  let ?rem = "ps_max_changed_lines st - u"
  let ?cut = "changedLines h > ?rem"
  let ?p = "if ?cut then truncate_hunk ?rem (ps_context_lines_after st) h else h"
  let ?h = "toHunk (ps_context_lines_before st) (ps_context_lines_after st) ?p"
  show ?case
  proof (cases "?rem \<le> 0")
    case True
    then show ?thesis using Cons.prems changedLines_nonneg [of h] sum_changes_nonneg [of hs] by (simp add: fits_def change_ok_def)
  next
    case False
    have p: "changedLines ?p = (if ?cut then ?rem else changedLines h)" using False truncate_hunk_count [of ?rem h] by simp
    show ?thesis
    proof (cases "changedLines ?p = 0")
      case True
      then have "\<not> ?cut" "changedLines h = 0" using p False by (auto split: if_splits)
      then show ?thesis using Cons False by (simp add: Let_def)
    next
      case nz: False
      let ?c = "c\<lparr>ch_truncated := ch_truncated c \<or> ?cut, ch_hunks := ch_hunks c @ [if ?cut then ?h\<lparr>hk_truncated := True\<rparr> else ?h],
        ch_changed_lines := ch_changed_lines c + changedLines ?p\<rparr>"
      have pos: "0 < changedLines ?p" using nz changedLines_nonneg [of ?p] by linarith
      have step: "add_hunks st (h # hs) (c, u, t) = add_hunks st hs (?c, u + changedLines ?p, t \<or> ?cut)"
        using False nz by (simp add: Let_def)
      have "change_ok ?c" using Cons.prems(1) pos by (auto simp: change_ok_def split: if_splits)
      moreover have "u + changedLines ?p \<le> ps_max_changed_lines st" using p by (simp split: if_splits)
      ultimately have F: "fits (ps_max_changed_lines st) (sum_changes hs) (?c, u + changedLines ?p, t \<or> ?cut) (add_hunks st (h # hs) (c, u, t))"
        unfolding step by (rule Cons.IH)
      obtain c' u' t' where res: "add_hunks st (h # hs) (c, u, t) = (c', u', t')" by (cases "add_hunks st (h # hs) (c, u, t)")
      have "ch_truncated ?c \<Longrightarrow> ch_truncated (fst (c', u', t'))"
        using add_hunks_truncated [of ?c st hs "u + changedLines ?p" "t \<or> ?cut"] unfolding trans [OF step [symmetric] res] .
      then have "?cut \<longrightarrow> ch_truncated c'" by simp
      then show ?thesis
        using F p pos changedLines_nonneg [of h] unfolding res fits_def by (simp split: if_splits) blast
    qed
  qed
qed

subsection \<open>The files of a merge request\<close>

definition changes_of :: "assembly_result \<Rightarrow> change list" where
  "changes_of r = rvq_changes (ar_request r)"

definition covered :: "change list \<Rightarrow> int" where
  "covered cs = sum_list (map ch_changed_lines cs)"

definition skipped_total :: "skipped_scope list \<Rightarrow> int" where
  "skipped_total ss = sum_list (map ss_changed_lines ss)"

lemma sums_append [simp]:
  "covered [] = 0" "covered (xs @ [c]) = covered xs + ch_changed_lines c"
  "skipped_total [] = 0" "skipped_total (ss @ [k]) = skipped_total ss + ss_changed_lines k"
  by (simp_all add: covered_def skipped_total_def)

text \<open>\<open>owed n\<close>: the report accounts for every changed line but \<open>n\<close> lines of the file in hand.\<close>

definition owed :: "int \<Rightarrow> assembly_result \<Rightarrow> bool" where
  "owed n r \<longleftrightarrow> cr_reviewed_changed_lines (ar_coverage r) = covered (changes_of r)
     \<and> cr_skipped_lines (ar_coverage r) = cr_total_changed_lines (ar_coverage r) - covered (changes_of r)
     \<and> skipped_total (cr_skipped (ar_coverage r)) + n = cr_skipped_lines (ar_coverage r)
     \<and> cr_reviewed_paths (ar_coverage r) = map ch_path (changes_of r)
     \<and> cr_hunks_in_prompt (ar_coverage r) = sum_list (map (\<lambda>c. int (length (ch_hunks c))) (changes_of r))"

definition limited :: "compiled_settings \<Rightarrow> assembly_result \<Rightarrow> bool" where
  "limited st r \<longleftrightarrow> int (length (changes_of r)) \<le> ps_max_files st \<and> ar_total_changed_lines r = covered (changes_of r)
     \<and> ar_total_changed_lines r \<le> ps_max_changed_lines st \<and> list_all (\<lambda>c. change_ok c \<and> ch_hunks c \<noteq> []) (changes_of r)"

text \<open>What the limits cut off is reported: a cut change sets the flag, a file beyond the limits is excluded as such.\<close>

definition skipped_for :: "string \<Rightarrow> assembly_result \<Rightarrow> bool" where
  "skipped_for reason r = list_ex (\<lambda>s. ss_reason s = reason) (cr_skipped (ar_coverage r))"

definition honest :: "assembly_result \<Rightarrow> bool" where
  "honest r \<longleftrightarrow> (skipped_for ''truncated'' r \<longrightarrow> ar_truncated r) \<and> (skipped_for ''scope_limit'' r \<longrightarrow> hasScopeLimitExclusion (ar_excluded r))
     \<and> (list_ex ch_truncated (changes_of r) \<longrightarrow> ar_truncated r) \<and> (ar_mode r = [] \<or> ar_mode r = ''degradation'')"

lemma owed_count_file: "owed 0 r \<Longrightarrow> owed (countChangedLines (md_diff d)) (count_file d r)"
  by (simp add: owed_def count_file_def changes_of_def)

lemma owed_skip_scope: "owed n r \<Longrightarrow> owed 0 (skip_scope p reason n r)"
  by (simp add: owed_def skip_scope_def changes_of_def)

lemma owed_other [simp]:
  "owed n (exclude_file p reason r) = owed n r" "owed n (r\<lparr>ar_truncated := t\<rparr>) = owed n r"
  "owed n (r\<lparr>ar_mode := m\<rparr>) = owed n r" "owed n (r\<lparr>ar_total_changed_lines := u\<rparr>) = owed n r"
  by (simp_all add: owed_def exclude_file_def changes_of_def)

lemma owed_add_change:
  assumes "owed n r" and "ch_changed_lines c \<le> n" and "\<not> ch_truncated c \<longrightarrow> ch_changed_lines c = n"
  shows "owed 0 (add_change c n r)"
  using assms by (auto simp: owed_def add_change_def skip_scope_def changes_of_def Let_def)

lemma limited_other [simp]:
  "limited st (exclude_file p reason r) = limited st r" "limited st (r\<lparr>ar_truncated := t\<rparr>) = limited st r"
  "limited st (r\<lparr>ar_mode := m\<rparr>) = limited st r" "limited st (skip_scope p reason n r) = limited st r"
  "limited st (count_file d r) = limited st r"
  by (simp_all add: limited_def exclude_file_def skip_scope_def count_file_def changes_of_def)

lemma limited_add_change:
  assumes "limited st r" and "int (length (changes_of r)) < ps_max_files st" and "change_ok c" and "ch_hunks c \<noteq> []"
    and "ar_total_changed_lines r + ch_changed_lines c \<le> ps_max_changed_lines st"
  shows "limited st (add_change c n (r\<lparr>ar_total_changed_lines := ar_total_changed_lines r + ch_changed_lines c, ar_truncated := t\<rparr>))"
  using assms by (auto simp: limited_def add_change_def skip_scope_def changes_of_def Let_def)

lemma skipped_for_simps [simp]:
  "skipped_for reason (exclude_file p q r) = skipped_for reason r" "skipped_for reason (count_file d r) = skipped_for reason r"
  "skipped_for reason (r\<lparr>ar_truncated := t\<rparr>) = skipped_for reason r" "skipped_for reason (r\<lparr>ar_mode := m\<rparr>) = skipped_for reason r"
  "skipped_for reason (r\<lparr>ar_total_changed_lines := u\<rparr>) = skipped_for reason r"
  "skipped_for reason (skip_scope p q n r) = (skipped_for reason r \<or> q = reason)"
  by (auto simp: skipped_for_def exclude_file_def count_file_def skip_scope_def)

lemma honest_skip:
  assumes "honest r" and "reason \<noteq> ''truncated''"
  shows "honest (skip_scope p reason n (exclude_file p reason r))"
  using assms by (auto simp: honest_def exclude_file_def skip_scope_def changes_of_def hasScopeLimitExclusion_def skipped_for_def)

lemma honest_other [simp]:
  "honest (count_file d r) = honest r" "honest (r\<lparr>ar_total_changed_lines := u\<rparr>) = honest r"
  by (simp_all add: honest_def count_file_def changes_of_def skipped_for_def)

lemma honest_exclude: "honest r \<Longrightarrow> honest (exclude_file p reason r)"
  by (auto simp: honest_def exclude_file_def changes_of_def hasScopeLimitExclusion_def skipped_for_def)

lemma honest_flags: "honest r \<Longrightarrow> (ar_truncated r \<longrightarrow> t) \<Longrightarrow> honest (r\<lparr>ar_truncated := t\<rparr>)" "honest r \<Longrightarrow> honest (r\<lparr>ar_mode := ''degradation''\<rparr>)"
  by (auto simp: honest_def changes_of_def skipped_for_def)

lemma honest_add_change: "honest r \<Longrightarrow> (ch_truncated c \<longrightarrow> ar_truncated r) \<Longrightarrow> honest (add_change c n r)"
  by (auto simp: honest_def add_change_def skip_scope_def changes_of_def hasScopeLimitExclusion_def skipped_for_def Let_def)

lemma new_change_ok: "change_ok (new_change i d)" "ch_changed_lines (new_change i d) = 0" "ch_hunks (new_change i d) = []"
  "\<not> ch_truncated (new_change i d)" "ch_path (new_change i d) = changePath d"
  by (simp_all add: new_change_def zero_change_def change_ok_def Let_def)

lemma excludedReason_own: "excludedReason path d st \<noteq> ''truncated''"
  by (simp add: excludedReason_def)

text \<open>The ways a file can end.\<close>

lemma assemble_file_cases:
  assumes "assemble_file st i d r = Inr r'" and "ar_total_changed_lines r \<le> ps_max_changed_lines st"
  obtains (ignored) "r' = r"
    | (excluded) reason where "reason \<noteq> ''truncated''"
        "r' = skip_scope (changePath d) reason (countChangedLines (md_diff d)) (exclude_file (changePath d) reason (count_file d r))"
    | (too_many) "r' = skip_scope (changePath d) ''scope_limit'' (countChangedLines (md_diff d))
        (exclude_file (changePath d) ''scope_limit'' ((count_file d r)\<lparr>ar_truncated := True, ar_mode := ''degradation''\<rparr>))"
    | (no_hunks) "countChangedLines (md_diff d) = 0" "r' = exclude_file (changePath d) ''no_hunks'' (count_file d r)"
    | (hunks) c used t where
        "fits (ps_max_changed_lines st) (countChangedLines (md_diff d)) (new_change i d, ar_total_changed_lines r, ar_truncated r) (c, used, t)"
        "int (length (changes_of r)) < ps_max_files st"
        "r' = (let r1 = (count_file d r)\<lparr>ar_total_changed_lines := used, ar_truncated := t\<rparr> in
               if ch_hunks c = [] then
                 (if ch_truncated c then skip_scope (changePath d) ''scope_limit'' (countChangedLines (md_diff d))
                    (exclude_file (changePath d) ''scope_limit'' r1) else r1)
               else add_change c (countChangedLines (md_diff d)) r1)"
proof -
  let ?path = "changePath d" and ?n = "countChangedLines (md_diff d)" and ?r = "count_file d r"
  have rq: "rvq_changes (ar_request ?r) = changes_of r" "ar_total_changed_lines ?r = ar_total_changed_lines r" "ar_truncated ?r = ar_truncated r"
    by (simp_all add: count_file_def changes_of_def)
  consider "?path = []" | "?path \<noteq> []" "excludedReason ?path d st \<noteq> []"
    | "?path \<noteq> []" "excludedReason ?path d st = []" "int (length (changes_of r)) \<ge> ps_max_files st"
    | "?path \<noteq> []" "excludedReason ?path d st = []" "int (length (changes_of r)) < ps_max_files st" by linarith
  then show ?thesis
  proof cases
    case 1
    then show ?thesis using assms(1) ignored by (simp add: assemble_file_def Let_def)
  next
    case 2
    then show ?thesis using assms(1) excluded [OF excludedReason_own [of ?path d st]] by (simp add: assemble_file_def Let_def)
  next
    case 3
    then show ?thesis using assms(1) too_many by (simp add: assemble_file_def Let_def rq)
  next
    case 4
    obtain hs where hs: "parseHunks (md_diff d) = Inr hs" using assms(1) 4 by (auto simp: assemble_file_def Let_def rq split: sum.splits)
    then have n: "?n = sum_changes hs" by (simp add: countChangedLines_def)
    show ?thesis
    proof (cases hs)
      case Nil
      then show ?thesis using assms(1) 4 hs n no_hunks by (simp add: assemble_file_def Let_def rq)
    next
      case (Cons h hs')
      obtain c used t where a: "add_hunks st hs (new_change i d, ar_total_changed_lines r, ar_truncated r) = (c, used, t)"
        by (cases "add_hunks st hs (new_change i d, ar_total_changed_lines r, ar_truncated r)")
      have "fits (ps_max_changed_lines st) ?n (new_change i d, ar_total_changed_lines r, ar_truncated r) (c, used, t)"
        using add_hunks_fits [OF new_change_ok(1) [of i d] assms(2), of hs "ar_truncated r"] a n by simp
      then show ?thesis
        by (rule hunks) (use assms(1) 4 hs Cons a in \<open>simp_all add: assemble_file_def Let_def rq split: if_splits\<close>)
    qed
  qed
qed

lemma assemble_file_keeps:
  assumes "assemble_file st i d r = Inr r'" and "owed 0 r" and "limited st r" and "honest r"
  shows "owed 0 r' \<and> limited st r' \<and> honest r'"
proof -
  let ?n = "countChangedLines (md_diff d)" and ?r = "count_file d r"
  have "owed ?n ?r" "limited st ?r" "honest ?r" using assms owed_count_file [of r d] by simp_all
  moreover have "changes_of ?r = changes_of r" "ar_total_changed_lines ?r = ar_total_changed_lines r"
    by (simp_all add: count_file_def changes_of_def)
  ultimately have base: "owed ?n ?r" "limited st ?r" "honest ?r" "changes_of ?r = changes_of r" "ar_total_changed_lines ?r = ar_total_changed_lines r" .
  have u: "ar_total_changed_lines r \<le> ps_max_changed_lines st" using assms(3) by (simp add: limited_def)
  from assms(1) u show ?thesis
  proof (cases rule: assemble_file_cases)
    case ignored
    then show ?thesis using assms by simp
  next
    case (excluded reason)
    then show ?thesis using base owed_skip_scope honest_skip by simp
  next
    case too_many
    have "honest ((count_file d r)\<lparr>ar_truncated := True, ar_mode := ''degradation''\<rparr>)"
      by (rule honest_flags(2) [OF honest_flags(1)]) (use base in simp_all)
    then show ?thesis using too_many base owed_skip_scope honest_skip by simp
  next
    case no_hunks
    then show ?thesis using base honest_exclude by simp
  next
    case (hunks c used t)
    let ?r1 = "?r\<lparr>ar_total_changed_lines := used, ar_truncated := t\<rparr>"
    have f: "used \<le> ps_max_changed_lines st" "used = ar_total_changed_lines ?r + ch_changed_lines c" "0 \<le> ch_changed_lines c" "ch_changed_lines c \<le> ?n"
      "\<not> ch_truncated c \<longrightarrow> ch_changed_lines c = ?n" "change_ok c" "ar_truncated r \<longrightarrow> t" "ch_truncated c \<longrightarrow> t" "ch_path c = changePath d"
      using hunks(1) new_change_ok [of i d] base(5) by (auto simp: fits_def)
    have h1: "honest ?r1" using honest_flags(1) [of "?r\<lparr>ar_total_changed_lines := used\<rparr>" t] base(3) f(7) by (simp add: count_file_def)
    show ?thesis
    proof (cases "ch_hunks c = []")
      case True
      then have z: "ch_changed_lines c = 0" using f(6) by (simp add: change_ok_def)
      then have r1: "limited st ?r1" using base(2) f(2) by (simp add: limited_def changes_of_def)
      show ?thesis
      proof (cases "ch_truncated c")
        case True
        then show ?thesis using hunks(3) \<open>ch_hunks c = []\<close> r1 h1 base(1) owed_skip_scope honest_skip [of ?r1 "''scope_limit''"]
          by simp
      next
        case False
        then have "?n = 0" using f(5) z by simp
        then show ?thesis using hunks(3) False \<open>ch_hunks c = []\<close> r1 h1 base(1) by simp
      qed
    next
      case False
      then have r': "r' = add_change c ?n ?r1" using hunks(3) by simp
      have "owed 0 r'" unfolding r' by (rule owed_add_change) (use base f in simp_all)
      moreover have "limited st r'" unfolding r' f(2)
        by (rule limited_add_change) (use base f hunks(2) False in simp_all)
      moreover have "honest r'" unfolding r' by (rule honest_add_change [OF h1]) (use f(8) in simp)
      ultimately show ?thesis by blast
    qed
  qed
qed

lemma assemble_files_keeps:
  "assemble_files st i ds r = Inr r' \<Longrightarrow> owed 0 r \<Longrightarrow> limited st r \<Longrightarrow> honest r \<Longrightarrow> owed 0 r' \<and> limited st r' \<and> honest r'"
  by (induction ds arbitrary: r) (auto split: sum.splits dest: assemble_file_keeps)

subsection \<open>The whole request\<close>

lemma retrieve_changes: "\<exists>g. changes_of (retrieve_related f i r) = map (\<lambda>c. c\<lparr>ch_related_files := g c\<rparr>) (changes_of r)"
proof -
  have same: "\<exists>g. cs = map (\<lambda>c. c\<lparr>ch_related_files := g c\<rparr>) cs" for cs :: "change list"
    by (rule exI [of _ ch_related_files]) (simp add: map_idI)
  have some: "\<exists>g. enrichChangesWithRelatedFiles related cs = map (\<lambda>c. c\<lparr>ch_related_files := g c\<rparr>) cs" for related cs
    by (rule exI [of _ "\<lambda>c. if related_for related (ch_path c) = [] then ch_related_files c else related_for related (ch_path c)"])
       (simp add: enrichChangesWithRelatedFiles_def)
  show ?thesis using same [of "changes_of r"] some [of _ "changes_of r"]
    by (auto simp: retrieve_related_def changes_of_def split: option.split)
qed

lemma changes_retrieve [simp]:
  "map ch_path (changes_of (retrieve_related f i r)) = map ch_path (changes_of r)"
  "covered (changes_of (retrieve_related f i r)) = covered (changes_of r)"
  "list_all (\<lambda>c. change_ok c \<and> ch_hunks c \<noteq> []) (changes_of (retrieve_related f i r)) = list_all (\<lambda>c. change_ok c \<and> ch_hunks c \<noteq> []) (changes_of r)"
  "list_ex ch_truncated (changes_of (retrieve_related f i r)) = list_ex ch_truncated (changes_of r)"
  "length (changes_of (retrieve_related f i r)) = length (changes_of r)"
  using retrieve_changes [of f i r] by (fastforce simp: covered_def comp_def list_all_iff list_ex_iff change_ok_def)+

lemma retrieve_keeps_fields [simp]:
  "ar_coverage (retrieve_related f i r) = ar_coverage r" "ar_total_changed_lines (retrieve_related f i r) = ar_total_changed_lines r"
  "ar_truncated (retrieve_related f i r) = ar_truncated r" "ar_mode (retrieve_related f i r) = ar_mode r"
  "ar_excluded (retrieve_related f i r) = ar_excluded r"
  by (simp_all add: retrieve_related_def split: option.split)

lemma finish_fields:
  "changes_of (finish_coverage r) = changes_of r" "ar_total_changed_lines (finish_coverage r) = ar_total_changed_lines r"
  "cr_reviewed_changed_lines (ar_coverage (finish_coverage r)) = cr_reviewed_changed_lines (ar_coverage r)"
  "cr_total_changed_lines (ar_coverage (finish_coverage r)) = cr_total_changed_lines (ar_coverage r)"
  "cr_skipped_lines (ar_coverage (finish_coverage r)) = cr_skipped_lines (ar_coverage r)"
  "cr_skipped (ar_coverage (finish_coverage r)) = cr_skipped (ar_coverage r)"
  "cr_reviewed_paths (ar_coverage (finish_coverage r)) = cr_reviewed_paths (ar_coverage r)"
  "cr_mode (ar_coverage (finish_coverage r)) = final_mode r"
  by (simp_all add: finish_coverage_def changes_of_def Let_def)

lemma start_keeps: "0 < ps_max_files st \<Longrightarrow> 0 < ps_max_changed_lines st \<Longrightarrow> owed 0 (start_result i sz) \<and> limited st (start_result i sz) \<and> honest (start_result i sz)"
  by (simp add: owed_def limited_def honest_def skipped_for_def start_result_def changes_of_def zero_coverage_def)

lemma prepareSettings_limits:
  assumes "prepareSettings s = Some st"
  shows "ps_max_files st = ps_max_files (withDefaults s) \<and> ps_max_changed_lines st = ps_max_changed_lines (withDefaults s)
    \<and> 0 < ps_max_files st \<and> 0 < ps_max_changed_lines st"
  using assms by (auto simp: prepareSettings_def withDefaults_def Let_def split: option.splits if_splits)

text \<open>The files are taken in the order of the merge request or by their risk.\<close>

lemma Assemble_parts:
  assumes "Assemble retriever i = Inr res"
  obtains st ds sz r where "prepareSettings (ai_settings i) = Some st" "mset ds = mset (ai_diffs i)"
    "assemble_files st i ds (start_result i sz) = Inr r" "res = finish_coverage (retrieve_related retriever i r)"
proof -
  obtain st where st: "prepareSettings (ai_settings i) = Some st" using assms by (auto simp: Assemble_def split: option.splits)
  define sz where "sz = classifyPRSize (ai_diffs i) (policy_settings.truncate st)"
  define ds where "ds = (if sz_prioritize_files sz then prioritizeFiles (ai_diffs i) else ai_diffs i)"
  have m: "mset ds = mset (ai_diffs i)" by (simp add: ds_def prioritizeFiles_def)
  obtain r where "assemble_files st i ds (start_result i sz) = Inr r" "res = finish_coverage (retrieve_related retriever i r)"
    using assms st by (auto simp: Assemble_def Let_def sz_def ds_def split: sum.splits)
  with that [OF st m] show ?thesis by blast
qed

lemma Assemble_invariant:
  assumes "Assemble retriever i = Inr res"
  obtains st r where "prepareSettings (ai_settings i) = Some st" "res = finish_coverage (retrieve_related retriever i r)"
    "owed 0 r" "limited st r" "honest r"
proof -
  from assms obtain st ds sz r where st: "prepareSettings (ai_settings i) = Some st"
    and r: "assemble_files st i ds (start_result i sz) = Inr r" "res = finish_coverage (retrieve_related retriever i r)"
    by (rule Assemble_parts)
  have "owed 0 (start_result i sz) \<and> limited st (start_result i sz) \<and> honest (start_result i sz)"
    by (rule start_keeps) (use prepareSettings_limits [OF st] in simp_all)
  then show ?thesis using that [OF st r(2)] assemble_files_keeps [OF r(1)] by blast
qed

subsection \<open>All changed lines\<close>

definition all_changed_lines :: "merge_request_diff list \<Rightarrow> int" where
  "all_changed_lines ds = sum_list (map (\<lambda>d. countChangedLines (md_diff d)) (filter (\<lambda>d. changePath d \<noteq> []) ds))"

lemma total_updates [simp]:
  "cr_total_changed_lines (ar_coverage (exclude_file p x r)) = cr_total_changed_lines (ar_coverage r)"
  "cr_total_changed_lines (ar_coverage (skip_scope p x n r)) = cr_total_changed_lines (ar_coverage r)"
  "cr_total_changed_lines (ar_coverage (add_change c n r)) = cr_total_changed_lines (ar_coverage r)"
  "cr_total_changed_lines (ar_coverage (count_file d r)) = cr_total_changed_lines (ar_coverage r) + countChangedLines (md_diff d)"
  by (simp_all add: exclude_file_def skip_scope_def add_change_def count_file_def Let_def)

lemma assemble_file_total:
  assumes "assemble_file st i d r = Inr r'"
  shows "cr_total_changed_lines (ar_coverage r') = cr_total_changed_lines (ar_coverage r) + all_changed_lines [d]"
  using assms by (auto simp: assemble_file_def all_changed_lines_def Let_def split: if_splits sum.splits list.splits prod.splits)

lemma assemble_files_total:
  "assemble_files st i ds r = Inr r' \<Longrightarrow> cr_total_changed_lines (ar_coverage r') = cr_total_changed_lines (ar_coverage r) + all_changed_lines ds"
  by (induction ds arbitrary: r) (auto simp: all_changed_lines_def dest: assemble_file_total split: sum.splits if_splits)

text \<open>No count is negative.\<close>

lemma countChangedLines_nonneg [simp]: "0 \<le> countChangedLines t"
proof -
  have "0 \<le> sum_changes hs" for hs by (induction hs) simp_all
  then show ?thesis by (simp add: countChangedLines_def split: sum.splits)
qed

definition sound_skips :: "assembly_result \<Rightarrow> bool" where
  "sound_skips r \<longleftrightarrow> list_all (\<lambda>s. 0 \<le> ss_changed_lines s) (cr_skipped (ar_coverage r))"

lemma sound_skips_updates [simp]:
  "sound_skips (exclude_file p x r) = sound_skips r" "sound_skips (count_file d r) = sound_skips r"
  "sound_skips (r\<lparr>ar_truncated := t\<rparr>) = sound_skips r" "sound_skips (r\<lparr>ar_mode := m\<rparr>) = sound_skips r"
  "sound_skips (r\<lparr>ar_total_changed_lines := u\<rparr>) = sound_skips r"
  "0 \<le> n \<Longrightarrow> sound_skips (skip_scope p x n r) = sound_skips r" "sound_skips r \<Longrightarrow> sound_skips (add_change c n r)"
  by (simp_all add: sound_skips_def exclude_file_def count_file_def skip_scope_def add_change_def Let_def)

lemma assemble_files_sound: "assemble_files st i ds r = Inr r' \<Longrightarrow> sound_skips r \<Longrightarrow> sound_skips r'"
proof (induction ds arbitrary: r)
  case (Cons d ds)
  have "sound_skips x" if "assemble_file st i d r = Inr x" for x
    using that Cons.prems(2) by (auto simp: assemble_file_def Let_def split: if_splits sum.splits list.splits prod.splits)
  then show ?case using Cons by (auto split: sum.splits)
qed simp

lemma skipped_total_nonneg:
  assumes "Assemble retriever i = Inr res"
  shows "0 \<le> skipped_total (cr_skipped (ar_coverage res))"
proof -
  from assms obtain st ds sz r where r: "assemble_files st i ds (start_result i sz) = Inr r" "res = finish_coverage (retrieve_related retriever i r)"
    by (rule Assemble_parts)
  have "sound_skips (start_result i sz)" by (simp add: sound_skips_def start_result_def zero_coverage_def)
  then have "sound_skips r" by (rule assemble_files_sound [OF r(1)])
  moreover have "list_all (\<lambda>s. 0 \<le> ss_changed_lines s) ss \<Longrightarrow> 0 \<le> skipped_total ss" for ss
    by (induction ss) (simp_all add: skipped_total_def)
  ultimately show ?thesis by (simp add: r(2) finish_fields sound_skips_def)
qed

lemma covered_nonneg: "list_all (\<lambda>c. change_ok c \<and> P c) cs \<Longrightarrow> 0 \<le> covered cs"
proof (induction cs)
  case (Cons c cs)
  have "list_all (\<lambda>h. 0 < hk_changed_lines h) hs \<Longrightarrow> 0 \<le> hunk_lines hs" for hs by (induction hs) simp_all
  then show ?case using Cons by (simp add: covered_def change_ok_def)
qed (simp add: covered_def)

lemma all_changed_lines_order: "mset ds = mset es \<Longrightarrow> all_changed_lines ds = all_changed_lines es"
proof -
  assume "mset ds = mset es"
  then have "mset (map f (filter P ds)) = mset (map f (filter P es))" for f :: "merge_request_diff \<Rightarrow> int" and P by simp
  then show ?thesis unfolding all_changed_lines_def by (metis sum_mset_sum_list)
qed

lemma Assemble_total:
  assumes "Assemble retriever i = Inr res"
  shows "cr_total_changed_lines (ar_coverage res) = all_changed_lines (ai_diffs i)"
proof -
  from assms obtain st ds sz r where m: "mset ds = mset (ai_diffs i)" and f: "assemble_files st i ds (start_result i sz) = Inr r"
    and r: "res = finish_coverage (retrieve_related retriever i r)" by (rule Assemble_parts)
  show ?thesis using assemble_files_total [OF f] all_changed_lines_order [OF m]
    by (simp add: r finish_fields start_result_def zero_coverage_def)
qed

lemma Assemble_accounts:
  assumes "Assemble retriever i = Inr res"
  shows "cr_total_changed_lines (ar_coverage res) = all_changed_lines (ai_diffs i)
    \<and> cr_reviewed_changed_lines (ar_coverage res) + skipped_total (cr_skipped (ar_coverage res)) = cr_total_changed_lines (ar_coverage res)
    \<and> cr_skipped_lines (ar_coverage res) = skipped_total (cr_skipped (ar_coverage res))
    \<and> cr_reviewed_changed_lines (ar_coverage res) = covered (rvq_changes (ar_request res))
    \<and> cr_reviewed_paths (ar_coverage res) = map ch_path (rvq_changes (ar_request res))"
proof -
  obtain st r where r: "res = finish_coverage (retrieve_related retriever i r)" "owed 0 r"
    by (rule Assemble_invariant [OF assms])
  have c: "rvq_changes (ar_request res) = changes_of (retrieve_related retriever i r)"
    by (simp add: r(1) finish_fields(1) [unfolded changes_of_def] changes_of_def)
  show ?thesis using r(2) Assemble_total [OF assms] unfolding c unfolding r(1) by (simp add: finish_fields owed_def)
qed

text \<open>C21 (the report accounts for every line). In every assembled request the changed lines that are shown and those
  that the report lists as skipped add up to all changed lines of the merge request; the lines shown are those
  of the changes in the request, the reviewed paths are theirs, in order.\<close>

theorem coverage_accounts:
  assumes "Assemble retriever i = Inr res"
  shows "cr_total_changed_lines (ar_coverage res) = all_changed_lines (ai_diffs i)
    \<and> cr_reviewed_changed_lines (ar_coverage res) + skipped_total (cr_skipped (ar_coverage res)) = cr_total_changed_lines (ar_coverage res)
    \<and> cr_skipped_lines (ar_coverage res) = skipped_total (cr_skipped (ar_coverage res))
    \<and> cr_reviewed_changed_lines (ar_coverage res) = covered (rvq_changes (ar_request res))
    \<and> cr_reviewed_paths (ar_coverage res) = map ch_path (rvq_changes (ar_request res))"
  using assms by (rule Assemble_accounts)

lemma Assemble_limits:
  assumes "Assemble retriever i = Inr res"
  shows "int (length (rvq_changes (ar_request res))) \<le> ps_max_files (withDefaults (ai_settings i))
    \<and> covered (rvq_changes (ar_request res)) \<le> ps_max_changed_lines (withDefaults (ai_settings i))
    \<and> list_all (\<lambda>c. change_ok c \<and> ch_hunks c \<noteq> []) (rvq_changes (ar_request res))"
proof -
  obtain st r where r: "prepareSettings (ai_settings i) = Some st" "res = finish_coverage (retrieve_related retriever i r)" "limited st r"
    by (rule Assemble_invariant [OF assms])
  have c: "rvq_changes (ar_request res) = changes_of (retrieve_related retriever i r)"
    by (simp add: r(2) finish_fields(1) [unfolded changes_of_def] changes_of_def)
  show ?thesis using r(3) prepareSettings_limits [OF r(1)] unfolding c by (simp add: limited_def)
qed

text \<open>C22 (limits of a request). A request never has more files or more changed lines than the settings allow (the
  defaults where the settings have none); every file in it shows at least one hunk, every hunk a changed line,
  and the counts of a file are those of its hunks.\<close>

theorem request_within_limits:
  assumes "Assemble retriever i = Inr res"
  shows "int (length (rvq_changes (ar_request res))) \<le> ps_max_files (withDefaults (ai_settings i))
    \<and> covered (rvq_changes (ar_request res)) \<le> ps_max_changed_lines (withDefaults (ai_settings i))
    \<and> list_all (\<lambda>c. change_ok c \<and> ch_hunks c \<noteq> []) (rvq_changes (ar_request res))"
  using assms by (rule Assemble_limits)

text \<open>Full scope means full scope. A request whose mode is full scope has no truncated file, and the report skips
  nothing because of the limits: what is left out was excluded by its kind or by the path patterns.\<close>

theorem full_scope_complete:
  assumes "Assemble retriever i = Inr res" and "cr_mode (ar_coverage res) = ''full_scope''"
  shows "list_all (\<lambda>s. ss_reason s \<noteq> ''truncated'' \<and> ss_reason s \<noteq> ''scope_limit'') (cr_skipped (ar_coverage res))
    \<and> list_all (\<lambda>c. \<not> ch_truncated c) (rvq_changes (ar_request res))"
proof -
  obtain st r where r: "res = finish_coverage (retrieve_related retriever i r)" "honest r"
    by (rule Assemble_invariant [OF assms(1)])
  have c: "rvq_changes (ar_request res) = changes_of (retrieve_related retriever i r)"
    by (simp add: r(1) finish_fields(1) [unfolded changes_of_def] changes_of_def)
  have "final_mode (retrieve_related retriever i r) = ''full_scope''" using assms(2) r(1) finish_fields(8) by simp
  then have "\<not> ar_truncated r" "\<not> hasScopeLimitExclusion (ar_excluded r)"
    using r(2) by (auto simp: final_mode_def honest_def hasScopeLimitExclusion_def split: if_splits)
  then have no: "\<not> skipped_for ''truncated'' r" "\<not> skipped_for ''scope_limit'' r" "\<not> list_ex ch_truncated (changes_of r)"
    using r(2) by (auto simp: honest_def)
  have "\<not> list_ex ch_truncated (rvq_changes (ar_request res))" unfolding c by (simp only: changes_retrieve no simp_thms)
  moreover have "cr_skipped (ar_coverage res) = cr_skipped (ar_coverage r)" unfolding r(1) by (simp only: finish_fields retrieve_keeps_fields)
  ultimately show ?thesis using no(1,2) by (auto simp: skipped_for_def list_all_iff list_ex_iff)
qed

subsection \<open>Examples\<close>

text \<open>Two files, three changed lines each; a lock file beside them. With a budget of four changed lines the second
  file is cut after one.\<close>

definition sample_diff :: "string \<Rightarrow> string \<Rightarrow> merge_request_diff" where
  "sample_diff path text = \<lparr>md_old_path = path, md_new_path = path, md_diff = text, md_a_mode = [], md_b_mode = [],
     md_new_file = False, md_renamed_file = False, md_deleted_file = False, md_generated_file = False, md_collapsed = False,
     md_too_large = False\<rparr>"

definition sample_text :: string where
  "sample_text = join [''@@ -1,2 +1,3 @@ f'', '' x'', ''-y'', ''+z'', ''+w''] [CHR 0x0A]"

definition sample_assembly :: "int \<Rightarrow> assemble_input" where
  "sample_assembly budget = \<lparr>ai_review_run_id = 7, ai_project = rvq_project zero_request, ai_merge_request = rvq_merge_request zero_request,
     ai_version = zero_version, ai_rules = zero_rules,
     ai_settings = DefaultPolicySettings\<lparr>ps_max_changed_lines := budget\<rparr>,
     ai_diffs = [sample_diff ''a.go'' sample_text, sample_diff ''go.sum'' sample_text, sample_diff ''b.go'' sample_text],
     ai_historical_context = [], ai_incremental_state = rvq_incremental_state zero_request\<rparr>"

definition assembled :: "int \<Rightarrow> (string \<times> int \<times> int \<times> (string \<times> int) list) option" where
  "assembled budget = (case Assemble None (sample_assembly budget) of
     Inl _ \<Rightarrow> None
   | Inr r \<Rightarrow> Some (cr_mode (ar_coverage r), cr_reviewed_changed_lines (ar_coverage r), cr_total_changed_lines (ar_coverage r),
       map (\<lambda>s. (ss_reason s, ss_changed_lines s)) (cr_skipped (ar_coverage r))))"

lemma assembled_small: "assembled 4 = Some (''truncated'', 4, 9, [(''lock_file'', 3), (''truncated'', 2)])"
  by code_simp

lemma assembled_large: "assembled 100 = Some (''full_scope'', 6, 9, [(''lock_file'', 3)])"
  by code_simp

lemma assembled_result:
  assumes "assembled budget = Some (m, n, k, ss)"
  obtains res where "Assemble None (sample_assembly budget) = Inr res" "cr_mode (ar_coverage res) = m"
    "cr_reviewed_changed_lines (ar_coverage res) = n" "cr_total_changed_lines (ar_coverage res) = k"
  using assms by (auto simp: assembled_def split: sum.splits)

theorem coverage_accounts_witness:
  "\<exists>res. Assemble None (sample_assembly 4) = Inr res \<and> cr_reviewed_changed_lines (ar_coverage res) = 4
     \<and> 4 + skipped_total (cr_skipped (ar_coverage res)) = 9"
proof -
  obtain res where r: "Assemble None (sample_assembly 4) = Inr res" "cr_reviewed_changed_lines (ar_coverage res) = 4"
    "cr_total_changed_lines (ar_coverage res) = 9" by (rule assembled_result [OF assembled_small])
  with coverage_accounts [OF r(1)] show ?thesis by auto
qed

theorem request_within_limits_witness:
  "\<exists>res. Assemble None (sample_assembly 4) = Inr res \<and> covered (rvq_changes (ar_request res)) \<le> 4"
proof -
  obtain res where r: "Assemble None (sample_assembly 4) = Inr res" by (rule assembled_result [OF assembled_small])
  have "ps_max_changed_lines (withDefaults (ai_settings (sample_assembly 4))) = 4"
    by (simp add: sample_assembly_def withDefaults_def)
  with request_within_limits [OF r] r show ?thesis by auto
qed

theorem full_scope_complete_witness:
  "\<exists>res. Assemble None (sample_assembly 100) = Inr res \<and> list_all (\<lambda>c. \<not> ch_truncated c) (rvq_changes (ar_request res))"
proof -
  obtain res where r: "Assemble None (sample_assembly 100) = Inr res" "cr_mode (ar_coverage res) = ''full_scope''"
    by (rule assembled_result [OF assembled_large])
  from full_scope_complete [OF r] r(1) show ?thesis by blast
qed

end
