(* ===== verification/Writer_Render.thy ===== *)
theory Writer_Render
  imports Db_Findings Go_Json Go_Float
begin

text \<open>
  What the comment writer sends: the positions, bodies and error classes of \<^verbatim>\<open>internal/writer/writer.go\<close>, the
  request types of \<^verbatim>\<open>internal/reviewcomment\<close> and the languages of \<^verbatim>\<open>internal/reviewlang\<close>. The effects of the
  writer are in \<open>Writer\<close>. Texts outside ASCII are written as their UTF-8 bytes.
\<close>

subsection \<open>Requests\<close>

record range_line =
  rg_line_code :: string
  rg_line_type :: string
  rg_old_line :: "int option"
  rg_new_line :: "int option"

record line_range =
  lr_start :: range_line
  lr_end :: range_line

record position =
  po_position_type :: string
  po_base_sha :: string
  po_start_sha :: string
  po_head_sha :: string
  po_old_path :: string
  po_new_path :: string
  po_old_line :: "int option"
  po_new_line :: "int option"
  po_line_range :: "line_range option"

record create_discussion_request =
  cdr_project_id :: int
  cdr_merge_request_iid :: int
  cdr_body :: string
  cdr_position :: position
  cdr_review_finding_id :: int
  cdr_idempotency_key :: string

record create_note_request =
  cnr_project_id :: int
  cnr_merge_request_iid :: int
  cnr_body :: string
  cnr_review_finding_id :: int
  cnr_idempotency_key :: string

record resolve_discussion_request =
  rdr_project_id :: int
  rdr_merge_request_iid :: int
  rdr_discussion_id :: string
  rdr_resolved :: bool

subsection \<open>Errors\<close>

text \<open>An error by what the writer asks of it: whether \<^verbatim>\<open>errors.As\<close> finds a \<^verbatim>\<open>net.Error\<close>, the status code of a
  response error, and its text. Wrapping with \<^verbatim>\<open>%w\<close> keeps the first two and puts a text in front.\<close>

record write_error =
  we_net :: bool
  we_status :: "int option"
  we_text :: string

definition wrap_error :: "string \<Rightarrow> write_error \<Rightarrow> write_error" where
  "wrap_error prefix e = e\<lparr>we_text := prefix @ we_text e\<rparr>"

definition isRetryableWriteError :: "write_error \<Rightarrow> bool" where
  "isRetryableWriteError e =
     (if we_net e then True
      else case we_status e of
        Some code \<Rightarrow> code = 429 \<or> code \<ge> 500
      | None \<Rightarrow> (let message = to_lower (we_text e) in
          contains message ''timeout'' \<or> contains message ''connection refused'' \<or> contains message ''tempor''
          \<or> contains message ''429'' \<or> contains message ''503''))"

definition isPositionFailure :: "write_error \<Rightarrow> bool" where
  "isPositionFailure e = (let message = to_lower (we_text e) in
     contains message ''400'' \<or> contains message ''position'' \<or> contains message ''line_code''
     \<or> contains message ''invalid line'')"

definition classifyDiscussionError :: "string \<Rightarrow> write_error option \<Rightarrow> string" where
  "classifyDiscussionError discussionType err = (case err of
     None \<Rightarrow> []
   | Some e \<Rightarrow>
       if isRetryableWriteError e then ''gitlab_unavailable''
       else if isPositionFailure e then
         (if discussionType = ''file'' then ''gitlab_create_file_discussion_failed'' else ''gitlab_position_invalid'')
       else if discussionType = ''file'' then ''gitlab_create_file_discussion_failed''
       else ''gitlab_create_discussion_failed'')"

definition classifyWriteError :: "write_error option \<Rightarrow> string" where
  "classifyWriteError err = (case err of
     None \<Rightarrow> []
   | Some e \<Rightarrow>
       if isRetryableWriteError e then ''gitlab_unavailable''
       else if isPositionFailure e then ''gitlab_position_invalid''
       else ''gitlab_create_note_failed'')"

definition classifyResolveError :: "write_error option \<Rightarrow> string" where
  "classifyResolveError err = (case err of
     None \<Rightarrow> []
   | Some e \<Rightarrow>
       if isRetryableWriteError e then ''gitlab_unavailable''
       else if contains (to_lower (we_text e)) ''already resolved'' then []
       else ''gitlab_resolve_discussion_failed'')"

definition errorCodeIfFailed :: "string \<Rightarrow> string \<Rightarrow> string" where
  "errorCodeIfFailed status code = (if status = ''failed'' then code else [])"

subsection \<open>Language\<close>

definition DefaultOutputLanguage :: string where
  "DefaultOutputLanguage = ''zh-CN''"

definition Normalize :: "string \<Rightarrow> string" where
  "Normalize value0 =
     (let value = trim_space value0 in
      if value = [] then DefaultOutputLanguage
      else let l = to_lower value in
        if l \<in> set [''zh'', ''zh-cn'', ''zh_hans'', ''zh-hans'', ''zh-sg''] then ''zh-CN''
        else if l \<in> set [''en'', ''en-us'', ''en_us''] then ''en-US''
        else value)"

definition IsChinese :: "string \<Rightarrow> bool" where
  "IsChinese value = has_prefix (to_lower (Normalize value)) ''zh''"

definition utf8 :: "nat list \<Rightarrow> string" where
  "utf8 bytes = map char_of bytes"

record writer_copy =
  wc_evidence_label :: string
  wc_suggested_fix_label :: string
  wc_original_target_line_label :: string
  wc_file_label :: string
  wc_anchor_context_label :: string
  wc_overall_risk_label :: string
  wc_overall_risk_elevated :: string
  wc_overall_risk_none :: string
  wc_findings_posted_label :: string
  wc_findings_resolved_label :: string
  wc_findings_filtered_label :: string
  wc_no_issues_text :: string
  wc_parser_error_note :: string

definition writerCopy :: "string \<Rightarrow> writer_copy" where
  "writerCopy language =
     (if IsChinese language then
       \<lparr>wc_evidence_label = utf8 [0xE8, 0xAF, 0x81, 0xE6, 0x8D, 0xAE, 0xEF, 0xBC, 0x9A],
        wc_suggested_fix_label = utf8 [0xE5, 0xBB, 0xBA, 0xE8, 0xAE, 0xAE, 0xE4, 0xBF, 0xAE, 0xE6, 0x94, 0xB9, 0xEF, 0xBC, 0x9A],
        wc_original_target_line_label = utf8 [0xE5, 0x8E, 0x9F, 0xE5, 0xA7, 0x8B, 0xE7, 0x9B, 0xAE, 0xE6, 0xA0, 0x87, 0xE8, 0xA1, 0x8C,
          0xEF, 0xBC, 0x9A],
        wc_file_label = utf8 [0xE6, 0x96, 0x87, 0xE4, 0xBB, 0xB6, 0xEF, 0xBC, 0x9A],
        wc_anchor_context_label = utf8 [0xE9, 0x94, 0x9A, 0xE7, 0x82, 0xB9, 0xE4, 0xB8, 0x8A, 0xE4, 0xB8, 0x8B, 0xE6, 0x96, 0x87,
          0xEF, 0xBC, 0x9A],
        wc_overall_risk_label = utf8 [0xE6, 0x80, 0xBB, 0xE4, 0xBD, 0x93, 0xE9, 0xA3, 0x8E, 0xE9, 0x99, 0xA9, 0xEF, 0xBC, 0x9A],
        wc_overall_risk_elevated = utf8 [0xE8, 0xBE, 0x83, 0xE9, 0xAB, 0x98],
        wc_overall_risk_none = utf8 [0xE6, 0x97, 0xA0],
        wc_findings_posted_label = utf8 [0xE5, 0xB7, 0xB2, 0xE5, 0x8F, 0x91, 0xE5, 0xB8, 0x83, 0xE9, 0x97, 0xAE, 0xE9, 0xA2, 0x98,
          0xEF, 0xBC, 0x9A],
        wc_findings_resolved_label = utf8 [0xE5, 0xB7, 0xB2, 0xE8, 0xA7, 0xA3, 0xE5, 0x86, 0xB3, 0xE9, 0x97, 0xAE, 0xE9, 0xA2, 0x98,
          0xEF, 0xBC, 0x9A],
        wc_findings_filtered_label = utf8 [0xE5, 0xB7, 0xB2, 0xE8, 0xBF, 0x87, 0xE6, 0xBB, 0xA4, 0xE9, 0x97, 0xAE, 0xE9, 0xA2, 0x98,
          0xEF, 0xBC, 0x9A],
        wc_no_issues_text = utf8 [0xE6, 0x9C, 0xAA, 0xE5, 0x8F, 0x91, 0xE7, 0x8E, 0xB0, 0xE9, 0x9C, 0x80, 0xE8, 0xA6, 0x81,
          0xE5, 0xA4, 0x84, 0xE7, 0x90, 0x86, 0xE7, 0x9A, 0x84, 0xE9, 0x97, 0xAE, 0xE9, 0xA2, 0x98, 0xE3,
          0x80, 0x82],
        wc_parser_error_note = ''AI review '' @ utf8 [0xE6, 0x97, 0xA0, 0xE6, 0xB3, 0x95, 0xE8, 0xA7, 0xA3, 0xE6, 0x9E, 0x90,
          0xE6, 0x9C, 0xAC, 0xE6, 0xAC, 0xA1] @ '' review run %d '' @ utf8 [0xE7, 0x9A, 0x84, 0xE6, 0xA8,
          0xA1, 0xE5, 0x9E, 0x8B, 0xE8, 0xBE, 0x93, 0xE5, 0x87, 0xBA, 0xEF, 0xBC, 0x8C, 0xE5, 0x9B, 0xA0,
          0xE6, 0xAD, 0xA4, 0xE6, 0xB2, 0xA1, 0xE6, 0x9C, 0x89, 0xE5, 0x88, 0x9B, 0xE5, 0xBB, 0xBA, 0xE8,
          0xA1, 0x8C, 0xE5, 0x86, 0x85, 0xE8, 0xAF, 0x84, 0xE8, 0xAE, 0xBA, 0xEF, 0xBC, 0x8C, 0xE5, 0x8F,
          0xAA, 0xE4, 0xBF, 0x9D, 0xE7, 0x95, 0x99, 0xE4, 0xBA, 0x86, 0xE4, 0xB8, 0x80, 0xE6, 0x9D, 0xA1,
          0xE9, 0x80, 0x9A, 0xE7, 0x94, 0xA8, 0xE8, 0xAF, 0xB4, 0xE6, 0x98, 0x8E, 0xE3, 0x80, 0x82]\<rparr>
      else
       \<lparr>wc_evidence_label = ''Evidence:'',
        wc_suggested_fix_label = ''Suggested fix:'',
        wc_original_target_line_label = ''Original target line:'',
        wc_file_label = ''File:'',
        wc_anchor_context_label = ''Anchor context:'',
        wc_overall_risk_label = ''overall_risk:'',
        wc_overall_risk_elevated = ''elevated'',
        wc_overall_risk_none = ''none'',
        wc_findings_posted_label = ''findings_posted:'',
        wc_findings_resolved_label = ''findings_resolved:'',
        wc_findings_filtered_label = ''findings_filtered:'',
        wc_no_issues_text = ''No issues found.'',
        wc_parser_error_note = ''AI review could not parse provider output for review run %d. A general '' @
          ''fallback note was emitted instead of inline comments.''\<rparr>)"

definition NL :: string where
  "NL = [CHR 0x0A]"

text \<open>\<^verbatim>\<open>fmt.Sprintf\<close> of a format with one \<^verbatim>\<open>%d\<close>.\<close>

definition sprintf_d :: "string \<Rightarrow> int \<Rightarrow> string" where
  "sprintf_d format n = (case index_of format ''%d'' of
     None \<Rightarrow> format | Some i \<Rightarrow> take i format @ itoa n @ drop (i + 2) format)"

definition summaryTitle :: "int \<Rightarrow> string \<Rightarrow> string" where
  "summaryTitle runID language =
     (if IsChinese language
      then ''AI Review '' @ utf8 [0xE6, 0x91, 0x98, 0xE8, 0xA6, 0x81, 0xEF, 0xBC, 0x88] @ ''run '' @ itoa runID @ utf8 [0xEF, 0xBC, 0x89]
      else ''AI review summary for run '' @ itoa runID)"

definition parserErrorNoteBody :: "int \<Rightarrow> string \<Rightarrow> string" where
  "parserErrorNoteBody runID language = sprintf_d (wc_parser_error_note (writerCopy language)) runID"

text \<open>The scope of a run and the extra column of a policy are JSON objects; a text that is not JSON or a member
  of another type is an error of \<^verbatim>\<open>json.Unmarshal\<close>.\<close>

definition outputLanguageFromRunScope :: "(string \<Rightarrow> json option) \<Rightarrow> string option \<Rightarrow> string" where
  "outputLanguageFromRunScope decode raw = (case raw of
     None \<Rightarrow> []
   | Some t \<Rightarrow>
       if t = [] \<or> t = ''null'' then []
       else case Option.bind (decode t) struct_value of
         None \<Rightarrow> []
       | Some kvs \<Rightarrow>
           (case str_of ''output_language'' kvs of
              None \<Rightarrow> []
            | Some l \<Rightarrow> if trim_space l = [] then [] else Normalize l))"

definition outputLanguageFromPolicy :: "(string \<Rightarrow> json option) \<Rightarrow> project_policy \<Rightarrow> string" where
  "outputLanguageFromPolicy decode policy = (case pp_extra policy of
     None \<Rightarrow> DefaultOutputLanguage
   | Some t \<Rightarrow>
       if t = [] \<or> t = ''null'' then DefaultOutputLanguage
       else case Option.bind (decode t) struct_value of
         None \<Rightarrow> DefaultOutputLanguage
       | Some kvs \<Rightarrow>
           (case (str_of ''output_language'' kvs, Option.bind (struct_of ''review'' kvs) (str_of ''output_language'')) of
              (Some l, Some r) \<Rightarrow>
                if trim_space r \<noteq> [] then Normalize r
                else if trim_space l \<noteq> [] then Normalize l
                else DefaultOutputLanguage
            | _ \<Rightarrow> DefaultOutputLanguage))"

subsection \<open>Positions\<close>

text \<open>The \<^verbatim>\<open>String\<close> of a \<^verbatim>\<open>sql.NullString\<close> that is not valid is empty.\<close>

definition null_string :: "string option \<Rightarrow> string" where
  "null_string v = (case v of None \<Rightarrow> [] | Some t \<Rightarrow> t)"

definition resolvePaths :: "review_finding \<Rightarrow> string \<times> string" where
  "resolvePaths finding =
     (let path = trim_space (rf_path finding) in
      if path = [] then ([], [])
      else case split_n2 path '' -> '' of
        [a, b] \<Rightarrow> (trim_space a, trim_space b)
      | _ \<Rightarrow> (path, path))"

definition canonicalAnchorKind :: "string \<Rightarrow> string" where
  "canonicalAnchorKind kind =
     (let k = norm_lower kind in
      if k \<in> set [''range'', ''line_range''] then ''range''
      else if k \<in> set [''old'', ''old_line'', ''deleted'', ''removed''] then ''old_line''
      else if k \<in> set [''context'', ''context_line'', ''unchanged''] then ''context_line''
      else ''new_line'')"

definition canonicalRangeLineType :: "string \<Rightarrow> string" where
  "canonicalRangeLineType kind =
     (let k = norm_lower kind in
      if k \<in> set [''old'', ''old_line'', ''removed''] then ''old''
      else if k \<in> set [''new'', ''new_line'', ''added''] then ''new''
      else if k \<in> set [''context'', ''context_line'', ''unchanged''] then ''context''
      else [])"

record range_anchor_line =
  ra_kind :: string
  ra_old_line :: "int option"
  ra_new_line :: "int option"

type_synonym range_anchor = "range_anchor_line \<times> range_anchor_line"

definition rangeAnchorLineForKind :: "string \<Rightarrow> int option \<Rightarrow> int option \<Rightarrow> range_anchor_line option" where
  "rangeAnchorLineForKind kind oldLine newLine =
     (if kind = ''old'' then
        (if oldLine = None then None else Some \<lparr>ra_kind = kind, ra_old_line = oldLine, ra_new_line = None\<rparr>)
      else if kind = ''new'' then
        (if newLine = None then None else Some \<lparr>ra_kind = kind, ra_old_line = None, ra_new_line = newLine\<rparr>)
      else if kind = ''context'' then
        (if oldLine = None \<or> newLine = None then None
         else Some \<lparr>ra_kind = kind, ra_old_line = oldLine, ra_new_line = newLine\<rparr>)
      else None)"

definition assignRangeLines :: "string \<Rightarrow> string \<Rightarrow> int option \<Rightarrow> int option \<Rightarrow> range_anchor option" where
  "assignRangeLines startKind endKind oldLine newLine =
     (case rangeAnchorLineForKind startKind oldLine newLine of
        None \<Rightarrow> None
      | Some s \<Rightarrow> (case rangeAnchorLineForKind endKind oldLine newLine of None \<Rightarrow> None | Some e \<Rightarrow> Some (s, e)))"

definition structuredRangeAnchor :: "review_finding \<Rightarrow> range_anchor option" where
  "structuredRangeAnchor finding =
     (let startKind = canonicalRangeLineType (null_string (rf_range_start_kind finding));
          endKind = canonicalRangeLineType (null_string (rf_range_end_kind finding)) in
      if startKind = [] \<or> endKind = [] then None
      else case rangeAnchorLineForKind startKind (rf_range_start_old_line finding) (rf_range_start_new_line finding) of
        None \<Rightarrow> None
      | Some s \<Rightarrow>
          (case rangeAnchorLineForKind endKind (rf_range_end_old_line finding) (rf_range_end_new_line finding) of
             None \<Rightarrow> None
           | Some e \<Rightarrow> Some (s, e)))"

fun first_non_empty :: "string list \<Rightarrow> string" where
  "first_non_empty [] = []"
| "first_non_empty (l # ls) = (if trim_space l \<noteq> [] then trim_space l else first_non_empty ls)"

definition firstNonEmptyLine :: "string \<Rightarrow> string" where
  "firstNonEmptyLine value = first_non_empty (split_char (CHR 0x0A) value)"

text \<open>\<^verbatim>\<open>strings.FieldsFunc\<close> for a set of ASCII separators.\<close>

fun fields_func :: "(char \<Rightarrow> bool) \<Rightarrow> string \<Rightarrow> string \<Rightarrow> string list" where
  "fields_func p acc [] = (if acc = [] then [] else [rev acc])"
| "fields_func p acc (c # cs) =
     (if p c then (if acc = [] then fields_func p [] cs else rev acc # fields_func p [] cs)
      else fields_func p (c # acc) cs)"

definition parseRangeAnchor :: "review_finding \<Rightarrow> range_anchor option" where
  "parseRangeAnchor finding =
     (let evidence = trim_space (null_string (rf_evidence finding)) in
      if evidence = [] then None
      else case fields_func (\<lambda>c. c \<in> set ''->,|'') [] (trim_space (firstNonEmptyLine evidence)) of
        [a, b] \<Rightarrow>
          (let s = canonicalRangeLineType a; e = canonicalRangeLineType b in
           if s = [] \<or> e = [] then None
           else assignRangeLines s e (rf_old_line finding) (rf_new_line finding))
      | _ \<Rightarrow> None)"

definition line_value :: "int option \<Rightarrow> int" where
  "line_value l = (case l of None \<Rightarrow> 0 | Some n \<Rightarrow> n)"

definition lineCode :: "string \<Rightarrow> string \<Rightarrow> int option \<Rightarrow> int option \<Rightarrow> string" where
  "lineCode oldPath newPath oldLine newLine =
     (if oldPath = [] \<and> newPath = [] then []
      else (if newPath = [] then oldPath else newPath) @ ''_'' @ itoa (line_value oldLine) @ ''_'' @ itoa (line_value newLine))"

definition buildRangeLine :: "string \<Rightarrow> string \<Rightarrow> range_anchor_line \<Rightarrow> range_line option" where
  "buildRangeLine oldPath newPath l =
     (let code = lineCode oldPath newPath (ra_old_line l) (ra_new_line l) in
      if code = [] then None
      else Some \<lparr>rg_line_code = code, rg_line_type = ra_kind l, rg_old_line = ra_old_line l, rg_new_line = ra_new_line l\<rparr>)"

definition buildLineRange :: "string \<Rightarrow> string \<Rightarrow> review_finding \<Rightarrow> line_range option" where
  "buildLineRange oldPath newPath finding =
     (case (case structuredRangeAnchor finding of Some a \<Rightarrow> Some a | None \<Rightarrow> parseRangeAnchor finding) of
        None \<Rightarrow> None
      | Some (s, e) \<Rightarrow>
          (case (buildRangeLine oldPath newPath s, buildRangeLine oldPath newPath e) of
             (Some s', Some e') \<Rightarrow> Some \<lparr>lr_start = s', lr_end = e'\<rparr>
           | _ \<Rightarrow> None))"

definition BuildPosition :: "mr_version \<Rightarrow> review_finding \<Rightarrow> position" where
  "BuildPosition version finding =
     (case resolvePaths finding of (oldPath, newPath) \<Rightarrow>
        let p = \<lparr>po_position_type = ''text'', po_base_sha = mv_base_sha version, po_start_sha = mv_start_sha version,
              po_head_sha = mv_head_sha version, po_old_path = oldPath, po_new_path = newPath,
              po_old_line = None, po_new_line = None, po_line_range = None\<rparr>;
            kind = canonicalAnchorKind (rf_anchor_kind finding) in
        if kind = ''range'' then
          (case buildLineRange oldPath newPath finding of
             None \<Rightarrow> p
           | Some r \<Rightarrow> p\<lparr>po_line_range := Some r, po_old_line := rg_old_line (lr_end r), po_new_line := rg_new_line (lr_end r)\<rparr>)
        else if kind = ''old_line'' then p\<lparr>po_old_line := rf_old_line finding\<rparr>
        else if kind = ''context_line'' then p\<lparr>po_old_line := rf_old_line finding, po_new_line := rf_new_line finding\<rparr>
        else p\<lparr>po_new_line := rf_new_line finding\<rparr>)"

definition BuildFileLevelPosition :: "mr_version \<Rightarrow> review_finding \<Rightarrow> position" where
  "BuildFileLevelPosition version finding =
     (BuildPosition version finding)\<lparr>po_position_type := ''file'', po_old_line := None, po_new_line := None\<rparr>"

subsection \<open>Bodies\<close>

definition renderTargetLine :: "review_finding \<Rightarrow> string" where
  "renderTargetLine finding = (case rf_new_line finding of
     Some n \<Rightarrow> ''new_line='' @ itoa n
   | None \<Rightarrow> (case rf_old_line finding of Some n \<Rightarrow> ''old_line='' @ itoa n | None \<Rightarrow> []))"

definition target_parts :: "review_finding \<Rightarrow> string \<Rightarrow> string list" where
  "target_parts finding language =
     (let line = renderTargetLine finding in
      if line \<noteq> [] then [wc_original_target_line_label (writerCopy language) @ '' '' @ line] else [])"

definition renderFallbackBody :: "review_finding \<Rightarrow> string \<Rightarrow> string \<Rightarrow> string" where
  "renderFallbackBody finding body language = join ([body] @ target_parts finding language) (NL @ NL)"

definition fence :: "string \<Rightarrow> string \<Rightarrow> string" where
  "fence tag t = ''```'' @ tag @ NL @ t @ NL @ ''```''"

definition renderGeneralNoteBody :: "review_finding \<Rightarrow> string \<Rightarrow> string \<Rightarrow> string" where
  "renderGeneralNoteBody finding body language =
     (let c = writerCopy language; path = trim_space (rf_path finding);
          snippet = trim_space (null_string (rf_anchor_snippet finding)) in
      join ([body]
        @ (if path \<noteq> [] then [wc_file_label c @ '' `'' @ path @ ''`''] else [])
        @ (if snippet \<noteq> [] then [wc_anchor_context_label c @ NL @ fence [] snippet] else [])
        @ target_parts finding language) (NL @ NL))"

definition renderBulletList :: "string \<Rightarrow> string" where
  "renderBulletList evidence =
     join (map (\<lambda>l. ''- '' @ l) (filter (\<lambda>l. l \<noteq> []) (map trim_space (split_char (CHR 0x0A) (trim_space evidence))))) NL"

definition isValidSuggestionPatch :: "string \<Rightarrow> bool" where
  "isValidSuggestionPatch suggestion \<longleftrightarrow>
     suggestion \<noteq> [] \<and> list_all (\<lambda>line. CHR 0x0D \<notin> set line) (split_char (CHR 0x0A) suggestion)"

definition buildSuggestionBlock :: "review_finding \<Rightarrow> rat \<Rightarrow> string \<Rightarrow> string" where
  "buildSuggestionBlock finding threshold language =
     (let suggestion = trim_space (null_string (rf_suggested_patch finding)) in
      if suggestion = [] \<or> rf_confidence finding < threshold \<or> \<not> isValidSuggestionPatch suggestion then []
      else wc_suggested_fix_label (writerCopy language) @ NL @ fence ''suggestion'' suggestion)"

text \<open>The verb \<^verbatim>\<open>%.2f\<close>: the nearest multiple of a hundredth, ties to even on the exact value.\<close>

definition format_2f :: "rat \<Rightarrow> string" where
  "format_2f x =
     (let n = nat (half_even (100 * \<bar>x\<bar>)) in
      (if x < 0 then ''-'' else []) @ nat_digits (n div 100) @ ''.''
        @ [digit_char (n mod 100 div 10), digit_char (n mod 10)])"

definition renderCommentBodyWithLanguage :: "review_finding \<Rightarrow> rat \<Rightarrow> string \<Rightarrow> string" where
  "renderCommentBodyWithLanguage finding threshold language =
     (let body = trim_space (null_string (rf_body_markdown finding));
          evidence = trim_space (null_string (rf_evidence finding));
          suggestion = buildSuggestionBlock finding threshold language in
      join ([''**'' @ trim_space (rf_title finding) @ ''**'']
        @ (if body \<noteq> [] then [body] else [])
        @ (if evidence \<noteq> [] then [wc_evidence_label (writerCopy language) @ NL @ renderBulletList evidence] else [])
        @ (if suggestion \<noteq> [] then [suggestion] else [])
        @ [''<!-- ai-review:finding_id='' @ itoa (rf_id finding) @ '' anchor_fp='' @ rf_anchor_fingerprint finding
             @ '' semantic_fp='' @ rf_semantic_fingerprint finding @ '' confidence='' @ format_2f (rf_confidence finding) @ '' -->''])
        (NL @ NL))"

definition RenderCommentBody :: "review_finding \<Rightarrow> rat \<Rightarrow> string" where
  "RenderCommentBody finding threshold = renderCommentBodyWithLanguage finding threshold DefaultOutputLanguage"

datatype summary_kind = Active | Resolved | Filtered

definition summary_class :: "review_finding \<Rightarrow> summary_kind" where
  "summary_class finding =
     (let st = norm_lower (rf_state finding) in
      if st = ''filtered'' then Filtered
      else if st \<in> set [''fixed'', ''stale'', ''superseded'', ''ignored''] then Resolved
      else Active)"

definition summary_count :: "summary_kind \<Rightarrow> review_finding list \<Rightarrow> int" where
  "summary_count c findings = int (length (filter (\<lambda>f. summary_class f = c) findings))"

definition renderSummaryBody :: "review_run \<Rightarrow> review_finding list \<Rightarrow> string \<Rightarrow> string" where
  "renderSummaryBody run findings language =
     (if trim_space (rr_error_code run) = ''degradation_mode'' \<and> trim_space (null_string (rr_error_detail run)) \<noteq> []
      then null_string (rr_error_detail run)
      else let c = writerCopy language;
             active = summary_count Active findings;
             risk0 = (if active > 0 then ''elevated'' else ''none'');
             risk1 = (if wc_overall_risk_none c \<noteq> [] \<and> risk0 = ''none'' then wc_overall_risk_none c else risk0);
             risk = (if wc_overall_risk_elevated c \<noteq> [] \<and> risk1 = ''elevated'' then wc_overall_risk_elevated c else risk1);
             heading = summaryTitle (rr_id run) language @ NL @ NL @ ''- '' @ wc_overall_risk_label c @ '' '' @ risk @ NL
         in if findings = [] then
              heading @ ''- '' @ wc_findings_posted_label c @ '' 0'' @ NL @ ''- '' @ wc_findings_resolved_label c @ '' 0'' @ NL
                @ ''- '' @ wc_findings_filtered_label c @ '' 0'' @ NL @ NL @ wc_no_issues_text c
            else
              heading @ ''- '' @ wc_findings_posted_label c @ '' '' @ itoa active @ NL
                @ ''- '' @ wc_findings_resolved_label c @ '' '' @ itoa (summary_count Resolved findings) @ NL
                @ ''- '' @ wc_findings_filtered_label c @ '' '' @ itoa (summary_count Filtered findings))"

subsection \<open>Positions name lines of the finding\<close>

definition range_line_ok :: "range_line \<Rightarrow> bool" where
  "range_line_ok l \<longleftrightarrow> rg_line_code l \<noteq> []
     \<and> (rg_line_type l = ''old'' \<and> rg_old_line l \<noteq> None \<and> rg_new_line l = None
        \<or> rg_line_type l = ''new'' \<and> rg_old_line l = None \<and> rg_new_line l \<noteq> None
        \<or> rg_line_type l = ''context'' \<and> rg_old_line l \<noteq> None \<and> rg_new_line l \<noteq> None)"

definition anchor_lines :: "review_finding \<Rightarrow> int option set \<Rightarrow> int option set \<Rightarrow> range_anchor_line \<Rightarrow> bool" where
  "anchor_lines f olds news l \<longleftrightarrow> ra_old_line l \<in> insert None olds \<and> ra_new_line l \<in> insert None news
     \<and> (ra_kind l = ''old'' \<and> ra_old_line l \<noteq> None \<and> ra_new_line l = None
        \<or> ra_kind l = ''new'' \<and> ra_old_line l = None \<and> ra_new_line l \<noteq> None
        \<or> ra_kind l = ''context'' \<and> ra_old_line l \<noteq> None \<and> ra_new_line l \<noteq> None)"

lemma rangeAnchorLineForKind_lines:
  "rangeAnchorLineForKind k a b = Some l \<Longrightarrow> a \<in> olds \<Longrightarrow> b \<in> news \<Longrightarrow> anchor_lines f olds news l"
  by (auto simp: rangeAnchorLineForKind_def anchor_lines_def split: if_splits)

abbreviation old_lines_of :: "review_finding \<Rightarrow> int option set" where
  "old_lines_of f \<equiv> {rf_old_line f, rf_range_start_old_line f, rf_range_end_old_line f}"

abbreviation new_lines_of :: "review_finding \<Rightarrow> int option set" where
  "new_lines_of f \<equiv> {rf_new_line f, rf_range_start_new_line f, rf_range_end_new_line f}"

lemma structuredRangeAnchor_lines:
  "structuredRangeAnchor f = Some (s, e) \<Longrightarrow> anchor_lines f (old_lines_of f) (new_lines_of f) s
     \<and> anchor_lines f (old_lines_of f) (new_lines_of f) e"
  by (auto simp: structuredRangeAnchor_def Let_def split: if_splits option.splits intro: rangeAnchorLineForKind_lines)

lemma parseRangeAnchor_lines:
  "parseRangeAnchor f = Some (s, e) \<Longrightarrow> anchor_lines f (old_lines_of f) (new_lines_of f) s
     \<and> anchor_lines f (old_lines_of f) (new_lines_of f) e"
  by (auto simp: parseRangeAnchor_def assignRangeLines_def Let_def split: if_splits option.splits list.splits
      intro: rangeAnchorLineForKind_lines)

lemma buildRangeLine_ok:
  assumes "buildRangeLine a b l = Some x" and "anchor_lines f olds news l"
  shows "range_line_ok x \<and> rg_old_line x \<in> insert None olds \<and> rg_new_line x \<in> insert None news"
  using assms by (auto simp: buildRangeLine_def Let_def anchor_lines_def range_line_ok_def split: if_splits)

lemma buildLineRange_ok:
  assumes "buildLineRange a b f = Some r"
  shows "range_line_ok (lr_start r) \<and> range_line_ok (lr_end r)
     \<and> rg_old_line (lr_end r) \<in> insert None (old_lines_of f) \<and> rg_new_line (lr_end r) \<in> insert None (new_lines_of f)"
proof -
  from assms obtain s e s' e' where an: "structuredRangeAnchor f = Some (s, e) \<or> parseRangeAnchor f = Some (s, e)"
    and b: "buildRangeLine a b s = Some s'" "buildRangeLine a b e = Some e'" and r: "r = \<lparr>lr_start = s', lr_end = e'\<rparr>"
    by (auto simp: buildLineRange_def split: option.splits prod.splits)
  from an have "anchor_lines f (old_lines_of f) (new_lines_of f) s" "anchor_lines f (old_lines_of f) (new_lines_of f) e"
    using structuredRangeAnchor_lines parseRangeAnchor_lines by blast+
  from buildRangeLine_ok [OF b(1) this(1)] buildRangeLine_ok [OF b(2) this(2)] show ?thesis by (simp add: r)
qed

text \<open>Positions are well formed. The position of a finding names only lines the finding has; a range line is of
  type old, new or context and carries exactly the lines of its type; and a position with a range points at
  the end of the range.\<close>

theorem BuildPosition_well_formed:
  assumes "BuildPosition version f = p"
  shows "po_old_line p \<in> {None, rf_old_line f, rf_range_start_old_line f, rf_range_end_old_line f}
    \<and> po_new_line p \<in> {None, rf_new_line f, rf_range_start_new_line f, rf_range_end_new_line f}
    \<and> (case po_line_range p of
         None \<Rightarrow> True
       | Some r \<Rightarrow> range_line_ok (lr_start r) \<and> range_line_ok (lr_end r)
           \<and> po_old_line p = rg_old_line (lr_end r) \<and> po_new_line p = rg_new_line (lr_end r))"
proof -
  obtain oldPath newPath where rp: "resolvePaths f = (oldPath, newPath)" by (cases "resolvePaths f")
  show ?thesis
  proof (cases "canonicalAnchorKind (rf_anchor_kind f) = ''range''")
    case True
    with assms rp buildLineRange_ok [of oldPath newPath f] show ?thesis
      by (cases "buildLineRange oldPath newPath f") (auto simp: BuildPosition_def Let_def)
  next
    case False
    with rp show ?thesis unfolding assms [symmetric] by (simp add: BuildPosition_def Let_def)
  qed
qed

lemma summary_counts:
  "summary_count Active fs + summary_count Resolved fs + summary_count Filtered fs = int (length fs)"
proof (induction fs)
  case (Cons f fs)
  then show ?case by (cases "summary_class f") (auto simp: summary_count_def)
qed (simp add: summary_count_def)

text \<open>A range finding for the examples, and the range that stays in its file-level position.\<close>

definition sample_range_finding :: review_finding where
  "sample_range_finding = zero_review_finding\<lparr>rf_id := 5, rf_review_run_id := 2, rf_merge_request_id := 1, rf_path := ''a.go'',
     rf_title := ''leak'', rf_anchor_kind := ''range'', rf_range_start_kind := Some ''new'', rf_range_start_new_line := Some 3,
     rf_range_end_kind := Some ''context'', rf_range_end_old_line := Some 4, rf_range_end_new_line := Some 6\<rparr>"

definition sample_version :: mr_version where
  "sample_version = \<lparr>mv_id = 1, mv_merge_request_id = 1, mv_gitlab_version_id = 1, mv_base_sha = ''b'', mv_start_sha = ''s'',
     mv_head_sha = ''h'', mv_patch_id_sha = [], mv_created_at = 0\<rparr>"

lemma file_position_keeps_range:
  "po_position_type (BuildFileLevelPosition sample_version sample_range_finding) = ''file''
   \<and> po_line_range (BuildFileLevelPosition sample_version sample_range_finding) \<noteq> None"
  by code_simp

theorem BuildPosition_well_formed_witness:
  "po_line_range (BuildPosition sample_version sample_range_finding) \<noteq> None
   \<and> po_old_line (BuildPosition sample_version sample_range_finding) = Some 4
   \<and> (case po_line_range (BuildPosition sample_version sample_range_finding) of None \<Rightarrow> False | Some r \<Rightarrow> range_line_ok (lr_end r))"
proof -
  have "po_line_range (BuildPosition sample_version sample_range_finding) \<noteq> None
     \<and> po_old_line (BuildPosition sample_version sample_range_finding) = Some 4" by code_simp
  with BuildPosition_well_formed [of sample_version sample_range_finding, OF refl] show ?thesis
    by (auto split: option.splits)
qed

end
