(* ===== verification/Rules_Policy.thy ===== *)
theory Rules_Policy
  imports Assembler Writer_Render "HOL-Library.List_Lexorder" "HOL-Library.Char_ord"
begin

text \<open>
  The effective policy of a review: \<^verbatim>\<open>internal/rules/ai_review_config.go\<close> and the merging of platform defaults, group
  and project policy of \<^verbatim>\<open>loader.go\<close>. A \<^verbatim>\<open>json.RawMessage\<close> is its text, empty when it is nil. Reading JSON is the
  parameter \<open>decode\<close>; the YAML package is a parameter too: \<open>yaml\<close> fills the configuration or returns the text of
  its error, \<open>yaml_keys\<close> are the keys of the document read as a map; \<open>quote\<close> is the \<^verbatim>\<open>%q\<close> verb.
\<close>

subsection \<open>Policies\<close>

record platform_defaults =
  pd_config_ref :: string
  pd_instructions :: string
  pd_confidence_threshold :: rat
  pd_severity_threshold :: string
  pd_include_paths :: "string list"
  pd_exclude_paths :: "string list"
  pd_gate_mode :: string
  pd_provider_route :: string
  pd_output_language :: string
  pd_extra :: string

record effective_policy =
  ep_instructions :: string
  ep_confidence_threshold :: rat
  ep_severity_threshold :: string
  ep_include_paths :: "string list"
  ep_exclude_paths :: "string list"
  ep_gate_mode :: string
  ep_provider_route :: string
  ep_output_language :: string
  ep_extra :: string
  ep_context_lines_before :: int
  ep_context_lines_after :: int
  ep_max_changed_lines :: int
  ep_max_files :: int

record group_policy =
  gp_confidence_threshold :: rat
  gp_severity_threshold :: string
  gp_include_paths :: "string list"
  gp_exclude_paths :: "string list"
  gp_gate_mode :: string
  gp_provider_route :: string
  gp_output_language :: string
  gp_extra :: string

subsection \<open>Output language\<close>

definition outputLanguageFromExtra :: "(string \<Rightarrow> json option) \<Rightarrow> string \<Rightarrow> string" where
  "outputLanguageFromExtra decode raw =
     (if raw = [] \<or> raw = ''null'' then []
      else case Option.bind (decode raw) struct_value of
        None \<Rightarrow> []
      | Some kvs \<Rightarrow>
          (case (str_of ''output_language'' kvs, Option.bind (struct_of ''review'' kvs) (str_of ''output_language'')) of
             (Some outer, Some inner) \<Rightarrow> if trim_space inner \<noteq> [] then inner else outer
           | _ \<Rightarrow> []))"

definition resolveOutputLanguage :: "(string \<Rightarrow> json option) \<Rightarrow> string \<Rightarrow> string \<Rightarrow> string" where
  "resolveOutputLanguage decode explicit extra =
     (if trim_space explicit \<noteq> [] then Normalize explicit
      else if trim_space (outputLanguageFromExtra decode extra) \<noteq> [] then Normalize (outputLanguageFromExtra decode extra)
      else Normalize [])"

definition overlayOutputLanguage :: "(string \<Rightarrow> json option) \<Rightarrow> string \<Rightarrow> string \<Rightarrow> string \<Rightarrow> string" where
  "overlayOutputLanguage decode current explicit extra =
     (if trim_space explicit \<noteq> [] then Normalize explicit
      else if trim_space (outputLanguageFromExtra decode extra) \<noteq> [] then Normalize (outputLanguageFromExtra decode extra)
      else if trim_space current \<noteq> [] then Normalize current
      else Normalize [])"

subsection \<open>Limits\<close>

definition overlay_limit :: "int \<Rightarrow> int \<Rightarrow> int \<Rightarrow> int" where
  "overlay_limit dflt project platform = (if project > 0 \<and> project \<noteq> dflt then project else platform)"

definition withDefaultPolicySettings :: "policy_settings \<Rightarrow> policy_settings" where
  "withDefaultPolicySettings s = s\<lparr>
     ps_context_lines_before := if ps_context_lines_before s \<le> 0 then ps_context_lines_before DefaultPolicySettings else ps_context_lines_before s,
     ps_context_lines_after := if ps_context_lines_after s \<le> 0 then ps_context_lines_after DefaultPolicySettings else ps_context_lines_after s,
     ps_max_changed_lines := if ps_max_changed_lines s \<le> 0 then ps_max_changed_lines DefaultPolicySettings else ps_max_changed_lines s,
     ps_max_files := if ps_max_files s \<le> 0 then ps_max_files DefaultPolicySettings else ps_max_files s\<rparr>"

definition mergePolicySettings :: "policy_settings \<Rightarrow> policy_settings \<Rightarrow> bool \<Rightarrow> policy_settings" where
  "mergePolicySettings platform project hasProject =
     (if \<not> hasProject then withDefaultPolicySettings platform
      else withDefaultPolicySettings (platform\<lparr>
        ps_include_paths := if ps_include_paths project \<noteq> [] then ps_include_paths project else ps_include_paths platform,
        ps_exclude_paths := if ps_exclude_paths project \<noteq> [] then ps_exclude_paths project else ps_exclude_paths platform,
        ps_context_lines_before := overlay_limit (ps_context_lines_before DefaultPolicySettings) (ps_context_lines_before project) (ps_context_lines_before platform),
        ps_context_lines_after := overlay_limit (ps_context_lines_after DefaultPolicySettings) (ps_context_lines_after project) (ps_context_lines_after platform),
        ps_max_changed_lines := overlay_limit (ps_max_changed_lines DefaultPolicySettings) (ps_max_changed_lines project) (ps_max_changed_lines platform),
        ps_max_files := overlay_limit (ps_max_files DefaultPolicySettings) (ps_max_files project) (ps_max_files platform)\<rparr>))"

definition policySettingsFromPlatformDefaults :: "(string \<Rightarrow> json option) \<Rightarrow> platform_defaults \<Rightarrow> policy_settings option" where
  "policySettingsFromPlatformDefaults decode platform =
     (case SettingsFromPolicy decode (Some (zero_project_policy\<lparr>pp_extra := Some (pd_extra platform)\<rparr>)) of
        None \<Rightarrow> None
      | Some extra \<Rightarrow> Some (mergePolicySettings (DefaultPolicySettings\<lparr>ps_include_paths := pd_include_paths platform,
          ps_exclude_paths := pd_exclude_paths platform\<rparr>) extra True))"

subsection \<open>Merging\<close>

definition platform_policy :: "(string \<Rightarrow> json option) \<Rightarrow> platform_defaults \<Rightarrow> policy_settings \<Rightarrow> effective_policy" where
  "platform_policy decode platform s = \<lparr>ep_instructions = trim_space (pd_instructions platform),
     ep_confidence_threshold = pd_confidence_threshold platform, ep_severity_threshold = trim_space (pd_severity_threshold platform),
     ep_include_paths = pd_include_paths platform, ep_exclude_paths = pd_exclude_paths platform,
     ep_gate_mode = trim_space (pd_gate_mode platform), ep_provider_route = trim_space (pd_provider_route platform),
     ep_output_language = resolveOutputLanguage decode (pd_output_language platform) (pd_extra platform),
     ep_extra = pd_extra platform, ep_context_lines_before = ps_context_lines_before s,
     ep_context_lines_after = ps_context_lines_after s, ep_max_changed_lines = ps_max_changed_lines s, ep_max_files = ps_max_files s\<rparr>"

definition overlay_text :: "string \<Rightarrow> string \<Rightarrow> string" where
  "overlay_text new old = (if trim_space new \<noteq> [] then trim_space new else old)"

definition overlay_list :: "'a list \<Rightarrow> 'a list \<Rightarrow> 'a list" where
  "overlay_list new old = (if new \<noteq> [] then new else old)"

text \<open>The fields of a project policy that both ways of merging set.\<close>

definition overlay_project :: "(string \<Rightarrow> json option) \<Rightarrow> project_policy \<Rightarrow> policy_settings \<Rightarrow> effective_policy \<Rightarrow> effective_policy" where
  "overlay_project decode project s e = e\<lparr>
     ep_confidence_threshold := if pp_confidence_threshold project > 0 then pp_confidence_threshold project else ep_confidence_threshold e,
     ep_severity_threshold := overlay_text (pp_severity_threshold project) (ep_severity_threshold e),
     ep_include_paths := overlay_list (ps_include_paths s) (ep_include_paths e),
     ep_exclude_paths := overlay_list (ps_exclude_paths s) (ep_exclude_paths e),
     ep_gate_mode := overlay_text (pp_gate_mode project) (ep_gate_mode e),
     ep_provider_route := overlay_text (pp_provider_route project) (ep_provider_route e),
     ep_extra := if raw_empty (pp_extra project) then ep_extra e else raw_text (pp_extra project),
     ep_output_language := overlayOutputLanguage decode (ep_output_language e) [] (raw_text (pp_extra project))\<rparr>"

definition mergeEffectivePolicy :: "(string \<Rightarrow> json option) \<Rightarrow> platform_defaults \<Rightarrow> project_policy option \<Rightarrow> effective_policy option" where
  "mergeEffectivePolicy decode platform project =
     (case SettingsFromPolicy decode project of
        None \<Rightarrow> None
      | Some projectSettings \<Rightarrow> (case policySettingsFromPlatformDefaults decode platform of
          None \<Rightarrow> None
        | Some platformSettings \<Rightarrow>
            (let settings = mergePolicySettings platformSettings projectSettings (project \<noteq> None);
                 effective = platform_policy decode platform settings
             in Some (case project of None \<Rightarrow> effective | Some p \<Rightarrow> overlay_project decode p settings effective))))"

definition applyGroupPolicyToEffective :: "(string \<Rightarrow> json option) \<Rightarrow> group_policy \<Rightarrow> effective_policy \<Rightarrow> effective_policy" where
  "applyGroupPolicyToEffective decode grp e = e\<lparr>
     ep_confidence_threshold := if gp_confidence_threshold grp > 0 then gp_confidence_threshold grp else ep_confidence_threshold e,
     ep_severity_threshold := overlay_text (gp_severity_threshold grp) (ep_severity_threshold e),
     ep_include_paths := overlay_list (gp_include_paths grp) (ep_include_paths e),
     ep_exclude_paths := overlay_list (gp_exclude_paths grp) (ep_exclude_paths e),
     ep_gate_mode := overlay_text (gp_gate_mode grp) (ep_gate_mode e),
     ep_provider_route := overlay_text (gp_provider_route grp) (ep_provider_route e),
     ep_output_language := if trim_space (gp_output_language grp) \<noteq> [] \<or> gp_extra grp \<noteq> []
       then overlayOutputLanguage decode (ep_output_language e) (gp_output_language grp) (gp_extra grp) else ep_output_language e\<rparr>"

definition overlay_limits :: "policy_settings \<Rightarrow> effective_policy \<Rightarrow> effective_policy" where
  "overlay_limits s e = e\<lparr>
     ep_context_lines_before := overlay_limit (ps_context_lines_before DefaultPolicySettings) (ps_context_lines_before s) (ep_context_lines_before e),
     ep_context_lines_after := overlay_limit (ps_context_lines_after DefaultPolicySettings) (ps_context_lines_after s) (ep_context_lines_after e),
     ep_max_changed_lines := overlay_limit (ps_max_changed_lines DefaultPolicySettings) (ps_max_changed_lines s) (ep_max_changed_lines e),
     ep_max_files := overlay_limit (ps_max_files DefaultPolicySettings) (ps_max_files s) (ep_max_files e)\<rparr>"

definition mergeWithGroupPolicy :: "(string \<Rightarrow> json option) \<Rightarrow> platform_defaults \<Rightarrow> group_policy \<Rightarrow> project_policy option \<Rightarrow> effective_policy option" where
  "mergeWithGroupPolicy decode platform grp project =
     (case SettingsFromPolicy decode project of
        None \<Rightarrow> None
      | Some projectSettings \<Rightarrow> (case policySettingsFromPlatformDefaults decode platform of
          None \<Rightarrow> None
        | Some platformSettings \<Rightarrow>
            (let effective = applyGroupPolicyToEffective decode grp (platform_policy decode platform platformSettings)
             in Some (case project of None \<Rightarrow> effective
                | Some p \<Rightarrow> overlay_limits projectSettings (overlay_project decode p projectSettings effective)))))"

definition mergeEffectivePolicyFull :: "(string \<Rightarrow> json option) \<Rightarrow> platform_defaults \<Rightarrow> group_policy option \<Rightarrow> project_policy option \<Rightarrow> effective_policy option" where
  "mergeEffectivePolicyFull decode platform grp project =
     (case mergeEffectivePolicy decode platform project of
        None \<Rightarrow> None
      | Some effective \<Rightarrow> (case grp of None \<Rightarrow> Some effective | Some g \<Rightarrow> mergeWithGroupPolicy decode platform g project))"

subsection \<open>The configuration of a repository\<close>

record ai_review_config =
  ac_enabled :: "bool option"
  ac_confidence_threshold :: "rat option"
  ac_severity_threshold :: "string option"
  ac_include_paths :: "string list"
  ac_exclude_paths :: "string list"
  ac_context_mode :: "string option"
  ac_gate_mode :: "string option"
  ac_provider_route :: "string option"
  ac_output_language :: "string option"
  ac_max_files :: "int option"
  ac_max_changed_lines :: "int option"
  ac_context_lines_before :: "int option"
  ac_context_lines_after :: "int option"
  ac_unknown_fields :: "string list"

definition stripHostOnlyAIReviewFields :: "ai_review_config \<Rightarrow> string list \<times> ai_review_config" where
  "stripHostOnlyAIReviewFields cfg =
     ((if ac_enabled cfg \<noteq> None then [''enabled''] else [])
      @ (if ac_gate_mode cfg \<noteq> None then [''gate_mode''] else [])
      @ (if ac_provider_route cfg \<noteq> None then [''provider_route''] else [])
      @ (if ac_severity_threshold cfg \<noteq> None then [''severity_threshold''] else [])
      @ (if ac_confidence_threshold cfg \<noteq> None then [''confidence_threshold''] else []),
      cfg\<lparr>ac_enabled := None, ac_gate_mode := None, ac_provider_route := None, ac_severity_threshold := None,
          ac_confidence_threshold := None\<rparr>)"

definition validSeverities :: "string list" where
  "validSeverities = [''low'', ''medium'', ''high'', ''nit'']"

definition validGateModes :: "string list" where
  "validGateModes = [''threads_resolved'', ''external_status'', ''ci'', ''disabled'']"

definition knownAIReviewFields :: "string list" where
  "knownAIReviewFields = [''enabled'', ''confidence_threshold'', ''severity_threshold'', ''include_paths'', ''exclude_paths'',
     ''context_mode'', ''gate_mode'', ''provider_route'', ''output_language'', ''max_files'', ''max_changed_lines'',
     ''context_lines_before'', ''context_lines_after'']"

text \<open>One check each: the warnings it adds and the configuration it leaves.\<close>

definition check_confidence :: "ai_review_config \<Rightarrow> string list \<times> ai_review_config" where
  "check_confidence cfg = (case ac_confidence_threshold cfg of
     Some x \<Rightarrow> if x < 0 \<or> x > 1
       then ([''ai-review.yaml: confidence_threshold '' @ format_2f x @ '' out of range [0, 1], ignoring''], cfg\<lparr>ac_confidence_threshold := None\<rparr>)
       else ([], cfg)
   | None \<Rightarrow> ([], cfg))"

definition check_severity :: "(string \<Rightarrow> string) \<Rightarrow> ai_review_config \<Rightarrow> string list \<times> ai_review_config" where
  "check_severity quote cfg = (case ac_severity_threshold cfg of
     Some t \<Rightarrow> if norm_lower t \<notin> set validSeverities
       then ([''ai-review.yaml: unknown severity_threshold '' @ quote t @ '', ignoring''], cfg\<lparr>ac_severity_threshold := None\<rparr>)
       else ([], cfg\<lparr>ac_severity_threshold := Some (norm_lower t)\<rparr>)
   | None \<Rightarrow> ([], cfg))"

definition check_gate_mode :: "(string \<Rightarrow> string) \<Rightarrow> ai_review_config \<Rightarrow> string list \<times> ai_review_config" where
  "check_gate_mode quote cfg = (case ac_gate_mode cfg of
     Some t \<Rightarrow> if norm_lower t \<notin> set validGateModes
       then ([''ai-review.yaml: unknown gate_mode '' @ quote t @ '', ignoring''], cfg\<lparr>ac_gate_mode := None\<rparr>)
       else ([], cfg\<lparr>ac_gate_mode := Some (norm_lower t)\<rparr>)
   | None \<Rightarrow> ([], cfg))"

definition check_language :: "ai_review_config \<Rightarrow> string list \<times> ai_review_config" where
  "check_language cfg = (case ac_output_language cfg of
     Some t \<Rightarrow> if trim_space t = []
       then ([''ai-review.yaml: output_language is empty, ignoring''], cfg\<lparr>ac_output_language := None\<rparr>)
       else ([], cfg\<lparr>ac_output_language := Some (trim_space t)\<rparr>)
   | None \<Rightarrow> ([], cfg))"

definition limit_warning :: "string \<Rightarrow> int \<Rightarrow> string \<Rightarrow> string" where
  "limit_warning field n must = ''ai-review.yaml: '' @ field @ '' '' @ itoa n @ '' must be '' @ must @ '', ignoring''"

definition check_limits :: "ai_review_config \<Rightarrow> string list \<times> ai_review_config" where
  "check_limits cfg =
     (let bad = (\<lambda>ok v. case v of Some n \<Rightarrow> \<not> ok n | None \<Rightarrow> False);
          warn = (\<lambda>ok v field must. if bad ok v then [limit_warning field (the v) must] else []);
          keep = (\<lambda>ok v. if bad ok v then None else v);
          pos = (\<lambda>n. n > (0 :: int)); nonneg = (\<lambda>n. n \<ge> (0 :: int))
      in (warn pos (ac_max_files cfg) ''max_files'' ''positive''
          @ warn pos (ac_max_changed_lines cfg) ''max_changed_lines'' ''positive''
          @ warn nonneg (ac_context_lines_before cfg) ''context_lines_before'' ''non-negative''
          @ warn nonneg (ac_context_lines_after cfg) ''context_lines_after'' ''non-negative'',
          cfg\<lparr>ac_max_files := keep pos (ac_max_files cfg), ac_max_changed_lines := keep pos (ac_max_changed_lines cfg),
              ac_context_lines_before := keep nonneg (ac_context_lines_before cfg),
              ac_context_lines_after := keep nonneg (ac_context_lines_after cfg)\<rparr>))"

definition and_check :: "(ai_review_config \<Rightarrow> string list \<times> ai_review_config) \<Rightarrow> string list \<times> ai_review_config \<Rightarrow> string list \<times> ai_review_config" where
  "and_check f x = (fst x @ fst (f (snd x)), snd (f (snd x)))"

definition validateAIReviewConfig :: "(string \<Rightarrow> string) \<Rightarrow> ai_review_config \<Rightarrow> string list \<times> ai_review_config" where
  "validateAIReviewConfig quote cfg =
     and_check check_limits (and_check check_language (and_check (check_gate_mode quote) (and_check (check_severity quote)
       (and_check check_confidence
         (map (\<lambda>field. ''ai-review.yaml: unknown field '' @ quote field @ '', ignoring'') (ac_unknown_fields cfg), cfg)))))"

text \<open>The configuration, or none for an empty or unreadable text, and the warnings. \<^verbatim>\<open>ParseAIReviewConfig\<close> never returns
  an error.\<close>

definition ParseAIReviewConfig ::
  "(string \<Rightarrow> string + ai_review_config) \<Rightarrow> (string \<Rightarrow> string list option) \<Rightarrow> (string \<Rightarrow> string) \<Rightarrow> string \<Rightarrow> ai_review_config option \<times> string list" where
  "ParseAIReviewConfig yaml yaml_keys quote content0 =
     (let content = trim_space content0 in
      if content = [] then (None, [])
      else case yaml content of
        Inl e \<Rightarrow> (None, [''ai-review.yaml: invalid YAML syntax: '' @ e])
      | Inr cfg0 \<Rightarrow>
          (let cfg = (case yaml_keys content of
                 Some ks \<Rightarrow> cfg0\<lparr>ac_unknown_fields := sort (filter (\<lambda>k. k \<notin> set knownAIReviewFields) ks)\<rparr>
               | None \<Rightarrow> cfg0)
           in case validateAIReviewConfig quote cfg of (warnings, cfg') \<Rightarrow> (Some cfg', warnings)))"

definition overlay_option :: "'a option \<Rightarrow> 'a \<Rightarrow> 'a" where
  "overlay_option new old = (case new of Some x \<Rightarrow> x | None \<Rightarrow> old)"

definition applyAIReviewConfig :: "ai_review_config \<Rightarrow> effective_policy \<Rightarrow> effective_policy" where
  "applyAIReviewConfig cfg e = e\<lparr>
     ep_confidence_threshold := overlay_option (ac_confidence_threshold cfg) (ep_confidence_threshold e),
     ep_severity_threshold := overlay_option (ac_severity_threshold cfg) (ep_severity_threshold e),
     ep_include_paths := overlay_list (ac_include_paths cfg) (ep_include_paths e),
     ep_exclude_paths := overlay_list (ac_exclude_paths cfg) (ep_exclude_paths e),
     ep_gate_mode := overlay_option (ac_gate_mode cfg) (ep_gate_mode e),
     ep_provider_route := overlay_option (ac_provider_route cfg) (ep_provider_route e),
     ep_output_language := overlay_option (map_option Normalize (ac_output_language cfg)) (ep_output_language e),
     ep_max_files := overlay_option (ac_max_files cfg) (ep_max_files e),
     ep_max_changed_lines := overlay_option (ac_max_changed_lines cfg) (ep_max_changed_lines e),
     ep_context_lines_before := overlay_option (ac_context_lines_before cfg) (ep_context_lines_before e),
     ep_context_lines_after := overlay_option (ac_context_lines_after cfg) (ep_context_lines_after e)\<rparr>"

subsection \<open>Precedence\<close>

text \<open>The value of a setting is that of the first layer that sets it, from the project over the group to the platform.\<close>

fun first_text :: "string list \<Rightarrow> string" where
  "first_text [] = []"
| "first_text (t # ts) = (if trim_space t \<noteq> [] then trim_space t else first_text ts)"

fun first_list :: "'a list list \<Rightarrow> 'a list" where
  "first_list [] = []"
| "first_list (xs # xss) = (if xs \<noteq> [] then xs else first_list xss)"

definition layers :: "('p \<Rightarrow> 'a) \<Rightarrow> ('g \<Rightarrow> 'a) \<Rightarrow> 'p option \<Rightarrow> 'g option \<Rightarrow> 'a \<Rightarrow> 'a list" where
  "layers f g project grp platform = map f (case project of None \<Rightarrow> [] | Some p \<Rightarrow> [p]) @ map g (case grp of None \<Rightarrow> [] | Some x \<Rightarrow> [x]) @ [platform]"

definition first_positive :: "rat list \<Rightarrow> rat" where
  "first_positive xs = (case filter (\<lambda>x. 0 < x) (butlast xs) of [] \<Rightarrow> last xs | x # _ \<Rightarrow> x)"

definition project_settings :: "(string \<Rightarrow> json option) \<Rightarrow> project_policy option \<Rightarrow> policy_settings" where
  "project_settings decode project = (case SettingsFromPolicy decode project of Some s \<Rightarrow> s | None \<Rightarrow> DefaultPolicySettings)"

lemma platform_settings_paths:
  assumes "policySettingsFromPlatformDefaults decode platform = Some s"
  shows "ps_include_paths s = pd_include_paths platform \<and> ps_exclude_paths s = pd_exclude_paths platform"
proof -
  obtain x where x: "SettingsFromPolicy decode (Some (zero_project_policy\<lparr>pp_extra := Some (pd_extra platform)\<rparr>)) = Some x"
    "s = mergePolicySettings (DefaultPolicySettings\<lparr>ps_include_paths := pd_include_paths platform, ps_exclude_paths := pd_exclude_paths platform\<rparr>) x True"
    using assms by (auto simp: policySettingsFromPlatformDefaults_def split: option.splits)
  have "ps_include_paths x = [] \<and> ps_exclude_paths x = []"
    using x(1) by (auto simp: SettingsFromPolicy_def zero_project_policy_def decodePathList_def raw_empty_def withDefaults_def
        apply_limits_def applyPolicyExtra_def bind_eq_Some_conv split: prod.splits)
  then show ?thesis by (simp add: x(2) mergePolicySettings_def withDefaultPolicySettings_def)
qed

text \<open>Precedence of policies. Whatever policies are present, the thresholds, gate mode and provider route of the
  effective policy are those of the most specific layer that sets them, project before group before platform,
  and so are the path lists; a missing layer changes nothing.\<close>

theorem policy_precedence:
  assumes "mergeEffectivePolicyFull decode platform grp project = Some e"
  shows "ep_severity_threshold e = first_text (layers pp_severity_threshold gp_severity_threshold project grp (pd_severity_threshold platform))
    \<and> ep_gate_mode e = first_text (layers pp_gate_mode gp_gate_mode project grp (pd_gate_mode platform))
    \<and> ep_provider_route e = first_text (layers pp_provider_route gp_provider_route project grp (pd_provider_route platform))
    \<and> ep_confidence_threshold e = first_positive (layers pp_confidence_threshold gp_confidence_threshold project grp (pd_confidence_threshold platform))
    \<and> ep_include_paths e = first_list (layers (\<lambda>_. ps_include_paths (project_settings decode project)) gp_include_paths project grp (pd_include_paths platform))
    \<and> ep_exclude_paths e = first_list (layers (\<lambda>_. ps_exclude_paths (project_settings decode project)) gp_exclude_paths project grp (pd_exclude_paths platform))"
proof -
  obtain ps pl where s: "SettingsFromPolicy decode project = Some ps" "policySettingsFromPlatformDefaults decode platform = Some pl"
    using assms by (auto simp: mergeEffectivePolicyFull_def mergeEffectivePolicy_def split: option.splits)
  note merge = mergeEffectivePolicyFull_def mergeEffectivePolicy_def mergeWithGroupPolicy_def Let_def
  note parts = platform_policy_def overlay_project_def overlay_limits_def applyGroupPolicyToEffective_def overlay_text_def
    overlay_list_def layers_def first_positive_def project_settings_def
  have m: "ps_include_paths (mergePolicySettings pl ps True) = overlay_list (ps_include_paths ps) (pd_include_paths platform)"
    "ps_exclude_paths (mergePolicySettings pl ps True) = overlay_list (ps_exclude_paths ps) (pd_exclude_paths platform)"
    using platform_settings_paths [OF s(2)] by (simp_all add: mergePolicySettings_def withDefaultPolicySettings_def overlay_list_def)
  show ?thesis
  proof (cases project)
    case None
    show ?thesis
    proof (cases grp)
      case (Some g)
      then have e: "e = applyGroupPolicyToEffective decode g (platform_policy decode platform pl)"
        using assms s None by (simp add: merge)
      show ?thesis unfolding e by (intro conjI) (simp_all add: parts None Some)
    next
      case no_group: None
      then have e: "e = platform_policy decode platform (mergePolicySettings pl ps False)" using assms s None by (simp add: merge)
      show ?thesis unfolding e by (intro conjI) (simp_all add: parts None no_group)
    qed
  next
    case p: (Some p)
    show ?thesis
    proof (cases grp)
      case (Some g)
      then have e: "e = overlay_limits ps (overlay_project decode p ps (applyGroupPolicyToEffective decode g (platform_policy decode platform pl)))"
        using assms s p by (simp add: merge)
      show ?thesis unfolding e using s(1) by (intro conjI) (simp_all add: parts p Some)
    next
      case None
      then have e: "e = overlay_project decode p (mergePolicySettings pl ps True) (platform_policy decode platform (mergePolicySettings pl ps True))"
        using assms s p by (simp add: merge)
      show ?thesis unfolding e using s(1) m by (intro conjI) (simp_all add: parts p None)
    qed
  qed
qed

subsection \<open>Examples\<close>

definition sample_platform :: platform_defaults where
  "sample_platform = \<lparr>pd_config_ref = [], pd_instructions = [], pd_confidence_threshold = 1 / 2, pd_severity_threshold = ''low'',
     pd_include_paths = [], pd_exclude_paths = [''docs/**''], pd_gate_mode = ''external_status'', pd_provider_route = ''openai'',
     pd_output_language = ''en'', pd_extra = []\<rparr>"

definition sample_group :: group_policy where
  "sample_group = \<lparr>gp_confidence_threshold = 0, gp_severity_threshold = ''medium'', gp_include_paths = [''src/**''], gp_exclude_paths = [],
     gp_gate_mode = '' ci '', gp_provider_route = [], gp_output_language = [], gp_extra = []\<rparr>"

definition sample_project_policy :: project_policy where
  "sample_project_policy = zero_project_policy\<lparr>pp_severity_threshold := ''high''\<rparr>"

theorem policy_precedence_witness:
  "\<exists>e. mergeEffectivePolicyFull (\<lambda>_. None) sample_platform (Some sample_group) (Some sample_project_policy) = Some e
     \<and> ep_severity_threshold e = ''high'' \<and> ep_gate_mode e = ''ci'' \<and> ep_provider_route e = ''openai''
     \<and> ep_include_paths e = [''src/**''] \<and> ep_exclude_paths e = [''docs/**'']"
proof -
  have "mergeEffectivePolicyFull (\<lambda>_. None) sample_platform (Some sample_group) (Some sample_project_policy) \<noteq> None" by code_simp
  then obtain e where e: "mergeEffectivePolicyFull (\<lambda>_. None) sample_platform (Some sample_group) (Some sample_project_policy) = Some e" by blast
  have v: "first_text (layers pp_severity_threshold gp_severity_threshold (Some sample_project_policy) (Some sample_group) (pd_severity_threshold sample_platform)) = ''high''"
    "first_text (layers pp_gate_mode gp_gate_mode (Some sample_project_policy) (Some sample_group) (pd_gate_mode sample_platform)) = ''ci''"
    "first_text (layers pp_provider_route gp_provider_route (Some sample_project_policy) (Some sample_group) (pd_provider_route sample_platform)) = ''openai''"
    "first_list (layers (\<lambda>_. ps_include_paths (project_settings (\<lambda>_. None) (Some sample_project_policy))) gp_include_paths
       (Some sample_project_policy) (Some sample_group) (pd_include_paths sample_platform)) = [''src/**'']"
    "first_list (layers (\<lambda>_. ps_exclude_paths (project_settings (\<lambda>_. None) (Some sample_project_policy))) gp_exclude_paths
       (Some sample_project_policy) (Some sample_group) (pd_exclude_paths sample_platform)) = [''docs/**'']"
    by code_simp+
  show ?thesis using e policy_precedence [OF e] by (intro exI [of _ e]) (simp only: v)
qed

text \<open>A project that asks for a limit equal to the built-in default does not get it when the platform has another one.\<close>

lemma explicit_default_ignored:
  assumes "ps_max_files project = ps_max_files DefaultPolicySettings" and "0 < ps_max_files platform"
  shows "ps_max_files (mergePolicySettings platform project True) = ps_max_files platform"
  using assms by (simp add: mergePolicySettings_def withDefaultPolicySettings_def overlay_limit_def)

end
