(* ===== verification/Judge.thy ===== *)
theory Judge
  imports Main Diff_Index "HOL-Library.Multiset" "HOL-Library.AList"
begin

text \<open>
  The judge that merges the findings of several reviewers: \<^verbatim>\<open>internal/judge/engine.go\<close>. The Go map
  \<open>byIdentity\<close> is an association list in insertion order; the order in which \<^verbatim>\<open>range\<close> visits it is not
  defined by the language, so \<^verbatim>\<open>Decide\<close> takes it as the parameter \<open>order\<close>, of which only is known
  that it permutes the keys.
\<close>

record merged_finding =
  mf_finding :: core_finding
  mf_source_reviewers :: "string list"

record judge_decision =
  jd_merged_findings :: "merged_finding list"
  jd_verdict :: string

definition intToString :: "int \<Rightarrow> string" where
  "intToString v = (if v = 0 then [] else itoa v)"

definition identityKey :: "core_finding \<Rightarrow> string" where
  "identityKey f =
     (let i = cf_identity f; loc = fi_location i in
      join [fi_category i, fi_normalized_claim i, fi_evidence_fingerprint i, cl_path loc, cl_side loc,
        intToString (cl_start_line loc), intToString (cl_end_line loc)] ''|'')"

definition appendUnique :: "string list \<Rightarrow> string \<Rightarrow> string list" where
  "appendUnique values value = (if value \<in> set values then values else values @ [value])"

definition severityRank :: "string \<Rightarrow> nat" where
  "severityRank v =
     (let s = norm_lower v in
      if s = ''critical'' then 4 else if s = ''high'' then 3 else if s = ''medium'' then 2
      else if s = ''low'' then 1 else 0)"

type_synonym aggregates = "(string \<times> merged_finding) list"

definition aggregate :: "string \<Rightarrow> aggregates \<Rightarrow> core_finding \<Rightarrow> aggregates" where
  "aggregate reviewer m f =
     (let key = identityKey f in
      case map_of m key of
        None \<Rightarrow> AList.update key \<lparr>mf_finding = f, mf_source_reviewers = [reviewer]\<rparr> m
      | Some current \<Rightarrow>
          AList.update key
            \<lparr>mf_finding = (if severityRank (cf_severity f) > severityRank (cf_severity (mf_finding current))
                          then f else mf_finding current),
             mf_source_reviewers = appendUnique (mf_source_reviewers current) reviewer\<rparr> m)"

definition byIdentity :: "reviewer_artifact list \<Rightarrow> aggregates" where
  "byIdentity artifacts =
     foldl (\<lambda>m a. foldl (aggregate (ra_reviewer_id a)) m (ra_findings a)) [] artifacts"

definition blocking :: "core_finding \<Rightarrow> bool" where
  "blocking f \<longleftrightarrow> equal_fold (cf_severity f) ''high'' \<or> equal_fold (cf_severity f) ''critical''"

definition Decide :: "(string list \<Rightarrow> string list) \<Rightarrow> reviewer_artifact list \<Rightarrow> judge_decision" where
  "Decide order artifacts =
     (let m = byIdentity artifacts;
          items = List.map_filter (map_of m) (order (map fst m));
          verdict = foldl (\<lambda>v i. if blocking (mf_finding i) then ''requested_changes'' else v) ''pass'' items
      in \<lparr>jd_merged_findings = items, jd_verdict = (if items = [] then ''pass'' else verdict)\<rparr>)"

subsection \<open>The reference: groups of reports\<close>

text \<open>Every report is a reviewer and a finding; a group is the reports with one identity, in order.\<close>

definition reports :: "reviewer_artifact list \<Rightarrow> (string \<times> core_finding) list" where
  "reports artifacts = concat (map (\<lambda>a. map (Pair (ra_reviewer_id a)) (ra_findings a)) artifacts)"

definition group :: "string \<Rightarrow> (string \<times> core_finding) list \<Rightarrow> (string \<times> core_finding) list" where
  "group k rs = filter (\<lambda>r. identityKey (snd r) = k) rs"

text \<open>A merged finding is right for a group: its finding is the first of the most severe ones, its
  reviewers are those of the group in order of first mention.\<close>

definition first_most_severe :: "core_finding list \<Rightarrow> core_finding \<Rightarrow> bool" where
  "first_most_severe fs f \<longleftrightarrow>
     (\<exists>xs ys. fs = xs @ f # ys
        \<and> (\<forall>g \<in> set xs. severityRank (cf_severity g) < severityRank (cf_severity f))
        \<and> (\<forall>g \<in> set ys. severityRank (cf_severity g) \<le> severityRank (cf_severity f)))"

definition merges :: "(string \<times> core_finding) list \<Rightarrow> merged_finding \<Rightarrow> bool" where
  "merges rs i \<longleftrightarrow> first_most_severe (map snd rs) (mf_finding i)
     \<and> mf_source_reviewers i = rev (remdups (rev (map fst rs)))"

lemma group_snoc: "group k (rs @ [r]) = group k rs @ (if identityKey (snd r) = k then [r] else [])"
  by (simp add: group_def)

lemma byIdentity_reports:
  "byIdentity artifacts = foldl (\<lambda>m (r, f). aggregate r m f) [] (reports artifacts)"
proof -
  have "foldl (\<lambda>m a. foldl (aggregate (ra_reviewer_id a)) m (ra_findings a)) m artifacts
      = foldl (\<lambda>m (r, f). aggregate r m f) m (reports artifacts)" for m
    by (induction artifacts arbitrary: m) (simp_all add: reports_def foldl_map)
  then show ?thesis by (simp add: byIdentity_def)
qed

lemma first_most_severe_single: "first_most_severe [f] f"
  unfolding first_most_severe_def by (intro exI [of _ "[]"]) simp

lemma first_most_severe_snoc:
  assumes "first_most_severe fs f"
  shows "first_most_severe (fs @ [g])
    (if severityRank (cf_severity g) > severityRank (cf_severity f) then g else f)"
proof -
  obtain xs ys where d: "fs = xs @ f # ys"
    "\<forall>x \<in> set xs. severityRank (cf_severity x) < severityRank (cf_severity f)"
    "\<forall>x \<in> set ys. severityRank (cf_severity x) \<le> severityRank (cf_severity f)"
    using assms unfolding first_most_severe_def by blast
  show ?thesis
  proof (cases "severityRank (cf_severity g) > severityRank (cf_severity f)")
    case True
    then have "\<forall>x \<in> set fs. severityRank (cf_severity x) < severityRank (cf_severity g)"
      using d by fastforce
    with True show ?thesis
      unfolding first_most_severe_def by (intro exI [of _ fs] exI [of _ "[]"]) simp
  next
    case False
    with d show ?thesis
      unfolding first_most_severe_def by (intro exI [of _ xs] exI [of _ "ys @ [g]"]) auto
  qed
qed

lemma aggregate_lookup:
  assumes "group (identityKey f) rs = [] \<longleftrightarrow> map_of m (identityKey f) = None"
    and "\<And>i. map_of m (identityKey f) = Some i \<Longrightarrow> merges (group (identityKey f) rs) i"
  shows "\<exists>i. map_of (aggregate r m f) (identityKey f) = Some i \<and> merges (group (identityKey f) (rs @ [(r, f)])) i"
proof (cases "map_of m (identityKey f)")
  case None
  with assms(1) show ?thesis
    by (simp add: aggregate_def update_conv' group_snoc merges_def first_most_severe_single)
next
  case (Some i)
  have i: "first_most_severe (map snd (group (identityKey f) rs)) (mf_finding i)"
    "mf_source_reviewers i = rev (remdups (rev (map fst (group (identityKey f) rs))))"
    using assms(2) [OF Some] by (simp_all add: merges_def)
  have "appendUnique (mf_source_reviewers i) r = rev (remdups (r # rev (map fst (group (identityKey f) rs))))"
    by (simp add: appendUnique_def i(2))
  with Some first_most_severe_snoc [OF i(1), of f] show ?thesis
    by (simp add: aggregate_def update_conv' group_snoc merges_def Let_def)
qed

lemma aggregate_other: "k \<noteq> identityKey f \<Longrightarrow> map_of (aggregate r m f) k = map_of m k"
  by (simp add: aggregate_def update_conv' Let_def split: option.splits)

definition aggregated :: "(string \<times> core_finding) list \<Rightarrow> aggregates \<Rightarrow> bool" where
  "aggregated rs m \<longleftrightarrow> distinct (map fst m)
     \<and> (\<forall>k. map_of m k = None \<longleftrightarrow> group k rs = []) \<and> (\<forall>k i. map_of m k = Some i \<longrightarrow> merges (group k rs) i)"

lemma aggregated_foldl: "aggregated rs (foldl (\<lambda>m (r, f). aggregate r m f) [] rs)"
proof (induction rs rule: rev_induct)
  case Nil
  then show ?case by (simp add: aggregated_def group_def)
next
  case (snoc x rs)
  obtain r f where x: "x = (r, f)" by (cases x)
  let ?m = "foldl (\<lambda>m (r, f). aggregate r m f) [] rs"
  have m: "distinct (map fst ?m)" "\<And>k. map_of ?m k = None \<longleftrightarrow> group k rs = []"
    "\<And>k i. map_of ?m k = Some i \<Longrightarrow> merges (group k rs) i"
    using snoc by (simp_all add: aggregated_def)
  obtain i where i: "map_of (aggregate r ?m f) (identityKey f) = Some i"
    "merges (group (identityKey f) (rs @ [(r, f)])) i"
    using aggregate_lookup [of f rs ?m r] m by blast
  have "distinct (map fst (aggregate r ?m f))"
    using m(1) by (simp add: aggregate_def distinct_update Let_def split: option.splits)
  moreover have "map_of (aggregate r ?m f) k = None \<longleftrightarrow> group k (rs @ [x]) = []" for k
    by (cases "k = identityKey f") (auto simp: i(1) x group_snoc aggregate_other m(2))
  moreover have "merges (group k (rs @ [x])) j" if "map_of (aggregate r ?m f) k = Some j" for k j
    using that i m(3) by (cases "k = identityKey f") (auto simp: x group_snoc aggregate_other)
  ultimately show ?case by (simp add: aggregated_def x)
qed

lemma byIdentity_aggregated: "aggregated (reports artifacts) (byIdentity artifacts)"
  by (simp add: byIdentity_reports aggregated_foldl)

subsection \<open>Decisions\<close>

definition permutes_keys :: "(string list \<Rightarrow> string list) \<Rightarrow> bool" where
  "permutes_keys order \<longleftrightarrow> (\<forall>ks. mset (order ks) = mset ks)"

lemma permutes_keys_set: "permutes_keys order \<Longrightarrow> set (order ks) = set ks"
  by (metis permutes_keys_def set_mset_mset)

lemma permutes_keys_distinct: "permutes_keys order \<Longrightarrow> distinct (order ks) = distinct ks"
  unfolding permutes_keys_def by (metis mset_eq_imp_distinct_iff)

lemma map_filter_all:
  assumes "\<forall>k \<in> set ks. \<exists>i. m k = Some i \<and> P k i"
  shows "list_all2 P ks (List.map_filter m ks)"
  using assms by (induction ks) (auto simp: List.map_filter_simps)

lemma mset_map_filter: "mset xs = mset ys \<Longrightarrow> mset (List.map_filter m xs) = mset (List.map_filter m ys)"
  unfolding List.map_filter_def mset_map mset_filter by (simp add: mset_map mset_filter)

lemma verdict_fold:
  "foldl (\<lambda>v i. if P i then a else v) b xs = (if \<exists>x \<in> set xs. P x then a else b)"
  by (induction xs rule: rev_induct) auto

lemma Decide_verdict_items:
  "jd_verdict (Decide order artifacts) =
     (if \<exists>i \<in> set (jd_merged_findings (Decide order artifacts)). blocking (mf_finding i)
      then ''requested_changes'' else ''pass'')"
  by (simp add: Decide_def Let_def verdict_fold)

lemma Decide_groups:
  assumes "permutes_keys order"
  shows "\<exists>ks. distinct ks \<and> set ks = identityKey ` snd ` set (reports artifacts)
     \<and> list_all2 (\<lambda>k i. merges (group k (reports artifacts)) i) ks (jd_merged_findings (Decide order artifacts))"
proof (intro exI conjI)
  let ?m = "byIdentity artifacts" and ?ks = "order (map fst (byIdentity artifacts))"
  have m: "distinct (map fst ?m)" "\<And>k. map_of ?m k = None \<longleftrightarrow> group k (reports artifacts) = []"
    "\<And>k i. map_of ?m k = Some i \<Longrightarrow> merges (group k (reports artifacts)) i"
    using byIdentity_aggregated [of artifacts] by (simp_all add: aggregated_def)
  show "distinct ?ks" using m(1) permutes_keys_distinct [OF assms] by simp
  have "set ?ks = {k. map_of ?m k \<noteq> None}"
    by (auto simp: permutes_keys_set [OF assms] map_of_eq_None_iff)
  then show "set ?ks = identityKey ` snd ` set (reports artifacts)"
    using m(2) by (auto simp: group_def filter_empty_conv)
  have "\<forall>k \<in> set ?ks. \<exists>i. map_of ?m k = Some i \<and> merges (group k (reports artifacts)) i"
    using m(3) permutes_keys_set [OF assms] by (metis list.set_map map_of_eq_None_iff option.exhaust)
  then show "list_all2 (\<lambda>k i. merges (group k (reports artifacts)) i) ?ks (jd_merged_findings (Decide order artifacts))"
    by (simp add: Decide_def Let_def map_filter_all)
qed

text \<open>C40 (merging): whatever order the map is visited in, the decision has exactly one merged finding per
  identity reported; each carries the first of the most severe findings of its group and the
  reviewers that reported it, without repetition and in order of first mention.\<close>

theorem Decide_merges:
  assumes "permutes_keys order"
  shows "\<exists>ks. distinct ks \<and> set ks = identityKey ` snd ` set (reports artifacts)
     \<and> list_all2 (\<lambda>k i. merges (group k (reports artifacts)) i) ks (jd_merged_findings (Decide order artifacts))"
  by (rule Decide_groups [OF assms])

text \<open>Independence of the iteration order. two visits of the map in different orders give the
  same verdict and the same merged findings up to their order.\<close>

theorem Decide_order_independent:
  assumes "permutes_keys order1" and "permutes_keys order2"
  shows "jd_verdict (Decide order1 artifacts) = jd_verdict (Decide order2 artifacts)
     \<and> mset (jd_merged_findings (Decide order1 artifacts)) = mset (jd_merged_findings (Decide order2 artifacts))"
proof -
  have "mset (order1 ks) = mset (order2 ks)" for ks
    using assms by (simp add: permutes_keys_def)
  then have m: "mset (jd_merged_findings (Decide order1 artifacts)) = mset (jd_merged_findings (Decide order2 artifacts))"
    unfolding Decide_def Let_def judge_decision.simps by (rule mset_map_filter)
  then show ?thesis
    unfolding Decide_verdict_items by (metis set_mset_mset)
qed

subsection \<open>Severities\<close>

definition clean_severity :: "string \<Rightarrow> bool" where
  "clean_severity v \<longleftrightarrow> trim_space v = v \<and> list_all (\<lambda>c. (of_char c :: nat) < 128) v"

lemma ascii_case: "list_all (\<lambda>c. (of_char c :: nat) < 128) v \<Longrightarrow> fold_case v = to_lower v"
  by (induction v) auto

lemma clean_blocking:
  "clean_severity (cf_severity f) \<Longrightarrow> blocking f \<longleftrightarrow> severityRank (cf_severity f) \<ge> 3"
proof -
  assume c: "clean_severity (cf_severity f)"
  have "fold_case ''high'' = ''high''" "fold_case ''critical'' = ''critical''" by code_simp+
  then show ?thesis
    using c by (simp add: blocking_def equal_fold_def clean_severity_def ascii_case severityRank_def norm_lower_def Let_def)
qed

lemma merges_member: "merges rs i \<Longrightarrow> mf_finding i \<in> snd ` set rs"
  unfolding merges_def first_most_severe_def by (metis in_set_conv_decomp list.set_map)

lemma merges_max:
  assumes "merges rs i" and "r \<in> set rs"
  shows "severityRank (cf_severity (snd r)) \<le> severityRank (cf_severity (mf_finding i))"
proof -
  obtain xs ys where "map snd rs = xs @ mf_finding i # ys"
    "\<forall>g \<in> set xs. severityRank (cf_severity g) < severityRank (cf_severity (mf_finding i))"
    "\<forall>g \<in> set ys. severityRank (cf_severity g) \<le> severityRank (cf_severity (mf_finding i))"
    using assms(1) unfolding merges_def first_most_severe_def by blast
  moreover have "snd r \<in> set (map snd rs)" using assms(2) by simp
  ultimately show ?thesis by fastforce
qed

lemma Decide_verdict_clean:
  assumes order: "permutes_keys order"
    and clean: "\<forall>r \<in> set (reports artifacts). clean_severity (cf_severity (snd r))"
  shows "jd_verdict (Decide order artifacts) =
     (if \<exists>r \<in> set (reports artifacts). severityRank (cf_severity (snd r)) \<ge> 3
      then ''requested_changes'' else ''pass'')"
proof -
  obtain ks where ks: "set ks = identityKey ` snd ` set (reports artifacts)"
    "list_all2 (\<lambda>k i. merges (group k (reports artifacts)) i) ks (jd_merged_findings (Decide order artifacts))"
    using Decide_groups [OF order] by blast
  have g: "set (group k (reports artifacts)) = {r \<in> set (reports artifacts). identityKey (snd r) = k}" for k
    by (simp add: group_def)
  have "(\<exists>i \<in> set (jd_merged_findings (Decide order artifacts)). blocking (mf_finding i))
      \<longleftrightarrow> (\<exists>r \<in> set (reports artifacts). severityRank (cf_severity (snd r)) \<ge> 3)"
  proof
    assume "\<exists>i \<in> set (jd_merged_findings (Decide order artifacts)). blocking (mf_finding i)"
    then obtain i k where "merges (group k (reports artifacts)) i" "blocking (mf_finding i)"
      using ks(2) by (metis in_set_conv_nth list_all2_conv_all_nth)
    then obtain r where "r \<in> set (reports artifacts)" "snd r = mf_finding i" "blocking (snd r)"
      using merges_member g by force
    then show "\<exists>r \<in> set (reports artifacts). severityRank (cf_severity (snd r)) \<ge> 3"
      using clean clean_blocking by blast
  next
    assume "\<exists>r \<in> set (reports artifacts). severityRank (cf_severity (snd r)) \<ge> 3"
    then obtain r where r: "r \<in> set (reports artifacts)" "severityRank (cf_severity (snd r)) \<ge> 3" by blast
    then have "identityKey (snd r) \<in> set ks" using ks(1) by simp
    then obtain i where i: "i \<in> set (jd_merged_findings (Decide order artifacts))"
      "merges (group (identityKey (snd r)) (reports artifacts)) i"
      using ks(2) by (metis in_set_conv_nth list_all2_conv_all_nth)
    then have "severityRank (cf_severity (mf_finding i)) \<ge> 3"
      using merges_max [OF i(2), of r] r g by simp
    moreover have "clean_severity (cf_severity (mf_finding i))"
      using merges_member [OF i(2)] g clean by force
    ultimately show "\<exists>i \<in> set (jd_merged_findings (Decide order artifacts)). blocking (mf_finding i)"
      using i(1) clean_blocking by blast
  qed
  then show ?thesis by (simp add: Decide_verdict_items)
qed

text \<open>Verdict. when the severities are plain ASCII words without surrounding space, the verdict asks
  for changes exactly when some reviewer reported a finding of high or critical severity: merging
  never hides one.\<close>

theorem Decide_verdict:
  assumes order: "permutes_keys order"
    and clean: "\<forall>r \<in> set (reports artifacts). clean_severity (cf_severity (snd r))"
  shows "jd_verdict (Decide order artifacts) =
     (if \<exists>r \<in> set (reports artifacts). severityRank (cf_severity (snd r)) \<ge> 3
      then ''requested_changes'' else ''pass'')"
  by (rule Decide_verdict_clean [OF assms])

subsection \<open>Examples\<close>

definition sample_finding :: "string \<Rightarrow> string \<Rightarrow> core_finding" where
  "sample_finding claim sev =
     \<lparr>cf_category = ''security'', cf_severity = sev, cf_title = claim, cf_body = ''body'', cf_claim = claim,
      cf_confidence = 1,
      cf_identity = \<lparr>fi_category = ''security'', fi_normalized_claim = claim, fi_evidence_fingerprint = ''e'',
        fi_standards = [], fi_location = \<lparr>cl_path = ''a.go'', cl_side = ''new'', cl_start_line = 3, cl_end_line = 3,
          cl_snippet = [], cl_platform_metadata = []\<rparr>\<rparr>\<rparr>"

definition sample_artifact :: "string \<Rightarrow> core_finding list \<Rightarrow> reviewer_artifact" where
  "sample_artifact reviewer fs =
     \<lparr>ra_reviewer_id = reviewer, ra_reviewer_kind = ''llm'',
      ra_target = \<lparr>rt_platform = ''gitlab'', rt_url = [], rt_repository = [], rt_project_id = 1,
        rt_change_number = 1, rt_base_url = []\<rparr>,
      ra_summary = [], ra_findings = fs\<rparr>"

definition sample_artifacts :: "reviewer_artifact list" where
  "sample_artifacts =
     [sample_artifact ''r1'' [sample_finding ''leak'' ''low'', sample_finding ''race'' ''medium''],
      sample_artifact ''r2'' [sample_finding ''leak'' ''high'']]"

lemma permutes_keys_rev: "permutes_keys rev"
  by (simp add: permutes_keys_def)

lemma permutes_keys_id: "permutes_keys (\<lambda>ks. ks)"
  by (simp add: permutes_keys_def)

theorem Decide_merges_witness:
  "\<exists>ks. distinct ks \<and> set ks = identityKey ` snd ` set (reports sample_artifacts)
     \<and> list_all2 (\<lambda>k i. merges (group k (reports sample_artifacts)) i) ks
         (jd_merged_findings (Decide rev sample_artifacts))"
  by (rule Decide_merges [OF permutes_keys_rev])

theorem Decide_order_independent_witness:
  "jd_verdict (Decide rev sample_artifacts) = jd_verdict (Decide (\<lambda>ks. ks) sample_artifacts)
   \<and> map (cf_severity \<circ> mf_finding) (jd_merged_findings (Decide rev sample_artifacts)) = [''medium'', ''high'']"
proof
  show "jd_verdict (Decide rev sample_artifacts) = jd_verdict (Decide (\<lambda>ks. ks) sample_artifacts)"
    using Decide_order_independent [OF permutes_keys_rev permutes_keys_id] by blast
  show "map (cf_severity \<circ> mf_finding) (jd_merged_findings (Decide rev sample_artifacts)) = [''medium'', ''high'']"
    by code_simp
qed

theorem Decide_verdict_witness: "jd_verdict (Decide rev sample_artifacts) = ''requested_changes''"
proof -
  have c: "\<forall>r \<in> set (reports sample_artifacts). clean_severity (cf_severity (snd r))" by code_simp
  have "\<exists>r \<in> set (reports sample_artifacts). severityRank (cf_severity (snd r)) \<ge> 3" by code_simp
  then show ?thesis using Decide_verdict [OF permutes_keys_rev c] by simp
qed

text \<open>Untrimmed severity, a defect. \<^verbatim>\<open>severityRank\<close> trims the severity and \<^verbatim>\<open>EqualFold\<close> does not, so a
  single finding of rank high written with a blank before the word passes, and replaces in the
  merge the same finding reported as medium.\<close>

theorem Decide_untrimmed_severity:
  "severityRank '' high'' = 3
   \<and> Decide (\<lambda>ks. ks) [sample_artifact ''r1'' [sample_finding ''leak'' ''medium''],
        sample_artifact ''r2'' [sample_finding ''leak'' '' high'']]
     = \<lparr>jd_merged_findings = [\<lparr>mf_finding = sample_finding ''leak'' '' high'', mf_source_reviewers = [''r1'', ''r2'']\<rparr>],
        jd_verdict = ''pass''\<rparr>"
  by code_simp

text \<open>Identity keys collide, a defect. the key joins its parts with a bar that the parts may contain,
  so two findings with different claims and evidence share a key and are merged into one.\<close>

theorem identityKey_collision:
  "\<exists>f g. fi_normalized_claim (cf_identity f) \<noteq> fi_normalized_claim (cf_identity g)
     \<and> identityKey f = identityKey g
     \<and> length (jd_merged_findings (Decide (\<lambda>ks. ks) [sample_artifact ''r1'' [f, g]])) = 1"
proof (intro exI conjI)
  let ?f = "sample_finding ''a'' ''low''"
  let ?g = "\<lambda>claim ev. ?f\<lparr>cf_identity := (cf_identity ?f)\<lparr>fi_normalized_claim := claim, fi_evidence_fingerprint := ev\<rparr>\<rparr>"
  show "fi_normalized_claim (cf_identity (?g ''a|b'' ''c'')) \<noteq> fi_normalized_claim (cf_identity (?g ''a'' ''b|c''))"
    by simp
  show "identityKey (?g ''a|b'' ''c'') = identityKey (?g ''a'' ''b|c'')" by code_simp
  show "length (jd_merged_findings (Decide (\<lambda>ks. ks)
     [sample_artifact ''r1'' [?g ''a|b'' ''c'', ?g ''a'' ''b|c'']])) = 1" by code_simp
qed

end
