(* ===== verification/Engine.thy ===== *)
theory Engine
  imports Main Complex_Main Judge Go_Float
begin

text \<open>
  The review engine: \<^verbatim>\<open>internal/reviewcore/\<close>\<^verbatim>\<open>engine.go\<close>, \<^verbatim>\<open>bundle.go\<close> and \<^verbatim>\<open>input.go\<close>, with the judge adapter of
  \<^verbatim>\<open>internal/reviewruntime/runtime.go\<close>. A pack runner is a function from the input to an artifact or an
  error; reading and writing JSON are the parameters \<open>decode\<close> and \<open>marshal\<close>. \<^verbatim>\<open>float64\<close> values are
  rationals, rounded as \<^verbatim>\<open>Go_Float\<close> says. String literals outside ASCII are their UTF-8 bytes.
\<close>

subsection \<open>Data\<close>

record review_input =
  ri_target :: review_target
  ri_request :: review_request
  ri_coverage :: coverage_report

record run_options =
  ro_output_mode :: string
  ro_publish_mode :: string
  ro_reviewer_packs :: "string list"
  ro_route_override :: string
  ro_advisor_route :: string
  ro_coverage_threshold :: rat

record core_decision =
  cd_verdict :: string
  cd_merged_findings :: "core_finding list"
  cd_summary :: string

record publish_candidate =
  pc_kind :: string
  pc_body :: string
  pc_title :: string
  pc_severity :: string
  pc_publish_as_summary :: bool
  pc_out_of_diff :: bool
  pc_location :: canonical_location

record coverage_summary =
  cs_mode :: string
  cs_total_changed_lines :: int
  cs_reviewed_changed_lines :: int
  cs_hunks_total :: int
  cs_hunks_in_prompt :: int
  cs_ratio :: rat
  cs_threshold :: rat
  cs_incomplete :: bool
  cs_skipped :: "skipped_scope list"
  cs_summary :: string

record review_bundle =
  rb_target :: review_target
  rb_artifacts :: "reviewer_artifact list"
  rb_verdict :: string
  rb_markdown_summary :: string
  rb_json_schema_version :: string
  rb_publish_candidates :: "publish_candidate list"
  rb_coverage :: "coverage_summary option"

text \<open>\<open>NilMapWrite\<close> is the run-time panic of an assignment to a nil map.\<close>

datatype engine_error = PackFailed string | NilMapWrite

definition VerdictIncomplete :: string where
  "VerdictIncomplete = ''incomplete''"

text \<open>The constant 0.8 as a \<^verbatim>\<open>float64\<close>.\<close>

definition DefaultCoverageThreshold :: rat where
  "DefaultCoverageThreshold = 3602879701896397 / 4503599627370496"

definition zero_location :: canonical_location where
  "zero_location = \<lparr>cl_path = [], cl_side = [], cl_start_line = 0, cl_end_line = 0, cl_snippet = [],
     cl_platform_metadata = []\<rparr>"

subsection \<open>Text\<close>

definition txt_located :: string where
  "txt_located = map char_of [(10 :: nat), 10, 95, 229, 174, 154, 228, 189, 141, 32]"

definition txt_not_in_diff :: string where
  "txt_not_in_diff = map char_of [(32 :: nat), 228, 184, 141, 229, 156, 168, 230, 156, 172, 230, 172, 161, 230, 148,
     185, 229, 138, 168, 232, 140, 131, 229, 155, 180, 229, 134, 133, 239, 188, 140, 229, 183, 178,
     230, 140, 137, 230, 150, 135, 228, 187, 182, 231, 186, 167, 229, 143, 145, 229, 184, 131, 227,
     128, 130, 95]"

definition txt_unreviewed :: string where
  "txt_unreviewed = map char_of [(35 :: nat), 35, 35, 32, 230, 156, 170, 232, 175, 132, 229, 174, 161, 232, 140,
     131, 229, 155, 180, 10, 10]"

definition txt_only_covered :: string where
  "txt_only_covered = map char_of [(230 :: nat), 156, 172, 230, 172, 161, 232, 175, 132, 229, 174, 161, 229, 143,
     170, 232, 166, 134, 231, 155, 150, 228, 186, 134, 32]"

definition txt_lines_changed :: string where
  "txt_lines_changed = map char_of [(32 :: nat), 232, 161, 140, 230, 148, 185, 229, 138, 168, 239, 188, 136]"

definition txt_below :: string where
  "txt_below = map char_of [(37 :: nat), 239, 188, 137, 239, 188, 140, 228, 189, 142, 228, 186, 142, 233, 152,
     136, 229, 128, 188, 32]"

definition txt_incomplete :: string where
  "txt_incomplete = map char_of [(37 :: nat), 239, 188, 140, 231, 187, 147, 232, 174, 186, 228, 184, 186, 32, 105,
     110, 99, 111, 109, 112, 108, 101, 116, 101, 239, 188, 140, 228, 184, 141, 228, 187, 163, 232,
     161, 168, 230, 156, 170, 232, 175, 132, 229, 174, 161, 233, 131, 168, 229, 136, 134, 230, 178,
     161, 230, 156, 137, 233, 151, 174, 233, 162, 152, 227, 128, 130, 10]"

definition txt_colon :: string where
  "txt_colon = map char_of [(96 :: nat), 239, 188, 154]"

definition txt_comma :: string where
  "txt_comma = map char_of [(239 :: nat), 188, 140]"

definition txt_lines_unreviewed :: string where
  "txt_lines_unreviewed = map char_of [(32 :: nat), 232, 161, 140, 230, 156, 170, 232, 175, 132, 229, 174, 161]"

definition summaryBodyFromFinding :: "string \<Rightarrow> string \<Rightarrow> string" where
  "summaryBodyFromFinding title0 body0 =
     (let title = trim_space title0; body = trim_space body0 in
      if title \<noteq> [] \<and> body \<noteq> [] then ''### '' @ title @ [CHR 0x0A, CHR 0x0A] @ body
      else if body \<noteq> [] then body else title)"

definition outOfDiffBodyFromFinding :: "core_finding \<Rightarrow> string" where
  "outOfDiffBodyFromFinding f =
     (let loc = fi_location (cf_identity f);
          path = trim_space (cl_path loc);
          place = (if cl_start_line loc > 0
                   then path @ '':'' @ itoa (cl_start_line loc)
                        @ (if cl_end_line loc > cl_start_line loc then ''-'' @ itoa (cl_end_line loc) else [])
                   else path)
      in summaryBodyFromFinding (cf_title f) (cf_body f) @ txt_located @ place @ txt_not_in_diff)"

definition percent :: "rat \<Rightarrow> int" where
  "percent r = int_of_float (fadd (fmul r 100) (1 / 2))"

definition skipped_line :: "skipped_scope \<Rightarrow> string" where
  "skipped_line sk =
     ''- `'' @ ss_path sk @ txt_colon @ ss_reason sk
       @ (if ss_changed_lines sk > 0 then txt_comma @ itoa (ss_changed_lines sk) @ txt_lines_unreviewed else [])
       @ [CHR 0x0A]"

definition appendCoverageNote :: "string \<Rightarrow> coverage_summary \<Rightarrow> string" where
  "appendCoverageNote summary c =
     (if trim_space summary \<noteq> [] then trim_right_set summary [CHR 0x0A] @ [CHR 0x0A, CHR 0x0A] else [])
       @ txt_unreviewed @ txt_only_covered @ itoa (cs_reviewed_changed_lines c) @ ''/''
       @ itoa (cs_total_changed_lines c) @ txt_lines_changed @ itoa (percent (cs_ratio c)) @ txt_below
       @ itoa (percent (cs_threshold c)) @ txt_incomplete @ concat (map skipped_line (cs_skipped c))"

subsection \<open>Coverage\<close>

definition coverageSummaryFromInput :: "review_input \<Rightarrow> rat \<Rightarrow> coverage_summary option" where
  "coverageSummaryFromInput input threshold0 =
     (let report = ri_coverage input in
      if cr_total_changed_lines report = 0 \<and> cr_hunks_total report = 0 \<and> cr_reviewed_paths report = [] then None
      else
        (let threshold = (if threshold0 \<le> 0 \<or> threshold0 > 1 then DefaultCoverageThreshold else threshold0);
             ratio = (if cr_total_changed_lines report > 0
                      then fdiv (float_of_int (cr_reviewed_changed_lines report))
                             (float_of_int (cr_total_changed_lines report))
                      else if cr_ratio report = 0 then 1 else cr_ratio report)
         in Some \<lparr>cs_mode = cr_mode report, cs_total_changed_lines = cr_total_changed_lines report,
              cs_reviewed_changed_lines = cr_reviewed_changed_lines report,
              cs_hunks_total = cr_hunks_total report, cs_hunks_in_prompt = cr_hunks_in_prompt report,
              cs_ratio = ratio, cs_threshold = threshold, cs_incomplete = (ratio < threshold),
              cs_skipped = map (\<lambda>sk. \<lparr>ss_path = ss_path sk, ss_reason = ss_reason sk,
                 ss_changed_lines = ss_changed_lines sk\<rparr>) (cr_skipped report),
              cs_summary = cr_summary report\<rparr>))"

subsection \<open>Locations and candidates\<close>

text \<open>The metadata map: \<open>None\<close> is the nil map that \<^verbatim>\<open>null\<close> leaves in the target.\<close>

definition metadata_of :: "(string \<Rightarrow> json option) \<Rightarrow> string \<Rightarrow> members option" where
  "metadata_of decode raw =
     (if raw = [] then Some []
      else case decode raw of
        Some (JObject kvs) \<Rightarrow> Some (foldl (\<lambda>m (k, v). AList.update k v m) [] kvs)
      | Some JNull \<Rightarrow> None
      | _ \<Rightarrow> Some [])"

definition put_sha :: "string \<Rightarrow> string \<Rightarrow> members option \<Rightarrow> engine_error + members option" where
  "put_sha key sha m =
     (if sha = [] \<or> (case m of None \<Rightarrow> False | Some kvs \<Rightarrow> map_of kvs key \<noteq> None) then Inr m
      else case m of None \<Rightarrow> Inl NilMapWrite | Some kvs \<Rightarrow> Inr (Some (AList.update key (JString sha) kvs)))"

definition locationWithGitLabVersionMetadata ::
  "(string \<Rightarrow> json option) \<Rightarrow> (members option \<Rightarrow> string option) \<Rightarrow> review_input \<Rightarrow> canonical_location
     \<Rightarrow> engine_error + canonical_location" where
  "locationWithGitLabVersionMetadata decode marshal input location =
     (let v = rvq_version (ri_request input);
          baseSHA = trim_space (vc_base_sha v); startSHA = trim_space (vc_start_sha v);
          headSHA = trim_space (vc_head_sha v) in
      if rt_platform (ri_target input) \<noteq> ''gitlab'' then Inr location
      else if trim_space (cl_path location) = [] then Inr location
      else if baseSHA = [] \<and> startSHA = [] \<and> headSHA = [] then Inr location
      else case put_sha ''base_sha'' baseSHA (metadata_of decode (cl_platform_metadata location)) of
        Inl e \<Rightarrow> Inl e
      | Inr m1 \<Rightarrow> (case put_sha ''start_sha'' startSHA m1 of
          Inl e \<Rightarrow> Inl e
        | Inr m2 \<Rightarrow> (case put_sha ''head_sha'' headSHA m2 of
            Inl e \<Rightarrow> Inl e
          | Inr m3 \<Rightarrow> (case marshal m3 of
              None \<Rightarrow> Inr location
            | Some raw \<Rightarrow> Inr (location\<lparr>cl_platform_metadata := raw\<rparr>)))))"

definition locationSupportsInlineDiscussion :: "canonical_location \<Rightarrow> bool" where
  "locationSupportsInlineDiscussion location =
     (let path = trim_space (cl_path location) in
      if path = [] then False
      else if cl_start_line location > 0 \<or> cl_end_line location > 0 then True
      else \<not> has_suffix path ''/'')"

definition publishCandidateForFinding ::
  "(string \<Rightarrow> json option) \<Rightarrow> (members option \<Rightarrow> string option) \<Rightarrow> review_input
     \<Rightarrow> (string \<rightharpoonup> file_line_index) \<Rightarrow> core_finding \<Rightarrow> engine_error + publish_candidate" where
  "publishCandidateForFinding decode marshal input lineIndex f =
     (case locationWithGitLabVersionMetadata decode marshal input (fi_location (cf_identity f)) of
        Inl e \<Rightarrow> Inl e
      | Inr location \<Rightarrow>
          if \<not> locationSupportsInlineDiscussion location then
            Inr \<lparr>pc_kind = ''finding'', pc_body = summaryBodyFromFinding (cf_title f) (cf_body f),
                 pc_title = cf_title f, pc_severity = cf_severity f, pc_publish_as_summary = True,
                 pc_out_of_diff = False, pc_location = location\<rparr>
          else if verify lineIndex (fi_location (cf_identity f)) = LocationOutOfDiff then
            Inr \<lparr>pc_kind = ''finding'', pc_body = outOfDiffBodyFromFinding f,
                 pc_title = cf_title f, pc_severity = cf_severity f, pc_publish_as_summary = True,
                 pc_out_of_diff = True, pc_location = location\<rparr>
          else
            Inr \<lparr>pc_kind = ''finding'', pc_body = cf_body f, pc_title = cf_title f,
                 pc_severity = cf_severity f, pc_publish_as_summary = False, pc_out_of_diff = False,
                 pc_location = location\<rparr>)"

subsection \<open>The run\<close>

type_synonym pack_runner = "review_input \<Rightarrow> run_options \<Rightarrow> string + reviewer_artifact"

fun run_packs :: "pack_runner list \<Rightarrow> review_input \<Rightarrow> run_options \<Rightarrow> engine_error + reviewer_artifact list" where
  "run_packs [] input opts = Inr []"
| "run_packs (p # ps) input opts =
     (case p input opts of
        Inl e \<Rightarrow> Inl (PackFailed e)
      | Inr a \<Rightarrow> (case run_packs ps input opts of
            Inl e \<Rightarrow> Inl e
          | Inr as \<Rightarrow> Inr (if ra_reviewer_id a = [] \<and> ra_summary a = [] \<and> ra_findings a = [] then as else a # as)))"

fun candidates_for :: "(core_finding \<Rightarrow> engine_error + publish_candidate) \<Rightarrow> core_finding list
    \<Rightarrow> engine_error + publish_candidate list" where
  "candidates_for c [] = Inr []"
| "candidates_for c (f # fs) =
     (case c f of Inl e \<Rightarrow> Inl e
      | Inr x \<Rightarrow> (case candidates_for c fs of Inl e \<Rightarrow> Inl e | Inr xs \<Rightarrow> Inr (x # xs)))"

definition passing :: "string \<Rightarrow> bool" where
  "passing verdict \<longleftrightarrow> norm_lower verdict \<in> set [[], ''pass'', ''passed'', ''approved'']"

definition Run ::
  "(string \<Rightarrow> json option) \<Rightarrow> (members option \<Rightarrow> string option) \<Rightarrow> pack_runner list
     \<Rightarrow> (reviewer_artifact list \<Rightarrow> core_decision) option \<Rightarrow> review_input \<Rightarrow> run_options
     \<Rightarrow> engine_error + review_bundle" where
  "Run decode marshal packs judge input opts =
     (case run_packs packs input opts of
        Inl e \<Rightarrow> Inl e
      | Inr artifacts \<Rightarrow>
          (let decision = (case judge of
                 None \<Rightarrow> \<lparr>cd_verdict = [], cd_merged_findings = [], cd_summary = []\<rparr>
               | Some decide \<Rightarrow> decide artifacts);
               coverage = coverageSummaryFromInput input (ro_coverage_threshold opts);
               incomplete = (case coverage of None \<Rightarrow> False | Some c \<Rightarrow> cs_incomplete c);
               verdict = (if incomplete \<and> passing (cd_verdict decision) then VerdictIncomplete
                          else cd_verdict decision);
               summary = (case coverage of
                   None \<Rightarrow> cd_summary decision
                 | Some c \<Rightarrow> if cs_incomplete c then appendCoverageNote (cd_summary decision) c
                            else cd_summary decision);
               leading = (if summary \<noteq> [] then
                   [\<lparr>pc_kind = ''summary'', pc_body = summary, pc_title = [], pc_severity = [],
                     pc_publish_as_summary = False, pc_out_of_diff = False, pc_location = zero_location\<rparr>]
                 else []);
               lineIndex = buildChangedLineIndex (rvq_changes (ri_request input)) Map.empty
           in case candidates_for (publishCandidateForFinding decode marshal input lineIndex)
                     (cd_merged_findings decision) of
                Inl e \<Rightarrow> Inl e
              | Inr cs \<Rightarrow>
                  Inr \<lparr>rb_target = ri_target input, rb_artifacts = artifacts, rb_verdict = verdict,
                       rb_markdown_summary = summary, rb_json_schema_version = ''v1alpha1'',
                       rb_publish_candidates = leading @ cs, rb_coverage = coverage\<rparr>))"

subsection \<open>The judge adapter\<close>

definition JudgeSummary :: "(string \<Rightarrow> string) \<Rightarrow> string \<Rightarrow> core_finding list \<Rightarrow> string" where
  "JudgeSummary to_upper verdict findings =
     (let first = ''Verdict: '' @ verdict in
      if findings = [] then join [first, [], ''No review findings detected.''] [CHR 0x0A]
      else join ([first, [], ''Findings:''] @
        map (\<lambda>f. let t = trim_space (cf_title f);
                     t2 = (if t = [] then trim_space (cf_claim f) else t);
                     title = (if t2 = [] then ''Unnamed finding'' else t2)
                 in ''- ['' @ to_upper (trim_space (cf_severity f)) @ ''] '' @ title) findings) [CHR 0x0A])"

definition JudgeAdapter :: "(string \<Rightarrow> string) \<Rightarrow> (string list \<Rightarrow> string list) \<Rightarrow> reviewer_artifact list \<Rightarrow> core_decision" where
  "JudgeAdapter to_upper order artifacts =
     (let decision = Decide order artifacts;
          merged = map mf_finding (jd_merged_findings decision)
      in \<lparr>cd_verdict = jd_verdict decision, cd_merged_findings = merged,
          cd_summary = JudgeSummary to_upper (jd_verdict decision) merged\<rparr>)"

subsection \<open>Lemmas on the steps\<close>

lemma location_metadata_only:
  assumes "locationWithGitLabVersionMetadata decode marshal input l = Inr l'"
  shows "cl_path l' = cl_path l \<and> cl_side l' = cl_side l \<and> cl_start_line l' = cl_start_line l
    \<and> cl_end_line l' = cl_end_line l \<and> cl_snippet l' = cl_snippet l"
  using assms
  by (auto simp: locationWithGitLabVersionMetadata_def Let_def split: if_splits sum.splits option.splits)

lemma candidates_for_Inr:
  "candidates_for c fs = Inr xs \<Longrightarrow> list_all2 (\<lambda>f x. c f = Inr x) fs xs"
  by (induction fs arbitrary: xs) (auto split: sum.splits)

definition coverage_incomplete :: "review_bundle \<Rightarrow> bool" where
  "coverage_incomplete b \<longleftrightarrow> (case rb_coverage b of None \<Rightarrow> False | Some c \<Rightarrow> cs_incomplete c)"

lemma Run_InrE:
  assumes "Run decode marshal packs (Some decide) input opts = Inr b"
  obtains cs where
    "run_packs packs input opts = Inr (rb_artifacts b)"
    "rb_coverage b = coverageSummaryFromInput input (ro_coverage_threshold opts)"
    "rb_verdict b = (if coverage_incomplete b \<and> passing (cd_verdict (decide (rb_artifacts b)))
       then VerdictIncomplete else cd_verdict (decide (rb_artifacts b)))"
    "list_all2 (\<lambda>f x. publishCandidateForFinding decode marshal input
        (buildChangedLineIndex (rvq_changes (ri_request input)) Map.empty) f = Inr x)
       (cd_merged_findings (decide (rb_artifacts b))) cs"
    "rb_publish_candidates b = (if rb_markdown_summary b \<noteq> [] then
        [\<lparr>pc_kind = ''summary'', pc_body = rb_markdown_summary b, pc_title = [], pc_severity = [],
          pc_publish_as_summary = False, pc_out_of_diff = False, pc_location = zero_location\<rparr>] else []) @ cs"
proof -
  obtain arts where a: "run_packs packs input opts = Inr arts"
    using assms by (cases "run_packs packs input opts") (auto simp: Run_def)
  define c where "c = publishCandidateForFinding decode marshal input
    (buildChangedLineIndex (rvq_changes (ri_request input)) Map.empty)"
  obtain cs where cs: "candidates_for c (cd_merged_findings (decide arts)) = Inr cs"
    using assms a by (cases "candidates_for c (cd_merged_findings (decide arts))") (auto simp: Run_def Let_def c_def)
  have b: "rb_artifacts b = arts" "rb_coverage b = coverageSummaryFromInput input (ro_coverage_threshold opts)"
    using assms a cs by (auto simp: Run_def Let_def c_def)
  show ?thesis
  proof (rule that [of cs])
    show "run_packs packs input opts = Inr (rb_artifacts b)" by (simp add: a b)
    show "rb_coverage b = coverageSummaryFromInput input (ro_coverage_threshold opts)" by (rule b(2))
    show "rb_verdict b = (if coverage_incomplete b \<and> passing (cd_verdict (decide (rb_artifacts b)))
       then VerdictIncomplete else cd_verdict (decide (rb_artifacts b)))"
      using assms a cs b unfolding coverage_incomplete_def by (auto simp: Run_def Let_def c_def)
    show "list_all2 (\<lambda>f x. publishCandidateForFinding decode marshal input
        (buildChangedLineIndex (rvq_changes (ri_request input)) Map.empty) f = Inr x)
       (cd_merged_findings (decide (rb_artifacts b))) cs"
      using candidates_for_Inr [OF cs] by (simp add: b c_def)
    show "rb_publish_candidates b = (if rb_markdown_summary b \<noteq> [] then
        [\<lparr>pc_kind = ''summary'', pc_body = rb_markdown_summary b, pc_title = [], pc_severity = [],
          pc_publish_as_summary = False, pc_out_of_diff = False, pc_location = zero_location\<rparr>] else []) @ cs"
      using assms a cs by (auto simp: Run_def Let_def c_def)
  qed
qed

subsection \<open>Inline comments\<close>

text \<open>\<open>published_for\<close>: what a candidate says of its finding.\<close>

definition anchored :: "change list \<Rightarrow> canonical_location \<Rightarrow> bool" where
  "anchored changes loc \<longleftrightarrow>
     (let path = trim_space (cl_path loc); line = cl_start_line loc in
      line > 0 \<longrightarrow> (\<forall>c. change_of changes path = Some c \<longrightarrow>
         touches (cl_side loc = ''old'') c line (max line (cl_end_line loc))))"

definition published_for :: "change list \<Rightarrow> core_finding \<Rightarrow> publish_candidate \<Rightarrow> bool" where
  "published_for changes f x \<longleftrightarrow>
     pc_kind x = ''finding'' \<and> pc_title x = cf_title f \<and> pc_severity x = cf_severity f
   \<and> cl_path (pc_location x) = cl_path (fi_location (cf_identity f))
   \<and> cl_start_line (pc_location x) = cl_start_line (fi_location (cf_identity f))
   \<and> cl_side (pc_location x) = cl_side (fi_location (cf_identity f))
   \<and> (pc_publish_as_summary x \<longleftrightarrow>
        \<not> locationSupportsInlineDiscussion (fi_location (cf_identity f))
        \<or> \<not> anchored changes (fi_location (cf_identity f)))
   \<and> (pc_out_of_diff x \<longleftrightarrow> locationSupportsInlineDiscussion (fi_location (cf_identity f))
        \<and> \<not> anchored changes (fi_location (cf_identity f)))"

lemma verify_out_of_diff:
  "trim_space (cl_path loc) \<noteq> [] \<Longrightarrow>
     verify (buildChangedLineIndex changes Map.empty) loc = LocationOutOfDiff \<longleftrightarrow> \<not> anchored changes loc"
  unfolding verify_cases anchored_def Let_def by (auto split: option.splits)

lemma publishCandidate_published:
  assumes "publishCandidateForFinding decode marshal input (buildChangedLineIndex changes Map.empty) f = Inr x"
  shows "published_for changes f x"
proof -
  define l where "l = fi_location (cf_identity f)"
  obtain l' where l': "locationWithGitLabVersionMetadata decode marshal input l = Inr l'"
    using assms by (auto simp: publishCandidateForFinding_def l_def split: sum.splits)
  have same: "cl_path l' = cl_path l \<and> cl_side l' = cl_side l \<and> cl_start_line l' = cl_start_line l
    \<and> cl_end_line l' = cl_end_line l"
    using location_metadata_only [OF l'] by simp
  then have inl: "locationSupportsInlineDiscussion l' = locationSupportsInlineDiscussion l"
    by (simp add: locationSupportsInlineDiscussion_def)
  have path: "locationSupportsInlineDiscussion l \<Longrightarrow> trim_space (cl_path l) \<noteq> []"
    by (auto simp: locationSupportsInlineDiscussion_def Let_def split: if_splits)
  show ?thesis
    using assms same inl path verify_out_of_diff [of l changes] l'
    by (auto simp: publishCandidateForFinding_def published_for_def l_def [symmetric] split: if_splits)
qed


subsection \<open>Coverage and verdict\<close>

lemma incomplete_not_passing: "\<not> passing VerdictIncomplete"
  by code_simp


lemma default_threshold_close:
  "\<bar>DefaultCoverageThreshold - 4 / 5\<bar> \<le> 1 / 2 ^ 53"
  by (simp add: DefaultCoverageThreshold_def)

lemma fdiv_four_fifths: "round53 (4 / 5) = DefaultCoverageThreshold"
  by code_simp

lemma fraction_gap:
  assumes "0 < n" and "n < (2 :: int) ^ 45"
  shows "5 * r < 4 * n \<Longrightarrow> (of_int r / of_int n :: rat) + 1 / (5 * 2 ^ 45) \<le> 4 / 5"
    and "5 * r > 4 * n \<Longrightarrow> (4 / 5 :: rat) + 1 / (5 * 2 ^ 45) \<le> of_int r / of_int n"
proof -
  let ?t = "of_int n :: rat"
  have t: "0 < ?t" "?t \<le> 2 ^ 45"
    using assms by (simp, metis (mono_tags) less_imp_le of_int_le_iff of_int_numeral of_int_power)
  have g: "1 / (5 * 2 ^ 45) \<le> 1 / (5 * ?t)" using t by (simp add: frac_le)
  show "5 * r < 4 * n \<Longrightarrow> of_int r / ?t + 1 / (5 * 2 ^ 45) \<le> 4 / 5"
  proof -
    assume "5 * r < 4 * n"
    then have "5 * r + 1 \<le> 4 * n" by linarith
    then have "(of_int (5 * r + 1) :: rat) \<le> of_int (4 * n)" by (rule of_int_le_iff [THEN iffD2])
    then have "of_int r / ?t + 1 / (5 * ?t) \<le> 4 / 5" using t(1) by (simp add: field_simps)
    with g show ?thesis by linarith
  qed
  show "5 * r > 4 * n \<Longrightarrow> 4 / 5 + 1 / (5 * 2 ^ 45) \<le> of_int r / ?t"
  proof -
    assume "5 * r > 4 * n"
    then have "4 * n + 1 \<le> 5 * r" by linarith
    then have "(of_int (4 * n + 1) :: rat) \<le> of_int (5 * r)" by (rule of_int_le_iff [THEN iffD2])
    then have "(4 * ?t + 1) / (5 * ?t) \<le> 5 * of_int r / (5 * ?t)"
      using t(1) by (intro divide_right_mono) simp_all
    moreover have "(4 * ?t + 1) / (5 * ?t) = 4 / 5 + 1 / (5 * ?t)" using t(1) by (simp add: add_divide_distrib)
    ultimately have "4 / 5 + 1 / (5 * ?t) \<le> of_int r / ?t" using t(1) by simp
    with g show ?thesis by linarith
  qed
qed

lemma fdiv_default_threshold:
  assumes "0 \<le> r" and "r \<le> n" and "0 < n" and "n < (2 :: int) ^ 45"
  shows "fdiv (float_of_int r) (float_of_int n) < DefaultCoverageThreshold \<longleftrightarrow> 5 * r < 4 * n"
proof -
  define x :: rat where "x = of_int r / of_int n"
  have "(2 :: int) ^ 45 < 2 ^ 53" by simp
  then have q: "fdiv (float_of_int r) (float_of_int n) = round53 x"
    using assms by (simp add: fdiv_def float_of_int_def round53_int x_def)
  consider "r = 0" | "r = n" | "0 < r" "r < n" using assms by linarith
  then show ?thesis
  proof cases
    case 1
    then show ?thesis
      using assms unfolding q by (simp add: x_def round53_def DefaultCoverageThreshold_def)
  next
    case 2
    have "round53 1 = 1" using round53_int [of 1] by simp
    with 2 assms show ?thesis unfolding q by (simp add: x_def DefaultCoverageThreshold_def)
  next
    case 3
    then have u: "0 < x" "x < 1" using assms by (simp_all add: x_def)
    have e: "\<bar>round53 x - x\<bar> \<le> 1 / 2 ^ 53" by (rule round53_unit [OF u])
    have small: "2 * (1 / 2 ^ 53) < (1 / (5 * 2 ^ 45) :: rat)" by simp
    consider "5 * r < 4 * n" | "5 * r > 4 * n" | "5 * r = 4 * n" by linarith
    then show ?thesis
    proof cases
      case 1
      have "x + 1 / (5 * 2 ^ 45) \<le> 4 / 5" unfolding x_def by (rule fraction_gap(1) [OF assms(3,4) 1])
      with e small default_threshold_close have "round53 x < DefaultCoverageThreshold" by linarith
      with 1 show ?thesis by (simp add: q)
    next
      case 2
      have "4 / 5 + 1 / (5 * 2 ^ 45) \<le> x" unfolding x_def by (rule fraction_gap(2) [OF assms(3,4) 2])
      with e small default_threshold_close have "\<not> round53 x < DefaultCoverageThreshold" by linarith
      with 2 show ?thesis by (simp add: q)
    next
      case 3
      then have "(of_int (5 * r) :: rat) = of_int (4 * n)" by simp
      then have "x = 4 / 5" using assms by (simp add: x_def field_simps)
      then have "round53 x = DefaultCoverageThreshold" using fdiv_four_fifths by (simp only:)
      with 3 show ?thesis by (simp add: q)
    qed
  qed
qed

text \<open>The coverage threshold is exact. with the default threshold and fewer than \<open>2 ^ 45\<close> changed
  lines, the rounding of the two divisions never changes the decision: a review is incomplete
  exactly when it saw less than four fifths of the changed lines.\<close>

theorem coverage_incomplete_exact:
  assumes "coverageSummaryFromInput input threshold = Some c"
    and "threshold \<le> 0" and "0 < cr_total_changed_lines (ri_coverage input)"
    and "cr_total_changed_lines (ri_coverage input) < 2 ^ 45"
    and "0 \<le> cr_reviewed_changed_lines (ri_coverage input)"
    and "cr_reviewed_changed_lines (ri_coverage input) \<le> cr_total_changed_lines (ri_coverage input)"
  shows "cs_incomplete c \<longleftrightarrow>
    5 * cr_reviewed_changed_lines (ri_coverage input) < 4 * cr_total_changed_lines (ri_coverage input)"
  using assms fdiv_default_threshold [of "cr_reviewed_changed_lines (ri_coverage input)" "cr_total_changed_lines (ri_coverage input)"]
  by (auto simp: coverageSummaryFromInput_def Let_def split: if_splits)

text \<open>A pass means something. when the engine with the real judge reports \<^verbatim>\<open>pass\<close>, every reviewer
  ran, the coverage reached the threshold and no reviewer reported a finding of high or critical
  severity (written as a plain word).\<close>

theorem Run_pass_sound:
  assumes "Run decode marshal packs (Some (JudgeAdapter to_upper order)) input opts = Inr b"
    and "rb_verdict b = ''pass''" and "permutes_keys order"
    and "\<forall>r \<in> set (reports (rb_artifacts b)). clean_severity (cf_severity (snd r))"
  shows "run_packs packs input opts = Inr (rb_artifacts b) \<and> \<not> coverage_incomplete b
     \<and> (\<forall>r \<in> set (reports (rb_artifacts b)). severityRank (cf_severity (snd r)) < 3)"
  using assms(1)
proof (rule Run_InrE)
  let ?v = "jd_verdict (Decide order (rb_artifacts b))"
  assume p: "run_packs packs input opts = Inr (rb_artifacts b)"
    and v: "rb_verdict b = (if coverage_incomplete b \<and> passing (cd_verdict (JudgeAdapter to_upper order (rb_artifacts b)))
       then VerdictIncomplete else cd_verdict (JudgeAdapter to_upper order (rb_artifacts b)))"
  have cv: "cd_verdict (JudgeAdapter to_upper order (rb_artifacts b)) = ?v"
    by (simp add: JudgeAdapter_def Let_def)
  have ne: "VerdictIncomplete \<noteq> ''pass''" "passing ''pass''" by code_simp+
  have d: "\<not> coverage_incomplete b" "?v = ''pass''"
    using v assms(2) ne unfolding cv by (auto split: if_splits)
  have "\<not> (\<exists>r \<in> set (reports (rb_artifacts b)). severityRank (cf_severity (snd r)) \<ge> 3)"
    using Decide_verdict_clean [OF assms(3,4)] d(2) by (auto split: if_splits)
  with p d show ?thesis by (auto simp: not_le)
qed

subsection \<open>Examples\<close>

text \<open>One file with one hunk that replaces line 3 and was reviewed in full.\<close>

definition sample_request :: review_request where
  "sample_request =
     zero_request\<lparr>rvq_version := \<lparr>vc_base_sha = ''b0'', vc_start_sha = ''s0'', vc_head_sha = ''h0'', vc_patch_id_sha = []\<rparr>,
      rvq_changes := [zero_change\<lparr>ch_path := ''a.go'', ch_old_path := ''a.go'',
        ch_hunks := [\<lparr>hk_old_start = 2, hk_old_lines = 3, hk_new_start = 2, hk_new_lines = 3,
          hk_patch = ''@@ -2,3 +2,3 @@'' @ [CHR 0x0A] @ '' x'' @ [CHR 0x0A] @ ''-y'' @ [CHR 0x0A] @ ''+z'' @ [CHR 0x0A] @ '' w'',
          hk_context_before = [], hk_context_after = [], hk_changed_lines = 2, hk_truncated = False\<rparr>]\<rparr>]\<rparr>"

definition sample_input :: "int \<Rightarrow> review_input" where
  "sample_input seen =
     \<lparr>ri_target = \<lparr>rt_platform = ''gitlab'', rt_url = [], rt_repository = [], rt_project_id = 1,
        rt_change_number = 1, rt_base_url = []\<rparr>,
      ri_request = sample_request,
      ri_coverage = zero_coverage\<lparr>cr_reviewed_paths := [''a.go''], cr_mode := ''full'',
        cr_total_changed_lines := 10, cr_reviewed_changed_lines := seen, cr_hunks_total := 1, cr_hunks_in_prompt := 1\<rparr>\<rparr>"

definition sample_options :: run_options where
  "sample_options = \<lparr>ro_output_mode = [], ro_publish_mode = [], ro_reviewer_packs = [], ro_route_override = [],
     ro_advisor_route = [], ro_coverage_threshold = 0\<rparr>"

definition sample_packs :: "core_finding list \<Rightarrow> pack_runner list" where
  "sample_packs fs = [\<lambda>_ _. Inr (sample_artifact ''r1'' fs)]"

definition sample_run :: "core_finding list \<Rightarrow> int \<Rightarrow> engine_error + review_bundle" where
  "sample_run fs seen = Run (\<lambda>_. None) (\<lambda>_. Some ''{}'') (sample_packs fs) (Some (JudgeAdapter (\<lambda>s. s) (\<lambda>ks. ks)))
     (sample_input seen) sample_options"

lemma sample_run_Inr:
  "\<exists>b. sample_run [sample_finding ''leak'' ''low''] seen = Inr b
     \<and> rb_artifacts b = [sample_artifact ''r1'' [sample_finding ''leak'' ''low'']]" if "seen \<in> {3, 8}"
proof -
  have "(case sample_run [sample_finding ''leak'' ''low''] 3 of Inl _ \<Rightarrow> False | Inr b \<Rightarrow>
      rb_artifacts b = [sample_artifact ''r1'' [sample_finding ''leak'' ''low'']])"
    "(case sample_run [sample_finding ''leak'' ''low''] 8 of Inl _ \<Rightarrow> False | Inr b \<Rightarrow>
      rb_artifacts b = [sample_artifact ''r1'' [sample_finding ''leak'' ''low'']])"
    by code_simp+
  with that show ?thesis by (auto split: sum.splits)
qed



theorem coverage_incomplete_exact_witness:
  "\<exists>c. coverageSummaryFromInput (sample_input 7) 0 = Some c \<and> cs_incomplete c"
proof -
  obtain c where "coverageSummaryFromInput (sample_input 7) 0 = Some c"
    by (simp add: coverageSummaryFromInput_def sample_input_def Let_def)
  with coverage_incomplete_exact [OF this] show ?thesis by (simp add: sample_input_def)
qed

theorem Run_pass_sound_witness:
  "\<exists>b. sample_run [sample_finding ''leak'' ''low''] 8 = Inr b \<and> \<not> coverage_incomplete b"
proof -
  obtain b where b: "sample_run [sample_finding ''leak'' ''low''] 8 = Inr b"
    "rb_artifacts b = [sample_artifact ''r1'' [sample_finding ''leak'' ''low'']]"
    using sample_run_Inr by blast
  have "case sample_run [sample_finding ''leak'' ''low''] 8 of Inl _ \<Rightarrow> False | Inr b \<Rightarrow> rb_verdict b = ''pass''"
    by code_simp
  then have v: "rb_verdict b = ''pass''" by (simp add: b)
  have "\<forall>r \<in> set (reports [sample_artifact ''r1'' [sample_finding ''leak'' ''low'']]). clean_severity (cf_severity (snd r))"
    by code_simp
  then have c: "\<forall>r \<in> set (reports (rb_artifacts b)). clean_severity (cf_severity (snd r))" by (simp add: b)
  show ?thesis
    using b(1) Run_pass_sound [OF b(1) [unfolded sample_run_def] v permutes_keys_id c] by blast
qed

text \<open>Null platform metadata, a defect. a finding whose platform metadata is the JSON value
  \<^verbatim>\<open>null\<close> makes the decoder leave a nil map, and storing the base SHA in it panics: the whole run is
  lost.\<close>

theorem null_metadata_panics:
  "locationWithGitLabVersionMetadata (\<lambda>_. Some JNull) (\<lambda>_. Some ''{}'') (sample_input 8)
     (fi_location (cf_identity (sample_finding ''leak'' ''low''))\<lparr>cl_platform_metadata := ''null''\<rparr>) = Inl NilMapWrite"
  by code_simp

end
