(* ===== verification/Review_Input.thy ===== *)
theory Review_Input
  imports Rules Engine
begin

text \<open>
  The input of a review, \<^verbatim>\<open>internal/reviewinput/builder.go\<close> with the snapshot of \<^verbatim>\<open>internal/reviewcore/snapshot.go\<close>: the
  rules are loaded, the project policy gives the settings, earlier findings are read from the store, and the request is
  assembled. The record of the engine is extended by the fields only the builder and the packs use. Marshalling of
  requests and numbers, and the hash of a section, are parameters.
\<close>

subsection \<open>Data\<close>

record platform_author =
  pa_user_id :: string
  pa_username :: string
  pa_name :: string
  pa_email :: string

record platform_change =
  pch_platform_id :: string
  pch_project_id :: int
  pch_number :: int
  pch_title :: string
  pch_description :: string
  pch_state :: string
  pch_draft :: bool
  pch_source_branch :: string
  pch_target_branch :: string
  pch_head_sha :: string
  pch_web_url :: string
  pch_author :: platform_author

record platform_version =
  pv_platform_version_id :: string
  pv_base_sha :: string
  pv_start_sha :: string
  pv_head_sha :: string
  pv_patch_id_sha :: string

record platform_diff =
  pdf_old_path :: string
  pdf_new_path :: string
  pdf_diff :: string
  pdf_a_mode :: string
  pdf_b_mode :: string
  pdf_new_file :: bool
  pdf_renamed_file :: bool
  pdf_deleted_file :: bool
  pdf_generated_file :: bool
  pdf_collapsed :: bool
  pdf_too_large :: bool

record platform_commit =
  pcm_sha :: string
  pcm_title :: string
  pcm_message :: string
  pcm_author :: platform_author
  pcm_committer :: platform_author

record platform_snapshot =
  psn_target :: review_target
  psn_change :: platform_change
  psn_version :: platform_version
  psn_head_commit :: platform_commit
  psn_diffs :: "platform_diff list"

record review_input_section =
  sec_id :: string
  sec_kind :: string
  sec_cache_key :: string
  sec_volatile :: bool
  sec_content :: string

record built_input = review_input +
  ri_snapshot :: platform_snapshot
  ri_effective_policy :: effective_policy
  ri_warnings :: "string list"
  ri_metadata :: "(string \<times> string) list"
  ri_policy :: members
  ri_system_prompt :: string
  ri_request_payload :: string
  ri_context_text :: string
  ri_sections :: "review_input_section list"

record build_input =
  bi_snapshot :: platform_snapshot
  bi_project_default_branch :: string
  bi_project_policy :: "project_policy option"
  bi_merge_request_id :: int

text \<open>What the builder uses of other packages, beside the environment of the loader.\<close>

record build_env =
  be_load :: load_env
  be_retriever :: "(int \<Rightarrow> string \<Rightarrow> string list \<Rightarrow> related_file list option) option"
  be_has_store :: bool
  be_marshal :: "json \<Rightarrow> string"
  be_marshal_request :: "review_request \<Rightarrow> string option"
  be_marshal_context :: "string \<Rightarrow> review_request \<Rightarrow> string option"
  be_float_text :: "rat \<Rightarrow> string"
  be_hash :: "string \<Rightarrow> string"

subsection \<open>Parts of the input\<close>

definition instructionConfigPaths :: "string \<Rightarrow> string list" where
  "instructionConfigPaths platform =
     (if platform = ''github'' then [''.github/ai-review.yaml''] else [''.gitlab/ai-review.yaml''])"

definition legacy_diff :: "platform_diff \<Rightarrow> merge_request_diff" where
  "legacy_diff d = \<lparr>md_old_path = pdf_old_path d, md_new_path = pdf_new_path d, md_diff = pdf_diff d, md_a_mode = pdf_a_mode d,
     md_b_mode = pdf_b_mode d, md_new_file = pdf_new_file d, md_renamed_file = pdf_renamed_file d,
     md_deleted_file = pdf_deleted_file d, md_generated_file = pdf_generated_file d, md_collapsed = pdf_collapsed d,
     md_too_large = pdf_too_large d\<rparr>"

definition legacyDiffsFromSnapshot :: "platform_diff list \<Rightarrow> merge_request_diff list" where
  "legacyDiffsFromSnapshot ds = map legacy_diff ds"

definition non_empty :: "string \<Rightarrow> string \<Rightarrow> (string \<times> string) list" where
  "non_empty k v = (if v \<noteq> [] then [(k, v)] else [])"

definition snapshotMetadata :: "platform_snapshot \<Rightarrow> (string \<times> string) list" where
  "snapshotMetadata s =
     (if pch_project_id (psn_change s) \<noteq> 0 then [(''project_id'', itoa (pch_project_id (psn_change s)))] else [])
     @ non_empty ''patch_id_sha'' (pv_patch_id_sha (psn_version s))
     @ non_empty ''platform_change_id'' (pch_platform_id (psn_change s))
     @ non_empty ''platform_version_id'' (pv_platform_version_id (psn_version s))"

definition changed_paths :: "platform_diff list \<Rightarrow> string list" where
  "changed_paths ds = concat (map (\<lambda>d. if pdf_new_path d \<noteq> [] then [pdf_new_path d]
     else if pdf_old_path d \<noteq> [] then [pdf_old_path d] else []) ds)"

definition sectionCacheKey :: "(string \<Rightarrow> string) \<Rightarrow> string \<Rightarrow> string \<Rightarrow> bool \<Rightarrow> string" where
  "sectionCacheKey hash i content volatile =
     (if volatile then ''volatile'' else ''stable'') @ '':'' @ hash (i @ [CHR 0x00] @ content)"

definition input_section :: "(string \<Rightarrow> string) \<Rightarrow> string \<Rightarrow> string \<Rightarrow> string \<Rightarrow> bool \<Rightarrow> review_input_section" where
  "input_section hash i kind content volatile = \<lparr>sec_id = i, sec_kind = kind,
     sec_cache_key = sectionCacheKey hash i content volatile, sec_volatile = volatile, sec_content = content\<rparr>"

text \<open>Members of an object are written in the order of their keys.\<close>

definition target_json :: "review_target \<Rightarrow> platform_snapshot \<Rightarrow> json" where
  "target_json t s = JObject [(''base_sha'', JString (pv_base_sha (psn_version s))), (''head_sha'', JString (pv_head_sha (psn_version s))),
     (''number'', JNumber (itoa (rt_change_number t))), (''platform'', JString (rt_platform t)),
     (''repository'', JString (rt_repository t)), (''start_sha'', JString (pv_start_sha (psn_version s))), (''url'', JString (rt_url t))]"

definition metadata_json :: "(string \<times> string) list \<Rightarrow> json" where
  "metadata_json m = JObject (map (\<lambda>(k, v). (k, JString v)) (sort_key fst m))"

definition buildSections :: "build_env \<Rightarrow> platform_snapshot \<Rightarrow> (string \<times> string) list \<Rightarrow> members \<Rightarrow> string \<Rightarrow> string \<Rightarrow> string \<Rightarrow>
    review_input_section list" where
  "buildSections env snapshot metadata policy systemPrompt requestPayload contextText =
     filter (\<lambda>x. sec_content x \<noteq> [] \<and> sec_content x \<noteq> ''null'' \<and> sec_content x \<noteq> [CHR 0x7B, CHR 0x7D])
       [input_section (be_hash env) ''target'' ''platform_target'' (be_marshal env (target_json (psn_target snapshot) snapshot)) True,
        input_section (be_hash env) ''policy'' ''review_policy'' (be_marshal env (JObject policy)) False,
        input_section (be_hash env) ''system_prompt'' ''system_prompt'' systemPrompt False,
        input_section (be_hash env) ''request_payload'' ''assembled_request'' requestPayload True,
        input_section (be_hash env) ''platform_metadata'' ''platform_metadata'' (be_marshal env (metadata_json metadata)) True,
        input_section (be_hash env) ''assembled_context'' ''assembled_context'' contextText True]"

subsection \<open>Build\<close>

definition rules_input :: "build_input \<Rightarrow> load_input" where
  "rules_input b = (let s = bi_snapshot b in
     \<lparr>li_project_id = pch_project_id (psn_change s), li_repository_ref = rt_repository (psn_target s),
      li_head_sha = pv_head_sha (psn_version s), li_base_sha = pv_base_sha (psn_version s), li_config_ref = [],
      li_group_policy = None, li_project_policy = bi_project_policy b, li_changed_paths = changed_paths (psn_diffs s),
      li_instruction_config_paths = instructionConfigPaths (rt_platform (psn_target s)), li_untrusted_contents = []\<rparr>)"

definition assembler_input :: "build_input \<Rightarrow> trusted_rules \<Rightarrow> policy_settings \<Rightarrow> historical_finding list \<Rightarrow> assemble_input" where
  "assembler_input b rules settings historical = (let s = bi_snapshot b in
     \<lparr>ai_review_run_id = 0,
      ai_project = \<lparr>pjc_project_id = pch_project_id (psn_change s), pjc_full_path = rt_repository (psn_target s),
        pjc_default_branch = bi_project_default_branch b\<rparr>,
      ai_merge_request = \<lparr>mc_iid = pch_number (psn_change s), mc_title = pch_title (psn_change s),
        mc_description = pch_description (psn_change s), mc_author = pa_username (pch_author (psn_change s))\<rparr>,
      ai_version = \<lparr>vc_base_sha = pv_base_sha (psn_version s), vc_start_sha = pv_start_sha (psn_version s),
        vc_head_sha = pv_head_sha (psn_version s), vc_patch_id_sha = pv_patch_id_sha (psn_version s)\<rparr>,
      ai_rules = rules, ai_settings = settings, ai_diffs = legacyDiffsFromSnapshot (psn_diffs s),
      ai_historical_context = historical,
      ai_incremental_state = \<lparr>is_previous_head_sha = [], is_previous_reviewed_paths = [], is_is_incremental = False\<rparr>\<rparr>)"

definition input_metadata :: "platform_snapshot \<Rightarrow> load_result \<Rightarrow> (string \<times> string) list" where
  "input_metadata s r = snapshotMetadata s
     @ non_empty ''provider_route'' (ep_provider_route (lr_effective_policy r))
     @ non_empty ''output_language'' (ep_output_language (lr_effective_policy r))
     @ non_empty ''rules_digest'' (tr_rules_digest (lr_trusted r))"

definition policy_members :: "(rat \<Rightarrow> string) \<Rightarrow> effective_policy \<Rightarrow> members" where
  "policy_members float_text e = [(''confidence_threshold'', JNumber (float_text (ep_confidence_threshold e))),
     (''gate_mode'', JString (ep_gate_mode e)), (''output_language'', JString (ep_output_language e)),
     (''provider_route'', JString (ep_provider_route e)), (''severity_threshold'', JString (ep_severity_threshold e))]"

definition built :: "build_env \<Rightarrow> build_input \<Rightarrow> load_result \<Rightarrow> assembly_result \<Rightarrow> string \<Rightarrow> string \<Rightarrow> built_input" where
  "built env b r a payload ctext =
     (let s = bi_snapshot b; metadata = input_metadata s r; policy = policy_members (be_float_text env) (lr_effective_policy r)
      in \<lparr>ri_target = psn_target s, ri_request = ar_request a, ri_coverage = ar_coverage a, ri_snapshot = s,
          ri_effective_policy = lr_effective_policy r, ri_warnings = lr_warnings r, ri_metadata = metadata, ri_policy = policy,
          ri_system_prompt = lr_system_prompt r, ri_request_payload = payload, ri_context_text = ctext,
          ri_sections = buildSections env s metadata policy (lr_system_prompt r) payload ctext\<rparr>)"

definition Build :: "build_env \<Rightarrow> file_reader option \<Rightarrow> platform_defaults \<Rightarrow> build_input \<Rightarrow> built_input dbm" where
  "Build env files platform b =
     (case Load (be_load env) files platform (rules_input b) of
        Inl e \<Rightarrow> throw (ErrMsg ''reviewinput: load rules'')
      | Inr r \<Rightarrow>
          (case SettingsFromPolicy (le_decode (be_load env)) (bi_project_policy b) of
             None \<Rightarrow> throw (ErrMsg ''reviewinput: policy settings'')
           | Some settings \<Rightarrow>
               bindM (if be_has_store env then LoadHistoricalContext (bi_merge_request_id b) else ret []) (\<lambda>historical.
                 case Assemble (be_retriever env) (assembler_input b (lr_trusted r) settings historical) of
                   Inl e \<Rightarrow> throw (ErrMsg ''reviewinput: assemble request'')
                 | Inr a \<Rightarrow>
                     (case (be_marshal_request env (ar_request a), be_marshal_context env (lr_system_prompt r) (ar_request a)) of
                        (Some payload, Some ctext) \<Rightarrow> ret (built env b r a payload ctext)
                      | (None, _) \<Rightarrow> throw (ErrMsg ''reviewinput: encode request payload'')
                      | _ \<Rightarrow> throw (ErrMsg ''reviewinput: encode context'')))))"

subsection \<open>What is built\<close>

lemma Build_cases:
  assumes "Build env files platform b s = (Inr x, t)"
  obtains r settings historical a payload ctext where
    "Load (be_load env) files platform (rules_input b) = Inr r"
    "SettingsFromPolicy (le_decode (be_load env)) (bi_project_policy b) = Some settings"
    "(if be_has_store env then LoadHistoricalContext (bi_merge_request_id b) else ret []) s = (Inr historical, t)"
    "Assemble (be_retriever env) (assembler_input b (lr_trusted r) settings historical) = Inr a"
    "x = built env b r a payload ctext"
proof -
  from assms obtain r settings where r: "Load (be_load env) files platform (rules_input b) = Inr r"
    "SettingsFromPolicy (le_decode (be_load env)) (bi_project_policy b) = Some settings"
    by (auto simp: Build_def throw_def split: sum.splits option.splits)
  with assms obtain historical t' where h:
    "(if be_has_store env then LoadHistoricalContext (bi_merge_request_id b) else ret []) s = (Inr historical, t')"
    "(case Assemble (be_retriever env) (assembler_input b (lr_trusted r) settings historical) of
       Inl e \<Rightarrow> throw (ErrMsg ''reviewinput: assemble request'')
     | Inr a \<Rightarrow>
         (case (be_marshal_request env (ar_request a), be_marshal_context env (lr_system_prompt r) (ar_request a)) of
            (Some payload, Some ctext) \<Rightarrow> ret (built env b r a payload ctext)
          | (None, _) \<Rightarrow> throw (ErrMsg ''reviewinput: encode request payload'')
          | _ \<Rightarrow> throw (ErrMsg ''reviewinput: encode context''))) t' = (Inr x, t)"
    by (auto simp: Build_def elim: bindM_elim)
  from h(2) obtain a payload ctext where "Assemble (be_retriever env) (assembler_input b (lr_trusted r) settings historical) = Inr a"
    "x = built env b r a payload ctext" "t' = t"
    by (auto simp: throw_def ret_def split: sum.splits option.splits)
  with r h(1) that show ?thesis by blast
qed

lemma built_parts [simp]:
  "ri_target (built env b r a payload ctext) = psn_target (bi_snapshot b)"
  "ri_request (built env b r a payload ctext) = ar_request a"
  "ri_coverage (built env b r a payload ctext) = ar_coverage a"
  "ri_effective_policy (built env b r a payload ctext) = lr_effective_policy r"
  by (simp_all add: built_def Let_def)

lemma assembler_input_diffs [simp]:
  "ai_diffs (assembler_input b rules settings historical) = legacyDiffsFromSnapshot (psn_diffs (bi_snapshot b))"
  "ai_rules (assembler_input b rules settings historical) = rules"
  "ai_settings (assembler_input b rules settings historical) = settings"
  by (simp_all add: assembler_input_def Let_def)

lemma built_coverage:
  assumes "Build env files platform b s = (Inr x, t)"
  shows "cr_total_changed_lines (ri_coverage x) = all_changed_lines (legacyDiffsFromSnapshot (psn_diffs (bi_snapshot b)))
    \<and> cr_reviewed_changed_lines (ri_coverage x) = covered (rvq_changes (ri_request x))
    \<and> 0 \<le> covered (rvq_changes (ri_request x)) \<and> covered (rvq_changes (ri_request x)) \<le> cr_total_changed_lines (ri_coverage x)"
proof -
  from assms obtain r settings historical a payload ctext where
    a: "Assemble (be_retriever env) (assembler_input b (lr_trusted r) settings historical) = Inr a"
    and x: "x = built env b r a payload ctext" by (rule Build_cases)
  have "0 \<le> covered (rvq_changes (ar_request a))"
    by (rule covered_nonneg [of "\<lambda>c. ch_hunks c \<noteq> []"]) (use Assemble_limits [OF a] in simp)
  with Assemble_accounts [OF a] skipped_total_nonneg [OF a] show ?thesis unfolding x by simp
qed

text \<open>C4 (a pass was reviewed). When the engine lets the input built for a change pass under the default threshold,
  at least four fifths of all changed lines of the change, in whatever files and however excluded, were shown to the
  reviewers.\<close>

theorem pass_means_reviewed:
  assumes "Build env files platform b s = (Inr x, t)"
    and "Run decode marshal packs (Some decide) (review_input.truncate x) opts = Inr bundle"
    and "passing (rb_verdict bundle)" and "ro_coverage_threshold opts \<le> 0"
    and "all_changed_lines (legacyDiffsFromSnapshot (psn_diffs (bi_snapshot b))) < 2 ^ 45"
  shows "4 * all_changed_lines (legacyDiffsFromSnapshot (psn_diffs (bi_snapshot b))) \<le> 5 * covered (rvq_changes (ri_request x))"
proof -
  define n where "n = all_changed_lines (legacyDiffsFromSnapshot (psn_diffs (bi_snapshot b)))"
  define k where "k = covered (rvq_changes (ri_request x))"
  have c: "cr_total_changed_lines (ri_coverage x) = n" "cr_reviewed_changed_lines (ri_coverage x) = k" "0 \<le> k" "k \<le> n"
    using built_coverage [OF assms(1)] by (simp_all add: n_def k_def)
  have cov: "rb_coverage bundle = coverageSummaryFromInput (review_input.truncate x) (ro_coverage_threshold opts)"
    and "\<not> coverage_incomplete bundle"
    using assms(2,3) by (auto elim!: Run_InrE simp: incomplete_not_passing split: if_splits)
  then have "n > 0 \<Longrightarrow> \<not> fdiv (float_of_int k) (float_of_int n) < DefaultCoverageThreshold"
    using c assms(4) by (auto simp: coverage_incomplete_def coverageSummaryFromInput_def review_input.defs Let_def split: if_splits)
  then show ?thesis
    using c fdiv_default_threshold [of k n] assms(5) by (cases "n > 0") (simp_all flip: n_def k_def)
qed

subsection \<open>Rules reach the request as texts only\<close>

text \<open>Giving an assembled request other rules: every change gets the text the rules have for its path.\<close>

definition set_rules :: "trusted_rules \<Rightarrow> assembly_result \<Rightarrow> assembly_result" where
  "set_rules u r = r\<lparr>ar_request := (ar_request r)\<lparr>rvq_rules := u,
     rvq_changes := map (\<lambda>c. c\<lparr>ch_review := ReviewForPath u (ch_path c)\<rparr>) (rvq_changes (ar_request r))\<rparr>\<rparr>"

lemma add_hunks_review:
  "add_hunks st hs (c\<lparr>ch_review := v\<rparr>, used, tr) = (case add_hunks st hs (c, used, tr) of (c', x) \<Rightarrow> (c'\<lparr>ch_review := v\<rparr>, x))"
proof (induction hs arbitrary: c used tr)
  case (Cons h hs)
  have swap: "c\<lparr>ch_review := v, ch_truncated := a, ch_hunks := b, ch_changed_lines := n\<rparr> = c\<lparr>ch_truncated := a, ch_hunks := b, ch_changed_lines := n, ch_review := v\<rparr>"
    for a b n by simp
  show ?case by (simp add: Let_def Cons swap)
qed simp

lemma add_hunks_path: "add_hunks st hs (c, used, tr) = (c', x) \<Longrightarrow> ch_path c' = ch_path c"
  by (induction hs arbitrary: c used tr) (fastforce simp: Let_def split: if_splits)+

lemma new_change_rules:
  "new_change (i\<lparr>ai_rules := u\<rparr>) d = (new_change i d)\<lparr>ch_review := ReviewForPath u (changePath d)\<rparr>" "ch_path (new_change i d) = changePath d"
  by (simp_all add: new_change_def Let_def)

lemma set_rules_updates:
  "count_file d (set_rules u r) = set_rules u (count_file d r)"
  "exclude_file p x (set_rules u r) = set_rules u (exclude_file p x r)"
  "skip_scope p x n (set_rules u r) = set_rules u (skip_scope p x n r)"
  "(set_rules u r)\<lparr>ar_truncated := b\<rparr> = set_rules u (r\<lparr>ar_truncated := b\<rparr>)"
  "(set_rules u r)\<lparr>ar_mode := m\<rparr> = set_rules u (r\<lparr>ar_mode := m\<rparr>)"
  "(set_rules u r)\<lparr>ar_total_changed_lines := k\<rparr> = set_rules u (r\<lparr>ar_total_changed_lines := k\<rparr>)"
  "add_change (c\<lparr>ch_review := ReviewForPath u (ch_path c)\<rparr>) n (set_rules u r) = set_rules u (add_change c n r)"
  "finish_coverage (set_rules u r) = set_rules u (finish_coverage r)"
  by (simp_all add: set_rules_def count_file_def exclude_file_def skip_scope_def add_change_def finish_coverage_def
      final_mode_def summarizeCoverage_def Let_def)

lemma set_rules_fields [simp]:
  "length (rvq_changes (ar_request (set_rules u r))) = length (rvq_changes (ar_request r))"
  "ar_total_changed_lines (set_rules u r) = ar_total_changed_lines r" "ar_truncated (set_rules u r) = ar_truncated r"
  "ar_coverage (set_rules u r) = ar_coverage r"
  by (simp_all add: set_rules_def)

lemma assemble_file_rules:
  "assemble_file st (i\<lparr>ai_rules := u\<rparr>) d (set_rules u r) = map_sum id (set_rules u) (assemble_file st i d r)"
proof (cases "parseHunks (md_diff d)")
  case (Inl line)
  then show ?thesis by (simp add: assemble_file_def Let_def set_rules_updates)
next
  case (Inr hs)
  show ?thesis
  proof (cases hs)
    case Nil
    with Inr show ?thesis by (simp add: assemble_file_def Let_def set_rules_updates)
  next
    case (Cons h hs')
    obtain c used tr where a: "add_hunks st (h # hs') (new_change i d, ar_total_changed_lines (count_file d r), ar_truncated (count_file d r)) = (c, used, tr)"
      by (metis prod_cases3)
    have p: "ch_path c = changePath d" using add_hunks_path [OF a] by (simp add: new_change_rules)
    have f: "ar_total_changed_lines (count_file d r) = ar_total_changed_lines r" "ar_truncated (count_file d r) = ar_truncated r"
      by (simp_all add: count_file_def)
    have "add_hunks st (h # hs') (new_change (i\<lparr>ai_rules := u\<rparr>) d, ar_total_changed_lines r, ar_truncated r)
        = (c\<lparr>ch_review := ReviewForPath u (ch_path c)\<rparr>, used, tr)"
      unfolding new_change_rules add_hunks_review using a by (simp only: f p prod.case)
    with Inr Cons a show ?thesis
      by (simp only: assemble_file_def Let_def set_rules_updates set_rules_fields f prod.case sum.case list.case) (simp add: set_rules_updates)
  qed
qed

lemma assemble_files_rules:
  "assemble_files st (i\<lparr>ai_rules := u\<rparr>) ds (set_rules u r) = map_sum id (set_rules u) (assemble_files st i ds r)"
proof (induction ds arbitrary: r)
  case (Cons d ds)
  then show ?case by (cases "assemble_file st i d r") (simp_all add: assemble_file_rules)
qed simp

lemma retrieve_related_rules: "retrieve_related f (i\<lparr>ai_rules := u\<rparr>) (set_rules u r) = set_rules u (retrieve_related f i r)"
  by (auto simp: retrieve_related_def set_rules_def enrichChangesWithRelatedFiles_def comp_def split: option.split)

lemma Assemble_rules: "Assemble f (i\<lparr>ai_rules := u\<rparr>) = map_sum id (set_rules u) (Assemble f i)"
proof -
  have start: "start_result (i\<lparr>ai_rules := u\<rparr>) sz = set_rules u (start_result i sz)" for sz
    by (simp add: start_result_def set_rules_def)
  have step: "(case assemble_files st (i\<lparr>ai_rules := u\<rparr>) ds (set_rules u (start_result i sz)) of
        Inl e \<Rightarrow> Inl e | Inr r \<Rightarrow> Inr (finish_coverage (retrieve_related f (i\<lparr>ai_rules := u\<rparr>) r)))
    = map_sum id (set_rules u) (case assemble_files st i ds (start_result i sz) of
        Inl e \<Rightarrow> Inl e | Inr r \<Rightarrow> Inr (finish_coverage (retrieve_related f i r)))" for st ds sz
    unfolding assemble_files_rules
    by (cases "assemble_files st i ds (start_result i sz)") (simp_all add: retrieve_related_rules set_rules_updates)
  show ?thesis by (cases "prepareSettings (ai_settings i)") (simp_all add: Assemble_def Let_def start step)
qed

text \<open>So a request carries the text of its rules on every change.\<close>

lemma Assemble_reviews:
  assumes "Assemble f i = Inr a"
  shows "list_all (\<lambda>c. ch_review c = ReviewForPath (ai_rules i) (ch_path c)) (rvq_changes (ar_request a))"
proof -
  define put where "put c = c\<lparr>ch_review := ReviewForPath (ai_rules i) (ch_path c)\<rparr>" for c :: change
  have "set_rules (ai_rules i) a = a" using Assemble_rules [where f = f and i = i and u = "ai_rules i"] assms by simp
  then have "rvq_changes (ar_request a) = rvq_changes (ar_request (set_rules (ai_rules i) a))" by simp
  also have "\<dots> = map put (rvq_changes (ar_request a))" by (simp add: set_rules_def put_def)
  finally have "map put (rvq_changes (ar_request a)) = map id (rvq_changes (ar_request a))" by simp
  then have "put c = c" if "c \<in> set (rvq_changes (ar_request a))" for c using that by (simp only: map_eq_conv) simp
  moreover have "ch_review (put c) = ReviewForPath (ai_rules i) (ch_path c)" for c by (simp add: put_def)
  ultimately have "ch_review c = ReviewForPath (ai_rules i) (ch_path c)" if "c \<in> set (rvq_changes (ar_request a))" for c
    using that by metis
  then show ?thesis by (simp add: list_all_iff)
qed

text \<open>C23 (the limits of the effective policy are not used). The request and its coverage depend on the loaded rules
  through the texts of the instructions only. The limits and path lists of the effective policy, those of the platform and of the
  configuration file of the repository, decide nothing: with other platform defaults and another repository the same
  files, hunks and lines are shown, and the coverage is the same.\<close>

theorem effective_limits_unused:
  assumes "Build env files platform b s = (Inr x, t)" and "Build env files' platform' b s = (Inr x', t')"
  shows "ri_coverage x' = ri_coverage x
    \<and> map (\<lambda>c. c\<lparr>ch_review := []\<rparr>) (rvq_changes (ri_request x')) = map (\<lambda>c. c\<lparr>ch_review := []\<rparr>) (rvq_changes (ri_request x))"
proof -
  from assms(1) obtain r settings h a payload ctext where
    1: "SettingsFromPolicy (le_decode (be_load env)) (bi_project_policy b) = Some settings"
    "(if be_has_store env then LoadHistoricalContext (bi_merge_request_id b) else ret []) s = (Inr h, t)"
    "Assemble (be_retriever env) (assembler_input b (lr_trusted r) settings h) = Inr a" "x = built env b r a payload ctext"
    by (rule Build_cases)
  from assms(2) obtain r' settings' h' a' payload' ctext' where
    2: "SettingsFromPolicy (le_decode (be_load env)) (bi_project_policy b) = Some settings'"
    "(if be_has_store env then LoadHistoricalContext (bi_merge_request_id b) else ret []) s = (Inr h', t')"
    "Assemble (be_retriever env) (assembler_input b (lr_trusted r') settings' h') = Inr a'" "x' = built env b r' a' payload' ctext'"
    by (rule Build_cases)
  have eq: "settings' = settings" "h' = h" using 1(1,2) 2(1,2) by simp_all
  have "assembler_input b (lr_trusted r') settings h = (assembler_input b (lr_trusted r) settings h)\<lparr>ai_rules := lr_trusted r'\<rparr>"
    by (simp add: assembler_input_def Let_def)
  then have "a' = set_rules (lr_trusted r') a" using 2(3) 1(3) unfolding eq by (simp add: Assemble_rules)
  then show ?thesis unfolding 1(4) 2(4) by (simp add: set_rules_def)
qed

subsection \<open>Instructions of the shown files\<close>

lemma assemble_file_paths:
  assumes "assemble_file st i d r = Inr r'"
  shows "set (map ch_path (rvq_changes (ar_request r'))) \<subseteq> set (map ch_path (rvq_changes (ar_request r))) \<union> ({changePath d} - {[]})"
proof -
  have keep: "rvq_changes (ar_request (exclude_file p e q)) = rvq_changes (ar_request q)" "rvq_changes (ar_request (skip_scope p e n q)) = rvq_changes (ar_request q)"
    "rvq_changes (ar_request (count_file d q)) = rvq_changes (ar_request q)"
    "rvq_changes (ar_request (add_change c n q)) = rvq_changes (ar_request q) @ [c]" for p e n q c
    by (simp_all add: exclude_file_def skip_scope_def count_file_def add_change_def Let_def)
  show ?thesis using assms
    by (auto simp: assemble_file_def Let_def keep new_change_rules dest!: add_hunks_path split: if_splits sum.splits list.splits prod.splits)
qed

lemma assemble_files_paths:
  "assemble_files st i ds r = Inr r' \<Longrightarrow>
     set (map ch_path (rvq_changes (ar_request r'))) \<subseteq> set (map ch_path (rvq_changes (ar_request r))) \<union> (set (map changePath ds) - {[]})"
proof (induction ds arbitrary: r)
  case (Cons d ds)
  then obtain q where q: "assemble_file st i d r = Inr q" "assemble_files st i ds q = Inr r'" by (auto split: sum.splits)
  show ?case using assemble_file_paths [OF q(1)] Cons.IH [OF q(2)] unfolding list.map list.set(2) by blast
qed simp

lemma Assemble_paths:
  assumes "Assemble f i = Inr a"
  shows "set (map ch_path (rvq_changes (ar_request a))) \<subseteq> set (map changePath (ai_diffs i)) - {[]}"
proof -
  from assms obtain st ds sz r where m: "mset ds = mset (ai_diffs i)" and f: "assemble_files st i ds (start_result i sz) = Inr r"
    and a: "a = finish_coverage (retrieve_related f i r)" by (rule Assemble_parts)
  have "map ch_path (rvq_changes (ar_request a)) = map ch_path (rvq_changes (ar_request r))"
    using changes_retrieve(1) [of f i r] finish_fields(1) [of "retrieve_related f i r"] by (simp add: changes_of_def a)
  moreover have "set (map changePath ds) = set (map changePath (ai_diffs i))" using mset_eq_setD [OF m] by simp
  ultimately show ?thesis using assemble_files_paths [OF f] by (simp add: start_result_def)
qed

definition plain_path :: "string \<Rightarrow> bool" where
  "plain_path p \<longleftrightarrow> context_normalizePath p = p"

text \<open>Instructions of a shown file. Every file of a built request carries the text of the nearest directory above it,
  at the head of the change, whose REVIEW.md can be read and is not blank, else that of the root, provided the platform
  reports paths in their normal form.\<close>

theorem change_carries_nearest_review:
  assumes "Build env files platform b s = (Inr x, t)" and "canFetchFiles files (rules_input b)"
    and "list_all (\<lambda>d. plain_path (pdf_new_path d) \<and> plain_path (pdf_old_path d)) (psn_diffs (bi_snapshot b))"
  shows "list_all (\<lambda>c. ch_review c =
    (case nearest_review (\<lambda>p. loadRepositoryFile files (rules_input b) p (li_head_sha (rules_input b))) (ancestors (ch_path c)) of
       Some body \<Rightarrow> body
     | None \<Rightarrow> (case loadRepositoryFile files (rules_input b) ''REVIEW.md'' (li_head_sha (rules_input b)) of Inr body \<Rightarrow> body | Inl _ \<Rightarrow> [])))
    (rvq_changes (ri_request x))"
proof -
  from assms(1) obtain r settings h a payload ctext where
    l: "Load (be_load env) files platform (rules_input b) = Inr r"
    and a: "Assemble (be_retriever env) (assembler_input b (lr_trusted r) settings h) = Inr a" and x: "x = built env b r a payload ctext"
    by (rule Build_cases)
  have known: "ch_path c \<in> set (li_changed_paths (rules_input b)) \<and> plain_path (ch_path c)" if "c \<in> set (rvq_changes (ar_request a))" for c
  proof -
    have "ch_path c \<in> set (map changePath (legacyDiffsFromSnapshot (psn_diffs (bi_snapshot b)))) - {[]}"
      using Assemble_paths [OF a] that by auto
    then obtain d where d: "d \<in> set (psn_diffs (bi_snapshot b))" "ch_path c = changePath (legacy_diff d)" "ch_path c \<noteq> []"
      by (auto simp: legacyDiffsFromSnapshot_def)
    have "plain_path (pdf_new_path d)" "plain_path (pdf_old_path d)" using assms(3) d(1) by (auto simp: list_all_iff)
    with d show ?thesis
      by (auto simp: changePath_def legacy_diff_def plain_path_def rules_input_def changed_paths_def Let_def split: if_splits)
  qed
  have "ch_review c = (case nearest_review (\<lambda>p. loadRepositoryFile files (rules_input b) p (li_head_sha (rules_input b))) (ancestors (ch_path c)) of
       Some body \<Rightarrow> body
     | None \<Rightarrow> (case loadRepositoryFile files (rules_input b) ''REVIEW.md'' (li_head_sha (rules_input b)) of Inr body \<Rightarrow> body | Inl _ \<Rightarrow> []))"
    if c: "c \<in> set (rvq_changes (ar_request a))" for c
    using Assemble_reviews [OF a] c Load_review_of_path [OF l assms(2) conjunct1 [OF known [OF c]]] conjunct2 [OF known [OF c]]
    by (simp add: list_all_iff plain_path_def)
  then show ?thesis by (simp add: x list_all_iff)
qed

subsection \<open>Examples\<close>

definition sample_change :: platform_change where
  "sample_change = \<lparr>pch_platform_id = [], pch_project_id = 3, pch_number = 7, pch_title = ''t'', pch_description = [], pch_state = [],
     pch_draft = False, pch_source_branch = [], pch_target_branch = [], pch_head_sha = ''h1'', pch_web_url = [],
     pch_author = \<lparr>pa_user_id = [], pa_username = ''u'', pa_name = [], pa_email = []\<rparr>\<rparr>"

definition sample_platform_diff :: "string \<Rightarrow> platform_diff" where
  "sample_platform_diff path = \<lparr>pdf_old_path = path, pdf_new_path = path, pdf_diff = Assembler.sample_text, pdf_a_mode = [], pdf_b_mode = [],
     pdf_new_file = False, pdf_renamed_file = False, pdf_deleted_file = False, pdf_generated_file = False, pdf_collapsed = False,
     pdf_too_large = False\<rparr>"

definition sample_snapshot :: platform_snapshot where
  "sample_snapshot = \<lparr>psn_target = \<lparr>rt_platform = ''gitlab'', rt_url = [], rt_repository = ''g/p'', rt_project_id = 3, rt_change_number = 7,
       rt_base_url = []\<rparr>, psn_change = sample_change,
     psn_version = \<lparr>pv_platform_version_id = [], pv_base_sha = ''b1'', pv_start_sha = ''b1'', pv_head_sha = ''h1'', pv_patch_id_sha = []\<rparr>,
     psn_head_commit = \<lparr>pcm_sha = ''h1'', pcm_title = [], pcm_message = [], pcm_author = pch_author sample_change, pcm_committer = pch_author sample_change\<rparr>,
     psn_diffs = [sample_platform_diff ''a/b/x.go'']\<rparr>"

definition sample_build :: build_input where
  "sample_build = \<lparr>bi_snapshot = sample_snapshot, bi_project_default_branch = ''main'', bi_project_policy = None, bi_merge_request_id = 1\<rparr>"

definition sample_build_env :: build_env where
  "sample_build_env = \<lparr>be_load = sample_env, be_retriever = None, be_has_store = False, be_marshal = (\<lambda>_. []), be_marshal_request = (\<lambda>_. Some []),
     be_marshal_context = (\<lambda>_ _. Some []), be_float_text = (\<lambda>_. []), be_hash = (\<lambda>_. [])\<rparr>"

definition approve :: "reviewer_artifact list \<Rightarrow> core_decision" where
  "approve _ = \<lparr>cd_verdict = ''pass'', cd_merged_findings = [], cd_summary = []\<rparr>"

lemma sample_build_passes:
  "case fst (Build sample_build_env None sample_platform sample_build empty_db) of
     Inl _ \<Rightarrow> False
   | Inr x \<Rightarrow> (case Run (\<lambda>_. None) (\<lambda>_. None) [] (Some approve) (review_input.truncate x) sample_options of
       Inl _ \<Rightarrow> False | Inr bundle \<Rightarrow> rb_verdict bundle = ''pass'' \<and> covered (rvq_changes (ri_request x)) = 3)"
  by code_simp

theorem pass_means_reviewed_witness:
  "\<exists>x. fst (Build sample_build_env None sample_platform sample_build empty_db) = Inr x
     \<and> 4 * all_changed_lines (legacyDiffsFromSnapshot (psn_diffs sample_snapshot)) \<le> 5 * covered (rvq_changes (ri_request x))"
proof -
  let ?b = "Build sample_build_env None sample_platform sample_build empty_db"
  obtain x where x1: "fst ?b = Inr x" using sample_build_passes by (cases "fst ?b") simp_all
  then have x: "?b = (Inr x, snd ?b)" by (metis prod.collapse)
  obtain bd where r: "Run (\<lambda>_. None) (\<lambda>_. None) [] (Some approve) (review_input.truncate x) sample_options = Inr bd" "rb_verdict bd = ''pass''"
    using sample_build_passes unfolding x1
    by (cases "Run (\<lambda>_. None) (\<lambda>_. None) [] (Some approve) (review_input.truncate x) sample_options") simp_all
  have p: "passing (rb_verdict bd)" unfolding r(2) by code_simp
  have t: "ro_coverage_threshold sample_options \<le> 0" by code_simp
  have n: "all_changed_lines (legacyDiffsFromSnapshot (psn_diffs (bi_snapshot sample_build))) < 2 ^ 45" by code_simp
  have "bi_snapshot sample_build = sample_snapshot" by (simp add: sample_build_def)
  with pass_means_reviewed [OF x r(1) p t n] x1 show ?thesis by auto
qed

definition closed_platform :: platform_defaults where
  "closed_platform = sample_platform\<lparr>pd_exclude_paths := [''**'']\<rparr>"

lemma closed_platform_builds: "\<not> isl (fst (Build sample_build_env None closed_platform sample_build empty_db))"
  by code_simp

theorem effective_limits_unused_witness:
  "\<exists>x x'. fst (Build sample_build_env None sample_platform sample_build empty_db) = Inr x
     \<and> fst (Build sample_build_env None closed_platform sample_build empty_db) = Inr x' \<and> ri_coverage x' = ri_coverage x"
proof -
  let ?b = "Build sample_build_env None sample_platform sample_build empty_db"
  let ?c = "Build sample_build_env None closed_platform sample_build empty_db"
  obtain x where x: "fst ?b = Inr x" using sample_build_passes by (cases "fst ?b") simp_all
  obtain x' where x': "fst ?c = Inr x'" using closed_platform_builds by (cases "fst ?c") simp_all
  have "?b = (Inr x, snd ?b)" "?c = (Inr x', snd ?c)" using x x' by (metis prod.collapse)+
  then show ?thesis using x x' effective_limits_unused by blast
qed

definition nearest_of_sample :: "string \<Rightarrow> string" where
  "nearest_of_sample path =
     (case nearest_review (\<lambda>p. loadRepositoryFile (Some (sample_files ''strict'')) (rules_input sample_build) p (li_head_sha (rules_input sample_build)))
         (ancestors path) of
       Some body \<Rightarrow> body
     | None \<Rightarrow> (case loadRepositoryFile (Some (sample_files ''strict'')) (rules_input sample_build) ''REVIEW.md'' (li_head_sha (rules_input sample_build)) of
         Inr body \<Rightarrow> body | Inl _ \<Rightarrow> []))"

lemma sample_build_paths:
  "map_sum id (\<lambda>x. map ch_path (rvq_changes (ri_request x)))
     (fst (Build sample_build_env (Some (sample_files ''strict'')) sample_platform sample_build empty_db)) = Inr [''a/b/x.go'']"
  by code_simp

theorem change_carries_nearest_review_witness:
  "\<exists>x. fst (Build sample_build_env (Some (sample_files ''strict'')) sample_platform sample_build empty_db) = Inr x
     \<and> map ch_review (rvq_changes (ri_request x)) = [''rules of a'']"
proof -
  let ?b = "Build sample_build_env (Some (sample_files ''strict'')) sample_platform sample_build empty_db"
  obtain x where x: "fst ?b = Inr x" and p: "map ch_path (rvq_changes (ri_request x)) = [''a/b/x.go'']"
    using sample_build_paths by (cases "fst ?b") simp_all
  have 1: "?b = (Inr x, snd ?b)" using x by (metis prod.collapse)
  have 2: "canFetchFiles (Some (sample_files ''strict'')) (rules_input sample_build)" by code_simp
  have 3: "list_all (\<lambda>d. plain_path (pdf_new_path d) \<and> plain_path (pdf_old_path d)) (psn_diffs (bi_snapshot sample_build))" by code_simp
  have v: "nearest_of_sample ''a/b/x.go'' = ''rules of a''" by code_simp
  from p obtain c where c: "rvq_changes (ri_request x) = [c]" "ch_path c = ''a/b/x.go''" by auto
  have "ch_review c = nearest_of_sample (ch_path c)"
    using change_carries_nearest_review [OF 1 2 3] unfolding nearest_of_sample_def c(1) by simp
  with x c v show ?thesis by simp
qed

end
