(* ===== verification/Identity_Mappings.thy ===== *)
theory Identity_Mappings
  imports "HOL-Library.Sublist" Db_Entities Review_Input
begin

text \<open>
  Which platform user stands behind a commit author: the statements of \<^verbatim>\<open>internal/db/sqlitedb/identity_mappings.go\<close> and the
  observations a run makes, \<^verbatim>\<open>persistIdentityMappingsFromInput\<close> of \<^verbatim>\<open>internal/reviewrun/engine_processor.go\<close>. A mapping is keyed
  by platform, project and git identity; an operator may resolve it by hand, and no later observation touches that
  resolution.
\<close>

subsection \<open>Statements\<close>

record identity_params =
  ip_platform :: string
  ip_project_path :: string
  ip_git_identity_key :: string
  ip_git_email :: string
  ip_git_name :: string
  ip_observed_role :: string
  ip_platform_username :: string
  ip_platform_user_id :: string
  ip_head_sha :: string
  ip_confidence :: rat
  ip_source :: string
  ip_status :: string
  ip_last_seen_run_id :: "int option"

type_synonym identity = "string \<times> string \<times> string"

definition im_key :: "identity_mapping \<Rightarrow> identity" where
  "im_key r = (im_platform r, im_project_path r, im_git_identity_key r)"

definition ip_key :: "identity_params \<Rightarrow> identity" where
  "ip_key a = (ip_platform a, ip_project_path a, ip_git_identity_key a)"

definition new_identity_mapping :: "identity_params \<Rightarrow> time \<Rightarrow> int \<Rightarrow> identity_mapping" where
  "new_identity_mapping a now i =
     \<lparr>im_id = i, im_platform = ip_platform a, im_project_path = ip_project_path a, im_git_identity_key = ip_git_identity_key a,
      im_git_email = ip_git_email a, im_git_name = ip_git_name a, im_observed_role = ip_observed_role a,
      im_platform_username = ip_platform_username a, im_platform_user_id = ip_platform_user_id a, im_head_sha = ip_head_sha a,
      im_confidence = ip_confidence a, im_source = ip_source a, im_status = ip_status a,
      im_last_seen_run_id = ip_last_seen_run_id a, im_resolved_by = [], im_resolved_at = None, im_resolution_detail = None,
      im_created_at = now, im_updated_at = now\<rparr>"

definition observe_again :: "identity_params \<Rightarrow> time \<Rightarrow> identity_mapping \<Rightarrow> identity_mapping" where
  "observe_again a now r =
     r\<lparr>im_git_email := ip_git_email a, im_git_name := ip_git_name a, im_observed_role := ip_observed_role a,
       im_head_sha := ip_head_sha a,
       im_confidence := (if im_confidence r > ip_confidence a then im_confidence r else ip_confidence a),
       im_last_seen_run_id := ip_last_seen_run_id a,
       im_platform_username := (if im_status r = ''manual'' then im_platform_username r else ip_platform_username a),
       im_platform_user_id := (if im_status r = ''manual'' then im_platform_user_id r else ip_platform_user_id a),
       im_source := (if im_status r = ''manual'' then im_source r else ip_source a),
       im_status := (if im_status r = ''manual'' then im_status r else ip_status a),
       im_updated_at := now\<rparr>"

definition no_seen_run :: "int option \<Rightarrow> db \<Rightarrow> bool" where
  "no_seen_run runID s = (case runID of None \<Rightarrow> False | Some i \<Rightarrow> find_row (\<lambda>r. rr_id r = i) (review_runs s) = None)"

definition UpsertIdentityMapping :: "identity_params \<Rightarrow> unit dbm" where
  "UpsertIdentityMapping a = stmt (\<lambda>s.
     if no_seen_run (ip_last_seen_run_id a) s then (Inl ErrForeignKey, s)
     else case find_row (\<lambda>r. im_key r = ip_key a) (identity_mappings s) of
       Some _ \<Rightarrow> (Inr (), s\<lparr>identity_mappings := update_rows (\<lambda>r. im_key r = ip_key a) (observe_again a (clock s)) (identity_mappings s)\<rparr>)
     | None \<Rightarrow> bindM (insert_into identity_mappings identity_mappings_update (new_identity_mapping a)) (\<lambda>_. ret ()) s)"

text \<open>\<^verbatim>\<open>LIKE\<close> of SQLite: \<open>%\<close> stands for any text and \<open>_\<close> for one character, ASCII letters match in either case.\<close>

primrec sql_like :: "string \<Rightarrow> string \<Rightarrow> bool" where
  "sql_like [] = (\<lambda>t. t = [])"
| "sql_like (p # ps) = (\<lambda>t.
     if p = CHR ''%'' then list_ex (sql_like ps) (suffixes t)
     else case t of [] \<Rightarrow> False | c # cs \<Rightarrow> (p = CHR 0x5F \<or> lower_char p = lower_char c) \<and> sql_like ps cs)"

definition ListIdentityMappings :: "string \<Rightarrow> string \<Rightarrow> string \<Rightarrow> int \<Rightarrow> identity_mapping list dbm" where
  "ListIdentityMappings platform status projectPath limit = query_all (\<lambda>s.
     let hits = latest_by im_updated_at (latest_by im_id (filter (\<lambda>r.
           (platform = [] \<or> im_platform r = platform) \<and> (status = [] \<or> im_status r = status)
           \<and> (projectPath = [] \<or> sql_like (''%'' @ projectPath @ ''%'') (im_project_path r))) (rows (identity_mappings s))))
     in if limit < 0 then hits else take (nat limit) hits)"

definition GetIdentityMapping :: "int \<Rightarrow> identity_mapping dbm" where
  "GetIdentityMapping i = query_row identity_mappings (\<lambda>r. im_id r = i)"

definition GetIdentityMappingByIdentityKey :: "string \<Rightarrow> string \<Rightarrow> string \<Rightarrow> identity_mapping dbm" where
  "GetIdentityMappingByIdentityKey platform path key = query_row identity_mappings (\<lambda>r. im_key r = (platform, path, key))"

definition resolved_row :: "string \<Rightarrow> string \<Rightarrow> string \<Rightarrow> string option \<Rightarrow> time \<Rightarrow> identity_mapping \<Rightarrow> identity_mapping" where
  "resolved_row username userID actor detail now r =
     r\<lparr>im_platform_username := username, im_platform_user_id := userID, im_source := ''manual'', im_status := ''manual'',
       im_resolved_by := actor, im_resolved_at := Some now, im_resolution_detail := detail, im_updated_at := now\<rparr>"

definition ResolveIdentityMapping :: "string \<Rightarrow> string \<Rightarrow> string \<Rightarrow> string option \<Rightarrow> int \<Rightarrow> unit dbm" where
  "ResolveIdentityMapping username userID actor detail i = exec (\<lambda>s.
     s\<lparr>identity_mappings := update_rows (\<lambda>r. im_id r = i) (resolved_row username userID actor detail (clock s)) (identity_mappings s)\<rparr>)"

subsection \<open>Observations of a run\<close>

definition gitIdentityKey :: "platform_author \<Rightarrow> string" where
  "gitIdentityKey author =
     (if norm_lower (pa_email author) \<noteq> [] then ''email:'' @ norm_lower (pa_email author)
      else if norm_lower (pa_username author) \<noteq> [] then ''username:'' @ norm_lower (pa_username author)
      else if norm_lower (pa_name author) \<noteq> [] then ''name:'' @ norm_lower (pa_name author)
      else [])"

definition normalizePlatform :: "string \<Rightarrow> string" where
  "normalizePlatform platform =
     (let value = norm_lower platform in
      if value = ''github'' \<or> value = ''git hub'' then ''github''
      else if value = ''gitlab'' \<or> value = ''git lab'' then ''gitlab'' else [])"

fun FirstNonEmpty :: "string list \<Rightarrow> string" where
  "FirstNonEmpty [] = []"
| "FirstNonEmpty (v # vs) = (if trim_space v \<noteq> [] then trim_space v else FirstNonEmpty vs)"

definition or_else :: "string \<Rightarrow> string \<Rightarrow> string" where
  "or_else a b = (if a = [] then b else a)"

text \<open>The confidences 0.55, 0.94 and 0.72 are the nearest \<^verbatim>\<open>float64\<close> values.\<close>

definition observation :: "review_run \<Rightarrow> built_input \<Rightarrow> string \<Rightarrow> string \<Rightarrow> string \<Rightarrow> platform_author \<Rightarrow> identity_params" where
  "observation run input platform projectPath role author =
     (let s = ri_snapshot input;
          username = or_else (trim_space (pa_username author)) (trim_space (pa_username (pch_author (psn_change s))));
          userID = or_else (trim_space (pa_user_id author)) (trim_space (pa_user_id (pch_author (psn_change s))))
      in \<lparr>ip_platform = platform, ip_project_path = projectPath, ip_git_identity_key = gitIdentityKey author,
          ip_git_email = trim_space (pa_email author), ip_git_name = trim_space (pa_name author), ip_observed_role = role,
          ip_platform_username = username, ip_platform_user_id = userID,
          ip_head_sha = FirstNonEmpty [trim_space (pcm_sha (psn_head_commit s)), trim_space (pch_head_sha (psn_change s)),
            trim_space (pv_head_sha (psn_version s)), trim_space (rr_head_sha run)],
          ip_confidence = (if username = [] then 2476979795053773 / 4503599627370496
            else if trim_space (pa_email author) \<noteq> [] then 2116691824864133 / 2251799813685248 else 3242591731706757 / 4503599627370496),
          ip_source = ''observed'', ip_status = (if username = [] then ''unresolved'' else ''auto''),
          ip_last_seen_run_id = (if rr_id run > 0 then Some (rr_id run) else None)\<rparr>)"

definition persistIdentityMappingsFromInput :: "review_run \<Rightarrow> built_input \<Rightarrow> unit dbm" where
  "persistIdentityMappingsFromInput run input =
     (let s = ri_snapshot input;
          projectPath = or_else (trim_space (rt_repository (ri_target input))) (trim_space (rt_repository (psn_target s)));
          platform = or_else (normalizePlatform (rt_platform (ri_target input))) (normalizePlatform (rt_platform (psn_target s)))
      in if projectPath = [] \<or> platform = [] then ret ()
         else forM [(''commit_author'', pcm_author (psn_head_commit s)), (''commit_committer'', pcm_committer (psn_head_commit s))]
           (\<lambda>(role, author). if gitIdentityKey author = [] then ret ()
              else UpsertIdentityMapping (observation run input platform projectPath role author)))"

subsection \<open>What an operator decided stays\<close>

text \<open>A later version of a resolved mapping: everything the operator set is as it was, and the confidence is not lower.\<close>

definition same_resolution :: "identity_mapping \<Rightarrow> identity_mapping \<Rightarrow> bool" where
  "same_resolution r q \<longleftrightarrow> im_id q = im_id r \<and> im_key q = im_key r \<and> im_status q = im_status r \<and> im_source q = im_source r
     \<and> im_platform_username q = im_platform_username r \<and> im_platform_user_id q = im_platform_user_id r
     \<and> im_resolved_by q = im_resolved_by r \<and> im_resolved_at q = im_resolved_at r
     \<and> im_resolution_detail q = im_resolution_detail r \<and> im_confidence r \<le> im_confidence q"

definition manual_kept :: "db \<Rightarrow> db \<Rightarrow> bool" where
  "manual_kept s t \<longleftrightarrow> (\<forall>r \<in> set (rows (identity_mappings s)). im_status r = ''manual'' \<longrightarrow>
     (\<exists>q \<in> set (rows (identity_mappings t)). same_resolution r q))"

lemma same_resolution_refl: "same_resolution r r"
  by (simp add: same_resolution_def)

lemma same_resolution_trans: "same_resolution r q \<Longrightarrow> same_resolution q p \<Longrightarrow> same_resolution r p"
  by (simp add: same_resolution_def)

lemma manual_kept_I:
  assumes "\<And>r. r \<in> set (rows (identity_mappings s)) \<Longrightarrow> im_status r = ''manual'' \<Longrightarrow> \<exists>q \<in> set (rows (identity_mappings t)). same_resolution r q"
  shows "manual_kept s t"
  using assms by (simp add: manual_kept_def)

lemma manual_kept_trans:
  assumes "manual_kept s t" and "manual_kept t u"
  shows "manual_kept s u"
proof (rule manual_kept_I)
  fix r
  assume r: "r \<in> set (rows (identity_mappings s))" "im_status r = ''manual''"
  then obtain q where q: "q \<in> set (rows (identity_mappings t))" "same_resolution r q"
    using assms(1) unfolding manual_kept_def by blast
  from q(2) r(2) have "im_status q = ''manual''" by (simp add: same_resolution_def)
  with q(1) obtain p where p: "p \<in> set (rows (identity_mappings u))" "same_resolution q p"
    using assms(2) unfolding manual_kept_def by blast
  show "\<exists>p \<in> set (rows (identity_mappings u)). same_resolution r p"
    using p(1) same_resolution_trans [OF q(2) p(2)] by (rule bexI [rotated])
qed

lemma manual_kept_same: "identity_mappings t = identity_mappings s \<Longrightarrow> manual_kept s t"
  by (rule manual_kept_I) (auto intro: same_resolution_refl)

interpretation mk: store_rel manual_kept
  by unfold_locales (auto intro: manual_kept_same manual_kept_trans)

lemma observe_again_resolution: "im_status r = ''manual'' \<Longrightarrow> same_resolution r (observe_again a now r)"
  by (simp add: same_resolution_def observe_again_def im_key_def)

lemma keeps_UpsertIdentityMapping: "keeps manual_kept (UpsertIdentityMapping a)"
  unfolding UpsertIdentityMapping_def
proof (rule mk.keeps_stmt)
  fix s :: db
  let ?u = "s\<lparr>identity_mappings := update_rows (\<lambda>r. im_key r = ip_key a) (observe_again a (clock s)) (identity_mappings s)\<rparr>"
  let ?n = "snd (bindM (insert_into identity_mappings identity_mappings_update (new_identity_mapping a)) (\<lambda>_. ret ()) s)"
  have "manual_kept s ?u"
    by (rule manual_kept_I) (auto intro: same_resolution_refl observe_again_resolution)
  moreover have "manual_kept s ?n"
    by (rule manual_kept_I) (auto simp: bindM_def insert_into_def ret_def intro: same_resolution_refl)
  ultimately show "manual_kept s (snd (if no_seen_run (ip_last_seen_run_id a) s then (Inl ErrForeignKey, s)
     else case find_row (\<lambda>r. im_key r = ip_key a) (identity_mappings s) of
       Some _ \<Rightarrow> (Inr (), ?u)
     | None \<Rightarrow> bindM (insert_into identity_mappings identity_mappings_update (new_identity_mapping a)) (\<lambda>_. ret ()) s))"
    by (simp add: mk.R_refl split: option.splits)
qed

lemma keeps_persistIdentityMappings: "keeps manual_kept (persistIdentityMappingsFromInput run input)"
  unfolding persistIdentityMappingsFromInput_def Let_def
  by (auto intro!: mk.keeps_ret mk.keeps_bindM keeps_UpsertIdentityMapping simp del: bindM_ret split: prod.splits)

text \<open>Resolving finds its row by the id it was listed with, so what the operator entered is what later runs leave alone.\<close>

lemma ResolveIdentityMapping_sets:
  assumes "faults s = []" and "find_row (\<lambda>r. im_id r = i) (identity_mappings s) = Some r"
  obtains t where "ResolveIdentityMapping username userID actor detail i s = (Inr (), t)"
    and "resolved_row username userID actor detail (clock s) r \<in> set (rows (identity_mappings t))"
  using assms find_row_Some [OF assms(2)] by (auto simp: ResolveIdentityMapping_def exec_ok)

text \<open>C39 (manual resolution). Once an operator has resolved an identity, the user entered, the operator, the time and the
  detail are the same after any number of later runs observe that identity, whatever they observe and however
  the connection fails in between; the confidence never drops.\<close>

theorem manual_resolution_kept:
  assumes "faults s = []" and "find_row (\<lambda>r. im_id r = i) (identity_mappings s) = Some r"
  shows "\<exists>q \<in> set (rows (identity_mappings (fold (\<lambda>(run, input, fs) u. snd (persistIdentityMappingsFromInput run input (u\<lparr>faults := fs\<rparr>))) later
      (snd (ResolveIdentityMapping username userID actor detail i s))))).
    same_resolution (resolved_row username userID actor detail (clock s) r) q"
proof -
  obtain t where t: "ResolveIdentityMapping username userID actor detail i s = (Inr (), t)"
    and r: "resolved_row username userID actor detail (clock s) r \<in> set (rows (identity_mappings t))"
    by (rule ResolveIdentityMapping_sets [OF assms])
  have "manual_kept u (fold (\<lambda>(run, input, fs) u. snd (persistIdentityMappingsFromInput run input (u\<lparr>faults := fs\<rparr>))) later u)" for u
  proof (induction later arbitrary: u)
    case (Cons x xs)
    obtain run input fs where x: "x = (run, input, fs)" by (cases x)
    have "manual_kept u (snd (persistIdentityMappingsFromInput run input (u\<lparr>faults := fs\<rparr>)))"
      using mk.R_trans [OF mk.R_faults] keeps_persistIdentityMappings unfolding keeps_def by blast
    then show ?case unfolding x by (simp add: mk.R_trans [OF _ Cons.IH])
  qed (simp add: mk.R_refl)
  moreover have "im_status (resolved_row username userID actor detail (clock s) r) = ''manual''" by (simp add: resolved_row_def)
  ultimately show ?thesis using r unfolding t manual_kept_def by simp
qed

definition known_identity :: identity_mapping where
  "known_identity = new_identity_mapping \<lparr>ip_platform = ''gitlab'', ip_project_path = ''g/p'', ip_git_identity_key = ''username:u'', ip_git_email = [],
     ip_git_name = [], ip_observed_role = ''commit_author'', ip_platform_username = [], ip_platform_user_id = [], ip_head_sha = [],
     ip_confidence = 1 / 2, ip_source = ''observed'', ip_status = ''unresolved'', ip_last_seen_run_id = None\<rparr> 0 1"

definition identities :: db where
  "identities = empty_db\<lparr>identity_mappings := \<lparr>rows = [known_identity], next_id = 2\<rparr>\<rparr>"

theorem manual_resolution_kept_witness:
  "\<exists>q \<in> set (rows (identity_mappings (fold (\<lambda>(run, input, fs) u. snd (persistIdentityMappingsFromInput run input (u\<lparr>faults := fs\<rparr>)))
      [(zero_review_run, projr (fst (Build sample_build_env None sample_platform sample_build empty_db)), [])]
      (snd (ResolveIdentityMapping ''dev'' ''7'' ''op'' None 1 identities))))).
    same_resolution (resolved_row ''dev'' ''7'' ''op'' None (clock identities) known_identity) q"
  by (rule manual_resolution_kept)
    (simp_all add: identities_def empty_db_def find_row_def known_identity_def new_identity_mapping_def)

end
