(* ===== verification/Dedup.thy ===== *)
theory Dedup
  imports Db_Findings Db_Runs
begin

text \<open>
  The persistence of findings across runs: \<^verbatim>\<open>internal/llm/dedup.go\<close>, with the finding of a model's
  answer (\<^verbatim>\<open>provider.go\<close>) and the summaries given to a semantic matcher (\<^verbatim>\<open>semantic_match.go\<close>). SHA-256
  is the parameter \<open>hash\<close>; the semantic matcher, an LLM call, is a parameter that answers, or fails
  with \<open>None\<close>. A Go set of paths or ids is the list of its elements.
\<close>

subsection \<open>Data\<close>

record llm_finding =
  lf_category :: string
  lf_severity :: string
  lf_confidence :: rat
  lf_title :: string
  lf_body_markdown :: string
  lf_path :: string
  lf_anchor_kind :: string
  lf_old_line :: "int option"
  lf_new_line :: "int option"
  lf_range_start_kind :: string
  lf_range_start_old_line :: "int option"
  lf_range_start_new_line :: "int option"
  lf_range_end_kind :: string
  lf_range_end_old_line :: "int option"
  lf_range_end_new_line :: "int option"
  lf_anchor_snippet :: string
  lf_evidence :: "string list"
  lf_suggested_patch :: string
  lf_canonical_key :: string
  lf_symbol :: string
  lf_trigger_condition :: string
  lf_impact :: string
  lf_introduced_by_this_change :: bool
  lf_blind_spots :: "string list"
  lf_no_finding_reason :: string

record normalized_finding =
  nf_category :: string
  nf_severity :: string
  nf_confidence :: rat
  nf_title :: string
  nf_body_markdown :: string
  nf_path :: string
  nf_anchor_kind :: string
  nf_old_line :: "int option"
  nf_new_line :: "int option"
  nf_range_start_kind :: string
  nf_range_start_old_line :: "int option"
  nf_range_start_new_line :: "int option"
  nf_range_end_kind :: string
  nf_range_end_old_line :: "int option"
  nf_range_end_new_line :: "int option"
  nf_anchor_snippet :: string
  nf_evidence :: string
  nf_suggested_patch :: string
  nf_canonical_key :: string
  nf_symbol :: string
  nf_trigger_condition :: string
  nf_impact :: string
  nf_introduced_by_this_change :: bool
  nf_blind_spots :: "string list"

record persisted_finding =
  pf_normalized :: normalized_finding
  pf_anchor_fingerprint :: string
  pf_semantic_fingerprint :: string
  pf_state :: string

record match_decision =
  md_skip_insert :: bool
  md_supersede_id :: int
  md_existing_id :: int

record finding_thresholds =
  ft_confidence :: rat
  ft_severity :: string

record semantic_summary =
  sm_path :: string
  sm_category :: string
  sm_title :: string
  sm_body_markdown :: string
  sm_canonical_key :: string
  sm_symbol :: string
  sm_severity :: string

type_synonym semantic_matcher = "semantic_summary \<Rightarrow> semantic_summary \<Rightarrow> bool option"

subsection \<open>Normalisation\<close>

lemma replace_all_length:
  assumes "length new \<le> length old"
  shows "length (replace_all s old new) \<le> length s"
  using assms
proof (induction s old new rule: replace_all.induct)
  case (1 s old new)
  show ?case
  proof (cases s)
    case (Cons c t)
    show ?thesis
    proof (cases "old \<noteq> [] \<and> has_prefix s old")
      case True
      then have "length old \<le> length s" by (metis has_prefix_def length_take min.cobounded1 min.commute)
      with 1 Cons True show ?thesis by (simp add: replace_all.simps [of "c # t"])
    next
      case False
      with 1 Cons show ?thesis by (auto simp: replace_all.simps [of "c # t"])
    qed
  qed (simp add: replace_all.simps)
qed

lemma replace_all_shorter:
  assumes "length new < length old" and "index_of s old \<noteq> None"
  shows "length (replace_all s old new) < length s"
  using assms
proof (induction s old new rule: replace_all.induct)
  case (1 s old new)
  show ?case
  proof (cases s)
    case Nil
    with 1 show ?thesis by (auto split: if_splits)
  next
    case (Cons c t)
    show ?thesis
    proof (cases "old \<noteq> [] \<and> has_prefix s old")
      case True
      then have "length old \<le> length s" by (metis has_prefix_def length_take min.cobounded1 min.commute)
      with 1 Cons True replace_all_length [of new old "drop (length old) s"] show ?thesis
        by (simp add: replace_all.simps [of "c # t"])
    next
      case False
      with 1 Cons show ?thesis
        by (auto simp: replace_all.simps [of "c # t"] has_prefix_def split: if_splits)
    qed
  qed
qed

text \<open>The loop of \<^verbatim>\<open>normalizePath\<close> ends because a replacement shortens the path.\<close>

function collapse_slashes :: "string \<Rightarrow> string" where
  "collapse_slashes s =
     (if contains s ''//'' then collapse_slashes (replace_all s ''//'' ''/'') else s)"
  by pat_completeness auto
termination
  by (relation "measure length") (auto simp: contains_def intro: replace_all_shorter)

declare collapse_slashes.simps [simp del]

definition normalizePath :: "string \<Rightarrow> string" where
  "normalizePath path =
     trim_prefix (collapse_slashes (replace_all (trim_space path) [CHR 0x5C] ''/'')) ''./''"

definition normalizeSeverity :: "string \<Rightarrow> string" where
  "normalizeSeverity value = norm_lower value"

definition severityRank :: "string \<Rightarrow> int" where
  "severityRank value =
     (let s = normalizeSeverity value in
      if s = ''critical'' then 4 else if s = ''high'' then 3 else if s = ''medium'' then 2
      else if s = ''low'' then 1 else if s = ''info'' \<or> s = ''nit'' then 0 else - (2 ^ 63))"

definition normalizeAnchorKind :: "string \<Rightarrow> string" where
  "normalizeAnchorKind kind =
     (let t = norm_lower kind in
      if t \<in> set [''new'', ''new_line'', ''added''] then ''new_line''
      else if t \<in> set [''old'', ''old_line'', ''deleted''] then ''old_line''
      else if t \<in> set [''context'', ''context_line'', ''unchanged''] then ''context_line''
      else t)"

definition canonicalRangeLineType :: "string \<Rightarrow> string" where
  "canonicalRangeLineType kind =
     (let t = norm_lower kind in
      if t \<in> set [''old'', ''old_line'', ''removed''] then ''old''
      else if t \<in> set [''new'', ''new_line'', ''added''] then ''new''
      else if t \<in> set [''context'', ''context_line'', ''unchanged''] then ''context''
      else [])"

definition normalizeWhitespace :: "string \<Rightarrow> string" where
  "normalizeWhitespace value = join (Go_Strings.fields (trim_space value)) '' ''"

definition normalizeEvidence :: "string list \<Rightarrow> string" where
  "normalizeEvidence evidence =
     join (filter (\<lambda>i. i \<noteq> []) (map normalizeWhitespace evidence)) [CHR 0x0A]"

definition canonicalKeyFallback :: "string \<Rightarrow> string \<Rightarrow> string" where
  "canonicalKeyFallback title path = to_lower (trim_space title @ ''::'' @ normalizePath path)"

definition normalizeFinding :: "llm_finding \<Rightarrow> normalized_finding" where
  "normalizeFinding f =
     (let kind = normalizeAnchorKind (lf_anchor_kind f);
          kind1 = (if kind = [] \<and> lf_new_line f \<noteq> None \<and> lf_old_line f = None then ''new'' else kind);
          kind2 = (if kind1 = [] \<and> lf_old_line f \<noteq> None \<and> lf_new_line f = None then ''old'' else kind1);
          title = trim_space (lf_title f); path = normalizePath (lf_path f);
          key = trim_space (lf_canonical_key f)
      in \<lparr>nf_category = trim_space (lf_category f), nf_severity = trim_space (lf_severity f),
          nf_confidence = lf_confidence f, nf_title = title,
          nf_body_markdown = trim_space (lf_body_markdown f), nf_path = path, nf_anchor_kind = kind2,
          nf_old_line = lf_old_line f, nf_new_line = lf_new_line f,
          nf_range_start_kind = canonicalRangeLineType (lf_range_start_kind f),
          nf_range_start_old_line = lf_range_start_old_line f,
          nf_range_start_new_line = lf_range_start_new_line f,
          nf_range_end_kind = canonicalRangeLineType (lf_range_end_kind f),
          nf_range_end_old_line = lf_range_end_old_line f, nf_range_end_new_line = lf_range_end_new_line f,
          nf_anchor_snippet = normalizeWhitespace (lf_anchor_snippet f),
          nf_evidence = normalizeEvidence (lf_evidence f),
          nf_suggested_patch = trim_space (lf_suggested_patch f),
          nf_canonical_key = (if key = [] then canonicalKeyFallback title path else key),
          nf_symbol = trim_space (lf_symbol f), nf_trigger_condition = trim_space (lf_trigger_condition f),
          nf_impact = trim_space (lf_impact f),
          nf_introduced_by_this_change = lf_introduced_by_this_change f, nf_blind_spots = lf_blind_spots f\<rparr>)"

definition isDeletedFile :: "normalized_finding \<Rightarrow> bool" where
  "isDeletedFile f \<longleftrightarrow> normalizeAnchorKind (nf_anchor_kind f) = ''old_line''
     \<and> nf_old_line f \<noteq> None \<and> nf_new_line f = None"

definition computeAnchorFingerprint :: "(string \<Rightarrow> string) \<Rightarrow> normalized_finding \<Rightarrow> string" where
  "computeAnchorFingerprint hash f =
     hash (join [nf_path f, nf_anchor_kind f, nf_anchor_snippet f, nf_category f, nf_canonical_key f] [CHR 0x00])"

definition computeSemanticFingerprint :: "(string \<Rightarrow> string) \<Rightarrow> normalized_finding \<Rightarrow> string" where
  "computeSemanticFingerprint hash f =
     hash (join [nf_path f, nf_category f, nf_canonical_key f, nf_symbol f] [CHR 0x00])"

definition summaryFromNormalized :: "normalized_finding \<Rightarrow> semantic_summary" where
  "summaryFromNormalized f =
     \<lparr>sm_path = nf_path f, sm_category = nf_category f, sm_title = nf_title f,
      sm_body_markdown = nf_body_markdown f, sm_canonical_key = nf_canonical_key f,
      sm_symbol = nf_symbol f, sm_severity = nf_severity f\<rparr>"

definition summaryFromDBFinding :: "review_finding \<Rightarrow> semantic_summary" where
  "summaryFromDBFinding f =
     \<lparr>sm_path = rf_path f, sm_category = rf_category f, sm_title = rf_title f,
      sm_body_markdown = (case rf_body_markdown f of None \<Rightarrow> [] | Some b \<Rightarrow> b),
      sm_canonical_key = rf_canonical_key f, sm_symbol = [], sm_severity = rf_severity f\<rparr>"

subsection \<open>States\<close>

definition validFindingTransitions :: "(string \<times> string list) list" where
  "validFindingTransitions =
     [(''new'', [''posted'', ''fixed'', ''superseded'', ''stale'', ''ignored'']),
      (''posted'', [''active'', ''fixed'', ''superseded'', ''stale'', ''ignored'']),
      (''active'', [''fixed'', ''superseded'', ''stale'', ''ignored''])]"

definition thresholdsFromPolicy :: "project_policy option \<Rightarrow> finding_thresholds" where
  "thresholdsFromPolicy policy =
     (case policy of
        None \<Rightarrow> \<lparr>ft_confidence = 0, ft_severity = ''low''\<rparr>
      | Some p \<Rightarrow>
          \<lparr>ft_confidence = (if pp_confidence_threshold p > 0 then pp_confidence_threshold p else 0),
           ft_severity = (let level = normalizeSeverity (pp_severity_threshold p) in
                          if level \<noteq> [] then level else ''low'')\<rparr>)"

definition evaluateFindingState :: "normalized_finding \<Rightarrow> finding_thresholds \<Rightarrow> string" where
  "evaluateFindingState f t =
     (if isDeletedFile f then ''__deleted__''
      else if nf_confidence f < ft_confidence t then ''filtered''
      else if severityRank (nf_severity f) < severityRank (ft_severity t) then ''filtered''
      else ''new'')"

text \<open>\<open>Inr None\<close> is the result with \<open>ok\<close> false: no transition.\<close>

definition nextFindingState :: "string \<Rightarrow> string \<Rightarrow> go_error + string option" where
  "nextFindingState current0 next0 =
     (let current = trim_space current0; nxt = trim_space next0 in
      if current = [] \<or> nxt = [] \<or> current = nxt then Inr None
      else case map_of validFindingTransitions current of
        None \<Rightarrow> Inl (ErrMsg ''llm: no transitions allowed'')
      | Some allowed \<Rightarrow>
          if nxt \<in> set allowed then Inr (Some nxt) else Inl (ErrMsg ''llm: invalid finding transition''))"

definition transitionMissingFinding ::
  "review_finding \<Rightarrow> string list \<Rightarrow> string list \<Rightarrow> bool \<Rightarrow> go_error + string option" where
  "transitionMissingFinding current reviewedPaths deletedPaths seenThisRun =
     (let path = normalizePath (rf_path current); kind = normalizeAnchorKind (rf_anchor_kind current) in
      if path \<in> set deletedPaths \<and> kind = ''old_line'' then nextFindingState (rf_state current) ''fixed''
      else if path \<in> set deletedPaths \<and> kind = ''deleted'' then nextFindingState (rf_state current) ''fixed''
      else if rf_last_seen_run_id current \<noteq> None \<and> \<not> seenThisRun then
        (if path \<in> set reviewedPaths then nextFindingState (rf_state current) ''fixed''
         else if reviewedPaths = [] \<and> deletedPaths = [] then Inr None
         else nextFindingState (rf_state current) ''stale'')
      else if rf_last_seen_run_id current \<noteq> None then Inr None
      else if path \<in> set reviewedPaths then nextFindingState (rf_state current) ''fixed''
      else if reviewedPaths = [] \<and> deletedPaths = [] then Inr None
      else nextFindingState (rf_state current) ''stale'')"

subsection \<open>Matching against the live findings\<close>

text \<open>The three guards that the first two passes share.\<close>

definition anchor_excluded :: "persisted_finding \<Rightarrow> review_finding \<Rightarrow> bool" where
  "anchor_excluded f c \<longleftrightarrow>
     normalizePath (rf_path c) = nf_path (pf_normalized f)
   \<and> (rf_anchor_kind c = ''new_line'' \<and> pf_state f = ''__deleted__''
      \<or> pf_state f = ''__deleted__'' \<and> rf_anchor_kind c = ''old_line''
      \<or> rf_anchor_kind c = ''deleted'' \<and> nf_anchor_kind (pf_normalized f) = ''old_line'')"

definition seen_in_run :: "review_run \<Rightarrow> review_finding \<Rightarrow> bool" where
  "seen_in_run run c \<longleftrightarrow> rf_review_run_id c = rr_id run \<or> rf_last_seen_run_id c = Some (rr_id run)"

definition relocationMatches :: "review_finding \<Rightarrow> normalized_finding \<Rightarrow> bool" where
  "relocationMatches c f \<longleftrightarrow> normalizePath (rf_path c) = nf_path f \<and> rf_anchor_kind c = nf_anchor_kind f"

definition nullable :: "string \<Rightarrow> string option" where
  "nullable value = (if trim_space value = [] then None else Some value)"

definition relocation_of :: "review_run \<Rightarrow> persisted_finding \<Rightarrow> relocation" where
  "relocation_of run f =
     (let n = pf_normalized f in
      \<lparr>rl_path = nf_path n, rl_anchor_kind = nf_anchor_kind n, rl_old_line = nf_old_line n,
       rl_new_line = nf_new_line n, rl_range_start_kind = nullable (nf_range_start_kind n),
       rl_range_start_old_line = nf_range_start_old_line n, rl_range_start_new_line = nf_range_start_new_line n,
       rl_range_end_kind = nullable (nf_range_end_kind n), rl_range_end_old_line = nf_range_end_old_line n,
       rl_range_end_new_line = nf_range_end_new_line n, rl_anchor_snippet = nullable (nf_anchor_snippet n),
       rl_anchor_fingerprint = pf_anchor_fingerprint f, rl_semantic_fingerprint = pf_semantic_fingerprint f,
       rl_last_seen_run_id = Some (rr_id run)\<rparr>)"

definition no_match :: match_decision where
  "no_match = \<lparr>md_skip_insert = False, md_supersede_id = 0, md_existing_id = 0\<rparr>"

definition keep_existing :: "review_finding \<Rightarrow> match_decision" where
  "keep_existing c = \<lparr>md_skip_insert = True, md_supersede_id = 0, md_existing_id = rf_id c\<rparr>"

definition replace_existing :: "review_finding \<Rightarrow> match_decision" where
  "replace_existing c = \<lparr>md_skip_insert = False, md_supersede_id = rf_id c, md_existing_id = rf_id c\<rparr>"

definition anchor_match :: "persisted_finding \<Rightarrow> review_finding \<Rightarrow> bool" where
  "anchor_match f c \<longleftrightarrow> \<not> anchor_excluded f c \<and> rf_anchor_fingerprint c = pf_anchor_fingerprint f"

definition semantic_match :: "review_run \<Rightarrow> persisted_finding \<Rightarrow> review_finding \<Rightarrow> bool" where
  "semantic_match run f c \<longleftrightarrow> \<not> anchor_excluded f c
     \<and> rf_semantic_fingerprint c = pf_semantic_fingerprint f \<and> \<not> seen_in_run run c"

definition model_match :: "semantic_matcher \<Rightarrow> review_run \<Rightarrow> persisted_finding \<Rightarrow> review_finding \<Rightarrow> bool" where
  "model_match matcher run f c \<longleftrightarrow> normalizePath (rf_path c) = nf_path (pf_normalized f)
     \<and> \<not> seen_in_run run c
     \<and> matcher (summaryFromDBFinding c) (summaryFromNormalized (pf_normalized f)) = Some True"

text \<open>Each pass is a loop that stops at the first finding it accepts.\<close>

definition matchExistingFindingWithMatcher ::
  "semantic_matcher option \<Rightarrow> review_run \<Rightarrow> review_finding list \<Rightarrow> persisted_finding \<Rightarrow> match_decision dbm" where
  "matchExistingFindingWithMatcher matcher run existing f =
     (case List.find (anchor_match f) existing of
        Some c \<Rightarrow>
          if seen_in_run run c then ret (keep_existing c)
          else bindM (UpdateFindingLastSeen (Some (rr_id run)) (rf_id c)) (\<lambda>_. ret (keep_existing c))
      | None \<Rightarrow>
          (case List.find (semantic_match run f) existing of
             Some c \<Rightarrow>
               if relocationMatches c (pf_normalized f) then
                 bindM (UpdateFindingRelocation (relocation_of run f) (rf_id c)) (\<lambda>_. ret (keep_existing c))
               else ret (replace_existing c)
           | None \<Rightarrow>
               (case matcher of
                  None \<Rightarrow> ret no_match
                | Some m \<Rightarrow>
                    (case List.find (model_match m run f) existing of
                       Some c \<Rightarrow> ret (replace_existing c)
                     | None \<Rightarrow> ret no_match))))"

subsection \<open>Persisting a result\<close>

definition finding_row :: "review_run \<Rightarrow> merge_request \<Rightarrow> persisted_finding \<Rightarrow> review_finding" where
  "finding_row run mr f =
     (let n = pf_normalized f in
      zero_review_finding\<lparr>rf_review_run_id := rr_id run, rf_merge_request_id := mr_id mr,
        rf_category := nf_category n, rf_severity := nf_severity n, rf_confidence := nf_confidence n,
        rf_title := nf_title n, rf_body_markdown := nullable (nf_body_markdown n), rf_path := nf_path n,
        rf_anchor_kind := nf_anchor_kind n, rf_old_line := nf_old_line n, rf_new_line := nf_new_line n,
        rf_range_start_kind := nullable (nf_range_start_kind n),
        rf_range_start_old_line := nf_range_start_old_line n,
        rf_range_start_new_line := nf_range_start_new_line n,
        rf_range_end_kind := nullable (nf_range_end_kind n),
        rf_range_end_old_line := nf_range_end_old_line n, rf_range_end_new_line := nf_range_end_new_line n,
        rf_anchor_snippet := nullable (nf_anchor_snippet n), rf_evidence := nullable (nf_evidence n),
        rf_suggested_patch := nullable (nf_suggested_patch n), rf_canonical_key := nf_canonical_key n,
        rf_anchor_fingerprint := pf_anchor_fingerprint f, rf_semantic_fingerprint := pf_semantic_fingerprint f,
        rf_state := pf_state f\<rparr>)"

definition insertFinding :: "review_run \<Rightarrow> merge_request \<Rightarrow> persisted_finding \<Rightarrow> int dbm" where
  "insertFinding run mr f = InsertReviewFinding (finding_row run mr f)"

fun dedup_in_run :: "(string \<Rightarrow> string) \<Rightarrow> finding_thresholds \<Rightarrow> string list \<Rightarrow> llm_finding list \<Rightarrow> persisted_finding list" where
  "dedup_in_run hash t seen [] = []"
| "dedup_in_run hash t seen (f # fs) =
     (let n = normalizeFinding f; anchor = computeAnchorFingerprint hash n in
      if anchor \<in> set seen then dedup_in_run hash t seen fs
      else \<lparr>pf_normalized = n, pf_anchor_fingerprint = anchor,
            pf_semantic_fingerprint = computeSemanticFingerprint hash n,
            pf_state = evaluateFindingState n t\<rparr> # dedup_in_run hash t (anchor # seen) fs)"

text \<open>The ids matched so far; the code adds the same ids to \<open>matchedExistingIDs\<close> and
  \<open>updatedLastSeenIDs\<close>.\<close>

definition persist_one :: "semantic_matcher option \<Rightarrow> review_run \<Rightarrow> merge_request \<Rightarrow> review_finding list
    \<Rightarrow> persisted_finding \<Rightarrow> int list \<Rightarrow> int list dbm" where
  "persist_one matcher run mr existing f matched =
     (if pf_state f = ''filtered'' then bindM (insertFinding run mr f) (\<lambda>_. ret matched)
      else if pf_state f = ''__deleted__'' then ret matched
      else bindM (matchExistingFindingWithMatcher matcher run existing f) (\<lambda>d.
        let matched' = (if md_existing_id d \<noteq> 0 then md_existing_id d # matched else matched) in
        if md_skip_insert d then ret matched'
        else bindM (insertFinding run mr f) (\<lambda>insertedID.
          if md_supersede_id d \<noteq> 0
          then bindM (UpdateFindingState ''superseded'' (Some insertedID) (md_supersede_id d)) (\<lambda>_. ret matched')
          else ret matched')))"

fun persist_all :: "semantic_matcher option \<Rightarrow> review_run \<Rightarrow> merge_request \<Rightarrow> review_finding list
    \<Rightarrow> persisted_finding list \<Rightarrow> int list \<Rightarrow> int list dbm" where
  "persist_all matcher run mr existing [] matched = ret matched"
| "persist_all matcher run mr existing (f # fs) matched =
     bindM (persist_one matcher run mr existing f matched) (persist_all matcher run mr existing fs)"

definition settle_missing :: "string list \<Rightarrow> string list \<Rightarrow> int list \<Rightarrow> review_finding \<Rightarrow> unit dbm" where
  "settle_missing reviewedPaths deletedPaths matched current =
     (if rf_id current \<in> set matched then ret ()
      else case transitionMissingFinding current reviewedPaths deletedPaths (rf_id current \<in> set matched) of
        Inl e \<Rightarrow> throw e
      | Inr None \<Rightarrow> ret ()
      | Inr (Some st) \<Rightarrow> UpdateFindingState st None (rf_id current))"

definition persistFindingsWithMatcher :: "(string \<Rightarrow> string) \<Rightarrow> semantic_matcher option \<Rightarrow> review_run
    \<Rightarrow> merge_request \<Rightarrow> llm_finding list \<Rightarrow> string list \<Rightarrow> string list \<Rightarrow> unit dbm" where
  "persistFindingsWithMatcher hash matcher run mr findings reviewedPaths deletedPaths =
     bindM (ListActiveFindingsByMR (mr_id mr)) (\<lambda>existing.
     tryM (GetProjectPolicy (rr_project_id run)) (\<lambda>policy.
       case policy of
         Inl e \<Rightarrow>
           if e \<noteq> ErrNoRows then throw e
           else bindM (persist_all matcher run mr existing
                  (dedup_in_run hash (thresholdsFromPolicy None) [] findings) [])
                (\<lambda>matched. forM existing (settle_missing reviewedPaths deletedPaths matched))
       | Inr p \<Rightarrow>
           bindM (persist_all matcher run mr existing
                  (dedup_in_run hash (thresholdsFromPolicy (Some p)) [] findings) [])
                (\<lambda>matched. forM existing (settle_missing reviewedPaths deletedPaths matched))))"

subsection \<open>One run reports an anchor once\<close>

lemma dedup_in_run_fingerprints:
  "distinct (map pf_anchor_fingerprint (dedup_in_run hash t seen fs))
   \<and> pf_anchor_fingerprint ` set (dedup_in_run hash t seen fs)
       = (\<lambda>f. computeAnchorFingerprint hash (normalizeFinding f)) ` set fs - set seen"
proof (induction fs arbitrary: seen)
  case (Cons f fs)
  then show ?case by (auto simp: Let_def)
qed simp

text \<open>Duplicates within a run. the findings of a result that are persisted have pairwise different
  anchor fingerprints, and every fingerprint of the result is among them.\<close>

theorem dedup_in_run_distinct:
  "distinct (map pf_anchor_fingerprint (dedup_in_run hash t [] fs))
   \<and> pf_anchor_fingerprint ` set (dedup_in_run hash t [] fs)
       = (\<lambda>f. computeAnchorFingerprint hash (normalizeFinding f)) ` set fs"
  using dedup_in_run_fingerprints [of hash t "[]" fs] by simp

subsection \<open>Transitions of missing findings\<close>

definition missing_state :: "string list \<Rightarrow> string list \<Rightarrow> review_finding \<Rightarrow> string option" where
  "missing_state reviewedPaths deletedPaths c =
     (let path = normalizePath (rf_path c) in
      if path \<in> set reviewedPaths
         \<or> path \<in> set deletedPaths \<and> normalizeAnchorKind (rf_anchor_kind c) = ''old_line'' then Some ''fixed''
      else if reviewedPaths = [] \<and> deletedPaths = [] then None
      else Some ''stale'')"

lemma nextFindingState_live:
  assumes "finding_live c" and "nxt \<in> {''fixed'', ''stale'', ''superseded''}"
  shows "nextFindingState (rf_state c) nxt = Inr (Some nxt)"
proof -
  have n: "nextFindingState st nx = Inr (Some nx)"
    if "st \<in> set [''new'', ''posted'', ''active'']" "nx \<in> set [''fixed'', ''stale'', ''superseded'']" for st nx
  proof -
    have "list_all (\<lambda>st. list_all (\<lambda>nx. nextFindingState st nx = Inr (Some nx))
        [''fixed'', ''stale'', ''superseded'']) [''new'', ''posted'', ''active'']"
      by code_simp
    with that show ?thesis unfolding list_all_iff by blast
  qed
  from assms show ?thesis by (intro n) (simp_all add: finding_live_def)
qed

lemma normalizeAnchorKind_not_deleted: "normalizeAnchorKind k \<noteq> ''deleted''"
  by (simp add: normalizeAnchorKind_def Let_def)

lemma transitionMissing_live:
  assumes "finding_live c"
  shows "transitionMissingFinding c reviewedPaths deletedPaths False
    = Inr (missing_state reviewedPaths deletedPaths c)"
  using nextFindingState_live [OF assms, of "''fixed''"] nextFindingState_live [OF assms, of "''stale''"]
  by (simp add: transitionMissingFinding_def missing_state_def normalizeAnchorKind_not_deleted Let_def)

text \<open>Missing findings. a live finding that the run did not report again becomes \<^verbatim>\<open>fixed\<close> when its file
  was reviewed, or was deleted and the finding is anchored on the old side; otherwise \<^verbatim>\<open>stale\<close>, except
  that a run with an empty scope leaves it alone. The transition is never refused.\<close>

theorem transitionMissingFinding_spec:
  assumes "finding_live c"
  shows "transitionMissingFinding c reviewedPaths deletedPaths False
    = Inr (missing_state reviewedPaths deletedPaths c)"
  by (rule transitionMissing_live [OF assms])

subsection \<open>What a run may do to stored findings\<close>

text \<open>\<open>finding_step A B s t\<close>: every finding of \<open>s\<close> is still there in \<open>t\<close>, outside \<open>A\<close> unchanged, outside \<open>B\<close>
  in the same state, in \<open>B\<close> at most moved to \<^verbatim>\<open>superseded\<close>, \<^verbatim>\<open>fixed\<close> or \<^verbatim>\<open>stale\<close>.\<close>

definition row_step :: "int set \<Rightarrow> (int \<Rightarrow> string set) \<Rightarrow> review_finding \<Rightarrow> review_finding \<Rightarrow> bool" where
  "row_step A B r r' \<longleftrightarrow> rf_id r' = rf_id r \<and> rf_merge_request_id r' = rf_merge_request_id r
     \<and> (rf_id r \<notin> A \<longrightarrow> r' = r) \<and> (rf_state r' = rf_state r \<or> rf_state r' \<in> B (rf_id r))"

definition finding_step :: "int set \<Rightarrow> (int \<Rightarrow> string set) \<Rightarrow> db \<Rightarrow> db \<Rightarrow> bool" where
  "finding_step A B s t \<longleftrightarrow>
     (\<exists>g new. rows (review_findings t) = map g (rows (review_findings s)) @ new
        \<and> (\<forall>r \<in> set (rows (review_findings s)). row_step A B r (g r)))"

lemma row_step_refl: "row_step A B r r"
  by (simp add: row_step_def)

lemma row_step_trans: "row_step A B r r' \<Longrightarrow> row_step A B r' r'' \<Longrightarrow> row_step A B r r''"
  by (auto simp: row_step_def)

lemma finding_step_same:
  "review_findings t = review_findings s \<Longrightarrow> finding_step A B s t"
  unfolding finding_step_def by (intro exI [of _ id] exI [of _ "[]"]) (simp add: row_step_refl)

lemma finding_step_trans:
  assumes "finding_step A B s t" and "finding_step A B t u"
  shows "finding_step A B s u"
proof -
  obtain g n where g: "rows (review_findings t) = map g (rows (review_findings s)) @ n"
    "\<forall>r \<in> set (rows (review_findings s)). row_step A B r (g r)"
    using assms(1) unfolding finding_step_def by blast
  obtain h m where h: "rows (review_findings u) = map h (rows (review_findings t)) @ m"
    "\<forall>r \<in> set (rows (review_findings t)). row_step A B r (h r)"
    using assms(2) unfolding finding_step_def by blast
  have "rows (review_findings u) = map (h \<circ> g) (rows (review_findings s)) @ (map h n @ m)"
    by (simp add: h(1) g(1))
  moreover have "\<forall>r \<in> set (rows (review_findings s)). row_step A B r ((h \<circ> g) r)"
    using g h(2) row_step_trans by fastforce
  ultimately show ?thesis unfolding finding_step_def by blast
qed

interpretation fstep: store_rel "finding_step A B" for A B
proof
  show "finding_step A B s s" for s by (rule finding_step_same) simp
  show "finding_step A B s (s\<lparr>faults := fs, last_rowid := i\<rparr>)" for s :: db and fs i
    by (rule finding_step_same) simp
  show "finding_step A B s t \<Longrightarrow> finding_step A B t u \<Longrightarrow> finding_step A B s u" for s t u
    by (rule finding_step_trans)
qed

lemma finding_step_mono:
  assumes "finding_step A B s t" and "A \<subseteq> A'" and "\<And>i. B i \<subseteq> B' i"
  shows "finding_step A' B' s t"
proof -
  have "row_step A B r r' \<Longrightarrow> row_step A' B' r r'" for r r'
    using assms(2,3) unfolding row_step_def by blast
  with assms(1) show ?thesis unfolding finding_step_def by blast
qed

lemma finding_step_row:
  assumes "finding_step A B s t" and "r \<in> set (rows (review_findings s))"
  obtains r' where "r' \<in> set (rows (review_findings t))" and "row_step A B r r'"
  using assms unfolding finding_step_def by force

lemma keeps_update_finding:
  assumes "\<And>r. rf_id (f r) = rf_id r" and "\<And>r. rf_merge_request_id (f r) = rf_merge_request_id r"
    and "i \<in> A" and "\<And>r. rf_state (f r) = rf_state r \<or> rf_state (f r) \<in> B i"
  shows "keeps (finding_step A B) (update_findings (\<lambda>r. rf_id r = i) f)"
  unfolding update_findings_def
proof (rule fstep.keeps_exec)
  fix s :: db
  let ?g = "\<lambda>r. if rf_id r = i then (f r)\<lparr>rf_updated_at := clock s\<rparr> else r"
  have "row_step A B r (?g r)" for r
    using assms by (auto simp: row_step_def)
  then show "finding_step A B s (s\<lparr>review_findings := update_rows (\<lambda>r. rf_id r = i)
      (\<lambda>r. (f r)\<lparr>rf_updated_at := clock s\<rparr>) (review_findings s)\<rparr>)"
    unfolding finding_step_def by (intro exI [of _ ?g] exI [of _ "[]"]) simp
qed

lemma keeps_insertFinding: "keeps (finding_step A B) (insertFinding run mr f)"
  unfolding insertFinding_def InsertReviewFinding_def
proof (rule fstep.keeps_stmt)
  fix s :: db
  have "finding_step A B s (snd (insert_into review_findings review_findings_update (new_finding row) s))" for row
    unfolding finding_step_def
    by (intro exI [of _ id] exI [of _ "[new_finding row (clock s) (next_id (review_findings s))]"])
      (simp add: insert_into_def row_step_refl)
  then show "finding_step A B s (snd (if no_run (rf_review_run_id (finding_row run mr f)) s
      \<or> no_merge_request (rf_merge_request_id (finding_row run mr f)) s then (Inl ErrForeignKey, s)
      else insert_into review_findings review_findings_update (new_finding (finding_row run mr f)) s))"
    by (simp add: fstep.R_refl)
qed

subsection \<open>The decision for a finding\<close>

text \<open>What the matching decides does not depend on the statements it runs.\<close>

definition decide_match :: "semantic_matcher option \<Rightarrow> review_run \<Rightarrow> review_finding list \<Rightarrow> persisted_finding \<Rightarrow> match_decision" where
  "decide_match matcher run existing f =
     (case List.find (anchor_match f) existing of
        Some c \<Rightarrow> keep_existing c
      | None \<Rightarrow> (case List.find (semantic_match run f) existing of
          Some c \<Rightarrow> if relocationMatches c (pf_normalized f) then keep_existing c else replace_existing c
        | None \<Rightarrow> (case matcher of
            None \<Rightarrow> no_match
          | Some m \<Rightarrow> (case List.find (model_match m run f) existing of
              Some c \<Rightarrow> replace_existing c | None \<Rightarrow> no_match))))"

lemma match_decides:
  "matchExistingFindingWithMatcher matcher run existing f s = (Inr d, t) \<Longrightarrow> d = decide_match matcher run existing f"
  unfolding matchExistingFindingWithMatcher_def decide_match_def
  by (auto simp: ret_apply elim: bindM_elim split: option.splits if_splits)

lemma match_keeps:
  assumes "md_existing_id (decide_match matcher run existing f) \<in> A"
  shows "keeps (finding_step A B) (matchExistingFindingWithMatcher matcher run existing f)"
  using assms unfolding matchExistingFindingWithMatcher_def decide_match_def UpdateFindingLastSeen_def
    UpdateFindingRelocation_def
  by (auto simp: keep_existing_def relocate_def split: option.splits
      intro!: fstep.keeps_rules keeps_update_finding)

lemma find_member: "List.find p xs = Some x \<Longrightarrow> x \<in> set xs"
  by (auto simp: find_Some_iff)

lemma decide_match_existing:
  "md_existing_id (decide_match matcher run existing f) \<in> insert 0 (rf_id ` set existing)"
  unfolding decide_match_def
  by (auto simp: keep_existing_def replace_existing_def no_match_def dest: find_member split: option.splits)

lemma decide_match_supersede:
  "md_supersede_id (decide_match matcher run existing f) \<in> {0, md_existing_id (decide_match matcher run existing f)}"
  unfolding decide_match_def
  by (auto simp: keep_existing_def replace_existing_def no_match_def split: option.splits)

text \<open>The stored findings that some finding of the run matches, and those it supersedes.\<close>

definition live_results :: "persisted_finding list \<Rightarrow> persisted_finding list" where
  "live_results ps = filter (\<lambda>f. pf_state f \<noteq> ''filtered'' \<and> pf_state f \<noteq> ''__deleted__'') ps"

definition matched_ids :: "semantic_matcher option \<Rightarrow> review_run \<Rightarrow> review_finding list \<Rightarrow> persisted_finding list \<Rightarrow> int set" where
  "matched_ids matcher run existing ps =
     (\<lambda>f. md_existing_id (decide_match matcher run existing f)) ` set (live_results ps) - {0}"

definition superseded_ids :: "semantic_matcher option \<Rightarrow> review_run \<Rightarrow> review_finding list \<Rightarrow> persisted_finding list \<Rightarrow> int set" where
  "superseded_ids matcher run existing ps =
     (\<lambda>f. md_supersede_id (decide_match matcher run existing f)) ` set (live_results ps) - {0}"

definition superseding :: "int set \<Rightarrow> int \<Rightarrow> string set" where
  "superseding S i = (if i \<in> S then {''superseded''} else {})"

context store_rel
begin

lemma keeps_bindM_result:
  assumes "keeps R m" and "\<And>s x t. m s = (Inr x, t) \<Longrightarrow> keeps R (f x)"
  shows "keeps R (bindM m f)"
proof (rule keepsI)
  fix s r t
  assume "bindM m f s = (r, t)"
  then show "R s t"
    using keepsD [OF assms(1)] keepsD [OF assms(2)] R_trans
    by (auto simp: bindM_def split: prod.splits sum.splits) blast
qed

end

lemma persist_one_keeps:
  assumes "insert 0 (matched_ids matcher run existing [f]) \<subseteq> A"
    and "\<And>i. i \<in> superseded_ids matcher run existing [f] \<Longrightarrow> ''superseded'' \<in> B i"
  shows "keeps (finding_step A B) (persist_one matcher run mr existing f matched)"
proof (cases "pf_state f = ''filtered'' \<or> pf_state f = ''__deleted__''")
  case True
  then show ?thesis
    by (auto simp: persist_one_def intro!: fstep.keeps_rules keeps_insertFinding)
next
  case False
  define d where "d = decide_match matcher run existing f"
  have l: "live_results [f] = [f]" using False by (simp add: live_results_def)
  have A: "md_existing_id d \<in> A"
    using assms(1) by (auto simp: matched_ids_def l d_def)
  have S: "md_supersede_id d \<noteq> 0 \<Longrightarrow> md_supersede_id d \<in> A \<and> ''superseded'' \<in> B (md_supersede_id d)"
    using A assms(2) decide_match_supersede [of matcher run existing f] by (auto simp: superseded_ids_def l d_def)
  have "keeps (finding_step A B) (UpdateFindingState ''superseded'' m (md_supersede_id d))"
    if "md_supersede_id d \<noteq> 0" for m
    unfolding UpdateFindingState_def using S [OF that] by (intro keeps_update_finding) auto
  then have cont: "keeps (finding_step A B) (if md_skip_insert d then ret m
      else bindM (insertFinding run mr f) (\<lambda>insertedID. if md_supersede_id d \<noteq> 0
        then bindM (UpdateFindingState ''superseded'' (Some insertedID) (md_supersede_id d)) (\<lambda>_. ret m) else ret m))"
    for m
    by (auto intro!: keeps_insertFinding fstep.keeps_rules)
  have step: "keeps (finding_step A B) (bindM (matchExistingFindingWithMatcher matcher run existing f) k)"
    if "keeps (finding_step A B) (k d)" for k :: "match_decision \<Rightarrow> int list dbm"
    using that A by (intro fstep.keeps_bindM_result match_keeps) (auto simp: d_def dest: match_decides)
  have "persist_one matcher run mr existing f matched =
      bindM (matchExistingFindingWithMatcher matcher run existing f) (\<lambda>d.
        let matched' = (if md_existing_id d \<noteq> 0 then md_existing_id d # matched else matched) in
        if md_skip_insert d then ret matched'
        else bindM (insertFinding run mr f) (\<lambda>insertedID.
          if md_supersede_id d \<noteq> 0
          then bindM (UpdateFindingState ''superseded'' (Some insertedID) (md_supersede_id d)) (\<lambda>_. ret matched')
          else ret matched'))"
    using False by (simp add: persist_one_def)
  then show ?thesis
    by (simp only:) (rule step, unfold Let_def, rule cont)
qed

lemma matched_ids_Cons:
  "matched_ids matcher run existing (f # ps) = matched_ids matcher run existing [f] \<union> matched_ids matcher run existing ps"
  by (auto simp: matched_ids_def live_results_def)

lemma superseded_ids_Cons:
  "superseded_ids matcher run existing (f # ps)
     = superseded_ids matcher run existing [f] \<union> superseded_ids matcher run existing ps"
  by (auto simp: superseded_ids_def live_results_def)

lemma matched_ids_existing: "matched_ids matcher run existing ps \<subseteq> rf_id ` set existing"
  using decide_match_existing by (fastforce simp: matched_ids_def)

lemma superseded_ids_matched:
  "superseded_ids matcher run existing ps \<subseteq> matched_ids matcher run existing ps"
  using decide_match_supersede unfolding superseded_ids_def matched_ids_def by fastforce

lemma persist_all_keeps:
  assumes "insert 0 (matched_ids matcher run existing ps) \<subseteq> A"
    and "\<And>i. i \<in> superseded_ids matcher run existing ps \<Longrightarrow> ''superseded'' \<in> B i"
  shows "keeps (finding_step A B) (persist_all matcher run mr existing ps matched)"
  using assms
proof (induction ps arbitrary: matched)
  case (Cons f ps)
  have "keeps (finding_step A B) (persist_one matcher run mr existing f matched)"
    using Cons.prems by (intro persist_one_keeps) (auto simp: matched_ids_Cons [of matcher run existing f ps] superseded_ids_Cons [of matcher run existing f ps])
  moreover have "keeps (finding_step A B) (persist_all matcher run mr existing ps m)" for m
    using Cons.prems by (intro Cons.IH) (auto simp: matched_ids_Cons [of matcher run existing f ps] superseded_ids_Cons [of matcher run existing f ps])
  ultimately show ?case by (auto intro: fstep.keeps_bindM)
qed (simp add: fstep.keeps_ret)

text \<open>The effect of one finding, step by step.\<close>

lemma persist_one_matched:
  assumes "persist_one matcher run mr existing f matched s = (Inr m, t)"
  shows "set m = set matched \<union> matched_ids matcher run existing [f]"
proof (cases "pf_state f = ''filtered'' \<or> pf_state f = ''__deleted__''")
  case True
  then show ?thesis
    using assms by (auto simp: persist_one_def matched_ids_def live_results_def ret_apply elim: bindM_elim split: if_splits)
next
  case False
  from False assms obtain d s1 where d: "matchExistingFindingWithMatcher matcher run existing f s = (Inr d, s1)"
    "m = (if md_existing_id d \<noteq> 0 then md_existing_id d # matched else matched)"
    by (auto simp: persist_one_def Let_def ret_apply elim!: bindM_elim split: if_splits)
  then show ?thesis
    using False match_decides [OF d(1)] by (auto simp: matched_ids_def live_results_def)
qed

lemma UpdateFindingState_row:
  assumes "UpdateFindingState st m i s = (Inr u, t)" and "r \<in> set (rows (review_findings s))" and "rf_id r = i"
  shows "\<exists>r' \<in> set (rows (review_findings t)). rf_id r' = i \<and> rf_state r' = st"
proof -
  define g :: "review_finding \<Rightarrow> review_finding" where "g = (\<lambda>f. if rf_id f = i
      then f\<lparr>rf_state := st, rf_matched_finding_id := m, rf_updated_at := clock s\<rparr> else f)"
  have "rows (review_findings t) = map g (rows (review_findings s))"
    using assms(1) unfolding UpdateFindingState_def update_findings_def exec_def g_def
    by (cases rule: stmt_cases) auto
  then have "g r \<in> set (rows (review_findings t))" using assms(2) by simp
  moreover have "rf_id (g r) = i \<and> rf_state (g r) = st" using assms(3) by (simp add: g_def)
  ultimately show ?thesis by blast
qed

lemma persist_one_superseded:
  assumes "persist_one matcher run mr existing f matched s = (Inr m, t)"
    and "i \<in> superseded_ids matcher run existing [f]"
    and "r \<in> set (rows (review_findings s))" and "rf_id r = i"
  shows "\<exists>r' \<in> set (rows (review_findings t)). rf_id r' = i \<and> rf_state r' = ''superseded''"
proof -
  define d where "d = decide_match matcher run existing f"
  have f: "pf_state f \<noteq> ''filtered''" "pf_state f \<noteq> ''__deleted__''" and i: "md_supersede_id d = i" "i \<noteq> 0"
    using assms(2) by (auto simp: superseded_ids_def live_results_def d_def split: if_splits)
  have skip: "\<not> md_skip_insert d"
    using i unfolding d_def decide_match_def
    by (auto simp: keep_existing_def replace_existing_def no_match_def split: option.splits if_splits)
  obtain s1 where s1: "matchExistingFindingWithMatcher matcher run existing f s = (Inr d, s1)"
    and k: "bindM (insertFinding run mr f) (\<lambda>insertedID. bindM (UpdateFindingState ''superseded'' (Some insertedID) i)
        (\<lambda>_. ret (if md_existing_id d \<noteq> 0 then md_existing_id d # matched else matched))) s1 = (Inr m, t)"
  proof (rule bindM_elim)
    show "bindM (matchExistingFindingWithMatcher matcher run existing f) (\<lambda>d.
        let matched' = (if md_existing_id d \<noteq> 0 then md_existing_id d # matched else matched) in
        if md_skip_insert d then ret matched'
        else bindM (insertFinding run mr f) (\<lambda>insertedID.
          if md_supersede_id d \<noteq> 0
          then bindM (UpdateFindingState ''superseded'' (Some insertedID) (md_supersede_id d)) (\<lambda>_. ret matched')
          else ret matched')) s = (Inr m, t)"
      using assms(1) f by (simp add: persist_one_def)
  next
    fix x s1
    assume x: "matchExistingFindingWithMatcher matcher run existing f s = (Inr x, s1)"
    then have "x = d" by (simp add: d_def match_decides)
    moreover assume "(let matched' = (if md_existing_id x \<noteq> 0 then md_existing_id x # matched else matched) in
        if md_skip_insert x then ret matched'
        else bindM (insertFinding run mr f) (\<lambda>insertedID.
          if md_supersede_id x \<noteq> 0
          then bindM (UpdateFindingState ''superseded'' (Some insertedID) (md_supersede_id x)) (\<lambda>_. ret matched')
          else ret matched')) s1 = (Inr m, t)"
    ultimately show thesis
      using that x skip i by (hypsubst_thin, simp add: Let_def)
  qed
  obtain j s2 where s2: "insertFinding run mr f s1 = (Inr j, s2)"
    and t: "UpdateFindingState ''superseded'' (Some j) i s2 = (Inr (), t)"
    using k by (auto simp: ret_apply elim!: bindM_elim)
  have "finding_step UNIV (\<lambda>_. UNIV) s s1" by (rule keepsD [OF match_keeps s1]) simp
  moreover have "finding_step UNIV (\<lambda>_. UNIV) s1 s2" by (rule keepsD [OF keeps_insertFinding s2])
  ultimately have "finding_step UNIV (\<lambda>_. UNIV) s s2" by (rule finding_step_trans)
  then obtain r2 where "r2 \<in> set (rows (review_findings s2))" "rf_id r2 = i"
    using finding_step_row [OF _ assms(3)] assms(4) by (metis row_step_def)
  then show ?thesis by (rule UpdateFindingState_row [OF t])
qed

lemma persist_all_matched:
  assumes "persist_all matcher run mr existing ps matched s = (Inr m, t)"
  shows "set m = set matched \<union> matched_ids matcher run existing ps"
  using assms
proof (induction ps arbitrary: matched s)
  case Nil
  then show ?case by (simp add: ret_apply matched_ids_def live_results_def)
next
  case (Cons f ps)
  then obtain m1 s1 where m1: "persist_one matcher run mr existing f matched s = (Inr m1, s1)"
    and "persist_all matcher run mr existing ps m1 s1 = (Inr m, t)"
    by (auto elim: bindM_elim)
  from Cons.IH [OF this(2)] persist_one_matched [OF m1] show ?case
    by (auto simp: matched_ids_Cons [of matcher run existing f ps])
qed

lemma persist_all_superseded:
  assumes "persist_all matcher run mr existing ps matched s = (Inr m, t)"
    and "i \<in> superseded_ids matcher run existing ps"
    and "r \<in> set (rows (review_findings s))" and "rf_id r = i"
  shows "\<exists>r' \<in> set (rows (review_findings t)). rf_id r' = i \<and> rf_state r' = ''superseded''"
  using assms
proof (induction ps arbitrary: matched s r)
  case Nil
  then show ?case by (simp add: superseded_ids_def live_results_def)
next
  case (Cons f ps)
  then obtain m1 s1 where m1: "persist_one matcher run mr existing f matched s = (Inr m1, s1)"
    and rest: "persist_all matcher run mr existing ps m1 s1 = (Inr m, t)"
    by (auto elim: bindM_elim)
  show ?case
  proof (cases "i \<in> superseded_ids matcher run existing ps")
    case True
    have "finding_step UNIV (\<lambda>_. UNIV) s s1"
      by (rule keepsD [OF persist_one_keeps m1]) auto
    then obtain r1 where "r1 \<in> set (rows (review_findings s1))" "rf_id r1 = i"
      using finding_step_row [OF _ Cons.prems(3)] Cons.prems(4) by (metis row_step_def)
    then show ?thesis by (rule Cons.IH [OF rest True])
  next
    case False
    then have "i \<in> superseded_ids matcher run existing [f]"
      using Cons.prems(2) superseded_ids_Cons [of matcher run existing f ps] by blast
    then obtain r1 where r1: "r1 \<in> set (rows (review_findings s1))" "rf_id r1 = i" "rf_state r1 = ''superseded''"
      using persist_one_superseded [OF m1 _ Cons.prems(3,4)] by blast
    have "finding_step UNIV (\<lambda>_. {''superseded''}) s1 t"
      by (rule keepsD [OF persist_all_keeps rest]) auto
    then obtain r2 where "r2 \<in> set (rows (review_findings t))" "row_step UNIV (\<lambda>_. {''superseded''}) r1 r2"
      using finding_step_row [OF _ r1(1)] by blast
    then show ?thesis using r1 by (auto simp: row_step_def)
  qed
qed

subsection \<open>The last loop\<close>

lemma settle_missing_keeps:
  assumes "finding_live c" and "rf_id c \<notin> set matched \<Longrightarrow> rf_id c \<in> A"
    and "rf_id c \<notin> set matched \<Longrightarrow> {''fixed'', ''stale''} \<subseteq> B (rf_id c)"
  shows "keeps (finding_step A B) (settle_missing reviewedPaths deletedPaths matched c)"
proof (cases "rf_id c \<in> set matched")
  case True
  then show ?thesis by (simp add: settle_missing_def fstep.keeps_ret)
next
  case False
  have m: "missing_state reviewedPaths deletedPaths c \<in> {None, Some ''fixed'', Some ''stale''}"
    by (simp add: missing_state_def Let_def)
  have "keeps (finding_step A B) (UpdateFindingState st None (rf_id c))" if "st \<in> {''fixed'', ''stale''}" for st
    unfolding UpdateFindingState_def using assms(2,3) False that by (intro keeps_update_finding) auto
  with False m show ?thesis
    by (auto simp: settle_missing_def transitionMissing_live [OF assms(1)] fstep.keeps_ret split: option.splits)
qed

lemma settle_loop_keeps:
  assumes "\<And>c. c \<in> set cs \<Longrightarrow> finding_live c"
    and "\<And>c. c \<in> set cs \<Longrightarrow> rf_id c \<notin> set matched \<Longrightarrow> rf_id c \<in> A \<and> {''fixed'', ''stale''} \<subseteq> B (rf_id c)"
  shows "keeps (finding_step A B) (forM cs (settle_missing reviewedPaths deletedPaths matched))"
  using assms
proof (induction cs)
  case (Cons c cs)
  have "keeps (finding_step A B) (settle_missing reviewedPaths deletedPaths matched c)"
    using Cons.prems by (intro settle_missing_keeps) auto
  with Cons show ?case by (auto intro!: fstep.keeps_bindM)
qed (simp add: fstep.keeps_ret)

lemma settle_missing_row:
  assumes "settle_missing reviewedPaths deletedPaths matched c s = (Inr u, t)" and "finding_live c"
    and "rf_id c \<notin> set matched" and "r \<in> set (rows (review_findings s))" and "rf_id r = rf_id c"
  shows "\<exists>r' \<in> set (rows (review_findings t)). rf_id r' = rf_id c
    \<and> rf_state r' = (case missing_state reviewedPaths deletedPaths c of None \<Rightarrow> rf_state r | Some st \<Rightarrow> st)"
proof (cases "missing_state reviewedPaths deletedPaths c")
  case None
  with assms show ?thesis
    by (auto simp: settle_missing_def transitionMissing_live [OF assms(2)] ret_apply intro!: bexI [of _ r])
next
  case (Some st)
  with assms have "UpdateFindingState st None (rf_id c) s = (Inr u, t)"
    by (simp add: settle_missing_def transitionMissing_live [OF assms(2)])
  from UpdateFindingState_row [OF this assms(4,5)] Some show ?thesis by simp
qed

lemma settle_loop_row:
  assumes "forM cs (settle_missing reviewedPaths deletedPaths matched) s = (Inr u, t)"
    and "\<And>x. x \<in> set cs \<Longrightarrow> finding_live x" and "distinct (map rf_id cs)"
    and "c \<in> set cs" and "rf_id c \<notin> set matched"
    and "r \<in> set (rows (review_findings s))" and "rf_id r = rf_id c"
  shows "\<exists>r' \<in> set (rows (review_findings t)). rf_id r' = rf_id c
    \<and> rf_state r' = (case missing_state reviewedPaths deletedPaths c of None \<Rightarrow> rf_state r | Some st \<Rightarrow> st)"
  using assms
proof (induction cs arbitrary: s r)
  case (Cons x cs)
  then obtain v s1 where v: "settle_missing reviewedPaths deletedPaths matched x s = (Inr v, s1)"
    and rest: "forM cs (settle_missing reviewedPaths deletedPaths matched) s1 = (Inr u, t)"
    by (auto elim: bindM_elim)
  show ?case
  proof (cases "c \<in> set cs")
    case True
    then have ne: "rf_id x \<noteq> rf_id c" using Cons.prems(3) by force
    have "finding_step {rf_id x} (\<lambda>_. UNIV) s s1"
      using Cons.prems(2) by (intro keepsD [OF settle_missing_keeps v]) auto
    then have "r \<in> set (rows (review_findings s1))"
      using finding_step_row [OF _ Cons.prems(6)] ne Cons.prems(7) by (metis row_step_def singletonD)
    then show ?thesis using Cons True rest by simp
  next
    case False
    then have x: "x = c" using Cons.prems(4) by simp
    then obtain r1 where r1: "r1 \<in> set (rows (review_findings s1))" "rf_id r1 = rf_id c"
      "rf_state r1 = (case missing_state reviewedPaths deletedPaths c of None \<Rightarrow> rf_state r | Some st \<Rightarrow> st)"
      using settle_missing_row [OF v _ _ Cons.prems(6)] Cons.prems by auto
    have "finding_step (rf_id ` set cs) (\<lambda>_. UNIV) s1 t"
      using Cons.prems(2) by (intro keepsD [OF settle_loop_keeps rest]) auto
    moreover have "rf_id r1 \<notin> rf_id ` set cs" using Cons.prems(3) r1(2) x by simp
    ultimately have "r1 \<in> set (rows (review_findings t))"
      using finding_step_row [OF _ r1(1)] by (metis row_step_def)
    with r1 show ?thesis by blast
  qed
qed simp

subsection \<open>The whole operation\<close>

definition active_findings :: "int \<Rightarrow> db \<Rightarrow> review_finding list" where
  "active_findings mrID s = sort_key rf_created_at
     (filter (\<lambda>f. rf_merge_request_id f = mrID \<and> finding_live f) (rows (review_findings s)))"

definition run_results :: "(string \<Rightarrow> string) \<Rightarrow> review_run \<Rightarrow> llm_finding list \<Rightarrow> db \<Rightarrow> persisted_finding list" where
  "run_results hash run findings s =
     dedup_in_run hash (thresholdsFromPolicy (find_row (\<lambda>r. pp_project_id r = rr_project_id run) (policies s))) [] findings"

definition findings_ok :: "db \<Rightarrow> bool" where
  "findings_ok s \<longleftrightarrow> table_ok rf_id rf_id (review_findings s)"

lemma same_tables_findings: "same_tables s t \<Longrightarrow> review_findings t = review_findings s \<and> policies t = policies s"
  by (auto simp: same_tables_def)

lemma ListActive_Inr:
  assumes "ListActiveFindingsByMR m s = (Inr existing, t)"
  shows "existing = active_findings m s \<and> same_tables s t"
proof
  show "same_tables s t" using assms unfolding ListActiveFindingsByMR_def by (rule keepsD [OF same.keeps_query_all])
  show "existing = active_findings m s"
    using assms unfolding ListActiveFindingsByMR_def query_all_def active_findings_def
    by (cases rule: stmt_cases) auto
qed

lemma GetProjectPolicy_result:
  assumes "GetProjectPolicy i s = (r, t)"
  shows "same_tables s t" and "r = Inr p \<Longrightarrow> find_row (\<lambda>r. pp_project_id r = i) (policies s) = Some p"
    and "r = Inl ErrNoRows \<Longrightarrow> find_row (\<lambda>r. pp_project_id r = i) (policies s) = None"
proof -
  show "same_tables s t" using assms unfolding GetProjectPolicy_def by (rule keepsD [OF same.keeps_query_row])
  show "r = Inr p \<Longrightarrow> find_row (\<lambda>r. pp_project_id r = i) (policies s) = Some p"
    "r = Inl ErrNoRows \<Longrightarrow> find_row (\<lambda>r. pp_project_id r = i) (policies s) = None"
    using assms unfolding GetProjectPolicy_def query_row_def
    by (cases rule: stmt_cases, auto split: option.splits)+
qed

text \<open>The operation is its two loops on the active findings, unless a read failed.\<close>

lemma persistFindings_loops:
  assumes "persistFindingsWithMatcher hash matcher run mr findings reviewedPaths deletedPaths s = (res, t)"
  obtains (read_error) e where "res = Inl e" and "review_findings t = review_findings s"
  | (loops) s1 where "review_findings s1 = review_findings s"
      and "bindM (persist_all matcher run mr (active_findings (mr_id mr) s) (run_results hash run findings s) [])
         (\<lambda>matched. forM (active_findings (mr_id mr) s) (settle_missing reviewedPaths deletedPaths matched)) s1 = (res, t)"
proof -
  obtain a s1 where a: "ListActiveFindingsByMR (mr_id mr) s = (a, s1)"
    by (cases "ListActiveFindingsByMR (mr_id mr) s")
  have s1: "same_tables s s1"
    using a unfolding ListActiveFindingsByMR_def by (rule keepsD [OF same.keeps_query_all])
  show ?thesis
  proof (cases a)
    case (Inl e)
    then have "res = Inl e \<and> t = s1" using assms a by (simp add: persistFindingsWithMatcher_def bindM_def)
    then show ?thesis using read_error same_tables_findings [OF s1] by simp
  next
    case (Inr existing)
    have ex: "existing = active_findings (mr_id mr) s" using ListActive_Inr a Inr by simp
    obtain p s2 where p: "GetProjectPolicy (rr_project_id run) s1 = (p, s2)"
      by (cases "GetProjectPolicy (rr_project_id run) s1")
    have s2: "review_findings s2 = review_findings s" "policies s1 = policies s"
      using same_tables_findings [OF GetProjectPolicy_result(1) [OF p]] same_tables_findings [OF s1] by simp_all
    have run: "persistFindingsWithMatcher hash matcher run mr findings reviewedPaths deletedPaths s =
        (case p of Inl e \<Rightarrow> if e \<noteq> ErrNoRows then throw e else
            bindM (persist_all matcher run mr existing (dedup_in_run hash (thresholdsFromPolicy None) [] findings) [])
              (\<lambda>matched. forM existing (settle_missing reviewedPaths deletedPaths matched))
         | Inr q \<Rightarrow>
            bindM (persist_all matcher run mr existing (dedup_in_run hash (thresholdsFromPolicy (Some q)) [] findings) [])
              (\<lambda>matched. forM existing (settle_missing reviewedPaths deletedPaths matched))) s2"
      using a p Inr by (simp add: persistFindingsWithMatcher_def bindM_def tryM_def)
    show ?thesis
    proof (cases "\<exists>e. p = Inl e \<and> e \<noteq> ErrNoRows")
      case True
      then show ?thesis using read_error run assms s2 by (auto simp: throw_apply)
    next
      case False
      then have "bindM (persist_all matcher run mr existing (run_results hash run findings s) [])
         (\<lambda>matched. forM existing (settle_missing reviewedPaths deletedPaths matched)) s2 = (res, t)"
        using run assms GetProjectPolicy_result(2,3) [OF p] s2(2)
        by (cases p) (auto simp: run_results_def)
      then show ?thesis using loops s2(1) ex by blast
    qed
  qed
qed

lemma active_findings_props:
  assumes "findings_ok s"
  shows "c \<in> set (active_findings m s) \<longleftrightarrow> c \<in> set (rows (review_findings s)) \<and> rf_merge_request_id c = m \<and> finding_live c"
    and "distinct (map rf_id (active_findings m s))" and "0 \<notin> rf_id ` set (rows (review_findings s))"
proof -
  show "c \<in> set (active_findings m s) \<longleftrightarrow> c \<in> set (rows (review_findings s)) \<and> rf_merge_request_id c = m \<and> finding_live c"
    by (auto simp: active_findings_def)
  have d: "distinct (map rf_id (rows (review_findings s)))" using assms by (simp add: findings_ok_def table_ok_def)
  have "distinct (active_findings m s)" using d unfolding active_findings_def by (simp add: distinct_map)
  moreover have "inj_on rf_id (set (active_findings m s))"
    using d unfolding active_findings_def distinct_map by (auto intro: inj_on_subset)
  ultimately show "distinct (map rf_id (active_findings m s))" by (simp add: distinct_map)
  show "0 \<notin> rf_id ` set (rows (review_findings s))" using assms by (auto simp: findings_ok_def table_ok_def)
qed

lemma same_id_row:
  assumes "findings_ok s" and "r \<in> set (rows (review_findings s))" and "c \<in> set (rows (review_findings s))"
    and "rf_id r = rf_id c"
  shows "r = c"
  using assms unfolding findings_ok_def table_ok_def distinct_map by (auto dest: inj_onD)

text \<open>C34 (outcome of persisting): when a result was stored, every earlier finding is still there.
  Findings of other merge requests and findings that are no longer live are untouched. A live finding
  that a finding of the run matches stays in its state, or is \<^verbatim>\<open>superseded\<close> when the match asks for a new
  row; every other live finding is settled as missing.\<close>

theorem persistFindings_outcome:
  assumes "findings_ok s" and "r \<in> set (rows (review_findings s))"
    and "persistFindingsWithMatcher hash matcher run mr findings reviewedPaths deletedPaths s = (Inr (), t)"
    and "existing = active_findings (mr_id mr) s" and "results = run_results hash run findings s"
  shows "\<exists>r' \<in> set (rows (review_findings t)). rf_id r' = rf_id r \<and>
    (if r \<notin> set existing then r' = r
     else if rf_id r \<in> superseded_ids matcher run existing results then rf_state r' = ''superseded''
     else if rf_id r \<in> matched_ids matcher run existing results then rf_state r' = rf_state r
     else rf_state r' = (case missing_state reviewedPaths deletedPaths r of None \<Rightarrow> rf_state r | Some st \<Rightarrow> st))"
  using assms(3)
proof (cases rule: persistFindings_loops)
  case (read_error e)
  then show ?thesis by simp
next
  case (loops s0)
  let ?M = "matched_ids matcher run existing results" and ?S = "superseded_ids matcher run existing results"
  obtain m s1 where p: "persist_all matcher run mr existing results [] s0 = (Inr m, s1)"
    and q: "forM existing (settle_missing reviewedPaths deletedPaths m) s1 = (Inr (), t)"
    using loops(2) unfolding assms(4,5) by (rule bindM_elim)
  have m: "set m = ?M" using persist_all_matched [OF p] by simp
  have live: "\<And>c. c \<in> set existing \<Longrightarrow> finding_live c"
    using active_findings_props(1) [OF assms(1)] by (simp add: assms(4))
  have dist: "distinct (map rf_id existing)" using active_findings_props(2) [OF assms(1)] by (simp add: assms(4))
  have r0: "r \<in> set (rows (review_findings s0))" using assms(2) loops(1) by simp
  have nz: "rf_id r \<noteq> 0" using assms(2) active_findings_props(3) [OF assms(1)] by auto
  have step1: "finding_step (insert 0 ?M) (superseding ?S) s0 s1"
    by (rule keepsD [OF persist_all_keeps p]) (auto simp: superseding_def)
  have step2: "finding_step (rf_id ` set existing - ?M) (\<lambda>_. UNIV) s1 t"
    using live by (intro keepsD [OF settle_loop_keeps q]) (auto simp: m)
  obtain r1 where r1: "r1 \<in> set (rows (review_findings s1))" "row_step (insert 0 ?M) (superseding ?S) r r1"
    using finding_step_row [OF step1 r0] .
  obtain r2 where r2: "r2 \<in> set (rows (review_findings t))" "row_step (rf_id ` set existing - ?M) (\<lambda>_. UNIV) r1 r2"
    using finding_step_row [OF step2 r1(1)] .
  have ids: "rf_id r1 = rf_id r" "rf_id r2 = rf_id r" using r1(2) r2(2) by (simp_all add: row_step_def)
  show ?thesis
  proof (cases "r \<in> set existing")
    case False
    have "rf_id r \<notin> rf_id ` set existing"
      using False same_id_row [OF assms(1,2)] active_findings_props(1) [OF assms(1)] unfolding assms(4) by blast
    then have "r2 = r"
      using r1(2) r2(2) ids nz matched_ids_existing [of matcher run existing results] by (auto simp: row_step_def)
    with r2(1) False show ?thesis by auto
  next
    case True
    consider "rf_id r \<in> ?S" | "rf_id r \<in> ?M" "rf_id r \<notin> ?S" | "rf_id r \<notin> ?M" by blast
    then show ?thesis
    proof cases
      case 1
      obtain x where x: "x \<in> set (rows (review_findings s1))" "rf_id x = rf_id r" "rf_state x = ''superseded''"
        using persist_all_superseded [OF p 1 r0] by blast
      have "rf_id x \<notin> rf_id ` set existing - ?M" using 1 superseded_ids_matched [of matcher run existing results] x(2) by auto
      then have "x \<in> set (rows (review_findings t))"
        using finding_step_row [OF step2 x(1)] by (metis row_step_def)
      with x 1 True show ?thesis by auto
    next
      case 2
      then have "rf_state r2 = rf_state r" using r1(2) r2(2) ids by (auto simp: row_step_def superseding_def)
      with 2 True r2(1) ids show ?thesis by auto
    next
      case 3
      then have "r1 = r" using r1(2) nz by (simp add: row_step_def)
      then have "r \<in> set (rows (review_findings s1))" using r1(1) by simp
      from settle_loop_row [OF q live dist True _ this] 3 m
      obtain r3 where "r3 \<in> set (rows (review_findings t))" "rf_id r3 = rf_id r"
        "rf_state r3 = (case missing_state reviewedPaths deletedPaths r of None \<Rightarrow> rf_state r | Some st \<Rightarrow> st)"
        by auto
      moreover have "rf_id r \<notin> ?S" using 3 superseded_ids_matched by blast
      ultimately show ?thesis using 3 True by auto
    qed
  qed
qed

text \<open>Finding life cycle. whatever the outcome, errors in the middle included, persisting a result moves
  a stored finding only along a transition of the table, and never touches a finding that is not a
  live one of this merge request.\<close>

theorem persistFindings_transitions:
  assumes "findings_ok s" and "r \<in> set (rows (review_findings s))"
    and "persistFindingsWithMatcher hash matcher run mr findings reviewedPaths deletedPaths s = (res, t)"
  shows "\<exists>r' \<in> set (rows (review_findings t)). rf_id r' = rf_id r
    \<and> (rf_merge_request_id r = mr_id mr \<and> finding_live r
         \<and> (rf_state r' = rf_state r \<or> nextFindingState (rf_state r) (rf_state r') = Inr (Some (rf_state r')))
       \<or> r' = r)"
  using assms(3)
proof (cases rule: persistFindings_loops)
  case (read_error e)
  then show ?thesis using assms(2) by auto
next
  case (loops s0)
  let ?E = "active_findings (mr_id mr) s" and ?B = "\<lambda>_. {''superseded'', ''fixed'', ''stale''}"
  let ?R = "finding_step (insert 0 (rf_id ` set ?E)) ?B"
  have "keeps ?R (persist_all matcher run mr ?E (run_results hash run findings s) [])"
    using matched_ids_existing by (intro persist_all_keeps) blast+
  moreover have "keeps ?R (forM ?E (settle_missing reviewedPaths deletedPaths m))" for m
    using active_findings_props(1) [OF assms(1)] by (intro settle_loop_keeps) auto
  ultimately have "?R s0 t" by (intro keepsD [OF fstep.keeps_bindM loops(2)]) auto
  then obtain r' where r': "r' \<in> set (rows (review_findings t))" "row_step (insert 0 (rf_id ` set ?E)) ?B r r'"
    using finding_step_row assms(2) loops(1) by metis
  have nz: "rf_id r \<noteq> 0" using assms(2) active_findings_props(3) [OF assms(1)] by auto
  show ?thesis
  proof (cases "r \<in> set ?E")
    case True
    then have "finding_live r" "rf_merge_request_id r = mr_id mr" using active_findings_props(1) [OF assms(1)] by auto
    with r' nextFindingState_live [of r "rf_state r'"] show ?thesis by (auto simp: row_step_def)
  next
    case False
    have "rf_id r \<notin> rf_id ` set ?E"
      using False same_id_row [OF assms(1,2)] active_findings_props(1) [OF assms(1)] by blast
    with r' nz show ?thesis by (auto simp: row_step_def)
  qed
qed

subsection \<open>Normal paths\<close>

lemma contains_iff: "contains s p \<longleftrightarrow> index_of s p \<noteq> None"
  by (simp add: contains_def)

lemma collapse_slashes_none: "\<not> contains (collapse_slashes s) ''//''"
  by (induction s rule: collapse_slashes.induct) (subst collapse_slashes.simps, auto)

lemma index_of_suffix: "index_of (drop n s) p \<noteq> None \<Longrightarrow> p \<noteq> [] \<Longrightarrow> index_of s p \<noteq> None"
proof (induction s arbitrary: n)
  case (Cons c s)
  then show ?case by (cases n) (auto split: if_splits)
qed simp

text \<open>Normal paths. a normalised path has no doubled slash; the loop that removes them ends on every
  input.\<close>

theorem normalizePath_no_double_slash: "\<not> contains (normalizePath path) ''//''"
proof -
  define c where "c = collapse_slashes (replace_all (trim_space path) [CHR 0x5C] ''/'')"
  have "index_of c ''//'' = None" using collapse_slashes_none unfolding c_def contains_iff by blast
  then have "index_of (drop n c) ''//'' = None" for n using index_of_suffix [of n c "''//''"] by blast
  then show ?thesis
    using \<open>index_of c ''//'' = None\<close>
    by (simp add: normalizePath_def trim_prefix_def contains_iff c_def [symmetric])
qed

text \<open>Normalisation strips one leading \<^verbatim>\<open>./\<close>, so it is not idempotent; a
  stored path that keeps a second one is normalised again on every comparison and never equals the
  path of the same finding in the next run.\<close>

lemma normalizePath_not_idempotent:
  "normalizePath ''././a.go'' = ''./a.go'' \<and> normalizePath (normalizePath ''././a.go'') = ''a.go''
   \<and> \<not> relocationMatches (zero_review_finding\<lparr>rf_path := normalizePath ''././a.go'', rf_anchor_kind := ''new_line''\<rparr>)
        (normalizeFinding \<lparr>lf_category = [], lf_severity = [], lf_confidence = 0, lf_title = [], lf_body_markdown = [],
          lf_path = ''././a.go'', lf_anchor_kind = ''new_line'', lf_old_line = None, lf_new_line = Some 1,
          lf_range_start_kind = [], lf_range_start_old_line = None, lf_range_start_new_line = None,
          lf_range_end_kind = [], lf_range_end_old_line = None, lf_range_end_new_line = None,
          lf_anchor_snippet = [], lf_evidence = [], lf_suggested_patch = [], lf_canonical_key = [], lf_symbol = [],
          lf_trigger_condition = [], lf_impact = [], lf_introduced_by_this_change = True, lf_blind_spots = [],
          lf_no_finding_reason = []\<rparr>)"
  by code_simp

subsection \<open>Examples\<close>

definition sample_llm_finding :: "string \<Rightarrow> llm_finding" where
  "sample_llm_finding key =
     \<lparr>lf_category = ''bug'', lf_severity = ''high'', lf_confidence = 1, lf_title = ''t'', lf_body_markdown = ''b'',
      lf_path = ''a.go'', lf_anchor_kind = ''new'', lf_old_line = None, lf_new_line = Some 3,
      lf_range_start_kind = [], lf_range_start_old_line = None, lf_range_start_new_line = None,
      lf_range_end_kind = [], lf_range_end_old_line = None, lf_range_end_new_line = None,
      lf_anchor_snippet = [], lf_evidence = [], lf_suggested_patch = [], lf_canonical_key = key, lf_symbol = [],
      lf_trigger_condition = [], lf_impact = [], lf_introduced_by_this_change = True, lf_blind_spots = [],
      lf_no_finding_reason = []\<rparr>"

definition sample_stored :: "int \<Rightarrow> string \<Rightarrow> review_finding" where
  "sample_stored i path = zero_review_finding\<lparr>rf_id := i, rf_review_run_id := 1, rf_merge_request_id := 1,
     rf_path := path, rf_anchor_kind := ''new_line'', rf_state := ''posted'',
     rf_anchor_fingerprint := ''old'' @ itoa i, rf_semantic_fingerprint := ''old'' @ itoa i\<rparr>"

definition sample_dedup_db :: db where
  "sample_dedup_db = sample_db\<lparr>review_findings :=
     \<lparr>rows = [sample_stored 1 ''a.go'', sample_stored 2 ''b.go'', (sample_stored 3 ''a.go'')\<lparr>rf_state := ''ignored''\<rparr>],
      next_id = 4\<rparr>\<rparr>"

definition sample_persist :: "unit dbm" where
  "sample_persist = persistFindingsWithMatcher (\<lambda>x. x) None sample_running sample_mr
     [sample_llm_finding ''k'', sample_llm_finding ''k'', sample_llm_finding ''j''] [''a.go''] []"

lemma sample_dedup_ok: "findings_ok sample_dedup_db"
  by code_simp

lemma sample_persist_ok: "\<exists>t. sample_persist sample_dedup_db = (Inr (), t)"
proof -
  have "fst (sample_persist sample_dedup_db) = Inr ()" by code_simp
  then show ?thesis by (metis prod.collapse)
qed

theorem transitionMissingFinding_spec_witness:
  "transitionMissingFinding (sample_stored 1 ''a.go'') [''a.go''] [] False = Inr (Some ''fixed'')"
proof -
  have "finding_live (sample_stored 1 ''a.go'')" by code_simp
  moreover have "missing_state [''a.go''] [] (sample_stored 1 ''a.go'') = Some ''fixed''" by code_simp
  ultimately show ?thesis by (simp add: transitionMissingFinding_spec)
qed

theorem persistFindings_outcome_witness:
  "\<exists>r' \<in> set (rows (review_findings (snd (sample_persist sample_dedup_db)))). rf_id r' = 2 \<and> rf_state r' = ''stale''"
proof -
  obtain t where t: "sample_persist sample_dedup_db = (Inr (), t)" using sample_persist_ok by blast
  let ?r = "sample_stored 2 ''b.go''" and ?E = "active_findings (mr_id sample_mr) sample_dedup_db"
  let ?P = "run_results (\<lambda>x. x) sample_running [sample_llm_finding ''k'', sample_llm_finding ''k'', sample_llm_finding ''j'']
     sample_dedup_db"
  have r: "?r \<in> set (rows (review_findings sample_dedup_db))" by (simp add: sample_dedup_db_def)
  have e: "?r \<in> set ?E" by code_simp
  have m: "matched_ids None sample_running ?E ?P = {}" "superseded_ids None sample_running ?E ?P = {}" by code_simp+
  have i: "rf_id ?r = 2" "missing_state [''a.go''] [] ?r = Some ''stale''" by code_simp+
  show ?thesis
    using persistFindings_outcome [OF sample_dedup_ok r t [unfolded sample_persist_def] refl refl] e m i t by simp
qed

theorem persistFindings_transitions_witness:
  "\<exists>r' \<in> set (rows (review_findings (snd (sample_persist sample_dedup_db)))). rf_id r' = 3 \<and> rf_state r' = ''ignored''"
proof -
  obtain t where t: "sample_persist sample_dedup_db = (Inr (), t)" using sample_persist_ok by blast
  let ?r = "(sample_stored 3 ''a.go'')\<lparr>rf_state := ''ignored''\<rparr>"
  have r: "?r \<in> set (rows (review_findings sample_dedup_db))" by (simp add: sample_dedup_db_def)
  have d: "\<not> finding_live ?r" "rf_id ?r = 3" "rf_state ?r = ''ignored''" by code_simp+
  show ?thesis
    using persistFindings_transitions [OF sample_dedup_ok r t [unfolded sample_persist_def]] d t by (auto intro!: bexI [of _ ?r])
qed

end
