(* ===== verification/Llm_Parser.thy ===== *)
theory Llm_Parser
  imports Dedup Go_Json Go_Float "HOL-Library.Monad_Syntax"
begin

text \<open>
  Reading the answer of a model: \<^verbatim>\<open>internal/llm/parser.go\<close> with the result types of \<^verbatim>\<open>provider.go\<close>. A text is tried
  as it is, as a quoted string, as a marked block and after repairs; it is read into the result type and, when
  that fails or the result is incomplete, again with aliases for the member names. The byte-level JSON reader is the
  parameter \<open>rd\<close>: the first value of a text and the rest behind it. The iteration order of a Go map is the order
  of the members.
\<close>

subsection \<open>The result type\<close>

record review_result =
  rs_schema_version :: string
  rs_review_run_id :: string
  rs_summary :: string
  rs_findings :: "llm_finding list"
  rs_status :: string
  rs_summary_note :: "string option"
  rs_blind_spots :: "string list"

type_synonym reader = "string \<Rightarrow> (json \<times> string) option"

definition json_space :: "char \<Rightarrow> bool" where
  "json_space c \<longleftrightarrow> c \<in> {CHR 0x20, CHR 0x09, CHR 0x0A, CHR 0x0D}"

text \<open>\<^verbatim>\<open>json.Unmarshal\<close> reads one value and nothing behind it; \<^verbatim>\<open>Decoder.Decode\<close> reads the first value.\<close>

definition unmarshal :: "reader \<Rightarrow> string \<Rightarrow> json option" where
  "unmarshal rd t = (case rd t of None \<Rightarrow> None | Some (v, rest) \<Rightarrow> if list_all json_space rest then Some v else None)"

definition decode_first :: "reader \<Rightarrow> string \<Rightarrow> json option" where
  "decode_first rd t = map_option fst (rd t)"

subsection \<open>Numbers\<close>

text \<open>The value of a JSON number literal.\<close>

definition take_sign :: "string \<Rightarrow> bool \<times> string" where
  "take_sign t = (case t of c # cs \<Rightarrow> if c = CHR ''-'' then (True, cs) else if c = CHR ''+'' then (False, cs) else (False, t)
     | [] \<Rightarrow> (False, []))"

definition exponent_value :: "string \<Rightarrow> int option" where
  "exponent_value t = (case t of
     [] \<Rightarrow> Some 0
   | c # cs \<Rightarrow>
       if c \<noteq> CHR ''e'' \<and> c \<noteq> CHR ''E'' then None
       else (case take_sign cs of (neg, ds) \<Rightarrow>
         if ds = [] \<or> \<not> list_all is_digit ds then None
         else Some ((if neg then - 1 else 1) * int (digits_value 0 ds))))"

definition number_value :: "string \<Rightarrow> rat option" where
  "number_value t =
     (case take_sign t of (neg, u) \<Rightarrow>
       let ip = takeWhile is_digit u; r = dropWhile is_digit u;
           (fp, r') = (case r of c # cs \<Rightarrow> if c = CHR ''.'' then (takeWhile is_digit cs, dropWhile is_digit cs) else ([], r)
                       | [] \<Rightarrow> ([], []))
       in if ip = [] then None
          else map_option (\<lambda>e. (if neg then - 1 else 1) * of_nat (digits_value 0 (ip @ fp)) * 10 powi (e - int (length fp)))
                 (exponent_value r'))"

text \<open>\<^verbatim>\<open>strconv.ParseFloat(t, 64)\<close>: the nearest \<^verbatim>\<open>float64\<close>, subnormal numbers included, or an error beyond its range.\<close>

definition round64 :: "rat \<Rightarrow> rat" where
  "round64 x =
     (if x = 0 then 0
      else let ulp = 2 powi (max (exponent \<bar>x\<bar>) (- 1022) - 52) in of_int (half_even (x / ulp)) * ulp)"

definition parse_float64 :: "string \<Rightarrow> rat option" where
  "parse_float64 t = (case number_value t of
     None \<Rightarrow> None
   | Some x \<Rightarrow> if \<bar>round64 x\<bar> \<ge> 2 ^ 1024 then None else Some (round64 x))"

definition int32 :: "int \<Rightarrow> bool" where
  "int32 i \<longleftrightarrow> - (2 ^ 31) \<le> i \<and> i < 2 ^ 31"

definition isIntegralValue :: "string \<Rightarrow> bool" where
  "isIntegralValue t = (let u = trim_space t in
     if u = [] then False else case number_value u of None \<Rightarrow> False | Some x \<Rightarrow> x \<in> \<int>)"

subsection \<open>Reading into the result type\<close>

fun int32_field :: "int option \<Rightarrow> json list \<Rightarrow> int option option" where
  "int32_field acc [] = Some acc"
| "int32_field acc (JNumber t # vs) =
     (case parse_int64 t of None \<Rightarrow> None | Some i \<Rightarrow> if int32 i then int32_field (Some i) vs else None)"
| "int32_field acc (JNull # vs) = int32_field None vs"
| "int32_field acc (_ # vs) = None"

fun float_field :: "rat \<Rightarrow> json list \<Rightarrow> rat option" where
  "float_field acc [] = Some acc"
| "float_field acc (JNumber t # vs) = (case parse_float64 t of None \<Rightarrow> None | Some x \<Rightarrow> float_field x vs)"
| "float_field acc (JNull # vs) = float_field acc vs"
| "float_field acc (_ # vs) = None"

fun merge_structs :: "members list \<Rightarrow> json list \<Rightarrow> members list option" where
  "merge_structs old [] = Some []"
| "merge_structs old (JObject kvs # vs) =
     map_option ((#) ((case old of [] \<Rightarrow> [] | x # _ \<Rightarrow> x) @ kvs)) (merge_structs (tl old) vs)"
| "merge_structs old (JNull # vs) = map_option ((#) (case old of [] \<Rightarrow> [] | x # _ \<Rightarrow> x)) (merge_structs (tl old) vs)"
| "merge_structs old (_ # vs) = None"

fun structs_field :: "members list \<Rightarrow> json list \<Rightarrow> members list option" where
  "structs_field acc [] = Some acc"
| "structs_field acc (JArray xs # vs) = (case merge_structs acc xs of None \<Rightarrow> None | Some ys \<Rightarrow> structs_field ys vs)"
| "structs_field acc (JNull # vs) = structs_field [] vs"
| "structs_field acc (_ # vs) = None"

fun note_field :: "members option \<Rightarrow> json list \<Rightarrow> members option option" where
  "note_field acc [] = Some acc"
| "note_field acc (JObject kvs # vs) = note_field (Some ((case acc of None \<Rightarrow> [] | Some m \<Rightarrow> m) @ kvs)) vs"
| "note_field acc (JNull # vs) = note_field None vs"
| "note_field acc (_ # vs) = None"

definition int32_of :: "string \<Rightarrow> members \<Rightarrow> int option option" where
  "int32_of k kvs = int32_field None (named k kvs)"

definition float_of :: "string \<Rightarrow> members \<Rightarrow> rat option" where
  "float_of k kvs = float_field 0 (named k kvs)"

definition unmarshal_finding :: "members \<Rightarrow> llm_finding option" where
  "unmarshal_finding kvs = do {
     category \<leftarrow> str_of ''category'' kvs; severity \<leftarrow> str_of ''severity'' kvs; confidence \<leftarrow> float_of ''confidence'' kvs;
     title \<leftarrow> str_of ''title'' kvs; body \<leftarrow> str_of ''body_markdown'' kvs; path \<leftarrow> str_of ''path'' kvs;
     anchor_kind \<leftarrow> str_of ''anchor_kind'' kvs; old_line \<leftarrow> int32_of ''old_line'' kvs; new_line \<leftarrow> int32_of ''new_line'' kvs;
     start_kind \<leftarrow> str_of ''range_start_kind'' kvs; start_old \<leftarrow> int32_of ''range_start_old_line'' kvs;
     start_new \<leftarrow> int32_of ''range_start_new_line'' kvs; end_kind \<leftarrow> str_of ''range_end_kind'' kvs;
     end_old \<leftarrow> int32_of ''range_end_old_line'' kvs; end_new \<leftarrow> int32_of ''range_end_new_line'' kvs;
     snippet \<leftarrow> str_of ''anchor_snippet'' kvs; evidence \<leftarrow> strings_of ''evidence'' kvs;
     patch \<leftarrow> str_of ''suggested_patch'' kvs; key \<leftarrow> str_of ''canonical_key'' kvs; symbol \<leftarrow> str_of ''symbol'' kvs;
     trigger \<leftarrow> str_of ''trigger_condition'' kvs; impact \<leftarrow> str_of ''impact'' kvs;
     introduced \<leftarrow> bool_of ''introduced_by_this_change'' kvs; spots \<leftarrow> strings_of ''blind_spots'' kvs;
     reason \<leftarrow> str_of ''no_finding_reason'' kvs;
     Some \<lparr>lf_category = category, lf_severity = severity, lf_confidence = confidence, lf_title = title,
       lf_body_markdown = body, lf_path = path, lf_anchor_kind = anchor_kind, lf_old_line = old_line, lf_new_line = new_line,
       lf_range_start_kind = start_kind, lf_range_start_old_line = start_old, lf_range_start_new_line = start_new,
       lf_range_end_kind = end_kind, lf_range_end_old_line = end_old, lf_range_end_new_line = end_new,
       lf_anchor_snippet = snippet, lf_evidence = evidence, lf_suggested_patch = patch, lf_canonical_key = key,
       lf_symbol = symbol, lf_trigger_condition = trigger, lf_impact = impact, lf_introduced_by_this_change = introduced,
       lf_blind_spots = spots, lf_no_finding_reason = reason\<rparr>
   }"

fun all_some :: "'a option list \<Rightarrow> 'a list option" where
  "all_some [] = Some []"
| "all_some (None # xs) = None"
| "all_some (Some x # xs) = map_option ((#) x) (all_some xs)"

definition unmarshal_result :: "json \<Rightarrow> review_result option" where
  "unmarshal_result v = do {
     kvs \<leftarrow> struct_value v;
     version \<leftarrow> str_of ''schema_version'' kvs; run \<leftarrow> str_of ''review_run_id'' kvs; summary \<leftarrow> str_of ''summary'' kvs;
     structs \<leftarrow> structs_field [] (named ''findings'' kvs); findings \<leftarrow> all_some (map unmarshal_finding structs);
     status \<leftarrow> str_of ''status'' kvs; note \<leftarrow> note_field None (named ''summary_note'' kvs);
     body \<leftarrow> (case note of None \<Rightarrow> Some None | Some m \<Rightarrow> map_option Some (str_of ''body_markdown'' m));
     spots \<leftarrow> strings_of ''blind_spots'' kvs;
     Some \<lparr>rs_schema_version = version, rs_review_run_id = run, rs_summary = summary, rs_findings = findings,
       rs_status = status, rs_summary_note = body, rs_blind_spots = spots\<rparr>
   }"

subsection \<open>Completeness of a result\<close>

definition parserErrorCode :: string where
  "parserErrorCode = ''parser_error''"

definition blank :: "string \<Rightarrow> bool" where
  "blank t \<longleftrightarrow> trim_space t = []"

definition findingAllowsEmptyPath :: "llm_finding \<Rightarrow> bool" where
  "findingAllowsEmptyPath f =
     (if \<not> blank (lf_path f) then False
      else if lf_old_line f \<noteq> None \<or> lf_new_line f \<noteq> None then False
      else if lf_range_start_old_line f \<noteq> None \<or> lf_range_start_new_line f \<noteq> None
        \<or> lf_range_end_old_line f \<noteq> None \<or> lf_range_end_new_line f \<noteq> None then False
      else True)"

fun validate_findings :: "nat \<Rightarrow> llm_finding list \<Rightarrow> string option" where
  "validate_findings i [] = None"
| "validate_findings i (f # fs) =
     (if blank (lf_category f) \<or> blank (lf_severity f) \<or> blank (lf_title f) \<or> blank (lf_anchor_kind f)
      then Some (''finding '' @ itoa (int i) @ '' missing required fields'')
      else if blank (lf_path f) \<and> \<not> findingAllowsEmptyPath f
      then Some (''finding '' @ itoa (int i) @ '' missing required fields'')
      else validate_findings (Suc i) fs)"

definition validateReviewResult :: "review_result \<Rightarrow> string option" where
  "validateReviewResult r =
     (if blank (rs_schema_version r) then Some ''missing schema_version''
      else if blank (rs_review_run_id r) then Some ''missing review_run_id''
      else if rs_status r = parserErrorCode then
        (case rs_summary_note r of
           None \<Rightarrow> Some ''missing summary_note for parser_error''
         | Some b \<Rightarrow> if blank b then Some ''missing summary_note for parser_error'' else None)
      else validate_findings 0 (rs_findings r))"

subsection \<open>Aliases\<close>

fun stringAlias :: "members \<Rightarrow> string list \<Rightarrow> string" where
  "stringAlias kvs [] = []"
| "stringAlias kvs (k # ks) = (case map_of kvs k of
     Some (JString t) \<Rightarrow> if trim_space t \<noteq> [] then trim_space t else stringAlias kvs ks
   | _ \<Rightarrow> stringAlias kvs ks)"

fun slice_items :: "json list \<Rightarrow> string list" where
  "slice_items [] = []"
| "slice_items (JString t # vs) = (if trim_space t \<noteq> [] then trim_space t # slice_items vs else slice_items vs)"
| "slice_items (_ # vs) = slice_items vs"

fun stringSliceAlias :: "members \<Rightarrow> string list \<Rightarrow> string list" where
  "stringSliceAlias kvs [] = []"
| "stringSliceAlias kvs (k # ks) = (case map_of kvs k of
     Some (JString t) \<Rightarrow> if trim_space t \<noteq> [] then [trim_space t] else stringSliceAlias kvs ks
   | Some (JArray vs) \<Rightarrow> if slice_items vs \<noteq> [] then slice_items vs else stringSliceAlias kvs ks
   | _ \<Rightarrow> stringSliceAlias kvs ks)"

fun float64Alias :: "members \<Rightarrow> string list \<Rightarrow> rat" where
  "float64Alias kvs [] = 0"
| "float64Alias kvs (k # ks) = (case map_of kvs k of
     Some (JNumber t) \<Rightarrow> (case parse_float64 t of Some x \<Rightarrow> x | None \<Rightarrow> float64Alias kvs ks)
   | _ \<Rightarrow> float64Alias kvs ks)"

text \<open>The reader keeps numbers as text (\<^verbatim>\<open>UseNumber\<close>), so the branches for \<^verbatim>\<open>float64\<close> are never taken.\<close>

definition coerceInt32 :: "json \<Rightarrow> int option" where
  "coerceInt32 v = (case v of
     JNumber t \<Rightarrow>
       (let raw = trim_space t in
        if raw = [] \<or> list_ex (\<lambda>c. c \<in> set ''.eE'') raw then None
        else case parse_int64 raw of None \<Rightarrow> None | Some i \<Rightarrow> if int32 i then Some i else None)
   | _ \<Rightarrow> None)"

fun int32Alias :: "members \<Rightarrow> string list \<Rightarrow> int option" where
  "int32Alias kvs [] = None"
| "int32Alias kvs (k # ks) = (case map_of kvs k of
     None \<Rightarrow> int32Alias kvs ks
   | Some v \<Rightarrow> (case coerceInt32 v of Some i \<Rightarrow> Some i | None \<Rightarrow> int32Alias kvs ks))"

fun boolAlias :: "members \<Rightarrow> string list \<Rightarrow> bool" where
  "boolAlias kvs [] = False"
| "boolAlias kvs (k # ks) = (case map_of kvs k of Some (JBool b) \<Rightarrow> b | _ \<Rightarrow> boolAlias kvs ks)"

definition alias_finding :: "members \<Rightarrow> llm_finding" where
  "alias_finding m =
     (let newLine = int32Alias m [''new_line'', ''line_start'', ''line''];
          oldLine = int32Alias m [''old_line''];
          kind0 = stringAlias m [''anchor_kind''];
          kind1 = (if kind0 = [] \<and> newLine \<noteq> None then ''new_line'' else kind0);
          anchorKind = (if kind1 = [] \<and> oldLine \<noteq> None then ''old_line'' else kind1);
          category0 = stringAlias m [''category'', ''type''];
          category = (if category0 = [] then ''code_defect'' else category0)
      in \<lparr>lf_category = category, lf_severity = stringAlias m [''severity''], lf_confidence = float64Alias m [''confidence''],
          lf_title = stringAlias m [''title'', ''description''],
          lf_body_markdown = stringAlias m [''body_markdown'', ''body'', ''description''],
          lf_path = stringAlias m [''path'', ''file_path'', ''file''], lf_anchor_kind = anchorKind,
          lf_old_line = oldLine, lf_new_line = newLine,
          lf_range_start_kind = stringAlias m [''range_start_kind''],
          lf_range_start_old_line = int32Alias m [''range_start_old_line''],
          lf_range_start_new_line = int32Alias m [''range_start_new_line''],
          lf_range_end_kind = stringAlias m [''range_end_kind''],
          lf_range_end_old_line = int32Alias m [''range_end_old_line''],
          lf_range_end_new_line = int32Alias m [''range_end_new_line''],
          lf_anchor_snippet = stringAlias m [''anchor_snippet''], lf_evidence = stringSliceAlias m [''evidence''],
          lf_suggested_patch = stringAlias m [''suggested_patch'', ''actionable_fix'', ''suggested_action''],
          lf_canonical_key = stringAlias m [''canonical_key''], lf_symbol = stringAlias m [''symbol''],
          lf_trigger_condition = stringAlias m [''trigger_condition''], lf_impact = stringAlias m [''impact''],
          lf_introduced_by_this_change = boolAlias m [''introduced_by_this_change''],
          lf_blind_spots = stringSliceAlias m [''blind_spots''],
          lf_no_finding_reason = stringAlias m [''no_finding_reason'']\<rparr>)"

fun alias_findings :: "json list \<Rightarrow> llm_finding list" where
  "alias_findings [] = []"
| "alias_findings (JObject m # vs) = alias_finding m # alias_findings vs"
| "alias_findings (_ # vs) = alias_findings vs"

definition alias_note :: "members \<Rightarrow> string option" where
  "alias_note payload = (case map_of payload ''summary_note'' of
     Some (JObject m) \<Rightarrow> (let b = stringAlias m [''body_markdown''] in if b \<noteq> [] then Some b else None)
   | _ \<Rightarrow> None)"

definition alias_result :: "members \<Rightarrow> review_result" where
  "alias_result payload =
     \<lparr>rs_schema_version = stringAlias payload [''schema_version''], rs_review_run_id = stringAlias payload [''review_run_id''],
      rs_summary = stringAlias payload [''summary''],
      rs_findings = (case map_of payload ''findings'' of Some (JArray vs) \<Rightarrow> alias_findings vs | _ \<Rightarrow> []),
      rs_status = stringAlias payload [''status''], rs_summary_note = alias_note payload,
      rs_blind_spots = stringSliceAlias payload [''blind_spots'']\<rparr>"

definition parseReviewResultWithAliases :: "reader \<Rightarrow> string \<Rightarrow> review_result option" where
  "parseReviewResultWithAliases rd raw =
     (case Option.bind (map_option go_value (decode_first rd raw)) struct_value of
        None \<Rightarrow> None
      | Some payload \<Rightarrow>
          if validateReviewResult (alias_result payload) = None then Some (alias_result payload) else None)"

subsection \<open>Extraction\<close>

definition last_index_char :: "string \<Rightarrow> char \<Rightarrow> nat option" where
  "last_index_char t c = map_option (\<lambda>i. length t - 1 - i) (index_of (rev t) [c])"

definition extractMarkedJSON :: "string \<Rightarrow> string option" where
  "extractMarkedJSON raw =
     (let trimmed = trim_space raw;
          braces = (case (index_of trimmed [CHR 0x7B], last_index_char trimmed (CHR 0x7D)) of
             (Some a, Some b) \<Rightarrow> if b > a then Some (trim_space (drop a (take (b + 1) trimmed))) else None
           | _ \<Rightarrow> None)
      in if trimmed = [] then None
         else case index_of trimmed ''```'' of
           None \<Rightarrow> braces
         | Some start \<Rightarrow>
             (let body = trim_prefix (drop (start + 3) trimmed) ''json'' in
              case index_of body ''```'' of
                None \<Rightarrow> braces
              | Some e \<Rightarrow> Some (trim_space (take e body))))"

definition unquoteJSONString :: "reader \<Rightarrow> string \<Rightarrow> string option" where
  "unquoteJSONString rd raw =
     (let trimmed = trim_space raw in
      if trimmed = [] then None
      else case unmarshal rd trimmed of
        Some (JString t) \<Rightarrow>
          (let decoded = trim_space t in
           if decoded = [] then None
           else if \<not> has_prefix decoded [CHR 0x7B] \<and> \<not> has_prefix decoded ''['' then None
           else Some decoded)
      | _ \<Rightarrow> None)"

definition count_char :: "char \<Rightarrow> string \<Rightarrow> nat" where
  "count_char c t = length (filter (\<lambda>x. x = c) t)"

definition tolerantRepairJSON :: "string \<Rightarrow> string option" where
  "tolerantRepairJSON raw =
     (let candidate0 = (case extractMarkedJSON raw of Some c \<Rightarrow> c | None \<Rightarrow> trim_space raw) in
      if candidate0 = [] then None
      else let c1 = replace_all candidate0 [CHR 0x09] '' '';
               c2 = replace_all c1 '',]'' '']'';
               c3 = replace_all c2 [CHR '','', CHR 0x7D] [CHR 0x7D]
           in Some (c3 @ replicate (count_char (CHR 0x7B) c3 - count_char (CHR 0x7D) c3) (CHR 0x7D)))"

subsection \<open>The stages\<close>

definition parse_stages :: "reader \<Rightarrow> (string \<times> (string \<Rightarrow> string option)) list" where
  "parse_stages rd =
     [(''direct'', \<lambda>input. if blank input then None else Some input),
      (''quoted_json_string'', unquoteJSONString rd),
      (''marker_extraction'', extractMarkedJSON),
      (''tolerant_repair'', tolerantRepairJSON)]"

definition with_status :: "review_result \<Rightarrow> review_result" where
  "with_status r = (if rs_status r = [] then r\<lparr>rs_status := ''completed''\<rparr> else r)"

definition parse_candidate :: "reader \<Rightarrow> string \<Rightarrow> review_result option" where
  "parse_candidate rd candidate =
     (case Option.bind (unmarshal rd candidate) unmarshal_result of
        Some r \<Rightarrow>
          if validateReviewResult r \<noteq> None
          then map_option with_status (parseReviewResultWithAliases rd candidate)
          else Some (with_status r)
      | None \<Rightarrow> map_option with_status (parseReviewResultWithAliases rd candidate))"

fun try_stages :: "reader \<Rightarrow> string \<Rightarrow> (string \<times> (string \<Rightarrow> string option)) list \<Rightarrow> (review_result \<times> string) option" where
  "try_stages rd raw [] = None"
| "try_stages rd raw ((name, fn) # rest) = (case fn raw of
     None \<Rightarrow> try_stages rd raw rest
   | Some candidate \<Rightarrow> (case parse_candidate rd candidate of
        Some r \<Rightarrow> Some (r, name) | None \<Rightarrow> try_stages rd raw rest))"

definition ParseReviewResult :: "reader \<Rightarrow> string \<Rightarrow> (review_result \<times> string) option" where
  "ParseReviewResult rd raw = try_stages rd raw (parse_stages rd)"

subsection \<open>The answer to a summary request\<close>

record risk_area =
  ra_path :: string
  ra_description :: string
  ra_severity :: string

record summary_result =
  sr_schema_version :: string
  sr_review_run_id :: string
  sr_walkthrough :: string
  sr_risk_areas :: "risk_area list"
  sr_blind_spots :: "string list"
  sr_verdict :: string

definition unmarshal_risk_area :: "members \<Rightarrow> risk_area option" where
  "unmarshal_risk_area kvs = do {
     path \<leftarrow> str_of ''path'' kvs; description \<leftarrow> str_of ''description'' kvs; severity \<leftarrow> str_of ''severity'' kvs;
     Some \<lparr>ra_path = path, ra_description = description, ra_severity = severity\<rparr>
   }"

definition unmarshal_summary :: "json \<Rightarrow> summary_result option" where
  "unmarshal_summary v = do {
     kvs \<leftarrow> struct_value v;
     version \<leftarrow> str_of ''schema_version'' kvs; run \<leftarrow> str_of ''review_run_id'' kvs; walkthrough \<leftarrow> str_of ''walkthrough'' kvs;
     structs \<leftarrow> structs_field [] (named ''risk_areas'' kvs); areas \<leftarrow> all_some (map unmarshal_risk_area structs);
     spots \<leftarrow> strings_of ''blind_spots'' kvs; verdict \<leftarrow> str_of ''verdict'' kvs;
     Some \<lparr>sr_schema_version = version, sr_review_run_id = run, sr_walkthrough = walkthrough, sr_risk_areas = areas,
       sr_blind_spots = spots, sr_verdict = verdict\<rparr>
   }"

definition summary_complete :: "summary_result \<Rightarrow> bool" where
  "summary_complete r \<longleftrightarrow> \<not> blank (sr_schema_version r) \<and> \<not> blank (sr_review_run_id r)
     \<and> \<not> blank (sr_walkthrough r) \<and> \<not> blank (sr_verdict r)"

fun try_summaries :: "reader \<Rightarrow> string \<Rightarrow> (string \<Rightarrow> string option) list \<Rightarrow> summary_result option" where
  "try_summaries rd candidate [] = None"
| "try_summaries rd candidate (extract # rest) =
     (case Option.bind (Option.bind (extract candidate) (unmarshal rd)) unmarshal_summary of
        Some r \<Rightarrow> if summary_complete r then Some r else try_summaries rd candidate rest
      | None \<Rightarrow> try_summaries rd candidate rest)"

definition ParseSummaryResult :: "reader \<Rightarrow> string \<Rightarrow> string + summary_result" where
  "ParseSummaryResult rd raw =
     (let candidate = trim_space raw in
      if candidate = [] then Inl ''llm: empty summary response''
      else case try_summaries rd candidate [\<lambda>s. if s \<noteq> [] then Some s else None, extractMarkedJSON, tolerantRepairJSON] of
        Some r \<Rightarrow> Inr r
      | None \<Rightarrow> Inl ''llm: unable to parse summary response'')"

lemma try_summaries_complete: "try_summaries rd c fs = Some r \<Longrightarrow> summary_complete r"
  by (induction fs) (auto split: option.splits if_splits)

text \<open>A summary that the parser accepts has a version, a run, a walkthrough and a verdict.\<close>

lemma ParseSummaryResult_complete: "ParseSummaryResult rd raw = Inr r \<Longrightarrow> summary_complete r"
  by (auto simp: ParseSummaryResult_def Let_def dest: try_summaries_complete split: if_splits option.splits)

subsection \<open>Every accepted result is complete\<close>

definition finding_lines :: "llm_finding \<Rightarrow> int option list" where
  "finding_lines f = [lf_old_line f, lf_new_line f, lf_range_start_old_line f, lf_range_start_new_line f,
     lf_range_end_old_line f, lf_range_end_new_line f]"

definition lines_int32 :: "llm_finding \<Rightarrow> bool" where
  "lines_int32 f \<longleftrightarrow> list_all (\<lambda>l. case l of None \<Rightarrow> True | Some i \<Rightarrow> - (2 ^ 31) \<le> i \<and> i < 2 ^ 31) (finding_lines f)"

definition finding_complete :: "llm_finding \<Rightarrow> bool" where
  "finding_complete f \<longleftrightarrow> trim_space (lf_category f) \<noteq> [] \<and> trim_space (lf_severity f) \<noteq> [] \<and> trim_space (lf_title f) \<noteq> []
     \<and> trim_space (lf_anchor_kind f) \<noteq> [] \<and> (trim_space (lf_path f) \<noteq> [] \<or> list_all (\<lambda>l. l = None) (finding_lines f))"

lemma int32_field_range: "int32_field acc vs = Some (Some i) \<Longrightarrow> (\<And>j. acc = Some j \<Longrightarrow> int32 j) \<Longrightarrow> int32 i"
  by (induction acc vs rule: int32_field.induct) (auto split: option.splits if_splits)

lemma int32_of_range: "int32_of k kvs = Some (Some i) \<Longrightarrow> - (2 ^ 31) \<le> i \<and> i < 2 ^ 31"
  using int32_field_range [of None "named k kvs" i] by (simp add: int32_of_def int32_def)

lemma coerceInt32_range: "coerceInt32 v = Some i \<Longrightarrow> int32 i"
  by (auto simp: coerceInt32_def Let_def split: json.splits if_splits option.splits)

lemma int32Alias_range: "int32Alias kvs ks = Some i \<Longrightarrow> - (2 ^ 31) \<le> i \<and> i < 2 ^ 31"
  using coerceInt32_range by (induction kvs ks rule: int32Alias.induct) (fastforce simp: int32_def split: option.splits)+

lemma lines_int32I:
  assumes "\<And>i. Some i \<in> set (finding_lines f) \<Longrightarrow> - (2 ^ 31) \<le> i \<and> i < 2 ^ 31"
  shows "lines_int32 f"
  using assms by (force simp: lines_int32_def list_all_iff split: option.splits)

lemma alias_finding_lines: "lines_int32 (alias_finding m)"
  by (rule lines_int32I)
    (auto simp: finding_lines_def alias_finding_def Let_def simp del: int32Alias.simps dest: int32Alias_range [OF sym])

lemma alias_findings_lines: "f \<in> set (alias_findings vs) \<Longrightarrow> lines_int32 f"
  by (induction vs rule: alias_findings.induct) (auto simp: alias_finding_lines)

lemma unmarshal_finding_lines: "unmarshal_finding kvs = Some f \<Longrightarrow> lines_int32 f"
  by (rule lines_int32I)
    (auto simp: unmarshal_finding_def finding_lines_def Option.bind_eq_Some_conv dest!: int32_of_range)

lemma all_some_mem: "all_some xs = Some ys \<Longrightarrow> y \<in> set ys \<Longrightarrow> Some y \<in> set xs"
  by (induction xs arbitrary: ys rule: all_some.induct) auto

lemma unmarshal_result_lines: "unmarshal_result v = Some r \<Longrightarrow> f \<in> set (rs_findings r) \<Longrightarrow> lines_int32 f"
  by (auto simp: unmarshal_result_def Option.bind_eq_Some_conv dest!: all_some_mem dest: unmarshal_finding_lines [OF sym])

lemma validate_findings_complete: "validate_findings i fs = None \<longleftrightarrow> list_all finding_complete fs"
  by (induction i fs rule: validate_findings.induct)
    (auto simp: finding_complete_def finding_lines_def findingAllowsEmptyPath_def blank_def)

lemma with_status_valid: "validateReviewResult (with_status r) = validateReviewResult r"
  by (simp add: with_status_def validateReviewResult_def parserErrorCode_def)

definition result_ok :: "review_result \<Rightarrow> bool" where
  "result_ok r \<longleftrightarrow> validateReviewResult r = None \<and> rs_status r \<noteq> [] \<and> list_all lines_int32 (rs_findings r)"

lemma with_status_ok:
  assumes "validateReviewResult r = None" and "\<And>f. f \<in> set (rs_findings r) \<Longrightarrow> lines_int32 f"
  shows "result_ok (with_status r)"
  using assms with_status_valid [of r] by (auto simp: result_ok_def with_status_def list_all_iff)

lemma alias_result_findings:
  "rs_findings (alias_result m) = (case map_of m ''findings'' of Some (JArray vs) \<Rightarrow> alias_findings vs | _ \<Rightarrow> [])"
  by (simp only: alias_result_def review_result.select_convs)

lemma alias_result_lines: "f \<in> set (rs_findings (alias_result m)) \<Longrightarrow> lines_int32 f"
  unfolding alias_result_findings by (auto split: option.splits json.splits dest: alias_findings_lines)

lemma aliases_ok:
  assumes "parseReviewResultWithAliases rd c = Some r"
  shows "validateReviewResult r = None \<and> (\<forall>f \<in> set (rs_findings r). lines_int32 f)"
proof -
  obtain m where "r = alias_result m" "validateReviewResult (alias_result m) = None"
    using assms by (auto simp: parseReviewResultWithAliases_def split: option.splits if_splits)
  then show ?thesis using alias_result_lines by simp
qed

lemma parse_candidate_ok:
  assumes "parse_candidate rd c = Some r"
  shows "result_ok r"
proof -
  from assms have "(\<exists>q v. unmarshal_result v = Some q \<and> validateReviewResult q = None \<and> r = with_status q)
      \<or> (\<exists>q. parseReviewResultWithAliases rd c = Some q \<and> r = with_status q)"
    by (auto simp: parse_candidate_def Option.bind_eq_Some_conv split: option.splits if_splits)
  then show ?thesis using unmarshal_result_lines aliases_ok by (auto intro!: with_status_ok)
qed

lemma try_stages_ok: "try_stages rd raw st = Some (r, name) \<Longrightarrow> result_ok r \<and> name \<in> fst ` set st"
  by (induction rd raw st rule: try_stages.induct) (auto split: option.splits dest: parse_candidate_ok)

text \<open>C29 (accepted results are complete). Whatever text a model returns and however it has to be extracted or
  repaired, a result that the parser accepts names its schema version and run, has a status, and every line
  number fits in 32 bits; a parser error carries a note, and otherwise every finding has a category, severity,
  title and anchor, and a path unless it names no line at all.\<close>

theorem ParseReviewResult_complete:
  assumes "ParseReviewResult rd raw = Some (r, stage)"
  shows "trim_space (rs_schema_version r) \<noteq> [] \<and> trim_space (rs_review_run_id r) \<noteq> [] \<and> rs_status r \<noteq> []
    \<and> list_all lines_int32 (rs_findings r)
    \<and> (if rs_status r = ''parser_error'' then \<exists>b. rs_summary_note r = Some b \<and> trim_space b \<noteq> []
       else list_all finding_complete (rs_findings r))
    \<and> stage \<in> {''direct'', ''quoted_json_string'', ''marker_extraction'', ''tolerant_repair''}"
proof -
  have ok: "result_ok r" and st: "stage \<in> {''direct'', ''quoted_json_string'', ''marker_extraction'', ''tolerant_repair''}"
    using try_stages_ok [OF assms [unfolded ParseReviewResult_def]] by (auto simp: parse_stages_def)
  from ok show ?thesis using st
    by (auto simp: result_ok_def validateReviewResult_def parserErrorCode_def blank_def validate_findings_complete
        split: if_splits option.splits)
qed

text \<open>Repairs leave no open brace.\<close>

lemma tolerantRepairJSON_closed:
  "tolerantRepairJSON raw = Some c \<Longrightarrow> count_char (CHR 0x7B) c \<le> count_char (CHR 0x7D) c"
  by (auto simp: tolerantRepairJSON_def Let_def count_char_def split: if_splits)

subsection \<open>Examples\<close>

text \<open>A reader that knows one text, an answer in a fenced block whose finding uses aliases.\<close>

definition sample_answer :: json where
  "sample_answer = JObject [(''schema_version'', JString ''1''), (''review_run_id'', JString ''7''), (''summary'', JString ''s''),
     (''findings'', JArray [JObject [(''type'', JString ''bug''), (''severity'', JString ''high''),
        (''title'', JString ''leak''), (''file'', JString ''a.go''), (''line'', JNumber ''12'')]])]"

definition sample_body :: string where
  "sample_body = [CHR 0x7B, CHR 0x7D]"

definition sample_reader :: reader where
  "sample_reader t = (if t = sample_body then Some (sample_answer, []) else None)"

definition sample_text :: string where
  "sample_text = ''Here: ```json '' @ sample_body @ '' ``` done''"

lemma sample_text_parsed:
  "case ParseReviewResult sample_reader sample_text of None \<Rightarrow> False
   | Some (r, stage) \<Rightarrow> stage = ''marker_extraction'' \<and> map lf_new_line (rs_findings r) = [Some 12]
       \<and> map lf_category (rs_findings r) = [''bug''] \<and> rs_status r = ''completed''"
  by code_simp

theorem ParseReviewResult_complete_witness:
  "\<exists>r. ParseReviewResult sample_reader sample_text = Some (r, ''marker_extraction'') \<and> rs_status r = ''completed''
     \<and> list_all finding_complete (rs_findings r)"
proof -
  obtain r where r: "ParseReviewResult sample_reader sample_text = Some (r, ''marker_extraction'')" and st: "rs_status r = ''completed''"
    using sample_text_parsed by (auto split: option.splits prod.splits)
  from ParseReviewResult_complete [OF r] st have "list_all finding_complete (rs_findings r)" by simp
  with r st show ?thesis by blast
qed

end
