(* ===== verification/Platform_Publish.thy ===== *)
theory Platform_Publish
  imports Engine Writer_Render Llm_Parser
begin

text \<open>
  Publishing a review bundle without the comment writer: \<^verbatim>\<open>internal/platform/github/publish.go\<close>, and
  \<^verbatim>\<open>writer.go\<close> and \<^verbatim>\<open>publish.go\<close> of \<^verbatim>\<open>internal/platform/gitlab\<close>. A client answers a call by the request and by how many
  calls were made before; the calls made so far and whether each succeeded are the state.
\<close>

subsection \<open>GitHub\<close>

record create_issue_comment_request =
  ci_repository :: string
  ci_pull_number :: int
  ci_body :: string

record create_review_comment_request =
  cv_repository :: string
  cv_pull_number :: int
  cv_commit_id :: string
  cv_body :: string
  cv_path :: string
  cv_line :: int
  cv_side :: string
  cv_start_line :: int
  cv_start_side :: string

datatype github_call =
    CreateIssueComment create_issue_comment_request
  | CreateReviewComment create_review_comment_request

record github_client =
  gc_head_sha :: "string \<Rightarrow> int \<Rightarrow> string option"
  gc_accepts :: "github_call \<Rightarrow> nat \<Rightarrow> bool"

type_synonym 'c calls = "('c \<times> bool) list"

definition reviewCommentRequest :: "review_target \<Rightarrow> string \<Rightarrow> publish_candidate \<Rightarrow> create_review_comment_request option" where
  "reviewCommentRequest target commitID candidate =
     (let location = pc_location candidate;
          body0 = trim_space (pc_body candidate);
          body = (if body0 = [] then trim_space (pc_title candidate) else body0);
          side = (if cl_side location = ''old'' then ''LEFT'' else ''RIGHT'')
      in if trim_space commitID = [] \<or> trim_space (cl_path location) = [] \<or> cl_start_line location \<le> 0 then None
         else if body = [] then None
         else Some \<lparr>cv_repository = rt_repository target, cv_pull_number = rt_change_number target, cv_commit_id = commitID,
           cv_body = body, cv_path = cl_path location,
           cv_line = (if cl_end_line location \<le> 0 then cl_start_line location else cl_end_line location), cv_side = side,
           cv_start_line = (if cl_end_line location > cl_start_line location then cl_start_line location else 0),
           cv_start_side = (if cl_end_line location > cl_start_line location then side else [])\<rparr>)"

text \<open>The call that a candidate leads to; \<open>None\<close> where the loop goes on without one.\<close>

definition issue_comment :: "review_target \<Rightarrow> string \<Rightarrow> github_call" where
  "issue_comment target body = CreateIssueComment
     \<lparr>ci_repository = rt_repository target, ci_pull_number = rt_change_number target, ci_body = body\<rparr>"

definition candidate_call :: "review_target \<Rightarrow> string \<Rightarrow> publish_candidate \<Rightarrow> github_call option" where
  "candidate_call target headSHA candidate =
     (if pc_kind candidate = ''summary'' then
        (if trim_space (pc_body candidate) = [] then None else Some (issue_comment target (pc_body candidate)))
      else if pc_kind candidate = ''finding'' then
        (if pc_publish_as_summary candidate then
           (let body0 = trim_space (pc_body candidate);
                body = (if body0 = [] then trim_space (pc_title candidate) else body0)
            in if body = [] then None else Some (issue_comment target body))
         else map_option CreateReviewComment (reviewCommentRequest target headSHA candidate))
      else None)"

fun publish_candidates :: "github_client \<Rightarrow> review_target \<Rightarrow> string \<Rightarrow> publish_candidate list \<Rightarrow> github_call calls \<Rightarrow> bool \<times> github_call calls" where
  "publish_candidates cl target headSHA [] calls = (True, calls)"
| "publish_candidates cl target headSHA (x # xs) calls = (case candidate_call target headSHA x of
     None \<Rightarrow> publish_candidates cl target headSHA xs calls
   | Some c \<Rightarrow>
       if gc_accepts cl c (length calls) then publish_candidates cl target headSHA xs (calls @ [(c, True)])
       else (False, calls @ [(c, False)]))"

datatype publish_error = NoClient | NoTarget | SnapshotFailed | CallFailed | BadMetadata

definition github_Publish :: "github_client option \<Rightarrow> review_bundle \<Rightarrow> github_call calls \<Rightarrow> publish_error option \<times> github_call calls" where
  "github_Publish client bundle calls = (case client of
     None \<Rightarrow> (Some NoClient, calls)
   | Some cl \<Rightarrow>
      (let target = rb_target bundle in
       if trim_space (rt_repository target) = [] \<or> rt_change_number target \<le> 0 then (Some NoTarget, calls)
       else case gc_head_sha cl (rt_repository target) (rt_change_number target) of
         None \<Rightarrow> (Some SnapshotFailed, calls)
       | Some headSHA \<Rightarrow>
           (case publish_candidates cl target headSHA (rb_publish_candidates bundle) calls of
              (ok, calls') \<Rightarrow> (if ok then None else Some CallFailed, calls'))))"

subsection \<open>GitLab\<close>

definition wrap32 :: "int \<Rightarrow> int" where
  "wrap32 x = (x + 2 ^ 31) mod 2 ^ 32 - 2 ^ 31"

definition int32Ptr :: "int \<Rightarrow> int option" where
  "int32Ptr v = (if v \<le> 0 then None else Some (wrap32 v))"

definition candidateRequestBody :: "publish_candidate \<Rightarrow> string" where
  "candidateRequestBody candidate =
     (let body = trim_space (pc_body candidate); title = trim_space (pc_title candidate) in
      if body \<noteq> [] then body
      else if title = [] then []
      else if pc_kind candidate = ''summary'' then title
      else ''### '' @ title)"

record gitlab_position_metadata =
  gpm_base_sha :: string
  gpm_start_sha :: string
  gpm_head_sha :: string
  gpm_old_path :: string
  gpm_new_path :: string
  gpm_old_line :: "int option"
  gpm_new_line :: "int option"
  gpm_line_range :: "line_range option"

fun struct_ptr_field :: "members option \<Rightarrow> json list \<Rightarrow> members option option" where
  "struct_ptr_field acc [] = Some acc"
| "struct_ptr_field acc (JObject kvs # vs) = struct_ptr_field (Some ((case acc of None \<Rightarrow> [] | Some m \<Rightarrow> m) @ kvs)) vs"
| "struct_ptr_field acc (JNull # vs) = struct_ptr_field None vs"
| "struct_ptr_field acc (_ # vs) = None"

definition unmarshal_range_line :: "members \<Rightarrow> range_line option" where
  "unmarshal_range_line m = do {
     code \<leftarrow> str_of ''line_code'' m; ty \<leftarrow> str_of ''type'' m;
     old \<leftarrow> int32_field None (named ''old_line'' m); new \<leftarrow> int32_field None (named ''new_line'' m);
     Some \<lparr>rg_line_code = code, rg_line_type = ty, rg_old_line = old, rg_new_line = new\<rparr>}"

definition unmarshal_line_range :: "members \<Rightarrow> line_range option" where
  "unmarshal_line_range m = do {
     s \<leftarrow> struct_of ''start'' m; e \<leftarrow> struct_of ''end'' m;
     start \<leftarrow> unmarshal_range_line s; stop \<leftarrow> unmarshal_range_line e;
     Some \<lparr>lr_start = start, lr_end = stop\<rparr>}"

definition unmarshal_position :: "members \<Rightarrow> gitlab_position_metadata option" where
  "unmarshal_position m = do {
     base \<leftarrow> str_of ''base_sha'' m; start \<leftarrow> str_of ''start_sha'' m; head \<leftarrow> str_of ''head_sha'' m;
     oldp \<leftarrow> str_of ''old_path'' m; newp \<leftarrow> str_of ''new_path'' m;
     old \<leftarrow> int32_field None (named ''old_line'' m); new \<leftarrow> int32_field None (named ''new_line'' m);
     lr \<leftarrow> struct_ptr_field None (named ''line_range'' m);
     range \<leftarrow> (case lr of None \<Rightarrow> Some None | Some k \<Rightarrow> map_option Some (unmarshal_line_range k));
     Some \<lparr>gpm_base_sha = base, gpm_start_sha = start, gpm_head_sha = head, gpm_old_path = oldp, gpm_new_path = newp,
       gpm_old_line = old, gpm_new_line = new, gpm_line_range = range\<rparr>}"

definition start_position :: "canonical_location \<Rightarrow> position" where
  "start_position location =
     (let lined = cl_start_line location > 0 \<or> cl_end_line location > 0;
          line = int32Ptr (cl_start_line location)
      in \<lparr>po_position_type = (if lined then ''text'' else ''file''), po_base_sha = [], po_start_sha = [], po_head_sha = [],
          po_old_path = trim_space (cl_path location), po_new_path = trim_space (cl_path location),
          po_old_line = (if lined \<and> cl_side location = ''old'' then line else None),
          po_new_line = (if lined \<and> cl_side location \<noteq> ''old'' then line else None),
          po_line_range = None\<rparr>)"

definition given :: "string \<Rightarrow> string \<Rightarrow> string" where
  "given new old = (if trim_space new \<noteq> [] then trim_space new else old)"

definition with_metadata :: "gitlab_position_metadata \<Rightarrow> position \<Rightarrow> position" where
  "with_metadata m p =
     (let q = p\<lparr>po_base_sha := given (gpm_base_sha m) (po_base_sha p), po_start_sha := given (gpm_start_sha m) (po_start_sha p),
            po_head_sha := given (gpm_head_sha m) (po_head_sha p), po_old_path := given (gpm_old_path m) (po_old_path p),
            po_new_path := given (gpm_new_path m) (po_new_path p),
            po_old_line := (if gpm_old_line m = None then po_old_line p else gpm_old_line m),
            po_new_line := (if gpm_new_line m = None then po_new_line p else gpm_new_line m)\<rparr>
      in case gpm_line_range m of
           None \<Rightarrow> q
         | Some r \<Rightarrow> q\<lparr>po_line_range := Some r, po_old_line := rg_old_line (lr_end r), po_new_line := rg_new_line (lr_end r),
             po_position_type := ''text''\<rparr>)"

definition buildPosition :: "(string \<Rightarrow> json option) \<Rightarrow> canonical_location \<Rightarrow> publish_error + position" where
  "buildPosition decode location =
     (if cl_platform_metadata location = [] then Inr (start_position location)
      else case Option.bind (Option.bind (decode (cl_platform_metadata location)) struct_value) unmarshal_position of
        None \<Rightarrow> Inl BadMetadata
      | Some m \<Rightarrow> Inr (with_metadata m (start_position location)))"

record write_requests =
  wq_discussions :: "create_discussion_request list"
  wq_notes :: "create_note_request list"

definition note_request :: "review_target \<Rightarrow> string \<Rightarrow> create_note_request" where
  "note_request target body = \<lparr>cnr_project_id = rt_project_id target, cnr_merge_request_iid = rt_change_number target,
     cnr_body = body, cnr_review_finding_id = 0, cnr_idempotency_key = []\<rparr>"

definition discussion_request :: "review_target \<Rightarrow> string \<Rightarrow> position \<Rightarrow> create_discussion_request" where
  "discussion_request target body p = \<lparr>cdr_project_id = rt_project_id target, cdr_merge_request_iid = rt_change_number target,
     cdr_body = body, cdr_position = p, cdr_review_finding_id = 0, cdr_idempotency_key = []\<rparr>"

fun add_requests :: "(string \<Rightarrow> json option) \<Rightarrow> review_target \<Rightarrow> publish_candidate list \<Rightarrow> write_requests \<Rightarrow> publish_error + write_requests" where
  "add_requests decode target [] reqs = Inr reqs"
| "add_requests decode target (x # xs) reqs =
     (let body = candidateRequestBody x;
          note = (\<lambda>r. r\<lparr>wq_notes := wq_notes r @ [note_request target body]\<rparr>)
      in if body = [] then add_requests decode target xs reqs
         else if pc_kind x = ''summary'' then add_requests decode target xs (note reqs)
         else if pc_kind x = ''finding'' then
           (if pc_publish_as_summary x then add_requests decode target xs (note reqs)
            else case buildPosition decode (pc_location x) of
              Inl e \<Rightarrow> Inl e
            | Inr p \<Rightarrow> add_requests decode target xs
                (reqs\<lparr>wq_discussions := wq_discussions reqs @ [discussion_request target body p]\<rparr>))
         else add_requests decode target xs reqs)"

definition BuildRequests :: "(string \<Rightarrow> json option) \<Rightarrow> review_bundle \<Rightarrow> publish_error + write_requests" where
  "BuildRequests decode bundle =
     (if rt_project_id (rb_target bundle) \<le> 0 \<or> rt_change_number (rb_target bundle) \<le> 0 then Inl NoTarget
      else add_requests decode (rb_target bundle) (rb_publish_candidates bundle) \<lparr>wq_discussions = [], wq_notes = []\<rparr>)"

datatype gitlab_call = GitlabNote create_note_request | GitlabDiscussion create_discussion_request

text \<open>The client returns the text of its error, \<open>None\<close> on success.\<close>

record gitlab_client =
  glc_answer :: "gitlab_call \<Rightarrow> nat \<Rightarrow> string option"

definition isPublishPositionFailure :: "string \<Rightarrow> bool" where
  "isPublishPositionFailure message0 =
     (let message = to_lower message0 in
      contains message ''400'' \<and> (contains message ''position'' \<or> contains message ''line_code'' \<or> contains message ''invalid line''))"

fun post_notes :: "gitlab_client \<Rightarrow> create_note_request list \<Rightarrow> gitlab_call calls \<Rightarrow> bool \<times> gitlab_call calls" where
  "post_notes cl [] calls = (True, calls)"
| "post_notes cl (r # rs) calls = (case glc_answer cl (GitlabNote r) (length calls) of
     None \<Rightarrow> post_notes cl rs (calls @ [(GitlabNote r, True)])
   | Some _ \<Rightarrow> (False, calls @ [(GitlabNote r, False)]))"

definition fallback_note :: "create_discussion_request \<Rightarrow> create_note_request" where
  "fallback_note r = \<lparr>cnr_project_id = cdr_project_id r, cnr_merge_request_iid = cdr_merge_request_iid r, cnr_body = cdr_body r,
     cnr_review_finding_id = 0, cnr_idempotency_key = []\<rparr>"

fun post_discussions :: "gitlab_client \<Rightarrow> create_discussion_request list \<Rightarrow> gitlab_call calls \<Rightarrow> bool \<times> gitlab_call calls" where
  "post_discussions cl [] calls = (True, calls)"
| "post_discussions cl (r # rs) calls = (case glc_answer cl (GitlabDiscussion r) (length calls) of
     None \<Rightarrow> post_discussions cl rs (calls @ [(GitlabDiscussion r, True)])
   | Some e \<Rightarrow>
       (let calls1 = calls @ [(GitlabDiscussion r, False)] in
        if isPublishPositionFailure e then
          (case glc_answer cl (GitlabNote (fallback_note r)) (length calls1) of
             None \<Rightarrow> post_discussions cl rs (calls1 @ [(GitlabNote (fallback_note r), True)])
           | Some _ \<Rightarrow> (False, calls1 @ [(GitlabNote (fallback_note r), False)]))
        else (False, calls1)))"

definition gitlab_Publish :: "(string \<Rightarrow> json option) \<Rightarrow> gitlab_client option \<Rightarrow> review_bundle \<Rightarrow> gitlab_call calls \<Rightarrow> publish_error option \<times> gitlab_call calls" where
  "gitlab_Publish decode client bundle calls = (case client of
     None \<Rightarrow> (Some NoClient, calls)
   | Some cl \<Rightarrow> (case BuildRequests decode bundle of
       Inl e \<Rightarrow> (Some e, calls)
     | Inr reqs \<Rightarrow> (case post_notes cl (wq_notes reqs) calls of
         (False, calls1) \<Rightarrow> (Some CallFailed, calls1)
       | (True, calls1) \<Rightarrow> (case post_discussions cl (wq_discussions reqs) calls1 of
           (ok, calls2) \<Rightarrow> (if ok then None else Some CallFailed, calls2)))))"

subsection \<open>What reaches a pull request\<close>

text \<open>The planned calls are made in order up to the first that fails.\<close>

lemma publish_candidates_run:
  "\<exists>k \<le> length (List.map_filter (candidate_call target headSHA) xs).
     publish_candidates cl target headSHA xs calls =
       (k = length (List.map_filter (candidate_call target headSHA) xs),
        calls @ map (\<lambda>c. (c, True)) (take k (List.map_filter (candidate_call target headSHA) xs))
          @ (if k = length (List.map_filter (candidate_call target headSHA) xs) then []
             else [(List.map_filter (candidate_call target headSHA) xs ! k, False)]))"
proof (induction xs arbitrary: calls)
  case (Cons x xs)
  show ?case
  proof (cases "candidate_call target headSHA x")
    case None
    then show ?thesis using Cons.IH [of calls] by (simp only: publish_candidates.simps map_filter_simps option.case)
  next
    case (Some c)
    show ?thesis
    proof (cases "gc_accepts cl c (length calls)")
      case True
      obtain k where "k \<le> length (List.map_filter (candidate_call target headSHA) xs)"
        "publish_candidates cl target headSHA xs (calls @ [(c, True)]) =
         (k = length (List.map_filter (candidate_call target headSHA) xs),
          (calls @ [(c, True)]) @ map (\<lambda>c. (c, True)) (take k (List.map_filter (candidate_call target headSHA) xs))
            @ (if k = length (List.map_filter (candidate_call target headSHA) xs) then []
               else [(List.map_filter (candidate_call target headSHA) xs ! k, False)]))"
        using Cons.IH by blast
      then show ?thesis using Some True by (intro exI [of _ "Suc k"]) (simp add: map_filter_simps)
    next
      case False
      then show ?thesis using Some by (intro exI [of _ 0]) (simp add: map_filter_simps)
    qed
  qed
qed (simp add: map_filter_simps)

lemma github_Publish_done:
  assumes "github_Publish (Some cl) bundle calls = (None, calls')"
  obtains headSHA where "gc_head_sha cl (rt_repository (rb_target bundle)) (rt_change_number (rb_target bundle)) = Some headSHA"
    and "calls' = calls @ map (\<lambda>c. (c, True)) (List.map_filter (candidate_call (rb_target bundle) headSHA) (rb_publish_candidates bundle))"
proof -
  obtain headSHA where h: "gc_head_sha cl (rt_repository (rb_target bundle)) (rt_change_number (rb_target bundle)) = Some headSHA"
    "publish_candidates cl (rb_target bundle) headSHA (rb_publish_candidates bundle) calls = (True, calls')"
    using assms by (auto simp: github_Publish_def Let_def split: if_splits option.splits prod.splits)
  then show ?thesis
    using publish_candidates_run [of "rb_target bundle" headSHA "rb_publish_candidates bundle" cl calls]
    by (intro that [OF h(1)]) auto
qed

text \<open>What the comment of a finding has to be: none for a finding without text, or with a file but no line; a comment on
  the conversation for a finding the diff cannot anchor; a comment on its lines otherwise.\<close>

definition github_posts :: "change list \<Rightarrow> core_finding \<Rightarrow> github_call option \<Rightarrow> bool" where
  "github_posts changes f c \<longleftrightarrow>
     (let l = fi_location (cf_identity f);
          blank = (trim_space (cf_title f) = [] \<and> trim_space (cf_body f) = []);
          inline = (locationSupportsInlineDiscussion l \<and> anchored changes l)
      in case c of
           None \<Rightarrow> blank \<or> inline \<and> cl_start_line l \<le> 0
         | Some (CreateIssueComment q) \<Rightarrow> \<not> inline \<and> (\<not> blank \<or> locationSupportsInlineDiscussion l)
         | Some (CreateReviewComment q) \<Rightarrow> inline \<and> \<not> blank \<and> 0 < cl_start_line l \<and> cv_path q = cl_path l
             \<and> cv_line q = (if cl_end_line l \<le> 0 then cl_start_line l else cl_end_line l)
             \<and> cv_side q = (if cl_side l = ''old'' then ''LEFT'' else ''RIGHT''))"

lemma drop_space_bytes: "drop_space s = Some t \<Longrightarrow> \<exists>p. s = p @ t \<and> list_all space_byte p"
proof (cases s)
  case (Cons a r)
  assume d: "drop_space s = Some t"
  then consider "t = r" "ascii_space a" | b where "r = b # t" "space2 a b" | b c where "r = b # c # t" "space3 a b c"
    using Cons by (auto split: if_splits list.splits)
  then show ?thesis
  proof cases
    case 1
    then show ?thesis using Cons by (auto intro: exI [of _ "[a]"] simp: space_byte_def)
  next
    case 2
    then show ?thesis using Cons space_bytes(1) by (auto intro!: exI [of _ "[a, b]"])
  next
    case 3
    then show ?thesis using Cons space_bytes(2) by (auto intro!: exI [of _ "[a, b, c]"])
  qed
qed simp

lemma trim_left_space_bytes: "\<exists>p. s = p @ trim_left_space s \<and> list_all space_byte p"
proof (induction s rule: trim_left_space.induct)
  case (1 s)
  show ?case
  proof (cases "drop_space s")
    case None
    then show ?thesis by (simp add: trim_left_space_None)
  next
    case (Some t)
    obtain p where "s = p @ t" "list_all space_byte p" using drop_space_bytes [OF Some] by blast
    moreover obtain q where "t = q @ trim_left_space t" "list_all space_byte q" using 1 [OF Some] by blast
    ultimately show ?thesis using Some by (intro exI [of _ "p @ q"]) (simp add: trim_left_space.simps)
  qed
qed

lemma trim_space_blank: "trim_space s = [] \<Longrightarrow> list_all space_byte s"
  using trim_left_space_bytes [of s] trim_left_space_rev_Nil [of "rev (trim_left_space s)"]
  by (auto simp: trim_space_def trim_right_space_def) (metis list_all_append)

lemma summaryBody_blank:
  "trim_space (summaryBodyFromFinding t b) = [] \<longleftrightarrow> trim_space t = [] \<and> trim_space b = []"
proof -
  have "trim_space (''### '' @ u) \<noteq> []" for u
    using trim_space_not_blank [of "CHR ''#''" "''## '' @ u"] by (simp add: space_byte_def ascii_space_def)
  then show ?thesis by (auto simp: summaryBodyFromFinding_def Let_def)
qed

lemma outOfDiffBody_not_blank: "trim_space (outOfDiffBodyFromFinding f) \<noteq> []"
proof
  assume "trim_space (outOfDiffBodyFromFinding f) = []"
  then have "list_all space_byte txt_located"
    using trim_space_blank by (fastforce simp: outOfDiffBodyFromFinding_def Let_def)
  moreover have "\<not> list_all space_byte txt_located" by code_simp
  ultimately show False by simp
qed

lemma candidate_call_posts:
  assumes "publishCandidateForFinding decode marshal input (buildChangedLineIndex changes Map.empty) f = Inr x"
    and "trim_space headSHA \<noteq> []"
  shows "github_posts changes f (candidate_call target headSHA x)"
proof -
  define l where "l = fi_location (cf_identity f)"
  obtain l' where l': "locationWithGitLabVersionMetadata decode marshal input l = Inr l'"
    using assms(1) by (auto simp: publishCandidateForFinding_def l_def split: sum.splits)
  have same: "cl_path l' = cl_path l" "cl_side l' = cl_side l" "cl_start_line l' = cl_start_line l" "cl_end_line l' = cl_end_line l"
    using location_metadata_only [OF l'] by simp_all
  then have inl: "locationSupportsInlineDiscussion l' = locationSupportsInlineDiscussion l"
    by (simp add: locationSupportsInlineDiscussion_def)
  have path: "trim_space (cl_path l) \<noteq> []" if "locationSupportsInlineDiscussion l"
    using that by (auto simp: locationSupportsInlineDiscussion_def Let_def split: if_splits)
  show ?thesis
  proof (cases "locationSupportsInlineDiscussion l")
    case False
    with assms(1) l' inl have "pc_kind x = ''finding''" "pc_publish_as_summary x" "pc_title x = cf_title f"
      "pc_body x = summaryBodyFromFinding (cf_title f) (cf_body f)"
      by (auto simp: publishCandidateForFinding_def l_def)
    then show ?thesis using False summaryBody_blank [of "cf_title f" "cf_body f"]
      by (auto simp: candidate_call_def github_posts_def issue_comment_def Let_def l_def)
  next
    case True
    note v = verify_out_of_diff [OF path [OF True], of changes]
    show ?thesis
    proof (cases "anchored changes l")
      case False
      with assms(1) l' inl True v have "pc_kind x = ''finding''" "pc_publish_as_summary x" "pc_body x = outOfDiffBodyFromFinding f"
        by (auto simp: publishCandidateForFinding_def l_def)
      then show ?thesis using False True outOfDiffBody_not_blank [of f]
        by (auto simp: candidate_call_def github_posts_def issue_comment_def Let_def l_def)
    next
      case anch: True
      with assms(1) l' inl True v have "pc_kind x = ''finding''" "\<not> pc_publish_as_summary x" "pc_body x = cf_body f"
        "pc_title x = cf_title f" "pc_location x = l'"
        by (auto simp: publishCandidateForFinding_def l_def)
      then show ?thesis using anch True same path [OF True] assms(2)
        by (auto simp: candidate_call_def github_posts_def reviewCommentRequest_def Let_def l_def)
    qed
  qed
qed


subsection \<open>What reaches a merge request\<close>

lemma post_notes_done:
  "post_notes cl rs calls = (True, calls') \<Longrightarrow> calls' = calls @ map (\<lambda>r. (GitlabNote r, True)) rs"
proof (induction rs arbitrary: calls)
  case (Cons r rs)
  then have "post_notes cl rs (calls @ [(GitlabNote r, True)]) = (True, calls')" by (simp split: option.splits)
  from Cons.IH [OF this] show ?case by simp
qed simp

lemma post_discussions_keep: "post_discussions cl rs calls = (ok, calls') \<Longrightarrow> set calls \<subseteq> set calls'"
  by (induction rs arbitrary: calls) (fastforce simp: Let_def split: option.splits if_splits)+

lemma post_discussions_done:
  "post_discussions cl rs calls = (True, calls') \<Longrightarrow> r \<in> set rs \<Longrightarrow>
     (GitlabDiscussion r, True) \<in> set calls' \<or> (GitlabNote (fallback_note r), True) \<in> set calls'"
proof (induction rs arbitrary: calls)
  case (Cons q qs)
  show ?case
  proof (cases "r = q")
    case True
    then show ?thesis using Cons.prems post_discussions_keep
      by (fastforce simp: Let_def split: option.splits if_splits)
  next
    case False
    then show ?thesis using Cons by (auto simp: Let_def split: option.splits if_splits)
  qed
qed simp

text \<open>Comments of a merge request. Publishing a bundle on GitLab either fails or every request it was turned into was
  accepted: a note as it is, a discussion as it is or, where the platform refused its position, as a note.\<close>

theorem gitlab_publishes_all:
  assumes "gitlab_Publish decode (Some cl) bundle calls = (None, calls')"
  obtains reqs where "BuildRequests decode bundle = Inr reqs"
    and "\<And>r. r \<in> set (wq_notes reqs) \<Longrightarrow> (GitlabNote r, True) \<in> set calls'"
    and "\<And>r. r \<in> set (wq_discussions reqs) \<Longrightarrow>
      (GitlabDiscussion r, True) \<in> set calls' \<or> (GitlabNote (fallback_note r), True) \<in> set calls'"
proof -
  from assms obtain reqs calls1 where r: "BuildRequests decode bundle = Inr reqs"
    "post_notes cl (wq_notes reqs) calls = (True, calls1)" "post_discussions cl (wq_discussions reqs) calls1 = (True, calls')"
    by (auto simp: gitlab_Publish_def split: sum.splits prod.splits bool.splits if_splits)
  show ?thesis
    using that [OF r(1)] post_notes_done [OF r(2)] post_discussions_keep [OF r(3)] post_discussions_done [OF r(3)] by auto
qed

subsection \<open>Example\<close>

text \<open>A pull request with one finding on the replaced line and one on the file as a whole.\<close>

definition pull_input :: review_input where
  "pull_input = (sample_input 8)\<lparr>ri_target := \<lparr>rt_platform = ''github'', rt_url = [], rt_repository = ''o/r'', rt_project_id = 0,
     rt_change_number = 4, rt_base_url = []\<rparr>\<rparr>"

definition file_finding :: core_finding where
  "file_finding = (let f = sample_finding ''licence'' ''low'' in f\<lparr>cf_identity := (cf_identity f)\<lparr>fi_location :=
     (fi_location (cf_identity f))\<lparr>cl_path := ''a.go'', cl_start_line := 0, cl_end_line := 0\<rparr>\<rparr>\<rparr>)"

definition pull_run :: "engine_error + review_bundle" where
  "pull_run = Run (\<lambda>_. None) (\<lambda>_. Some ''{}'') (sample_packs [sample_finding ''leak'' ''low'', file_finding])
     (Some (JudgeAdapter (\<lambda>s. s) (\<lambda>ks. ks))) pull_input sample_options"

definition open_client :: github_client where
  "open_client = \<lparr>gc_head_sha = (\<lambda>_ _. Some ''h0''), gc_accepts = (\<lambda>_ _. True)\<rparr>"

lemma pull_run_posts:
  "case pull_run of Inl _ \<Rightarrow> False | Inr b \<Rightarrow>
     (case github_Publish (Some open_client) b [] of (e, calls) \<Rightarrow> e = None \<and> length calls = 2)
     \<and> length (cd_merged_findings (JudgeAdapter (\<lambda>s. s) (\<lambda>ks. ks) (rb_artifacts b))) = 2"
  by code_simp


end
