(* ===== verification/Gate.thy ===== *)
theory Gate
  imports Db_Findings Go_Json
begin

text \<open>
  The merge gate, \<^verbatim>\<open>internal/gate/service.go\<close>: which findings of a run block the merge and how the
  verdict is published. The byte-level JSON reader and writer are the parameters \<open>decode\<close>
  and \<open>marshal\<close>. The three publishers are
  interfaces of the service and stay arbitrary store programs.
\<close>

subsection \<open>Severities\<close>

definition severityRank :: "string \<Rightarrow> nat" where
  "severityRank value = (let v = norm_lower value in
     if v = ''critical'' then 4 else if v = ''high'' then 3 else if v = ''medium'' then 2
     else if v = ''low'' then 1 else 0)"

subsection \<open>The resolved flag of a discussion\<close>

fun coerceBool :: "json \<Rightarrow> bool option" where
  "coerceBool (JBool b) = Some b"
| "coerceBool (JString t) = parse_bool (trim_space t)"
| "coerceBool (JNumber t) = map_option (\<lambda>i. i \<noteq> 0) (parse_int64 t)"
| "coerceBool _ = None"

fun first_key :: "string list \<Rightarrow> (string \<times> json) list \<Rightarrow> json option" where
  "first_key [] kvs = None"
| "first_key (k # ks) kvs = (case map_of kvs k of Some v \<Rightarrow> Some v | None \<Rightarrow> first_key ks kvs)"

fun first_found :: "bool option list \<Rightarrow> bool option" where
  "first_found [] = None"
| "first_found (Some b # rest) = Some b"
| "first_found (None # rest) = first_found rest"

text \<open>The results for the members of an object, computed first so that the recursion stays on
  components of the value; the keys are then consulted in the order of the source.\<close>

fun resolvedFromValue :: "json \<Rightarrow> bool option" where
  "resolvedFromValue (JObject kvs) =
     (case first_key [''resolved'', ''discussion_resolved'', ''thread_resolved''] kvs of
        Some raw \<Rightarrow> coerceBool raw
      | None \<Rightarrow>
          (let res = map (\<lambda>(k, v). (k, resolvedFromValue v)) kvs in
           first_found (map (\<lambda>k. case map_of res k of Some r \<Rightarrow> r | None \<Rightarrow> None)
             [''discussion'', ''thread'', ''gitlab_discussion'', ''metadata''])))"
| "resolvedFromValue (JArray items) = first_found (map resolvedFromValue items)"
| "resolvedFromValue _ = None"

definition parseResolvedFlag :: "(string \<Rightarrow> json option) \<Rightarrow> string \<Rightarrow> bool option" where
  "parseResolvedFlag decode raw0 =
     (let raw = trim_space raw0 in
      if raw = [] then None
      else case (case decode raw of Some payload \<Rightarrow> resolvedFromValue (go_value payload) | None \<Rightarrow> None) of
        Some r \<Rightarrow> Some r
      | None \<Rightarrow>
          (let l = to_lower raw in
           if contains l ''resolved=true'' \<or> contains l ([CHR 0x22] @ ''resolved'' @ [CHR 0x22] @ '':true'')
           then Some True
           else if contains l ''resolved=false'' \<or> contains l ([CHR 0x22] @ ''resolved'' @ [CHR 0x22] @ '':false'')
           then Some False
           else None))"

definition discussionResolved ::
  "(string \<Rightarrow> json option) \<Rightarrow> review_finding \<Rightarrow> (int \<rightharpoonup> bool) option \<Rightarrow> bool" where
  "discussionResolved decode f states = (case states of
     Some m \<Rightarrow> (case m (rf_id f) of Some r \<Rightarrow> r | None \<Rightarrow> False)
   | None \<Rightarrow>
       (case Option.bind (rf_evidence f) (parseResolvedFlag decode) of
          Some r \<Rightarrow> r
        | None \<Rightarrow> (case Option.bind (rf_body_markdown f) (parseResolvedFlag decode) of
              Some r \<Rightarrow> r | None \<Rightarrow> False)))"

definition blocksThreadsResolved ::
  "(string \<Rightarrow> json option) \<Rightarrow> review_finding \<Rightarrow> (int \<rightharpoonup> bool) option \<Rightarrow> bool" where
  "blocksThreadsResolved decode f states \<longleftrightarrow>
     trim_space (rf_gitlab_discussion_id f) \<noteq> [] \<and> \<not> discussionResolved decode f states"

subsection \<open>The verdict\<close>

definition closed_states :: "string list" where
  "closed_states = [''ignored'', ''fixed'', ''stale'', ''superseded'', ''filtered'']"

definition gate_threshold :: "project_policy option \<Rightarrow> string" where
  "gate_threshold policy = (case policy of None \<Rightarrow> ''low'' | Some p \<Rightarrow>
     if trim_space (pp_severity_threshold p) \<noteq> [] then trim_space (pp_severity_threshold p) else ''low'')"

definition qualifies :: "(string \<Rightarrow> json option) \<Rightarrow> project_policy option \<Rightarrow> string \<Rightarrow>
    review_finding \<Rightarrow> (int \<rightharpoonup> bool) option \<Rightarrow> bool" where
  "qualifies decode policy mode f states =
     (if norm_lower (rf_state f) \<in> set closed_states then False
      else if severityRank (rf_severity f) < severityRank (gate_threshold policy) then False
      else if (case policy of None \<Rightarrow> False | Some p \<Rightarrow>
          pp_confidence_threshold p > 0 \<and> rf_confidence f < pp_confidence_threshold p) then False
      else if equal_fold (trim_space mode) ''threads_resolved''
          \<and> \<not> blocksThreadsResolved decode f states then False
      else True)"

record gate_result =
  gr_run_id :: int
  gr_merge_request_id :: int
  gr_project_id :: int
  gr_head_sha :: string
  gr_state :: string
  gr_mode :: string
  gr_blocking_findings :: nat
  gr_qualifying_finding_ids :: "int list"
  gr_summary :: string
  gr_source :: string
  gr_trace_id :: string

definition gate_mode_of :: "project_policy option \<Rightarrow> string" where
  "gate_mode_of policy = (case policy of None \<Rightarrow> ''threads_resolved'' | Some p \<Rightarrow>
     if trim_space (pp_gate_mode p) \<noteq> [] then trim_space (pp_gate_mode p) else ''threads_resolved'')"

definition ComputeResultWithDiscussionState :: "(string \<Rightarrow> json option) \<Rightarrow> review_run \<Rightarrow>
    project_policy option \<Rightarrow> review_finding list \<Rightarrow> (int \<rightharpoonup> bool) option \<Rightarrow> string \<Rightarrow> gate_result" where
  "ComputeResultWithDiscussionState decode run policy findings states traceID =
     (let mode = gate_mode_of policy;
          ids = map rf_id (filter (\<lambda>f. qualifies decode policy mode f states) findings);
          state = (if length ids > 0 then ''failed'' else ''passed'')
      in \<lparr>gr_run_id = rr_id run, gr_merge_request_id = rr_merge_request_id run,
          gr_project_id = rr_project_id run, gr_head_sha = rr_head_sha run, gr_state = state,
          gr_mode = mode, gr_blocking_findings = length ids, gr_qualifying_finding_ids = ids,
          gr_summary = ''gate '' @ state @ '' with '' @ itoa (int (length ids)) @ '' qualifying findings'',
          gr_source = ''review_run'', gr_trace_id = traceID\<rparr>)"

definition ComputeResult :: "(string \<Rightarrow> json option) \<Rightarrow> review_run \<Rightarrow>
    project_policy option \<Rightarrow> review_finding list \<Rightarrow> string \<Rightarrow> gate_result" where
  "ComputeResult decode run policy findings traceID =
     ComputeResultWithDiscussionState decode run policy findings None traceID"

subsection \<open>Publication\<close>

record gate_service =
  gs_status_publisher :: "(gate_result \<Rightarrow> unit dbm) option"
  gs_ci_publisher :: "(gate_result \<Rightarrow> unit dbm) option"
  gs_audit_logger :: "(int \<Rightarrow> gate_result \<Rightarrow> unit dbm) option"

definition optional_call :: "('a \<Rightarrow> unit dbm) option \<Rightarrow> 'a \<Rightarrow> unit dbm" where
  "optional_call f x = (case f of None \<Rightarrow> ret () | Some g \<Rightarrow> g x)"

definition Publish :: "gate_service \<Rightarrow> gate_result \<Rightarrow> unit dbm" where
  "Publish gs result =
     bindM (optional_call (gs_status_publisher gs) result) (\<lambda>_.
     bindM (optional_call (gs_ci_publisher gs) result) (\<lambda>_.
     (case gs_audit_logger gs of None \<Rightarrow> ret () | Some lg \<Rightarrow> lg (gr_run_id result) result)))"

definition gate_detail :: "gate_result \<Rightarrow> json" where
  "gate_detail r = JObject
     [(''blocking_findings'', JNumber (itoa (int (gr_blocking_findings r)))),
      (''mode'', JString (gr_mode r)),
      (''qualifying_finding_ids'', JArray (map (\<lambda>i. JNumber (itoa i)) (gr_qualifying_finding_ids r))),
      (''state'', JString (gr_state r)), (''trace_id'', JString (gr_trace_id r))]"

definition LogGateResult :: "(json \<Rightarrow> string option) \<Rightarrow> int \<Rightarrow> gate_result \<Rightarrow> unit dbm" where
  "LogGateResult marshal runID result = bindM (InsertAuditLog
     \<lparr>alp_entity_type = ''review_run'', alp_entity_id = runID, alp_action = ''gate_published'',
      alp_actor = ''system'', alp_detail = marshal (gate_detail result), alp_delivery_key = [],
      alp_hook_source = [], alp_verification_outcome = [], alp_rejection_reason = [],
      alp_error_code = []\<rparr>) (\<lambda>_. ret ())"

subsection \<open>What the gate promises\<close>

text \<open>The documented rule, written without the code's early returns.\<close>

definition confident :: "project_policy option \<Rightarrow> review_finding \<Rightarrow> bool" where
  "confident policy f \<longleftrightarrow> (case policy of None \<Rightarrow> True
     | Some p \<Rightarrow> pp_confidence_threshold p \<le> 0 \<or> pp_confidence_threshold p \<le> rf_confidence f)"

definition gate_blocks ::
  "(string \<Rightarrow> json option) \<Rightarrow> project_policy option \<Rightarrow> (int \<rightharpoonup> bool) option \<Rightarrow> review_finding \<Rightarrow> bool" where
  "gate_blocks decode policy states f \<longleftrightarrow>
     norm_lower (rf_state f) \<notin> set closed_states
     \<and> severityRank (gate_threshold policy) \<le> severityRank (rf_severity f)
     \<and> confident policy f
     \<and> (equal_fold (gate_mode_of policy) ''threads_resolved''
        \<longrightarrow> blocksThreadsResolved decode f states)"

lemma gate_mode_trimmed: "trim_space (gate_mode_of policy) = gate_mode_of policy"
proof -
  have "trim_space ''threads_resolved'' = ''threads_resolved''" by code_simp
  then show ?thesis by (simp add: gate_mode_of_def trim_space_idem split: option.split)
qed

lemma qualifies_iff_blocks:
  "qualifies decode policy (gate_mode_of policy) f states \<longleftrightarrow> gate_blocks decode policy states f"
  by (cases policy)
    (auto simp: qualifies_def gate_blocks_def confident_def gate_mode_trimmed not_less)


lemma resolved_never_blocks:
  assumes "trim_space (rf_gitlab_discussion_id f) = [] \<or> m (rf_id f) = Some True"
  shows "\<not> blocksThreadsResolved decode f (Some m)"
  using assms by (auto simp: blocksThreadsResolved_def discussionResolved_def)

text \<open>Threads-resolved gate opens. With the default gate mode, once every finding that has a
  GitLab discussion is recorded as resolved, the gate passes, whatever the severities, confidences
  and states of the findings.\<close>

theorem gate_opens_when_threads_resolved:
  assumes "equal_fold (gate_mode_of policy) ''threads_resolved''"
    and "\<And>f. f \<in> set fs \<Longrightarrow>
      trim_space (rf_gitlab_discussion_id f) = [] \<or> m (rf_id f) = Some True"
  shows "gr_state (ComputeResultWithDiscussionState decode run policy fs (Some m) tr) = ''passed''"
  using assms resolved_never_blocks
  by (auto simp: ComputeResultWithDiscussionState_def Let_def qualifies_iff_blocks gate_blocks_def
      filter_empty_conv)

theorem gate_opens_when_threads_resolved_witness:
  "gr_state (ComputeResultWithDiscussionState (\<lambda>_. None) zero_review_run None
      [zero_review_finding\<lparr>rf_id := 7, rf_severity := ''critical'', rf_gitlab_discussion_id := ''d7''\<rparr>]
      (Some [7 \<mapsto> True]) []) = ''passed''"
  by (rule gate_opens_when_threads_resolved) (code_simp, simp add: zero_review_finding_def)

text \<open>Monotonicity of the policy. A gate that fails for some findings still fails when findings
  are added and when the policy is made stricter: a threshold of lower or equal rank and a lower
  confidence threshold, with the same mode.\<close>

theorem gate_monotone:
  assumes "set fs \<subseteq> set gs"
    and "gate_mode_of (Some p) = gate_mode_of (Some q)"
    and "severityRank (gate_threshold (Some q)) \<le> severityRank (gate_threshold (Some p))"
    and "pp_confidence_threshold q \<le> pp_confidence_threshold p"
    and "gr_state (ComputeResultWithDiscussionState decode run (Some p) fs states tr) = ''failed''"
  shows "gr_state (ComputeResultWithDiscussionState decode run (Some q) gs states tr) = ''failed''"
proof -
  obtain f where f: "f \<in> set fs" "gate_blocks decode (Some p) states f"
    using assms(5)
    by (auto simp: ComputeResultWithDiscussionState_def Let_def qualifies_iff_blocks filter_empty_conv
        split: if_splits)
  have "gate_blocks decode (Some q) states f"
    using f(2) assms(2-4) by (auto simp: gate_blocks_def confident_def)
  with f(1) assms(1) show ?thesis
    by (auto simp: ComputeResultWithDiscussionState_def Let_def qualifies_iff_blocks filter_empty_conv)
qed

theorem gate_monotone_witness:
  "gr_state (ComputeResultWithDiscussionState (\<lambda>_. None) zero_review_run
      (Some (zero_project_policy\<lparr>pp_severity_threshold := ''low'', pp_gate_mode := ''ci''\<rparr>))
      [zero_review_finding\<lparr>rf_id := 7, rf_severity := ''high''\<rparr>] None []) = ''failed''"
  by (rule gate_monotone [where fs = "[zero_review_finding\<lparr>rf_id := 7, rf_severity := ''high''\<rparr>]" and
        p = "zero_project_policy\<lparr>pp_severity_threshold := ''high'', pp_gate_mode := ''ci''\<rparr>"])
    (simp, code_simp+)

end
