(* ===== verification/Scheduler.thy ===== *)
theory Scheduler
  imports Gate Db_Runs
begin

text \<open>
  The worker, \<^verbatim>\<open>internal/scheduler/service.go\<close>: configuration, claiming a run in a transaction with
  a bounded number of attempts, processing it and writing the terminal state, retries with
  exponential backoff, and the reaper of runs whose worker died.

  The processor and the status publisher are interfaces of the service: arbitrary store programs,
  so they may also change any table, which covers every other client of the database that acts
  while a run is being processed. \<open>sleep\<close> is \<^verbatim>\<open>timeutil.SleepContext\<close>, likewise arbitrary:
  time passes, others act, and it fails when the context is cancelled. \<open>et\<close> is the text an error
  prints as. Logs, metrics and traces have no effect on the state and are left out.
\<close>

subsection \<open>Configuration\<close>

definition defaultPollInterval :: int where "defaultPollInterval = second"
definition defaultRetryBaseDelay :: int where "defaultRetryBaseDelay = second"
definition defaultRetryMaxDelay :: int where "defaultRetryMaxDelay = 30 * second"
definition defaultWorkerConcurrency :: int where "defaultWorkerConcurrency = 4"
definition defaultClaimRetryWait :: int where "defaultClaimRetryWait = 25 * 1000000"
definition defaultClaimRetryCount :: nat where "defaultClaimRetryCount = 8"
definition defaultFailureCode :: string where "defaultFailureCode = ''run_failed''"
definition defaultClaimTimeoutMin :: int where "defaultClaimTimeoutMin = 10"
definition defaultReaperInterval :: int where "defaultReaperInterval = 60 * second"

record process_outcome =
  po_status :: string
  po_provider_latency_ms :: int
  po_provider_tokens_total :: int
  po_review_findings :: "review_finding list option"

record scheduler =
  sc_processor :: "(review_run \<Rightarrow> process_outcome dbm) option"
  sc_gate_service :: "gate_service option"
  sc_status_publisher :: "(gate_result \<Rightarrow> unit dbm) option"
  sc_worker_id :: string
  sc_poll_interval :: int
  sc_retry_base_delay :: int
  sc_retry_max_delay :: int
  sc_claim_timeout_minutes :: int
  sc_reaper_interval :: int
  sc_worker_concurrency :: int

datatype sched_option =
    WithWorkerID string
  | WithPollInterval int
  | WithRetryBaseDelay int
  | WithRetryMaxDelay int
  | WithGateService "gate_service option"
  | WithStatusPublisher "(gate_result \<Rightarrow> unit dbm) option"
  | WithClaimTimeout int
  | WithReaperInterval int
  | WithWorkerConcurrency int

fun apply_option :: "scheduler \<Rightarrow> sched_option \<Rightarrow> scheduler" where
  "apply_option s (WithWorkerID w) = (if w \<noteq> [] then s\<lparr>sc_worker_id := w\<rparr> else s)"
| "apply_option s (WithPollInterval d) = (if d > 0 then s\<lparr>sc_poll_interval := d\<rparr> else s)"
| "apply_option s (WithRetryBaseDelay d) = (if d > 0 then s\<lparr>sc_retry_base_delay := d\<rparr> else s)"
| "apply_option s (WithRetryMaxDelay d) = (if d > 0 then s\<lparr>sc_retry_max_delay := d\<rparr> else s)"
| "apply_option s (WithGateService g) = s\<lparr>sc_gate_service := g\<rparr>"
| "apply_option s (WithStatusPublisher p) = s\<lparr>sc_status_publisher := p\<rparr>"
| "apply_option s (WithClaimTimeout m) = (if m > 0 then s\<lparr>sc_claim_timeout_minutes := m\<rparr> else s)"
| "apply_option s (WithReaperInterval d) = (if d > 0 then s\<lparr>sc_reaper_interval := d\<rparr> else s)"
| "apply_option s (WithWorkerConcurrency n) = (if n > 0 then s\<lparr>sc_worker_concurrency := n\<rparr> else s)"

text \<open>\<open>None\<close> in the list is a nil option, skipped by the constructor.\<close>

fun apply_options :: "scheduler \<Rightarrow> sched_option option list \<Rightarrow> scheduler" where
  "apply_options s [] = s"
| "apply_options s (None # opts) = apply_options s opts"
| "apply_options s (Some opt # opts) = apply_options (apply_option s opt) opts"

definition default_scheduler ::
  "string \<Rightarrow> (review_run \<Rightarrow> process_outcome dbm) option \<Rightarrow> scheduler" where
  "default_scheduler workerID processor =
     \<lparr>sc_processor = processor, sc_gate_service = None, sc_status_publisher = None,
      sc_worker_id = workerID, sc_poll_interval = defaultPollInterval,
      sc_retry_base_delay = defaultRetryBaseDelay, sc_retry_max_delay = defaultRetryMaxDelay,
      sc_claim_timeout_minutes = defaultClaimTimeoutMin,
      sc_reaper_interval = defaultReaperInterval,
      sc_worker_concurrency = defaultWorkerConcurrency\<rparr>"

definition clamp_scheduler :: "scheduler \<Rightarrow> scheduler" where
  "clamp_scheduler s0 =
     (let s1 = (if sc_retry_base_delay s0 \<le> 0 then s0\<lparr>sc_retry_base_delay := defaultRetryBaseDelay\<rparr> else s0);
          s2 = (if sc_retry_max_delay s1 < sc_retry_base_delay s1
                then s1\<lparr>sc_retry_max_delay := sc_retry_base_delay s1\<rparr> else s1);
          s3 = (if sc_poll_interval s2 \<le> 0 then s2\<lparr>sc_poll_interval := defaultPollInterval\<rparr> else s2);
          s4 = (if sc_claim_timeout_minutes s3 \<le> 0
                then s3\<lparr>sc_claim_timeout_minutes := defaultClaimTimeoutMin\<rparr> else s3);
          s5 = (if sc_reaper_interval s4 \<le> 0
                then s4\<lparr>sc_reaper_interval := defaultReaperInterval\<rparr> else s4)
      in if sc_worker_concurrency s5 \<le> 0 then s5\<lparr>sc_worker_concurrency := 1\<rparr> else s5)"

text \<open>\<open>hostID\<close> is the result of \<^verbatim>\<open>defaultWorkerID\<close> (host name and process id).\<close>

definition NewService :: "string \<Rightarrow> (review_run \<Rightarrow> process_outcome dbm) option \<Rightarrow>
    sched_option option list \<Rightarrow> scheduler" where
  "NewService hostID processor opts =
     clamp_scheduler (apply_options (default_scheduler hostID processor) opts)"

subsection \<open>Backoff\<close>

text \<open>Durations are \<^verbatim>\<open>int64\<close>: arithmetic wraps, division truncates towards zero.\<close>

definition wrap64 :: "int \<Rightarrow> int" where
  "wrap64 x = (x + 2 ^ 63) mod 2 ^ 64 - 2 ^ 63"

definition half64 :: "int \<Rightarrow> int" where
  "half64 x = (if x \<ge> 0 then x div 2 else - ((- x) div 2))"

fun retry_loop :: "int \<Rightarrow> int \<Rightarrow> nat \<Rightarrow> int" where
  "retry_loop mx delay 0 = (if delay > mx then mx else delay)"
| "retry_loop mx delay (Suc n) =
     (if delay \<ge> half64 mx then mx else retry_loop mx (wrap64 (delay * 2)) n)"

definition retryDelay :: "scheduler \<Rightarrow> int \<Rightarrow> int" where
  "retryDelay s retryCount =
     retry_loop (sc_retry_max_delay s) (sc_retry_base_delay s) (nat retryCount)"

definition classifyRunError :: "(go_error \<Rightarrow> string) \<Rightarrow> go_error \<Rightarrow> string \<times> string \<times> bool" where
  "classifyRunError et e =
     (let (code, retryable) = (case e of ErrRun c r t \<Rightarrow> (c, r) | _ \<Rightarrow> (defaultFailureCode, False));
          code' = (if code = [] then defaultFailureCode else code)
      in (code', et e, retryable))"

definition nullableString :: "string \<Rightarrow> string option" where
  "nullableString value = (if value = [] then None else Some value)"

subsection \<open>Claiming\<close>

definition claim_attempt :: "string \<Rightarrow> review_run dbm" where
  "claim_attempt workerID = run_tx (tryM GetNextClaimableReviewRun (\<lambda>r. case r of
       Inl e \<Rightarrow> if e = ErrNoRows then throw ErrNoClaimableRuns else throw e
     | Inr run \<Rightarrow> bindM (ClaimReviewRun workerID (rr_id run)) (\<lambda>_. GetReviewRun (rr_id run))))"

fun claim_loop :: "(int \<Rightarrow> unit dbm) \<Rightarrow> string \<Rightarrow> nat \<Rightarrow> review_run dbm" where
  "claim_loop sleep workerID 0 = throw ErrNoClaimableRuns"
| "claim_loop sleep workerID (Suc n) = tryM (claim_attempt workerID) (\<lambda>r. case r of
       Inr run \<Rightarrow> ret run
     | Inl e \<Rightarrow> if e = ErrNoClaimableRuns then
           (if n > 0 then bindM (sleep defaultClaimRetryWait) (\<lambda>_. claim_loop sleep workerID n)
            else throw ErrNoClaimableRuns)
         else throw e)"

definition ClaimNextRun :: "(int \<Rightarrow> unit dbm) \<Rightarrow> scheduler \<Rightarrow> review_run dbm" where
  "ClaimNextRun sleep s = claim_loop sleep (sc_worker_id s) defaultClaimRetryCount"

definition ReapStaleRuns :: "scheduler \<Rightarrow> int dbm" where
  "ReapStaleRuns s = ReapStaleRunningRuns (sc_claim_timeout_minutes s)"

subsection \<open>Processing a claimed run\<close>

definition publishDirectStatus :: "scheduler \<Rightarrow> gate_result \<Rightarrow> unit dbm" where
  "publishDirectStatus s result = (case sc_status_publisher s of
     None \<Rightarrow> ret () | Some p \<Rightarrow> tryM (p result) (\<lambda>_. ret ()))"

definition direct_result :: "review_run \<Rightarrow> string \<Rightarrow> string \<Rightarrow> gate_result" where
  "direct_result run state traceID =
     \<lparr>gr_run_id = rr_id run, gr_merge_request_id = rr_merge_request_id run,
      gr_project_id = rr_project_id run, gr_head_sha = rr_head_sha run, gr_state = state,
      gr_mode = [], gr_blocking_findings = 0, gr_qualifying_finding_ids = [], gr_summary = [],
      gr_source = ''review_run'', gr_trace_id = traceID\<rparr>"

definition publishInProgressStatus :: "string \<Rightarrow> scheduler \<Rightarrow> review_run \<Rightarrow> unit dbm" where
  "publishInProgressStatus tr s run = publishDirectStatus s (direct_result run ''running'' tr)"

definition reloadRunningRun :: "int \<Rightarrow> review_run dbm" where
  "reloadRunningRun runID = bindM (GetReviewRun runID) (\<lambda>run.
     if rr_status run = ''cancelled'' then throw ErrRunCancelled
     else if rr_status run \<noteq> ''running'' then
       throw (ErrMsg (''scheduler: run '' @ itoa runID @ '' has unexpected status before processing''))
     else ret run)"

datatype terminal = TCompleted | TFailed | TRetryable

definition handleSkippedTerminalWrite :: "review_run \<Rightarrow> terminal \<Rightarrow> review_run dbm" where
  "handleSkippedTerminalWrite run terminalState = bindM (GetReviewRun (rr_id run)) (\<lambda>cur.
     if rr_status cur = ''cancelled'' then ret cur
     else if (case terminalState of
         TCompleted \<Rightarrow> rr_status cur = ''completed'' \<or> rr_status cur = ''requested_changes''
       | TFailed \<Rightarrow> rr_status cur = ''failed''
       | TRetryable \<Rightarrow> rr_status cur = ''failed'' \<and> rr_next_retry_at cur \<noteq> None)
     then ret cur
     else throw (ErrMsg ''scheduler: skipped write for run with unexpected status''))"

definition persistProviderMetricsIfNeeded ::
  "int \<Rightarrow> review_run \<Rightarrow> process_outcome \<Rightarrow> unit dbm" where
  "persistProviderMetricsIfNeeded runID cur outcome =
     (if po_provider_latency_ms outcome = 0 \<and> po_provider_tokens_total outcome = 0 then ret ()
      else if rr_provider_latency_ms cur = po_provider_latency_ms outcome
        \<and> rr_provider_tokens_total cur = po_provider_tokens_total outcome then ret ()
      else UpdateReviewRunProviderMetrics (po_provider_latency_ms outcome)
        (po_provider_tokens_total outcome) runID)"

text \<open>The loop that looks up the discussion of every finding; a missing discussion is skipped.\<close>

fun discussion_states :: "int \<Rightarrow> review_finding list \<Rightarrow> (int \<rightharpoonup> bool) \<Rightarrow> (int \<rightharpoonup> bool) dbm" where
  "discussion_states mrID [] m = ret m"
| "discussion_states mrID (f # fs) m =
     (if trim_space (rf_gitlab_discussion_id f) = [] then discussion_states mrID fs m
      else tryM (GetGitlabDiscussionByMergeRequestAndFinding mrID (rf_id f)) (\<lambda>r. case r of
          Inl e \<Rightarrow> if e = ErrNoRows then discussion_states mrID fs m else throw e
        | Inr d \<Rightarrow> discussion_states mrID fs (m(rf_id f \<mapsto> gd_resolved d))))"

definition publishGateResult :: "(string \<Rightarrow> json option) \<Rightarrow> string \<Rightarrow> scheduler \<Rightarrow>
    review_run \<Rightarrow> process_outcome \<Rightarrow> gate_result option dbm" where
  "publishGateResult decode tr s run outcome = (case sc_gate_service s of
     None \<Rightarrow> ret None
   | Some gs \<Rightarrow>
      (let st0 = norm_lower (po_status outcome);
           st = (if st0 = [] then ''completed'' else st0)
       in if st \<noteq> ''completed'' \<and> st \<noteq> ''requested_changes'' then ret None
          else tryM (GetProjectPolicy (rr_project_id run)) (\<lambda>p.
            case (case p of Inl e \<Rightarrow> if e = ErrNoRows then Inr None else Inl e
                          | Inr pol \<Rightarrow> Inr (Some pol)) of
              Inl e \<Rightarrow> throw e
            | Inr policy \<Rightarrow>
                bindM (case po_review_findings outcome of
                    Some fs \<Rightarrow> ret fs | None \<Rightarrow> ListFindingsByRun (rr_id run)) (\<lambda>findings.
                bindM (discussion_states (rr_merge_request_id run) findings Map.empty) (\<lambda>states.
                let result = ComputeResultWithDiscussionState decode run policy findings (Some states) tr
                in bindM (Publish gs result) (\<lambda>_. ret (Some result)))))))"

definition processParserError :: "string \<Rightarrow> scheduler \<Rightarrow> review_run \<Rightarrow> process_outcome \<Rightarrow> unit dbm" where
  "processParserError tr s run outcome = bindM (GetReviewRun (rr_id run)) (\<lambda>cur.
     if rr_status cur = ''cancelled'' then ret ()
     else if rr_status cur \<noteq> ''parser_error'' then
       throw (ErrMsg ''scheduler: run expected parser_error status'')
     else bindM (UpdateReviewRunStatus ''parser_error'' [] None (rr_id run)) (\<lambda>_.
          bindM (persistProviderMetricsIfNeeded (rr_id run) cur outcome) (\<lambda>_.
          publishDirectStatus s (direct_result run ''failed'' tr))))"

definition processCompleted :: "(string \<Rightarrow> json option) \<Rightarrow> string \<Rightarrow> scheduler \<Rightarrow> review_run \<Rightarrow>
    process_outcome \<Rightarrow> unit dbm" where
  "processCompleted decode tr s run outcome =
     bindM (publishGateResult decode tr s run outcome) (\<lambda>g.
     bindM (case g of None \<Rightarrow> ret () | Some r \<Rightarrow> publishDirectStatus s r) (\<lambda>_.
     bindM (UpdateReviewRunCompletedIfRunning
        \<lparr>cp_provider_latency_ms = po_provider_latency_ms outcome,
         cp_provider_tokens_total = po_provider_tokens_total outcome, cp_id = rr_id run\<rparr>) (\<lambda>updated.
     if updated then ret ()
     else bindM (handleSkippedTerminalWrite run TCompleted) (\<lambda>cur.
        if rr_status cur \<noteq> ''cancelled''
        then persistProviderMetricsIfNeeded (rr_id run) cur outcome else ret ()))))"

definition processFailure :: "(go_error \<Rightarrow> string) \<Rightarrow> string \<Rightarrow> scheduler \<Rightarrow> review_run \<Rightarrow>
    go_error \<Rightarrow> unit dbm" where
  "processFailure et tr s run err =
     (let (code, detail, retryable) = classifyRunError et err in
      if retryable \<and> rr_retry_count run < rr_max_retries run then
        (\<lambda>st. bindM (MarkReviewRunRetryableFailureIfRunning
           \<lparr>mrp_error_code = code, mrp_error_detail = nullableString detail,
            mrp_retry_count = rr_retry_count run + 1,
            mrp_next_retry_at = Some (clock st + retryDelay s (rr_retry_count run)),
            mrp_id = rr_id run\<rparr>) (\<lambda>updated.
           if updated then ret ()
           else bindM (handleSkippedTerminalWrite run TRetryable) (\<lambda>_. ret ())) st)
      else bindM (MarkReviewRunFailedIfRunning
           \<lparr>mfp_error_code = code, mfp_error_detail = nullableString detail,
            mfp_retry_count = rr_retry_count run, mfp_id = rr_id run\<rparr>) (\<lambda>updated.
           if updated then publishDirectStatus s (direct_result run ''failed'' tr)
           else bindM (handleSkippedTerminalWrite run TFailed) (\<lambda>_. ret ())))"

definition processClaimedRun :: "(string \<Rightarrow> json option) \<Rightarrow> (go_error \<Rightarrow> string) \<Rightarrow> string \<Rightarrow> scheduler \<Rightarrow>
    (review_run \<Rightarrow> process_outcome dbm) \<Rightarrow> review_run \<Rightarrow> unit dbm" where
  "processClaimedRun decode et tr s processor run0 =
     tryM (reloadRunningRun (rr_id run0)) (\<lambda>r. case r of
       Inl e \<Rightarrow> if e = ErrRunCancelled then ret () else throw e
     | Inr run \<Rightarrow>
         bindM (publishInProgressStatus tr s run) (\<lambda>_.
         tryM (processor run) (\<lambda>res. case res of
           Inl err \<Rightarrow> processFailure et tr s run err
         | Inr outcome \<Rightarrow>
             if (if po_status outcome = [] then ''completed'' else po_status outcome) = ''parser_error''
             then processParserError tr s run outcome
             else processCompleted decode tr s run outcome)))"

text \<open>\<^verbatim>\<open>RunOnce\<close> returns a count and an error together.\<close>

definition RunOnce :: "(string \<Rightarrow> json option) \<Rightarrow> (go_error \<Rightarrow> string) \<Rightarrow> string \<Rightarrow>
    (int \<Rightarrow> unit dbm) \<Rightarrow> scheduler \<Rightarrow> (int \<times> go_error option) dbm" where
  "RunOnce decode et tr sleep s = (case sc_processor s of
     None \<Rightarrow> ret (0, Some (ErrMsg ''scheduler: processor is required''))
   | Some processor \<Rightarrow> tryM (ClaimNextRun sleep s) (\<lambda>r. case r of
       Inl e \<Rightarrow> ret (0, if e = ErrNoClaimableRuns then None else Some e)
     | Inr run \<Rightarrow> tryM (processClaimedRun decode et tr s processor run) (\<lambda>r'. case r' of
         Inl e \<Rightarrow> ret (1, Some e) | Inr _ \<Rightarrow> ret (1, None))))"

text \<open>The worker loop, cut off after \<open>fuel\<close> rounds: \<open>None\<close> means still running. \<open>done\<close> is
  the context's Done channel at the start of a round.\<close>

fun runWorkerLoop :: "nat \<Rightarrow> (db \<Rightarrow> bool) \<Rightarrow> (string \<Rightarrow> json option) \<Rightarrow> (go_error \<Rightarrow> string) \<Rightarrow> string \<Rightarrow>
    (int \<Rightarrow> unit dbm) \<Rightarrow> scheduler \<Rightarrow> unit option dbm" where
  "runWorkerLoop 0 dn decode et tr sleep s st = ret None st"
| "runWorkerLoop (Suc fuel) dn decode et tr sleep s st =
     (if dn st then ret (Some ()) st
      else bindM (RunOnce decode et tr sleep s) (\<lambda>(processed, err).
        case err of
          Some e \<Rightarrow> throw e
        | None \<Rightarrow> if processed > 0 then runWorkerLoop fuel dn decode et tr sleep s
            else tryM (sleep (sc_poll_interval s)) (\<lambda>r. case r of
                Inl e \<Rightarrow> if e = ErrContext then ret (Some ()) else throw e
              | Inr _ \<Rightarrow> runWorkerLoop fuel dn decode et tr sleep s)) st)"

subsection \<open>Configuration and backoff\<close>

definition scheduler_ok :: "scheduler \<Rightarrow> bool" where
  "scheduler_ok s \<longleftrightarrow> 0 < sc_retry_base_delay s \<and> sc_retry_base_delay s \<le> sc_retry_max_delay s
     \<and> 0 < sc_poll_interval s \<and> 0 < sc_claim_timeout_minutes s \<and> 0 < sc_reaper_interval s
     \<and> 0 < sc_worker_concurrency s"

text \<open>Usable configuration. Whatever options are given, in whatever order, and including nil
  ones, the constructed service has a positive base delay, a maximal delay of at least the base
  delay, and positive intervals, claim timeout and worker count.\<close>

theorem NewService_ok: "scheduler_ok (NewService hostID processor opts)"
proof -
  have "scheduler_ok (clamp_scheduler s)" for s
    by (simp add: scheduler_ok_def clamp_scheduler_def Let_def defaultRetryBaseDelay_def
        defaultPollInterval_def defaultClaimTimeoutMin_def defaultReaperInterval_def second_def)
  then show ?thesis by (simp add: NewService_def)
qed

lemma wrap64_id: "- (2 ^ 63) \<le> x \<Longrightarrow> x < 2 ^ 63 \<Longrightarrow> wrap64 x = x"
  by (simp add: wrap64_def mod_pos_pos_trivial)

lemma retry_loop_bounds:
  assumes "0 < b" and "b \<le> mx" and "mx < 2 ^ 63"
  shows "min (b * 2 ^ n) mx \<le> retry_loop mx b n \<and> retry_loop mx b n \<le> mx
    \<and> retry_loop mx b n \<le> min (b * 2 ^ n) mx + 1"
  using assms
proof (induction n arbitrary: b)
  case 0
  then show ?case by simp
next
  case (Suc n)
  show ?case
  proof (cases "b \<ge> half64 mx")
    case True
    then have "mx \<le> b * 2 + 1" using Suc.prems by (simp add: half64_def)
    moreover have "b * 2 \<le> b * 2 ^ Suc n" using Suc.prems by simp
    ultimately show ?thesis using True by simp
  next
    case False
    then have b2: "b * 2 \<le> mx" "b * 2 < 2 ^ 63" using Suc.prems by (simp_all add: half64_def)
    then have "wrap64 (b * 2) = b * 2" using Suc.prems by (intro wrap64_id) simp_all
    moreover have "b * 2 ^ Suc n = (b * 2) * 2 ^ n" by simp
    ultimately show ?thesis using Suc.IH [of "b * 2"] Suc.prems b2 False by (simp only: retry_loop.simps if_False)
  qed
qed

text \<open>Backoff. For every retry count the delay of a constructed service lies between
  \<open>min (base * 2^n) max\<close> and \<open>max\<close>, and exceeds that reference by at most one nanosecond:
  doubling on \<^verbatim>\<open>int64\<close> never overflows, however large the retry count is.\<close>

theorem retryDelay_backoff:
  assumes "scheduler_ok s" and "sc_retry_max_delay s < 2 ^ 63"
  shows "let d = retryDelay s n;
             ref = min (sc_retry_base_delay s * 2 ^ nat n) (sc_retry_max_delay s)
         in ref \<le> d \<and> d \<le> sc_retry_max_delay s \<and> d \<le> ref + 1"
  using retry_loop_bounds [of "sc_retry_base_delay s" "sc_retry_max_delay s" "nat n"] assms
  by (simp add: retryDelay_def scheduler_ok_def Let_def)

theorem retryDelay_backoff_witness:
  "let s = NewService ''w'' None []; d = retryDelay s 3;
       ref = min (sc_retry_base_delay s * 2 ^ nat 3) (sc_retry_max_delay s)
   in ref \<le> d \<and> d \<le> sc_retry_max_delay s \<and> d \<le> ref + 1"
proof -
  let ?s = "NewService ''w'' None []"
  have ok: "scheduler_ok ?s" by code_simp
  have mx: "sc_retry_max_delay ?s < 2 ^ 63" by code_simp
  show ?thesis using retryDelay_backoff [OF ok mx, of 3] unfolding Let_def .
qed

subsection \<open>Claiming\<close>

lemma GetNext_ok: "faults s = [] \<Longrightarrow> GetNextClaimableReviewRun s =
    (case first_by claim_order (filter (claimable (clock s)) (rows (review_runs s))) of
       None \<Rightarrow> Inl ErrNoRows | Some r \<Rightarrow> Inr r, s)"
  by (simp add: GetNextClaimableReviewRun_def stmt_ok split: option.splits)

definition set_claimed :: "string \<Rightarrow> time \<Rightarrow> review_run \<Rightarrow> review_run" where
  "set_claimed w now r = r\<lparr>rr_status := ''running'', rr_claimed_by := w, rr_claimed_at := Some now,
     rr_started_at := (case rr_started_at r of None \<Rightarrow> Some now | Some t \<Rightarrow> Some t),
     rr_next_retry_at := None, rr_error_code := [], rr_error_detail := None, rr_updated_at := now\<rparr>"

lemma set_claimed_simps [simp]:
  "rr_id (set_claimed w now r) = rr_id r" "rr_status (set_claimed w now r) = ''running''"
  "rr_claimed_by (set_claimed w now r) = w" "rr_claimed_at (set_claimed w now r) = Some now"
  "rr_idempotency_key (set_claimed w now r) = rr_idempotency_key r"
  by (simp_all add: set_claimed_def)

lemma ClaimReviewRun_eq:
  "ClaimReviewRun w rid = discard (update_runs (\<lambda>_ r. rr_id r = rid) (set_claimed w))"
  unfolding ClaimReviewRun_def set_claimed_def ..

definition claimed_db :: "string \<Rightarrow> int \<Rightarrow> db \<Rightarrow> db" where
  "claimed_db w rid s = s\<lparr>review_runs :=
     update_rows (\<lambda>r. rr_id r = rid) (set_claimed w (clock s)) (review_runs s)\<rparr>"

lemma ClaimReviewRun_ok: "faults s = [] \<Longrightarrow> ClaimReviewRun w rid s = (Inr (), claimed_db w rid s)"
  by (simp add: ClaimReviewRun_eq discard_def update_runs_def bindM_def stmt_ok ret_def claimed_db_def)

lemma run_of_claimed_db:
  "run_of (claimed_db w rid s) i = map_option (\<lambda>r. if i = rid then set_claimed w (clock s) r else r) (run_of s i)"
proof -
  have "run_of (claimed_db w rid s) i
      = map_option (\<lambda>r. if rr_id r = rid then set_claimed w (clock s) r else r) (run_of s i)"
    unfolding claimed_db_def by (rule run_of_update_runs [where p = "\<lambda>_ r. rr_id r = rid" and f = "set_claimed w"]) simp
  also have "\<dots> = map_option (\<lambda>r. if i = rid then set_claimed w (clock s) r else r) (run_of s i)"
    using run_of_mem [of s i] by (cases "run_of s i") auto
  finally show ?thesis .
qed

lemma claim_attempt_none:
  assumes "faults s = []" and "\<And>r. r \<in> set (rows (review_runs s)) \<Longrightarrow> \<not> claimable (clock s) r"
  shows "claim_attempt w s = (Inl ErrNoClaimableRuns, s)"
proof -
  have "first_by claim_order (filter (claimable (clock s)) (rows (review_runs s))) = None"
    using assms(2) by (simp add: first_by_None filter_empty_conv)
  then show ?thesis
    using assms(1)
    by (simp add: claim_attempt_def run_tx_def stmt_ok ret_def tryM_def GetNext_ok throw_def rollback_def)
qed

lemma claim_attempt_some:
  assumes "faults s = []" and "runs_inv s"
    and "first_by claim_order (filter (claimable (clock s)) (rows (review_runs s))) = Some r"
  shows "claim_attempt w s = (Inr (set_claimed w (clock s) r), claimed_db w (rr_id r) s)"
proof -
  have "r \<in> set (rows (review_runs s))" using first_by_Some [OF assms(3)] by simp
  then have r: "run_of s (rr_id r) = Some r" by (rule run_of_unique [OF assms(2)])
  have f: "faults (claimed_db w (rr_id r) s) = []" using assms(1) by (simp add: claimed_db_def)
  have "bindM (ClaimReviewRun w (rr_id r)) (\<lambda>_. GetReviewRun (rr_id r)) s
      = (Inr (set_claimed w (clock s) r), claimed_db w (rr_id r) s)"
    using assms(1) f r by (simp add: bindM_def ClaimReviewRun_ok GetReviewRun_ok run_of_claimed_db)
  then have "tryM GetNextClaimableReviewRun (\<lambda>x. case x of
       Inl e \<Rightarrow> if e = ErrNoRows then throw ErrNoClaimableRuns else throw e
     | Inr run \<Rightarrow> bindM (ClaimReviewRun w (rr_id run)) (\<lambda>_. GetReviewRun (rr_id run))) s
     = (Inr (set_claimed w (clock s) r), claimed_db w (rr_id r) s)"
    using assms(1,3) by (simp add: tryM_def GetNext_ok)
  then show ?thesis
    unfolding claim_attempt_def using assms(1) f by (intro run_tx_ok) simp_all
qed

text \<open>Claiming. Without connection failures, a claim finds a run exactly when some run is
  claimable; it takes one that is least in the claim order (pending before retries, then due time,
  creation time and id), marks it running for this worker, and changes no other row. The claimed
  run is then no longer claimable.\<close>

theorem claim_attempt_spec:
  assumes "faults s = []" and "runs_inv s"
  shows "(\<exists>r t. r \<in> set (rows (review_runs s)) \<and> claimable (clock s) r
        \<and> (\<forall>y. y \<in> set (rows (review_runs s)) \<and> claimable (clock s) y \<longrightarrow> claim_order r \<le> claim_order y)
        \<and> claim_attempt w s = (Inr (set_claimed w (clock s) r), t)
        \<and> run_of t (rr_id r) = Some (set_claimed w (clock s) r)
        \<and> \<not> claimable (clock t) (set_claimed w (clock s) r)
        \<and> (\<forall>i. i \<noteq> rr_id r \<longrightarrow> run_of t i = run_of s i))
    \<or> ((\<forall>r. r \<in> set (rows (review_runs s)) \<longrightarrow> \<not> claimable (clock s) r)
        \<and> claim_attempt w s = (Inl ErrNoClaimableRuns, s))"
proof (cases "first_by claim_order (filter (claimable (clock s)) (rows (review_runs s)))")
  case None
  then have "\<And>r. r \<in> set (rows (review_runs s)) \<Longrightarrow> \<not> claimable (clock s) r"
    by (simp add: first_by_None filter_empty_conv)
  with claim_attempt_none [OF assms(1)] show ?thesis by blast
next
  case (Some r)
  note r = first_by_Some [OF Some] and c = claim_attempt_some [OF assms Some]
  have mem: "run_of s (rr_id r) = Some r" using r run_of_unique [OF assms(2)] by simp
  let ?t = "claimed_db w (rr_id r) s"
  have 1: "run_of ?t (rr_id r) = Some (set_claimed w (clock s) r)" by (simp add: run_of_claimed_db mem)
  have 2: "run_of ?t i = run_of s i" if "i \<noteq> rr_id r" for i
    using that by (simp add: run_of_claimed_db option.map_id0 [unfolded id_def])
  have 3: "\<not> claimable (clock ?t) (set_claimed w (clock s) r)" by (simp add: claimable_def)
  show ?thesis using r c 1 2 3 by auto
qed

theorem claim_attempt_spec_witness:
  "\<exists>t. claim_attempt ''w'' sample_db = (Inr (set_claimed ''w'' 1000 sample_pending), t)
     \<and> run_of t 1 = Some (set_claimed ''w'' 1000 sample_pending) \<and> run_of t 2 = run_of sample_db 2"
proof -
  have h: "faults sample_db = []" "runs_inv sample_db" by code_simp+
  have c: "clock sample_db = 1000" "sample_pending \<in> set (rows (review_runs sample_db))"
    "claimable 1000 sample_pending" "rr_id sample_pending = 1"
    "\<forall>x \<in> set (rows (review_runs sample_db)). claimable 1000 x \<longrightarrow> x = sample_pending" by code_simp+
  from claim_attempt_spec [OF h, of "''w''"] show ?thesis using c by fastforce
qed

lemma keeps_inv_claim_attempt: "keeps keeps_runs_inv (claim_attempt w)"
proof -
  have "keeps keeps_runs_inv (ClaimReviewRun w rid)" for rid
    unfolding ClaimReviewRun_eq
    by (intro keeps_inv_rules) (simp_all add: run_row_ok_def set_claimed_def)
  moreover have "keeps keeps_runs_inv GetNextClaimableReviewRun"
    unfolding GetNextClaimableReviewRun_def
    by (rule rinv.keeps_stmt) (simp add: rinv.R_refl split: option.splits)
  moreover have "keeps keeps_runs_inv (GetReviewRun rid)" for rid
    unfolding GetReviewRun_def by (rule rinv.keeps_query_row)
  ultimately show ?thesis
    unfolding claim_attempt_def
    by (intro rinv.keeps_run_tx rinv.keeps_tryM) (auto split: sum.split intro!: rinv.keeps_rules)
qed

lemma claim_attempt_InrE:
  assumes "claim_attempt w s = (Inr r, t)" and "runs_inv s"
  obtains x where "x \<in> set (rows (review_runs s))" and "claimable (clock s) x"
    and "r = set_claimed w (clock s) x" and "run_of t (rr_id x) = Some r"
    and "\<And>i. i \<noteq> rr_id x \<Longrightarrow> run_of t i = run_of s i"
proof -
  from assms(1) obtain s1 s4 where s1: "same_tables s s1" and t: "same_tables s4 t" and
    m: "tryM GetNextClaimableReviewRun (\<lambda>x. case x of
         Inl e \<Rightarrow> if e = ErrNoRows then throw ErrNoClaimableRuns else throw e
       | Inr run \<Rightarrow> bindM (ClaimReviewRun w (rr_id run)) (\<lambda>_. GetReviewRun (rr_id run))) s1 = (Inr r, s4)"
    unfolding claim_attempt_def by (rule run_tx_InrE)
  from m obtain x s2 where x: "GetNextClaimableReviewRun s1 = (Inr x, s2)"
    and c: "bindM (ClaimReviewRun w (rr_id x)) (\<lambda>_. GetReviewRun (rr_id x)) s2 = (Inr r, s4)"
    by (auto elim!: tryM_elim simp: throw_def split: sum.splits if_splits)
  from c obtain s3 where s3: "ClaimReviewRun w (rr_id x) s2 = (Inr (), s3)"
    and g: "GetReviewRun (rr_id x) s3 = (Inr r, s4)" by (auto elim!: bindM_elim)
  from x have x': "x \<in> set (rows (review_runs s1))" "claimable (clock s1) x" "same_tables s1 s2"
    by (auto elim!: GetNextClaimableReviewRun_InrE)
  have eq: "clock s2 = clock s" "review_runs s2 = review_runs s" "clock s1 = clock s" "review_runs s1 = review_runs s"
    using clock_same_tables [OF s1] clock_same_tables [OF x'(3)] by simp_all
  from s3 have "review_runs s3 = review_runs (claimed_db w (rr_id x) s)"
    unfolding ClaimReviewRun_eq
    by (auto elim!: discard_InrE update_runs_InrE simp: claimed_db_def eq)
  then have run3: "run_of s3 i = run_of (claimed_db w (rr_id x) s) i" for i by (simp add: run_of_def)
  have xs: "run_of s (rr_id x) = Some x" using run_of_unique [OF assms(2)] x'(1) eq by simp
  from g have g': "run_of s3 (rr_id x) = Some r" "same_tables s3 s4" by (auto elim!: GetReviewRun_InrE)
  have run4: "run_of t i = run_of (claimed_db w (rr_id x) s) i" for i
    using run_of_same_tables [OF g'(2)] run_of_same_tables [OF t] run3 by simp
  show ?thesis
  proof (rule that)
    show "x \<in> set (rows (review_runs s))" "claimable (clock s) x" using x' eq by simp_all
    show "r = set_claimed w (clock s) x" using g'(1) by (simp add: run3 run_of_claimed_db xs)
    then show "run_of t (rr_id x) = Some r" by (simp add: run4 run_of_claimed_db xs)
    show "run_of t i = run_of s i" if "i \<noteq> rr_id x" for i
      using that by (simp add: run4 run_of_claimed_db option.map_id0 [unfolded id_def])
  qed
qed

text \<open>C8 (no double claim). Under any pattern of connection failures, two consecutive successful
  claims, by the same or by different workers, never return the same run, and the first claimant's
  row still names the first worker afterwards.\<close>

theorem no_double_claim:
  assumes "runs_inv s" and "claim_attempt w1 s = (Inr r1, t)" and "claim_attempt w2 t = (Inr r2, u)"
  shows "rr_id r1 \<noteq> rr_id r2 \<and> rr_status r1 = ''running'' \<and> rr_claimed_by r1 = w1
    \<and> run_of u (rr_id r1) = Some r1"
proof -
  have inv: "runs_inv t"
    using keepsD [OF keeps_inv_claim_attempt assms(2)] assms(1) by (simp add: keeps_runs_inv_def)
  from claim_attempt_InrE [OF assms(2,1)] obtain x where x: "r1 = set_claimed w1 (clock s) x"
    "run_of t (rr_id x) = Some r1" by metis
  from claim_attempt_InrE [OF assms(3) inv] obtain y where y: "y \<in> set (rows (review_runs t))"
    "claimable (clock t) y" "r2 = set_claimed w2 (clock t) y"
    "\<And>i. i \<noteq> rr_id y \<Longrightarrow> run_of u i = run_of t i" by metis
  have ry: "run_of t (rr_id y) = Some y" by (rule run_of_unique [OF inv y(1)])
  have sy: "rr_status y \<noteq> ''running''" using y(2) by (auto simp: claimable_def)
  have st: "rr_status r1 = ''running''" "rr_claimed_by r1 = w1" "rr_id r1 = rr_id x" by (simp_all add: x(1))
  have ne: "rr_id x \<noteq> rr_id y"
  proof
    assume "rr_id x = rr_id y"
    with x(2) ry have "r1 = y" by simp
    with sy st(1) show False by simp
  qed
  have "rr_id r2 = rr_id y" by (simp add: y(3))
  with st x(2) y(4) [OF ne] ne show ?thesis by simp
qed

theorem no_double_claim_witness:
  "let a = claim_attempt ''a'' sample_db2; b = claim_attempt ''b'' (snd a)
   in rr_id (projr (fst a)) \<noteq> rr_id (projr (fst b)) \<and> rr_claimed_by (projr (fst a)) = ''a''"
proof -
  let ?a = "claim_attempt ''a'' sample_db2"
  let ?b = "claim_attempt ''b'' (snd ?a)"
  have inv: "runs_inv sample_db2" by code_simp
  have a: "?a = (Inr (projr (fst ?a)), snd ?a)" by (rule run_InrI) code_simp
  have b: "?b = (Inr (projr (fst ?b)), snd ?b)" by (rule run_InrI) code_simp
  show ?thesis using no_double_claim [OF inv a b] unfolding Let_def by blast
qed

subsection \<open>What a whole run keeps\<close>

text \<open>The service's interfaces keep a relation: the processor, the status publisher and the three
  publishers of the gate.\<close>

definition gate_keeps :: "(db \<Rightarrow> db \<Rightarrow> bool) \<Rightarrow> gate_service \<Rightarrow> bool" where
  "gate_keeps R gs \<longleftrightarrow> (\<forall>p r. gs_status_publisher gs = Some p \<longrightarrow> keeps R (p r))
     \<and> (\<forall>p r. gs_ci_publisher gs = Some p \<longrightarrow> keeps R (p r))
     \<and> (\<forall>p i r. gs_audit_logger gs = Some p \<longrightarrow> keeps R (p i r))"

definition service_keeps :: "(db \<Rightarrow> db \<Rightarrow> bool) \<Rightarrow> scheduler \<Rightarrow> bool" where
  "service_keeps R s \<longleftrightarrow> (\<forall>p r. sc_status_publisher s = Some p \<longrightarrow> keeps R (p r))
     \<and> (\<forall>gs. sc_gate_service s = Some gs \<longrightarrow> gate_keeps R gs)"

context store_rel
begin

lemma keeps_Publish: "gate_keeps R gs \<Longrightarrow> keeps R (Publish gs r)"
  unfolding Publish_def optional_call_def gate_keeps_def
  by (auto intro!: keeps_rules split: option.split)

lemma keeps_publishDirectStatus: "service_keeps R s \<Longrightarrow> keeps R (publishDirectStatus s r)"
  unfolding publishDirectStatus_def service_keeps_def
  by (auto intro!: keeps_rules split: option.split)

lemma keeps_discussion_states: "keeps R (discussion_states mrID fs m)"
  by (induction fs arbitrary: m)
    (auto simp: GetGitlabDiscussionByMergeRequestAndFinding_def
      intro!: keeps_rules split: sum.split)

lemma keeps_publishGateResult:
  assumes "service_keeps R s"
  shows "keeps R (publishGateResult decode tr s run outcome)"
proof (cases "sc_gate_service s")
  case None
  then show ?thesis by (simp add: publishGateResult_def keeps_ret)
next
  case (Some gs)
  then have "gate_keeps R gs" using assms by (simp add: service_keeps_def)
  then have pub: "keeps R (Publish gs r)" for r by (rule keeps_Publish)
  have pol: "keeps R (GetProjectPolicy i)" for i
    unfolding GetProjectPolicy_def by (rule keeps_query_row)
  have fs: "keeps R (case po_review_findings outcome of Some fs \<Rightarrow> ret fs
      | None \<Rightarrow> ListFindingsByRun (rr_id run))"
    by (auto simp: ListFindingsByRun_def intro!: keeps_rules split: option.split)
  show ?thesis
    unfolding publishGateResult_def Some option.case Let_def
    by (auto intro!: keeps_rules pub pol fs keeps_discussion_states split: sum.split)
qed

end

text \<open>Cancellation is absorbing for the scheduler: rows with status \<^verbatim>\<open>cancelled\<close> are kept as they
  are.\<close>

definition cancelled_kept :: "db \<Rightarrow> db \<Rightarrow> bool" where
  "cancelled_kept s t \<longleftrightarrow> (\<forall>i x. run_of s i = Some x \<and> rr_status x = ''cancelled'' \<longrightarrow> run_of t i = Some x)"

lemma run_of_conn: "run_of (s\<lparr>faults := fs, last_rowid := i\<rparr>) j = run_of s j"
  by (simp add: run_of_def)

interpretation ckept: store_rel cancelled_kept
proof
  fix s t u fs i
  show "cancelled_kept s s" by (simp add: cancelled_kept_def)
  show "cancelled_kept s t \<Longrightarrow> cancelled_kept t u \<Longrightarrow> cancelled_kept s u"
    by (simp add: cancelled_kept_def)
  show "cancelled_kept s (s\<lparr>faults := fs, last_rowid := i\<rparr>)"
    by (simp add: cancelled_kept_def run_of_conn)
qed

definition live_run :: "int \<Rightarrow> db \<Rightarrow> bool" where
  "live_run rid s \<longleftrightarrow> (\<forall>x. run_of s rid = Some x \<longrightarrow> rr_status x \<noteq> ''cancelled'')"

lemma keeps_after_get:
  assumes "\<And>x s. live_run rid s \<Longrightarrow> rr_status x \<noteq> ''cancelled'' \<Longrightarrow> cancelled_kept s (snd (f x s))"
    and "\<And>x. rr_status x = ''cancelled'' \<Longrightarrow> keeps cancelled_kept (f x)"
  shows "keeps cancelled_kept (bindM (GetReviewRun rid) f)"
proof (rule keepsI)
  fix s r t
  assume b: "bindM (GetReviewRun rid) f s = (r, t)"
  obtain y s1 where y: "GetReviewRun rid s = (y, s1)" by (cases "GetReviewRun rid s")
  have c: "cancelled_kept s s1"
    using run_of_same_tables [OF GetReviewRun_state [OF y]] by (simp add: cancelled_kept_def)
  show "cancelled_kept s t"
  proof (cases y)
    case (Inl e)
    with b y c show ?thesis by (simp add: bindM_def)
  next
    case (Inr x)
    with b y have f: "f x s1 = (r, t)" by (simp add: bindM_def)
    from y Inr have "run_of s1 rid = Some x"
      by (auto elim!: GetReviewRun_InrE simp: run_of_same_tables)
    then have "cancelled_kept s1 t"
      using assms(1) [of s1 x] keepsD [OF assms(2) f] f by (cases "rr_status x = ''cancelled''") (simp_all add: live_run_def)
    with c ckept.R_trans show ?thesis by blast
  qed
qed

text \<open>Updates of the row of a live run.\<close>

lemma live_update:
  assumes "live_run rid s" and "\<And>now r. rr_id (f now r) = rr_id r"
    and "\<And>now r. rr_status r \<noteq> ''cancelled'' \<Longrightarrow> rr_status (f now r) \<noteq> ''cancelled''"
    and "discard (update_runs (\<lambda>_ r. rr_id r = rid) f) s = (res, t)"
  shows "cancelled_kept s t \<and> live_run rid t"
proof -
  from assms(4) obtain q where q: "update_runs (\<lambda>_ r. rr_id r = rid) f s = (q, t)"
    by (auto simp: discard_def bindM_def ret_def split: prod.splits sum.splits)
  have upd: "run_of (s\<lparr>faults := fs, review_runs := update_rows (\<lambda>r. rr_id r = rid) (f (clock s)) (review_runs s)\<rparr>) i
      = map_option (\<lambda>r. if rr_id r = rid then f (clock s) r else r) (run_of s i)" for fs i
    by (simp add: run_of_def find_row_update_rows assms(2))
  from q show ?thesis unfolding update_runs_def
  proof (cases rule: stmt_cases)
    case fault
    then show ?thesis using assms(1) by (simp add: cancelled_kept_def live_run_def run_of_def)
  next
    case run
    then have t: "t = s\<lparr>faults := tl (faults s), review_runs := update_rows (\<lambda>r. rr_id r = rid) (f (clock s)) (review_runs s)\<rparr>"
      by simp
    show ?thesis
      using assms(1,3) run_of_mem [of s] unfolding t
      by (auto simp: cancelled_kept_def live_run_def upd)
  qed
qed

lemma persist_live:
  assumes "live_run rid s"
  shows "cancelled_kept s (snd (persistProviderMetricsIfNeeded rid cur outcome s))"
proof (cases "persistProviderMetricsIfNeeded rid cur outcome s")
  case (Pair r t)
  then show ?thesis
    using live_update [OF assms, where t = t and res = r and f = "\<lambda>now r.
        r\<lparr>rr_provider_latency_ms := po_provider_latency_ms outcome,
          rr_provider_tokens_total := po_provider_tokens_total outcome, rr_updated_at := now\<rparr>"]
    by (auto simp: persistProviderMetricsIfNeeded_def UpdateReviewRunProviderMetrics_def ret_def
        ckept.R_refl split: if_splits)
qed

lemma keeps_processParserError:
  assumes "service_keeps cancelled_kept s"
  shows "keeps cancelled_kept (processParserError tr s run outcome)"
  unfolding processParserError_def
proof (rule keeps_after_get)
  fix cur :: review_run and st
  assume live: "live_run (rr_id run) st" and cur: "rr_status cur \<noteq> ''cancelled''"
  let ?upd = "UpdateReviewRunStatus ''parser_error'' [] None (rr_id run)"
  let ?rest = "bindM (persistProviderMetricsIfNeeded (rr_id run) cur outcome)
    (\<lambda>_. publishDirectStatus s (direct_result run ''failed'' tr))"
  obtain q t where q: "?upd st = (q, t)" by (cases "?upd st")
  have t: "cancelled_kept st t \<and> live_run (rr_id run) t"
    using q unfolding UpdateReviewRunStatus_def by (rule live_update [OF live, rotated 2]) simp_all
  obtain r u where r: "persistProviderMetricsIfNeeded (rr_id run) cur outcome t = (r, u)"
    by (cases "persistProviderMetricsIfNeeded (rr_id run) cur outcome t")
  have u: "cancelled_kept t u" using persist_live [of "rr_id run" t cur outcome] t r by simp
  have "cancelled_kept t (snd (?rest t))"
    using u r ckept.keeps_publishDirectStatus [OF assms, of "direct_result run ''failed'' tr"]
    by (auto simp: bindM_def keeps_def split: sum.split intro: ckept.R_trans)
  then have rest: "cancelled_kept st (snd (?rest t))" using t ckept.R_trans by blast
  show "cancelled_kept st (snd ((if rr_status cur = ''cancelled'' then ret ()
       else if rr_status cur \<noteq> ''parser_error'' then throw (ErrMsg ''scheduler: run expected parser_error status'')
       else bindM ?upd (\<lambda>_. ?rest)) st))"
    using rest q t cur by (cases q) (simp_all add: bindM_def throw_def ckept.R_refl)
next
  fix cur :: review_run
  assume "rr_status cur = ''cancelled''"
  then show "keeps cancelled_kept (if rr_status cur = ''cancelled'' then ret ()
       else if rr_status cur \<noteq> ''parser_error'' then throw (ErrMsg ''scheduler: run expected parser_error status'')
       else bindM (UpdateReviewRunStatus ''parser_error'' [] None (rr_id run)) (\<lambda>_.
         bindM (persistProviderMetricsIfNeeded (rr_id run) cur outcome)
          (\<lambda>_. publishDirectStatus s (direct_result run ''failed'' tr))))"
    by (simp add: ckept.keeps_ret)
qed

text \<open>The conditional writes skip cancelled rows.\<close>

lemma keeps_wr:
  assumes "if_running_write wr target upd fin"
  shows "keeps cancelled_kept (wr p)"
proof (rule keepsI)
  fix s r t
  assume "wr p s = (r, t)"
  then show "cancelled_kept s t"
    using if_running_write.wr_frame [OF assms] by (auto simp: cancelled_kept_def)
qed

lemmas keeps_writes =
  keeps_wr [OF retry_write.if_running_write_axioms]
  keeps_wr [OF fail_write.if_running_write_axioms]
  keeps_wr [OF done_write.if_running_write_axioms]

lemma keeps_handleSkipped: "keeps cancelled_kept (handleSkippedTerminalWrite run ts)"
  unfolding handleSkippedTerminalWrite_def GetReviewRun_def
  by (intro ckept.keeps_bindM ckept.keeps_query_row) (auto intro: ckept.keeps_rules)

lemma keeps_processCompleted:
  assumes "service_keeps cancelled_kept s"
  shows "keeps cancelled_kept (processCompleted decode tr s run outcome)"
proof -
  have skipped: "keeps cancelled_kept (bindM (handleSkippedTerminalWrite run TCompleted) (\<lambda>cur.
        if rr_status cur \<noteq> ''cancelled''
        then persistProviderMetricsIfNeeded (rr_id run) cur outcome else ret ()))"
    unfolding handleSkippedTerminalWrite_def bindM_assoc
    by (rule keeps_after_get) (auto simp: ret_def throw_def bindM_def ckept.R_refl persist_live keeps_def)
  show ?thesis
    unfolding processCompleted_def
    by (intro ckept.keeps_bindM ckept.keeps_publishGateResult [OF assms] keeps_writes)
      (auto intro!: ckept.keeps_publishDirectStatus [OF assms] ckept.keeps_ret skipped split: option.split)
qed

lemma keeps_processFailure:
  assumes "service_keeps cancelled_kept s"
  shows "keeps cancelled_kept (processFailure et tr s run err)"
proof -
  obtain code detail retryable where c: "classifyRunError et err = (code, detail, retryable)"
    by (cases "classifyRunError et err") auto
  have 1: "keeps cancelled_kept (\<lambda>st. bindM (MarkReviewRunRetryableFailureIfRunning (a st)) (\<lambda>updated.
           if updated then ret () else bindM (handleSkippedTerminalWrite run TRetryable) (\<lambda>_. ret ())) st)" for a
  proof -
    have "keeps cancelled_kept (bindM (MarkReviewRunRetryableFailureIfRunning p) (\<lambda>updated.
           if updated then ret () else bindM (handleSkippedTerminalWrite run TRetryable) (\<lambda>_. ret ())))" for p
      by (intro ckept.keeps_bindM keeps_writes) (auto intro!: ckept.keeps_rules keeps_handleSkipped)
    then show ?thesis by (simp add: keeps_def)
  qed
  have 2: "keeps cancelled_kept (bindM (MarkReviewRunFailedIfRunning p) (\<lambda>updated.
           if updated then publishDirectStatus s (direct_result run ''failed'' tr)
           else bindM (handleSkippedTerminalWrite run TFailed) (\<lambda>_. ret ())))" for p
    by (intro ckept.keeps_bindM keeps_writes)
      (auto intro!: ckept.keeps_rules keeps_handleSkipped ckept.keeps_publishDirectStatus [OF assms])
  show ?thesis unfolding processFailure_def c Let_def prod.case by (simp add: 1 2)
qed



subsection \<open>Outcome of a processed run\<close>



text \<open>Completion. Without a gate, a successful outcome completes the run if its row is still
  running; if the row was cancelled meanwhile, the call succeeds and the database is unchanged.\<close>

theorem processCompleted_outcome:
  assumes "faults st = []" and "runs_inv st" and "run_of st (rr_id run) = Some x"
    and "sc_gate_service s = None"
  shows "(rr_status x = ''running'' \<longrightarrow>
      (\<exists>t y. processCompleted decode tr s run outcome st = (Inr (), t) \<and> run_of t (rr_id run) = Some y
        \<and> rr_status y = ''completed'' \<and> rr_completed_at y = Some (clock st)
        \<and> rr_next_retry_at y = None \<and> rr_error_code y = []
        \<and> rr_provider_tokens_total y = po_provider_tokens_total outcome))
    \<and> (rr_status x = ''cancelled'' \<longrightarrow> processCompleted decode tr s run outcome st = (Inr (), st))"
proof -
  let ?p = "\<lparr>cp_provider_latency_ms = po_provider_latency_ms outcome,
    cp_provider_tokens_total = po_provider_tokens_total outcome, cp_id = rr_id run\<rparr>"
  have pc: "processCompleted decode tr s run outcome st =
      bindM (UpdateReviewRunCompletedIfRunning ?p) (\<lambda>updated. if updated then ret ()
        else bindM (handleSkippedTerminalWrite run TCompleted) (\<lambda>cur. if rr_status cur \<noteq> ''cancelled''
          then persistProviderMetricsIfNeeded (rr_id run) cur outcome else ret ())) st"
    by (simp add: processCompleted_def publishGateResult_def assms(4))
  have "rr_status x = ''running'' \<Longrightarrow> ?thesis"
    using done_write.wr_sets_final [of st ?p x] assms(1,3)
    by (auto simp: pc bindM_def ret_def set_completed_def)
  moreover have "rr_status x = ''cancelled'' \<Longrightarrow> ?thesis"
    using done_write.wr_skips [of st ?p x] assms(1-3)
    by (auto simp: pc bindM_def ret_def handleSkippedTerminalWrite_def GetReviewRun_ok)
  moreover have "rr_status x \<noteq> ''running'' \<Longrightarrow> rr_status x \<noteq> ''cancelled'' \<Longrightarrow> ?thesis" by simp
  ultimately show ?thesis by blast
qed

theorem processCompleted_outcome_witness:
  "\<exists>t y. processCompleted (\<lambda>_. None) [] (NewService ''w'' None []) sample_running
       \<lparr>po_status = [], po_provider_latency_ms = 5, po_provider_tokens_total = 9, po_review_findings = None\<rparr>
       sample_db = (Inr (), t) \<and> run_of t 2 = Some y \<and> rr_status y = ''completed''"
proof -
  have h: "faults sample_db = []" "runs_inv sample_db" "run_of sample_db (rr_id sample_running) = Some sample_running"
    "sc_gate_service (NewService ''w'' None []) = None" by code_simp+
  have c: "rr_status sample_running = ''running''" "rr_id sample_running = 2" by code_simp+
  show ?thesis
    using processCompleted_outcome [OF h, of "\<lambda>_. None" "[]" "\<lparr>po_status = [], po_provider_latency_ms = 5,
        po_provider_tokens_total = 9, po_review_findings = None\<rparr>"] c by auto
qed

text \<open>Reaper. The reaper reports how many running rows were claimed longer ago than the timeout,
  schedules exactly those for a retry in 30 seconds and leaves every other row alone; once that time
  has come they are claimable.\<close>

theorem ReapStaleRuns_spec:
  assumes "faults st = []"
  shows "\<exists>t. ReapStaleRuns s st =
        (Inr (count_rows (run_stale (sc_claim_timeout_minutes s) (clock st)) (review_runs st)), t)
    \<and> (\<forall>i x. run_of st i = Some x \<longrightarrow>
        (if run_stale (sc_claim_timeout_minutes s) (clock st) x
         then (\<exists>y. run_of t i = Some y \<and> rr_status y = ''failed'' \<and> rr_error_code y = ''worker_timeout''
            \<and> rr_retry_count y = rr_retry_count x + 1
            \<and> (\<forall>now. claimable now y \<longleftrightarrow> clock st + 30 * second \<le> now))
         else run_of t i = Some x))"
  using assms
  by (auto simp: ReapStaleRuns_def ReapStaleRunningRuns_def update_runs_def stmt_ok run_of_def
      find_row_update_rows set_reaped_def claimable_def)

theorem ReapStaleRuns_spec_witness:
  "\<exists>t y. ReapStaleRuns (NewService ''w'' None []) (sample_db\<lparr>clock := 601 * second\<rparr>) = (Inr 1, t)
     \<and> run_of t 2 = Some y \<and> rr_status y = ''failed''"
proof -
  let ?st = "sample_db\<lparr>clock := 601 * second\<rparr>"
  let ?s = "NewService ''w'' None []"
  have h: "faults ?st = []" by code_simp
  have c: "run_of ?st 2 = Some sample_running"
    "run_stale (sc_claim_timeout_minutes ?s) (clock ?st) sample_running"
    "count_rows (run_stale (sc_claim_timeout_minutes ?s) (clock ?st)) (review_runs ?st) = 1" by code_simp+
  show ?thesis
    using ReapStaleRuns_spec [OF h, of ?s] unfolding c(3) using c(1,2) by (metis (no_types, lifting))
qed

text \<open>Reaped runs escape the retry limit. The reaper counts a retry without looking at
  \<^verbatim>\<open>max_retries\<close>: from a database in order in which no run has used more retries than allowed, one
  reaping step leads to a claimable run whose retry count is above its limit.\<close>

theorem reaper_exceeds_max_retries:
  "\<exists>s st t x. scheduler_ok s \<and> runs_inv st \<and> faults st = []
     \<and> list_all (\<lambda>r. rr_retry_count r \<le> rr_max_retries r) (rows (review_runs st))
     \<and> ReapStaleRuns s st = (Inr 1, t) \<and> run_of t 2 = Some x
     \<and> rr_max_retries x < rr_retry_count x \<and> claimable (clock t + 30 * second) x"
proof -
  let ?s = "NewService ''w'' None []"
  let ?st = "sample_db\<lparr>review_runs := \<lparr>rows = [sample_running\<lparr>rr_retry_count := 3\<rparr>], next_id = 3\<rparr>,
    clock := 601 * second\<rparr>"
  have "ReapStaleRuns ?s ?st = (Inr 1, snd (ReapStaleRuns ?s ?st))" by (rule prod_eqI) (code_simp, simp)
  moreover have "run_of (snd (ReapStaleRuns ?s ?st)) 2 = Some (set_reaped (601 * second) (sample_running\<lparr>rr_retry_count := 3\<rparr>))"
    by code_simp
  moreover have "scheduler_ok ?s" "runs_inv ?st" "faults ?st = []"
    "list_all (\<lambda>r. rr_retry_count r \<le> rr_max_retries r) (rows (review_runs ?st))" by code_simp+
  moreover have "let x = set_reaped (601 * second) (sample_running\<lparr>rr_retry_count := 3\<rparr>) in
      rr_max_retries x < rr_retry_count x \<and> claimable (clock (snd (ReapStaleRuns ?s ?st)) + 30 * second) x"
    by code_simp
  ultimately show ?thesis unfolding Let_def by blast
qed

end
