(* ===== verification/Writer.thy ===== *)
theory Writer
  imports Writer_Render Db_Runs
begin

text \<open>
  The comment writer, \<^verbatim>\<open>internal/writer/writer.go\<close>: it posts the findings of a run as discussions, falls back
  from a line to the file to a general note, resolves the discussions of findings that are gone, and posts a
  summary, recording every remote call as a comment action under an idempotency key. The state is the store
  together with the calls made so far and whether each succeeded. The discussion client, the sleep and the view
  of a store error are parameters of the writer; the answer of a call may depend on everything that happened
  before it, through the number of calls made.
\<close>

subsection \<open>Remote calls\<close>

datatype remote_call =
    CreateDiscussion create_discussion_request
  | CreateNote create_note_request
  | ResolveDiscussion resolve_discussion_request

record wstate =
  ws_db :: db
  ws_calls :: "(remote_call \<times> bool) list"

record writer =
  wr_configured :: bool
  wr_create_discussion :: "create_discussion_request \<Rightarrow> nat \<Rightarrow> write_error + string"
  wr_create_note :: "create_note_request \<Rightarrow> nat \<Rightarrow> write_error + string"
  wr_resolve_discussion :: "resolve_discussion_request \<Rightarrow> nat \<Rightarrow> write_error + unit"
  wr_sleep :: "int \<Rightarrow> nat \<Rightarrow> write_error option"
  wr_view :: "go_error \<Rightarrow> write_error"
  wr_decode :: "string \<Rightarrow> json option"
  wr_concurrency :: int
  wr_schedule :: "review_finding list \<Rightarrow> review_finding list"

type_synonym 'a wm = "wstate \<Rightarrow> (write_error + 'a) \<times> wstate"

definition retW :: "'a \<Rightarrow> 'a wm" where
  "retW x w = (Inr x, w)"

definition throwW :: "write_error \<Rightarrow> 'a wm" where
  "throwW e w = (Inl e, w)"

definition tryW :: "'a wm \<Rightarrow> (write_error + 'a \<Rightarrow> 'b wm) \<Rightarrow> 'b wm" where
  "tryW m h w = (case m w of (r, w') \<Rightarrow> h r w')"

definition bindW :: "'a wm \<Rightarrow> ('a \<Rightarrow> 'b wm) \<Rightarrow> 'b wm" where
  "bindW m f = tryW m (\<lambda>r. case r of Inl e \<Rightarrow> throwW e | Inr x \<Rightarrow> f x)"

text \<open>A store call with both results looked at, and one whose error is returned with a text in front.\<close>

definition storeW :: "'a dbm \<Rightarrow> (go_error + 'a \<Rightarrow> 'b wm) \<Rightarrow> 'b wm" where
  "storeW m h w = (case m (ws_db w) of (r, s) \<Rightarrow> h r (w\<lparr>ws_db := s\<rparr>))"

definition failW :: "writer \<Rightarrow> string \<Rightarrow> go_error \<Rightarrow> 'a wm" where
  "failW wr prefix e = throwW (wrap_error prefix (wr_view wr e))"

definition needW :: "writer \<Rightarrow> string \<Rightarrow> 'a dbm \<Rightarrow> ('a \<Rightarrow> 'b wm) \<Rightarrow> 'b wm" where
  "needW wr prefix m f = storeW m (\<lambda>r. case r of Inl e \<Rightarrow> failW wr prefix e | Inr x \<Rightarrow> f x)"

definition callW :: "remote_call \<Rightarrow> (nat \<Rightarrow> write_error + 'a) \<Rightarrow> 'a wm" where
  "callW c answer w = (let r = answer (length (ws_calls w)) in (r, w\<lparr>ws_calls := ws_calls w @ [(c, \<not> isl r)]\<rparr>))"

text \<open>A \<open>for\<close> loop that returns on the first error.\<close>

fun eachW :: "'x list \<Rightarrow> ('x \<Rightarrow> unit wm) \<Rightarrow> unit wm" where
  "eachW [] f = retW ()"
| "eachW (x # xs) f = bindW (f x) (\<lambda>_. eachW xs f)"

text \<open>An \<^verbatim>\<open>errgroup\<close>: every started function runs; the first error is the result.\<close>

fun groupW :: "'x list \<Rightarrow> ('x \<Rightarrow> unit wm) \<Rightarrow> unit wm" where
  "groupW [] f = retW ()"
| "groupW (x # xs) f = tryW (f x) (\<lambda>r. tryW (groupW xs f) (\<lambda>r'. case r of Inl e \<Rightarrow> throwW e | Inr _ \<Rightarrow>
     (case r' of Inl e \<Rightarrow> throwW e | Inr _ \<Rightarrow> retW ())))"

subsection \<open>Retries\<close>

definition maxWriteRetries :: nat where
  "maxWriteRetries = 3"

definition defaultRetryBackoff :: int where
  "defaultRetryBackoff = 10 * 1000000"

definition defaultWriteConcurrency :: int where
  "defaultWriteConcurrency = 4"

text \<open>\<open>left\<close> counts the attempts after this one.\<close>

fun retry_write_loop :: "writer \<Rightarrow> 'a wm \<Rightarrow> nat \<Rightarrow> nat \<Rightarrow> 'a wm" where
  "retry_write_loop wr fn attempt left = tryW fn (\<lambda>r. case r of
     Inr x \<Rightarrow> retW x
   | Inl e \<Rightarrow>
       if \<not> isRetryableWriteError e then throwW e
       else (case left of
          0 \<Rightarrow> throwW e
        | Suc n \<Rightarrow> (\<lambda>w. case wr_sleep wr (defaultRetryBackoff * 2 ^ attempt) (length (ws_calls w)) of
              Some e' \<Rightarrow> throwW e' w
            | None \<Rightarrow> retry_write_loop wr fn (Suc attempt) n w)))"

declare retry_write_loop.simps [simp del]

definition retryWrite :: "writer \<Rightarrow> 'a wm \<Rightarrow> 'a wm" where
  "retryWrite wr fn = retry_write_loop wr fn 0 (maxWriteRetries - 1)"

subsection \<open>Comment actions\<close>

definition isRunActive :: "int \<Rightarrow> (bool \<Rightarrow> 'a wm) \<Rightarrow> 'a wm" where
  "isRunActive runID f =
     (if runID = 0 then f True
      else storeW (GetReviewRun runID) (\<lambda>r. case r of
        Inl _ \<Rightarrow> f True
      | Inr run \<Rightarrow> f (\<not> equal_fold (trim_space (rr_status run)) ''cancelled'')))"

definition nullableFindingID :: "int \<Rightarrow> int option" where
  "nullableFindingID i = (if i = 0 then None else Some i)"

definition ensureAction :: "writer \<Rightarrow> int \<Rightarrow> int option \<Rightarrow> string \<Rightarrow> string \<Rightarrow> (int \<times> comment_action) wm" where
  "ensureAction wr runID findingID actionType key =
     storeW (GetCommentActionByIdempotencyKey key) (\<lambda>r. case r of
       Inr a \<Rightarrow> retW (ca_id a, a)
     | Inl _ \<Rightarrow>
         storeW (InsertCommentAction \<lparr>cap_review_run_id = runID, cap_review_finding_id = findingID,
             cap_action_type = actionType, cap_idempotency_key = key, cap_status = ''pending''\<rparr>) (\<lambda>r. case r of
           Inl e \<Rightarrow>
             if is_duplicate_key_error e
             then needW wr [] (GetCommentActionByIdempotencyKey key) (\<lambda>a. retW (ca_id a, a))
             else failW wr [] e
         | Inr i \<Rightarrow> retW (i, zero_comment_action\<lparr>ca_id := i, ca_idempotency_key := key, ca_status := ''pending''\<rparr>)))"

definition finalizeAction :: "writer \<Rightarrow> int \<Rightarrow> comment_action \<Rightarrow> write_error option \<Rightarrow> string \<Rightarrow> unit wm" where
  "finalizeAction wr actionID existing err code =
     (let is_failed = (err \<noteq> None \<and> code \<noteq> []);
          status = (if is_failed then ''failed'' else ''succeeded'');
          detail = (if is_failed then map_option we_text err else None);
          retries = (if is_failed then ca_retry_count existing + 1 else ca_retry_count existing);
          i = (if actionID = 0 then ca_id existing else actionID)
      in needW wr [] (UpdateCommentActionStatus status (errorCodeIfFailed status code) detail
           (defaultRetryBackoff div 1000000) retries i) retW)"

definition restoreDiscussion :: "int \<Rightarrow> int \<Rightarrow> (string option \<Rightarrow> 'a wm) \<Rightarrow> 'a wm" where
  "restoreDiscussion findingID mergeRequestID f =
     (if findingID = 0 then f None
      else storeW (GetGitlabDiscussionByMergeRequestAndFinding mergeRequestID findingID) (\<lambda>r. case r of
        Inr d \<Rightarrow> f (Some (gd_gitlab_discussion_id d)) | Inl _ \<Rightarrow> f None))"

definition err_of :: "write_error + 'a \<Rightarrow> write_error option" where
  "err_of r = (case r of Inl e \<Rightarrow> Some e | Inr _ \<Rightarrow> None)"

text \<open>The common body of \<^verbatim>\<open>performDiscussionAction\<close> and \<^verbatim>\<open>performNoteAction\<close>: they differ in the call and in the
  classification of its error.\<close>

definition perform :: "writer \<Rightarrow> review_run \<Rightarrow> review_finding \<Rightarrow> string \<Rightarrow> string \<Rightarrow> string wm
    \<Rightarrow> (write_error option \<Rightarrow> string) \<Rightarrow> string wm" where
  "perform wr run finding key actionType fn classify =
     tryW (ensureAction wr (rr_id run) (nullableFindingID (rf_id finding)) actionType key) (\<lambda>r. case r of
       Inl e \<Rightarrow> throwW (wrap_error ''writer: insert comment action: '' e)
     | Inr (actionID, existing) \<Rightarrow>
         if ca_status existing = ''succeeded''
         then restoreDiscussion (rf_id finding) (rr_merge_request_id run) (\<lambda>d. case d of
                Some i \<Rightarrow> retW i | None \<Rightarrow> failW wr [] ErrNoRows)
         else tryW (retryWrite wr fn) (\<lambda>res.
           bindW (finalizeAction wr actionID existing (err_of res) (classify (err_of res))) (\<lambda>_.
             case res of Inl e \<Rightarrow> throwW e | Inr d \<Rightarrow> retW d)))"

definition performDiscussionAction :: "writer \<Rightarrow> review_run \<Rightarrow> review_finding \<Rightarrow> string \<Rightarrow> string \<Rightarrow> string
    \<Rightarrow> create_discussion_request \<Rightarrow> string wm" where
  "performDiscussionAction wr run finding key actionType discussionType req =
     perform wr run finding key actionType (callW (CreateDiscussion req) (wr_create_discussion wr req))
       (classifyDiscussionError discussionType)"

definition performNoteAction :: "writer \<Rightarrow> review_run \<Rightarrow> review_finding \<Rightarrow> string \<Rightarrow> string
    \<Rightarrow> create_note_request \<Rightarrow> string wm" where
  "performNoteAction wr run finding key actionType req =
     perform wr run finding key actionType (callW (CreateNote req) (wr_create_note wr req)) classifyWriteError"

subsection \<open>Storing what was posted\<close>

definition persistFindingDiscussionLink :: "writer \<Rightarrow> int \<Rightarrow> string \<Rightarrow> unit wm" where
  "persistFindingDiscussionLink wr findingID discussionID =
     (if findingID = 0 \<or> trim_space discussionID = [] then retW ()
      else storeW (GetReviewFinding findingID) (\<lambda>r. case r of
        Inl _ \<Rightarrow> retW ()
      | Inr f \<Rightarrow>
          if trim_space (rf_gitlab_discussion_id f) = discussionID then retW ()
          else needW wr [] (UpdateFindingDiscussionID discussionID findingID) retW))"

definition persistDiscussion :: "writer \<Rightarrow> merge_request \<Rightarrow> review_finding \<Rightarrow> string \<Rightarrow> string \<Rightarrow> unit wm" where
  "persistDiscussion wr mr finding discussionID discussionType =
     (if rf_id finding = 0 \<or> discussionID = [] then retW ()
      else restoreDiscussion (rf_id finding) (mr_id mr) (\<lambda>d. case d of
        Some _ \<Rightarrow> retW ()
      | None \<Rightarrow>
          storeW (InsertGitlabDiscussion (rf_id finding) (mr_id mr) discussionID discussionType False) (\<lambda>r. case r of
            Inl e \<Rightarrow> if is_duplicate_key_error e then persistFindingDiscussionLink wr (rf_id finding) discussionID
                     else failW wr ''writer: insert gitlab discussion: '' e
          | Inr _ \<Rightarrow> persistFindingDiscussionLink wr (rf_id finding) discussionID)))"

definition persistRunFailure :: "writer \<Rightarrow> review_run \<Rightarrow> string \<Rightarrow> write_error \<Rightarrow> unit wm" where
  "persistRunFailure wr run code e =
     (if code = [] then throwW e
      else needW wr ''writer: persist run failure: '' (MarkReviewRunFailedIfRunning
        \<lparr>mfp_error_code = code, mfp_error_detail = Some (we_text e), mfp_retry_count = rr_retry_count run, mfp_id = rr_id run\<rparr>)
        (\<lambda>updated. if updated then throwW e
          else needW wr ''writer: reload run after failed terminalization: '' (GetReviewRun (rr_id run)) (\<lambda>_. throwW e)))"

subsection \<open>One finding\<close>

definition suggestionConfidenceThreshold :: "int \<Rightarrow> (rat \<Rightarrow> 'a wm) \<Rightarrow> 'a wm" where
  "suggestionConfidenceThreshold projectID f = storeW (GetProjectPolicy projectID) (\<lambda>r. case r of
     Inl _ \<Rightarrow> f 0
   | Inr p \<Rightarrow> f (if pp_confidence_threshold p \<le> 0 then 0 else pp_confidence_threshold p))"

definition outputLanguage :: "writer \<Rightarrow> review_run \<Rightarrow> int \<Rightarrow> (string \<Rightarrow> 'a wm) \<Rightarrow> 'a wm" where
  "outputLanguage wr run projectID f =
     (let l = outputLanguageFromRunScope (wr_decode wr) (rr_scope_json run) in
      if l \<noteq> [] then f l
      else storeW (GetProjectPolicy projectID) (\<lambda>r. case r of
        Inl _ \<Rightarrow> f DefaultOutputLanguage | Inr p \<Rightarrow> f (outputLanguageFromPolicy (wr_decode wr) p)))"

definition finding_key :: "review_run \<Rightarrow> review_finding \<Rightarrow> string \<Rightarrow> string" where
  "finding_key run finding actionType =
     ''run:'' @ itoa (rr_id run) @ '':finding:'' @ itoa (rf_id finding) @ '':'' @ actionType"

definition action_done :: "string \<Rightarrow> (bool \<Rightarrow> 'a wm) \<Rightarrow> 'a wm" where
  "action_done key f = storeW (GetCommentActionByIdempotencyKey key) (\<lambda>r. case r of
     Inl _ \<Rightarrow> f False | Inr a \<Rightarrow> f (ca_status a = ''succeeded''))"

text \<open>The ladder of \<^verbatim>\<open>writeFinding\<close> after the checks: the line, the file, the note.\<close>

definition post_note :: "writer \<Rightarrow> review_run \<Rightarrow> merge_request \<Rightarrow> review_finding \<Rightarrow> int \<Rightarrow> string \<Rightarrow> string \<Rightarrow> unit wm" where
  "post_note wr run mr finding gitlabProjectID body language =
     (let key = finding_key run finding ''create_general_note'';
          req = \<lparr>cnr_project_id = gitlabProjectID, cnr_merge_request_iid = mr_mr_iid mr,
                 cnr_body = renderGeneralNoteBody finding body language, cnr_review_finding_id = rf_id finding,
                 cnr_idempotency_key = key\<rparr>
      in tryW (performNoteAction wr run finding key ''create_general_note'' req) (\<lambda>r. case r of
           Inl e \<Rightarrow> persistRunFailure wr run (classifyWriteError (Some e)) e
         | Inr d \<Rightarrow> persistDiscussion wr mr finding d ''note''))"

definition post_file :: "writer \<Rightarrow> review_run \<Rightarrow> merge_request \<Rightarrow> mr_version \<Rightarrow> review_finding \<Rightarrow> string \<Rightarrow> string
    \<Rightarrow> create_discussion_request \<Rightarrow> unit wm" where
  "post_file wr run mr version finding body language diffReq =
     (let key = finding_key run finding ''create_file_discussion'';
          req = diffReq\<lparr>cdr_idempotency_key := key, cdr_position := BuildFileLevelPosition version finding,
                  cdr_body := renderFallbackBody finding body language\<rparr>
      in tryW (performDiscussionAction wr run finding key ''create_file_discussion'' ''file'' req) (\<lambda>r. case r of
           Inr d \<Rightarrow> persistDiscussion wr mr finding d ''file''
         | Inl e \<Rightarrow>
             if \<not> isPositionFailure e then persistRunFailure wr run (classifyWriteError (Some e)) e
             else post_note wr run mr finding (cdr_project_id diffReq) body language))"

definition post_diff :: "writer \<Rightarrow> review_run \<Rightarrow> merge_request \<Rightarrow> mr_version \<Rightarrow> review_finding \<Rightarrow> int
    \<Rightarrow> string \<Rightarrow> string \<Rightarrow> unit wm" where
  "post_diff wr run mr version finding gitlabProjectID body language =
     (let key = finding_key run finding ''create_discussion'';
          req = \<lparr>cdr_project_id = gitlabProjectID, cdr_merge_request_iid = mr_mr_iid mr, cdr_body = body,
                 cdr_position = BuildPosition version finding, cdr_review_finding_id = rf_id finding,
                 cdr_idempotency_key = key\<rparr>
      in tryW (performDiscussionAction wr run finding key ''create_discussion'' ''diff'' req) (\<lambda>r. case r of
           Inr d \<Rightarrow> persistDiscussion wr mr finding d ''diff''
         | Inl e \<Rightarrow>
             if \<not> isPositionFailure e then persistRunFailure wr run (classifyWriteError (Some e)) e
             else post_file wr run mr version finding body language req))"

definition writeFinding :: "writer \<Rightarrow> review_run \<Rightarrow> merge_request \<Rightarrow> mr_version \<Rightarrow> int \<Rightarrow> review_finding \<Rightarrow> unit wm" where
  "writeFinding wr run mr version gitlabProjectID finding =
     isRunActive (rr_id run) (\<lambda>active. if \<not> active then retW ()
       else action_done (finding_key run finding ''create_discussion'') (\<lambda>d. if d then retW ()
         else outputLanguage wr run (mr_project_id mr) (\<lambda>language.
           suggestionConfidenceThreshold (mr_project_id mr) (\<lambda>threshold.
             post_diff wr run mr version finding gitlabProjectID
               (renderCommentBodyWithLanguage finding threshold language) language))))"

text \<open>The goroutines of a group use keys and rows of their own finding, so their calls are taken one finding
  after the other, in the order \<open>wr_schedule\<close> in which they take effect; a goroutine that the cancelled
  context keeps from starting is not in it.\<close>

definition writeFindings :: "writer \<Rightarrow> review_run \<Rightarrow> merge_request \<Rightarrow> mr_version \<Rightarrow> review_finding list \<Rightarrow> int \<Rightarrow> unit wm" where
  "writeFindings wr run mr version findings gitlabProjectID =
     (if findings = [] then retW ()
      else if wr_concurrency wr \<le> 1 \<or> length findings = 1
      then eachW findings (writeFinding wr run mr version gitlabProjectID)
      else groupW (wr_schedule wr findings) (writeFinding wr run mr version gitlabProjectID))"

subsection \<open>Resolving, summary, the whole run\<close>

definition activeDiscussion :: "int \<Rightarrow> review_finding \<Rightarrow> (gitlab_discussion option \<Rightarrow> 'a wm) \<Rightarrow> 'a wm" where
  "activeDiscussion mergeRequestID finding f =
     (if rf_id finding = 0 then f None
      else let persisted = trim_space (rf_gitlab_discussion_id finding);
             by_finding = storeW (GetGitlabDiscussionByFinding (rf_id finding)) (\<lambda>r. case r of
               Inl _ \<Rightarrow> f None | Inr d \<Rightarrow> f (Some d))
         in if persisted \<noteq> []
            then storeW (GetGitlabDiscussionByMergeRequestAndFinding mergeRequestID (rf_id finding)) (\<lambda>r. case r of
                Inr d \<Rightarrow> if trim_space (gd_gitlab_discussion_id d) = persisted then f (Some d) else by_finding
              | Inl _ \<Rightarrow> by_finding)
            else by_finding)"

definition isBotOwnedDiscussion :: "gitlab_discussion \<Rightarrow> bool" where
  "isBotOwnedDiscussion d \<longleftrightarrow> gd_id d \<noteq> 0 \<and> trim_space (gd_gitlab_discussion_id d) \<noteq> []"

definition linkSupersededDiscussion :: "writer \<Rightarrow> gitlab_discussion \<Rightarrow> int \<Rightarrow> unit wm" where
  "linkSupersededDiscussion wr d replacement =
     (if gd_id d = 0 \<or> replacement = 0 then retW ()
      else let link = storeW (GetGitlabDiscussion replacement) (\<lambda>r. case r of
             Inl _ \<Rightarrow> retW ()
           | Inr x \<Rightarrow> needW wr [] (UpdateGitlabDiscussionSupersededBy (Some (gd_id x)) (gd_id d)) retW)
         in case gd_superseded_by_discussion_id d of
              None \<Rightarrow> link
            | Some i \<Rightarrow> storeW (GetGitlabDiscussion i) (\<lambda>r. case r of
                Inl _ \<Rightarrow> link
              | Inr x \<Rightarrow> if gd_id x = replacement then retW () else link))"

definition resolve_tail :: "writer \<Rightarrow> gitlab_discussion \<Rightarrow> int option \<Rightarrow> unit wm" where
  "resolve_tail wr d supersededBy =
     needW wr [] (UpdateGitlabDiscussionResolved True (gd_id d)) (\<lambda>_. case supersededBy of
       None \<Rightarrow> retW () | Some i \<Rightarrow> linkSupersededDiscussion wr d i)"

definition resolveFindingDiscussion :: "writer \<Rightarrow> review_run \<Rightarrow> merge_request \<Rightarrow> int \<Rightarrow> review_finding \<Rightarrow> int option \<Rightarrow> unit wm" where
  "resolveFindingDiscussion wr run mr gitlabProjectID finding supersededBy =
     isRunActive (rr_id run) (\<lambda>active. if \<not> active \<or> rf_id finding = 0 then retW ()
       else activeDiscussion (mr_id mr) finding (\<lambda>found. case found of
         None \<Rightarrow> retW ()
       | Some d \<Rightarrow>
           if \<not> isBotOwnedDiscussion d \<or> trim_space (gd_gitlab_discussion_id d) = [] then retW ()
           else tryW (ensureAction wr (rr_id run) (nullableFindingID (rf_id finding)) ''resolve_discussion''
                  (finding_key run finding ''resolve_discussion'')) (\<lambda>r. case r of
               Inl e \<Rightarrow> throwW (wrap_error ''writer: insert comment action: '' e)
             | Inr (actionID, existing) \<Rightarrow>
                 if ca_status existing = ''succeeded'' then resolve_tail wr d supersededBy
                 else let req = \<lparr>rdr_project_id = gitlabProjectID, rdr_merge_request_iid = mr_mr_iid mr,
                                 rdr_discussion_id = gd_gitlab_discussion_id d, rdr_resolved = True\<rparr> in
                   tryW (retryWrite wr (callW (ResolveDiscussion req) (wr_resolve_discussion wr req))) (\<lambda>res.
                     bindW (finalizeAction wr actionID existing (err_of res) (classifyResolveError (err_of res))) (\<lambda>_.
                       case res of
                         Inl e \<Rightarrow> if classifyResolveError (Some e) \<noteq> [] then throwW e else resolve_tail wr d supersededBy
                       | Inr _ \<Rightarrow> resolve_tail wr d supersededBy)))))"

definition nullableReplacementDiscussionID :: "int option \<Rightarrow> (int \<times> int) list \<Rightarrow> int option" where
  "nullableReplacementDiscussionID matched known = (case matched of
     None \<Rightarrow> None
   | Some m \<Rightarrow> (case map_of known m of None \<Rightarrow> None | Some d \<Rightarrow> if d = 0 then None else Some d))"

text \<open>The map of the discussions of the run's findings, newest entry first.\<close>

fun new_discussions :: "int \<Rightarrow> review_finding list \<Rightarrow> (int \<times> int) list \<Rightarrow> ((int \<times> int) list \<Rightarrow> 'a wm) \<Rightarrow> 'a wm" where
  "new_discussions mrID [] acc f = f acc"
| "new_discussions mrID (x # xs) acc f = activeDiscussion mrID x (\<lambda>d. case d of
     None \<Rightarrow> new_discussions mrID xs acc f
   | Some y \<Rightarrow> new_discussions mrID xs (if gd_id y \<noteq> 0 then (rf_id x, gd_id y) # acc else acc) f)"

definition resolveCompletedFindings :: "writer \<Rightarrow> review_run \<Rightarrow> merge_request \<Rightarrow> int \<Rightarrow> unit wm" where
  "resolveCompletedFindings wr run mr gitlabProjectID =
     needW wr ''writer: list merge request findings: '' (ListFindingsByMergeRequest (rr_merge_request_id run)) (\<lambda>mrFindings.
     needW wr ''writer: list run findings: '' (ListFindingsByRun (rr_id run)) (\<lambda>runFindings.
     new_discussions (mr_id mr) runFindings [] (\<lambda>known.
       eachW mrFindings (\<lambda>f.
         if rf_state f = ''fixed'' \<or> rf_state f = ''stale'' then resolveFindingDiscussion wr run mr gitlabProjectID f None
         else if rf_state f = ''superseded''
         then resolveFindingDiscussion wr run mr gitlabProjectID f (nullableReplacementDiscussionID (rf_matched_finding_id f) known)
         else retW ()))))"

definition writeSummaryNote :: "writer \<Rightarrow> review_run \<Rightarrow> merge_request \<Rightarrow> int \<Rightarrow> unit wm" where
  "writeSummaryNote wr run mr gitlabProjectID =
     isRunActive (rr_id run) (\<lambda>active. if \<not> active then retW ()
       else let key = ''run:'' @ itoa (rr_id run) @ '':summary_note'' in
         action_done key (\<lambda>d. if d then retW ()
           else needW wr ''writer: list persisted run findings for summary: '' (ListFindingsByRun (rr_id run)) (\<lambda>persisted.
             outputLanguage wr run (mr_project_id mr) (\<lambda>language.
               tryW (performNoteAction wr run zero_review_finding key ''summary_note''
                 \<lparr>cnr_project_id = gitlabProjectID, cnr_merge_request_iid = mr_mr_iid mr,
                  cnr_body = renderSummaryBody run persisted language, cnr_review_finding_id = 0, cnr_idempotency_key = key\<rparr>)
                 (\<lambda>r. case r of Inl e \<Rightarrow> persistRunFailure wr run (classifyWriteError (Some e)) e | Inr _ \<Rightarrow> retW ())))))"

definition with_project :: "writer \<Rightarrow> review_run \<Rightarrow> (merge_request \<Rightarrow> int \<Rightarrow> unit wm) \<Rightarrow> unit wm" where
  "with_project wr run f =
     needW wr ''writer: load merge request: '' (GetMergeRequest (rr_merge_request_id run)) (\<lambda>mr.
     needW wr ''writer: load project: '' (GetProject (mr_project_id mr)) (\<lambda>project.
       if pr_gitlab_project_id project = 0 then failW wr [] (ErrMsg ''writer: gitlab project id is required'')
       else f mr (pr_gitlab_project_id project)))"

definition writeParserErrorNote :: "writer \<Rightarrow> review_run \<Rightarrow> unit wm" where
  "writeParserErrorNote wr run =
     isRunActive (rr_id run) (\<lambda>active. if \<not> active then retW ()
       else let key = ''run:'' @ itoa (rr_id run) @ '':parser_error_summary_note'' in
         action_done key (\<lambda>d. if d then retW ()
           else with_project wr run (\<lambda>mr gitlabProjectID.
             outputLanguage wr run (mr_project_id mr) (\<lambda>language.
               tryW (performNoteAction wr run zero_review_finding key ''summary_note''
                 \<lparr>cnr_project_id = gitlabProjectID, cnr_merge_request_iid = mr_mr_iid mr,
                  cnr_body = parserErrorNoteBody (rr_id run) language, cnr_review_finding_id = 0, cnr_idempotency_key = key\<rparr>)
                 (\<lambda>r. case r of Inl e \<Rightarrow> persistRunFailure wr run ''writer_parser_error_note'' e | Inr _ \<Rightarrow> retW ())))))"

definition isTerminalRun :: "string \<Rightarrow> bool" where
  "isTerminalRun status \<longleftrightarrow> norm_lower status \<in> set [''completed'', ''requested_changes'', ''parser_error'']"

definition Write :: "writer \<Rightarrow> review_run \<Rightarrow> review_finding list \<Rightarrow> unit wm" where
  "Write wr run findings =
     (if \<not> wr_configured wr then failW wr [] (ErrMsg ''writer: dependencies are not configured'')
      else isRunActive (rr_id run) (\<lambda>active. if \<not> active then retW ()
        else if equal_fold (trim_space (rr_status run)) ''parser_error'' then writeParserErrorNote wr run
        else with_project wr run (\<lambda>mr gitlabProjectID.
          needW wr ''writer: load latest MR version: '' (GetLatestMRVersion (rr_merge_request_id run)) (\<lambda>version.
          bindW (writeFindings wr run mr version findings gitlabProjectID) (\<lambda>_.
            if \<not> isTerminalRun (rr_status run) then retW ()
            else bindW (resolveCompletedFindings wr run mr gitlabProjectID) (\<lambda>_.
              writeSummaryNote wr run mr gitlabProjectID))))))"

subsection \<open>Relations that every call keeps\<close>

text \<open>A store call that leaves the comment actions alone and meets no failure when none is due.\<close>

definition quiet_rel :: "db \<Rightarrow> db \<Rightarrow> bool" where
  "quiet_rel s t \<longleftrightarrow> comment_actions t = comment_actions s \<and> (faults s = [] \<longrightarrow> faults t = [])"

abbreviation quiet :: "'a dbm \<Rightarrow> bool" where
  "quiet m \<equiv> keeps quiet_rel m"

lemma quiet_stmt:
  assumes "\<And>s. comment_actions (snd (f s)) = comment_actions s" and "\<And>s. faults (snd (f s)) = faults s"
  shows "quiet (stmt f)"
  using assms by (auto simp: keeps_def quiet_rel_def stmt_def split: list.splits)

lemma quiet_rel_trans: "quiet_rel s t \<Longrightarrow> quiet_rel t u \<Longrightarrow> quiet_rel s u"
  by (simp add: quiet_rel_def)

lemma quiet_bindM:
  assumes "quiet m" and "\<And>x. quiet (f x)"
  shows "quiet (bindM m f)"
proof (rule keepsI)
  fix s r t
  assume run: "bindM m f s = (r, t)"
  obtain x s1 where x: "m s = (x, s1)" by (cases "m s")
  have s1: "quiet_rel s s1" using keepsD [OF assms(1) x] .
  show "quiet_rel s t"
    using run x s1 quiet_rel_trans [OF s1 keepsD [OF assms(2)]] by (auto simp: bindM_def split: sum.splits)
qed

lemma quiet_ret: "quiet (ret x)"
  by (simp add: keeps_def quiet_rel_def ret_def)

lemma quiet_query_row: "quiet (query_row tbl p)"
  unfolding query_row_def by (rule quiet_stmt) (auto split: option.splits)

lemma quiet_query_first: "quiet (query_first sel)"
  unfolding query_first_def by (rule quiet_stmt) (auto split: list.splits)

lemma quiet_query_all: "quiet (query_all sel)"
  unfolding query_all_def by (rule quiet_stmt) auto

lemma quiet_exec:
  assumes "\<And>s. comment_actions (f s) = comment_actions s" and "\<And>s. faults (f s) = faults s"
  shows "quiet (exec f)"
  unfolding exec_def by (rule quiet_stmt) (auto simp: assms)

lemmas quiet_queries =
  quiet_query_row [where tbl = review_runs] quiet_query_row quiet_query_first quiet_query_all

lemma quiet_statements:
  "quiet (GetReviewRun i)" "quiet (GetCommentActionByIdempotencyKey k)" "quiet (GetProjectPolicy i)"
  "quiet (GetMergeRequest i)" "quiet (GetProject i)" "quiet (GetLatestMRVersion i)" "quiet (GetReviewFinding i)"
  "quiet (GetGitlabDiscussion i)" "quiet (GetGitlabDiscussionByFinding i)"
  "quiet (GetGitlabDiscussionByMergeRequestAndFinding i j)" "quiet (ListFindingsByRun i)"
  "quiet (ListFindingsByMergeRequest i)"
  by (simp_all add: GetReviewRun_def GetCommentActionByIdempotencyKey_def GetProjectPolicy_def GetMergeRequest_def
      GetProject_def GetLatestMRVersion_def GetReviewFinding_def GetGitlabDiscussion_def
      GetGitlabDiscussionByFinding_def GetGitlabDiscussionByMergeRequestAndFinding_def ListFindingsByRun_def
      ListFindingsByMergeRequest_def quiet_queries)

lemma quiet_writes:
  "quiet (MarkReviewRunFailedIfRunning a)" "quiet (UpdateFindingDiscussionID d i)"
  "quiet (UpdateGitlabDiscussionResolved b i)" "quiet (UpdateGitlabDiscussionSupersededBy x i)"
  "quiet (InsertGitlabDiscussion fi mi di ty b)"
proof -
  show "quiet (MarkReviewRunFailedIfRunning a)"
    unfolding MarkReviewRunFailedIfRunning_def rowsAffected_def update_runs_def
    by (intro quiet_bindM quiet_stmt) (simp_all add: quiet_ret)
  show "quiet (UpdateFindingDiscussionID d i)"
    unfolding UpdateFindingDiscussionID_def update_findings_def by (rule quiet_exec) simp_all
  show "quiet (UpdateGitlabDiscussionResolved b i)" "quiet (UpdateGitlabDiscussionSupersededBy x i)"
    unfolding UpdateGitlabDiscussionResolved_def UpdateGitlabDiscussionSupersededBy_def update_discussion_def
    by (rule quiet_exec; simp)+
  show "quiet (InsertGitlabDiscussion fi mi di ty b)"
    unfolding InsertGitlabDiscussion_def by (rule quiet_stmt) (simp_all add: insert_into_def)
qed

definition keepsW :: "(wstate \<Rightarrow> bool) \<Rightarrow> 'a wm \<Rightarrow> bool" where
  "keepsW I m \<longleftrightarrow> (\<forall>w. I w \<longrightarrow> I (snd (m w)))"

lemma keepsWD: "keepsW I m \<Longrightarrow> m w = (r, w') \<Longrightarrow> I w \<Longrightarrow> I w'"
  unfolding keepsW_def by (metis snd_conv)

lemma keepsWI: "(\<And>w r w'. m w = (r, w') \<Longrightarrow> I w \<Longrightarrow> I w') \<Longrightarrow> keepsW I m"
  unfolding keepsW_def by (metis prod.collapse)

text \<open>An invariant \<open>I\<close> of the writer and a relation \<open>Q\<close> of stores that keeps it: when the store calls of the writer
  are steps of \<open>Q\<close>, whole programs keep \<open>I\<close> as soon as the programs that write comment actions do.\<close>

locale writer_invariant =
  fixes I :: "wstate \<Rightarrow> bool" and Q :: "db \<Rightarrow> db \<Rightarrow> bool"
  assumes I_step: "I w \<Longrightarrow> Q (ws_db w) s \<Longrightarrow> I (w\<lparr>ws_db := s\<rparr>)"
    and Q_reads: "keeps Q (GetReviewRun i)" "keeps Q (GetCommentActionByIdempotencyKey k)" "keeps Q (GetProjectPolicy i)"
      "keeps Q (GetMergeRequest i)" "keeps Q (GetProject i)" "keeps Q (GetLatestMRVersion i)" "keeps Q (GetReviewFinding i)"
      "keeps Q (GetGitlabDiscussion i)" "keeps Q (GetGitlabDiscussionByFinding i)"
      "keeps Q (GetGitlabDiscussionByMergeRequestAndFinding i j)" "keeps Q (ListFindingsByRun i)"
      "keeps Q (ListFindingsByMergeRequest i)"
    and Q_writes: "keeps Q (MarkReviewRunFailedIfRunning a)" "keeps Q (UpdateFindingDiscussionID d i)"
      "keeps Q (UpdateGitlabDiscussionResolved b i)" "keeps Q (UpdateGitlabDiscussionSupersededBy x i)"
      "keeps Q (InsertGitlabDiscussion fi mi di ty b)"
begin

lemma keepsW_retW: "keepsW I (retW x)"
  by (simp add: keepsW_def retW_def)

lemma keepsW_throwW: "keepsW I (throwW e)"
  by (simp add: keepsW_def throwW_def)

lemma keepsW_failW: "keepsW I (failW wr p e)"
  by (simp add: failW_def keepsW_throwW)

lemma keepsW_tryW:
  assumes "keepsW I m" and "\<And>r. keepsW I (h r)"
  shows "keepsW I (tryW m h)"
  using assms by (auto simp: keepsW_def tryW_def split: prod.splits)

lemma keepsW_bindW:
  assumes "keepsW I m" and "\<And>x. keepsW I (f x)"
  shows "keepsW I (bindW m f)"
  unfolding bindW_def
proof (rule keepsW_tryW [OF assms(1)])
  show "keepsW I (case r of Inl e \<Rightarrow> throwW e | Inr x \<Rightarrow> f x)" for r
    by (cases r) (auto simp: keepsW_throwW assms(2))
qed

lemma keepsW_storeW:
  assumes "keeps Q m" and "\<And>r. keepsW I (h r)"
  shows "keepsW I (storeW m h)"
proof (rule keepsWI)
  fix w r w'
  assume run: "storeW m h w = (r, w')" and w: "I w"
  obtain x s where x: "m (ws_db w) = (x, s)" by (cases "m (ws_db w)")
  have "I (w\<lparr>ws_db := s\<rparr>)" by (rule I_step [OF w keepsD [OF assms(1) x]])
  then show "I w'" using run x keepsWD [OF assms(2)] by (auto simp: storeW_def)
qed

lemma keepsW_needW:
  assumes "keeps Q m" and "\<And>x. keepsW I (f x)"
  shows "keepsW I (needW wr p m f)"
  unfolding needW_def
proof (rule keepsW_storeW [OF assms(1)])
  show "keepsW I (case r of Inl e \<Rightarrow> failW wr p e | Inr x \<Rightarrow> f x)" for r
    by (cases r) (auto simp: keepsW_failW assms(2))
qed

lemma keepsW_eachW: "(\<And>x. keepsW I (f x)) \<Longrightarrow> keepsW I (eachW xs f)"
  by (induction xs) (auto intro: keepsW_retW keepsW_bindW)

lemma keepsW_groupW:
  assumes "\<And>x. keepsW I (f x)"
  shows "keepsW I (groupW xs f)"
proof (induction xs)
  case (Cons x xs)
  have "keepsW I (case r of Inl e \<Rightarrow> throwW e | Inr _ \<Rightarrow> (case r' of Inl e \<Rightarrow> throwW e | Inr _ \<Rightarrow> retW ()))"
    for r :: "write_error + unit" and r' :: "write_error + unit"
    by (cases r; cases r') (auto intro: keepsW_throwW keepsW_retW)
  then show ?case unfolding groupW.simps by (intro keepsW_tryW assms Cons.IH)
qed (simp add: keepsW_retW)

lemma keepsW_case_sum:
  assumes "\<And>e. keepsW I (f e)" and "\<And>x. keepsW I (g x)"
  shows "keepsW I (case r of Inl e \<Rightarrow> f e | Inr x \<Rightarrow> g x)"
  using assms by (cases r) auto

lemma keepsW_case_option:
  assumes "keepsW I f" and "\<And>x. keepsW I (g x)"
  shows "keepsW I (case r of None \<Rightarrow> f | Some x \<Rightarrow> g x)"
  using assms by (cases r) auto

lemma keepsW_if: "keepsW I f \<Longrightarrow> keepsW I g \<Longrightarrow> keepsW I (if b then f else g)"
  by simp

lemma keepsW_isRunActive:
  assumes "\<And>b. keepsW I (f b)"
  shows "keepsW I (isRunActive i f)"
  unfolding isRunActive_def
  by (intro keepsW_if keepsW_storeW keepsW_case_sum assms Q_reads)

lemma keepsW_restoreDiscussion:
  assumes "\<And>b. keepsW I (f b)"
  shows "keepsW I (restoreDiscussion i j f)"
  unfolding restoreDiscussion_def
  by (intro keepsW_if keepsW_storeW keepsW_case_sum assms Q_reads)

lemma keepsW_suggestion:
  assumes "\<And>b. keepsW I (f b)"
  shows "keepsW I (suggestionConfidenceThreshold i f)"
  unfolding suggestionConfidenceThreshold_def
  by (intro keepsW_storeW keepsW_case_sum assms Q_reads)

lemma keepsW_outputLanguage:
  assumes "\<And>b. keepsW I (f b)"
  shows "keepsW I (outputLanguage wr run i f)"
  unfolding outputLanguage_def Let_def
  by (intro keepsW_if keepsW_storeW keepsW_case_sum assms Q_reads)

lemma keepsW_action_done:
  assumes "\<And>b. keepsW I (f b)"
  shows "keepsW I (action_done k f)"
  unfolding action_done_def by (intro keepsW_storeW keepsW_case_sum assms Q_reads)

lemma keepsW_activeDiscussion:
  assumes "\<And>b. keepsW I (f b)"
  shows "keepsW I (activeDiscussion i x f)"
  unfolding activeDiscussion_def Let_def
  by (intro keepsW_if keepsW_storeW keepsW_case_sum assms Q_reads)

lemma keepsW_new_discussions:
  assumes "\<And>b. keepsW I (f b)"
  shows "keepsW I (new_discussions i xs acc f)"
proof (induction xs arbitrary: acc)
  case (Cons x xs)
  show ?case unfolding new_discussions.simps
    by (intro keepsW_activeDiscussion keepsW_case_option Cons.IH)
qed (simp add: assms)

lemma keepsW_with_project:
  assumes "\<And>m i. keepsW I (f m i)"
  shows "keepsW I (with_project wr run f)"
  unfolding with_project_def by (intro keepsW_needW keepsW_if keepsW_failW assms Q_reads)

lemmas keepsW_rules = keepsW_retW keepsW_throwW keepsW_failW keepsW_if keepsW_case_sum keepsW_case_option
  keepsW_isRunActive keepsW_restoreDiscussion keepsW_suggestion keepsW_outputLanguage keepsW_action_done
  keepsW_activeDiscussion keepsW_new_discussions keepsW_with_project keepsW_needW

lemma keepsW_persistDiscussion: "keepsW I (persistDiscussion wr mr f d ty)"
  unfolding persistDiscussion_def persistFindingDiscussionLink_def
  by (intro keepsW_rules keepsW_storeW Q_reads Q_writes)

lemma keepsW_persistRunFailure: "keepsW I (persistRunFailure wr run code e)"
  unfolding persistRunFailure_def by (intro keepsW_rules Q_reads Q_writes)

lemma keepsW_resolve_tail: "keepsW I (resolve_tail wr d x)"
  unfolding resolve_tail_def linkSupersededDiscussion_def Let_def
  by (intro keepsW_rules keepsW_storeW Q_reads Q_writes)

text \<open>What remains to be shown of an invariant: the three programs that record a remote call.\<close>

lemma keepsW_writeFinding:
  assumes disc: "\<And>f k ty dt req. cdr_idempotency_key req = k \<Longrightarrow> keepsW I (performDiscussionAction wr run f k ty dt req)"
    and nt: "\<And>f k ty req. cnr_idempotency_key req = k \<Longrightarrow> keepsW I (performNoteAction wr run f k ty req)"
  shows "keepsW I (writeFinding wr run mr v pid f)"
  unfolding writeFinding_def post_diff_def post_file_def post_note_def Let_def
  by (intro keepsW_rules keepsW_tryW disc nt keepsW_persistDiscussion keepsW_persistRunFailure) simp_all

lemma keepsW_writeSummaryNote:
  assumes nt: "\<And>f k ty req. cnr_idempotency_key req = k \<Longrightarrow> keepsW I (performNoteAction wr run f k ty req)"
  shows "keepsW I (writeSummaryNote wr run mr pid)" "keepsW I (writeParserErrorNote wr run)"
  unfolding writeSummaryNote_def writeParserErrorNote_def Let_def
  by (intro keepsW_rules keepsW_tryW nt keepsW_persistRunFailure Q_reads; simp)+

lemma keepsW_Write:
  assumes disc: "\<And>f k ty dt req. cdr_idempotency_key req = k \<Longrightarrow> keepsW I (performDiscussionAction wr run f k ty dt req)"
    and nt: "\<And>f k ty req. cnr_idempotency_key req = k \<Longrightarrow> keepsW I (performNoteAction wr run f k ty req)"
    and res: "\<And>mr pid f x. keepsW I (resolveFindingDiscussion wr run mr pid f x)"
  shows "keepsW I (Write wr run fs)"
  unfolding Write_def writeFindings_def resolveCompletedFindings_def
  by (intro keepsW_rules keepsW_bindW keepsW_eachW keepsW_groupW keepsW_writeFinding keepsW_writeSummaryNote
      disc nt res Q_reads)

end

subsection \<open>Store relations that the writer keeps\<close>

text \<open>A store relation that the writes of the writer keep is kept by the writer as a whole, failures included.\<close>

locale writer_store = store_rel R for R +
  assumes W_writes: "keeps R (MarkReviewRunFailedIfRunning a)" "keeps R (UpdateFindingDiscussionID d i)"
      "keeps R (UpdateGitlabDiscussionResolved b i)" "keeps R (UpdateGitlabDiscussionSupersededBy x i)"
      "keeps R (InsertGitlabDiscussion fi mi di ty b)"
    and W_actions: "keeps R (InsertCommentAction q)" "keeps R (UpdateCommentActionStatus st code detail lat n i)"
begin

lemma W_reads: "keeps R (GetReviewRun i)" "keeps R (GetCommentActionByIdempotencyKey k)" "keeps R (GetProjectPolicy i)"
  "keeps R (GetMergeRequest i)" "keeps R (GetProject i)" "keeps R (GetLatestMRVersion i)" "keeps R (GetReviewFinding i)"
  "keeps R (GetGitlabDiscussion i)" "keeps R (GetGitlabDiscussionByFinding i)"
  "keeps R (GetGitlabDiscussionByMergeRequestAndFinding i j)" "keeps R (ListFindingsByRun i)"
  "keeps R (ListFindingsByMergeRequest i)"
  by (simp_all add: GetReviewRun_def GetCommentActionByIdempotencyKey_def GetProjectPolicy_def GetMergeRequest_def
      GetProject_def GetLatestMRVersion_def GetReviewFinding_def GetGitlabDiscussion_def
      GetGitlabDiscussionByFinding_def GetGitlabDiscussionByMergeRequestAndFinding_def ListFindingsByRun_def
      ListFindingsByMergeRequest_def keeps_query_row keeps_query_first keeps_query_all)

sublocale sinv: writer_invariant "\<lambda>w. R s0 (ws_db w)" R for s0
  by unfold_locales (auto intro: R_trans W_reads W_writes)

lemma keepsW_ensureAction: "keepsW (\<lambda>w. R s0 (ws_db w)) (ensureAction wr i fid ty k)"
  unfolding ensureAction_def by (intro sinv.keepsW_rules sinv.keepsW_storeW W_reads W_actions)

lemma keepsW_finalizeAction: "keepsW (\<lambda>w. R s0 (ws_db w)) (finalizeAction wr i a e code)"
  unfolding finalizeAction_def Let_def by (intro sinv.keepsW_rules W_actions)

lemma keepsW_callW: "keepsW (\<lambda>w. R s0 (ws_db w)) (callW c ans)"
  by (simp add: keepsW_def callW_def Let_def)

lemma keepsW_retry: "keepsW (\<lambda>w. R s0 (ws_db w)) fn \<Longrightarrow> keepsW (\<lambda>w. R s0 (ws_db w)) (retryWrite wr fn)"
  unfolding retryWrite_def
proof -
  assume fn: "keepsW (\<lambda>w. R s0 (ws_db w)) fn"
  have "keepsW (\<lambda>w. R s0 (ws_db w)) (retry_write_loop wr fn attempt left)" for attempt left
  proof (induction left arbitrary: attempt)
    case 0
    show ?case unfolding retry_write_loop.simps [of _ _ _ 0] by (intro sinv.keepsW_tryW fn sinv.keepsW_rules) (simp add: sinv.keepsW_throwW)
  next
    case (Suc n)
    have "keepsW (\<lambda>w. R s0 (ws_db w)) (\<lambda>w. case wr_sleep wr d (length (ws_calls w)) of
        Some e' \<Rightarrow> throwW e' w | None \<Rightarrow> retry_write_loop wr fn (Suc attempt) n w)" for d
      using Suc.IH [of "Suc attempt"] by (auto simp: keepsW_def throwW_def split: option.splits)
    then show ?case unfolding retry_write_loop.simps [of _ _ _ "Suc n"]
      by (intro sinv.keepsW_tryW fn sinv.keepsW_rules) simp
  qed
  then show "keepsW (\<lambda>w. R s0 (ws_db w)) (retry_write_loop wr fn 0 (maxWriteRetries - 1))" .
qed

lemma keepsW_case_prod: "(\<And>x y. keepsW P (f x y)) \<Longrightarrow> keepsW P (case p of (x, y) \<Rightarrow> f x y)"
  by (cases p) simp

lemmas keepsW_recorded = sinv.keepsW_tryW sinv.keepsW_bindW sinv.keepsW_rules keepsW_ensureAction keepsW_finalizeAction
  keepsW_retry keepsW_callW keepsW_case_prod sinv.keepsW_resolve_tail

lemma keepsW_performs:
  "keepsW (\<lambda>w. R s0 (ws_db w)) (performDiscussionAction wr run f k ty dt req)"
  "keepsW (\<lambda>w. R s0 (ws_db w)) (performNoteAction wr run f k ty nreq)"
  unfolding performDiscussionAction_def performNoteAction_def perform_def by (intro keepsW_recorded)+

lemma keepsW_resolve: "keepsW (\<lambda>w. R s0 (ws_db w)) (resolveFindingDiscussion wr run mr pid f x)"
  unfolding resolveFindingDiscussion_def Let_def by (intro keepsW_recorded)

lemma Write_keeps:
  assumes "Write wr run fs w = (r, w')"
  shows "R (ws_db w) (ws_db w')"
proof -
  have "keepsW (\<lambda>v. R (ws_db w) (ws_db v)) (Write wr run fs)"
    by (rule sinv.keepsW_Write) (rule keepsW_performs keepsW_resolve)+
  from keepsWD [OF this assms] show ?thesis by (simp add: R_refl)
qed

end

subsection \<open>No comment is posted twice\<close>

fun created_key :: "remote_call \<Rightarrow> string option" where
  "created_key (CreateDiscussion r) = Some (cdr_idempotency_key r)"
| "created_key (CreateNote r) = Some (cnr_idempotency_key r)"
| "created_key (ResolveDiscussion r) = None"

text \<open>How often a comment with a key has been created.\<close>

definition posted :: "string \<Rightarrow> (remote_call \<times> bool) list \<Rightarrow> nat" where
  "posted k calls = length (filter (\<lambda>(c, ok). ok \<and> created_key c = Some k) calls)"

definition succeeded :: "string \<Rightarrow> db \<Rightarrow> bool" where
  "succeeded k s \<longleftrightarrow> (\<exists>a \<in> set (rows (comment_actions s)). ca_idempotency_key a = k \<and> ca_status a = ''succeeded'')"

definition posted_once :: "wstate \<Rightarrow> bool" where
  "posted_once w \<longleftrightarrow> faults (ws_db w) = [] \<and> table_ok ca_id ca_idempotency_key (comment_actions (ws_db w))
     \<and> (\<forall>k. posted k (ws_calls w) \<le> 1 \<and> (0 < posted k (ws_calls w) \<longrightarrow> succeeded k (ws_db w)))"

interpretation once: writer_invariant posted_once quiet_rel
  by unfold_locales (auto simp: quiet_rel_def posted_once_def succeeded_def intro: quiet_statements quiet_writes)

lemma posted_append: "posted k (xs @ ys) = posted k xs + posted k ys"
  by (simp add: posted_def)

lemma posted_failed [simp]: "posted k (replicate n (c, False)) = 0"
  by (induction n) (simp_all add: posted_def)

lemma callW_answer:
  "callW c ans w = (ans (length (ws_calls w)), w\<lparr>ws_calls := ws_calls w @ [(c, \<not> isl (ans (length (ws_calls w))))]\<rparr>)"
  by (simp add: callW_def Let_def)

lemma retry_first_ok: "fn w = (Inr x, w1) \<Longrightarrow> retry_write_loop wr fn attempt left w = (Inr x, w1)"
  by (simp add: retry_write_loop.simps tryW_def retW_def)

text \<open>The calls of a retried request: some that fail, and at the end one that succeeds if the request does.\<close>

lemma retry_write_loop_calls:
  assumes "retry_write_loop wr (callW c ans) attempt left w = (r, w')"
  shows "\<exists>n. ws_db w' = ws_db w \<and> ws_calls w' = ws_calls w @ replicate n (c, False) @ (if isl r then [] else [(c, True)])
     \<and> (if isl r then 1 \<le> n \<and> n \<le> Suc left else n \<le> left)"
  using assms
proof (induction left arbitrary: attempt w)
  case 0
  show ?case
  proof (cases "ans (length (ws_calls w))")
    case (Inl e)
    then have "callW c ans w = (Inl e, w\<lparr>ws_calls := ws_calls w @ [(c, False)]\<rparr>)" by (simp add: callW_answer)
    with 0 have "r = Inl e \<and> w' = w\<lparr>ws_calls := ws_calls w @ [(c, False)]\<rparr>"
      by (auto simp: retry_write_loop.simps [of _ _ _ 0] tryW_def throwW_def split: if_splits)
    then show ?thesis by (intro exI [of _ 1]) simp
  next
    case (Inr x)
    then have "callW c ans w = (Inr x, w\<lparr>ws_calls := ws_calls w @ [(c, True)]\<rparr>)" by (simp add: callW_answer)
    from retry_first_ok [where fn = "callW c ans", OF this, of wr attempt 0] 0 show ?thesis by (intro exI [of _ 0]) auto
  qed
next
  case (Suc n)
  show ?case
  proof (cases "ans (length (ws_calls w))")
    case (Inr x)
    then have "callW c ans w = (Inr x, w\<lparr>ws_calls := ws_calls w @ [(c, True)]\<rparr>)" by (simp add: callW_answer)
    from retry_first_ok [where fn = "callW c ans", OF this, of wr attempt "Suc n"] Suc.prems show ?thesis by (intro exI [of _ 0]) auto
  next
    case (Inl e)
    define w1 where "w1 = w\<lparr>ws_calls := ws_calls w @ [(c, False)]\<rparr>"
    have first: "callW c ans w = (Inl e, w1)" using Inl by (simp add: callW_answer w1_def)
    show ?thesis
    proof (cases "isRetryableWriteError e \<and> wr_sleep wr (defaultRetryBackoff * 2 ^ attempt) (length (ws_calls w1)) = None")
      case True
      then have "retry_write_loop wr (callW c ans) (Suc attempt) n w1 = (r, w')"
        using Suc.prems first unfolding retry_write_loop.simps [of _ _ _ "Suc n"] by (simp add: tryW_def)
      from Suc.IH [OF this] obtain k where k: "ws_db w' = ws_db w1"
        "ws_calls w' = ws_calls w1 @ replicate k (c, False) @ (if isl r then [] else [(c, True)])"
        "if isl r then 1 \<le> k \<and> k \<le> Suc n else k \<le> n" by blast
      then show ?thesis by (intro exI [of _ "Suc k"]) (auto simp: w1_def split: if_splits)
    next
      case False
      then obtain e' where "r = Inl e'" "w' = w1"
        using Suc.prems first unfolding retry_write_loop.simps [of _ _ _ "Suc n"]
        by (auto simp: tryW_def throwW_def split: if_splits option.splits)
      then show ?thesis by (intro exI [of _ 1]) (auto simp: w1_def)
    qed
  qed
qed

lemma retry_write_loop_answer:
  assumes "retry_write_loop wr (callW c ans) attempt left w = (Inr d, w')"
  shows "\<exists>n. ans n = Inr d"
  using assms
proof (induction left arbitrary: attempt w)
  case 0
  then show ?case
    by (auto simp: retry_write_loop.simps [of _ _ _ 0] tryW_def callW_answer retW_def throwW_def split: sum.splits if_splits)
next
  case (Suc n)
  then show ?case
    by (auto simp: retry_write_loop.simps [of _ _ _ "Suc n"] tryW_def callW_answer retW_def throwW_def
        split: sum.splits if_splits option.splits)
qed

lemma ensureAction_row:
  assumes "ensureAction wr runID fid ty key w = (r, w')" and "posted_once w"
  shows "posted_once w' \<and> ws_calls w' = ws_calls w \<and> (\<forall>i a. r = Inr (i, a) \<longrightarrow> ca_id a = i \<and> i \<noteq> 0 \<and>
     (\<exists>row \<in> set (rows (comment_actions (ws_db w'))). ca_id row = i \<and> ca_idempotency_key row = key \<and> ca_status row = ca_status a))"
proof -
  let ?s = "ws_db w"
  have f: "faults ?s = []" and ok: "table_ok ca_id ca_idempotency_key (comment_actions ?s)"
    using assms(2) by (simp_all add: posted_once_def)
  show ?thesis
  proof (cases "find_row (\<lambda>c. ca_idempotency_key c = key) (comment_actions ?s)")
    case (Some a)
    then have "a \<in> set (rows (comment_actions ?s))" "ca_idempotency_key a = key" using find_row_Some by fastforce+
    moreover from this ok have "ca_id a \<noteq> 0" by (auto simp: table_ok_def)
    moreover have "r = Inr (ca_id a, a)" "w' = w"
      using assms(1) Some f by (auto simp: ensureAction_def storeW_def GetCommentActionByIdempotencyKey_def query_row_def stmt_def retW_def)
    ultimately show ?thesis using assms(2) by auto
  next
    case None
    let ?p = "\<lparr>cap_review_run_id = runID, cap_review_finding_id = fid, cap_action_type = ty, cap_idempotency_key = key,
      cap_status = ''pending''\<rparr>"
    have get: "GetCommentActionByIdempotencyKey key ?s = (Inl ErrNoRows, ?s)"
      using None f by (simp add: GetCommentActionByIdempotencyKey_def query_row_def stmt_def)
    show ?thesis
    proof (cases "no_run runID ?s \<or> (case fid of None \<Rightarrow> False | Some f \<Rightarrow> no_finding f ?s)")
      case True
      then have "InsertCommentAction ?p ?s = (Inl ErrForeignKey, ?s)"
        using None f by (simp add: InsertCommentAction_def stmt_def)
      then show ?thesis using assms get
        by (auto simp: ensureAction_def storeW_def is_duplicate_key_error_def failW_def throwW_def)
    next
      case False
      define t where "t = snd (insert_into comment_actions comment_actions_update (new_action ?p) ?s)"
      have ins: "InsertCommentAction ?p ?s = (Inr (next_id (comment_actions ?s)), t)"
        using False None f by (simp add: InsertCommentAction_def stmt_def t_def insert_into_def)
      have t: "comment_actions t = insert_row (new_action ?p (clock ?s)) (comment_actions ?s)" "faults t = []"
        using f by (simp_all add: t_def insert_into_def)
      have res: "r = Inr (next_id (comment_actions ?s), zero_comment_action\<lparr>ca_id := next_id (comment_actions ?s),
          ca_idempotency_key := key, ca_status := ''pending''\<rparr>)" "w' = w\<lparr>ws_db := t\<rparr>"
        using assms(1) get ins by (auto simp: ensureAction_def storeW_def retW_def)
      have "table_ok ca_id ca_idempotency_key (comment_actions t)"
        unfolding t(1) by (rule table_ok_insert [OF ok None]) (simp_all add: new_action_def)
      moreover have "succeeded k t" if "succeeded k ?s" for k using that by (auto simp: succeeded_def t(1))
      ultimately have "posted_once w'" using assms(2) t(2) by (auto simp: posted_once_def res(2))
      moreover have "next_id (comment_actions ?s) \<noteq> 0" using ok by (auto simp: table_ok_def)
      ultimately show ?thesis by (auto simp: res t(1) new_action_def)
    qed
  qed
qed

text \<open>Recording the outcome of a call: an action whose row has not succeeded may post its key once more.\<close>

lemma record_call:
  assumes w: "posted_once w" and row: "row \<in> set (rows (comment_actions (ws_db w)))" "ca_id row = i" "i \<noteq> 0"
    and key: "ca_idempotency_key row = key" and st: "ca_status row \<noteq> ''succeeded''"
    and c: "created_key c = None \<or> created_key c = Some key"
    and call: "retryWrite wr (callW c ans) w = (res, w1)"
    and fin: "finalizeAction wr i a (err_of res) code w1 = (u, w2)"
  shows "posted_once w2"
proof -
  from retry_write_loop_calls [OF call [unfolded retryWrite_def]] obtain n where n: "ws_db w1 = ws_db w"
    "ws_calls w1 = ws_calls w @ replicate n (c, False) @ (if isl res then [] else [(c, True)])" by blast
  have f: "faults (ws_db w) = []" and ok: "table_ok ca_id ca_idempotency_key (comment_actions (ws_db w))"
    using w by (simp_all add: posted_once_def)
  obtain status code' detail retries where fin':
    "finalizeAction wr i a (err_of res) code w1 = needW wr [] (UpdateCommentActionStatus status code' detail
        (defaultRetryBackoff div 1000000) retries i) retW w1"
    and status: "\<not> isl res \<longrightarrow> status = ''succeeded''"
    using row(3) by (auto simp: finalizeAction_def Let_def err_of_def split: sum.splits if_splits)
  define t where "t = (ws_db w)\<lparr>comment_actions := update_rows (\<lambda>c. ca_id c = i)
      (\<lambda>c. c\<lparr>ca_status := status, ca_error_code := code', ca_error_detail := detail,
         ca_latency_ms := defaultRetryBackoff div 1000000, ca_retry_count := retries, ca_updated_at := clock (ws_db w)\<rparr>)
      (comment_actions (ws_db w))\<rparr>"
  have w2: "w2 = w1\<lparr>ws_db := t\<rparr>"
    using fin fin' f by (simp add: needW_def storeW_def UpdateCommentActionStatus_def exec_ok n(1) retW_def t_def)
  have tok: "table_ok ca_id ca_idempotency_key (comment_actions t)"
    unfolding t_def by (simp, rule table_ok_update [OF ok]) simp_all
  have other: "succeeded k t" if k: "succeeded k (ws_db w)" and "k \<noteq> key" for k
  proof -
    from k obtain x where x: "x \<in> set (rows (comment_actions (ws_db w)))" "ca_idempotency_key x = k" "ca_status x = ''succeeded''"
      by (auto simp: succeeded_def)
    have "ca_id x \<noteq> i"
    proof
      assume "ca_id x = i"
      then have "x = row" using table_ok_find_id [OF ok x(1)] table_ok_find_id [OF ok row(1)] row(2) by simp
      with key x(2) that(2) show False by simp
    qed
    then have "x \<in> set (rows (comment_actions t))" using x(1) by (force simp: t_def)
    with x show ?thesis by (auto simp: succeeded_def)
  qed
  have not_yet: "\<not> succeeded key (ws_db w)"
  proof
    assume "succeeded key (ws_db w)"
    then obtain x where "x \<in> set (rows (comment_actions (ws_db w)))" "ca_idempotency_key x = key" "ca_status x = ''succeeded''"
      by (auto simp: succeeded_def)
    with table_ok_find_key [OF ok this(1)] table_ok_find_key [OF ok row(1)] key st show False by simp
  qed
  have mine: "succeeded key t" if "\<not> isl res"
    unfolding succeeded_def t_def
    by (rule bexI [of _ "row\<lparr>ca_status := status, ca_error_code := code', ca_error_detail := detail,
         ca_latency_ms := defaultRetryBackoff div 1000000, ca_retry_count := retries, ca_updated_at := clock (ws_db w)\<rparr>"])
      (use that status row key in \<open>auto intro!: image_eqI [where x = row]\<close>)
  have calls: "posted k (ws_calls w2) = posted k (ws_calls w) + (if \<not> isl res \<and> created_key c = Some k then 1 else 0)" for k
    by (simp add: w2 n(2) posted_append) (simp add: posted_def)
  have "posted k (ws_calls w2) \<le> 1 \<and> (0 < posted k (ws_calls w2) \<longrightarrow> succeeded k t)" for k
  proof (cases "k = key")
    case True
    moreover have "posted key (ws_calls w) = 0" using w not_yet by (auto simp: posted_once_def)
    ultimately show ?thesis using mine by (auto simp: calls)
  next
    case False
    with c have "posted k (ws_calls w2) = posted k (ws_calls w)" by (auto simp: calls)
    with w other [OF _ False] show ?thesis by (auto simp: posted_once_def)
  qed
  moreover have "faults t = []" using f by (simp add: t_def)
  ultimately show ?thesis using tok by (simp add: posted_once_def w2)
qed

text \<open>The shape the three recorded calls share.\<close>

definition recorded :: "writer \<Rightarrow> int \<Rightarrow> int option \<Rightarrow> string \<Rightarrow> string \<Rightarrow> 'b wm \<Rightarrow> 'a wm
    \<Rightarrow> (write_error option \<Rightarrow> string) \<Rightarrow> (write_error + 'a \<Rightarrow> 'b wm) \<Rightarrow> 'b wm" where
  "recorded wr runID fid ty key repeat fn classify k =
     tryW (ensureAction wr runID fid ty key) (\<lambda>r. case r of
       Inl e \<Rightarrow> throwW (wrap_error ''writer: insert comment action: '' e)
     | Inr (i, a) \<Rightarrow> if ca_status a = ''succeeded'' then repeat
         else tryW (retryWrite wr fn) (\<lambda>res.
           bindW (finalizeAction wr i a (err_of res) (classify (err_of res))) (\<lambda>_. k res)))"

lemma recorded_once:
  assumes c: "created_key c = None \<or> created_key c = Some key"
    and rep: "keepsW posted_once repeat" and k: "\<And>res. keepsW posted_once (k res)"
  shows "keepsW posted_once (recorded wr runID fid ty key repeat (callW c ans) classify k)"
proof (rule keepsWI)
  fix w r w'
  assume run: "recorded wr runID fid ty key repeat (callW c ans) classify k w = (r, w')" and w: "posted_once w"
  obtain x w1 where x: "ensureAction wr runID fid ty key w = (x, w1)" by (cases "ensureAction wr runID fid ty key w")
  note row = ensureAction_row [OF x w]
  show "posted_once w'"
  proof (cases x)
    case (Inl e)
    with run x row show ?thesis by (auto simp: recorded_def tryW_def throwW_def)
  next
    case (Inr q)
    obtain i a where q: "q = (i, a)" by (cases q)
    from row Inr q obtain rw where rw: "rw \<in> set (rows (comment_actions (ws_db w1)))" "ca_id rw = i"
      "ca_idempotency_key rw = key" "ca_status rw = ca_status a" "i \<noteq> 0" by blast
    show ?thesis
    proof (cases "ca_status a = ''succeeded''")
      case True
      with run x Inr q row keepsWD [OF rep, of w1] show ?thesis by (auto simp: recorded_def tryW_def)
    next
      case False
      obtain res w2 where res: "retryWrite wr (callW c ans) w1 = (res, w2)" by (cases "retryWrite wr (callW c ans) w1")
      obtain u w3 where fin: "finalizeAction wr i a (err_of res) (classify (err_of res)) w2 = (u, w3)"
        by (cases "finalizeAction wr i a (err_of res) (classify (err_of res)) w2")
      have w3: "posted_once w3"
        by (rule record_call [OF _ rw(1,2,5,3) _ c res fin]) (use row False rw in auto)
      show ?thesis
      proof (cases u)
        case (Inl e)
        with run x Inr q False res fin w3 show ?thesis by (auto simp: recorded_def tryW_def bindW_def throwW_def)
      next
        case ur: (Inr v)
        with run x Inr q False res fin have "k res w3 = (r, w')" by (auto simp: recorded_def tryW_def bindW_def)
        then show ?thesis using keepsWD [OF k] w3 by blast
      qed
    qed
  qed
qed

lemma perform_recorded:
  "perform wr run finding key ty fn classify = recorded wr (rr_id run) (nullableFindingID (rf_id finding)) ty key
     (restoreDiscussion (rf_id finding) (rr_merge_request_id run) (\<lambda>d. case d of
        Some i \<Rightarrow> retW i | None \<Rightarrow> failW wr [] ErrNoRows)) fn classify (\<lambda>res. case res of Inl e \<Rightarrow> throwW e | Inr d \<Rightarrow> retW d)"
  by (simp add: perform_def recorded_def)

lemma performs_once:
  "cdr_idempotency_key req = k \<Longrightarrow> keepsW posted_once (performDiscussionAction wr run f k ty dt req)"
  "cnr_idempotency_key nreq = k \<Longrightarrow> keepsW posted_once (performNoteAction wr run f k ty nreq)"
  unfolding performDiscussionAction_def performNoteAction_def perform_recorded
  by (intro recorded_once once.keepsW_rules; simp)+

lemma resolve_once: "keepsW posted_once (resolveFindingDiscussion wr run mr pid f supersededBy)"
proof -
  have eq: "resolveFindingDiscussion wr run mr pid f supersededBy =
     isRunActive (rr_id run) (\<lambda>active. if \<not> active \<or> rf_id f = 0 then retW ()
       else activeDiscussion (mr_id mr) f (\<lambda>found. case found of
         None \<Rightarrow> retW ()
       | Some d \<Rightarrow>
           if \<not> isBotOwnedDiscussion d \<or> trim_space (gd_gitlab_discussion_id d) = [] then retW ()
           else let req = \<lparr>rdr_project_id = pid, rdr_merge_request_iid = mr_mr_iid mr,
                    rdr_discussion_id = gd_gitlab_discussion_id d, rdr_resolved = True\<rparr> in
             recorded wr (rr_id run) (nullableFindingID (rf_id f)) ''resolve_discussion''
               (finding_key run f ''resolve_discussion'') (resolve_tail wr d supersededBy)
               (callW (ResolveDiscussion req) (wr_resolve_discussion wr req)) classifyResolveError
               (\<lambda>res. case res of
                  Inl e \<Rightarrow> if classifyResolveError (Some e) \<noteq> [] then throwW e else resolve_tail wr d supersededBy
                | Inr _ \<Rightarrow> resolve_tail wr d supersededBy)))"
    unfolding resolveFindingDiscussion_def recorded_def Let_def by (rule refl)
  show ?thesis unfolding eq Let_def
    by (intro once.keepsW_rules recorded_once once.keepsW_resolve_tail; simp)
qed

definition write_all :: "writer \<Rightarrow> (review_run \<times> review_finding list) list \<Rightarrow> wstate \<Rightarrow> wstate" where
  "write_all wr jobs w = fold (\<lambda>(run, fs) w. snd (Write wr run fs w)) jobs w"

lemma write_all_once: "posted_once w \<Longrightarrow> posted_once (write_all wr jobs w)"
proof (induction jobs arbitrary: w)
  case (Cons j jobs)
  obtain run fs where j: "j = (run, fs)" by (cases j)
  have "keepsW posted_once (Write wr run fs)" by (intro once.keepsW_Write performs_once resolve_once; simp)
  then have "posted_once (snd (Write wr run fs w))" using Cons.prems by (simp add: keepsW_def)
  from Cons.IH [OF this] show ?case by (simp add: write_all_def j)
qed (simp add: write_all_def)


subsection \<open>What becomes of one finding\<close>

lemma same_db [simp]: "w\<lparr>ws_db := ws_db w\<rparr> = w"
  by (cases w) simp

lemma storeW_query_row:
  "faults (ws_db w) = [] \<Longrightarrow> storeW (query_row tbl p) h w =
     h (case find_row p (tbl (ws_db w)) of None \<Rightarrow> Inl ErrNoRows | Some r \<Rightarrow> Inr r) w"
  by (simp add: storeW_def query_row_def stmt_ok split: option.splits)

lemma storeW_query_first:
  "faults (ws_db w) = [] \<Longrightarrow> storeW (query_first sel) h w =
     h (case sel (ws_db w) of [] \<Rightarrow> Inl ErrNoRows | r # _ \<Rightarrow> Inr r) w"
  by (simp add: storeW_def query_first_def stmt_ok split: list.splits)

lemma storeW_exec:
  "faults (ws_db w) = [] \<Longrightarrow> storeW (exec f) h w = h (Inr ()) (w\<lparr>ws_db := f (ws_db w)\<rparr>)"
  by (simp add: storeW_def exec_ok)

lemma outputLanguage_through:
  assumes "faults (ws_db w) = []"
  shows "\<exists>l. outputLanguage wr run i f w = f l w"
  using assms by (auto simp: outputLanguage_def Let_def GetProjectPolicy_def storeW_query_row split: option.splits)

lemma suggestion_through:
  assumes "faults (ws_db w) = []"
  shows "\<exists>t. suggestionConfidenceThreshold i f w = f t w"
  using assms by (auto simp: suggestionConfidenceThreshold_def GetProjectPolicy_def storeW_query_row split: option.splits)

definition only_actions :: "db \<Rightarrow> db \<Rightarrow> bool" where
  "only_actions s t \<longleftrightarrow> (\<exists>ca i. t = s\<lparr>comment_actions := ca, last_rowid := i\<rparr>)"

lemma only_actions_refl [simp]: "only_actions s s"
  unfolding only_actions_def by (rule exI [of _ "comment_actions s"], rule exI [of _ "last_rowid s"]) simp

lemma only_actions_trans:
  assumes "only_actions s t" and "only_actions t u"
  shows "only_actions s u"
proof -
  from assms obtain a i b j where "t = s\<lparr>comment_actions := a, last_rowid := i\<rparr>" "u = t\<lparr>comment_actions := b, last_rowid := j\<rparr>"
    by (auto simp: only_actions_def)
  then have "u = s\<lparr>comment_actions := b, last_rowid := j\<rparr>" by simp
  then show ?thesis unfolding only_actions_def by blast
qed

lemma only_actions_same:
  assumes "only_actions s t"
  shows "faults t = faults s" "review_runs t = review_runs s" "review_findings t = review_findings s"
    "merge_requests t = merge_requests s" "discussions t = discussions s" "clock t = clock s"
  using assms by (auto simp: only_actions_def)

lemma ensureAction_effect:
  assumes "ensureAction wr runID fid ty key w = (r, w')" and "faults (ws_db w) = []"
  shows "only_actions (ws_db w) (ws_db w')"
proof -
  have ins: "only_actions s (snd (InsertCommentAction p s))" if "faults s = []" for p s
  proof -
    have "only_actions s (snd (insert_into comment_actions comment_actions_update mk s))" for mk
      unfolding only_actions_def insert_into_def
      by (intro exI [of _ "insert_row (mk (clock s)) (comment_actions s)"] exI [of _ "next_id (comment_actions s)"]) simp
    then show ?thesis using that by (auto simp: InsertCommentAction_def stmt_ok)
  qed
  let ?p = "\<lparr>cap_review_run_id = runID, cap_review_finding_id = fid, cap_action_type = ty, cap_idempotency_key = key,
    cap_status = ''pending''\<rparr>"
  obtain x t where x: "InsertCommentAction ?p (ws_db w) = (x, t)" by (cases "InsertCommentAction ?p (ws_db w)")
  have t: "only_actions (ws_db w) t" using ins [OF assms(2), of ?p] x by simp
  then have "faults t = []" using assms(2) by (simp add: only_actions_same)
  with assms x t show ?thesis
    by (auto simp: ensureAction_def GetCommentActionByIdempotencyKey_def storeW_query_row storeW_def [of "InsertCommentAction p" for p]
        retW_def failW_def throwW_def needW_def split: option.splits sum.splits if_splits)
qed

lemma finalizeAction_effect:
  assumes "finalizeAction wr i a e code w = (r, w')" and "faults (ws_db w) = []"
  shows "r = Inr () \<and> only_actions (ws_db w) (ws_db w')"
proof -
  obtain st code' detail lat n j where "finalizeAction wr i a e code w =
      needW wr [] (UpdateCommentActionStatus st code' detail lat n j) retW w"
    by (auto simp: finalizeAction_def Let_def)
  then have "r = Inr () \<and> ws_db w' = snd (UpdateCommentActionStatus st code' detail lat n j (ws_db w))"
    using assms by (simp add: needW_def storeW_def UpdateCommentActionStatus_def exec_ok retW_def)
  moreover have "only_actions (ws_db w) (snd (UpdateCommentActionStatus st code' detail lat n j (ws_db w)))"
    using assms(2) unfolding UpdateCommentActionStatus_def exec_ok [OF assms(2)] only_actions_def
    by (simp, intro exI [of _ "last_rowid (ws_db w)"] exI) simp
  ultimately show ?thesis by simp
qed

definition has_discussion :: "int \<Rightarrow> int \<Rightarrow> db \<Rightarrow> bool" where
  "has_discussion m i s \<longleftrightarrow> (\<exists>d \<in> set (rows (discussions s)). gd_merge_request_id d = m \<and> gd_review_finding_id d = i)"

lemma restoreDiscussion_through:
  assumes "faults (ws_db w) = []" and "i \<noteq> 0"
  shows "\<exists>d. restoreDiscussion i m f w = f d w \<and> (d \<noteq> None \<longleftrightarrow> has_discussion m i (ws_db w))"
proof -
  let ?l = "latest_by gd_created_at (filter (\<lambda>d. gd_merge_request_id d = m \<and> gd_review_finding_id d = i)
    (rows (discussions (ws_db w))))"
  have "set ?l = {d \<in> set (rows (discussions (ws_db w))). gd_merge_request_id d = m \<and> gd_review_finding_id d = i}"
    by (auto simp: latest_by_def)
  then have "?l \<noteq> [] \<longleftrightarrow> has_discussion m i (ws_db w)" by (auto simp: has_discussion_def simp flip: set_empty)
  with assms show ?thesis
    by (cases ?l) (auto simp: restoreDiscussion_def GetGitlabDiscussionByMergeRequestAndFinding_def storeW_query_first)
qed

lemma perform_effect:
  assumes "perform wr run f key ty (callW c ans) classify w = (r, w')" and "faults (ws_db w) = []" and "rf_id f \<noteq> 0"
  shows "only_actions (ws_db w) (ws_db w') \<and>
    (\<forall>d. r = Inr d \<longrightarrow> (\<exists>n. ans n = Inr d) \<or> has_discussion (rr_merge_request_id run) (rf_id f) (ws_db w))"
proof -
  let ?e = "ensureAction wr (rr_id run) (nullableFindingID (rf_id f)) ty key"
  obtain x w1 where x: "?e w = (x, w1)" by (cases "?e w")
  have w1: "only_actions (ws_db w) (ws_db w1)" using ensureAction_effect [OF x assms(2)] .
  then have f1: "faults (ws_db w1) = []" using assms(2) by (simp add: only_actions_same)
  show ?thesis
  proof (cases x)
    case (Inl e)
    with assms(1) x w1 show ?thesis by (auto simp: perform_def tryW_def throwW_def)
  next
    case (Inr q)
    obtain i a where q: "q = (i, a)" by (cases q)
    show ?thesis
    proof (cases "ca_status a = ''succeeded''")
      case True
      obtain d where d: "restoreDiscussion (rf_id f) (rr_merge_request_id run)
          (\<lambda>d. case d of Some i \<Rightarrow> retW i | None \<Rightarrow> failW wr [] ErrNoRows) w1 = (case d of Some i \<Rightarrow> retW i | None \<Rightarrow> failW wr [] ErrNoRows) w1"
          and d_iff: "d \<noteq> None \<longleftrightarrow> has_discussion (rr_merge_request_id run) (rf_id f) (ws_db w1)"
        using restoreDiscussion_through [OF f1 assms(3)] by blast
      have "has_discussion (rr_merge_request_id run) (rf_id f) (ws_db w1) = has_discussion (rr_merge_request_id run) (rf_id f) (ws_db w)"
        using only_actions_same [OF w1] by (simp add: has_discussion_def)
      moreover have "(case d of Some i \<Rightarrow> retW i | None \<Rightarrow> failW wr [] ErrNoRows) w1 = (r, w')"
        using assms(1) x Inr q True unfolding d [symmetric] by (simp add: perform_def tryW_def)
      ultimately show ?thesis using w1 d_iff by (cases d) (auto simp: retW_def failW_def throwW_def)
    next
      case False
      obtain res w2 where res: "retryWrite wr (callW c ans) w1 = (res, w2)" by (cases "retryWrite wr (callW c ans) w1")
      have w2: "ws_db w2 = ws_db w1"
        using retry_write_loop_calls [OF res [unfolded retryWrite_def]] by blast
      obtain u w3 where fin: "finalizeAction wr i a (err_of res) (classify (err_of res)) w2 = (u, w3)"
        by (cases "finalizeAction wr i a (err_of res) (classify (err_of res)) w2")
      have w3: "u = Inr ()" "only_actions (ws_db w1) (ws_db w3)"
        using finalizeAction_effect [OF fin] f1 w2 by simp_all
      have r: "w' = w3" "r = res"
        using assms(1) x Inr q False res fin w3(1)
        by (auto simp: perform_def tryW_def bindW_def throwW_def retW_def split: sum.splits)
      have "\<exists>n. ans n = Inr d" if "res = Inr d" for d
        by (rule retry_write_loop_answer [OF res [unfolded retryWrite_def that]])
      then show ?thesis using only_actions_trans [OF w1 w3(2)] r by auto
    qed
  qed
qed

lemma persistDiscussion_posts:
  assumes "persistDiscussion wr mr f d ty w = (r, w')" and "faults (ws_db w) = []" and "rf_id f \<noteq> 0" and "d \<noteq> []"
    and "\<not> no_finding (rf_id f) (ws_db w)" and "\<not> no_merge_request (mr_id mr) (ws_db w)"
  shows "r = Inr () \<and> has_discussion (mr_id mr) (rf_id f) (ws_db w')"
proof (cases "has_discussion (mr_id mr) (rf_id f) (ws_db w)")
  case True
  then have "restoreDiscussion (rf_id f) (mr_id mr) (\<lambda>d. case d of Some _ \<Rightarrow> retW () | None \<Rightarrow> ins) w = (Inr (), w)" for ins
    using restoreDiscussion_through [OF assms(2,3), of "mr_id mr" "\<lambda>d. case d of Some _ \<Rightarrow> retW () | None \<Rightarrow> ins"]
    by (auto simp: retW_def split: option.splits)
  with assms(1,3,4) True show ?thesis by (simp add: persistDiscussion_def)
next
  case False
  let ?row = "\<lambda>now i. \<lparr>gd_id = i, gd_review_finding_id = rf_id f, gd_merge_request_id = mr_id mr,
    gd_gitlab_discussion_id = d, gd_discussion_type = ty, gd_resolved = False,
    gd_superseded_by_discussion_id = None, gd_created_at = now, gd_updated_at = now\<rparr>"
  define t where "t = snd (insert_into discussions discussions_update ?row (ws_db w))"
  have ins: "InsertGitlabDiscussion (rf_id f) (mr_id mr) d ty False (ws_db w) = (Inr (next_id (discussions (ws_db w))), t)"
    using assms(2,5,6) by (simp add: InsertGitlabDiscussion_def stmt_ok t_def insert_into_def)
  have t: "faults t = []" "has_discussion (mr_id mr) (rf_id f) t"
    using assms(2) by (simp_all add: t_def insert_into_def has_discussion_def)
  have "restoreDiscussion (rf_id f) (mr_id mr) (\<lambda>d. case d of Some _ \<Rightarrow> retW () | None \<Rightarrow> k) w = k w" for k
    using restoreDiscussion_through [OF assms(2,3), of "mr_id mr" "\<lambda>d. case d of Some _ \<Rightarrow> retW () | None \<Rightarrow> k"] False
    by (auto split: option.splits)
  then have "persistFindingDiscussionLink wr (rf_id f) d (w\<lparr>ws_db := t\<rparr>) = (r, w')"
    using assms(1,3,4) ins
    by (simp add: persistDiscussion_def storeW_def [of "InsertGitlabDiscussion a b c e g" for a b c e g])
  then show ?thesis using t
    by (auto simp: persistFindingDiscussionLink_def GetReviewFinding_def storeW_query_row retW_def needW_def
        storeW_exec UpdateFindingDiscussionID_def update_findings_def
        has_discussion_def split: option.splits if_splits)
qed

lemma persistRunFailure_fails:
  assumes "persistRunFailure wr run code e w = (r, w')" and "faults (ws_db w) = []" and "code \<noteq> []"
    and "run_of (ws_db w) (rr_id run) = Some row"
  shows "isl r \<and> (rr_status row = ''running'' \<longrightarrow> (\<exists>row'. run_of (ws_db w') (rr_id run) = Some row'
      \<and> rr_status row' = ''failed'' \<and> rr_error_code row' = code))"
proof -
  let ?a = "\<lparr>mfp_error_code = code, mfp_error_detail = Some (we_text e), mfp_retry_count = rr_retry_count run, mfp_id = rr_id run\<rparr>"
  define t where "t = snd (MarkReviewRunFailedIfRunning ?a (ws_db w))"
  obtain b where mark: "MarkReviewRunFailedIfRunning ?a (ws_db w) = (Inr b, t)"
    using fail_write.wr_ok [OF assms(2), of ?a] by (simp add: t_def)
  have f: "faults t = []" using fail_write.wr_ok [OF assms(2), of ?a] assms(2) by (simp add: t_def)
  have tail: "\<exists>e'. (if b then throwW e :: unit wm else needW wr p (GetReviewRun (rr_id run)) (\<lambda>_. throwW e)) (w\<lparr>ws_db := t\<rparr>)
      = (Inl e', w\<lparr>ws_db := t\<rparr>)" for p
    using f by (auto simp: throwW_def needW_def GetReviewRun_def storeW_query_row failW_def split: option.splits)
  have go: "(if b then throwW e else needW wr ''writer: reload run after failed terminalization: '' (GetReviewRun (rr_id run))
      (\<lambda>_. throwW e)) (w\<lparr>ws_db := t\<rparr>) = (r, w')"
    using assms(1,3) mark
    by (simp add: persistRunFailure_def needW_def [of wr "''writer: persist run failure: ''"] storeW_def [of "MarkReviewRunFailedIfRunning a" for a])
  from tail [of "''writer: reload run after failed terminalization: ''"] have "isl r \<and> w' = w\<lparr>ws_db := t\<rparr>"
    unfolding go by auto
  moreover have "run_of t (rr_id run) = Some (if rr_status row = ''running'' then set_failed ?a (clock (ws_db w)) row else row)"
    using assms(4) run_of_mem [OF assms(4)] fail_write.wr_ok [OF assms(2), of ?a]
    by (simp add: t_def run_of_def find_row_update_rows set_failed_def)
  ultimately show ?thesis by (simp add: set_failed_def)
qed

definition finding_settled :: "review_run \<Rightarrow> merge_request \<Rightarrow> review_finding \<Rightarrow> review_run \<Rightarrow> write_error + unit \<Rightarrow> db \<Rightarrow> bool" where
  "finding_settled run mr f row r t \<longleftrightarrow> (case r of
     Inr _ \<Rightarrow> has_discussion (mr_id mr) (rf_id f) t
   | Inl _ \<Rightarrow> rr_status row = ''running'' \<longrightarrow> (\<exists>row'. run_of t (rr_id run) = Some row'
        \<and> rr_status row' = ''failed'' \<and> rr_error_code row' \<noteq> []))"

definition names_comments :: "writer \<Rightarrow> bool" where
  "names_comments wr \<longleftrightarrow> (\<forall>q n. wr_create_discussion wr q n \<noteq> Inr []) \<and> (\<forall>q n. wr_create_note wr q n \<noteq> Inr [])"

definition finding_context :: "review_run \<Rightarrow> merge_request \<Rightarrow> review_finding \<Rightarrow> review_run \<Rightarrow> db \<Rightarrow> bool" where
  "finding_context run mr f row s \<longleftrightarrow> faults s = [] \<and> rf_id f \<noteq> 0 \<and> \<not> no_finding (rf_id f) s
     \<and> \<not> no_merge_request (mr_id mr) s \<and> rr_merge_request_id run = mr_id mr \<and> run_of s (rr_id run) = Some row"

lemma finding_context_actions:
  "only_actions s t \<Longrightarrow> finding_context run mr f row s \<Longrightarrow> finding_context run mr f row t"
  by (simp add: finding_context_def only_actions_same no_finding_def no_merge_request_def run_of_def)

lemma classifyWriteError_nonempty: "classifyWriteError (Some e) \<noteq> []"
  by (simp add: classifyWriteError_def)

text \<open>One rung of the ladder: the comment is posted and stored, the run fails, or the next rung is tried.\<close>

lemma rung_settles:
  assumes ctx: "finding_context run mr f row (ws_db w)" and pe: "perform wr run f key ty (callW c ans) classify w = (r, w1)"
    and go: "(case r of Inr d \<Rightarrow> persistDiscussion wr mr f d dt
      | Inl e \<Rightarrow> if p e then persistRunFailure wr run (classifyWriteError (Some e)) e else next_rung) w1 = (r', w')"
    and ans: "\<And>n. ans n \<noteq> Inr []"
    and next_rung: "\<And>e w1. \<not> p e \<Longrightarrow> finding_context run mr f row (ws_db w1) \<Longrightarrow> next_rung w1 = (r', w') \<Longrightarrow> finding_settled run mr f row r' (ws_db w')"
  shows "finding_settled run mr f row r' (ws_db w')"
proof -
  have c: "faults (ws_db w) = []" "rf_id f \<noteq> 0" "rr_merge_request_id run = mr_id mr" using ctx by (simp_all add: finding_context_def)
  have eff: "only_actions (ws_db w) (ws_db w1)"
    "\<forall>d. r = Inr d \<longrightarrow> (\<exists>n. ans n = Inr d) \<or> has_discussion (mr_id mr) (rf_id f) (ws_db w)"
    using perform_effect [OF pe c(1,2)] by (simp_all add: c(3))
  have ctx1: "finding_context run mr f row (ws_db w1)" by (rule finding_context_actions [OF eff(1) ctx])
  then have c1: "faults (ws_db w1) = []" "\<not> no_finding (rf_id f) (ws_db w1)" "\<not> no_merge_request (mr_id mr) (ws_db w1)"
    "run_of (ws_db w1) (rr_id run) = Some row" by (simp_all add: finding_context_def)
  show ?thesis
  proof (cases r)
    case (Inr d)
    show ?thesis
    proof (cases "d = []")
      case True
      with Inr eff(2) ans have "has_discussion (mr_id mr) (rf_id f) (ws_db w)" by blast
      then have "has_discussion (mr_id mr) (rf_id f) (ws_db w1)" using only_actions_same [OF eff(1)] by (simp add: has_discussion_def)
      with go Inr True show ?thesis by (auto simp: persistDiscussion_def retW_def finding_settled_def)
    next
      case False
      have "persistDiscussion wr mr f d dt w1 = (r', w')" using go Inr by simp
      from persistDiscussion_posts [OF this c1(1) c(2) False c1(2,3)] show ?thesis by (auto simp: finding_settled_def)
    qed
  next
    case (Inl e)
    show ?thesis
    proof (cases "p e")
      case True
      have "persistRunFailure wr run (classifyWriteError (Some e)) e w1 = (r', w')" using go Inl True by simp
      from persistRunFailure_fails [OF this c1(1) classifyWriteError_nonempty c1(4)] classifyWriteError_nonempty [of e]
      show ?thesis by (auto simp: finding_settled_def split: sum.splits)
    next
      case False
      with go Inl next_rung [OF False ctx1] show ?thesis by simp
    qed
  qed
qed

lemma post_note_settles:
  assumes "finding_context run mr f row (ws_db w)" and "names_comments wr"
    and "post_note wr run mr f pid body language w = (r, w')"
  shows "finding_settled run mr f row r (ws_db w')"
proof -
  obtain key ty req where go: "tryW (perform wr run f key ty (callW (CreateNote req) (wr_create_note wr req)) classifyWriteError)
      (\<lambda>r. case r of Inl e \<Rightarrow> persistRunFailure wr run (classifyWriteError (Some e)) e
        | Inr d \<Rightarrow> persistDiscussion wr mr f d ''note'') w = (r, w')"
    using assms(3) unfolding post_note_def performNoteAction_def Let_def by blast
  obtain x w1 where x: "perform wr run f key ty (callW (CreateNote req) (wr_create_note wr req)) classifyWriteError w = (x, w1)"
    by (cases "perform wr run f key ty (callW (CreateNote req) (wr_create_note wr req)) classifyWriteError w")
  show ?thesis
    by (rule rung_settles [OF assms(1) x, where p = "\<lambda>_. True" and next_rung = "retW ()" and dt = "''note''"])
      (use go x assms(2) in \<open>auto simp: tryW_def names_comments_def finding_settled_def retW_def split: sum.splits\<close>)
qed

lemma post_file_settles:
  assumes "finding_context run mr f row (ws_db w)" and "names_comments wr"
    and "post_file wr run mr v f body language dreq w = (r, w')"
  shows "finding_settled run mr f row r (ws_db w')"
proof -
  let ?call = "\<lambda>req. callW (CreateDiscussion req) (wr_create_discussion wr req)"
  obtain key ty req where go: "tryW (perform wr run f key ty (?call req) (classifyDiscussionError ''file''))
      (\<lambda>r. case r of Inr d \<Rightarrow> persistDiscussion wr mr f d ''file''
        | Inl e \<Rightarrow> if \<not> isPositionFailure e then persistRunFailure wr run (classifyWriteError (Some e)) e
            else post_note wr run mr f (cdr_project_id dreq) body language) w = (r, w')"
    using assms(3) unfolding post_file_def performDiscussionAction_def Let_def by blast
  obtain x w1 where x: "perform wr run f key ty (?call req) (classifyDiscussionError ''file'') w = (x, w1)"
    by (cases "perform wr run f key ty (?call req) (classifyDiscussionError ''file'') w")
  show ?thesis
    by (rule rung_settles [OF assms(1) x, where p = "\<lambda>e. \<not> isPositionFailure e" and dt = "''file''"
          and next_rung = "post_note wr run mr f (cdr_project_id dreq) body language"])
      (use go x assms(2) post_note_settles in \<open>auto simp: tryW_def names_comments_def\<close>)
qed

lemma post_diff_settles:
  assumes "finding_context run mr f row (ws_db w)" and "names_comments wr"
    and "post_diff wr run mr v f pid body language w = (r, w')"
  shows "finding_settled run mr f row r (ws_db w')"
proof -
  let ?call = "\<lambda>req. callW (CreateDiscussion req) (wr_create_discussion wr req)"
  obtain key ty req where go: "tryW (perform wr run f key ty (?call req) (classifyDiscussionError ''diff''))
      (\<lambda>r. case r of Inr d \<Rightarrow> persistDiscussion wr mr f d ''diff''
        | Inl e \<Rightarrow> if \<not> isPositionFailure e then persistRunFailure wr run (classifyWriteError (Some e)) e
            else post_file wr run mr v f body language req) w = (r, w')"
    using assms(3) unfolding post_diff_def performDiscussionAction_def Let_def by blast
  obtain x w1 where x: "perform wr run f key ty (?call req) (classifyDiscussionError ''diff'') w = (x, w1)"
    by (cases "perform wr run f key ty (?call req) (classifyDiscussionError ''diff'') w")
  show ?thesis
    by (rule rung_settles [OF assms(1) x, where p = "\<lambda>e. \<not> isPositionFailure e" and dt = "''diff''"
          and next_rung = "post_file wr run mr v f body language req"])
      (use go x assms(2) post_file_settles in \<open>auto simp: tryW_def names_comments_def\<close>)
qed


text \<open>Retries are bounded. A request is sent at least once and at most three times; it is sent again only after
  a failure, so at most the last of its calls succeeds, and the store is not touched in between.\<close>

theorem retryWrite_bounded:
  assumes "retryWrite wr (callW c ans) w = (r, w')"
  shows "\<exists>n. ws_db w' = ws_db w \<and> ws_calls w' = ws_calls w @ replicate n (c, False) @ (if isl r then [] else [(c, True)])
     \<and> 1 \<le> length (ws_calls w') - length (ws_calls w) \<and> length (ws_calls w') - length (ws_calls w) \<le> 3"
proof -
  from retry_write_loop_calls [OF assms [unfolded retryWrite_def]] obtain n where n: "ws_db w' = ws_db w"
    "ws_calls w' = ws_calls w @ replicate n (c, False) @ (if isl r then [] else [(c, True)])"
    "if isl r then 1 \<le> n \<and> n \<le> 3 else n \<le> 2" by (auto simp: maxWriteRetries_def split: if_splits)
  then have "1 \<le> length (ws_calls w') - length (ws_calls w)" "length (ws_calls w') - length (ws_calls w) \<le> 3"
    by (auto split: if_splits)
  with n(1,2) show ?thesis by blast
qed

subsection \<open>Examples\<close>

text \<open>A remote side that is busy at the first call, refuses positions and accepts file discussions.\<close>

definition sample_writer :: writer where
  "sample_writer = \<lparr>wr_configured = True,
     wr_create_discussion = (\<lambda>q n. if n = 0 then Inl \<lparr>we_net = False, we_status = Some 503, we_text = ''busy''\<rparr>
        else if po_position_type (cdr_position q) = ''text''
        then Inl \<lparr>we_net = False, we_status = Some 400, we_text = ''400 position is invalid''\<rparr> else Inr ''d1''),
     wr_create_note = (\<lambda>q n. Inr ''n1''), wr_resolve_discussion = (\<lambda>q n. Inr ()), wr_sleep = (\<lambda>d n. None),
     wr_view = (\<lambda>e. \<lparr>we_net = False, we_status = None, we_text = ''store''\<rparr>), wr_decode = (\<lambda>_. None),
     wr_concurrency = 1, wr_schedule = (\<lambda>fs. fs)\<rparr>"

definition sample_writer_db :: db where
  "sample_writer_db = sample_db\<lparr>review_findings := \<lparr>rows = [sample_range_finding], next_id = 6\<rparr>,
     mr_versions := \<lparr>rows = [sample_version], next_id = 2\<rparr>\<rparr>"

definition sample_write :: "(write_error + unit) \<times> wstate" where
  "sample_write = writeFinding sample_writer sample_running sample_mr sample_version 42 sample_range_finding
     \<lparr>ws_db = sample_writer_db, ws_calls = []\<rparr>"



definition sample_resolve :: resolve_discussion_request where
  "sample_resolve = \<lparr>rdr_project_id = 42, rdr_merge_request_iid = 7, rdr_discussion_id = ''d1'', rdr_resolved = True\<rparr>"

theorem retryWrite_bounded_witness:
  "\<exists>w'. retryWrite sample_writer (callW (ResolveDiscussion sample_resolve) (\<lambda>n. if n < 2 then Inl \<lparr>we_net = True, we_status = None, we_text = []\<rparr> else Inr ()))
      \<lparr>ws_db = empty_db, ws_calls = []\<rparr> = (Inr (), w') \<and> length (ws_calls w') \<le> 3"
proof -
  let ?c = "callW (ResolveDiscussion sample_resolve) (\<lambda>n. if n < 2 then Inl \<lparr>we_net = True, we_status = None, we_text = []\<rparr> else Inr ())"
  have "fst (retryWrite sample_writer ?c \<lparr>ws_db = empty_db, ws_calls = []\<rparr>) = Inr ()"
    by (simp add: retryWrite_def maxWriteRetries_def retry_write_loop.simps tryW_def callW_answer retW_def throwW_def
        isRetryableWriteError_def sample_writer_def numeral_eq_Suc)
  then obtain w' where w': "retryWrite sample_writer ?c \<lparr>ws_db = empty_db, ws_calls = []\<rparr> = (Inr (), w')" by (metis prod.collapse)
  from retryWrite_bounded [OF this] have "length (ws_calls w') \<le> 3" by auto
  with w' show ?thesis by blast
qed

end
