(* ===== verification/Engine_Processor.thy ===== *)
theory Engine_Processor
  imports Identity_Mappings Platform_Publish Scheduler Writer
begin

text \<open>
  From a claimed run to its comments: \<^verbatim>\<open>internal/reviewrun/engine_processor.go\<close>, \<^verbatim>\<open>internal/llm/persist.go\<close>, the write-back of
  both platforms (\<^verbatim>\<open>runtime_writeback.go\<close>) and its choice by the worker (\<^verbatim>\<open>cmd/worker/runtime.go\<close>). The input loader and the
  engine are interfaces of the processor: store programs, since other workers and operators use the store while
  they run. An outcome is that of the scheduler with the bundle, which only the write-back looks at; an empty result of a
  query is a nil slice, so an outcome without findings has none at all.
\<close>

subsection \<open>Storing a result\<close>

definition persistSummaryNoteFallback :: "review_run \<Rightarrow> review_result \<Rightarrow> unit dbm" where
  "persistSummaryNoteFallback run result =
     (if (case rs_summary_note result of None \<Rightarrow> True | Some body \<Rightarrow> trim_space body = []) then ret ()
      else tryM (InsertCommentAction \<lparr>cap_review_run_id = rr_id run, cap_review_finding_id = None, cap_action_type = ''summary_note'',
             cap_idempotency_key = ''run:'' @ itoa (rr_id run) @ '':parser_error_summary_note'', cap_status = ''pending''\<rparr>)
           (\<lambda>r. case r of Inl e \<Rightarrow> if is_duplicate_key_error e then ret () else throw e | Inr _ \<Rightarrow> ret ()))"

definition canonicalRunStatus :: "string \<Rightarrow> nat \<Rightarrow> string" where
  "canonicalRunStatus modelStatus findingCount =
     (if norm_lower modelStatus = ''parser_error'' then ''parser_error''
      else if findingCount > 0 then ''requested_changes'' else ''completed'')"

definition PersistReviewResult :: "(string \<Rightarrow> string) \<Rightarrow> review_run \<Rightarrow> merge_request \<Rightarrow> review_result \<Rightarrow> string list \<Rightarrow> string list \<Rightarrow>
    semantic_matcher option \<Rightarrow> (review_finding list \<times> string) dbm" where
  "PersistReviewResult hash run mr result reviewedPaths deletedPaths matcher =
     bindM (persistFindingsWithMatcher hash matcher run mr (rs_findings result) reviewedPaths deletedPaths) (\<lambda>_.
     bindM (if rs_status result = ''parser_error'' then persistSummaryNoteFallback run result else ret ()) (\<lambda>_.
     bindM (ListActiveFindingsByMR (mr_id mr)) (\<lambda>findings.
     let finalStatus = canonicalRunStatus (rs_status result) (length findings)
     in bindM (UpdateReviewRunStatus finalStatus [] None (rr_id run)) (\<lambda>_. ret (findings, finalStatus)))))"

subsection \<open>Parts of the processor\<close>

record run_scope =
  rsc_provider_route :: string
  rsc_platform :: string

definition runScopeFromJSON :: "(string \<Rightarrow> json option) \<Rightarrow> string option \<Rightarrow> run_scope" where
  "runScopeFromJSON decode raw =
     (case Option.bind (Option.bind (Option.bind raw decode) struct_value) (\<lambda>m. do {
        route \<leftarrow> str_of ''provider_route'' m; platform \<leftarrow> str_of ''platform'' m;
        Some \<lparr>rsc_provider_route = route, rsc_platform = platform\<rparr>}) of
        None \<Rightarrow> \<lparr>rsc_provider_route = [], rsc_platform = []\<rparr> | Some s \<Rightarrow> s)"

definition providerRouteFromScope :: "(string \<Rightarrow> json option) \<Rightarrow> string option \<Rightarrow> string" where
  "providerRouteFromScope decode raw = trim_space (rsc_provider_route (runScopeFromJSON decode raw))"

definition inferPlatformFromWebURL :: "string \<Rightarrow> string" where
  "inferPlatformFromWebURL webURL =
     (let lower = norm_lower webURL in
      if contains lower ''/pull/'' then ''github''
      else if contains lower ''/-/merge_requests/'' then ''gitlab'' else [])"

definition run_platform :: "(string \<Rightarrow> json option) \<Rightarrow> review_run \<Rightarrow> merge_request \<Rightarrow> string" where
  "run_platform decode run mr =
     or_else (normalizePlatform (rsc_platform (runScopeFromJSON decode (rr_scope_json run))))
       (or_else (inferPlatformFromWebURL (mr_web_url mr)) ''gitlab'')"

definition run_target :: "string \<Rightarrow> merge_request \<Rightarrow> project \<Rightarrow> gitlab_instance \<Rightarrow> review_target" where
  "run_target platform mr p i = \<lparr>rt_platform = platform, rt_url = mr_web_url mr, rt_repository = pr_path_with_namespace p,
     rt_project_id = pr_gitlab_project_id p, rt_change_number = mr_mr_iid mr, rt_base_url = gi_url i\<rparr>"

definition zero_llm_finding :: llm_finding where
  "zero_llm_finding = \<lparr>lf_category = [], lf_severity = [], lf_confidence = 0, lf_title = [], lf_body_markdown = [], lf_path = [],
     lf_anchor_kind = [], lf_old_line = None, lf_new_line = None, lf_range_start_kind = [], lf_range_start_old_line = None,
     lf_range_start_new_line = None, lf_range_end_kind = [], lf_range_end_old_line = None, lf_range_end_new_line = None,
     lf_anchor_snippet = [], lf_evidence = [], lf_suggested_patch = [], lf_canonical_key = [], lf_symbol = [],
     lf_trigger_condition = [], lf_impact = [], lf_introduced_by_this_change = False, lf_blind_spots = [],
     lf_no_finding_reason = []\<rparr>"

definition legacy_finding :: "publish_candidate \<Rightarrow> llm_finding" where
  "legacy_finding c = zero_llm_finding\<lparr>lf_category := ''review'',
     lf_severity := or_else (trim_space (pc_severity c)) ''medium'', lf_title := trim_space (pc_title c),
     lf_body_markdown := trim_space (pc_body c), lf_path := trim_space (cl_path (pc_location c)),
     lf_new_line := int32Ptr (cl_start_line (pc_location c)),
     lf_anchor_kind := (if trim_space (cl_path (pc_location c)) = [] then ''general'' else ''new_line'')\<rparr>"

definition legacyResultFromBundle :: "review_run \<Rightarrow> review_bundle \<Rightarrow> review_result" where
  "legacyResultFromBundle run b =
     \<lparr>rs_schema_version = rb_json_schema_version b, rs_review_run_id = itoa (rr_id run), rs_summary = trim_space (rb_markdown_summary b),
      rs_findings = map legacy_finding (filter (\<lambda>c. pc_kind c = ''finding'') (rb_publish_candidates b)), rs_status = rb_verdict b,
      rs_summary_note = None, rs_blind_spots = []\<rparr>"

definition scope_normalizePath :: "string \<Rightarrow> string" where
  "scope_normalizePath path = trim_left_set (trim_right_set (replace_all (trim_prefix (trim_space path) ''./'') [CHR 0x5C] ''/'') ''/'') ''/''"

definition reviewedScopeFromRequest :: "review_request \<Rightarrow> string list \<times> string list" where
  "reviewedScopeFromRequest request =
     (let named = filter (\<lambda>c. scope_normalizePath (ch_path c) \<noteq> []) (rvq_changes request)
      in (map (\<lambda>c. scope_normalizePath (ch_path c)) named,
          map (\<lambda>c. scope_normalizePath (ch_path c)) (filter (\<lambda>c. equal_fold (trim_space (ch_status c)) ''deleted'') named)))"

definition snapshot_version_id :: "platform_version \<Rightarrow> int" where
  "snapshot_version_id v =
     (case parse_int64 (trim_space (pv_platform_version_id v)) of None \<Rightarrow> 0 | Some i \<Rightarrow> if i > 0 then i else 0)"

definition persistMRVersionFromInput :: "int \<Rightarrow> platform_version \<Rightarrow> version_context \<Rightarrow> unit dbm" where
  "persistMRVersionFromInput mergeRequestID snapshotVersion version =
     (if mergeRequestID = 0 \<or> trim_space (vc_head_sha version) = [] then ret ()
      else tryM (GetLatestMRVersion mergeRequestID) (\<lambda>latest.
        let versionID = (let i = snapshot_version_id snapshotVersion in
              if i \<le> 0 then (case latest of Inr v \<Rightarrow> if mv_gitlab_version_id v > 0 then mv_gitlab_version_id v else i | Inl _ \<Rightarrow> i) else i)
        in if (case latest of Inl _ \<Rightarrow> False | Inr v \<Rightarrow> mv_gitlab_version_id v = versionID
             \<and> trim_space (mv_head_sha v) = trim_space (vc_head_sha version) \<and> trim_space (mv_base_sha v) = trim_space (vc_base_sha version)
             \<and> trim_space (mv_start_sha v) = trim_space (vc_start_sha version)
             \<and> trim_space (mv_patch_id_sha v) = trim_space (vc_patch_id_sha version)) then ret ()
           else bindM (InsertMRVersion mergeRequestID versionID (trim_space (vc_base_sha version)) (trim_space (vc_start_sha version))
             (trim_space (vc_head_sha version)) (trim_space (vc_patch_id_sha version))) (\<lambda>_. ret ())))"

subsection \<open>Processing\<close>

record write_back =
  wb_write :: "review_run \<Rightarrow> review_finding list \<Rightarrow> unit dbm"
  wb_write_bundle :: "(review_run \<Rightarrow> review_bundle \<Rightarrow> unit dbm) option"

record engine_processor =
  eng_load :: "review_target \<Rightarrow> string \<Rightarrow> built_input dbm"
  eng_run :: "built_input \<Rightarrow> run_options \<Rightarrow> review_bundle dbm"
  eng_writeback :: "write_back option"
  eng_default_reviewer_packs :: "string list"
  eng_default_advisor_route :: string
  eng_coverage_threshold :: rat
  eng_decode :: "string \<Rightarrow> json option"
  eng_hash :: "string \<Rightarrow> string"

record engine_outcome = process_outcome +
  eo_review_bundle :: "review_bundle option"

definition process_options :: "engine_processor \<Rightarrow> string \<Rightarrow> run_options" where
  "process_options p route = \<lparr>ro_output_mode = ''both'', ro_publish_mode = ''full-review-comments'',
     ro_reviewer_packs = eng_default_reviewer_packs p, ro_route_override = route, ro_advisor_route = eng_default_advisor_route p,
     ro_coverage_threshold = eng_coverage_threshold p\<rparr>"

definition write_comments :: "write_back option \<Rightarrow> review_run \<Rightarrow> review_bundle \<Rightarrow> review_finding list \<Rightarrow> unit dbm" where
  "write_comments wb run bundle findings = (case wb of
     None \<Rightarrow> ret ()
   | Some w \<Rightarrow> bindM (GetReviewRun (rr_id run)) (\<lambda>updated. case wb_write_bundle w of
       Some wr \<Rightarrow> wr updated bundle | None \<Rightarrow> wb_write w updated findings))"

definition review_run_input :: "engine_processor \<Rightarrow> review_run \<Rightarrow> merge_request \<Rightarrow> project \<Rightarrow> gitlab_instance \<Rightarrow> built_input dbm" where
  "review_run_input p run mr pr i =
     eng_load p (run_target (run_platform (eng_decode p) run mr) mr pr i) (providerRouteFromScope (eng_decode p) (rr_scope_json run))"

definition store_review :: "engine_processor \<Rightarrow> review_run \<Rightarrow> merge_request \<Rightarrow> built_input \<Rightarrow> review_bundle \<Rightarrow> engine_outcome dbm" where
  "store_review p run mr input bundle =
     bindM (persistMRVersionFromInput (mr_id mr) (psn_version (ri_snapshot input)) (rvq_version (ri_request input))) (\<lambda>_.
     bindM (PersistReviewResult (eng_hash p) run mr (legacyResultFromBundle run bundle)
              (fst (reviewedScopeFromRequest (ri_request input))) (snd (reviewedScopeFromRequest (ri_request input))) None) (\<lambda>(findings, finalStatus).
     bindM (write_comments (eng_writeback p) run bundle findings) (\<lambda>_.
     ret \<lparr>po_status = finalStatus, po_provider_latency_ms = 0, po_provider_tokens_total = 0, po_review_findings = (if findings = [] then None else Some findings),
          eo_review_bundle = Some bundle\<rparr>)))"

definition ProcessRun :: "engine_processor \<Rightarrow> review_run \<Rightarrow> engine_outcome dbm" where
  "ProcessRun p run =
     bindM (GetMergeRequest (rr_merge_request_id run)) (\<lambda>mr.
     bindM (GetProject (rr_project_id run)) (\<lambda>pr.
     bindM (GetGitlabInstance (pr_gitlab_instance_id pr)) (\<lambda>i.
     bindM (review_run_input p run mr pr i) (\<lambda>input.
     bindM (persistIdentityMappingsFromInput run input) (\<lambda>_.
     bindM (eng_run p input (process_options p (providerRouteFromScope (eng_decode p) (rr_scope_json run)))) (\<lambda>bundle.
     store_review p run mr input bundle))))))"

subsection \<open>Write-back\<close>

definition IsGitHubRuntimeRun :: "(string \<Rightarrow> json option) \<Rightarrow> review_run \<Rightarrow> bool" where
  "IsGitHubRuntimeRun decode run = (case rr_scope_json run of
     None \<Rightarrow> False
   | Some t \<Rightarrow> t \<noteq> [] \<and> (case Option.bind (Option.bind (decode t) struct_value) (str_of ''platform'') of
       None \<Rightarrow> False | Some platform \<Rightarrow> platform = ''github''))"

text \<open>The calls of a client made before are part of what it answers by.\<close>

definition legacy_write :: "writer \<Rightarrow> (remote_call \<times> bool) list \<Rightarrow> review_run \<Rightarrow> review_finding list \<Rightarrow> unit dbm" where
  "legacy_write wr calls run findings s = (case Write wr run findings \<lparr>ws_db = s, ws_calls = calls\<rparr> of
     (r, w) \<Rightarrow> (case r of Inl e \<Rightarrow> Inl (ErrMsg (we_text e)) | Inr _ \<Rightarrow> Inr (), ws_db w))"

record gitlab_runtime =
  gr_legacy :: "writer option"
  gr_store :: bool
  gr_publisher :: "gitlab_client option"
  gr_calls :: "(remote_call \<times> bool) list"

definition gitlab_Write :: "gitlab_runtime \<Rightarrow> review_run \<Rightarrow> review_finding list \<Rightarrow> unit dbm" where
  "gitlab_Write g run findings = (case gr_legacy g of
     None \<Rightarrow> throw (ErrMsg ''gitlab runtime writeback: legacy writer is required'')
   | Some wr \<Rightarrow> legacy_write wr (gr_calls g) run findings)"

definition publish_to :: "(string \<Rightarrow> json option) \<Rightarrow> gitlab_client option \<Rightarrow> review_bundle \<Rightarrow> unit dbm" where
  "publish_to decode client bundle = (case client of
     None \<Rightarrow> throw (ErrMsg ''gitlab runtime writeback: publisher is required'')
   | Some cl \<Rightarrow> (case fst (gitlab_Publish decode (Some cl) bundle []) of None \<Rightarrow> ret () | Some _ \<Rightarrow> throw (ErrMsg ''gitlab publisher'')))"

definition gitlab_WriteBundle :: "(string \<Rightarrow> json option) \<Rightarrow> gitlab_runtime \<Rightarrow> review_run \<Rightarrow> review_bundle \<Rightarrow> unit dbm" where
  "gitlab_WriteBundle decode g run bundle =
     (if equal_fold (trim_space (rr_status run)) ''parser_error'' then
        (case gr_legacy g of
           None \<Rightarrow> throw (ErrMsg ''gitlab runtime writeback: legacy writer is required for parser_error'')
         | Some wr \<Rightarrow> legacy_write wr (gr_calls g) run [])
      else case gr_legacy g of
        Some wr \<Rightarrow>
          if gr_store g \<and> rr_id run \<noteq> 0
          then bindM (ListFindingsByRun (rr_id run)) (\<lambda>findings. legacy_write wr (gr_calls g) run findings)
          else publish_to decode (gr_publisher g) bundle
      | None \<Rightarrow> publish_to decode (gr_publisher g) bundle)"

definition github_Write :: "github_client option \<Rightarrow> review_run \<Rightarrow> review_finding list \<Rightarrow> unit dbm" where
  "github_Write client run findings = throw (ErrMsg (case client of
     None \<Rightarrow> ''github runtime writeback: publisher is required''
   | Some _ \<Rightarrow> ''github runtime writeback: legacy findings write is unsupported; bundle writeback is required''))"

definition github_WriteBundle :: "github_client option \<Rightarrow> github_call calls \<Rightarrow> review_run \<Rightarrow> review_bundle \<Rightarrow> unit dbm" where
  "github_WriteBundle client calls run bundle = (case client of
     None \<Rightarrow> throw (ErrMsg ''github runtime writeback: publisher is required'')
   | Some cl \<Rightarrow> (case fst (github_Publish (Some cl) bundle calls) of
       None \<Rightarrow> ret () | Some _ \<Rightarrow> throw (ErrMsg ''github publisher'')))"

text \<open>The router of the worker.\<close>

record platform_writeback =
  pw_gitlab :: "gitlab_runtime option"
  pw_github :: "github_client option option"
  pw_github_calls :: "github_call calls"

definition no_gitlab :: go_error where
  "no_gitlab = ErrMsg ''no gitlab writer configured for runtime writeback''"

definition no_github :: go_error where
  "no_github = ErrMsg ''no github writer configured for runtime writeback''"

definition router_Write :: "(string \<Rightarrow> json option) \<Rightarrow> platform_writeback \<Rightarrow> review_run \<Rightarrow> review_finding list \<Rightarrow> unit dbm" where
  "router_Write decode w run findings =
     (if IsGitHubRuntimeRun decode run then
        (case pw_github w of None \<Rightarrow> throw no_github | Some c \<Rightarrow> github_Write c run findings)
      else case pw_gitlab w of None \<Rightarrow> throw no_gitlab | Some g \<Rightarrow> gitlab_Write g run findings)"

definition router_WriteBundle :: "(string \<Rightarrow> json option) \<Rightarrow> platform_writeback \<Rightarrow> review_run \<Rightarrow> review_bundle \<Rightarrow> unit dbm" where
  "router_WriteBundle decode w run bundle =
     (if rt_platform (rb_target bundle) = ''github'' \<or> IsGitHubRuntimeRun decode run then
        (case pw_github w of None \<Rightarrow> throw no_github | Some c \<Rightarrow> github_WriteBundle c (pw_github_calls w) run bundle)
      else case pw_gitlab w of None \<Rightarrow> throw no_gitlab | Some g \<Rightarrow> gitlab_WriteBundle decode g run bundle)"

definition newPlatformRuntimeWriteback :: "(string \<Rightarrow> json option) \<Rightarrow> platform_writeback \<Rightarrow> write_back option" where
  "newPlatformRuntimeWriteback decode w =
     (if pw_gitlab w = None \<and> pw_github w = None then None
      else Some \<lparr>wb_write = router_Write decode w, wb_write_bundle = Some (router_WriteBundle decode w)\<rparr>)"

definition run_for_writeback :: "review_run \<Rightarrow> engine_outcome \<Rightarrow> review_run \<Rightarrow> review_run" where
  "run_for_writeback run outcome loaded =
     (let r = (if rr_id loaded = 0 then run else loaded);
          r1 = (if rr_status r = [] \<or> rr_status r = ''running'' \<or> rr_status r = ''pending'' then r\<lparr>rr_status := po_status outcome\<rparr> else r)
      in if rr_status r1 = [] then r1\<lparr>rr_status := ''completed''\<rparr> else r1)"

definition wrapProcessorWithWriteback :: "write_back option \<Rightarrow> (review_run \<Rightarrow> engine_outcome dbm) \<Rightarrow> review_run \<Rightarrow> engine_outcome dbm" where
  "wrapProcessorWithWriteback wb processor = (case wb of
     None \<Rightarrow> processor
   | Some w \<Rightarrow> (\<lambda>run.
       bindM (processor run) (\<lambda>outcome.
       bindM (GetReviewRun (rr_id run)) (\<lambda>loaded.
       let r = run_for_writeback run outcome loaded;
           findings = (case po_review_findings outcome of None \<Rightarrow> [] | Some fs \<Rightarrow> fs)
       in bindM (case (wb_write_bundle w, eo_review_bundle outcome) of
              (Some wr, Some bundle) \<Rightarrow> wr r bundle
            | _ \<Rightarrow> wb_write w r findings) (\<lambda>_. ret outcome)))))"

text \<open>What the scheduler sees of it.\<close>

definition scheduled :: "(review_run \<Rightarrow> engine_outcome dbm) \<Rightarrow> review_run \<Rightarrow> process_outcome dbm" where
  "scheduled processor run = bindM (processor run) (\<lambda>outcome. ret (process_outcome.truncate outcome))"

subsection \<open>What storing a review keeps\<close>

context store_rel
begin

lemma keeps_reads:
  "keeps R (GetGitlabInstanceByURL u)" "keeps R (GetProjectByGitlabID i p)" "keeps R (GetMergeRequestByProjectMR p m)"
  "keeps R (GetMergeRequest i)" "keeps R (GetReviewRunByIdempotencyKey k)" "keeps R (GetHookEventByDeliveryKey d)"
  "keeps R (GetProjectPolicy i)" "keeps R (GetReviewRun i)" "keeps R (GetFindingByMRAndDiscussionID m d)"
  "keeps R (GetGitlabDiscussionByMergeRequestAndFinding m f)" "keeps R (ListActiveFindingsByMR m)"
  "keeps R (ListFindingsByRun i)" "keeps R GetNextClaimableReviewRun" "keeps R (GetProject i)" "keeps R (GetGitlabInstance i)"
  "keeps R (GetLatestMRVersion i)"
  unfolding GetGitlabInstanceByURL_def GetProjectByGitlabID_def GetMergeRequestByProjectMR_def GetMergeRequest_def
    GetReviewRunByIdempotencyKey_def GetHookEventByDeliveryKey_def GetProjectPolicy_def GetReviewRun_def
    GetFindingByMRAndDiscussionID_def GetGitlabDiscussionByMergeRequestAndFinding_def ListActiveFindingsByMR_def
    ListFindingsByRun_def GetNextClaimableReviewRun_def GetProject_def GetGitlabInstance_def GetLatestMRVersion_def
  by (auto intro!: keeps_query_row keeps_query_first keeps_query_all keeps_stmt simp: R_refl split: option.splits)

end

text \<open>The contract between a relation on the store and the processor: what each of its writes keeps, the processor keeps.
  The status is left open, since not every relation allows it to change.\<close>

locale result_store = store_rel R for R +
  assumes S_findings: "keeps R (UpdateFindingState st m i)" "keeps R (UpdateFindingLastSeen l i)"
      "keeps R (UpdateFindingRelocation rl i)" "keeps R (InsertReviewFinding f)"
    and S_action: "keeps R (InsertCommentAction q)"
    and S_version: "keeps R (InsertMRVersion mi vi ba sa ha pa)"
    and S_identity: "keeps R (UpsertIdentityMapping a)"
begin

lemma keeps_persistFindings: "keeps R (persistFindingsWithMatcher hash matcher run mr findings reviewedPaths deletedPaths)"
proof -
  have i: "keeps R (insertFinding run mr f)" for f
    unfolding insertFinding_def by (rule S_findings)
  have m: "keeps R (matchExistingFindingWithMatcher matcher run ex f)" for ex f
    unfolding matchExistingFindingWithMatcher_def by (auto intro!: keeps_rules S_findings split: option.split)
  have one: "keeps R (persist_one matcher run mr ex f ids)" for ex f ids
    unfolding persist_one_def Let_def by (auto intro!: keeps_rules S_findings i m)
  have all: "keeps R (persist_all matcher run mr ex ps ids)" for ex ps ids
    by (induction ps arbitrary: ids) (auto intro!: keeps_rules one)
  have st: "keeps R (settle_missing reviewedPaths deletedPaths ids c)" for ids c
    unfolding settle_missing_def by (auto intro!: keeps_rules S_findings split: sum.split option.split)
  show ?thesis
    unfolding persistFindingsWithMatcher_def
    by (auto intro!: keeps_rules keeps_reads all st split: sum.split)
qed

lemma keeps_summary_note: "keeps R (persistSummaryNoteFallback run result)"
  unfolding persistSummaryNoteFallback_def by (auto intro!: keeps_rules S_action split: sum.split option.split)

lemma keeps_persistMRVersion: "keeps R (persistMRVersionFromInput i sv v)"
  unfolding persistMRVersionFromInput_def Let_def by (auto intro!: keeps_rules keeps_reads S_version split: sum.split)

lemma keeps_persistIdentity: "keeps R (persistIdentityMappingsFromInput run input)"
  unfolding persistIdentityMappingsFromInput_def Let_def
  by (auto intro!: keeps_ret keeps_bindM S_identity simp del: bindM_ret split: prod.splits)

lemma keeps_PersistReviewResult:
  assumes "\<And>st c d. keeps R (UpdateReviewRunStatus st c d (rr_id run))"
  shows "keeps R (PersistReviewResult hash run mr result reviewedPaths deletedPaths matcher)"
  unfolding PersistReviewResult_def Let_def
  by (auto intro!: keeps_bindM keeps_ret keeps_persistFindings keeps_summary_note keeps_reads assms)

lemma keeps_ProcessRun:
  assumes "\<And>st c d. keeps R (UpdateReviewRunStatus st c d (rr_id run))"
    and "\<And>t r. keeps R (eng_load p t r)" and "\<And>i opts. keeps R (eng_run p i opts)"
    and "\<And>w r b fs. eng_writeback p = Some w \<Longrightarrow> keeps R (wb_write w r fs)"
    and "\<And>w wr r b. eng_writeback p = Some w \<Longrightarrow> wb_write_bundle w = Some wr \<Longrightarrow> keeps R (wr r b)"
  shows "keeps R (ProcessRun p run)"
proof -
  have "keeps R (write_comments (eng_writeback p) run b fs)" for b fs
    unfolding write_comments_def using assms(4,5) by (auto intro!: keeps_ret keeps_bindM keeps_reads split: option.split)
  then show ?thesis
    unfolding ProcessRun_def review_run_input_def store_review_def
    by (auto intro!: keeps_bindM keeps_ret keeps_reads keeps_persistIdentity keeps_persistMRVersion keeps_PersistReviewResult
        assms(1-3) simp: case_prod_beta)
qed

end

text \<open>A relation on the runs alone is kept by every write to another table.\<close>

locale runs_rel = store_rel R for R +
  assumes R_runs: "review_runs t = review_runs s \<Longrightarrow> R s t"
begin

lemma keeps_runs_exec: "(\<And>s. review_runs (f s) = review_runs s) \<Longrightarrow> keeps R (exec f)"
  by (intro keeps_exec R_runs)

lemma keeps_runs_stmt: "(\<And>s. review_runs (snd (f s)) = review_runs s) \<Longrightarrow> keeps R (stmt f)"
  by (intro keeps_stmt R_runs)

lemma keeps_other_tables:
  "keeps R (UpdateFindingState st m i)" "keeps R (UpdateFindingLastSeen l i)" "keeps R (UpdateFindingRelocation rl i)"
  "keeps R (InsertReviewFinding f)" "keeps R (InsertCommentAction q)" "keeps R (InsertMRVersion mi vi ba sa ha pa)"
  "keeps R (UpsertIdentityMapping a)" "keeps R (UpdateFindingDiscussionID d i)" "keeps R (UpdateGitlabDiscussionResolved b i)"
  "keeps R (UpdateGitlabDiscussionSupersededBy x i)" "keeps R (InsertGitlabDiscussion fi mi di ty b)"
  "keeps R (UpdateCommentActionStatus st code detail lat n i)"
  unfolding UpdateFindingState_def UpdateFindingLastSeen_def UpdateFindingRelocation_def InsertReviewFinding_def
    InsertCommentAction_def InsertMRVersion_def UpsertIdentityMapping_def update_findings_def UpdateFindingDiscussionID_def
    UpdateGitlabDiscussionResolved_def UpdateGitlabDiscussionSupersededBy_def InsertGitlabDiscussion_def
    UpdateCommentActionStatus_def update_discussion_def
  by (auto intro!: keeps_runs_exec keeps_runs_stmt simp: insert_into_def bindM_def ret_def split: option.splits)

end

sublocale runs_rel \<subseteq> result_store R
  by unfold_locales (rule keeps_other_tables)+

text \<open>Storing a review leaves the runs alone, but for the status of its own run.\<close>

definition runs_alone :: "db \<Rightarrow> db \<Rightarrow> bool" where
  "runs_alone s t \<longleftrightarrow> review_runs t = review_runs s"

interpretation ralone: runs_rel runs_alone
  by unfold_locales (simp_all add: runs_alone_def)

subsection \<open>The status of a reviewed run\<close>

definition reviewed_row :: "string \<Rightarrow> time \<Rightarrow> review_run \<Rightarrow> review_run" where
  "reviewed_row status now r = r\<lparr>rr_status := status, rr_error_code := [], rr_error_detail := None, rr_updated_at := now\<rparr>"

lemma UpdateReviewRunStatus_runs:
  assumes "UpdateReviewRunStatus status [] None i s = (Inr (), t)"
  shows "\<exists>now. run_of t i = map_option (reviewed_row status now) (run_of s i)"
    and "review_findings t = review_findings s"
proof -
  from assms have "\<exists>fs. t = s\<lparr>faults := fs, review_runs := update_rows (\<lambda>r. rr_id r = i) (reviewed_row status (clock s)) (review_runs s)\<rparr>"
    by (auto simp: UpdateReviewRunStatus_def discard_def bindM_def update_runs_def ret_def reviewed_row_def [abs_def]
        elim!: stmt_cases intro!: exI [of _ "tl (faults s)"] split: sum.splits prod.splits)
  then obtain fs where t: "t = s\<lparr>faults := fs, review_runs := update_rows (\<lambda>r. rr_id r = i) (reviewed_row status (clock s)) (review_runs s)\<rparr>" ..
  have "run_of t i = map_option (\<lambda>r. if rr_id r = i then reviewed_row status (clock s) r else r) (run_of s i)"
    unfolding t run_of_def by (simp add: find_row_update_rows reviewed_row_def)
  also have "\<dots> = map_option (reviewed_row status (clock s)) (run_of s i)"
    using run_of_mem [of s i] by (cases "run_of s i") auto
  finally show "\<exists>now. run_of t i = map_option (reviewed_row status now) (run_of s i)" ..
  show "review_findings t = review_findings s" unfolding t by simp
qed

lemma ListActive_result:
  assumes "ListActiveFindingsByMR i s = (Inr fs, t)"
  shows "fs = active_findings i t \<and> review_runs t = review_runs s"
  using assms unfolding ListActiveFindingsByMR_def query_all_def active_findings_def by (rule stmt_cases) auto

lemma PersistReviewResult_outcome:
  assumes "PersistReviewResult hash run mr result rp dp matcher s = (Inr (fs, st), t)"
  shows "st = canonicalRunStatus (rs_status result) (length fs) \<and> fs = active_findings (mr_id mr) t
    \<and> (\<exists>now. run_of t (rr_id run) = map_option (reviewed_row st now) (run_of s (rr_id run)))"
proof -
  from assms obtain s1 where s1: "persistFindingsWithMatcher hash matcher run mr (rs_findings result) rp dp s = (Inr (), s1)"
    "bindM (if rs_status result = ''parser_error'' then persistSummaryNoteFallback run result else ret ()) (\<lambda>_.
      bindM (ListActiveFindingsByMR (mr_id mr)) (\<lambda>findings.
      bindM (UpdateReviewRunStatus (canonicalRunStatus (rs_status result) (length findings)) [] None (rr_id run))
       (\<lambda>_. ret (findings, canonicalRunStatus (rs_status result) (length findings))))) s1 = (Inr (fs, st), t)"
    unfolding PersistReviewResult_def Let_def by (rule bindM_elim) simp
  from s1(2) obtain s2 where s2: "(if rs_status result = ''parser_error'' then persistSummaryNoteFallback run result else ret ()) s1 = (Inr (), s2)"
    "bindM (ListActiveFindingsByMR (mr_id mr)) (\<lambda>findings.
      bindM (UpdateReviewRunStatus (canonicalRunStatus (rs_status result) (length findings)) [] None (rr_id run))
       (\<lambda>_. ret (findings, canonicalRunStatus (rs_status result) (length findings)))) s2 = (Inr (fs, st), t)"
    by (rule bindM_elim) simp
  from s2(2) obtain fs' s3 where s3: "ListActiveFindingsByMR (mr_id mr) s2 = (Inr fs', s3)"
    "bindM (UpdateReviewRunStatus (canonicalRunStatus (rs_status result) (length fs')) [] None (rr_id run))
       (\<lambda>_. ret (fs', canonicalRunStatus (rs_status result) (length fs'))) s3 = (Inr (fs, st), t)"
    by (rule bindM_elim)
  from s3(2) have u: "UpdateReviewRunStatus st [] None (rr_id run) s3 = (Inr (), t)" "fs' = fs"
    "st = canonicalRunStatus (rs_status result) (length fs)"
    by (auto elim!: bindM_elim simp: ret_def)
  have "runs_alone s s1" using keepsD [OF ralone.keeps_persistFindings s1(1)] .
  moreover have "runs_alone s1 s2"
    using s2(1) keepsD [OF ralone.keeps_summary_note [of run result], of s1] by (auto simp: ret_def runs_alone_def split: if_splits)
  ultimately have "run_of s3 (rr_id run) = run_of s (rr_id run)"
    using ListActive_result [OF s3(1)] by (simp add: run_of_def runs_alone_def)
  with UpdateReviewRunStatus_runs [OF u(1)] ListActive_result [OF s3(1)] u(2,3) show ?thesis
    by (simp add: active_findings_def)
qed

lemma canonicalRunStatus_cases:
  "canonicalRunStatus v n \<in> {''parser_error'', ''requested_changes'', ''completed''}"
  by (simp add: canonicalRunStatus_def)

lemma store_review_cases:
  assumes "store_review p run mr input b s = (Inr outcome, t)" and "eng_writeback p = None"
  obtains s1 fs where "persistMRVersionFromInput (mr_id mr) (psn_version (ri_snapshot input)) (rvq_version (ri_request input)) s = (Inr (), s1)"
    and "PersistReviewResult (eng_hash p) run mr (legacyResultFromBundle run b)
       (fst (reviewedScopeFromRequest (ri_request input))) (snd (reviewedScopeFromRequest (ri_request input))) None s1
      = (Inr (fs, po_status outcome), t)"
    and "eo_review_bundle outcome = Some b" and "po_review_findings outcome = (if fs = [] then None else Some fs)"
  using assms(1) unfolding store_review_def
proof (elim bindM_elim)
  fix u s1 x s2
  assume v: "persistMRVersionFromInput (mr_id mr) (psn_version (ri_snapshot input)) (rvq_version (ri_request input)) s = (Inr u, s1)"
    and r: "PersistReviewResult (eng_hash p) run mr (legacyResultFromBundle run b)
       (fst (reviewedScopeFromRequest (ri_request input))) (snd (reviewedScopeFromRequest (ri_request input))) None s1 = (Inr x, s2)"
    and out: "(case x of (findings, finalStatus) \<Rightarrow> bindM (write_comments (eng_writeback p) run b findings) (\<lambda>_.
     ret \<lparr>po_status = finalStatus, po_provider_latency_ms = 0, po_provider_tokens_total = 0,
          po_review_findings = (if findings = [] then None else Some findings), eo_review_bundle = Some b\<rparr>)) s2 = (Inr outcome, t)"
  obtain fs st where x: "x = (fs, st)" by (cases x)
  from out have "outcome = \<lparr>po_status = st, po_provider_latency_ms = 0, po_provider_tokens_total = 0,
          po_review_findings = (if fs = [] then None else Some fs), eo_review_bundle = Some b\<rparr>" "s2 = t"
    by (simp_all add: x write_comments_def assms(2) ret_def)
  with v r x that show thesis by simp
qed

lemma ProcessRun_store:
  assumes "ProcessRun p run s = (Inr outcome, t)"
  obtains mr input b s1 where "store_review p run mr input b s1 = (Inr outcome, t)"
  using assms unfolding ProcessRun_def by (elim bindM_elim)

lemma store_review_status:
  assumes "store_review p run mr input b s = (Inr outcome, t)" and "eng_writeback p = None"
  shows "po_status outcome = canonicalRunStatus (rb_verdict b) (length (active_findings (mr_id mr) t))
    \<and> po_review_findings outcome = (if active_findings (mr_id mr) t = [] then None else Some (active_findings (mr_id mr) t))
    \<and> (\<exists>now. run_of t (rr_id run) = map_option (reviewed_row (po_status outcome) now) (run_of s (rr_id run)))"
  using assms
proof (rule store_review_cases)
  fix s1 fs
  assume v: "persistMRVersionFromInput (mr_id mr) (psn_version (ri_snapshot input)) (rvq_version (ri_request input)) s = (Inr (), s1)"
    and r: "PersistReviewResult (eng_hash p) run mr (legacyResultFromBundle run b)
       (fst (reviewedScopeFromRequest (ri_request input))) (snd (reviewedScopeFromRequest (ri_request input))) None s1
      = (Inr (fs, po_status outcome), t)"
    and f: "po_review_findings outcome = (if fs = [] then None else Some fs)"
  have "run_of s1 (rr_id run) = run_of s (rr_id run)"
    using keepsD [OF ralone.keeps_persistMRVersion v] by (simp add: runs_alone_def run_of_def)
  moreover have "rs_status (legacyResultFromBundle run b) = rb_verdict b" by (simp add: legacyResultFromBundle_def)
  moreover note PersistReviewResult_outcome [OF r]
  ultimately show ?thesis using f by metis
qed

text \<open>C9 (status of a reviewed run). Storing a review gives its run the status of the outcome: parser error, changes requested when
  some finding of the merge request is still active, completed otherwise. The row is overwritten whatever its
  status had become during the review, that of a cancelled run included, and nothing else of it but error,
  detail and time of update changes: in particular the time of completion is not set.\<close>

theorem reviewed_run_status:
  assumes "store_review p run mr input b s = (Inr outcome, t)" and "eng_writeback p = None"
    and "run_of s (rr_id run) = Some x"
  shows "\<exists>now. run_of t (rr_id run) = Some (reviewed_row (po_status outcome) now x)
    \<and> po_status outcome = (if norm_lower (rb_verdict b) = ''parser_error'' then ''parser_error''
         else if active_findings (mr_id mr) t \<noteq> [] then ''requested_changes'' else ''completed'')"
  using store_review_status [OF assms(1,2)] assms(3) by (auto simp: canonicalRunStatus_def)

subsection \<open>The verdict is not stored\<close>

lemma PersistReviewResult_verdict:
  assumes "norm_lower v \<noteq> ''parser_error''" and "norm_lower v' \<noteq> ''parser_error''"
  shows "PersistReviewResult hash run mr (r\<lparr>rs_status := v\<rparr>) rp dp matcher = PersistReviewResult hash run mr (r\<lparr>rs_status := v'\<rparr>) rp dp matcher"
proof -
  have "norm_lower ''parser_error'' = ''parser_error''" by code_simp
  with assms have "v \<noteq> ''parser_error''" "v' \<noteq> ''parser_error''" by auto
  with assms show ?thesis by (simp add: PersistReviewResult_def canonicalRunStatus_def)
qed


subsection \<open>Versions of a pull request\<close>

text \<open>The second push of a pull request. A snapshot of GitHub has no version number, so every version of a pull request
  would be stored as version 0: once one is stored, a review of another head fails on the unique key of the
  versions, whatever the review itself says.\<close>

theorem second_version_refused:
  assumes "faults s = []" and "GetLatestMRVersion i s = (Inr v, s)" and "mv_gitlab_version_id v = 0" and "i \<noteq> 0"
    and "trim_space (pv_platform_version_id sv) = []" and "trim_space (vc_head_sha version) \<noteq> []"
    and "trim_space (mv_head_sha v) \<noteq> trim_space (vc_head_sha version)"
  shows "persistMRVersionFromInput i sv version s = (Inl ErrDuplicateKey, s)"
proof -
  have "snapshot_version_id sv = 0" using assms(5) by (simp add: snapshot_version_id_def parse_int64_def)
  moreover have "v \<in> set (rows (mr_versions s)) \<and> mv_merge_request_id v = i"
  proof -
    obtain vs where "latest_by mv_created_at (filter (\<lambda>v. mv_merge_request_id v = i) (rows (mr_versions s))) = v # vs"
      using assms(1,2) by (auto simp: GetLatestMRVersion_def query_first_def stmt_ok split: list.splits)
    then have "v \<in> set (latest_by mv_created_at (filter (\<lambda>v. mv_merge_request_id v = i) (rows (mr_versions s))))" by simp
    then show ?thesis by (simp add: latest_by_def)
  qed
  then have "find_row (\<lambda>u. mv_merge_request_id u = i \<and> mv_gitlab_version_id u = 0) (mr_versions s) \<noteq> None"
    using assms(3) by (auto simp: find_row_None)
  ultimately show ?thesis
    using assms by (simp add: persistMRVersionFromInput_def Let_def tryM_def bindM_def InsertMRVersion_def stmt_ok)
qed

subsection \<open>A failed write-back\<close>

context writer_store
begin

lemma keeps_legacy_write: "keeps R (legacy_write wr calls run fs)"
proof (rule keepsI)
  fix s r t
  assume "legacy_write wr calls run fs s = (r, t)"
  then obtain u w where w: "Write wr run fs \<lparr>ws_db = s, ws_calls = calls\<rparr> = (u, w)" "t = ws_db w"
    by (auto simp: legacy_write_def split: prod.splits)
  show "R s t" using Write_keeps [OF w(1)] w(2) by simp
qed

lemma keeps_router: "keeps R (router_WriteBundle decode w run b)" "keeps R (router_Write decode w run fs)"
  unfolding router_WriteBundle_def router_Write_def github_WriteBundle_def github_Write_def gitlab_WriteBundle_def gitlab_Write_def publish_to_def
  by (auto intro!: keeps_ret keeps_throw keeps_bindM keeps_reads keeps_legacy_write split: option.split)

lemma keeps_wrapped:
  assumes "\<And>r. keeps R (processor r)"
  shows "keeps R (wrapProcessorWithWriteback (newPlatformRuntimeWriteback decode w) processor run)"
  unfolding wrapProcessorWithWriteback_def newPlatformRuntimeWriteback_def Let_def
  by (auto intro!: keeps_bindM keeps_ret keeps_reads keeps_router assms split: option.split)

end

text \<open>A row that is no longer running is not touched by the write-back of either platform.\<close>

definition settled_kept :: "db \<Rightarrow> db \<Rightarrow> bool" where
  "settled_kept s t \<longleftrightarrow> (\<forall>i x. run_of s i = Some x \<and> rr_status x \<noteq> ''running'' \<longrightarrow> run_of t i = Some x)"

interpretation settled: runs_rel settled_kept
  by unfold_locales (auto simp: settled_kept_def run_of_def)

lemma settled_fail: "keeps settled_kept (MarkReviewRunFailedIfRunning a)"
  by (rule keepsI) (auto simp: settled_kept_def intro: fail_write.wr_frame)

interpretation settledw: writer_store settled_kept
  by unfold_locales (rule settled_fail settled.keeps_other_tables)+

lemma settled_failure:
  assumes "faults t = []" and "runs_inv t" and "run_of t (rr_id run) = Some y"
    and "rr_status y \<notin> {''running'', ''cancelled'', ''failed''}"
  shows "\<exists>m. processFailure et tr sch run e t = (Inl (ErrMsg m), t)"
proof -
  obtain code detail retryable where c: "classifyRunError et e = (code, detail, retryable)" by (cases "classifyRunError et e") auto
  have skip: "handleSkippedTerminalWrite run ts t = (Inl (ErrMsg ''scheduler: skipped write for run with unexpected status''), t)"
    if "ts \<noteq> TCompleted" for ts
    using assms that by (cases ts) (auto simp: handleSkippedTerminalWrite_def bindM_def GetReviewRun_ok throw_def)
  show ?thesis
    using assms skip by (auto simp: processFailure_def c bindM_def Let_def retry_write.wr_skips fail_write.wr_skips)
qed

text \<open>C11 (failed comments end the worker). When a review is stored and posting its comments then fails, the run stays as the
  review left it, completed or with changes requested, and the scheduler, which finds a status it does not
  expect, neither retries nor fails the run but returns an error: the worker loop ends with it.\<close>

theorem failed_write_ends_worker:
  assumes "ProcessRun p run s = (Inr outcome, s1)" and "eng_writeback p = None" and "po_status outcome \<noteq> ''parser_error''"
    and "newPlatformRuntimeWriteback decode w = Some wb"
    and "wrapProcessorWithWriteback (Some wb) (ProcessRun p) run s = (Inl e, t)"
    and "run_of s1 (rr_id run) = Some x" and "faults t = []" and "runs_inv t"
  shows "run_of t (rr_id run) = Some x \<and> rr_status x = po_status outcome
    \<and> (\<exists>m. processFailure et tr sch run e t = (Inl (ErrMsg m), t))"
proof -
  obtain mr input b s0 where st: "store_review p run mr input b s0 = (Inr outcome, s1)" by (rule ProcessRun_store [OF assms(1)])
  have status: "rr_status x = po_status outcome"
    using store_review_status [OF st assms(2)] assms(6) by (cases "run_of s0 (rr_id run)") (auto simp: reviewed_row_def)
  moreover have "po_status outcome \<in> {''requested_changes'', ''completed''}"
    using store_review_status [OF st assms(2)] assms(3) canonicalRunStatus_cases [of "rb_verdict b" "length (active_findings (mr_id mr) s1)"]
    by auto
  ultimately have settled: "rr_status x \<notin> {''running'', ''cancelled'', ''failed''}" by auto
  from assms(4) have wb: "keeps settled_kept (wb_write wb r fs)" "wb_write_bundle wb = Some f \<Longrightarrow> keeps settled_kept (f r c)" for r fs f c
    by (auto simp: newPlatformRuntimeWriteback_def settledw.keeps_router split: if_splits)
  have "keeps settled_kept (case (wb_write_bundle wb, eo_review_bundle outcome) of (Some wr, Some bundle) \<Rightarrow> wr r bundle | _ \<Rightarrow> wb_write wb r fs)" for r fs
    by (cases "wb_write_bundle wb"; cases "eo_review_bundle outcome") (simp_all add: wb)
  then have "keeps settled_kept (bindM (GetReviewRun (rr_id run)) (\<lambda>loaded. bindM (case (wb_write_bundle wb, eo_review_bundle outcome) of
      (Some wr, Some bundle) \<Rightarrow> wr (run_for_writeback run outcome loaded) bundle
    | _ \<Rightarrow> wb_write wb (run_for_writeback run outcome loaded) (case po_review_findings outcome of None \<Rightarrow> [] | Some fs \<Rightarrow> fs)) (\<lambda>_. ret outcome)))"
    by (intro settled.keeps_bindM settled.keeps_reads settled.keeps_ret)
  moreover from assms(1,5) have "bindM (GetReviewRun (rr_id run)) (\<lambda>loaded. bindM (case (wb_write_bundle wb, eo_review_bundle outcome) of
      (Some wr, Some bundle) \<Rightarrow> wr (run_for_writeback run outcome loaded) bundle
    | _ \<Rightarrow> wb_write wb (run_for_writeback run outcome loaded) (case po_review_findings outcome of None \<Rightarrow> [] | Some fs \<Rightarrow> fs)) (\<lambda>_. ret outcome)) s1 = (Inl e, t)"
    by (simp add: wrapProcessorWithWriteback_def bindM_Inr Let_def)
  ultimately have "settled_kept s1 t" by (rule keepsD)
  with assms(6) settled have t: "run_of t (rr_id run) = Some x" by (auto simp: settled_kept_def)
  with settled_failure [OF assms(7,8) t settled] status show ?thesis by auto
qed

subsection \<open>Examples\<close>

text \<open>One merge request with a running run, an empty change that is approved, and a write-back for GitLab without a writer.\<close>

definition blank_author :: platform_author where
  "blank_author = \<lparr>pa_user_id = [], pa_username = [], pa_name = [], pa_email = []\<rparr>"

definition empty_input :: built_input where
  "empty_input = \<lparr>ri_target = psn_target sample_snapshot, ri_request = zero_request, ri_coverage = zero_coverage,
     ri_snapshot = sample_snapshot\<lparr>psn_head_commit := \<lparr>pcm_sha = [], pcm_title = [], pcm_message = [], pcm_author = blank_author,
       pcm_committer = blank_author\<rparr>\<rparr>,
     ri_effective_policy = platform_policy (\<lambda>_. None) sample_platform DefaultPolicySettings, ri_warnings = [], ri_metadata = [], ri_policy = [],
     ri_system_prompt = [], ri_request_payload = [], ri_context_text = [], ri_sections = []\<rparr>"

definition approval :: "string \<Rightarrow> review_bundle" where
  "approval v = \<lparr>rb_target = psn_target sample_snapshot, rb_artifacts = [], rb_verdict = v, rb_markdown_summary = [],
     rb_json_schema_version = [], rb_publish_candidates = [], rb_coverage = None\<rparr>"

definition pipeline :: engine_processor where
  "pipeline = \<lparr>eng_load = (\<lambda>_ _. ret empty_input), eng_run = (\<lambda>_ _. ret (approval ''approved'')), eng_writeback = None,
     eng_default_reviewer_packs = [], eng_default_advisor_route = [], eng_coverage_threshold = 0, eng_decode = (\<lambda>_. None), eng_hash = id\<rparr>"

definition pipeline_run :: review_run where
  "pipeline_run = zero_review_run\<lparr>rr_id := 1, rr_project_id := 1, rr_merge_request_id := 1, rr_status := ''running'',
     rr_max_retries := 3, rr_claimed_by := ''w'', rr_claimed_at := Some 0, rr_started_at := Some 0, rr_idempotency_key := ''k''\<rparr>"

definition pipeline_db :: db where
  "pipeline_db = empty_db\<lparr>instances := \<lparr>rows = [zero_gitlab_instance\<lparr>gi_id := 1\<rparr>], next_id = 2\<rparr>,
     projects := \<lparr>rows = [zero_project\<lparr>pr_id := 1, pr_gitlab_instance_id := 1\<rparr>], next_id = 2\<rparr>,
     merge_requests := \<lparr>rows = [zero_merge_request\<lparr>mr_id := 1, mr_project_id := 1, mr_mr_iid := 7\<rparr>], next_id = 2\<rparr>,
     review_runs := \<lparr>rows = [pipeline_run], next_id = 2\<rparr>\<rparr>"

definition silent_writeback :: platform_writeback where
  "silent_writeback = \<lparr>pw_gitlab = Some \<lparr>gr_legacy = None, gr_store = True, gr_publisher = None, gr_calls = []\<rparr>, pw_github = None,
     pw_github_calls = []\<rparr>"

lemma pipeline_completes:
  "case ProcessRun pipeline pipeline_run pipeline_db of (Inl _, _) \<Rightarrow> False
   | (Inr outcome, s1) \<Rightarrow> po_status outcome = ''completed'' \<and> run_of s1 1 \<noteq> None"
  by code_simp

lemma pipeline_write_fails:
  "case newPlatformRuntimeWriteback (\<lambda>_. None) silent_writeback of None \<Rightarrow> False | Some wb \<Rightarrow>
     (case wrapProcessorWithWriteback (Some wb) (ProcessRun pipeline) pipeline_run pipeline_db of
        (Inr _, _) \<Rightarrow> False | (Inl _, t) \<Rightarrow> faults t = [] \<and> runs_inv t)"
  by code_simp

theorem failed_write_ends_worker_witness:
  "\<exists>wb outcome s1 e t m. newPlatformRuntimeWriteback (\<lambda>_. None) silent_writeback = Some wb
     \<and> ProcessRun pipeline pipeline_run pipeline_db = (Inr outcome, s1)
     \<and> wrapProcessorWithWriteback (Some wb) (ProcessRun pipeline) pipeline_run pipeline_db = (Inl e, t)
     \<and> processFailure (\<lambda>_. []) [] (NewService ''w'' None []) pipeline_run e t = (Inl (ErrMsg m), t)"
proof -
  obtain wb e t where wb: "newPlatformRuntimeWriteback (\<lambda>_. None) silent_writeback = Some wb"
    "wrapProcessorWithWriteback (Some wb) (ProcessRun pipeline) pipeline_run pipeline_db = (Inl e, t)" "faults t = []" "runs_inv t"
    using pipeline_write_fails by (auto split: option.splits prod.splits sum.splits)
  obtain outcome s1 x where p: "ProcessRun pipeline pipeline_run pipeline_db = (Inr outcome, s1)"
    "po_status outcome = ''completed''" "run_of s1 1 = Some x"
    using pipeline_completes by (auto split: prod.splits sum.splits)
  have d: "eng_writeback pipeline = None" "rr_id pipeline_run = 1" by (simp_all add: pipeline_def pipeline_run_def)
  from failed_write_ends_worker [OF p(1) d(1) _ wb(1,2) p(3) [folded d(2)] wb(3,4), of "\<lambda>_. []" "[]" "NewService ''w'' None []"] p wb
  show ?thesis by auto
qed

theorem reviewed_run_status_witness:
  "\<exists>outcome t x. store_review pipeline pipeline_run zero_merge_request empty_input (approval ''approved'')
       (pipeline_db\<lparr>review_runs := \<lparr>rows = [pipeline_run\<lparr>rr_status := ''cancelled''\<rparr>], next_id = 2\<rparr>\<rparr>) = (Inr outcome, t)
     \<and> run_of t 1 = Some x \<and> rr_status x = ''completed''"
proof -
  let ?s = "pipeline_db\<lparr>review_runs := \<lparr>rows = [pipeline_run\<lparr>rr_status := ''cancelled''\<rparr>], next_id = 2\<rparr>\<rparr>"
  have "case store_review pipeline pipeline_run zero_merge_request empty_input (approval ''approved'') ?s of
      (Inl _, _) \<Rightarrow> False | (Inr outcome, t) \<Rightarrow> po_status outcome = ''completed''" by code_simp
  then obtain outcome t where r: "store_review pipeline pipeline_run zero_merge_request empty_input (approval ''approved'') ?s = (Inr outcome, t)"
    and c: "po_status outcome = ''completed''" by (auto split: prod.splits sum.splits)
  have d: "eng_writeback pipeline = None" "rr_id pipeline_run = 1" by (simp_all add: pipeline_def pipeline_run_def)
  have "run_of ?s (rr_id pipeline_run) = Some (pipeline_run\<lparr>rr_status := ''cancelled''\<rparr>)"
    by (simp add: run_of_def find_row_def)
  from reviewed_run_status [OF r d(1) this] r c d(2) show ?thesis by (auto simp: reviewed_row_def)
qed


definition versioned_db :: db where
  "versioned_db = pipeline_db\<lparr>mr_versions := \<lparr>rows = [\<lparr>mv_id = 1, mv_merge_request_id = 1, mv_gitlab_version_id = 0, mv_base_sha = ''b'',
     mv_start_sha = [], mv_head_sha = ''h1'', mv_patch_id_sha = [], mv_created_at = 0\<rparr>], next_id = 2\<rparr>\<rparr>"

theorem second_version_refused_witness:
  "persistMRVersionFromInput 1 (psn_version sample_snapshot)
     \<lparr>vc_base_sha = ''b'', vc_start_sha = [], vc_head_sha = ''h2'', vc_patch_id_sha = []\<rparr> versioned_db = (Inl ErrDuplicateKey, versioned_db)"
proof -
  let ?v = "\<lparr>mv_id = 1, mv_merge_request_id = 1, mv_gitlab_version_id = 0, mv_base_sha = ''b'', mv_start_sha = [], mv_head_sha = ''h1'',
    mv_patch_id_sha = [], mv_created_at = 0\<rparr>"
  have f: "faults versioned_db = []" by (simp add: versioned_db_def pipeline_db_def empty_db_def)
  have v: "GetLatestMRVersion 1 versioned_db = (Inr ?v, versioned_db)"
    using f by (simp add: GetLatestMRVersion_def query_first_def stmt_ok latest_by_def versioned_db_def)
  have t: "trim_space (pv_platform_version_id (psn_version sample_snapshot)) = []" "trim_space ''h2'' = ''h2''" "trim_space ''h1'' = ''h1''"
    by code_simp+
  show ?thesis by (rule second_version_refused [OF f v]) (simp_all add: t)
qed

end
