(* ===== verification/Admin_Actions.thy ===== *)
theory Admin_Actions
  imports Identity_Mappings Db_Runs Go_Float
begin

text \<open>
  What operators do through the admin API: \<^verbatim>\<open>internal/adminapi/actions.go\<close> and the identity part of
  \<^verbatim>\<open>internal/adminapi/service.go\<close>, with the query behind the detail of a run (\<^verbatim>\<open>admin_dashboard.go\<close>) and the heartbeats of
  workers (\<^verbatim>\<open>internal/ops/heartbeat.go\<close>, \<^verbatim>\<open>worker_heartbeats.go\<close>). An action reads the run, changes it, reads it back and is
  written to the audit log, all in one transaction. The wall clock of the service is the clock of the store.
\<close>

subsection \<open>Durations\<close>

definition quot64 :: "int \<Rightarrow> int \<Rightarrow> int" where
  "quot64 a b = (if a \<ge> 0 then a div b else - ((- a) div b))"

text \<open>\<^verbatim>\<open>int64(d.Seconds())\<close>: whole seconds plus the fraction as a float, truncated.\<close>

definition duration_seconds :: "int \<Rightarrow> int" where
  "duration_seconds d = (let sec = quot64 d second; nsec = d - sec * second in
     int_of_float (fadd (float_of_int sec) (fdiv (float_of_int nsec) 1000000000)))"

subsection \<open>The detail of a run\<close>

record run_list_row =
  rl_id :: int
  rl_platform :: string
  rl_project_path :: string
  rl_web_url :: "string option"
  rl_merge_request_id :: int
  rl_status :: string
  rl_error_code :: string
  rl_trigger_type :: string
  rl_head_sha :: string
  rl_claimed_by :: string
  rl_retry_count :: int
  rl_next_retry_at :: "time option"
  rl_provider_latency_ms :: int
  rl_provider_tokens_total :: int
  rl_hook_action :: string
  rl_hook_verification_outcome :: string
  rl_finding_count :: int
  rl_comment_action_count :: int
  rl_created_at :: time
  rl_updated_at :: time
  rl_started_at :: "time option"
  rl_completed_at :: "time option"

record run_detail_row = run_list_row +
  rl_hook_event_id :: "int option"
  rl_error_detail :: "string option"
  rl_max_retries :: int
  rl_idempotency_key :: string
  rl_scope_json :: "string option"
  rl_superseded_by_run_id :: "int option"

text \<open>\<^verbatim>\<open>json_extract(scope_json, '$.platform')\<close>: malformed JSON is an error of the statement, a repeated key counts once.\<close>

definition row_platform :: "(string \<Rightarrow> json option) \<Rightarrow> string option \<Rightarrow> string option" where
  "row_platform decode scope = (case scope of
     None \<Rightarrow> Some ''gitlab''
   | Some t \<Rightarrow> (case decode t of
       None \<Rightarrow> None
     | Some (JObject kvs) \<Rightarrow> Some (if map_of kvs ''platform'' = Some (JString ''github'') then ''github'' else ''gitlab'')
     | Some _ \<Rightarrow> Some ''gitlab''))"

definition run_detail_of :: "db \<Rightarrow> string \<Rightarrow> project \<Rightarrow> review_run \<Rightarrow> run_detail_row" where
  "run_detail_of s platform p r =
     (let h = Option.bind (rr_hook_event_id r) (\<lambda>i. find_row (\<lambda>e. he_id e = i) (hook_events s)) in
      \<lparr>rl_id = rr_id r, rl_platform = platform, rl_project_path = pr_path_with_namespace p,
       rl_web_url = map_option mr_web_url (find_row (\<lambda>m. mr_id m = rr_merge_request_id r) (merge_requests s)),
       rl_merge_request_id = rr_merge_request_id r, rl_status = rr_status r, rl_error_code = rr_error_code r,
       rl_trigger_type = rr_trigger_type r, rl_head_sha = rr_head_sha r, rl_claimed_by = rr_claimed_by r,
       rl_retry_count = rr_retry_count r, rl_next_retry_at = rr_next_retry_at r, rl_provider_latency_ms = rr_provider_latency_ms r,
       rl_provider_tokens_total = rr_provider_tokens_total r, rl_hook_action = (case h of None \<Rightarrow> [] | Some e \<Rightarrow> he_action e),
       rl_hook_verification_outcome = (case h of None \<Rightarrow> [] | Some e \<Rightarrow> he_verification_outcome e),
       rl_finding_count = count_rows (\<lambda>f. rf_review_run_id f = rr_id r) (review_findings s),
       rl_comment_action_count = count_rows (\<lambda>c. ca_review_run_id c = rr_id r) (comment_actions s),
       rl_created_at = rr_created_at r, rl_updated_at = rr_updated_at r, rl_started_at = rr_started_at r,
       rl_completed_at = rr_completed_at r, rl_hook_event_id = rr_hook_event_id r, rl_error_detail = rr_error_detail r,
       rl_max_retries = rr_max_retries r, rl_idempotency_key = rr_idempotency_key r, rl_scope_json = rr_scope_json r,
       rl_superseded_by_run_id = rr_superseded_by_run_id r\<rparr>)"

definition GetRunDetail :: "(string \<Rightarrow> json option) \<Rightarrow> int \<Rightarrow> run_detail_row dbm" where
  "GetRunDetail decode i = stmt (\<lambda>s. case run_of s i of
     None \<Rightarrow> (Inl ErrNoRows, s)
   | Some r \<Rightarrow> (case find_row (\<lambda>p. pr_id p = rr_project_id r) (projects s) of
       None \<Rightarrow> (Inl ErrNoRows, s)
     | Some p \<Rightarrow> (case row_platform decode (rr_scope_json r) of
         None \<Rightarrow> (Inl ErrDB, s) | Some platform \<Rightarrow> (Inr (run_detail_of s platform p r), s))))"

lemma GetRunDetail_InrE:
  assumes "GetRunDetail decode i s = (Inr d, t)" and "run_of s i = Some r"
  obtains fs where "t = s\<lparr>faults := fs\<rparr>" and "rl_id d = rr_id r" and "rl_status d = rr_status r"
proof -
  define u where "u = s\<lparr>faults := tl (faults s)\<rparr>"
  have r: "run_of u i = Some r" using assms(2) by (simp add: run_of_def u_def)
  have "(case run_of u i of
       None \<Rightarrow> (Inl ErrNoRows, u)
     | Some r \<Rightarrow> (case find_row (\<lambda>p. pr_id p = rr_project_id r) (projects u) of
         None \<Rightarrow> (Inl ErrNoRows, u)
       | Some p \<Rightarrow> (case row_platform decode (rr_scope_json r) of
           None \<Rightarrow> (Inl ErrDB, u) | Some platform \<Rightarrow> (Inr (run_detail_of u platform p r), u)))) = (Inr d, t)"
    using assms(1) unfolding GetRunDetail_def by (rule stmt_cases) (simp_all only: u_def sum.distinct)
  note res = this [unfolded r option.case]
  have "\<exists>platform p. d = run_detail_of u platform p r \<and> t = u"
  proof (cases "find_row (\<lambda>p. pr_id p = rr_project_id r) (projects u)")
    case (Some p)
    with res show ?thesis by (cases "row_platform decode (rr_scope_json r)") (simp_all, blast)
  qed (use res in simp)
  then obtain platform p where "d = run_detail_of u platform p r" "t = u" by blast
  then show ?thesis by (intro that [of "tl (faults s)"]) (simp_all add: run_detail_of_def Let_def u_def)
qed

lemma InsertAuditLog_InrD:
  assumes "InsertAuditLog a s = (Inr i, t)"
  shows "t = s\<lparr>audit_logs := insert_row (new_audit_log a (clock s)) (audit_logs s), faults := tl (faults s),
    last_rowid := next_id (audit_logs s)\<rparr>"
proof -
  have u: "audit_logs_update f x = x\<lparr>audit_logs := f (audit_logs x)\<rparr>" for f and x :: db by (cases x) simp
  show ?thesis
    using assms unfolding InsertAuditLog_def
    by (rule stmt_cases) (simp, subst (asm) insert_into_def, subst (asm) u, simp only: prod.inject, force)
qed

record run_detail = run_detail_row +
  rd_queue_age_seconds :: int
  rd_queue_wait_seconds :: int
  rd_processing_duration_seconds :: int

definition buildRunListItem :: "time \<Rightarrow> run_detail_row \<Rightarrow> run_detail" where
  "buildRunListItem now d =
     (let age = duration_seconds (now - rl_created_at d) in
      run_detail_row.extend d
        \<lparr>rd_queue_age_seconds = age,
         rd_queue_wait_seconds = (case rl_started_at d of None \<Rightarrow> age | Some st \<Rightarrow> duration_seconds (st - rl_created_at d)),
         rd_processing_duration_seconds = (case rl_started_at d of None \<Rightarrow> 0
           | Some st \<Rightarrow> duration_seconds ((case rl_completed_at d of None \<Rightarrow> now | Some c \<Rightarrow> c) - st))\<rparr>)"

definition RunDetail :: "(string \<Rightarrow> json option) \<Rightarrow> int \<Rightarrow> run_detail dbm" where
  "RunDetail decode i = bindM (GetRunDetail decode i) (\<lambda>d s. ret (buildRunListItem (clock s) d) s)"

subsection \<open>Actions on runs\<close>

text \<open>An action gets the run as it stands and answers with the run it produced.\<close>

type_synonym run_mutation = "review_run \<Rightarrow> int dbm"

text \<open>A map is marshalled with its keys in order.\<close>

definition mustMarshalActionDetail :: "int \<Rightarrow> int \<Rightarrow> string" where
  "mustMarshalActionDetail sourceRunID targetRunID =
     ''{\"source_run_id\":'' @ itoa sourceRunID @ '',\"target_run_id\":'' @ itoa targetRunID @ ''}''"

definition action_audit :: "string \<Rightarrow> int \<Rightarrow> string \<Rightarrow> string \<Rightarrow> string \<Rightarrow> audit_params" where
  "action_audit entity i action actor detail =
     \<lparr>alp_entity_type = entity, alp_entity_id = i, alp_action = action, alp_actor = actor, alp_detail = Some detail,
      alp_delivery_key = [], alp_hook_source = [], alp_verification_outcome = [], alp_rejection_reason = [], alp_error_code = []\<rparr>"

definition actor_name :: "string \<Rightarrow> string" where
  "actor_name actor = (if trim_space actor = [] then ''admin'' else trim_space actor)"

text \<open>\<^verbatim>\<open>sql.ErrNoRows\<close> becomes an error for the client.\<close>

definition not_found :: "string \<Rightarrow> 'a dbm \<Rightarrow> 'a dbm" where
  "not_found message m = tryM m (\<lambda>r. case r of
     Inl e \<Rightarrow> throw (if e = ErrNoRows then ErrAction 404 message else e) | Inr x \<Rightarrow> ret x)"

definition action_body :: "(string \<Rightarrow> json option) \<Rightarrow> int \<Rightarrow> string \<Rightarrow> string \<Rightarrow> run_mutation \<Rightarrow> run_detail dbm" where
  "action_body decode runID actor action mutate =
     bindM (not_found ''run not found'' (GetReviewRun runID)) (\<lambda>run.
     bindM (mutate run) (\<lambda>targetRunID.
     bindM (GetRunDetail decode targetRunID) (\<lambda>detail.
     bindM (InsertAuditLog (action_audit ''review_run'' targetRunID action actor (mustMarshalActionDetail runID targetRunID))) (\<lambda>_ s.
     ret (buildRunListItem (clock s) detail) s))))"

definition runAction :: "(string \<Rightarrow> json option) \<Rightarrow> int \<Rightarrow> string \<Rightarrow> string \<Rightarrow> run_mutation \<Rightarrow> run_detail dbm" where
  "runAction decode runID actor action mutate = run_tx (action_body decode runID (actor_name actor) action mutate)"

definition refuse :: "string \<Rightarrow> 'a dbm" where
  "refuse message = throw (ErrAction 409 message)"

definition retry_mutation :: "int \<Rightarrow> run_mutation" where
  "retry_mutation runID run =
     (if rr_status run \<noteq> ''failed'' \<or> rr_superseded_by_run_id run \<noteq> None then refuse ''run is not retryable''
      else bindM (RetryReviewRunNow runID) (\<lambda>_. ret runID))"

definition RetryRun :: "(string \<Rightarrow> json option) \<Rightarrow> int \<Rightarrow> string \<Rightarrow> run_detail dbm" where
  "RetryRun decode runID actor = runAction decode runID actor ''retry_run'' (retry_mutation runID)"

definition cancel_mutation :: "int \<Rightarrow> run_mutation" where
  "cancel_mutation runID run =
     (if rr_status run \<in> {''pending'', ''running''} \<or> (rr_status run = ''failed'' \<and> rr_next_retry_at run \<noteq> None)
      then bindM (CancelReviewRun runID ''cancelled_by_operator'' ''Cancelled by admin operator'') (\<lambda>_. ret runID)
      else refuse ''run is not cancellable'')"

definition CancelRun :: "(string \<Rightarrow> json option) \<Rightarrow> int \<Rightarrow> string \<Rightarrow> run_detail dbm" where
  "CancelRun decode runID actor = runAction decode runID actor ''cancel_run'' (cancel_mutation runID)"

definition requeue_mutation :: "int \<Rightarrow> run_mutation" where
  "requeue_mutation runID run =
     (if rr_superseded_by_run_id run \<noteq> None \<or> rr_error_code run = ''superseded_by_new_head''
      then refuse ''superseded runs cannot be requeued''
      else if rr_status run \<in> {''cancelled'', ''failed''} then bindM (RequeueReviewRun runID) (\<lambda>_. ret runID)
      else refuse ''run is not requeueable'')"

definition RequeueRun :: "(string \<Rightarrow> json option) \<Rightarrow> int \<Rightarrow> string \<Rightarrow> run_detail dbm" where
  "RequeueRun decode runID actor = runAction decode runID actor ''requeue_run'' (requeue_mutation runID)"

text \<open>A rerun copies the run under a key that carries the time.\<close>

definition rerun_params :: "review_run \<Rightarrow> time \<Rightarrow> insert_review_run_params" where
  "rerun_params run now =
     \<lparr>irp_project_id = rr_project_id run, irp_merge_request_id = rr_merge_request_id run, irp_hook_event_id = rr_hook_event_id run,
      irp_trigger_type = rr_trigger_type run, irp_head_sha = rr_head_sha run, irp_status = ''pending'',
      irp_max_retries = rr_max_retries run, irp_idempotency_key = ''admin-rerun:'' @ itoa (rr_id run) @ '':'' @ itoa now,
      irp_scope_json = rr_scope_json run\<rparr>"

definition rerun_mutation :: run_mutation where
  "rerun_mutation run =
     (if rr_status run \<in> {''completed'', ''failed'', ''cancelled''} then (\<lambda>s. InsertReviewRun (rerun_params run (clock s)) s)
      else refuse ''run is not rerunnable'')"

definition RerunRun :: "(string \<Rightarrow> json option) \<Rightarrow> int \<Rightarrow> string \<Rightarrow> run_detail dbm" where
  "RerunRun decode runID actor = runAction decode runID actor ''rerun_run'' rerun_mutation"

subsection \<open>Resolving an identity\<close>

text \<open>The object is marshalled by \<^verbatim>\<open>encoding/json\<close>, a parameter; its keys are in order.\<close>

definition mustMarshalIdentityResolutionDetail :: "(json \<Rightarrow> string) \<Rightarrow> int \<Rightarrow> string \<Rightarrow> string \<Rightarrow> string" where
  "mustMarshalIdentityResolutionDetail marshal mappingID platformUsername platformUserID = marshal (JObject
     [(''mapping_id'', JString (itoa mappingID)), (''platform_user_id'', JString (trim_space platformUserID)),
      (''platform_username'', JString (trim_space platformUsername))])"

definition resolve_body :: "(json \<Rightarrow> string) \<Rightarrow> int \<Rightarrow> string \<Rightarrow> string \<Rightarrow> string \<Rightarrow> identity_mapping dbm" where
  "resolve_body marshal mappingID platformUsername platformUserID actor =
     bindM (not_found ''identity mapping not found''
       (ResolveIdentityMapping platformUsername (trim_space platformUserID) actor None mappingID)) (\<lambda>_.
     bindM (not_found ''identity mapping not found'' (GetIdentityMapping mappingID)) (\<lambda>mapping.
     bindM (InsertAuditLog (action_audit ''identity_mapping'' mappingID ''resolve_identity_mapping'' actor
       (mustMarshalIdentityResolutionDetail marshal mappingID platformUsername platformUserID))) (\<lambda>_.
     ret mapping)))"

definition admin_ResolveIdentityMapping :: "(json \<Rightarrow> string) \<Rightarrow> int \<Rightarrow> string \<Rightarrow> string \<Rightarrow> string \<Rightarrow> identity_mapping dbm" where
  "admin_ResolveIdentityMapping marshal mappingID platformUsername platformUserID actor =
     (if mappingID \<le> 0 \<or> trim_space platformUsername = []
      then throw (ErrAction 400 ''identity mapping and platform username are required'')
      else run_tx (resolve_body marshal mappingID (trim_space platformUsername) platformUserID (actor_name actor)))"

subsection \<open>The routes that change state\<close>

text \<open>A request to the admin API: its \<^verbatim>\<open>Authorization\<close> header, the values the router took from the path, and
  the JSON value of the body. The answer is the status with the error text or the row written back.\<close>

record admin_request =
  ar_authorization :: string
  ar_id :: string
  ar_action :: string
  ar_body :: "json option"

datatype admin_body = AdminError string | AdminRun run_detail | AdminIdentity identity_mapping

type_synonym admin_response = "int \<times> admin_body"

definition hasBearerToken :: "admin_request \<Rightarrow> string \<Rightarrow> bool" where
  "hasBearerToken r token = (let auth = trim_space (ar_authorization r) in
     has_prefix auth ''Bearer '' \<and> trim_space (trim_prefix auth ''Bearer '') = token)"

definition Protect :: "string \<Rightarrow> (admin_request \<Rightarrow> admin_response dbm) \<Rightarrow> admin_request \<Rightarrow> admin_response dbm" where
  "Protect token serve r =
     (if trim_space token = [] \<or> hasBearerToken r token then serve r else ret (401, AdminError ''unauthorized''))"

definition action_answer :: "('a \<Rightarrow> admin_body) \<Rightarrow> 'a dbm \<Rightarrow> admin_response dbm" where
  "action_answer wrap m = tryM m (\<lambda>res. ret (case res of
     Inr x \<Rightarrow> (200, wrap x)
   | Inl (ErrAction code message) \<Rightarrow> (code, AdminError message)
   | Inl _ \<Rightarrow> (500, AdminError ''internal error'')))"

definition post_run_action :: "(string \<Rightarrow> json option) \<Rightarrow> admin_request \<Rightarrow> admin_response dbm" where
  "post_run_action decode r = (case parse_int64 (ar_id r) of
     None \<Rightarrow> ret (400, AdminError ''invalid run id'')
   | Some runID \<Rightarrow>
      (if runID \<le> 0 then ret (400, AdminError ''invalid run id'')
       else let action = trim_space (ar_action r) in
         if action = ''retry'' then action_answer AdminRun (RetryRun decode runID ''admin'')
         else if action = ''rerun'' then action_answer AdminRun (RerunRun decode runID ''admin'')
         else if action = ''cancel'' then action_answer AdminRun (CancelRun decode runID ''admin'')
         else if action = ''requeue'' then action_answer AdminRun (RequeueRun decode runID ''admin'')
         else ret (400, AdminError ''invalid run action'')))"

definition post_resolve :: "(json \<Rightarrow> string) \<Rightarrow> admin_request \<Rightarrow> admin_response dbm" where
  "post_resolve marshal r = (case parse_int64 (ar_id r) of
     None \<Rightarrow> ret (400, AdminError ''invalid identity mapping id'')
   | Some mappingID \<Rightarrow>
      (if mappingID \<le> 0 then ret (400, AdminError ''invalid identity mapping id'')
       else case Option.bind (ar_body r) struct_value of
         None \<Rightarrow> ret (400, AdminError ''invalid json body'')
       | Some kvs \<Rightarrow> (case (str_of ''platform_username'' kvs, str_of ''platform_user_id'' kvs) of
           (Some username, Some userID) \<Rightarrow>
             action_answer AdminIdentity (admin_ResolveIdentityMapping marshal mappingID username userID ''admin'')
         | _ \<Rightarrow> ret (400, AdminError ''invalid json body''))))"

definition admin_run_action :: "string \<Rightarrow> (string \<Rightarrow> json option) \<Rightarrow> admin_request \<Rightarrow> admin_response dbm" where
  "admin_run_action token decode = Protect token (post_run_action decode)"

definition admin_resolve :: "string \<Rightarrow> (json \<Rightarrow> string) \<Rightarrow> admin_request \<Rightarrow> admin_response dbm" where
  "admin_resolve token marshal = Protect token (post_resolve marshal)"

definition maxListLimit :: int where
  "maxListLimit = 1000"

definition parseOptionalInt32 :: "string \<Rightarrow> int option" where
  "parseOptionalInt32 raw =
     (if trim_space raw = [] then Some 0
      else case parse_int64 (trim_space raw) of
        None \<Rightarrow> None
      | Some v \<Rightarrow> if v < 0 then None else if v > maxListLimit then Some maxListLimit else Some v)"

subsection \<open>What an action does\<close>

text \<open>The contract of an action: when it may run, and how the run it produces relates to the run it was asked for.
  \<open>same_subject\<close> is what every action keeps.\<close>

definition same_subject :: "review_run \<Rightarrow> review_run \<Rightarrow> bool" where
  "same_subject r q \<longleftrightarrow> rr_project_id q = rr_project_id r \<and> rr_merge_request_id q = rr_merge_request_id r
     \<and> rr_hook_event_id q = rr_hook_event_id r \<and> rr_trigger_type q = rr_trigger_type r \<and> rr_head_sha q = rr_head_sha r
     \<and> rr_max_retries q = rr_max_retries r \<and> rr_scope_json q = rr_scope_json r"

definition only_runs :: "db \<Rightarrow> db \<Rightarrow> bool" where
  "only_runs s t \<longleftrightarrow> (\<exists>rs fs i. t = s\<lparr>review_runs := rs, faults := fs, last_rowid := i\<rparr>)"

locale run_action =
  fixes mutate :: "int \<Rightarrow> run_mutation"
    and allowed :: "review_run \<Rightarrow> bool"
    and outcome :: "time \<Rightarrow> review_run \<Rightarrow> review_run \<Rightarrow> bool"
  assumes mutate_refuses: "\<not> allowed run \<Longrightarrow> \<exists>message. mutate i run s = (Inl (ErrAction 409 message), s)"
    and mutate_only_runs: "mutate i run s = (res, t) \<Longrightarrow> only_runs s t"
    and mutate_does: "runs_inv s \<Longrightarrow> run_of s i = Some run \<Longrightarrow> mutate i run s = (Inr j, t)
      \<Longrightarrow> (\<exists>q. run_of t j = Some q \<and> outcome (clock s) run q) \<and> (\<forall>k. k \<noteq> j \<longrightarrow> run_of t k = run_of s k)"
begin

lemma mutate_allowed: "mutate i run s = (Inr j, t) \<Longrightarrow> allowed run"
  using mutate_refuses [of run i s] by auto

lemma body_done:
  assumes "action_body decode i actor action (mutate i) s = (Inr d, t)" and "runs_inv s"
  shows "\<exists>run q rs fs l. run_of s i = Some run \<and> allowed run \<and> run_of t (rl_id d) = Some q \<and> outcome (clock s) run q
    \<and> rl_status d = rr_status q \<and> (\<forall>k. k \<noteq> rl_id d \<longrightarrow> run_of t k = run_of s k)
    \<and> t = s\<lparr>review_runs := rs, audit_logs := insert_row (new_audit_log (action_audit ''review_run'' (rl_id d) action actor
          (mustMarshalActionDetail i (rl_id d))) (clock s)) (audit_logs s), faults := fs, last_rowid := l\<rparr>"
proof -
  from assms(1) obtain run j det al s1 s2 s3 where
    g: "not_found ''run not found'' (GetReviewRun i) s = (Inr run, s1)" and m: "mutate i run s1 = (Inr j, s2)"
    and gd: "GetRunDetail decode j s2 = (Inr det, s3)"
    and al: "InsertAuditLog (action_audit ''review_run'' j action actor (mustMarshalActionDetail i j)) s3 = (Inr al, t)"
    and d: "d = buildRunListItem (clock t) det"
    unfolding action_body_def by (elim bindM_elim) (auto simp: ret_def)
  from g have "GetReviewRun i s = (Inr run, s1)"
    by (auto simp: not_found_def tryM_def throw_def ret_def split: prod.splits sum.splits)
  then have run: "run_of s i = Some run" and s1: "same_tables s s1" by (auto elim: GetReviewRun_InrE)
  have inv: "runs_inv s1" and run1: "run_of s1 i = Some run" and c1: "clock s1 = clock s"
    using assms(2) run runs_inv_same_tables [OF s1] run_of_same_tables [OF s1] clock_same_tables [OF s1] by simp_all
  obtain q where q: "run_of s2 j = Some q" "outcome (clock s) run q" and oth: "\<And>k. k \<noteq> j \<Longrightarrow> run_of s2 k = run_of s1 k"
    using mutate_does [OF inv run1 m] c1 by auto
  obtain fs3 where s3: "s3 = s2\<lparr>faults := fs3\<rparr>" and det: "rl_id det = rr_id q" "rl_status det = rr_status q"
    by (rule GetRunDetail_InrE [OF gd q(1)])
  have j: "rr_id q = j" using run_of_mem [OF q(1)] by simp
  have d': "rl_id d = j" "rl_status d = rr_status q"
    using det j by (simp_all add: d buildRunListItem_def Let_def run_detail_row.extend_def)
  note t = InsertAuditLog_InrD [OF al]
  obtain fs1 l1 where s1': "s1 = s\<lparr>faults := fs1, last_rowid := l1\<rparr>" using s1 by (auto simp: same_tables_def)
  obtain rs fs2 l2 where s2: "s2 = s1\<lparr>review_runs := rs, faults := fs2, last_rowid := l2\<rparr>"
    using mutate_only_runs [OF m] by (auto simp: only_runs_def)
  have "run_of t k = run_of s2 k" for k by (simp add: t s3 run_of_def)
  then have rt: "run_of t j = Some q" "\<And>k. k \<noteq> j \<Longrightarrow> run_of t k = run_of s k"
    using q(1) oth run_of_same_tables [OF s1] by simp_all
  have "t = s\<lparr>review_runs := rs, audit_logs := insert_row (new_audit_log (action_audit ''review_run'' j action actor
      (mustMarshalActionDetail i j)) (clock s)) (audit_logs s), faults := tl fs3, last_rowid := next_id (audit_logs s)\<rparr>"
    by (simp add: t s3 s2 s1')
  then show ?thesis using run mutate_allowed [OF m] rt q(2) d' by blast
qed

lemma action_done:
  assumes "runAction decode i actor action (mutate i) s = (Inr d, t)" and "runs_inv s"
  shows "\<exists>run q rs fs l. run_of s i = Some run \<and> allowed run \<and> run_of t (rl_id d) = Some q \<and> outcome (clock s) run q
    \<and> rl_status d = rr_status q \<and> (\<forall>k. k \<noteq> rl_id d \<longrightarrow> run_of t k = run_of s k)
    \<and> t = s\<lparr>review_runs := rs, audit_logs := insert_row (new_audit_log (action_audit ''review_run'' (rl_id d) action (actor_name actor)
          (mustMarshalActionDetail i (rl_id d))) (clock s)) (audit_logs s), faults := fs, last_rowid := l\<rparr>"
proof -
  obtain s1 s2 where s1: "same_tables s s1" and b: "action_body decode i (actor_name actor) action (mutate i) s1 = (Inr d, s2)"
    and t: "same_tables s2 t"
    using run_tx_InrE [OF assms(1) [unfolded runAction_def]] by blast
  obtain fs1 l1 where s1': "s1 = s\<lparr>faults := fs1, last_rowid := l1\<rparr>" using s1 by (auto simp: same_tables_def)
  obtain fs l where t': "t = s2\<lparr>faults := fs, last_rowid := l\<rparr>" using t by (auto simp: same_tables_def)
  have "runs_inv s1" using assms(2) runs_inv_same_tables [OF s1] by simp
  from body_done [OF b this] obtain run q rs fs2 l2 where
    *: "run_of s1 i = Some run" "allowed run" "run_of s2 (rl_id d) = Some q" "outcome (clock s1) run q" "rl_status d = rr_status q"
      "\<forall>k. k \<noteq> rl_id d \<longrightarrow> run_of s2 k = run_of s1 k"
    and s2: "s2 = s1\<lparr>review_runs := rs, audit_logs := insert_row (new_audit_log (action_audit ''review_run'' (rl_id d) action
          (actor_name actor) (mustMarshalActionDetail i (rl_id d))) (clock s1)) (audit_logs s1), faults := fs2, last_rowid := l2\<rparr>"
    by blast
  have "t = s\<lparr>review_runs := rs, audit_logs := insert_row (new_audit_log (action_audit ''review_run'' (rl_id d) action
          (actor_name actor) (mustMarshalActionDetail i (rl_id d))) (clock s)) (audit_logs s), faults := fs, last_rowid := l\<rparr>"
    by (simp add: t' s2 s1')
  moreover have "run_of s i = Some run" "outcome (clock s) run q" using *(1,4) by (simp_all add: s1' run_of_def)
  moreover have "run_of t k = run_of s2 k" "run_of s1 k = run_of s k" for k by (simp_all add: t' s1' run_of_def)
  ultimately show ?thesis using *(2,3,5,6) by metis
qed

end

definition retryable_run :: "review_run \<Rightarrow> bool" where
  "retryable_run r \<longleftrightarrow> rr_status r = ''failed'' \<and> rr_superseded_by_run_id r = None"

definition retried :: "time \<Rightarrow> review_run \<Rightarrow> review_run \<Rightarrow> bool" where
  "retried now r q \<longleftrightarrow> same_subject r q \<and> rr_id q = rr_id r \<and> claimable now q \<and> rr_retry_count q = rr_retry_count r"

definition cancellable_run :: "review_run \<Rightarrow> bool" where
  "cancellable_run r \<longleftrightarrow> rr_status r \<in> {''pending'', ''running''} \<or> rr_status r = ''failed'' \<and> rr_next_retry_at r \<noteq> None"

definition cancelled :: "time \<Rightarrow> review_run \<Rightarrow> review_run \<Rightarrow> bool" where
  "cancelled now r q \<longleftrightarrow> same_subject r q \<and> rr_id q = rr_id r \<and> rr_status q = ''cancelled'' \<and> (\<forall>later. \<not> claimable later q)"

definition requeueable_run :: "review_run \<Rightarrow> bool" where
  "requeueable_run r \<longleftrightarrow> rr_status r \<in> {''cancelled'', ''failed''} \<and> rr_superseded_by_run_id r = None
     \<and> rr_error_code r \<noteq> ''superseded_by_new_head''"

definition requeued :: "time \<Rightarrow> review_run \<Rightarrow> review_run \<Rightarrow> bool" where
  "requeued now r q \<longleftrightarrow> same_subject r q \<and> rr_id q = rr_id r \<and> claimable now q \<and> rr_status q = ''pending''
     \<and> rr_error_code q = [] \<and> rr_claimed_at q = None \<and> rr_started_at q = None \<and> rr_completed_at q = None"

definition rerunnable_run :: "review_run \<Rightarrow> bool" where
  "rerunnable_run r \<longleftrightarrow> rr_status r \<in> {''completed'', ''failed'', ''cancelled''}"

definition rerun :: "time \<Rightarrow> review_run \<Rightarrow> review_run \<Rightarrow> bool" where
  "rerun now r q \<longleftrightarrow> same_subject r q \<and> rr_id q \<noteq> rr_id r \<and> claimable now q \<and> rr_status q = ''pending'' \<and> rr_retry_count q = 0"

lemma only_runs_refl: "only_runs s s"
  unfolding only_runs_def by (rule exI [of _ "review_runs s"], rule exI [of _ "faults s"], rule exI [of _ "last_rowid s"]) simp

lemma only_runs_faults: "only_runs s (s\<lparr>faults := fs\<rparr>)"
  unfolding only_runs_def by (rule exI [of _ "review_runs s"], rule exI [of _ fs], rule exI [of _ "last_rowid s"]) simp

lemma only_runs_set: "only_runs s (s\<lparr>faults := fs, review_runs := rs\<rparr>)"
  unfolding only_runs_def by (rule exI [of _ rs], rule exI [of _ fs], rule exI [of _ "last_rowid s"]) simp

lemma refuse_apply: "refuse m s = (Inl (ErrAction 409 m), s)"
  by (simp add: refuse_def throw_def)

text \<open>The three actions that update the run itself.\<close>

lemma update_action:
  assumes "bindM (discard (update_runs (\<lambda>_ r. rr_id r = i) f)) (\<lambda>_. ret i) s = (res, t)" and "\<And>now r. rr_id (f now r) = rr_id r"
  shows "only_runs s t"
    and "run_of s i = Some run \<Longrightarrow> res = Inr j \<Longrightarrow> run_of t j = Some (f (clock s) run) \<and> (\<forall>k. k \<noteq> j \<longrightarrow> run_of t k = run_of s k)"
proof -
  define u where "u = s\<lparr>faults := tl (faults s)\<rparr>"
  define v where "v = u\<lparr>review_runs := update_rows (\<lambda>r. rr_id r = i) (f (clock s)) (review_runs s)\<rparr>"
  obtain n where n: "update_runs (\<lambda>_ r. rr_id r = i) f s = (n, t)" and res: "\<And>j. res = Inr j \<Longrightarrow> j = i \<and> \<not> isl n"
    using assms(1) by (auto simp: discard_def bindM_def ret_def split: prod.splits sum.splits)
  have t: "isl n \<and> t = u \<or> t = v"
    using n unfolding update_runs_def by (rule stmt_cases) (auto simp: u_def v_def)
  then show "only_runs s t" by (auto simp: u_def v_def only_runs_faults only_runs_set)
  assume r: "run_of s i = Some run" and "res = Inr j"
  with res t have "j = i" "t = v" by auto
  then have "run_of t k = map_option (\<lambda>r. if rr_id r = i then f (clock s) r else r) (run_of s k)" for k
    by (simp add: v_def u_def run_of_def find_row_update_rows assms(2))
  moreover have "map_option (\<lambda>r. if rr_id r = i then f (clock s) r else r) (run_of s k) = run_of s k" if "k \<noteq> i" for k
    using that by (cases "run_of s k") (auto dest: run_of_mem)
  ultimately show "run_of t j = Some (f (clock s) run) \<and> (\<forall>k. k \<noteq> j \<longrightarrow> run_of t k = run_of s k)"
    using r run_of_mem [OF r] \<open>j = i\<close> by simp
qed

lemma guarded_update:
  assumes m: "\<And>i run. mutate i run = (if ok run then bindM (discard (update_runs (\<lambda>_ r. rr_id r = i) f)) (\<lambda>_. ret i) else refuse (msg run))"
    and f: "\<And>now r. rr_id (f now r) = rr_id r" and out: "\<And>now r. outcome now r (f now r)"
  shows "run_action mutate ok outcome"
proof
  show "\<not> ok run \<Longrightarrow> \<exists>message. mutate i run s = (Inl (ErrAction 409 message), s)" for run i s
    by (simp add: m refuse_apply)
next
  fix i run s res t
  assume "mutate i run s = (res, t)"
  then show "only_runs s t"
    using update_action(1) [OF _ f] only_runs_refl unfolding m by (cases "ok run") (simp, simp add: refuse_apply)
next
  fix i run j and s t :: db
  assume r: "run_of s i = Some run" and mu: "mutate i run s = (Inr j, t)"
  have "ok run" using mu by (auto simp: m refuse_apply split: if_splits)
  with mu have "bindM (discard (update_runs (\<lambda>_ r. rr_id r = i) f)) (\<lambda>_. ret i) s = (Inr j, t)" by (simp add: m)
  from update_action(2) [OF this f r refl] out
  show "(\<exists>q. run_of t j = Some q \<and> outcome (clock s) run q) \<and> (\<forall>k. k \<noteq> j \<longrightarrow> run_of t k = run_of s k)" by blast
qed

lemma InsertReviewRun_cases:
  assumes "InsertReviewRun a s = (res, t)"
  obtains "isl res" and "t = s\<lparr>faults := tl (faults s)\<rparr>"
  | "res = Inr (next_id (review_runs s))" and "t = s\<lparr>faults := tl (faults s), review_runs := insert_row (new_run a (clock s)) (review_runs s),
      last_rowid := next_id (review_runs s)\<rparr>"
  using assms unfolding InsertReviewRun_def by (rule stmt_cases) (auto split: if_splits)

lemma InsertReviewRun_only_runs: "InsertReviewRun a s = (res, t) \<Longrightarrow> only_runs s t"
proof (erule InsertReviewRun_cases)
  assume t: "t = s\<lparr>faults := tl (faults s), review_runs := insert_row (new_run a (clock s)) (review_runs s),
      last_rowid := next_id (review_runs s)\<rparr>"
  show "only_runs s t" unfolding only_runs_def t
    by (rule exI [of _ "insert_row (new_run a (clock s)) (review_runs s)"], rule exI [of _ "tl (faults s)"],
        rule exI [of _ "next_id (review_runs s)"]) simp
qed (simp add: only_runs_faults)

lemma InsertReviewRun_new:
  assumes "InsertReviewRun a s = (Inr j, t)" and "runs_inv s"
  shows "j = next_id (review_runs s)" and "run_of t j = Some (new_run a (clock s) j)"
    and "\<forall>k. k \<noteq> j \<longrightarrow> run_of t k = run_of s k"
proof -
  from assms(1) have t: "t = s\<lparr>faults := tl (faults s), review_runs := insert_row (new_run a (clock s)) (review_runs s),
      last_rowid := next_id (review_runs s)\<rparr>" and j: "j = next_id (review_runs s)"
    by (auto elim: InsertReviewRun_cases)
  show "j = next_id (review_runs s)" by (rule j)
  have n: "run_of s j = None"
    using assms(2) unfolding run_of_def find_row_None j by (auto simp: runs_inv_def table_ok_def)
  have "run_of t k = (case run_of s k of Some r \<Rightarrow> Some r | None \<Rightarrow> if k = j then Some (new_run a (clock s) j) else None)" for k
    by (simp add: t run_of_def find_row_insert_row j new_run_def split: option.split)
  with n show "run_of t j = Some (new_run a (clock s) j)" and "\<forall>k. k \<noteq> j \<longrightarrow> run_of t k = run_of s k"
    by (simp_all split: option.split)
qed

lemmas outcome_defs = same_subject_def claimable_def retried_def cancelled_def requeued_def rerun_def

interpretation retry_action: run_action retry_mutation retryable_run retried
  by (rule guarded_update [where msg = "\<lambda>_. ''run is not retryable''" and f = "\<lambda>now r. r\<lparr>rr_status := ''failed'', rr_next_retry_at := Some now,
      rr_claimed_by := [], rr_claimed_at := None, rr_updated_at := now\<rparr>"])
     (auto simp: retry_mutation_def retryable_run_def RetryReviewRunNow_def outcome_defs)

interpretation cancel_action: run_action cancel_mutation cancellable_run cancelled
  by (rule guarded_update [where msg = "\<lambda>_. ''run is not cancellable''" and f = "\<lambda>now r. r\<lparr>rr_status := ''cancelled'',
      rr_error_code := ''cancelled_by_operator'', rr_error_detail := Some ''Cancelled by admin operator'',
      rr_superseded_by_run_id := None, rr_next_retry_at := None, rr_updated_at := now\<rparr>"])
     (auto simp: cancel_mutation_def cancellable_run_def CancelReviewRun_def outcome_defs)

interpretation requeue_action: run_action requeue_mutation requeueable_run requeued
  by (rule guarded_update [where msg = "\<lambda>run. if rr_superseded_by_run_id run \<noteq> None \<or> rr_error_code run = ''superseded_by_new_head''
      then ''superseded runs cannot be requeued'' else ''run is not requeueable''"
      and f = "\<lambda>now r. r\<lparr>rr_status := ''pending'', rr_error_code := [], rr_error_detail := None, rr_superseded_by_run_id := None,
      rr_next_retry_at := None, rr_claimed_by := [], rr_claimed_at := None, rr_started_at := None, rr_completed_at := None,
      rr_provider_latency_ms := 0, rr_provider_tokens_total := 0, rr_updated_at := now\<rparr>"])
    (auto simp: requeue_mutation_def requeueable_run_def RequeueReviewRun_def outcome_defs)

interpretation rerun_action: run_action "\<lambda>_. rerun_mutation" rerunnable_run rerun
proof
  show "\<not> rerunnable_run run \<Longrightarrow> \<exists>message. rerun_mutation run s = (Inl (ErrAction 409 message), s)" for run s
    by (simp add: rerunnable_run_def rerun_mutation_def refuse_apply)
next
  fix run s res t
  assume "rerun_mutation run s = (res, t)"
  then show "only_runs s t"
    by (cases "rerunnable_run run")
      (auto simp: rerunnable_run_def rerun_mutation_def refuse_apply only_runs_refl intro: InsertReviewRun_only_runs)
next
  fix i run j and s t :: db
  assume inv: "runs_inv s" and r: "run_of s i = Some run" and m: "rerun_mutation run s = (Inr j, t)"
  then have "InsertReviewRun (rerun_params run (clock s)) s = (Inr j, t)"
    by (simp add: rerun_mutation_def refuse_apply split: if_splits)
  note ins = InsertReviewRun_new [OF this inv]
  have "rr_id run < j" using ins(1) inv run_of_mem [OF r] by (auto simp: runs_inv_def table_ok_def)
  then have "rerun (clock s) run (new_run (rerun_params run (clock s)) (clock s) j)"
    by (simp add: outcome_defs new_run_def rerun_params_def)
  then show "(\<exists>q. run_of t j = Some q \<and> rerun (clock s) run q) \<and> (\<forall>k. k \<noteq> j \<longrightarrow> run_of t k = run_of s k)"
    using ins(2,3) by blast
qed

subsection \<open>The whole request\<close>

text \<open>What a request may leave behind: \<open>out\<close> relates the run asked for to the run shown back, every other run is as before, one
  row is added to the audit log and no other table changes.\<close>

definition audited_action :: "int \<Rightarrow> string \<Rightarrow> (time \<Rightarrow> review_run \<Rightarrow> review_run \<Rightarrow> bool) \<Rightarrow> db \<Rightarrow> run_detail \<Rightarrow> db \<Rightarrow> bool" where
  "audited_action i action out s d t \<longleftrightarrow>
     (\<exists>run q rs fs l. run_of s i = Some run \<and> run_of t (rl_id d) = Some q \<and> out (clock s) run q \<and> rl_status d = rr_status q
       \<and> (\<forall>k. k \<noteq> rl_id d \<longrightarrow> run_of t k = run_of s k)
       \<and> t = s\<lparr>review_runs := rs, audit_logs := insert_row (new_audit_log (action_audit ''review_run'' (rl_id d) action ''admin''
            (mustMarshalActionDetail i (rl_id d))) (clock s)) (audit_logs s), faults := fs, last_rowid := l\<rparr>)"

definition action_outcome :: "string \<Rightarrow> time \<Rightarrow> review_run \<Rightarrow> review_run \<Rightarrow> bool" where
  "action_outcome action now r q \<longleftrightarrow>
     action = ''retry'' \<and> retryable_run r \<and> retried now r q \<or> action = ''cancel'' \<and> cancellable_run r \<and> cancelled now r q
   \<or> action = ''requeue'' \<and> requeueable_run r \<and> requeued now r q \<or> action = ''rerun'' \<and> rerunnable_run r \<and> rerun now r q"

definition answered :: "int \<Rightarrow> string \<Rightarrow> (time \<Rightarrow> review_run \<Rightarrow> review_run \<Rightarrow> bool) \<Rightarrow> db \<Rightarrow> admin_response \<Rightarrow> db \<Rightarrow> bool" where
  "answered i action out s res t \<longleftrightarrow> (case snd res of
     AdminRun d \<Rightarrow> fst res = 200 \<and> audited_action i action out s d t
   | AdminIdentity _ \<Rightarrow> False
   | AdminError _ \<Rightarrow> same_tables s t)"

lemma answered_mono: "answered i action out s res t \<Longrightarrow> (\<And>now r q. out now r q \<Longrightarrow> out' now r q) \<Longrightarrow> answered i action out' s res t"
  unfolding answered_def audited_action_def by (cases "snd res") (simp_all, metis)

context run_action
begin

lemma request_answered:
  assumes "runs_inv s"
  shows "\<exists>res t. action_answer AdminRun (runAction decode i ''admin'' action (mutate i)) s = (Inr res, t)
    \<and> answered i action (\<lambda>now r q. allowed r \<and> outcome now r q) s res t"
proof -
  have admin: "actor_name ''admin'' = ''admin''" by code_simp
  obtain r t where run: "runAction decode i ''admin'' action (mutate i) s = (r, t)" by fastforce
  show ?thesis
  proof (cases r)
    case (Inl e)
    from run have "same_tables s t" unfolding runAction_def Inl by (rule run_tx_error_same_tables)
    with run show ?thesis
      by (cases e) (auto simp: Inl action_answer_def tryM_def ret_def answered_def)
  next
    case (Inr d)
    note act = action_done [OF run [unfolded Inr] assms, unfolded admin]
    have "audited_action i action (\<lambda>now r q. allowed r \<and> outcome now r q) s d t"
      unfolding audited_action_def using act by blast
    with run show ?thesis by (simp add: Inr action_answer_def tryM_def ret_def answered_def)
  qed
qed

end

text \<open>C5 (operator actions). Every request to act on a run is answered. When the answer is an error, no table has changed: a wrong
  token, a bad id, an unknown action, a run in the wrong state, a failure of the database or of the transaction. When
  it is the run, the action was allowed in the run's state and did what it is named for: a retried, requeued or rerun
  run can be claimed by a worker at once, a cancelled one never; no other run changed, and the audit log has one new row
  with the operator and the runs involved.\<close>

theorem admin_action_effect:
  assumes "runs_inv s"
  shows "\<exists>code body t. admin_run_action token decode r s = (Inr (code, body), t)
    \<and> (case body of
        AdminRun d \<Rightarrow> code = 200 \<and> (trim_space token = [] \<or> hasBearerToken r token)
          \<and> (\<exists>i. parse_int64 (ar_id r) = Some i
               \<and> audited_action i (trim_space (ar_action r) @ ''_run'') (action_outcome (trim_space (ar_action r))) s d t)
      | AdminIdentity _ \<Rightarrow> False
      | AdminError _ \<Rightarrow> same_tables s t)"
proof -
  have err: ?thesis if "admin_run_action token decode r s = (Inr (code, AdminError m), s)" for code m
    unfolding that using same.R_refl [of s] by auto
  show ?thesis
  proof (cases "(trim_space token = [] \<or> hasBearerToken r token) \<and> (case parse_int64 (ar_id r) of Some i \<Rightarrow> i > 0 | None \<Rightarrow> False)
      \<and> trim_space (ar_action r) \<in> {''retry'', ''rerun'', ''cancel'', ''requeue''}")
    case False
    then have "\<exists>code m. admin_run_action token decode r s = (Inr (code, AdminError m), s)"
      by (auto simp: admin_run_action_def Protect_def post_run_action_def ret_def Let_def split: option.split)
    then show ?thesis using err by blast
  next
    case True
    then obtain i where i: "parse_int64 (ar_id r) = Some i" "i > 0" by (auto split: option.splits)
    define act where "act = trim_space (ar_action r)"
    have act: "act \<in> {''retry'', ''rerun'', ''cancel'', ''requeue''}" using True by (simp add: act_def)
    have run: "admin_run_action token decode r s = action_answer AdminRun
        (if act = ''retry'' then RetryRun decode i ''admin'' else if act = ''rerun'' then RerunRun decode i ''admin''
         else if act = ''cancel'' then CancelRun decode i ''admin'' else RequeueRun decode i ''admin'') s"
      using True i act by (auto simp: admin_run_action_def Protect_def post_run_action_def Let_def act_def)
    have "\<exists>res t. admin_run_action token decode r s = (Inr res, t) \<and> answered i (act @ ''_run'') (action_outcome act) s res t"
      using act unfolding run insert_iff empty_iff simp_thms
      by (elim disjE)
        (use retry_action.request_answered [OF assms, of decode i "''retry_run''"]
             cancel_action.request_answered [OF assms, of decode i "''cancel_run''"]
             requeue_action.request_answered [OF assms, of decode i "''requeue_run''"]
             rerun_action.request_answered [OF assms, of decode i "''rerun_run''"]
         in \<open>fastforce simp: RetryRun_def CancelRun_def RequeueRun_def RerunRun_def action_outcome_def elim: answered_mono\<close>)+
    then obtain code body t where "admin_run_action token decode r s = (Inr (code, body), t)"
      and "answered i (act @ ''_run'') (action_outcome act) s (code, body) t" by (metis surj_pair)
    then show ?thesis using True i by (cases body) (auto simp: answered_def act_def)
  qed
qed

definition failed_run :: db where
  "failed_run = sample_db\<lparr>review_runs := \<lparr>rows = [sample_pending\<lparr>rr_status := ''failed''\<rparr>], next_id = 2\<rparr>, clock := 0\<rparr>"

definition retry_request :: admin_request where
  "retry_request = \<lparr>ar_authorization = ''Bearer t0ken'', ar_id = ''1'', ar_action = ''retry'', ar_body = None\<rparr>"

theorem admin_action_effect_witness:
  "\<exists>d t. admin_run_action ''t0ken'' (\<lambda>_. None) retry_request failed_run = (Inr (200, AdminRun d), t)
    \<and> audited_action 1 ''retry_run'' (action_outcome ''retry'') failed_run d t"
proof -
  have inv: "runs_inv failed_run" by code_simp
  have no: "\<not> (case snd (projr (fst (admin_run_action ''t0ken'' (\<lambda>_. None) retry_request failed_run))) of AdminError _ \<Rightarrow> True | _ \<Rightarrow> False)"
    and i: "parse_int64 (ar_id retry_request) = Some 1" and a: "trim_space (ar_action retry_request) = ''retry''"
    by code_simp+
  obtain code body t where res: "admin_run_action ''t0ken'' (\<lambda>_. None) retry_request failed_run = (Inr (code, body), t)"
    and eff: "case body of
        AdminRun d \<Rightarrow> code = 200 \<and> (trim_space ''t0ken'' = [] \<or> hasBearerToken retry_request ''t0ken'')
          \<and> (\<exists>i. parse_int64 (ar_id retry_request) = Some i \<and> audited_action i (trim_space (ar_action retry_request) @ ''_run'')
               (action_outcome (trim_space (ar_action retry_request))) failed_run d t)
      | AdminIdentity _ \<Rightarrow> False | AdminError _ \<Rightarrow> same_tables failed_run t"
    using admin_action_effect [OF inv, of "''t0ken''" "\<lambda>_. None" retry_request] by blast
  show ?thesis using no eff unfolding res i a by (cases body) auto
qed

end
