(* ===== verification/Gitlab_Client.thy ===== *)
theory Gitlab_Client
  imports Review_Input Platform_Publish Scheduler
begin

text \<open>
  The GitLab client, \<^verbatim>\<open>internal/gitlab/client.go\<close> and \<^verbatim>\<open>discussions.go\<close>, and the adapter \<^verbatim>\<open>internal/platform/gitlab/adapter.go\<close>: requests with
  their retries, lists read page by page, the diffs of a merge request with their fallbacks, the snapshot a review starts
  from, and the comments it posts. The state is the list of what the client has done so far; the server, the limiter, the
  clock, sleeping and the jitter are parameters that answer by it. Composing and parsing of URLs, the format of dates
  and JSON reading and writing are parameters. Closing a body does not fail.
\<close>

subsection \<open>Requests and answers\<close>

record http_request =
  hrq_method :: string
  hrq_url :: string
  hrq_token :: string
  hrq_body :: "string option"

record http_response =
  hrs_status :: int
  hrs_header :: "string \<Rightarrow> string"
  hrs_body :: string

datatype client_event = Sent http_request | Slept int | Waited string

type_synonym client_log = "client_event list"

datatype client_error =
    HTTPStatusError string string int string
  | TransportError string
  | LimiterError
  | SleepError
  | URLError
  | EncodeError
  | DecodeError
  | InvalidNextPage string string
  | ErrFileNotFound
  | ErrDiffNotReady
  | DiffNotReadyError int int nat

type_synonym 'a client_call = "client_log \<Rightarrow> (client_error + 'a) \<times> client_log"

record gitlab_api =
  api_token :: string
  api_build_url :: "string \<Rightarrow> (string \<times> string) list \<Rightarrow> string option"
  api_path_escape :: "string \<Rightarrow> string"
  api_do :: "client_log \<Rightarrow> http_request \<Rightarrow> string + http_response"
  api_limiter :: "(client_log \<Rightarrow> string \<Rightarrow> bool) option"
  api_sleep :: "client_log \<Rightarrow> int \<Rightarrow> bool"
  api_now :: "client_log \<Rightarrow> int"
  api_jitter :: "client_log \<Rightarrow> int \<Rightarrow> int"
  api_parse_time :: "string \<Rightarrow> int option"
  api_decode :: "string \<Rightarrow> json option"
  api_marshal :: "json \<Rightarrow> string option"
  api_diff_not_ready_max_retries :: nat
  api_diff_not_ready_delay :: "nat \<Rightarrow> int"
  api_rate_limit_max_retries :: nat
  api_rate_limit_delay :: "nat \<Rightarrow> int"

definition client_ret :: "'a \<Rightarrow> 'a client_call" where
  "client_ret x w = (Inr x, w)"

definition client_fail :: "client_error \<Rightarrow> 'a client_call" where
  "client_fail e w = (Inl e, w)"

definition client_bind :: "'a client_call \<Rightarrow> ('a \<Rightarrow> 'b client_call) \<Rightarrow> 'b client_call" where
  "client_bind m f w = (case m w of (Inl e, w') \<Rightarrow> (Inl e, w') | (Inr x, w') \<Rightarrow> f x w')"

subsection \<open>Delays\<close>

definition defaultPerPage :: int where
  "defaultPerPage = 100"

fun delay_loop :: "int \<Rightarrow> int \<Rightarrow> nat \<Rightarrow> int" where
  "delay_loop mx delay 0 = (if mx > 0 \<and> delay > mx then mx else delay)"
| "delay_loop mx delay (Suc n) = (if mx > 0 \<and> delay \<ge> mx div 2 then mx else delay_loop mx (wrap64 (delay * 2)) n)"

definition cappedExponentialDelay :: "int \<Rightarrow> int \<Rightarrow> nat \<Rightarrow> int" where
  "cappedExponentialDelay base mx attempt = (if base \<le> 0 then 0 else delay_loop mx base attempt)"

definition parseRetryAfter :: "(string \<Rightarrow> int option) \<Rightarrow> string \<Rightarrow> int \<Rightarrow> int" where
  "parseRetryAfter parse_time value0 now =
     (let v = trim_space value0 in
      if v = [] then 0
      else case parse_int64 v of
        Some seconds \<Rightarrow> if seconds < 0 then 0 else wrap64 (seconds * 1000000000)
      | None \<Rightarrow> (case parse_time v of
          None \<Rightarrow> 0
        | Some when \<Rightarrow> if when < now then 0 else when - now))"

fun scope_of :: "string list \<Rightarrow> string" where
  "scope_of (a # b # ps) = (if a = ''projects'' \<and> b \<noteq> [] then b else scope_of (b # ps))"
| "scope_of _ = ''global''"

definition rateLimitScopeKey :: "string \<Rightarrow> string" where
  "rateLimitScopeKey apiPath = scope_of (split_char (CHR ''/'') (trim_left_set (trim_right_set apiPath ''/'') ''/''))"

subsection \<open>One request\<close>

definition retry_wait :: "gitlab_api \<Rightarrow> client_log \<Rightarrow> nat \<Rightarrow> http_response \<Rightarrow> int" where
  "retry_wait c w attempt resp =
     (let delay = api_rate_limit_delay c attempt;
          d = delay + api_jitter c w delay;
          retryAfter = parseRetryAfter (api_parse_time c) (hrs_header resp ''Retry-After'') (api_now c w)
      in if retryAfter > d then retryAfter else d)"

text \<open>\<^verbatim>\<open>readBodyPreview\<close>: the first 4096 bytes, trimmed.\<close>

definition readBodyPreview :: "string \<Rightarrow> string" where
  "readBodyPreview body = trim_space (take 4096 body)"

definition status_error :: "http_request \<Rightarrow> http_response \<Rightarrow> client_error" where
  "status_error req resp = HTTPStatusError (hrq_method req) (hrq_url req) (hrs_status resp) (readBodyPreview (hrs_body resp))"

text \<open>The loop of \<^verbatim>\<open>doJSON\<close>; \<open>left\<close> is the number of retries that are left.\<close>

fun send_loop :: "gitlab_api \<Rightarrow> http_request \<Rightarrow> nat \<Rightarrow> nat \<Rightarrow> http_response client_call" where
  "send_loop c req left attempt w = (case api_do c w req of
     Inl e \<Rightarrow> (Inl (TransportError e), w @ [Sent req])
   | Inr resp \<Rightarrow>
       let w1 = w @ [Sent req] in
       if hrs_status resp = 429 then
         (case left of
            0 \<Rightarrow> (Inl (status_error req resp), w1)
          | Suc n \<Rightarrow>
              let delay = retry_wait c w1 attempt resp; w2 = w1 @ [Slept delay] in
              if api_sleep c w1 delay then send_loop c req n (Suc attempt) w2 else (Inl SleepError, w2))
       else if hrs_status resp < 200 \<or> hrs_status resp \<ge> 300 then (Inl (status_error req resp), w1)
       else (Inr resp, w1))"

definition limiter_wait :: "gitlab_api \<Rightarrow> string \<Rightarrow> unit client_call" where
  "limiter_wait c apiPath w = (case api_limiter c of
     None \<Rightarrow> (Inr (), w)
   | Some wait \<Rightarrow>
       let scope = rateLimitScopeKey apiPath in
       ((if wait w scope then Inr () else Inl LimiterError), w @ [Waited scope]))"

definition send_request :: "gitlab_api \<Rightarrow> string \<Rightarrow> string \<Rightarrow> (string \<times> string) list \<Rightarrow> json option \<Rightarrow> http_response client_call" where
  "send_request c mth apiPath query payload =
     client_bind (limiter_wait c apiPath) (\<lambda>_.
       case api_build_url c apiPath query of
         None \<Rightarrow> client_fail URLError
       | Some url \<Rightarrow> (case payload of
           None \<Rightarrow> send_loop c \<lparr>hrq_method = mth, hrq_url = url, hrq_token = api_token c, hrq_body = None\<rparr> (api_rate_limit_max_retries c) 0
         | Some j \<Rightarrow> (case api_marshal c j of
             None \<Rightarrow> client_fail EncodeError
           | Some body \<Rightarrow> send_loop c \<lparr>hrq_method = mth, hrq_url = url, hrq_token = api_token c, hrq_body = Some body\<rparr> (api_rate_limit_max_retries c) 0)))"

text \<open>\<open>dest\<close> reads the value; \<open>None\<close> is a value of the wrong type.\<close>

definition read_answer :: "gitlab_api \<Rightarrow> (json \<Rightarrow> 'a option) \<Rightarrow> http_response \<Rightarrow> ('a \<times> http_response) client_call" where
  "read_answer c dest resp = (case Option.bind (api_decode c (hrs_body resp)) dest of
     None \<Rightarrow> client_fail DecodeError | Some x \<Rightarrow> client_ret (x, resp))"

definition doJSON :: "gitlab_api \<Rightarrow> string \<Rightarrow> string \<Rightarrow> (string \<times> string) list \<Rightarrow> (json \<Rightarrow> 'a option) \<Rightarrow> ('a \<times> http_response) client_call" where
  "doJSON c mth apiPath query dest = client_bind (send_request c mth apiPath query None) (read_answer c dest)"

text \<open>A request with a body; without a destination the answer is discarded.\<close>

definition doJSONWithBody :: "gitlab_api \<Rightarrow> string \<Rightarrow> string \<Rightarrow> json \<Rightarrow> (json \<Rightarrow> 'a option) \<Rightarrow> ('a \<times> http_response) client_call" where
  "doJSONWithBody c mth apiPath payload dest = client_bind (send_request c mth apiPath [] (Some payload)) (read_answer c dest)"

definition doJSONDiscard :: "gitlab_api \<Rightarrow> string \<Rightarrow> string \<Rightarrow> json \<Rightarrow> unit client_call" where
  "doJSONDiscard c mth apiPath payload = client_bind (send_request c mth apiPath [] (Some payload)) (\<lambda>_. client_ret ())"

subsection \<open>Paths\<close>

definition mergeRequestPathByProjectRef :: "gitlab_api \<Rightarrow> string \<Rightarrow> int \<Rightarrow> string \<Rightarrow> string" where
  "mergeRequestPathByProjectRef c projectRef iid suffix =
     ''/api/v4/projects/'' @ api_path_escape c (trim_space projectRef) @ ''/merge_requests/'' @ itoa iid @ suffix"

definition mergeRequestPath :: "gitlab_api \<Rightarrow> int \<Rightarrow> int \<Rightarrow> string \<Rightarrow> string" where
  "mergeRequestPath c projectID iid suffix = mergeRequestPathByProjectRef c (itoa projectID) iid suffix"

definition projectCommitStatusPath :: "gitlab_api \<Rightarrow> int \<Rightarrow> string \<Rightarrow> string" where
  "projectCommitStatusPath c projectID sha =
     ''/api/v4/projects/'' @ api_path_escape c (itoa projectID) @ ''/statuses/'' @ api_path_escape c (trim_space sha)"

subsection \<open>Pages\<close>

definition page_query :: "int \<Rightarrow> (string \<times> string) list" where
  "page_query pg = [(''page'', itoa pg), (''per_page'', itoa defaultPerPage)]"

text \<open>The three list operations share this loop. The next page is a number of 64 bits larger than the page, so the loop ends.\<close>

definition next_page :: "int \<Rightarrow> http_response \<Rightarrow> string + int option" where
  "next_page pg resp =
     (let nextPage = trim_space (hrs_header resp ''X-Next-Page'') in
      if nextPage = [] then Inr None
      else case parse_int64 nextPage of
        None \<Rightarrow> Inl nextPage
      | Some n \<Rightarrow> if n \<le> pg then Inl nextPage else Inr (Some n))"

lemma parse_int64_bound: "parse_int64 t = Some n \<Longrightarrow> n < 2 ^ 63"
  by (auto simp: parse_int64_def Let_def split: if_splits prod.splits)

lemma next_page_Some: "next_page pg resp = Inr (Some n) \<Longrightarrow> pg < n \<and> n < 2 ^ 63"
  by (auto simp: next_page_def Let_def dest: parse_int64_bound split: if_splits option.splits)

function list_pages :: "gitlab_api \<Rightarrow> string \<Rightarrow> (json \<Rightarrow> 'a list option) \<Rightarrow> int \<Rightarrow> 'a list \<Rightarrow> 'a list client_call" where
  "list_pages c path dest pg acc w = (case doJSON c ''GET'' path (page_query pg) dest w of
     (Inl e, w') \<Rightarrow> (Inl e, w')
   | (Inr (batch, resp), w') \<Rightarrow> (case next_page pg resp of
       Inl nextPage \<Rightarrow> (Inl (InvalidNextPage nextPage path), w')
     | Inr None \<Rightarrow> (Inr (acc @ batch), w')
     | Inr (Some n) \<Rightarrow> list_pages c path dest n (acc @ batch) w'))"
  by pat_completeness auto
termination
  by (relation "measure (\<lambda>(c, path, dest, pg, acc, w). nat (2 ^ 63 - pg))") (auto dest!: next_page_Some)

declare list_pages.simps [simp del]
declare send_loop.simps [simp del]

subsection \<open>Merge requests\<close>

record diff_refs =
  dr_base_sha :: string
  dr_head_sha :: string
  dr_start_sha :: string

record gitlab_merge_request =
  gmr_gitlab_id :: int
  gmr_iid :: int
  gmr_project_id :: int
  gmr_title :: string
  gmr_description :: string
  gmr_state :: string
  gmr_draft :: bool
  gmr_source_branch :: string
  gmr_target_branch :: string
  gmr_head_sha :: string
  gmr_detailed_merge_status :: string
  gmr_has_conflicts :: bool
  gmr_web_url :: string
  gmr_diff_refs :: "diff_refs option"
  gmr_author :: string

record gitlab_version =
  gv_id :: int
  gv_head_sha :: string
  gv_base_sha :: string
  gv_start_sha :: string
  gv_patch_id_sha :: string
  gv_created_at :: int

record gitlab_commit =
  gc_sha :: string
  gc_title :: string
  gc_message :: string
  gc_author_name :: string
  gc_author_email :: string
  gc_committer_name :: string
  gc_committer_email :: string

record gitlab_note =
  gn_id :: int
  gn_body :: string
  gn_author :: string

definition no_commit :: gitlab_commit where
  "no_commit = \<lparr>gc_sha = [], gc_title = [], gc_message = [], gc_author_name = [], gc_author_email = [],
     gc_committer_name = [], gc_committer_email = []\<rparr>"

text \<open>A list into a slice of structs.\<close>

fun all_of :: "(json \<Rightarrow> 'a option) \<Rightarrow> json list \<Rightarrow> 'a list option" where
  "all_of f [] = Some []"
| "all_of f (v # vs) = do { x \<leftarrow> f v; xs \<leftarrow> all_of f vs; Some (x # xs) }"

fun list_value :: "(json \<Rightarrow> 'a option) \<Rightarrow> json \<Rightarrow> 'a list option" where
  "list_value f (JArray vs) = all_of f vs"
| "list_value f JNull = Some []"
| "list_value f _ = None"

definition unmarshal_diff_refs :: "members \<Rightarrow> diff_refs option" where
  "unmarshal_diff_refs m = do { b \<leftarrow> str_of ''base_sha'' m; h \<leftarrow> str_of ''head_sha'' m; s \<leftarrow> str_of ''start_sha'' m;
     Some \<lparr>dr_base_sha = b, dr_head_sha = h, dr_start_sha = s\<rparr> }"

definition unmarshal_merge_request :: "json \<Rightarrow> gitlab_merge_request option" where
  "unmarshal_merge_request v = do {
     m \<leftarrow> struct_value v;
     gid \<leftarrow> int_of ''id'' m; iid \<leftarrow> int_of ''iid'' m; pid \<leftarrow> int_of ''project_id'' m;
     title \<leftarrow> str_of ''title'' m; descr \<leftarrow> str_of ''description'' m; state \<leftarrow> str_of ''state'' m; draft \<leftarrow> bool_of ''draft'' m;
     src \<leftarrow> str_of ''source_branch'' m; tgt \<leftarrow> str_of ''target_branch'' m; sha \<leftarrow> str_of ''sha'' m;
     dms \<leftarrow> str_of ''detailed_merge_status'' m; conflicts \<leftarrow> bool_of ''has_conflicts'' m; url \<leftarrow> str_of ''web_url'' m;
     refs \<leftarrow> struct_ptr_field None (named ''diff_refs'' m);
     dr \<leftarrow> (case refs of None \<Rightarrow> Some None | Some k \<Rightarrow> map_option Some (unmarshal_diff_refs k));
     auth \<leftarrow> struct_of ''author'' m; user \<leftarrow> str_of ''username'' auth;
     Some \<lparr>gmr_gitlab_id = gid, gmr_iid = iid, gmr_project_id = pid, gmr_title = title, gmr_description = descr, gmr_state = state,
       gmr_draft = draft, gmr_source_branch = src, gmr_target_branch = tgt, gmr_head_sha = sha, gmr_detailed_merge_status = dms,
       gmr_has_conflicts = conflicts, gmr_web_url = url, gmr_diff_refs = dr, gmr_author = user\<rparr> }"

text \<open>A time: \<^verbatim>\<open>null\<close> leaves it, a text is parsed. The zero time is 0.\<close>

fun time_field :: "(string \<Rightarrow> int option) \<Rightarrow> int \<Rightarrow> json list \<Rightarrow> int option" where
  "time_field parse acc [] = Some acc"
| "time_field parse acc (JString t # vs) = (case parse t of None \<Rightarrow> None | Some x \<Rightarrow> time_field parse x vs)"
| "time_field parse acc (JNull # vs) = time_field parse acc vs"
| "time_field parse acc (_ # vs) = None"

definition unmarshal_version :: "(string \<Rightarrow> int option) \<Rightarrow> json \<Rightarrow> gitlab_version option" where
  "unmarshal_version parse v = do {
     m \<leftarrow> struct_value v;
     vid \<leftarrow> int_of ''id'' m; h \<leftarrow> str_of ''head_commit_sha'' m; b \<leftarrow> str_of ''base_commit_sha'' m; s \<leftarrow> str_of ''start_commit_sha'' m;
     p \<leftarrow> str_of ''patch_id_sha'' m; created \<leftarrow> time_field parse 0 (named ''created_at'' m);
     _ \<leftarrow> int_of ''merge_request_id'' m; _ \<leftarrow> str_of ''state'' m; _ \<leftarrow> str_of ''real_size'' m;
     Some \<lparr>gv_id = vid, gv_head_sha = h, gv_base_sha = b, gv_start_sha = s, gv_patch_id_sha = p, gv_created_at = created\<rparr> }"

definition unmarshal_diff :: "json \<Rightarrow> merge_request_diff option" where
  "unmarshal_diff v = do {
     m \<leftarrow> struct_value v;
     oldp \<leftarrow> str_of ''old_path'' m; newp \<leftarrow> str_of ''new_path'' m; d \<leftarrow> str_of ''diff'' m;
     am \<leftarrow> str_of ''a_mode'' m; bm \<leftarrow> str_of ''b_mode'' m; new \<leftarrow> bool_of ''new_file'' m; ren \<leftarrow> bool_of ''renamed_file'' m;
     del \<leftarrow> bool_of ''deleted_file'' m; gen \<leftarrow> bool_of ''generated_file'' m; col \<leftarrow> bool_of ''collapsed'' m; big \<leftarrow> bool_of ''too_large'' m;
     Some \<lparr>md_old_path = oldp, md_new_path = newp, md_diff = d, md_a_mode = am, md_b_mode = bm, md_new_file = new, md_renamed_file = ren,
       md_deleted_file = del, md_generated_file = gen, md_collapsed = col, md_too_large = big\<rparr> }"

definition unmarshal_commit :: "json \<Rightarrow> gitlab_commit option" where
  "unmarshal_commit v = do {
     m \<leftarrow> struct_value v;
     sha \<leftarrow> str_of ''id'' m; title \<leftarrow> str_of ''title'' m; msg \<leftarrow> str_of ''message'' m; an \<leftarrow> str_of ''author_name'' m;
     ae \<leftarrow> str_of ''author_email'' m; cn \<leftarrow> str_of ''committer_name'' m; ce \<leftarrow> str_of ''committer_email'' m;
     Some \<lparr>gc_sha = sha, gc_title = title, gc_message = msg, gc_author_name = an, gc_author_email = ae, gc_committer_name = cn,
       gc_committer_email = ce\<rparr> }"

definition unmarshal_note :: "json \<Rightarrow> gitlab_note option" where
  "unmarshal_note v = do {
     m \<leftarrow> struct_value v; i \<leftarrow> int_of ''id'' m; b \<leftarrow> str_of ''body'' m; a \<leftarrow> struct_of ''author'' m; u \<leftarrow> str_of ''username'' a;
     Some \<lparr>gn_id = i, gn_body = b, gn_author = u\<rparr> }"

text \<open>A member that is repeated takes its last value.\<close>

definition changes_value :: "json \<Rightarrow> merge_request_diff list option" where
  "changes_value v = do {
     m \<leftarrow> struct_value v;
     (case named ''changes'' m of [] \<Rightarrow> Some [] | vs \<Rightarrow> list_value unmarshal_diff (last vs)) }"

definition GetMergeRequestByProjectRef :: "gitlab_api \<Rightarrow> string \<Rightarrow> int \<Rightarrow> gitlab_merge_request client_call" where
  "GetMergeRequestByProjectRef c projectRef iid =
     client_bind (doJSON c ''GET'' (mergeRequestPathByProjectRef c projectRef iid []) [] unmarshal_merge_request) (\<lambda>(mr, _). client_ret mr)"

definition newerThan :: "gitlab_version \<Rightarrow> gitlab_version \<Rightarrow> bool" where
  "newerThan v w \<longleftrightarrow> (if gv_created_at v \<noteq> gv_created_at w then gv_created_at v > gv_created_at w else gv_id v > gv_id w)"

definition newest :: "gitlab_version \<Rightarrow> gitlab_version list \<Rightarrow> gitlab_version" where
  "newest v vs = foldl (\<lambda>l x. if newerThan x l then x else l) v vs"

definition version_ready :: "gitlab_version \<Rightarrow> bool" where
  "version_ready v \<longleftrightarrow> gv_base_sha v \<noteq> [] \<and> gv_start_sha v \<noteq> [] \<and> gv_head_sha v \<noteq> []"

definition GetMergeRequestVersions :: "gitlab_api \<Rightarrow> int \<Rightarrow> int \<Rightarrow> gitlab_version client_call" where
  "GetMergeRequestVersions c projectID iid =
     client_bind (doJSON c ''GET'' (mergeRequestPath c projectID iid ''/versions'') [] (list_value (unmarshal_version (api_parse_time c))))
       (\<lambda>(versions, _). case versions of
          [] \<Rightarrow> client_fail ErrDiffNotReady
        | v # vs \<Rightarrow>
            let latest = newest v vs in
            if version_ready latest then client_ret latest else client_fail ErrDiffNotReady)"

subsection \<open>Diffs\<close>

definition getMergeRequestDiffsPaginated :: "gitlab_api \<Rightarrow> int \<Rightarrow> int \<Rightarrow> merge_request_diff list client_call" where
  "getMergeRequestDiffsPaginated c projectID iid =
     list_pages c (mergeRequestPath c projectID iid ''/diffs'') (list_value unmarshal_diff) 1 []"

definition getMergeRequestDiffsPlain :: "gitlab_api \<Rightarrow> int \<Rightarrow> int \<Rightarrow> merge_request_diff list client_call" where
  "getMergeRequestDiffsPlain c projectID iid =
     client_bind (doJSON c ''GET'' (mergeRequestPath c projectID iid ''/diffs'') [] (list_value unmarshal_diff)) (\<lambda>(ds, _). client_ret ds)"

definition getMergeRequestDiffsFromChanges :: "gitlab_api \<Rightarrow> int \<Rightarrow> int \<Rightarrow> merge_request_diff list client_call" where
  "getMergeRequestDiffsFromChanges c projectID iid =
     client_bind (doJSON c ''GET'' (mergeRequestPath c projectID iid ''/changes'') [] changes_value) (\<lambda>(ds, _). client_ret ds)"

fun isRetriableDiffEndpointError :: "client_error \<Rightarrow> bool" where
  "isRetriableDiffEndpointError (HTTPStatusError m u status b) = (status \<ge> 500)"
| "isRetriableDiffEndpointError _ = False"

definition GetMergeRequestDiffs :: "gitlab_api \<Rightarrow> int \<Rightarrow> int \<Rightarrow> merge_request_diff list client_call" where
  "GetMergeRequestDiffs c projectID iid w = (case getMergeRequestDiffsPaginated c projectID iid w of
     (Inr ds, w1) \<Rightarrow> (Inr ds, w1)
   | (Inl e, w1) \<Rightarrow>
       if \<not> isRetriableDiffEndpointError e then (Inl e, w1)
       else (case getMergeRequestDiffsPlain c projectID iid w1 of
         (Inr ds, w2) \<Rightarrow> (Inr ds, w2)
       | (Inl e2, w2) \<Rightarrow>
           if \<not> isRetriableDiffEndpointError e2 then (Inl e2, w2)
           else getMergeRequestDiffsFromChanges c projectID iid w2))"

subsection \<open>The snapshot\<close>

record gitlab_snapshot =
  gs_merge_request :: gitlab_merge_request
  gs_version :: gitlab_version
  gs_head_commit :: gitlab_commit
  gs_diffs :: "merge_request_diff list"

definition diffRefsReady :: "gitlab_merge_request \<Rightarrow> bool" where
  "diffRefsReady mr \<longleftrightarrow> (case gmr_diff_refs mr of None \<Rightarrow> False
     | Some r \<Rightarrow> dr_base_sha r \<noteq> [] \<and> dr_head_sha r \<noteq> [] \<and> dr_start_sha r \<noteq> [])"

definition GetCommitByProjectRef :: "gitlab_api \<Rightarrow> string \<Rightarrow> string \<Rightarrow> gitlab_commit client_call" where
  "GetCommitByProjectRef c projectRef sha =
     client_bind (doJSON c ''GET'' (''/api/v4/projects/'' @ api_path_escape c projectRef @ ''/repository/commits/'' @ api_path_escape c sha) [] unmarshal_commit)
       (\<lambda>(x, _). client_ret x)"

fun not_ready :: "client_error \<Rightarrow> bool" where
  "not_ready ErrDiffNotReady = True"
| "not_ready (DiffNotReadyError p i n) = True"
| "not_ready _ = False"

definition take_snapshot :: "gitlab_api \<Rightarrow> string \<Rightarrow> int \<Rightarrow> gitlab_merge_request \<Rightarrow> gitlab_version \<Rightarrow> gitlab_snapshot client_call" where
  "take_snapshot c projectRef iid mr version =
     client_bind (GetMergeRequestDiffs c (gmr_project_id mr) iid) (\<lambda>ds w. case GetCommitByProjectRef c projectRef (gmr_head_sha mr) w of
       (r, w') \<Rightarrow> (Inr \<lparr>gs_merge_request = mr, gs_version = version, gs_head_commit = (case r of Inl _ \<Rightarrow> no_commit | Inr x \<Rightarrow> x), gs_diffs = ds\<rparr>, w'))"

text \<open>\<open>left\<close> is the number of attempts after this one.\<close>

fun snapshot_loop :: "gitlab_api \<Rightarrow> string \<Rightarrow> int \<Rightarrow> nat \<Rightarrow> nat \<Rightarrow> gitlab_snapshot client_call" where
  "snapshot_loop c projectRef iid left attempt w = (case GetMergeRequestByProjectRef c projectRef iid w of
     (Inl e, w1) \<Rightarrow> (Inl e, w1)
   | (Inr mr, w1) \<Rightarrow> (case GetMergeRequestVersions c (gmr_project_id mr) iid w1 of (v, w2) \<Rightarrow>
       let retry = (case left of
             0 \<Rightarrow> (Inl (DiffNotReadyError (gmr_project_id mr) iid (Suc attempt)), w2)
           | Suc n \<Rightarrow>
               let delay = api_diff_not_ready_delay c attempt; w3 = w2 @ [Slept delay] in
               if api_sleep c w2 delay then snapshot_loop c projectRef iid n (Suc attempt) w3 else (Inl SleepError, w3))
       in case v of
         Inl e \<Rightarrow> if not_ready e then retry else (Inl e, w2)
       | Inr version \<Rightarrow> if diffRefsReady mr then take_snapshot c projectRef iid mr version w2 else retry))"

declare snapshot_loop.simps [simp del]

definition GetMergeRequestSnapshotByProjectRef :: "gitlab_api \<Rightarrow> string \<Rightarrow> int \<Rightarrow> gitlab_snapshot client_call" where
  "GetMergeRequestSnapshotByProjectRef c projectRef iid = snapshot_loop c projectRef iid (api_diff_not_ready_max_retries c) 0"

subsection \<open>Files, notes and comments\<close>

text \<open>A file is read without the limiter and without retries.\<close>

definition GetRepositoryFileByRepositoryRef :: "gitlab_api \<Rightarrow> string \<Rightarrow> string \<Rightarrow> string \<Rightarrow> string client_call" where
  "GetRepositoryFileByRepositoryRef c repositoryRef filePath ref w =
     (case api_build_url c (''/api/v4/projects/'' @ api_path_escape c repositoryRef @ ''/repository/files/'' @ api_path_escape c filePath @ ''/raw'')
         (if trim_space ref \<noteq> [] then [(''ref'', ref)] else []) of
        None \<Rightarrow> (Inl URLError, w)
      | Some url \<Rightarrow>
          let req = \<lparr>hrq_method = ''GET'', hrq_url = url, hrq_token = api_token c, hrq_body = None\<rparr>; w1 = w @ [Sent req] in
          case api_do c w req of
            Inl e \<Rightarrow> (Inl (TransportError e), w1)
          | Inr resp \<Rightarrow>
              if hrs_status resp = 404 then (Inl ErrFileNotFound, w1)
              else if hrs_status resp < 200 \<or> hrs_status resp \<ge> 300 then (Inl (status_error req resp), w1)
              else (Inr (hrs_body resp), w1))"

definition listMergeRequestNotes :: "gitlab_api \<Rightarrow> string \<Rightarrow> int \<Rightarrow> gitlab_note list client_call" where
  "listMergeRequestNotes c projectRef iid =
     list_pages c (mergeRequestPathByProjectRef c projectRef iid ''/notes'') (list_value unmarshal_note) 1 []"

definition line_json :: "string \<Rightarrow> int option \<Rightarrow> members" where
  "line_json k l = (case l of None \<Rightarrow> [] | Some n \<Rightarrow> [(k, JNumber (itoa n))])"

definition range_line_json :: "range_line \<Rightarrow> json" where
  "range_line_json r = JObject ([(''line_code'', JString (rg_line_code r))] @ (if rg_line_type r = [] then [] else [(''type'', JString (rg_line_type r))])
     @ line_json ''old_line'' (rg_old_line r) @ line_json ''new_line'' (rg_new_line r))"

definition position_json :: "position \<Rightarrow> json" where
  "position_json p = JObject ([(''position_type'', JString (po_position_type p)), (''base_sha'', JString (po_base_sha p)),
       (''start_sha'', JString (po_start_sha p)), (''head_sha'', JString (po_head_sha p)), (''old_path'', JString (po_old_path p)),
       (''new_path'', JString (po_new_path p))] @ line_json ''old_line'' (po_old_line p) @ line_json ''new_line'' (po_new_line p)
     @ (case po_line_range p of None \<Rightarrow> []
        | Some r \<Rightarrow> [(''line_range'', JObject [(''start'', range_line_json (lr_start r)), (''end'', range_line_json (lr_end r))])]))"

text \<open>An id decoded into \<^verbatim>\<open>any\<close>: a number is a float that is cut to an integer.\<close>

fun stringifyDiscussionID :: "(json \<Rightarrow> string) \<Rightarrow> json \<Rightarrow> string" where
  "stringifyDiscussionID sprint JNull = []"
| "stringifyDiscussionID sprint (JString s) = s"
| "stringifyDiscussionID sprint (JNumber t) = (case parse_float64 t of None \<Rightarrow> [] | Some x \<Rightarrow> itoa (int_of_float x))"
| "stringifyDiscussionID sprint v = trim_space (sprint v)"

definition id_value :: "json \<Rightarrow> json option" where
  "id_value v = do { m \<leftarrow> struct_value v; Some (case named ''id'' m of [] \<Rightarrow> JNull | vs \<Rightarrow> last vs) }"

definition client_CreateDiscussion :: "(json \<Rightarrow> string) \<Rightarrow> gitlab_api \<Rightarrow> create_discussion_request \<Rightarrow> string client_call" where
  "client_CreateDiscussion sprint c req =
     client_bind (doJSONWithBody c ''POST'' (mergeRequestPath c (cdr_project_id req) (cdr_merge_request_iid req) ''/discussions'')
         (JObject [(''body'', JString (cdr_body req)), (''position'', position_json (cdr_position req))]) id_value)
       (\<lambda>(v, _). client_ret (stringifyDiscussionID sprint v))"

definition client_CreateNote :: "(json \<Rightarrow> string) \<Rightarrow> gitlab_api \<Rightarrow> create_note_request \<Rightarrow> string client_call" where
  "client_CreateNote sprint c req =
     client_bind (doJSONWithBody c ''POST'' (mergeRequestPath c (cnr_project_id req) (cnr_merge_request_iid req) ''/notes'')
         (JObject [(''body'', JString (cnr_body req))]) id_value)
       (\<lambda>(v, _). client_ret (stringifyDiscussionID sprint v))"

definition client_ResolveDiscussion :: "gitlab_api \<Rightarrow> resolve_discussion_request \<Rightarrow> unit client_call" where
  "client_ResolveDiscussion c req =
     doJSONDiscard c ''PUT'' (mergeRequestPath c (rdr_project_id req) (rdr_merge_request_iid req)
         (''/discussions/'' @ api_path_escape c (trim_space (rdr_discussion_id req))))
       (JObject [(''resolved'', JBool (rdr_resolved req))])"

record commit_status_request =
  csr_project_id :: int
  csr_sha :: string
  csr_state :: string
  csr_name :: string
  csr_description :: string
  csr_ref :: string
  csr_target_url :: string

definition SetCommitStatus :: "gitlab_api \<Rightarrow> commit_status_request \<Rightarrow> unit client_call" where
  "SetCommitStatus c req =
     doJSONDiscard c ''POST'' (projectCommitStatusPath c (csr_project_id req) (csr_sha req))
       (JObject ([(''description'', JString (trim_space (csr_description req))), (''name'', JString (trim_space (csr_name req)))]
         @ (if trim_space (csr_ref req) \<noteq> [] then [(''ref'', JString (trim_space (csr_ref req)))] else [])
         @ [(''state'', JString (trim_space (csr_state req)))]
         @ (if trim_space (csr_target_url req) \<noteq> [] then [(''target_url'', JString (trim_space (csr_target_url req)))] else [])))"

subsection \<open>The adapter\<close>

text \<open>\<open>parse\<close> is \<^verbatim>\<open>url.Parse\<close>: scheme, host and path.\<close>

definition trim_slashes :: "string \<Rightarrow> string" where
  "trim_slashes s = trim_left_set (trim_right_set s ''/'') ''/''"

definition ResolveTarget :: "(string \<Rightarrow> (string \<times> string \<times> string) option) \<Rightarrow> string \<Rightarrow> review_target option" where
  "ResolveTarget parse rawURL = (case parse (trim_space rawURL) of
     None \<Rightarrow> None
   | Some (scheme, host, path) \<Rightarrow> (case split_n2 (trim_slashes path) ''/-/merge_requests/'' of
       [repo, rest] \<Rightarrow> (case parse_int64 (trim_slashes rest) of
         None \<Rightarrow> None
       | Some n \<Rightarrow> Some \<lparr>rt_platform = ''gitlab'', rt_url = trim_space rawURL, rt_repository = trim_slashes repo, rt_project_id = 0,
           rt_change_number = n, rt_base_url = trim_right_set (scheme @ ''://'' @ host) ''/''\<rparr>)
     | _ \<Rightarrow> None))"

definition platform_diff_of :: "merge_request_diff \<Rightarrow> platform_diff" where
  "platform_diff_of d = \<lparr>pdf_old_path = md_old_path d, pdf_new_path = md_new_path d, pdf_diff = md_diff d, pdf_a_mode = md_a_mode d,
     pdf_b_mode = md_b_mode d, pdf_new_file = md_new_file d, pdf_renamed_file = md_renamed_file d, pdf_deleted_file = md_deleted_file d,
     pdf_generated_file = md_generated_file d, pdf_collapsed = md_collapsed d, pdf_too_large = md_too_large d\<rparr>"

definition platform_snapshot_of :: "review_target \<Rightarrow> gitlab_snapshot \<Rightarrow> platform_snapshot" where
  "platform_snapshot_of target0 s =
     (let mr = gs_merge_request s; v = gs_version s; h = gs_head_commit s;
          target = (if rt_project_id target0 \<le> 0 \<and> gmr_project_id mr > 0 then target0\<lparr>rt_project_id := gmr_project_id mr\<rparr> else target0);
          person = (\<lambda>n e. \<lparr>pa_user_id = [], pa_username = [], pa_name = n, pa_email = e\<rparr>)
      in \<lparr>psn_target = target,
          psn_change = \<lparr>pch_platform_id = itoa (gmr_gitlab_id mr), pch_project_id = gmr_project_id mr, pch_number = gmr_iid mr,
            pch_title = gmr_title mr, pch_description = gmr_description mr, pch_state = gmr_state mr, pch_draft = gmr_draft mr,
            pch_source_branch = gmr_source_branch mr, pch_target_branch = gmr_target_branch mr, pch_head_sha = gmr_head_sha mr,
            pch_web_url = gmr_web_url mr, pch_author = \<lparr>pa_user_id = [], pa_username = gmr_author mr, pa_name = [], pa_email = []\<rparr>\<rparr>,
          psn_version = \<lparr>pv_platform_version_id = itoa (gv_id v), pv_base_sha = gv_base_sha v, pv_start_sha = gv_start_sha v,
            pv_head_sha = gv_head_sha v, pv_patch_id_sha = gv_patch_id_sha v\<rparr>,
          psn_head_commit = \<lparr>pcm_sha = gc_sha h, pcm_title = gc_title h, pcm_message = gc_message h,
            pcm_author = person (gc_author_name h) (gc_author_email h), pcm_committer = person (gc_committer_name h) (gc_committer_email h)\<rparr>,
          psn_diffs = map platform_diff_of (gs_diffs s)\<rparr>)"

datatype adapter_error = NoChangeNumber | NoProjectReference | ClientError client_error

definition FetchSnapshot :: "gitlab_api \<Rightarrow> review_target \<Rightarrow> client_log \<Rightarrow> (adapter_error + platform_snapshot) \<times> client_log" where
  "FetchSnapshot c target w =
     (let projectRef = (if rt_project_id target > 0 then itoa (rt_project_id target) else trim_space (rt_repository target)) in
      if rt_change_number target \<le> 0 then (Inl NoChangeNumber, w)
      else if projectRef = [] then (Inl NoProjectReference, w)
      else case GetMergeRequestSnapshotByProjectRef c projectRef (rt_change_number target) w of
        (Inl e, w') \<Rightarrow> (Inl (ClientError e), w')
      | (Inr s, w') \<Rightarrow> (Inr (platform_snapshot_of target s), w'))"

subsection \<open>Back-off and retries\<close>

lemma delay_loop_min:
  assumes "even mx" "0 < mx" "mx < 2 ^ 63"
  shows "0 < delay \<Longrightarrow> delay_loop mx delay n = min mx (delay * 2 ^ n)"
proof (induction n arbitrary: delay)
  case (Suc n)
  show ?case
  proof (cases "delay \<ge> mx div 2")
    case True
    have "mx \<le> delay * 2 * 2 ^ n"
    proof -
      have "mx \<le> delay * 2" using True assms(1) by (auto elim: evenE)
      also have "\<dots> \<le> delay * 2 * 2 ^ n" using Suc.prems by simp
      finally show ?thesis .
    qed
    then show ?thesis using True assms(2) by (simp add: mult.assoc)
  next
    case False
    then have "delay * 2 < 2 ^ 63" using assms by linarith
    then have "wrap64 (delay * 2) = delay * 2" using Suc.prems by (simp add: wrap64_def)
    then show ?thesis using False Suc by (simp add: mult.assoc)
  qed
qed (use assms in auto)

text \<open>The waiting time doubles with every attempt up to its cap.\<close>

lemma cappedExponentialDelay_min:
  "0 < base \<Longrightarrow> even mx \<Longrightarrow> 0 < mx \<Longrightarrow> mx < 2 ^ 63 \<Longrightarrow> cappedExponentialDelay base mx attempt = min mx (base * 2 ^ attempt)"
  by (simp add: cappedExponentialDelay_def delay_loop_min)

definition sent :: "client_log \<Rightarrow> http_request list" where
  "sent w = List.map_filter (\<lambda>e. case e of Sent r \<Rightarrow> Some r | _ \<Rightarrow> None) w"

lemma sent_simps [simp]:
  "sent [] = []" "sent (Sent r # w) = r # sent w" "sent (Slept d # w) = sent w" "sent (Waited x # w) = sent w"
  "sent (a @ b) = sent a @ sent b"
  by (simp_all add: sent_def map_filter_def)

lemma send_loop_sent:
  "send_loop c req left attempt w = (res, w') \<Longrightarrow> \<exists>n. sent w' = sent w @ replicate n req \<and> 0 < n \<and> n \<le> Suc left"
proof (induction left arbitrary: attempt w)
  case 0
  then show ?case
    by (subst (asm) send_loop.simps)
      (auto simp: Let_def intro!: exI [of _ "Suc 0"] split: sum.splits if_splits nat.splits)
next
  case (Suc left)
  show ?case
  proof (cases "\<exists>resp. api_do c w req = Inr resp \<and> hrs_status resp = 429 \<and> api_sleep c (w @ [Sent req]) (retry_wait c (w @ [Sent req]) attempt resp)")
    case True
    then obtain resp where r: "api_do c w req = Inr resp" "hrs_status resp = 429"
      "api_sleep c (w @ [Sent req]) (retry_wait c (w @ [Sent req]) attempt resp)" by blast
    then have "send_loop c req left (Suc attempt) (w @ [Sent req] @ [Slept (retry_wait c (w @ [Sent req]) attempt resp)]) = (res, w')"
      using Suc.prems by (subst (asm) send_loop.simps) (simp add: Let_def)
    from Suc.IH [OF this] obtain n where "sent w' = sent w @ [req] @ replicate n req" "n \<le> Suc left" by auto
    then show ?thesis by (intro exI [of _ "Suc n"]) simp
  next
    case False
    with Suc.prems show ?thesis
      by (subst (asm) send_loop.simps) (auto simp: Let_def intro!: exI [of _ "Suc 0"] split: sum.splits if_splits)
  qed
qed

text \<open>A request is sent at most once more than the retries allow, whatever the server answers.\<close>

lemma doJSON_sent:
  assumes "doJSON c mth path query dest w = (res, w')"
  shows "\<exists>n req. sent w' = sent w @ replicate n req \<and> n \<le> Suc (api_rate_limit_max_retries c)"
proof -
  have "\<exists>n req. sent w2 = sent w @ replicate n req \<and> n \<le> Suc (api_rate_limit_max_retries c)"
    if "send_request c mth path query None w = (r, w2)" for r w2
    using that send_loop_sent
    by (fastforce simp: send_request_def client_bind_def limiter_wait_def client_fail_def Let_def intro: exI [of _ 0] split: option.splits if_splits)
  then show ?thesis using assms
    by (auto simp: doJSON_def client_bind_def read_answer_def client_fail_def client_ret_def split: prod.splits sum.splits option.splits)
qed

subsection \<open>Diffs in pages\<close>

text \<open>How a server answers: \<open>answers\<close>, a request without a body is answered with a value and the number of the next page;
  \<open>refuses\<close>, it is answered with an error of the server.\<close>

definition get_request :: "gitlab_api \<Rightarrow> string \<Rightarrow> http_request" where
  "get_request c url = \<lparr>hrq_method = ''GET'', hrq_url = url, hrq_token = api_token c, hrq_body = None\<rparr>"

definition answers :: "gitlab_api \<Rightarrow> string \<Rightarrow> (string \<times> string) list \<Rightarrow> (json \<Rightarrow> 'a option) \<Rightarrow> 'a \<Rightarrow> string \<Rightarrow> bool" where
  "answers c path query dest x nxt \<longleftrightarrow> (\<exists>url resp. api_build_url c path query = Some url
     \<and> (\<forall>w. api_do c w (get_request c url) = Inr resp) \<and> 200 \<le> hrs_status resp \<and> hrs_status resp < 300
     \<and> Option.bind (api_decode c (hrs_body resp)) dest = Some x \<and> trim_space (hrs_header resp ''X-Next-Page'') = nxt)"

definition refuses :: "gitlab_api \<Rightarrow> string \<Rightarrow> (string \<times> string) list \<Rightarrow> bool" where
  "refuses c path query \<longleftrightarrow> (\<exists>url resp. api_build_url c path query = Some url
     \<and> (\<forall>w. api_do c w (get_request c url) = Inr resp) \<and> 500 \<le> hrs_status resp)"

text \<open>The first \<open>k\<close> of the pages are served, and no other.\<close>

definition serves :: "gitlab_api \<Rightarrow> string \<Rightarrow> (json \<Rightarrow> 'a list option) \<Rightarrow> 'a list list \<Rightarrow> nat \<Rightarrow> bool" where
  "serves c path dest pages k \<longleftrightarrow>
     (\<forall>j < k. answers c path (page_query (int j + 1)) dest (pages ! j) (if Suc j < length pages then itoa (int j + 2) else []))
   \<and> (k < length pages \<longrightarrow> refuses c path (page_query (int k + 1)))"

lemma doJSON_answers:
  assumes "answers c path query dest x nxt" and "api_limiter c = None"
  obtains resp w' where "doJSON c ''GET'' path query dest w = (Inr (x, resp), w')" "trim_space (hrs_header resp ''X-Next-Page'') = nxt"
proof -
  from assms(1) obtain url resp where r: "api_build_url c path query = Some url" "api_do c w (get_request c url) = Inr resp"
    "200 \<le> hrs_status resp" "hrs_status resp < 300" "Option.bind (api_decode c (hrs_body resp)) dest = Some x"
    "trim_space (hrs_header resp ''X-Next-Page'') = nxt" by (auto simp: answers_def)
  have "send_loop c (get_request c url) n 0 w = (Inr resp, w @ [Sent (get_request c url)])" for n
    using r(2-4) by (subst send_loop.simps) (simp add: Let_def)
  then have "doJSON c ''GET'' path query dest w = (Inr (x, resp), w @ [Sent (get_request c url)])"
    using r(1,5) assms(2)
    by (simp add: doJSON_def client_bind_def send_request_def limiter_wait_def read_answer_def client_ret_def get_request_def)
  then show ?thesis using that r(6) by blast
qed

lemma doJSON_refuses:
  assumes "refuses c path query" and "api_limiter c = None"
  obtains e w' where "doJSON c ''GET'' path query dest w = (Inl e, w')" "isRetriableDiffEndpointError e"
proof -
  from assms(1) obtain url resp where r: "api_build_url c path query = Some url" "api_do c w (get_request c url) = Inr resp"
    "500 \<le> hrs_status resp" by (auto simp: refuses_def)
  have "send_loop c (get_request c url) n 0 w = (Inl (status_error (get_request c url) resp), w @ [Sent (get_request c url)])" for n
    using r(2,3) by (subst send_loop.simps) (simp add: Let_def)
  then have "doJSON c ''GET'' path query dest w = (Inl (status_error (get_request c url) resp), w @ [Sent (get_request c url)])"
    using r(1) assms(2) by (simp add: doJSON_def client_bind_def send_request_def limiter_wait_def get_request_def)
  then show ?thesis using that r(3) by (simp add: status_error_def)
qed

lemma next_page_itoa:
  assumes "trim_space (hrs_header resp ''X-Next-Page'') = itoa n" and "pg < n" and "0 < n" and "n < 2 ^ 63"
  shows "next_page pg resp = Inr (Some n)"
proof -
  have n: "itoa n = nat_digits (nat n)" using assms(3) by (simp add: itoa_def)
  moreover have "parse_int64 (nat_digits (nat n)) = Some n" using parse_int64_nat_digits [of "nat n"] assms(3,4) by simp
  ultimately show ?thesis using assms(1,2) by (simp add: next_page_def Let_def)
qed

lemma list_pages_serves:
  assumes "serves c path dest pages k" and "api_limiter c = None" and "k \<le> length pages" and "length pages < 2 ^ 62" and "j < length pages" and "j \<le> k"
  shows "\<exists>r w'. list_pages c path dest (int j + 1) (concat (take j pages)) w = (r, w')
    \<and> (if k = length pages then r = Inr (concat pages) else \<exists>e. r = Inl e \<and> isRetriableDiffEndpointError e)"
  using assms(5,6)
proof (induction "length pages - j" arbitrary: j w)
  case (Suc d)
  show ?case
  proof (cases "j < k")
    case False
    then have "j = k" "k < length pages" using Suc.prems by auto
    then have "refuses c path (page_query (int j + 1))" using assms(1) by (simp add: serves_def)
    from doJSON_refuses [OF this assms(2)] obtain e w' where
      "doJSON c ''GET'' path (page_query (int j + 1)) dest w = (Inl e, w')" "isRetriableDiffEndpointError e" .
    then show ?thesis using \<open>k < length pages\<close> by (subst list_pages.simps) simp
  next
    case True
    then have "answers c path (page_query (int j + 1)) dest (pages ! j) (if Suc j < length pages then itoa (int j + 2) else [])"
      using assms(1) by (simp add: serves_def)
    from doJSON_answers [OF this assms(2)] obtain resp w' where
      d: "doJSON c ''GET'' path (page_query (int j + 1)) dest w = (Inr (pages ! j, resp), w')"
      "trim_space (hrs_header resp ''X-Next-Page'') = (if Suc j < length pages then itoa (int j + 2) else [])" .
    have acc: "concat (take j pages) @ pages ! j = concat (take (Suc j) pages)" using Suc.prems by (simp add: take_Suc_conv_app_nth)
    show ?thesis
    proof (cases "Suc j < length pages")
      case False
      then have "Suc j = length pages" "k = length pages" using Suc.prems True assms(3) by auto
      moreover have "next_page (int j + 1) resp = Inr None" using d(2) False by (simp add: next_page_def)
      ultimately show ?thesis using d(1) acc by (subst list_pages.simps) simp
    next
      case further: True
      have "next_page (int j + 1) resp = Inr (Some (int (Suc j) + 1))"
        using next_page_itoa [of resp "int j + 2" "int j + 1"] d(2) further assms(4) by simp
      then have "list_pages c path dest (int j + 1) (concat (take j pages)) w
          = list_pages c path dest (int (Suc j) + 1) (concat (take (Suc j) pages)) w'"
        using d(1) acc by (subst list_pages.simps) simp
      then show ?thesis using Suc.hyps(1) [of "Suc j" w'] Suc.hyps(2) further True by simp
    qed
  qed
qed simp

text \<open>C19 (diffs of a merge request). When the server serves all pages of the diffs, the client returns them all, in order. When
  it serves only some and fails at the next one, the client asks once more without a page and returns what that single answer
  holds, the first page of the server's own size, as if these were all the diffs.\<close>

theorem diffs_of_pages:
  assumes "serves c (mergeRequestPath c projectID iid ''/diffs'') (list_value unmarshal_diff) pages k"
    and "answers c (mergeRequestPath c projectID iid ''/diffs'') [] (list_value unmarshal_diff) first nxt"
    and "api_limiter c = None" and "pages \<noteq> []" and "k \<le> length pages" and "length pages < 2 ^ 62"
  shows "\<exists>w'. GetMergeRequestDiffs c projectID iid w = (Inr (if k = length pages then concat pages else first), w')"
proof -
  have "0 < length pages" using assms(4) by simp
  from list_pages_serves [OF assms(1,3,5,6) this, of w] obtain r w1 where
    p: "getMergeRequestDiffsPaginated c projectID iid w = (r, w1)"
      "if k = length pages then r = Inr (concat pages) else \<exists>e. r = Inl e \<and> isRetriableDiffEndpointError e"
    by (auto simp: getMergeRequestDiffsPaginated_def)
  show ?thesis
  proof (cases "k = length pages")
    case True
    then show ?thesis using p by (simp add: GetMergeRequestDiffs_def)
  next
    case False
    then obtain e where e: "r = Inl e" "isRetriableDiffEndpointError e" using p(2) by auto
    obtain resp w2 where "doJSON c ''GET'' (mergeRequestPath c projectID iid ''/diffs'') [] (list_value unmarshal_diff) w1 = (Inr (first, resp), w2)"
      using doJSON_answers [OF assms(2,3)] by metis
    then have "getMergeRequestDiffsPlain c projectID iid w1 = (Inr first, w2)"
      by (simp add: getMergeRequestDiffsPlain_def client_bind_def client_ret_def)
    then show ?thesis using p(1) e False by (simp add: GetMergeRequestDiffs_def)
  qed
qed

subsection \<open>The version of a snapshot\<close>

lemma newest_max: "newest v vs \<in> set (v # vs) \<and> list_all (\<lambda>x. \<not> newerThan x (newest v vs)) (v # vs)"
proof (induction vs arbitrary: v)
  case Nil
  show ?case by (simp add: newest_def newerThan_def)
next
  case (Cons x vs)
  define u where "u = (if newerThan x v then x else v)"
  define m where "m = newest u vs"
  have m: "newest v (x # vs) = m" by (simp add: newest_def m_def u_def)
  have "m \<in> set (u # vs)" and all: "\<not> newerThan u m" "list_all (\<lambda>y. \<not> newerThan y m) vs"
    using Cons.IH [of u] by (simp_all add: m_def)
  then have "m \<in> set (v # x # vs)" by (auto simp: u_def split: if_splits)
  moreover have "\<not> newerThan v u" "\<not> newerThan x u" by (auto simp: u_def newerThan_def split: if_splits)
  then have "\<not> newerThan v m" "\<not> newerThan x m" using all(1) by (auto simp: newerThan_def split: if_splits)
  ultimately show ?case using all(2) by (simp add: m)
qed

text \<open>A snapshot is taken only of a merge request whose commits are known, with a version that has its commits.\<close>

lemma GetMergeRequestVersions_ready: "GetMergeRequestVersions c p i w = (Inr v, w') \<Longrightarrow> version_ready v"
  by (auto simp: GetMergeRequestVersions_def client_bind_def client_ret_def client_fail_def Let_def
      split: prod.splits sum.splits list.splits if_splits)

lemma take_snapshot_parts:
  "take_snapshot c ref iid mr v w = (Inr s, w') \<Longrightarrow> gs_merge_request s = mr \<and> gs_version s = v"
  by (auto simp: take_snapshot_def client_bind_def split: prod.splits sum.splits)

lemma snapshot_loop_ready:
  "snapshot_loop c ref iid left attempt w = (Inr s, w') \<Longrightarrow> diffRefsReady (gs_merge_request s) \<and> version_ready (gs_version s)"
proof (induction left arbitrary: attempt w)
  case 0
  then show ?case
    by (subst (asm) snapshot_loop.simps)
      (auto simp: Let_def dest: GetMergeRequestVersions_ready take_snapshot_parts split: prod.splits sum.splits if_splits)
next
  case (Suc left)
  then show ?case
    by (subst (asm) snapshot_loop.simps)
      (auto simp: Let_def dest: GetMergeRequestVersions_ready take_snapshot_parts split: prod.splits sum.splits if_splits)
qed

subsection \<open>Example\<close>

text \<open>Two files on two pages; the second page fails.\<close>

definition file_diff :: "string \<Rightarrow> merge_request_diff" where
  "file_diff p = \<lparr>md_old_path = p, md_new_path = p, md_diff = [], md_a_mode = [], md_b_mode = [], md_new_file = False, md_renamed_file = False,
     md_deleted_file = False, md_generated_file = False, md_collapsed = False, md_too_large = False\<rparr>"

definition answer_of :: "int \<Rightarrow> string \<Rightarrow> string \<Rightarrow> string + http_response" where
  "answer_of status body nxt = Inr \<lparr>hrs_status = status, hrs_header = (\<lambda>_. nxt), hrs_body = body\<rparr>"

definition two_pages :: gitlab_api where
  "two_pages = \<lparr>api_token = [], api_build_url = (\<lambda>path q. Some (case q of [] \<Rightarrow> ''plain'' | (k, v) # _ \<Rightarrow> k @ v)), api_path_escape = id,
     api_do = (\<lambda>_ req. if hrq_url req = ''page2'' then answer_of 502 [] [] else answer_of 200 ''a.go'' ''2''),
     api_limiter = None, api_sleep = (\<lambda>_ _. True), api_now = (\<lambda>_. 0), api_jitter = (\<lambda>_ _. 0), api_parse_time = (\<lambda>_. None),
     api_decode = (\<lambda>b. Some (JArray [JObject [(''old_path'', JString b), (''new_path'', JString b)]])), api_marshal = (\<lambda>_. None),
     api_diff_not_ready_max_retries = 3, api_diff_not_ready_delay = (\<lambda>_. 1), api_rate_limit_max_retries = 3, api_rate_limit_delay = (\<lambda>_. 1)\<rparr>"

theorem diffs_of_pages_witness:
  "\<exists>w'. GetMergeRequestDiffs two_pages 1 7 [] = (Inr [file_diff ''a.go''], w')"
proof -
  let ?pages = "[[file_diff ''a.go''], [file_diff ''b.go'']]"
  have a: "answers two_pages (mergeRequestPath two_pages 1 7 ''/diffs'') q (list_value unmarshal_diff) [file_diff ''a.go''] (itoa 2)"
    if "api_build_url two_pages (mergeRequestPath two_pages 1 7 ''/diffs'') q = Some u" "u \<noteq> ''page2''" for q u
    unfolding answers_def
  proof (intro exI conjI allI)
    show "api_build_url two_pages (mergeRequestPath two_pages 1 7 ''/diffs'') q = Some u" by (rule that(1))
    show "api_do two_pages w (get_request two_pages u) = Inr \<lparr>hrs_status = 200, hrs_header = (\<lambda>_. ''2''), hrs_body = ''a.go''\<rparr>" for w
      using that(2) by (simp add: two_pages_def get_request_def answer_of_def)
  qed (code_simp+)
  have r: "refuses two_pages (mergeRequestPath two_pages 1 7 ''/diffs'') (page_query 2)"
    unfolding refuses_def
  proof (intro exI conjI allI)
    show "api_build_url two_pages (mergeRequestPath two_pages 1 7 ''/diffs'') (page_query 2) = Some ''page2''" by code_simp
    show "api_do two_pages w (get_request two_pages ''page2'') = Inr \<lparr>hrs_status = 502, hrs_header = (\<lambda>_. []), hrs_body = []\<rparr>" for w
      by (simp add: two_pages_def get_request_def answer_of_def)
  qed simp
  have q: "api_build_url two_pages (mergeRequestPath two_pages 1 7 ''/diffs'') (page_query 1) = Some ''page1''"
    "api_build_url two_pages (mergeRequestPath two_pages 1 7 ''/diffs'') [] = Some ''plain''" by code_simp+
  have s: "serves two_pages (mergeRequestPath two_pages 1 7 ''/diffs'') (list_value unmarshal_diff) ?pages 1"
    using a [OF q(1)] r by (simp add: serves_def)
  have f: "answers two_pages (mergeRequestPath two_pages 1 7 ''/diffs'') [] (list_value unmarshal_diff) [file_diff ''a.go''] (itoa 2)"
    by (rule a [OF q(2)]) simp
  have l: "api_limiter two_pages = None" by (simp add: two_pages_def)
  show ?thesis using diffs_of_pages [OF s f l, of "[]"] by simp
qed

end
