(* ===== verification/Manual_Trigger.thy ===== *)
theory Manual_Trigger
  imports Runs Scheduler Gitlab_Client
begin

text \<open>
  The manual trigger, \<^verbatim>\<open>internal/manualtrigger/service.go\<close>: a run for the current head of a merge request is created in one
  transaction, and the command waits for its end; a service with a processor reviews the run itself. The GitLab client is
  a parameter, the path of a URL is too. Between two looks at the run other processes act on the store: each tick of the
  wait is the change they make, and the end of the list of ticks is the end of the context.
\<close>

subsection \<open>The service\<close>

record manual_service =
  ms_base_url :: string
  ms_get_merge_request :: "int \<Rightarrow> int \<Rightarrow> string + gitlab_merge_request"
  ms_process :: "(review_run \<Rightarrow> process_outcome dbm) option"
  ms_last_id :: last_id
  ms_sha :: "string \<Rightarrow> string"
  ms_url_path :: "string \<Rightarrow> string option"
  ms_marshal_scope :: "string \<Rightarrow> string option"
  ms_error_text :: "go_error \<Rightarrow> string"

record trigger_result =
  tr_run_id :: int
  tr_project_id :: int
  tr_mr_iid :: int
  tr_head_sha :: string
  tr_idempotency_key :: string

definition projectPathFromMRURL :: "(string \<Rightarrow> string option) \<Rightarrow> string \<Rightarrow> string + string" where
  "projectPathFromMRURL url_path webURL =
     (if trim_space webURL = [] then Inl ''empty web_url''
      else case url_path webURL of
        None \<Rightarrow> Inl ''parse web_url''
      | Some path \<Rightarrow> (case split_n2 path ''/-/merge_requests/'' of
          [a, b] \<Rightarrow> (if trim_slashes a = [] then Inl (''project path missing in web_url: '' @ webURL) else Inr (trim_slashes a))
        | _ \<Rightarrow> Inl (''web_url does not look like a merge request URL: '' @ webURL)))"

definition computeManualIdempotencyKey :: "(string \<Rightarrow> string) \<Rightarrow> string \<Rightarrow> int \<Rightarrow> int \<Rightarrow> string \<Rightarrow> int \<Rightarrow> string" where
  "computeManualIdempotencyKey sha baseURL projectID mrIID headSHA now =
     sha (''manual|'' @ trim_right_set (trim_space baseURL) ''/'' @ ''|'' @ itoa projectID @ ''|'' @ itoa mrIID @ ''|''
       @ trim_space headSHA @ ''|'' @ itoa now)"

definition buildManualRunScope :: "(string \<Rightarrow> string option) \<Rightarrow> string \<Rightarrow> string option" where
  "buildManualRunScope marshal providerRoute =
     (if trim_space providerRoute = [] then None else marshal (trim_space providerRoute))"

definition manual_event :: "manual_service \<Rightarrow> gitlab_merge_request \<Rightarrow> int \<Rightarrow> int \<Rightarrow> string \<Rightarrow> string \<Rightarrow> int \<Rightarrow> normalized_event" where
  "manual_event svc mr projectID mrIID projectPath route now =
     \<lparr>ev_gitlab_instance_url = ms_base_url svc, ev_project_id = projectID, ev_project_path = projectPath, ev_mr_iid = mrIID,
      ev_action = ''manual_trigger'', ev_head_sha = gmr_head_sha mr, ev_head_sha_deferred = (trim_space (gmr_head_sha mr) = []),
      ev_is_draft = gmr_draft mr, ev_hook_source = ''manual'', ev_trigger_type = ''manual'', ev_event_type = ''manual_trigger'',
      ev_idempotency_key = computeManualIdempotencyKey (ms_sha svc) (ms_base_url svc) projectID mrIID (gmr_head_sha mr) now,
      ev_title = gmr_title mr, ev_source_branch = gmr_source_branch mr, ev_target_branch = gmr_target_branch mr, ev_author = gmr_author mr,
      ev_web_url = gmr_web_url mr, ev_state = gmr_state mr,
      ev_scope_json = (case buildManualRunScope (ms_marshal_scope svc) route of None \<Rightarrow> None | Some j \<Rightarrow> if j = [] then None else Some j)\<rparr>"

text \<open>The checks before the store is used: the event, or the text of the error.\<close>

definition trigger_event :: "manual_service \<Rightarrow> int \<Rightarrow> int \<Rightarrow> string \<Rightarrow> int \<Rightarrow> string + normalized_event" where
  "trigger_event svc projectID mrIID route now =
     (if ms_base_url svc = [] then Inl ''manual trigger: base URL is required''
      else if projectID \<le> 0 then Inl ''manual trigger: project_id must be greater than zero''
      else if mrIID \<le> 0 then Inl ''manual trigger: mr_iid must be greater than zero''
      else case ms_get_merge_request svc projectID mrIID of
        Inl e \<Rightarrow> Inl (''manual trigger: get merge request: '' @ e)
      | Inr mr \<Rightarrow>
          if gmr_project_id mr > 0 \<and> gmr_project_id mr \<noteq> projectID then
            Inl (''manual trigger: merge request project_id mismatch: got '' @ itoa (gmr_project_id mr) @ '' want '' @ itoa projectID)
          else if gmr_iid mr > 0 \<and> gmr_iid mr \<noteq> mrIID then
            Inl (''manual trigger: merge request iid mismatch: got '' @ itoa (gmr_iid mr) @ '' want '' @ itoa mrIID)
          else case projectPathFromMRURL (ms_url_path svc) (gmr_web_url mr) of
            Inl e \<Rightarrow> Inl (''manual trigger: derive project path: '' @ e)
          | Inr projectPath \<Rightarrow> Inr (manual_event svc mr projectID mrIID projectPath route now))"

definition Trigger :: "manual_service \<Rightarrow> int \<Rightarrow> int \<Rightarrow> string \<Rightarrow> int \<Rightarrow> trigger_result dbm" where
  "Trigger svc projectID mrIID route now = (case trigger_event svc projectID mrIID route now of
     Inl e \<Rightarrow> throw (ErrMsg e)
   | Inr ev \<Rightarrow>
       bindM (run_tx (ProcessEventWithQuerier (ms_last_id svc) ev 0)) (\<lambda>_.
       bindM (GetReviewRunByIdempotencyKey (ev_idempotency_key ev)) (\<lambda>run.
       ret \<lparr>tr_run_id = rr_id run, tr_project_id = projectID, tr_mr_iid = mrIID, tr_head_sha = ev_head_sha ev,
            tr_idempotency_key = ev_idempotency_key ev\<rparr>)))"

definition isTerminalStatus :: "string \<Rightarrow> bool" where
  "isTerminalStatus status \<longleftrightarrow> norm_lower status \<in> set [''completed'', ''requested_changes'', ''failed'', ''cancelled'', ''parser_error'']"

definition processPendingRun :: "manual_service \<Rightarrow> review_run \<Rightarrow> unit dbm" where
  "processPendingRun svc run = (case ms_process svc of
     None \<Rightarrow> ret ()
   | Some process \<Rightarrow> tryM (process run) (\<lambda>r. case r of
       Inr _ \<Rightarrow> ret ()
     | Inl e \<Rightarrow> UpdateReviewRunStatus ''failed'' ''manual_trigger_process_failed'' (Some (ms_error_text svc e)) (rr_id run)))"

function manual_wait :: "manual_service \<Rightarrow> (db \<Rightarrow> db) list \<Rightarrow> bool \<Rightarrow> int \<Rightarrow> review_run dbm" where
  "manual_wait svc ticks processed runID s = (case GetReviewRun runID s of
     (Inl e, s1) \<Rightarrow> (Inl e, s1)
   | (Inr run, s1) \<Rightarrow>
       if isTerminalStatus (rr_status run) then (Inr run, s1)
       else if \<not> processed \<and> equal_fold (trim_space (rr_status run)) ''pending'' \<and> ms_process svc \<noteq> None then
         (case processPendingRun svc run s1 of
            (Inl e, s2) \<Rightarrow> (Inl e, s2)
          | (Inr _, s2) \<Rightarrow> manual_wait svc ticks True runID s2)
       else case ticks of
         [] \<Rightarrow> (Inl ErrContext, s1)
       | others # rest \<Rightarrow> manual_wait svc rest processed runID (others s1))"
  by pat_completeness auto
termination
  by (relation "measures [\<lambda>(svc, ticks, processed, runID, s). length ticks, \<lambda>(svc, ticks, processed, runID, s). if processed then 0 else 1]") auto

declare manual_wait.simps [simp del]

definition WaitForTerminalRun :: "manual_service \<Rightarrow> (db \<Rightarrow> db) list \<Rightarrow> int \<Rightarrow> review_run dbm" where
  "WaitForTerminalRun svc ticks runID =
     (if runID \<le> 0 then throw (ErrMsg ''manual trigger: run_id must be greater than zero'') else manual_wait svc ticks False runID)"

subsection \<open>What a trigger does\<close>

lemma trigger_event_fields:
  "trigger_event svc projectID mrIID route now = Inr ev \<Longrightarrow>
     to_lower (ev_action ev) = ''manual_trigger'' \<and> ev_project_id ev = projectID \<and> ev_mr_iid ev = mrIID \<and> ev_trigger_type ev = ''manual''"
  by (auto simp: trigger_event_def manual_event_def lower_char_def split: if_splits sum.splits)

lemma manual_ProcessEvent:
  "trigger_event svc projectID mrIID route now = Inr ev \<Longrightarrow> ProcessEventWithQuerier lid ev h = handleUpdate lid ev h"
  using trigger_event_fields [of svc projectID mrIID route now ev] by (simp add: ProcessEventWithQuerier_def)

lemma same_tables_runs: "same_tables s t \<Longrightarrow> review_runs t = review_runs s \<and> clock t = clock s"
  by (auto simp: same_tables_def)

text \<open>Manual trigger. A trigger that succeeds added one pending run for the head the server named, and cancelled every other active
  run of the merge request in its favour; the result names that run. A trigger that fails changed no table, unless the
  run was stored and only reading it back failed.\<close>

theorem Trigger_outcome:
  assumes "Trigger svc projectID mrIID route now s = (r, t)" and "runs_inv s"
    and "\<And>ev. trigger_event svc projectID mrIID route now = Inr ev \<Longrightarrow> \<not> key_taken (ev_idempotency_key ev) s"
  shows "case r of
      Inl e \<Rightarrow> same_tables s t \<or> (\<exists>ev s1 s2. trigger_event svc projectID mrIID route now = Inr ev
        \<and> run_tx (handleUpdate (ms_last_id svc) ev 0) s = (Inr (), s1) \<and> GetReviewRunByIdempotencyKey (ev_idempotency_key ev) s1 = (Inl e, s2))
    | Inr res \<Rightarrow> \<exists>x. rr_id x = tr_run_id res \<and> rr_status x = ''pending'' \<and> rr_head_sha x = tr_head_sha res
        \<and> rr_idempotency_key x = tr_idempotency_key res \<and> rr_id x = next_id (review_runs s)
        \<and> rows (review_runs t) = map (\<lambda>r. if rr_merge_request_id r = rr_merge_request_id x \<and> run_active r
              then set_superseded (Some (rr_id x)) (clock s) r else r) (rows (review_runs s)) @ [x]"
proof (cases "trigger_event svc projectID mrIID route now")
  case (Inl e)
  then show ?thesis using assms(1) by (auto simp: Trigger_def throw_def same.R_refl)
next
  case (Inr ev)
  let ?m = "run_tx (handleUpdate (ms_last_id svc) ev 0)" and ?k = "ev_idempotency_key ev"
  note tr = assms(1) [unfolded Trigger_def Inr sum.case manual_ProcessEvent [OF Inr]]
  obtain q s1 where q: "?m s = (q, s1)" by (cases "?m s")
  show ?thesis
  proof (cases q)
    case (Inl e)
    then show ?thesis using tr q run_tx_error_same_tables [of _ s e s1] by (auto simp: bindM_def)
  next
    case u: (Inr u)
    obtain g s2 where g: "GetReviewRunByIdempotencyKey ?k s1 = (g, s2)" by (cases "GetReviewRunByIdempotencyKey ?k s1")
    show ?thesis
    proof (cases g)
      case (Inl e)
      then show ?thesis using tr q u g \<open>trigger_event svc projectID mrIID route now = Inr ev\<close> by (auto simp: bindM_def)
    next
      case run: (Inr run)
      have res: "r = Inr \<lparr>tr_run_id = rr_id run, tr_project_id = projectID, tr_mr_iid = mrIID, tr_head_sha = ev_head_sha ev,
            tr_idempotency_key = ?k\<rparr>" "t = s2" using tr q u g run by (simp_all add: bindM_def ret_def)
      from q u obtain s0 s3 where h: "same_tables s s0" "handleUpdate (ms_last_id svc) ev 0 s0 = (Inr (), s3)" "same_tables s3 s1"
        by (auto elim: run_tx_InrE)
      have f: "find_row (\<lambda>r. rr_idempotency_key r = ?k) (review_runs s1) = Some run" "review_runs s2 = review_runs s1"
        using GetByKey_Inr [OF g [unfolded run]] by (simp_all add: same_runs_def)
      have same: "review_runs s0 = review_runs s" "clock s0 = clock s" "review_runs s1 = review_runs s3"
        using h(1,3) by (auto dest: same_tables_runs)
      have free: "\<not> key_taken ?k s0" "runs_inv s0"
        using assms(3) [OF \<open>trigger_event svc projectID mrIID route now = Inr ev\<close>] assms(2) same by (simp_all add: key_taken_def runs_inv_def)
      moreover have "review_runs s3 \<noteq> review_runs s0" using f(1) free(1) same by (auto simp: key_taken_def)
      ultimately obtain x where x: "rr_status x = ''pending''" "rr_idempotency_key x = ?k" "rr_head_sha x = ev_head_sha ev"
        "rr_id x = next_id (review_runs s0)"
        "rows (review_runs s3) = map (\<lambda>r. if rr_merge_request_id r = rr_merge_request_id x \<and> run_active r
            then set_superseded (Some (rr_id x)) (clock s0) r else r) (rows (review_runs s0)) @ [x]"
        using handleUpdate_supersedes [OF h(2)] by blast
      have "run = x"
      proof -
        have "run \<in> set (rows (review_runs s3))" "rr_idempotency_key run = ?k"
          using f(1) same(3) by (auto simp: find_row_def find_Some_iff)
        moreover have "rr_idempotency_key y \<noteq> ?k" if "y \<in> set (rows (review_runs s0))" for y
          using free(1) that by (auto simp: key_taken_def find_row_def find_None_iff)
        ultimately show ?thesis using x(5) by (auto simp: set_superseded_def split: if_splits)
      qed
      then show ?thesis using x same f(2) by (auto simp: res intro!: exI [of _ x])
    qed
  qed
qed

subsection \<open>What a wait returns\<close>

lemma GetReviewRun_row:
  assumes "GetReviewRun i s = (Inr run, t)"
  shows "find_row (\<lambda>r. rr_id r = i) (review_runs s) = Some run \<and> same_tables s t"
  using assms unfolding GetReviewRun_def by (rule query_row_Inr) simp

text \<open>A run that is returned has an end status in the store of that moment.\<close>

lemma manual_wait_terminal:
  "manual_wait svc ticks processed runID s = (Inr run, t) \<Longrightarrow>
     isTerminalStatus (rr_status run) \<and> find_row (\<lambda>r. rr_id r = runID) (review_runs t) = Some run"
proof (induction svc ticks processed runID s rule: manual_wait.induct)
  case (1 svc ticks processed runID s)
  obtain g s1 where g: "GetReviewRun runID s = (g, s1)" by (cases "GetReviewRun runID s")
  show ?case
  proof (cases g)
    case (Inl e)
    then show ?thesis using "1.prems" g by (subst (asm) manual_wait.simps) simp
  next
    case (Inr r)
    note row = GetReviewRun_row [OF g [unfolded Inr]]
    then have s1: "review_runs s1 = review_runs s" by (auto dest: same_tables_runs)
    show ?thesis
    proof (cases "isTerminalStatus (rr_status r)")
      case True
      then show ?thesis using "1.prems" g Inr row s1 by (subst (asm) manual_wait.simps) simp
    next
      case False
      then show ?thesis
        using "1.prems" "1.IH" g Inr
        by (subst (asm) manual_wait.simps) (fastforce split: if_splits prod.splits sum.splits list.splits)
    qed
  qed
qed

text \<open>The run is handed to the processor as it was read, without a claim: in that state it is open to every worker.\<close>

lemma manual_run_unclaimed:
  assumes "GetReviewRun runID s = (Inr run, t)" and "rr_status run = ''pending''" and "ms_process svc \<noteq> None"
  shows "manual_wait svc ticks False runID s = (case processPendingRun svc run t of
      (Inl e, u) \<Rightarrow> (Inl e, u) | (Inr _, u) \<Rightarrow> manual_wait svc ticks True runID u)
    \<and> find_row (\<lambda>r. rr_id r = runID) (review_runs t) = Some run \<and> claimable (clock t) run"
proof -
  have p: "\<not> isTerminalStatus ''pending''" "equal_fold (trim_space ''pending'') ''pending''" by code_simp+
  have "manual_wait svc ticks False runID s = (case processPendingRun svc run t of
      (Inl e, u) \<Rightarrow> (Inl e, u) | (Inr _, u) \<Rightarrow> manual_wait svc ticks True runID u)"
    using assms p by (subst manual_wait.simps) simp
  moreover have "find_row (\<lambda>r. rr_id r = runID) (review_runs t) = Some run"
    using GetReviewRun_row [OF assms(1)] by (auto dest: same_tables_runs)
  moreover have "claimable (clock t) run" using assms(2) by (simp add: claimable_def)
  ultimately show ?thesis by blast
qed

subsection \<open>Example\<close>

definition open_merge_request :: gitlab_merge_request where
  "open_merge_request = \<lparr>gmr_gitlab_id = 70, gmr_iid = 7, gmr_project_id = 3, gmr_title = ''t'', gmr_description = [], gmr_state = ''opened'',
     gmr_draft = False, gmr_source_branch = ''b'', gmr_target_branch = ''main'', gmr_head_sha = ''abc'', gmr_detailed_merge_status = [],
     gmr_has_conflicts = False, gmr_web_url = ''/g/p/-/merge_requests/7'', gmr_diff_refs = None, gmr_author = ''u''\<rparr>"

definition sample_manual :: manual_service where
  "sample_manual = \<lparr>ms_base_url = ''https://g.io'', ms_get_merge_request = (\<lambda>_ _. Inr open_merge_request), ms_process = None,
     ms_last_id = (\<lambda>_ r. r), ms_sha = id, ms_url_path = Some, ms_marshal_scope = Some, ms_error_text = (\<lambda>_. [])\<rparr>"

lemma sample_trigger: "map_sum id tr_head_sha (fst (Trigger sample_manual 3 7 [] 0 empty_db)) = Inr ''abc''"
  by code_simp

theorem Trigger_outcome_witness:
  "\<exists>x. rows (review_runs (snd (Trigger sample_manual 3 7 [] 0 empty_db))) = [x] \<and> rr_status x = ''pending'' \<and> rr_head_sha x = ''abc''"
proof -
  let ?t = "Trigger sample_manual 3 7 [] 0 empty_db"
  obtain res where res: "fst ?t = Inr res" "tr_head_sha res = ''abc''" using sample_trigger by (cases "fst ?t") auto
  have t: "?t = (Inr res, snd ?t)" by (metis res(1) prod.collapse)
  have inv: "runs_inv empty_db" and free: "\<not> key_taken k empty_db" for k
    by (simp_all add: runs_inv_def table_ok_def key_taken_def empty_db_def empty_table_def find_row_def)
  have rows: "rows (review_runs empty_db) = []" by code_simp
  show ?thesis using Trigger_outcome [OF t inv free] res(2) by (auto simp: rows)
qed

end
