(* ===== verification/System.thy ===== *)
theory System
  imports Hooks_Handler Github_Hooks Engine_Processor Admin_Actions Manual_Trigger
begin

text \<open>
  The system as a whole: deliveries of both platforms, manual triggers, workers that review, store and comment, the reaper and operators act on one
  store. Every program of the components keeps the same two promises about review runs, so every reachable state of the
  system has them, in whatever order the programs run.
\<close>

subsection \<open>Runs are never lost and never change identity\<close>

definition frozen :: "review_run \<Rightarrow> int \<times> int \<times> int \<times> int option \<times> string \<times> string \<times> int \<times> string \<times> time" where
  "frozen r = (rr_id r, rr_project_id r, rr_merge_request_id r, rr_hook_event_id r, rr_trigger_type r,
     rr_head_sha r, rr_max_retries r, rr_idempotency_key r, rr_created_at r)"

definition runs_keyed :: "db \<Rightarrow> bool" where
  "runs_keyed s \<longleftrightarrow> table_ok rr_id rr_idempotency_key (review_runs s)"

definition run_persist :: "db \<Rightarrow> db \<Rightarrow> bool" where
  "run_persist s t \<longleftrightarrow> (runs_keyed s \<longrightarrow> runs_keyed t)
     \<and> frozen ` set (rows (review_runs s)) \<subseteq> frozen ` set (rows (review_runs t))"

lemma run_persist_same: "review_runs t = review_runs s \<Longrightarrow> run_persist s t"
  by (simp add: run_persist_def runs_keyed_def)

interpretation life: runs_rel run_persist
proof
  show "run_persist s s" for s by (rule run_persist_same) simp
  show "run_persist s (s\<lparr>faults := fs, last_rowid := i\<rparr>)" for s :: db and fs i by (rule run_persist_same) simp
  show "run_persist s t \<Longrightarrow> run_persist t u \<Longrightarrow> run_persist s u" for s t u
    by (auto simp: run_persist_def)
  show "review_runs t = review_runs s \<Longrightarrow> run_persist s t" for s t by (rule run_persist_same)
qed

lemma frozen_parts: "frozen r = frozen r' \<Longrightarrow> rr_id r = rr_id r' \<and> rr_idempotency_key r = rr_idempotency_key r'"
  by (simp add: frozen_def)

lemma life_update_runs:
  assumes "\<And>now r. frozen (f now r) = frozen r"
  shows "keeps run_persist (update_runs p f)"
  unfolding update_runs_def
proof (rule life.keeps_stmt)
  fix s :: db
  let ?t = "s\<lparr>review_runs := update_rows (p (clock s)) (f (clock s)) (review_runs s)\<rparr>"
  have k: "rr_id (f (clock s) r) = rr_id r" "rr_idempotency_key (f (clock s) r) = rr_idempotency_key r" for r
    using frozen_parts [OF assms] by simp_all
  have "runs_keyed s \<Longrightarrow> runs_keyed ?t"
    unfolding runs_keyed_def using k table_ok_update [of rr_id rr_idempotency_key "review_runs s" "f (clock s)" "p (clock s)"] by simp
  moreover have "map frozen (rows (review_runs ?t)) = map frozen (rows (review_runs s))"
    using map_update_key [of frozen "f (clock s)" "p (clock s)" "rows (review_runs s)"] assms by simp
  then have "frozen ` set (rows (review_runs s)) \<subseteq> frozen ` set (rows (review_runs ?t))"
    by (metis list.set_map order_refl)
  ultimately show "run_persist s (snd (Inr (count_rows (p (clock s)) (review_runs s)), ?t))"
    by (simp add: run_persist_def)
qed

lemma life_InsertReviewRun: "keeps run_persist (InsertReviewRun a)"
proof (rule keepsI)
  fix s r t
  assume i: "InsertReviewRun a s = (r, t)"
  have "runs_keyed s \<Longrightarrow> runs_keyed t" unfolding runs_keyed_def by (rule run_key.ins_keeps_ok [OF i])
  moreover have "frozen ` set (rows (review_runs s)) \<subseteq> frozen ` set (rows (review_runs t))"
  proof (cases r)
    case (Inl e)
    then show ?thesis using run_key.ins_none i by auto
  next
    case (Inr j)
    then obtain mk where "review_runs t = insert_row mk (review_runs s)" using run_key.ins_some i by blast
    then show ?thesis by auto
  qed
  ultimately show "run_persist s t" by (simp add: run_persist_def)
qed

lemma life_discard: "keeps run_persist m \<Longrightarrow> keeps run_persist (discard m)"
  unfolding discard_def by (intro life.keeps_rules)

lemma life_rowsAffected: "keeps run_persist m \<Longrightarrow> keeps run_persist (rowsAffected m)"
  unfolding rowsAffected_def by (intro life.keeps_rules)

lemma keeps_mono: "keeps R m \<Longrightarrow> (\<And>s t. R s t \<Longrightarrow> R' s t) \<Longrightarrow> keeps R' m"
  by (simp add: keeps_def)

lemma life_run_writes:
  "keeps run_persist (CancelPendingRunsForMR i)"
  "keeps run_persist (SupersedeActiveRunsForMR b i j)"
  "keeps run_persist (ClaimReviewRun w i)"
  "keeps run_persist (ReapStaleRunningRuns n)"
  "keeps run_persist (UpdateReviewRunStatus st c d i)"
  "keeps run_persist (MarkReviewRunRetryableFailureIfRunning rp)"
  "keeps run_persist (MarkReviewRunFailedIfRunning fp)"
  "keeps run_persist (UpdateReviewRunCompletedIfRunning cp)"
  "keeps run_persist (UpdateReviewRunProviderMetrics l k i)"
  "keeps run_persist (RetryReviewRunNow i)"
  "keeps run_persist (CancelReviewRun i c e)"
  "keeps run_persist (RequeueReviewRun i)"
  unfolding CancelPendingRunsForMR_def SupersedeActiveRunsForMR_def ClaimReviewRun_def ReapStaleRunningRuns_def
    UpdateReviewRunStatus_def MarkReviewRunRetryableFailureIfRunning_def MarkReviewRunFailedIfRunning_def
    UpdateReviewRunCompletedIfRunning_def UpdateReviewRunProviderMetrics_def RetryReviewRunNow_def
    CancelReviewRun_def RequeueReviewRun_def
  by (intro life_discard life_rowsAffected life_update_runs;
      simp add: frozen_def set_reaped_def set_retryable_def set_failed_def set_completed_def)+

text \<open>The other statements do not touch the table.\<close>

lemma life_other_writes:
  "keeps run_persist (InsertHookEvent he)"
  "keeps run_persist (InsertAuditLog al)"
  "keeps run_persist (UpsertGitlabInstance lid u n)"
  "keeps run_persist (UpsertProject lid i p path en)"
  "keeps run_persist (UpsertMergeRequest lid a)"
  "keeps run_persist (UpdateMergeRequestState st h i)"
  "keeps run_persist (ResolveIdentityMapping un ui ac de i)"
  unfolding InsertHookEvent_def InsertAuditLog_def UpsertGitlabInstance_def UpsertProject_def UpsertMergeRequest_def
    UpdateMergeRequestState_def ResolveIdentityMapping_def
  by (auto intro!: life.keeps_stmt life.keeps_exec run_persist_same simp: insert_into_def split: option.splits)

lemmas life_rules = life.keeps_rules life.keeps_reads life_run_writes life_other_writes
  life.keeps_other_tables life_InsertReviewRun

subsection \<open>Every program keeps the promises\<close>

lemma life_ProcessEvent: "keeps run_persist (ProcessEventWithQuerier lid ev h)"
proof -
  have same: "keeps same_runs m \<Longrightarrow> keeps run_persist m" for m :: "'a dbm"
    by (erule keeps_mono) (auto intro: run_persist_same simp: same_runs_def)
  note ens = same_runs_ensure [THEN same]
  have c: "keeps run_persist (createPendingRun lid ev h)"
    unfolding createPendingRun_def check_and_insert_def insert_pending_def
    by (auto intro!: life_rules ens split: sum.split)
  show ?thesis
    unfolding ProcessEventWithQuerier_def handleUpdate_def cancelRuns_def Let_def
    by (auto intro!: life_rules ens c split: sum.split)
qed

lemma life_command: "keeps run_persist (executeWithQuerier marshal sha ne cmd)"
proof -
  have i: "keeps run_persist (insert_command_run a)" for a
    unfolding insert_command_run_def by (auto intro!: life_rules split: sum.split)
  have d: "keeps run_persist (resolve_discussion m f)" for m f
    unfolding resolve_discussion_def by (auto intro!: life_rules split: sum.split)
  show ?thesis
    unfolding executeWithQuerier_def executeRerunWith_def executeIgnoreWith_def executeResolveWith_def
      executeFocusWith_def resolveEntities_def Let_def
    by (auto intro!: life_rules i d split: sum.split option.split command_kind.split)
qed

lemma life_audit: "keeps run_persist (writeAuditLog q d h out reason e)"
  unfolding writeAuditLog_def by (auto intro!: life_rules)

lemma life_ServeHTTP:
  assumes "\<And>rp ev i. hd_run_processor h = Some rp \<Longrightarrow> keeps run_persist (rp ev i)"
    and "\<And>cp ne cmd. hd_command_processor h = Some cp \<Longrightarrow> keeps run_persist (cp ne cmd)"
  shows "keeps run_persist (ServeHTTP c h r)"
proof -
  have he: "keeps run_persist (insertHookEvent d src p payload out reason)" for d src p payload out reason
    unfolding insertHookEvent_def by (rule life_rules)
  have n: "keeps run_persist (insert_note_event c d src p payload e)" for d src p payload e
    unfolding insert_note_event_def by (intro life.keeps_tryM he life_audit)
  have nt: "keeps run_persist (handleNoteEvent c h d src e payload)" for d src e payload
  proof (cases "hd_command_processor h")
    case None
    then show ?thesis
      unfolding handleNoteEvent_def respond_def Let_def
      by (auto intro!: life.keeps_rules n life_audit split: option.split)
  next
    case (Some cp)
    then show ?thesis
      unfolding handleNoteEvent_def respond_def Let_def
      by (auto intro!: life.keeps_rules he n life_audit assms(2) [OF Some] split: option.split sum.split)
  qed
  have mr: "keeps run_persist (handleMergeRequest c h d src e payload)" for d src e payload
  proof (cases "hd_run_processor h")
    case None
    then show ?thesis
      unfolding handleMergeRequest_def respond_def Let_def
      by (auto intro!: life.keeps_rules he life_audit split: option.split sum.split)
  next
    case (Some rp)
    then show ?thesis
      unfolding handleMergeRequest_def respond_def Let_def
      by (auto intro!: life.keeps_rules he life_audit assms(1) [OF Some] split: option.split sum.split)
  qed
  have route: "keeps run_persist (route_event c h d src e payload)" for d src e payload
    unfolding route_event_def respond_def Let_def
    by (auto intro!: nt mr life.keeps_rules he life_audit)
  have "keeps run_persist (dedup_and_route c h d src e body)" for d src e body
    unfolding dedup_and_route_def respond_def
    by (auto intro!: route life.keeps_rules life.keeps_reads life_audit split: sum.split)
  then show ?thesis
    unfolding ServeHTTP_def respond_def Let_def
    by (auto intro!: life.keeps_rules life_audit split: option.split)
qed

lemma life_claim: "(\<And>d. keeps run_persist (sleep d)) \<Longrightarrow> keeps run_persist (claim_loop sleep w n)"
proof (induction n)
  case (Suc n)
  have "keeps run_persist (claim_attempt w)"
    unfolding claim_attempt_def by (auto intro!: life_rules split: sum.split)
  with Suc show ?case by (auto intro!: life.keeps_rules split: sum.split)
qed (simp add: life.keeps_throw)

lemma life_RunOnce:
  assumes "service_keeps run_persist s" and "\<And>d. keeps run_persist (sleep d)"
    and "\<And>p r. sc_processor s = Some p \<Longrightarrow> keeps run_persist (p r)"
  shows "keeps run_persist (RunOnce decode et tr sleep s)"
proof -
  note pub = life.keeps_publishDirectStatus [OF assms(1)] life.keeps_publishGateResult [OF assms(1)]
  have m: "keeps run_persist (persistProviderMetricsIfNeeded i cur out)" for i cur out
    unfolding persistProviderMetricsIfNeeded_def by (auto intro!: life_rules)
  have sk: "keeps run_persist (handleSkippedTerminalWrite run ts)" for run ts
    unfolding handleSkippedTerminalWrite_def by (auto intro!: life_rules)
  have pe: "keeps run_persist (processParserError tr s run out)" for run out
    unfolding processParserError_def by (auto intro!: life_rules m pub)
  have pc: "keeps run_persist (processCompleted decode tr s run out)" for run out
    unfolding processCompleted_def by (auto intro!: life_rules m sk pub split: option.split)
  have retry: "keeps run_persist (\<lambda>st. bindM (MarkReviewRunRetryableFailureIfRunning (a st)) k st)"
    if "\<And>x. keeps run_persist (k x)" for a and k :: "bool \<Rightarrow> unit dbm"
    using life.keeps_bindM [OF life_run_writes(6) that] by (simp add: keeps_def)
  have pf: "keeps run_persist (processFailure et tr s run err)" for run err
    unfolding processFailure_def Let_def
    by (auto intro!: retry life_rules sk pub split: prod.split)
  have "keeps run_persist (processClaimedRun decode et tr s p run)" if "sc_processor s = Some p" for p run
    unfolding processClaimedRun_def reloadRunningRun_def publishInProgressStatus_def
    using assms(3) [OF that] by (auto intro!: life_rules pe pc pf pub split: sum.split)
  then show ?thesis
    unfolding RunOnce_def ClaimNextRun_def
    by (auto intro!: life.keeps_rules life_claim assms(2) split: option.split sum.split)
qed

interpretation publish: writer_store run_persist
  by unfold_locales (rule life_run_writes life.keeps_other_tables)+

text \<open>A delivery of GitHub.\<close>

lemma life_github_ServeHTTP:
  assumes "\<And>rp ev i. ghd_run_processor h = Some rp \<Longrightarrow> keeps run_persist (rp ev i)"
  shows "keeps run_persist (github_ServeHTTP hmac c h r)"
proof -
  have he: "keeps run_persist (insertHookEvent d src p payload out reason)" for d src p payload out reason
    unfolding insertHookEvent_def by (rule life_rules)
  have proc: "keeps run_persist (case ghd_run_processor h of None \<Rightarrow> ret () | Some rp \<Rightarrow> rp ev i)" for ev i
    using assms by (auto intro: life.keeps_ret split: option.split)
  have pr: "keeps run_persist (handlePullRequest c h d e payload)" for d e payload
    unfolding handlePullRequest_def respond_def Let_def
    by (auto intro!: life.keeps_rules he life_audit proc split: option.split sum.split)
  have route: "keeps run_persist (github_route c h d e payload)" for d e payload
    unfolding github_route_def respond_def by (auto intro!: pr life.keeps_rules he life_audit)
  have "keeps run_persist (github_dedup_and_route c h d e body)" for d e body
    unfolding github_dedup_and_route_def respond_def
    by (auto intro!: route life.keeps_rules life.keeps_reads life_audit split: sum.split)
  then show ?thesis
    unfolding github_ServeHTTP_def respond_def Let_def
    by (auto intro!: life.keeps_rules life_audit split: option.split)
qed

text \<open>Requests of operators.\<close>

lemma life_runAction:
  assumes "\<And>run. keeps run_persist (mutate run)"
  shows "keeps run_persist (runAction decode i actor action mutate)"
proof -
  have d: "keeps run_persist (GetRunDetail decode j)" for j
    unfolding GetRunDetail_def by (rule life.keeps_stmt) (simp add: life.R_refl split: option.split)
  have b: "keeps run_persist (\<lambda>s. ret (f s) s)" for f :: "db \<Rightarrow> run_detail"
    by (simp add: keeps_def ret_def life.R_refl)
  show ?thesis
    unfolding runAction_def action_body_def not_found_def
    by (auto intro!: life_rules assms d b split: sum.split)
qed

lemma life_mutations:
  "keeps run_persist (retry_mutation i run)" "keeps run_persist (cancel_mutation i run)"
  "keeps run_persist (requeue_mutation i run)" "keeps run_persist (rerun_mutation run)"
proof -
  have ins: "keeps run_persist (\<lambda>s. InsertReviewRun (a s) s)" for a
    using life_InsertReviewRun by (simp add: keeps_def)
  show "keeps run_persist (retry_mutation i run)" "keeps run_persist (cancel_mutation i run)"
    "keeps run_persist (requeue_mutation i run)" "keeps run_persist (rerun_mutation run)"
    unfolding retry_mutation_def cancel_mutation_def requeue_mutation_def rerun_mutation_def refuse_def
    by (auto intro!: life_rules ins)
qed

lemma life_admin: "keeps run_persist (admin_run_action token decode r)" "keeps run_persist (admin_resolve token marshal r)"
proof -
  have ans: "keeps run_persist m \<Longrightarrow> keeps run_persist (action_answer wrap m)" for wrap and m :: "'a dbm"
    unfolding action_answer_def by (intro life.keeps_rules)
  show "keeps run_persist (admin_run_action token decode r)"
    unfolding admin_run_action_def Protect_def post_run_action_def Let_def RetryRun_def CancelRun_def RequeueRun_def RerunRun_def
    by (auto intro!: life.keeps_ret ans life_runAction life_mutations split: option.split)
  have g: "keeps run_persist (GetIdentityMapping i)" for i unfolding GetIdentityMapping_def by (rule life.keeps_query_row)
  show "keeps run_persist (admin_resolve token marshal r)"
    unfolding admin_resolve_def Protect_def post_resolve_def admin_ResolveIdentityMapping_def resolve_body_def not_found_def
    by (auto intro!: life_rules ans g split: option.split sum.split)
qed

subsection \<open>The system\<close>

text \<open>The deployment fixes the parameters: the reader and writer of JSON, the driver's \<^verbatim>\<open>LastInsertId\<close>,
  hashing, the scheduler with its publishers, the review engine and the write-back. The webhook handlers are wired to the run
  and command services and the scheduler to the engine and the write-back, as \<^verbatim>\<open>cmd/ingress\<close> and \<^verbatim>\<open>cmd/worker\<close> do.\<close>

record deployment =
  dp_codec :: codec
  dp_secret :: string
  dp_github_secret :: string
  dp_hmac :: "string \<Rightarrow> string \<Rightarrow> string"
  dp_admin_token :: string
  dp_last_id :: last_id
  dp_marshal :: "json \<Rightarrow> string option"
  dp_hash :: "string \<Rightarrow> string"
  dp_scheduler :: scheduler
  dp_engine :: engine_processor
  dp_writeback :: platform_writeback
  dp_error_text :: "go_error \<Rightarrow> string"
  dp_sleep :: "int \<Rightarrow> unit dbm"

definition deployed_handler :: "deployment \<Rightarrow> handler" where
  "deployed_handler d = \<lparr>hd_secret = dp_secret d,
     hd_run_processor = Some (ProcessEventWithQuerier (dp_last_id d)),
     hd_command_processor = Some (executeWithQuerier (dp_marshal d) (dp_hash d))\<rparr>"

definition deployed_github_handler :: "deployment \<Rightarrow> github_handler" where
  "deployed_github_handler d = \<lparr>ghd_secret = dp_github_secret d, ghd_run_processor = Some (ProcessEventWithQuerier (dp_last_id d))\<rparr>"

definition deployed_scheduler :: "deployment \<Rightarrow> scheduler" where
  "deployed_scheduler d = (dp_scheduler d)\<lparr>sc_processor := Some (scheduled
     (wrapProcessorWithWriteback (newPlatformRuntimeWriteback (cd_decode (dp_codec d)) (dp_writeback d)) (ProcessRun (dp_engine d))))\<rparr>"

text \<open>The manual trigger uses the run service and the processor of the deployment.\<close>

definition deployed_manual :: "deployment \<Rightarrow> manual_service \<Rightarrow> manual_service" where
  "deployed_manual d svc = svc\<lparr>ms_last_id := dp_last_id d, ms_process := sc_processor (deployed_scheduler d)\<rparr>"

text \<open>The publishers of statuses, the loading and reviewing of a change and the sleep are code outside the components that may
  write to the store; of them only is assumed that they neither lose runs nor change their identity. The engine
  leaves the comments to the write-back around it.\<close>

definition deployment_ok :: "deployment \<Rightarrow> bool" where
  "deployment_ok d \<longleftrightarrow> service_keeps run_persist (dp_scheduler d) \<and> (\<forall>n. keeps run_persist (dp_sleep d n))
     \<and> eng_writeback (dp_engine d) = None
     \<and> (\<forall>target r. keeps run_persist (eng_load (dp_engine d) target r))
     \<and> (\<forall>input opts. keeps run_persist (eng_run (dp_engine d) input opts))"

inductive system_step :: "deployment \<Rightarrow> db \<Rightarrow> db \<Rightarrow> bool" for d :: deployment where
  webhook: "ServeHTTP (dp_codec d) (deployed_handler d) r s = (res, t) \<Longrightarrow> system_step d s t"
| github_webhook: "github_ServeHTTP (dp_hmac d) (dp_codec d) (deployed_github_handler d) r s = (res, t) \<Longrightarrow> system_step d s t"
| worker: "RunOnce (cd_decode (dp_codec d)) (dp_error_text d) tr (dp_sleep d) (deployed_scheduler d) s = (out, t) \<Longrightarrow> system_step d s t"
| reaper: "ReapStaleRuns (dp_scheduler d) s = (n, t) \<Longrightarrow> system_step d s t"
| manual: "Trigger (deployed_manual d svc) p i route now s = (q, t) \<Longrightarrow> system_step d s t"
| manual_review: "processPendingRun (deployed_manual d svc) run s = (u, t) \<Longrightarrow> system_step d s t"
| operator: "admin_run_action (dp_admin_token d) (cd_decode (dp_codec d)) r s = (res, t) \<Longrightarrow> system_step d s t"
| resolution: "admin_resolve (dp_admin_token d) (cd_marshal (dp_codec d)) r s = (res, t) \<Longrightarrow> system_step d s t"
| tick: "clock s \<le> now \<Longrightarrow> system_step d s (s\<lparr>clock := now\<rparr>)"
| failures: "system_step d s (s\<lparr>faults := fs\<rparr>)"

inductive reachable :: "deployment \<Rightarrow> db \<Rightarrow> db \<Rightarrow> bool" for d :: deployment and s0 :: db where
  start: "reachable d s0 s0"
| step: "reachable d s0 s \<Longrightarrow> system_step d s t \<Longrightarrow> reachable d s0 t"

inductive_cases system_stepE: "system_step d s t"

lemma life_processor:
  assumes "deployment_ok d" and "sc_processor (deployed_scheduler d) = Some p"
  shows "keeps run_persist (p r)"
proof -
  have "keeps run_persist (ProcessRun (dp_engine d) r)" for r
    by (rule life.keeps_ProcessRun) (use assms(1) in \<open>simp_all add: deployment_ok_def life_run_writes\<close>)
  then show ?thesis
    using assms(2) by (auto simp: deployed_scheduler_def scheduled_def [abs_def] intro!: life.keeps_bindM life.keeps_ret publish.keeps_wrapped)
qed

lemma life_Trigger: "keeps run_persist (Trigger svc p i route now)"
  unfolding Trigger_def by (auto intro!: life_rules life_ProcessEvent split: sum.split)

lemma life_manual_review:
  assumes "deployment_ok d" shows "keeps run_persist (processPendingRun (deployed_manual d svc) run)"
proof -
  have "sc_processor (deployed_scheduler d) = Some p \<Longrightarrow> keeps run_persist (p run)" for p by (rule life_processor [OF assms])
  then show ?thesis unfolding processPendingRun_def
    by (auto simp: deployed_manual_def intro!: life_rules split: option.split sum.split)
qed

lemma life_worker:
  assumes "deployment_ok d"
  shows "keeps run_persist (RunOnce (cd_decode (dp_codec d)) (dp_error_text d) tr (dp_sleep d) (deployed_scheduler d))"
proof (rule life_RunOnce)
  show "service_keeps run_persist (deployed_scheduler d)"
    using assms by (simp add: deployment_ok_def service_keeps_def deployed_scheduler_def)
  show "keeps run_persist (dp_sleep d n)" for n using assms by (simp add: deployment_ok_def)
  show "keeps run_persist (p r)" if "sc_processor (deployed_scheduler d) = Some p" for p r
    by (rule life_processor [OF assms that])
qed

lemma system_step_persist:
  assumes "deployment_ok d" and "system_step d s t"
  shows "run_persist s t"
  using assms(2)
proof cases
  case (webhook r res)
  have "keeps run_persist (ServeHTTP (dp_codec d) (deployed_handler d) r)"
    by (rule life_ServeHTTP) (auto simp: deployed_handler_def life_ProcessEvent life_command)
  then show ?thesis using webhook by (rule keepsD)
next
  case (github_webhook r res)
  have "keeps run_persist (github_ServeHTTP (dp_hmac d) (dp_codec d) (deployed_github_handler d) r)"
    by (rule life_github_ServeHTTP) (auto simp: deployed_github_handler_def life_ProcessEvent)
  then show ?thesis using github_webhook by (rule keepsD)
next
  case (worker tr out)
  then show ?thesis by (rule keepsD [OF life_worker [OF assms(1)]])
next
  case (manual svc p i route now q)
  then show ?thesis by (rule keepsD [OF life_Trigger])
next
  case (manual_review svc run u)
  then show ?thesis by (rule keepsD [OF life_manual_review [OF assms(1)]])
next
  case (operator r res)
  then show ?thesis by (rule keepsD [OF life_admin(1)])
next
  case (resolution r res)
  then show ?thesis by (rule keepsD [OF life_admin(2)])
qed (auto simp: ReapStaleRuns_def intro: run_persist_same keepsD [OF life_run_writes(4)])

lemma reachable_persist:
  assumes "reachable d s t" and "deployment_ok d"
  shows "run_persist s t"
  using assms(1)
proof (induction rule: reachable.induct)
  case start
  show ?case by (rule life.R_refl)
next
  case (step t u)
  show ?case by (rule life.R_trans [OF step.IH system_step_persist [OF assms(2) step.hyps(2)]])
qed


text \<open>C2 (runs persist): once a run exists, it exists in every later state with the same id, project, merge
  request, hook event, trigger, head SHA, retry limit and idempotency key.\<close>

theorem reachable_runs_persist:
  assumes "reachable d s t" and "deployment_ok d" and "r \<in> set (rows (review_runs s))"
  shows "\<exists>r' \<in> set (rows (review_runs t)). frozen r' = frozen r"
  using reachable_persist [OF assms(1,2)] assms(3) by (force simp: run_persist_def)

subsection \<open>Ignoring a finding opens the gate for it\<close>

text \<open>C3 (ignored findings do not block): after the command \<^verbatim>\<open>/ai-review ignore\<close> in the discussion of a
  finding, the gate computed for any run, policy and discussion state never counts that finding; the
  verdict is the one over the other findings of the table.\<close>

theorem ignore_unblocks_gate:
  assumes "faults s = []" and "ne_discussion_id ne \<noteq> []" and "entity_rows ne s = Some (i, p, m)"
    and "find_row (\<lambda>f. rf_merge_request_id f = m \<and> rf_gitlab_discussion_id f = ne_discussion_id ne) (review_findings s) = Some f"
  shows "\<exists>t. executeIgnoreWith ne s = (Inr (), t)
    \<and> (let res = ComputeResultWithDiscussionState decode run policy (rows (review_findings t)) states tr
       in rf_id f \<notin> set (gr_qualifying_finding_ids res)
        \<and> gr_qualifying_finding_ids res = map rf_id (filter (gate_blocks decode policy states)
             (filter (\<lambda>x. rf_id x \<noteq> rf_id f) (rows (review_findings s)))))"
proof -
  obtain ds where run: "executeIgnoreWith ne s = (Inr (), s\<lparr>review_findings :=
     update_rows (\<lambda>x. rf_id x = rf_id f) (set_ignored (clock s)) (review_findings s), discussions := ds\<rparr>)"
    using executeIgnore_ok [OF assms] by blast
  have "norm_lower ''ignored'' = ''ignored''" by code_simp
  then have ign: "\<not> gate_blocks decode policy states (set_ignored now x)" for now x
    by (simp add: gate_blocks_def closed_states_def set_ignored_def)
  have flt: "filter (gate_blocks decode policy states) (map (\<lambda>x. if rf_id x = rf_id f then set_ignored (clock s) x else x) xs)
      = filter (gate_blocks decode policy states) (filter (\<lambda>x. rf_id x \<noteq> rf_id f) xs)" for xs
    by (induction xs) (auto simp: ign)
  define t where "t = s\<lparr>review_findings :=
     update_rows (\<lambda>x. rf_id x = rf_id f) (set_ignored (clock s)) (review_findings s), discussions := ds\<rparr>"
  have "gr_qualifying_finding_ids (ComputeResultWithDiscussionState decode run policy (rows (review_findings t)) states tr)
      = map rf_id (filter (gate_blocks decode policy states) (filter (\<lambda>x. rf_id x \<noteq> rf_id f) (rows (review_findings s))))"
    by (simp add: t_def ComputeResultWithDiscussionState_def Let_def qualifies_iff_blocks update_rows_def flt del: filter_filter)
  moreover have "rf_id f \<notin> set (map rf_id (filter (gate_blocks decode policy states)
      (filter (\<lambda>x. rf_id x \<noteq> rf_id f) (rows (review_findings s)))))" by auto
  moreover have "executeIgnoreWith ne s = (Inr (), t)" using run by (simp add: t_def)
  ultimately show ?thesis unfolding Let_def by (intro exI [of _ t] conjI) simp_all
qed

subsection \<open>Examples\<close>

definition sample_open_event :: json where
  "sample_open_event = JObject [(''object_kind'', JString ''merge_request''),
     (''project'', JObject [(''id'', JNumber ''42''), (''web_url'', JString ''https://g.io/a/b''),
        (''path_with_namespace'', JString ''a/b'')]),
     (''object_attributes'', JObject [(''iid'', JNumber ''7''), (''action'', JString ''open''),
        (''last_commit'', JObject [(''id'', JString ''c0ffee'')])])]"

definition sample_deployment :: deployment where
  "sample_deployment =
     \<lparr>dp_codec = \<lparr>cd_decode = (\<lambda>_. Some sample_open_event), cd_marshal = (\<lambda>_. []), cd_sha = (\<lambda>_. ''h''),
        cd_quote = (\<lambda>x. x), cd_fresh = ''u''\<rparr>,
      dp_secret = ''s3cret'', dp_github_secret = ''s3cret'', dp_hmac = sample_hmac, dp_admin_token = ''t0ken'', dp_last_id = (\<lambda>_ r. r), dp_marshal = (\<lambda>_. Some []), dp_hash = (\<lambda>_. ''h''),
      dp_scheduler = NewService ''w'' None [], dp_engine = pipeline, dp_writeback = silent_writeback, dp_error_text = (\<lambda>_. []), dp_sleep = (\<lambda>_. ret ())\<rparr>"

definition sample_delivery :: "db \<Rightarrow> (go_error + response) \<times> db" where
  "sample_delivery = ServeHTTP (dp_codec sample_deployment) (deployed_handler sample_deployment) Hooks_Handler.sample_request"

lemma sample_deployment_ok: "deployment_ok sample_deployment"
proof -
  have "sc_status_publisher (dp_scheduler sample_deployment) = None
      \<and> sc_gate_service (dp_scheduler sample_deployment) = None"
    by code_simp
  then show ?thesis by (simp add: deployment_ok_def service_keeps_def sample_deployment_def pipeline_def life.keeps_ret)
qed

lemma sample_delivery_reachable: "reachable sample_deployment s (snd (sample_delivery s))"
proof -
  have "ServeHTTP (dp_codec sample_deployment) (deployed_handler sample_deployment) Hooks_Handler.sample_request s
      = (fst (sample_delivery s), snd (sample_delivery s))"
    by (simp add: sample_delivery_def)
  then show ?thesis by (rule reachable.step [OF reachable.start system_step.webhook])
qed


theorem reachable_runs_persist_witness:
  "\<exists>r' \<in> set (rows (review_runs (snd (sample_delivery sample_db)))). frozen r' = frozen sample_pending"
proof -
  have "sample_pending \<in> set (rows (review_runs sample_db))" by (simp add: sample_db_def)
  then show ?thesis by (rule reachable_runs_persist [OF sample_delivery_reachable sample_deployment_ok])
qed

definition sample_thread_db :: db where
  "sample_thread_db = sample_db\<lparr>review_findings := \<lparr>rows = [zero_review_finding\<lparr>rf_id := 5, rf_review_run_id := 1,
     rf_merge_request_id := 1, rf_severity := ''critical'', rf_state := ''posted'', rf_gitlab_discussion_id := ''d5''\<rparr>],
     next_id = 6\<rparr>\<rparr>"

theorem ignore_unblocks_gate_witness:
  "\<exists>t. executeIgnoreWith (sample_note\<lparr>ne_discussion_id := ''d5''\<rparr>) sample_thread_db = (Inr (), t)
    \<and> gr_qualifying_finding_ids (ComputeResultWithDiscussionState (\<lambda>_. None) sample_pending None
         (rows (review_findings t)) None []) = []"
proof -
  have 1: "faults sample_thread_db = []" "ne_discussion_id (sample_note\<lparr>ne_discussion_id := ''d5''\<rparr>) \<noteq> []"
    "entity_rows (sample_note\<lparr>ne_discussion_id := ''d5''\<rparr>) sample_thread_db = Some (1, 1, 1)" by code_simp+
  have 2: "find_row (\<lambda>f. rf_merge_request_id f = 1 \<and> rf_gitlab_discussion_id f = ne_discussion_id (sample_note\<lparr>ne_discussion_id := ''d5''\<rparr>))
      (review_findings sample_thread_db) = Some (hd (rows (review_findings sample_thread_db)))" by code_simp
  have 3: "filter (\<lambda>x. rf_id x \<noteq> rf_id (hd (rows (review_findings sample_thread_db)))) (rows (review_findings sample_thread_db)) = []"
    by code_simp
  show ?thesis
    using ignore_unblocks_gate [OF 1 2, of "\<lambda>_. None" sample_pending None None "[]"] unfolding Let_def 3 by auto
qed

end
