(* ===== verification/Legacy_Bridge.thy ===== *)
theory Legacy_Bridge
  imports Platform_Publish
begin

text \<open>
  From the answer of a model to the findings of the engine, \<^verbatim>\<open>internal/reviewcore/legacy_bridge.go\<close>: the artifact of
  a reviewer, the candidates of a bare result, and the location of a finding with its metadata, a JSON map that travels
  through the engine and becomes the position of a GitLab comment. The maps the code builds are written as
  members in the order of their keys; \<open>marshal\<close> is \<^verbatim>\<open>json.Marshal\<close> as in the engine. Lines are \<^verbatim>\<open>int32\<close> values.
\<close>

subsection \<open>Texts of a finding\<close>

definition normalizeClaim :: "string \<Rightarrow> string \<Rightarrow> string" where
  "normalizeClaim title body =
     (let claim = (if trim_space body = [] then trim_space title else trim_space body) in
      join (Go_Strings.fields (to_lower claim)) '' '')"

fun first_evidence :: "string list \<Rightarrow> string option" where
  "first_evidence [] = None"
| "first_evidence (e # es) = (if trim_space e \<noteq> [] then Some (trim_space e) else first_evidence es)"

definition evidenceFingerprint :: "llm_finding \<Rightarrow> string" where
  "evidenceFingerprint f =
     (if trim_space (lf_canonical_key f) \<noteq> [] then trim_space (lf_canonical_key f)
      else case first_evidence (lf_evidence f) of
        Some e \<Rightarrow> e
      | None \<Rightarrow> normalizeClaim (lf_title f) (lf_body_markdown f))"

definition summaryBodyFromLegacyFinding :: "llm_finding \<Rightarrow> string" where
  "summaryBodyFromLegacyFinding f =
     (let title = trim_space (lf_title f); body = trim_space (lf_body_markdown f) in
      if title \<noteq> [] \<and> body \<noteq> [] then ''### '' @ title @ [CHR 0x0A, CHR 0x0A] @ body
      else if body \<noteq> [] then body else title)"

subsection \<open>Locations\<close>

definition legacy_normalizeAnchorKind :: "string \<Rightarrow> string" where
  "legacy_normalizeAnchorKind kind0 =
     (let kind = norm_lower kind0 in
      if kind \<in> set [''old'', ''old_line'', ''deleted''] then ''old_line''
      else if kind = ''range'' then ''range'' else ''new_line'')"

definition intPtr32Value :: "int option \<Rightarrow> int" where
  "intPtr32Value v = (case v of None \<Rightarrow> 0 | Some n \<Rightarrow> n)"

definition maybeInt32 :: "int option \<Rightarrow> json" where
  "maybeInt32 v = (case v of None \<Rightarrow> JNull | Some n \<Rightarrow> JNumber (itoa n))"

definition resolveLegacyPaths :: "string \<Rightarrow> string \<times> string" where
  "resolveLegacyPaths path0 =
     (let path = trim_space path0 in
      case split_n2 path '' -> '' of
        [a, b] \<Rightarrow> (trim_space a, trim_space b)
      | _ \<Rightarrow> (path, path))"

definition legacyRangeLineType :: "string \<Rightarrow> string" where
  "legacyRangeLineType kind0 =
     (let kind = norm_lower kind0 in
      if kind \<in> set [''old'', ''old_line'', ''removed''] then ''old''
      else if kind \<in> set [''new'', ''new_line'', ''added''] then ''new''
      else if kind \<in> set [''context'', ''context_line'', ''unchanged''] then ''context''
      else [])"

definition legacyLineCode :: "string \<Rightarrow> string \<Rightarrow> int option \<Rightarrow> int option \<Rightarrow> string" where
  "legacyLineCode oldPath newPath oldLine newLine =
     (let path = (if trim_space newPath = [] then trim_space oldPath else trim_space newPath) in
      if path = [] then []
      else trim_space path @ ''_'' @ itoa (intPtr32Value oldLine) @ ''_'' @ itoa (intPtr32Value newLine))"

text \<open>A member that is there when the line is.\<close>

definition line_member :: "string \<Rightarrow> int option \<Rightarrow> members" where
  "line_member key line = (case line of None \<Rightarrow> [] | Some n \<Rightarrow> [(key, JNumber (itoa n))])"

definition legacyRangeLineMetadata :: "string \<Rightarrow> string \<Rightarrow> string \<Rightarrow> int option \<Rightarrow> int option \<Rightarrow> members option" where
  "legacyRangeLineMetadata oldPath newPath kind oldLine newLine =
     (let lineType = legacyRangeLineType kind; code = legacyLineCode oldPath newPath oldLine newLine in
      if lineType = [] \<or> code = [] then None
      else Some ([(''line_code'', JString code)] @ line_member ''new_line'' newLine @ line_member ''old_line'' oldLine
        @ [(''type'', JString lineType)]))"

definition legacyLineRangeMetadata :: "string \<Rightarrow> string \<Rightarrow> llm_finding \<Rightarrow> members option" where
  "legacyLineRangeMetadata oldPath newPath f =
     (let start = legacyRangeLineMetadata oldPath newPath (trim_space (lf_range_start_kind f)) (lf_range_start_old_line f) (lf_range_start_new_line f);
          stop = legacyRangeLineMetadata oldPath newPath (trim_space (lf_range_end_kind f)) (lf_range_end_old_line f) (lf_range_end_new_line f)
      in case (start, stop) of
           (Some s, Some e) \<Rightarrow> Some [(''end'', JObject e), (''start'', JObject s)]
         | _ \<Rightarrow> None)"

definition has_range :: "llm_finding \<Rightarrow> bool" where
  "has_range f \<longleftrightarrow> lf_range_start_old_line f \<noteq> None \<or> lf_range_start_new_line f \<noteq> None
     \<or> lf_range_end_old_line f \<noteq> None \<or> lf_range_end_new_line f \<noteq> None"

definition location_metadata :: "llm_finding \<Rightarrow> members" where
  "location_metadata f = (case resolveLegacyPaths (lf_path f) of (oldPath, newPath) \<Rightarrow>
     [(''anchor_kind'', JString (lf_anchor_kind f))]
     @ (if has_range f then case legacyLineRangeMetadata oldPath newPath f of None \<Rightarrow> [] | Some r \<Rightarrow> [(''line_range'', JObject r)] else [])
     @ line_member ''new_line'' (lf_new_line f) @ [(''new_path'', JString newPath)]
     @ line_member ''old_line'' (lf_old_line f) @ [(''old_path'', JString oldPath)]
     @ (if has_range f then
          [(''range_end_new_line'', maybeInt32 (lf_range_end_new_line f)), (''range_end_old_line'', maybeInt32 (lf_range_end_old_line f)),
           (''range_start_new_line'', maybeInt32 (lf_range_start_new_line f)), (''range_start_old_line'', maybeInt32 (lf_range_start_old_line f))]
        else []))"

text \<open>Side, first and last line.\<close>

definition anchor_lines :: "llm_finding \<Rightarrow> string \<times> int \<times> int" where
  "anchor_lines f =
     (let kind = legacy_normalizeAnchorKind (lf_anchor_kind f) in
      if kind = ''old_line'' then (''old'', intPtr32Value (lf_old_line f), intPtr32Value (lf_old_line f))
      else if kind = ''range'' then
        (if intPtr32Value (lf_range_start_new_line f) > 0 then
           (''new'', intPtr32Value (lf_range_start_new_line f), maxInt (intPtr32Value (lf_range_start_new_line f)) (intPtr32Value (lf_range_end_new_line f)))
         else (''old'', intPtr32Value (lf_range_start_old_line f), maxInt (intPtr32Value (lf_range_start_old_line f)) (intPtr32Value (lf_range_end_old_line f))))
      else if intPtr32Value (lf_new_line f) > 0 then (''new'', intPtr32Value (lf_new_line f), intPtr32Value (lf_new_line f))
      else (''new'', 0, 0))"

definition locationFromLegacyFinding :: "(members option \<Rightarrow> string option) \<Rightarrow> llm_finding \<Rightarrow> canonical_location" where
  "locationFromLegacyFinding marshal f = (case resolveLegacyPaths (lf_path f) of (oldPath, newPath) \<Rightarrow>
     case anchor_lines f of (side, start, stop) \<Rightarrow>
     \<lparr>cl_path = (if trim_space newPath = [] then trim_space oldPath else trim_space newPath), cl_side = side,
      cl_start_line = start, cl_end_line = stop, cl_snippet = trim_space (lf_anchor_snippet f),
      cl_platform_metadata = (case marshal (Some (location_metadata f)) of
        Some data \<Rightarrow> if length data > 2 then data else [] | None \<Rightarrow> [])\<rparr>)"

subsection \<open>Findings, artifacts and candidates\<close>

definition findingFromLegacy :: "(members option \<Rightarrow> string option) \<Rightarrow> llm_finding \<Rightarrow> core_finding" where
  "findingFromLegacy marshal f =
     (let body = trim_space (lf_body_markdown f); title = trim_space (lf_title f) in
      \<lparr>cf_category = trim_space (lf_category f), cf_severity = trim_space (lf_severity f), cf_title = title, cf_body = body,
       cf_claim = (if body = [] then title else body), cf_confidence = lf_confidence f,
       cf_identity = \<lparr>fi_category = trim_space (lf_category f), fi_normalized_claim = normalizeClaim title body,
         fi_evidence_fingerprint = evidenceFingerprint f, fi_standards = [], fi_location = locationFromLegacyFinding marshal f\<rparr>\<rparr>)"

definition ArtifactFromLegacyResult :: "(members option \<Rightarrow> string option) \<Rightarrow> review_target \<Rightarrow> string \<Rightarrow> review_result \<Rightarrow> reviewer_artifact" where
  "ArtifactFromLegacyResult marshal target reviewerID result =
     \<lparr>ra_reviewer_id = reviewerID, ra_reviewer_kind = ''legacy_provider'', ra_target = target,
      ra_summary = trim_space (rs_summary result), ra_findings = map (findingFromLegacy marshal) (rs_findings result)\<rparr>"

definition summary_candidate :: "string \<Rightarrow> publish_candidate" where
  "summary_candidate body = \<lparr>pc_kind = ''summary'', pc_body = body, pc_title = [], pc_severity = [], pc_publish_as_summary = False,
     pc_out_of_diff = False, pc_location = zero_location\<rparr>"

definition legacy_candidate :: "(members option \<Rightarrow> string option) \<Rightarrow> llm_finding \<Rightarrow> publish_candidate" where
  "legacy_candidate marshal f =
     (let location = locationFromLegacyFinding marshal f; bare = (trim_space (cl_path location) = []) in
      \<lparr>pc_kind = ''finding'', pc_body = (if bare then summaryBodyFromLegacyFinding f else trim_space (lf_body_markdown f)),
       pc_title = trim_space (lf_title f), pc_severity = trim_space (lf_severity f), pc_publish_as_summary = bare,
       pc_out_of_diff = False, pc_location = location\<rparr>)"

definition PublishCandidatesFromLegacyResult :: "(members option \<Rightarrow> string option) \<Rightarrow> review_result \<Rightarrow> publish_candidate list" where
  "PublishCandidatesFromLegacyResult marshal result =
     (let note = trim_space (case rs_summary_note result of None \<Rightarrow> [] | Some b \<Rightarrow> b); summary = trim_space (rs_summary result) in
      (if note \<noteq> [] then [summary_candidate note] else if summary \<noteq> [] then [summary_candidate summary] else [])
      @ map (legacy_candidate marshal) (rs_findings result))"

subsection \<open>Reading the metadata back\<close>

text \<open>\<^verbatim>\<open>json.Marshal\<close> and \<^verbatim>\<open>json.Unmarshal\<close> on a map: a map is written with its members in the order of the keys and read back with
  the same members. The hypothesis is made for the maps with the members \<open>ms\<close> only, since a text that is not UTF-8 is not read
  back as it was.\<close>

definition read_back :: "(string \<Rightarrow> json option) \<Rightarrow> (members option \<Rightarrow> string option) \<Rightarrow> members \<Rightarrow> bool" where
  "read_back decode marshal ms \<longleftrightarrow> (\<forall>m. m \<noteq> [] \<longrightarrow> distinct (map fst m) \<longrightarrow> set m \<subseteq> set ms \<longrightarrow>
     (\<exists>data m'. marshal (Some m) = Some data \<and> length data > 2 \<and> decode data = Some (JObject m') \<and> mset m' = mset m))"

lemma parse_int64_itoa:
  assumes "int32 n" shows "parse_int64 (itoa n) = Some n"
proof (cases "n < 0")
  case False
  then show ?thesis using parse_int64_nat_digits [of "nat n"] assms by (simp add: itoa_def int32_def)
next
  case True
  obtain c cs where d: "nat_digits (nat (- n)) = c # cs" by (metis nat_digits_not_Nil list.exhaust)
  have "list_all is_digit (c # cs)" using nat_digits_is_digit d by (metis list_all_iff)
  moreover have "digits_value 0 (c # cs) = nat (- n)" using nat_digits_value [of "nat (- n)"] by (simp only: d)
  ultimately show ?thesis using True assms
    by (simp add: parse_int64_def itoa_def d Let_def int32_def del: digits_value.simps)
qed

lemma named_simps [simp]:
  "named k [] = []"
  "named k ((k', v) # m) = (if equal_fold k' k then v # named k m else named k m)"
  "named k (m @ m') = named k m @ named k m'"
  by (simp_all add: named_def)

lemma named_mset:
  assumes "mset m' = mset m" and "length (named k m) \<le> 1"
  shows "named k m' = named k m"
proof -
  have "mset (named k m') = mset (named k m)"
    using assms(1) unfolding named_def by (metis mset_filter mset_map)
  then show ?thesis using assms(2)
    by (cases "named k m") (auto simp: length_Suc_conv Suc_le_eq)
qed

lemma update_fresh: "k \<notin> fst ` set m \<Longrightarrow> AList.update k v m = m @ [(k, v)]"
  by (induction m) auto

lemma update_distinct:
  "distinct (map fst (a @ m)) \<Longrightarrow> foldl (\<lambda>m (k, v). AList.update k v m) a m = a @ m"
proof (induction m arbitrary: a)
  case (Cons x m)
  obtain k v where x: "x = (k, v)" by (cases x)
  have "AList.update k v a = a @ [(k, v)]" using Cons.prems by (intro update_fresh) (auto simp: x)
  then show ?case using Cons by (simp add: x)
qed simp

definition folded :: "string \<Rightarrow> bool" where
  "folded k \<longleftrightarrow> fold_case k = k"

lemma equal_fold_folded: "folded a \<Longrightarrow> folded b \<Longrightarrow> equal_fold a b \<longleftrightarrow> a = b"
  by (simp add: folded_def equal_fold_def)

lemma metadata_keys_folded:
  "folded ''base_sha''" "folded ''start_sha''" "folded ''head_sha''" "folded ''anchor_kind''" "folded ''line_range''" "folded ''new_line''"
  "folded ''new_path''" "folded ''old_line''" "folded ''old_path''" "folded ''range_end_new_line''" "folded ''range_end_old_line''" "folded ''range_start_new_line''"
  "folded ''range_start_old_line''" "folded ''line_code''" "folded ''type''" "folded ''start''" "folded ''end''"
  by code_simp+

lemmas metadata_keys = equal_fold_folded metadata_keys_folded

text \<open>The members of a map with distinct keys; a version adds its commits.\<close>

definition sha_member :: "string \<Rightarrow> string \<Rightarrow> members" where
  "sha_member key sha = (if sha = [] then [] else [(key, JString sha)])"

definition version_members :: "version_context \<Rightarrow> members" where
  "version_members v = sha_member ''base_sha'' (trim_space (vc_base_sha v)) @ sha_member ''start_sha'' (trim_space (vc_start_sha v))
     @ sha_member ''head_sha'' (trim_space (vc_head_sha v))"

subsection \<open>The position a finding means\<close>

definition range_line_of :: "string \<Rightarrow> string \<Rightarrow> string \<Rightarrow> int option \<Rightarrow> int option \<Rightarrow> range_line option" where
  "range_line_of oldPath newPath kind oldLine newLine =
     (if legacyRangeLineType kind = [] \<or> (oldPath = [] \<and> newPath = []) then None
      else Some \<lparr>rg_line_code = (if newPath = [] then oldPath else newPath) @ ''_'' @ itoa (intPtr32Value oldLine) @ ''_'' @ itoa (intPtr32Value newLine),
        rg_line_type = legacyRangeLineType kind, rg_old_line = oldLine, rg_new_line = newLine\<rparr>)"

definition finding_range :: "llm_finding \<Rightarrow> line_range option" where
  "finding_range f = (case resolveLegacyPaths (lf_path f) of (oldPath, newPath) \<Rightarrow>
     if \<not> has_range f then None
     else case (range_line_of oldPath newPath (lf_range_start_kind f) (lf_range_start_old_line f) (lf_range_start_new_line f),
                range_line_of oldPath newPath (lf_range_end_kind f) (lf_range_end_old_line f) (lf_range_end_new_line f)) of
       (Some s, Some e) \<Rightarrow> Some \<lparr>lr_start = s, lr_end = e\<rparr>
     | _ \<Rightarrow> None)"

definition finding_position :: "version_context \<Rightarrow> llm_finding \<Rightarrow> position" where
  "finding_position v f = (case resolveLegacyPaths (lf_path f) of (oldPath, newPath) \<Rightarrow>
     case anchor_lines f of (side, start, stop) \<Rightarrow>
     let path = (if newPath = [] then oldPath else newPath);
         line = (\<lambda>own given. case given of Some n \<Rightarrow> Some n | None \<Rightarrow> if own \<and> start > 0 then Some start else None)
     in \<lparr>po_position_type = (if finding_range f \<noteq> None \<or> start > 0 \<or> stop > 0 then ''text'' else ''file''),
         po_base_sha = trim_space (vc_base_sha v), po_start_sha = trim_space (vc_start_sha v), po_head_sha = trim_space (vc_head_sha v),
         po_old_path = (if oldPath = [] then path else oldPath), po_new_path = path,
         po_old_line = (case finding_range f of Some r \<Rightarrow> rg_old_line (lr_end r) | None \<Rightarrow> line (side = ''old'') (lf_old_line f)),
         po_new_line = (case finding_range f of Some r \<Rightarrow> rg_new_line (lr_end r) | None \<Rightarrow> line (side \<noteq> ''old'') (lf_new_line f)),
         po_line_range = finding_range f\<rparr>)"

subsection \<open>Proof\<close>

lemma resolveLegacyPaths_trimmed:
  "resolveLegacyPaths p = (a, b) \<Longrightarrow> trim_space a = a \<and> trim_space b = b"
  by (auto simp: resolveLegacyPaths_def Let_def split_n2_def split: option.splits)

lemma line_member_named [simp]:
  "named k (line_member k' l) = (if equal_fold k' k then case l of None \<Rightarrow> [] | Some n \<Rightarrow> [JNumber (itoa n)] else [])"
  by (simp add: line_member_def split: option.splits)

lemma sha_member_named [simp]:
  "named k (sha_member k' s) = (if equal_fold k' k \<and> s \<noteq> [] then [JString s] else [])"
  by (simp add: sha_member_def)

definition lines_fit :: "int option \<Rightarrow> bool" where
  "lines_fit l \<longleftrightarrow> (case l of None \<Rightarrow> True | Some i \<Rightarrow> - (2 ^ 31) \<le> i \<and> i < 2 ^ 31)"

lemma int32_field_line:
  assumes "lines_fit l"
  shows "int32_field None (case l of None \<Rightarrow> [] | Some n \<Rightarrow> [JNumber (itoa n)]) = Some l"
  using assms parse_int64_itoa by (auto simp: lines_fit_def int32_def split: option.splits)

lemma legacyRangeLineType_trim [simp]: "legacyRangeLineType (trim_space k) = legacyRangeLineType k"
  by (simp add: legacyRangeLineType_def)

lemma legacyLineCode_paths:
  "trim_space oldPath = oldPath \<Longrightarrow> trim_space newPath = newPath \<Longrightarrow> legacyLineCode oldPath newPath oldLine newLine =
     (if oldPath = [] \<and> newPath = [] then []
      else (if newPath = [] then oldPath else newPath) @ ''_'' @ itoa (intPtr32Value oldLine) @ ''_'' @ itoa (intPtr32Value newLine))"
  by (simp add: legacyLineCode_def)

lemma unmarshal_range_members:
  assumes "lines_fit oldLine" and "lines_fit newLine"
  shows "unmarshal_range_line ([(''line_code'', JString code)] @ line_member ''new_line'' newLine @ line_member ''old_line'' oldLine
        @ [(''type'', JString ty)]) = Some \<lparr>rg_line_code = code, rg_line_type = ty, rg_old_line = oldLine, rg_new_line = newLine\<rparr>"
  using int32_field_line assms
  by (simp add: unmarshal_range_line_def str_of_def metadata_keys)

lemma unmarshal_range_line_of:
  assumes "lines_fit oldLine" and "lines_fit newLine" and "trim_space oldPath = oldPath" "trim_space newPath = newPath"
  shows "(case legacyRangeLineMetadata oldPath newPath (trim_space kind) oldLine newLine of
      None \<Rightarrow> range_line_of oldPath newPath kind oldLine newLine = None
    | Some m \<Rightarrow> \<exists>l. range_line_of oldPath newPath kind oldLine newLine = Some l \<and> unmarshal_range_line m = Some l)"
proof (cases "legacyRangeLineType kind = [] \<or> (oldPath = [] \<and> newPath = [])")
  case True
  then show ?thesis by (auto simp: legacyRangeLineMetadata_def range_line_of_def legacyLineCode_paths [OF assms(3,4)] Let_def)
next
  case False
  then show ?thesis
    by (simp add: legacyRangeLineMetadata_def range_line_of_def legacyLineCode_paths [OF assms(3,4)]
        unmarshal_range_members [OF assms(1,2), simplified] Let_def del: named_simps)
qed

lemma finding_lines_fit:
  assumes "lines_int32 f"
  shows "lines_fit (lf_old_line f)" "lines_fit (lf_new_line f)" "lines_fit (lf_range_start_old_line f)"
    "lines_fit (lf_range_start_new_line f)" "lines_fit (lf_range_end_old_line f)" "lines_fit (lf_range_end_new_line f)"
  using assms by (simp_all add: lines_int32_def finding_lines_def lines_fit_def)

lemma unmarshal_finding_range:
  assumes "lines_int32 f" and "resolveLegacyPaths (lf_path f) = (oldPath, newPath)"
  shows "(case (if has_range f then legacyLineRangeMetadata oldPath newPath f else None) of
      None \<Rightarrow> finding_range f = None
    | Some m \<Rightarrow> \<exists>r. finding_range f = Some r \<and> unmarshal_line_range m = Some r)"
proof (cases "has_range f")
  case True
  note fit = finding_lines_fit [OF assms(1)] and trim = resolveLegacyPaths_trimmed [OF assms(2)]
  note start = unmarshal_range_line_of [OF fit(3,4) trim [THEN conjunct1] trim [THEN conjunct2], of "lf_range_start_kind f"]
    and stop = unmarshal_range_line_of [OF fit(5,6) trim [THEN conjunct1] trim [THEN conjunct2], of "lf_range_end_kind f"]
  show ?thesis using start stop True
    by (auto simp: finding_range_def assms(2) legacyLineRangeMetadata_def unmarshal_line_range_def struct_of_def
        metadata_keys split: option.splits)
qed (simp add: finding_range_def assms(2))

text \<open>The members of the metadata and of the version, in any order, are read as the position.\<close>

lemma unmarshal_location:
  assumes "lines_int32 f" and "resolveLegacyPaths (lf_path f) = (oldPath, newPath)"
    and "mset m = mset (location_metadata f @ version_members v)"
  shows "unmarshal_position m = Some \<lparr>gpm_base_sha = trim_space (vc_base_sha v), gpm_start_sha = trim_space (vc_start_sha v),
    gpm_head_sha = trim_space (vc_head_sha v), gpm_old_path = oldPath, gpm_new_path = newPath,
    gpm_old_line = lf_old_line f, gpm_new_line = lf_new_line f, gpm_line_range = finding_range f\<rparr>"
proof -
  let ?M = "location_metadata f @ version_members v"
  have nm: "length (named k ?M) \<le> 1 \<Longrightarrow> named k m = named k ?M" for k
    by (rule named_mset [OF assms(3)])
  note eval = location_metadata_def version_members_def assms(2) metadata_keys
  have sha: "named ''base_sha'' m = (if trim_space (vc_base_sha v) \<noteq> [] then [JString (trim_space (vc_base_sha v))] else [])"
    "named ''start_sha'' m = (if trim_space (vc_start_sha v) \<noteq> [] then [JString (trim_space (vc_start_sha v))] else [])"
    "named ''head_sha'' m = (if trim_space (vc_head_sha v) \<noteq> [] then [JString (trim_space (vc_head_sha v))] else [])"
    by (subst nm; simp add: eval split: option.split)+
  have path: "named ''old_path'' m = [JString oldPath]" "named ''new_path'' m = [JString newPath]"
    by (subst nm; simp add: eval split: option.split)+
  have line: "named ''old_line'' m = (case lf_old_line f of None \<Rightarrow> [] | Some n \<Rightarrow> [JNumber (itoa n)])"
    "named ''new_line'' m = (case lf_new_line f of None \<Rightarrow> [] | Some n \<Rightarrow> [JNumber (itoa n)])"
    by (subst nm; simp add: eval split: option.split)+
  have range: "named ''line_range'' m = (case (if has_range f then legacyLineRangeMetadata oldPath newPath f else None) of
      None \<Rightarrow> [] | Some r \<Rightarrow> [JObject r])"
    by (subst nm; simp add: eval split: option.split)
  define r where "r = (if has_range f then legacyLineRangeMetadata oldPath newPath f else None)"
  note old = int32_field_line [OF finding_lines_fit(1) [OF assms(1)]] and new = int32_field_line [OF finding_lines_fit(2) [OF assms(1)]]
  have "case r of None \<Rightarrow> finding_range f = None | Some m \<Rightarrow> \<exists>x. finding_range f = Some x \<and> unmarshal_line_range m = Some x"
    using unmarshal_finding_range [OF assms(1,2)] by (simp add: r_def)
  then show ?thesis
    by (cases r; auto simp: unmarshal_position_def str_of_def sha path line old new range [folded r_def])
qed

lemma member_keys:
  "map fst (line_member k l) = (if l \<noteq> None then [k] else [])" "map fst (sha_member k s) = (if s \<noteq> [] then [k] else [])"
  by (simp_all add: line_member_def sha_member_def split: option.split)

lemma location_metadata_keys:
  "distinct (map fst (location_metadata f @ version_members v))"
proof -
  obtain a b where p: "resolveLegacyPaths (lf_path f) = (a, b)" by fastforce
  define c where "c = (has_range f \<and> legacyLineRangeMetadata a b f \<noteq> None)"
  have c: "map fst (if has_range f then case legacyLineRangeMetadata a b f of None \<Rightarrow> [] | Some r \<Rightarrow> [(''line_range'', JObject r)] else [])
      = (if c then [''line_range''] else [])"
    by (simp add: c_def split: option.split)
  let ?keys = "[(''anchor_kind'', True), (''line_range'', c), (''new_line'', lf_new_line f \<noteq> None), (''new_path'', True),
    (''old_line'', lf_old_line f \<noteq> None), (''old_path'', True), (''range_end_new_line'', has_range f), (''range_end_old_line'', has_range f),
    (''range_start_new_line'', has_range f), (''range_start_old_line'', has_range f), (''base_sha'', trim_space (vc_base_sha v) \<noteq> []),
    (''start_sha'', trim_space (vc_start_sha v) \<noteq> []), (''head_sha'', trim_space (vc_head_sha v) \<noteq> [])]"
  have "map fst (location_metadata f @ version_members v) = map fst (filter snd ?keys)"
    unfolding location_metadata_def p prod.case version_members_def map_append c member_keys by simp
  moreover have "distinct (map fst ?keys)" by simp
  ultimately show ?thesis by (simp only: distinct_map_filter)
qed

lemma location_key_names: "fst ` set (location_metadata f) \<inter> {''base_sha'', ''start_sha'', ''head_sha''} = {}"
proof -
  let ?v = "\<lparr>vc_base_sha = ''a'', vc_start_sha = ''a'', vc_head_sha = ''a'', vc_patch_id_sha = []\<rparr>"
  have a: "trim_space ''a'' = ''a''" by code_simp
  show ?thesis using location_metadata_keys [of f ?v] by (auto simp: version_members_def sha_member_def a)
qed

lemma put_sha_fresh:
  "key \<notin> fst ` set m \<Longrightarrow> put_sha key sha (Some m) = Inr (Some (m @ sha_member key sha))"
  by (auto simp: put_sha_def sha_member_def update_fresh map_of_eq_None_iff)

text \<open>The engine adds the commits of the version to the metadata.\<close>

lemma put_version:
  assumes "fst ` set m \<inter> {''base_sha'', ''start_sha'', ''head_sha''} = {}"
  shows "(case put_sha ''base_sha'' (trim_space (vc_base_sha v)) (Some m) of Inl e \<Rightarrow> Inl e
    | Inr m1 \<Rightarrow> (case put_sha ''start_sha'' (trim_space (vc_start_sha v)) m1 of Inl e \<Rightarrow> Inl e
      | Inr m2 \<Rightarrow> put_sha ''head_sha'' (trim_space (vc_head_sha v)) m2)) = Inr (Some (m @ version_members v))"
proof -
  have "''start_sha'' \<notin> fst ` set (m @ sha_member ''base_sha'' b)"
    "''head_sha'' \<notin> fst ` set ((m @ sha_member ''base_sha'' b) @ sha_member ''start_sha'' c)" for b c
    using assms by (auto simp: sha_member_def)
  then show ?thesis using assms by (simp add: put_sha_fresh version_members_def)
qed

lemma versioned_location:
  assumes "read_back decode marshal (location_metadata f @ version_members v)" and "v = rvq_version (ri_request input)"
    and "rt_platform (ri_target input) = ''gitlab''" and "l = locationFromLegacyFinding marshal f" and "trim_space (cl_path l) \<noteq> []"
  shows "\<exists>data m. locationWithGitLabVersionMetadata decode marshal input l = Inr (l\<lparr>cl_platform_metadata := data\<rparr>) \<and> data \<noteq> []
    \<and> decode data = Some (JObject m) \<and> mset m = mset (location_metadata f @ version_members v)"
proof -
  let ?M = "location_metadata f"
  have dM: "distinct (map fst (?M @ version_members v))" by (rule location_metadata_keys)
  then have "distinct (map fst ?M)" by simp
  moreover have "?M \<noteq> []" unfolding location_metadata_def by (cases "resolveLegacyPaths (lf_path f)") simp
  ultimately obtain data m where m: "marshal (Some ?M) = Some data" "length data > 2" "decode data = Some (JObject m)" "mset m = mset ?M"
    using assms(1) [unfolded read_back_def, THEN spec, of ?M] by auto
  have meta: "cl_platform_metadata l = data" using m(1,2) by (simp add: assms(4) locationFromLegacyFinding_def split: prod.splits)
  then have same: "l\<lparr>cl_platform_metadata := data\<rparr> = l" by (cases l) simp
  have data: "data \<noteq> []" using m(2) by auto
  have ms: "mset (m @ version_members v) = mset (?M @ version_members v)" using m(4) by simp
  then have dm: "distinct (map fst (m @ version_members v))" using dM by (metis mset_eq_imp_distinct_iff mset_map)
  show ?thesis
  proof (cases "version_members v = []")
    case True
    then have "trim_space (vc_base_sha v) = []" "trim_space (vc_start_sha v) = []" "trim_space (vc_head_sha v) = []"
      by (simp_all add: version_members_def sha_member_def split: if_splits)
    then have "locationWithGitLabVersionMetadata decode marshal input l = Inr l"
      using assms(2) by (simp add: locationWithGitLabVersionMetadata_def)
    then show ?thesis using same data m(3,4) True by (intro exI [of _ data] exI [of _ m]) simp
  next
    case False
    then have sha: "\<not> (trim_space (vc_base_sha v) = [] \<and> trim_space (vc_start_sha v) = [] \<and> trim_space (vc_head_sha v) = [])"
      by (auto simp: version_members_def sha_member_def)
    have "set (m @ version_members v) \<subseteq> set (?M @ version_members v)" using ms by (metis mset_eq_setD order_refl)
    then obtain raw m' where m': "marshal (Some (m @ version_members v)) = Some raw" "length raw > 2" "decode raw = Some (JObject m')"
        "mset m' = mset (m @ version_members v)"
      using assms(1) [unfolded read_back_def, THEN spec, of "m @ version_members v"] dm False by auto
    have "metadata_of decode (cl_platform_metadata l) = Some m"
      using data m(3) dm update_distinct [of "[]" m] by (simp add: metadata_of_def meta)
    moreover have "fst ` set m \<inter> {''base_sha'', ''start_sha'', ''head_sha''} = {}"
      using m(4) location_key_names [of f] by (metis mset_eq_setD)
    ultimately have "locationWithGitLabVersionMetadata decode marshal input l = Inr (l\<lparr>cl_platform_metadata := raw\<rparr>)"
      using put_version [of m v] m'(1) sha assms(2,3,5)
      by (auto simp: locationWithGitLabVersionMetadata_def Let_def split: sum.splits)
    moreover have "raw \<noteq> []" using m'(2) by auto
    ultimately show ?thesis using m'(3,4) ms by auto
  qed
qed

lemma anchor_lines_fit:
  assumes "lines_int32 f" and "anchor_lines f = (side, start, stop)"
  shows "wrap32 start = start"
proof -
  have "lines_fit (Some start)"
    using assms(2) finding_lines_fit [OF assms(1)]
    by (auto simp: anchor_lines_def Let_def intPtr32Value_def lines_fit_def split: if_splits option.splits)
  then show ?thesis by (simp add: lines_fit_def wrap32_def)
qed

lemma position_of_metadata:
  assumes "lines_int32 f" and "resolveLegacyPaths (lf_path f) = (oldPath, newPath)" and "l = locationFromLegacyFinding marshal f"
  shows "with_metadata \<lparr>gpm_base_sha = trim_space (vc_base_sha v), gpm_start_sha = trim_space (vc_start_sha v),
    gpm_head_sha = trim_space (vc_head_sha v), gpm_old_path = oldPath, gpm_new_path = newPath,
    gpm_old_line = lf_old_line f, gpm_new_line = lf_new_line f, gpm_line_range = finding_range f\<rparr>
      (start_position (l\<lparr>cl_platform_metadata := data\<rparr>)) = finding_position v f"
proof -
  obtain side start stop where a: "anchor_lines f = (side, start, stop)" by (cases "anchor_lines f")
  note trim = resolveLegacyPaths_trimmed [OF assms(2)] and fit = anchor_lines_fit [OF assms(1) a]
  have l: "cl_path l = (if newPath = [] then oldPath else newPath)" "cl_side l = side" "cl_start_line l = start" "cl_end_line l = stop"
    using trim by (simp_all add: assms(3) locationFromLegacyFinding_def assms(2) a)
  show ?thesis
    by (cases "finding_range f"; cases "lf_old_line f"; cases "lf_new_line f")
      (simp_all add: with_metadata_def start_position_def finding_position_def assms(2) a l given_def int32Ptr_def fit trim Let_def)
qed


subsection \<open>Example\<close>

text \<open>Maps over a list of members are written as their positions in it.\<close>

fun place :: "'a list \<Rightarrow> 'a \<Rightarrow> nat" where
  "place [] x = 0"
| "place (y # ys) x = (if x = y then 0 else Suc (place ys x))"

definition write_map :: "members \<Rightarrow> members option \<Rightarrow> string option" where
  "write_map ms m = map_option (\<lambda>kvs. ''{}'' @ map (\<lambda>x. char_of (place ms x)) kvs) m"

definition read_map :: "members \<Rightarrow> string \<Rightarrow> json option" where
  "read_map ms s = Some (JObject (map (\<lambda>c. ms ! of_char c) (drop 2 s)))"

lemma place_nth: "x \<in> set ms \<Longrightarrow> place ms x < length ms \<and> ms ! place ms x = x"
  by (induction ms) auto

lemma read_write_map:
  assumes "length ms < 256" shows "read_back (read_map ms) (write_map ms) ms"
proof -
  have "ms ! of_char (char_of (place ms x) :: char) = x" if "x \<in> set ms" for x
    using place_nth [OF that] assms by simp
  then have m: "map (\<lambda>c. ms ! of_char c) (map (\<lambda>x. char_of (place ms x) :: char) m) = m" if "set m \<subseteq> set ms" for m
    unfolding map_map by (intro map_idI) (use that in \<open>auto simp del: of_char_of\<close>)
  show ?thesis unfolding read_back_def
  proof (intro allI impI)
    fix m assume "m \<noteq> []" and sub: "set m \<subseteq> set ms"
    have "write_map ms (Some m) = Some (''{}'' @ map (\<lambda>x. char_of (place ms x)) m)" by (simp add: write_map_def)
    moreover have "read_map ms (''{}'' @ map (\<lambda>x. char_of (place ms x)) m) = Some (JObject m)"
      using m [OF sub] by (simp add: read_map_def del: map_map)
    ultimately show "\<exists>data m'. write_map ms (Some m) = Some data \<and> length data > 2 \<and> read_map ms data = Some (JObject m') \<and> mset m' = mset m"
      using \<open>m \<noteq> []\<close> by simp
  qed
qed

definition ranged_finding :: llm_finding where
  "ranged_finding = (sample_llm_finding [])\<lparr>lf_path := ''a.go -> b.go'', lf_anchor_kind := ''range'', lf_new_line := None,
     lf_range_start_kind := ''new'', lf_range_start_new_line := Some 3, lf_range_end_kind := ''new'', lf_range_end_new_line := Some 5\<rparr>"

definition versioned_input :: review_input where
  "versioned_input = (sample_input 8)\<lparr>ri_request := sample_request\<lparr>rvq_version :=
     \<lparr>vc_base_sha = ''b'', vc_start_sha = ''s'', vc_head_sha = ''h'', vc_patch_id_sha = []\<rparr>\<rparr>\<rparr>"

definition sample_members :: members where
  "sample_members = location_metadata ranged_finding @ version_members (rvq_version (ri_request versioned_input))"

lemma ranged_position:
  "(let p = finding_position (rvq_version (ri_request versioned_input)) ranged_finding in
     po_position_type p = ''text'' \<and> po_base_sha p = ''b'' \<and> po_old_path p = ''a.go'' \<and> po_new_path p = ''b.go'' \<and> po_new_line p = Some 5
     \<and> map_option (rg_new_line \<circ> lr_start) (po_line_range p) = Some (Some 3))"
  by code_simp

lemma ranged_inline:
  "(case publishCandidateForFinding (read_map sample_members) (write_map sample_members) versioned_input (\<lambda>_. None)
      (findingFromLegacy (write_map sample_members) ranged_finding) of Inl _ \<Rightarrow> False | Inr c \<Rightarrow> \<not> pc_publish_as_summary c)"
  by code_simp


end
