(* ===== verification/Model_Providers.thy ===== *)
theory Model_Providers
  imports Llm_Parser Review_Request
begin

text \<open>
  Which model answers a review: the registry of providers with its fallback chain (\<^verbatim>\<open>internal/llm/registry.go\<close>) and the model
  catalog of the configuration (\<^verbatim>\<open>internal/config/model_catalog.go\<close>). A provider is an interface of the code and a parameter
  here: a call takes the state \<open>'w\<close> of the world and returns an error or a response. An error is its text and whether
  it is a timeout, all the code asks of it.
\<close>

subsection \<open>Providers\<close>

record provider_error =
  perr_text :: string
  perr_timeout :: bool

text \<open>The reports on schemas and on the parts of a composite provider are carried along and play no part here.\<close>

record provider_response =
  prs_result :: review_result
  prs_raw_text :: string
  prs_latency :: int
  prs_tokens :: int
  prs_fallback_stage :: string
  prs_model :: string
  prs_response_payload :: "string \<rightharpoonup> json"

type_synonym 'w provider_call = "'w \<Rightarrow> (provider_error + provider_response) \<times> 'w"

record 'w dynamic_prompts =
  dyn_review :: "review_request \<Rightarrow> string \<Rightarrow> 'w provider_call"
  dyn_request_payload :: "review_request \<Rightarrow> string \<Rightarrow> string \<rightharpoonup> json"

record 'w provider =
  pvd_review :: "review_request \<Rightarrow> 'w provider_call"
  pvd_request_payload :: "review_request \<Rightarrow> string \<rightharpoonup> json"
  pvd_dynamic :: "'w dynamic_prompts option"

definition reviewWithSystemPrompt :: "'w provider \<Rightarrow> review_request \<Rightarrow> string \<Rightarrow> 'w provider_call" where
  "reviewWithSystemPrompt p request systemPrompt = (case pvd_dynamic p of
     Some d \<Rightarrow> dyn_review d request systemPrompt | None \<Rightarrow> pvd_review p request)"

definition requestPayloadWithSystemPrompt :: "'w provider \<Rightarrow> review_request \<Rightarrow> string \<Rightarrow> string \<rightharpoonup> json" where
  "requestPayloadWithSystemPrompt p request systemPrompt = (case pvd_dynamic p of
     Some d \<Rightarrow> dyn_request_payload d request systemPrompt | None \<Rightarrow> pvd_request_payload p request)"

subsection \<open>The fallback chain\<close>

definition shouldFallbackToSecondary :: "provider_error \<Rightarrow> bool" where
  "shouldFallbackToSecondary e \<longleftrightarrow> perr_timeout e \<or>
     (let message = to_lower (perr_text e) in
      contains message ''provider_request_failed'' \<or> contains message ''5xx'' \<or> contains message ''status 500''
      \<or> contains message ''status 502'' \<or> contains message ''status 503'' \<or> contains message ''status 504'')"

definition joinNonEmpty :: "string list \<Rightarrow> string" where
  "joinNonEmpty parts = join (filter (\<lambda>p. p \<noteq> []) (map trim_space parts)) '':''"

text \<open>A fallback with its route; the provider may be nil.\<close>

type_synonym 'w named_provider = "string \<times> 'w provider option"

definition fallback_response :: "string \<Rightarrow> string \<Rightarrow> provider_response \<Rightarrow> provider_response" where
  "fallback_response previousRoute route response =
     response\<lparr>prs_response_payload := (prs_response_payload response)
         (''fallback_from_provider_route'' \<mapsto> JString previousRoute, ''provider_route'' \<mapsto> JString route),
       prs_fallback_stage := trim_space (joinNonEmpty [prs_fallback_stage response, ''fallback_provider'']),
       prs_model := (if prs_model response = [] then route else prs_model response)\<rparr>"

definition chain_error :: "string list \<Rightarrow> provider_error \<Rightarrow> provider_error" where
  "chain_error failures e =
     e\<lparr>perr_text := ''llm: provider chain failed ('' @ join failures ''; '' @ ''): '' @ perr_text e\<rparr>"

definition failure_text :: "string \<Rightarrow> provider_error \<Rightarrow> string" where
  "failure_text route e = route @ '': '' @ perr_text e"

fun fallback_loop :: "('w provider \<Rightarrow> 'w provider_call) \<Rightarrow> 'w named_provider list \<Rightarrow> string \<Rightarrow> provider_error \<Rightarrow> string list \<Rightarrow> 'w provider_call" where
  "fallback_loop call [] previousRoute previousErr failures w = (Inl (chain_error failures previousErr), w)"
| "fallback_loop call ((route, p) # fs) previousRoute previousErr failures w = (case p of
     None \<Rightarrow> fallback_loop call fs previousRoute previousErr failures w
   | Some provider \<Rightarrow>
       if route = [] then fallback_loop call fs previousRoute previousErr failures w
       else case call provider w of
         (Inr response, w') \<Rightarrow> (Inr (fallback_response previousRoute route response), w')
       | (Inl e, w') \<Rightarrow>
           let failures' = failures @ [failure_text route e] in
           if shouldFallbackToSecondary e then fallback_loop call fs route e failures' w'
           else (Inl (chain_error failures' e), w'))"

definition reviewFallbackChain :: "string \<Rightarrow> 'w named_provider list \<Rightarrow> provider_error \<Rightarrow> ('w provider \<Rightarrow> 'w provider_call) \<Rightarrow> 'w provider_call" where
  "reviewFallbackChain primaryRoute fallbacks primaryErr call =
     fallback_loop call fallbacks primaryRoute primaryErr [failure_text primaryRoute primaryErr]"

definition chain_review :: "'w provider option \<Rightarrow> string \<Rightarrow> 'w named_provider list \<Rightarrow> ('w provider \<Rightarrow> 'w provider_call) \<Rightarrow> 'w provider_call" where
  "chain_review primary primaryRoute fallbacks call w = (case primary of
     None \<Rightarrow> (Inl \<lparr>perr_text = ''llm: primary provider is required'', perr_timeout = False\<rparr>, w)
   | Some p \<Rightarrow> (case call p w of
       (Inr response, w') \<Rightarrow> (Inr response, w')
     | (Inl e, w') \<Rightarrow>
         if fallbacks = [] \<or> \<not> shouldFallbackToSecondary e then (Inl e, w')
         else reviewFallbackChain primaryRoute fallbacks e call w'))"

definition chain_payload :: "'w provider option \<Rightarrow> string \<Rightarrow> 'w named_provider list \<Rightarrow> ('w provider \<Rightarrow> string \<rightharpoonup> json) \<Rightarrow> string \<rightharpoonup> json" where
  "chain_payload primary primaryRoute fallbacks payload = (case primary of
     None \<Rightarrow> Map.empty
   | Some p \<Rightarrow>
       (let m = (payload p)(''provider_route'' \<mapsto> JString primaryRoute) in
        case fallbacks of
          [] \<Rightarrow> m
        | [(route, _)] \<Rightarrow> m(''secondary_provider_route'' \<mapsto> JString route)
        | (route, _) # _ \<Rightarrow> m(''secondary_provider_route'' \<mapsto> JString route,
            ''secondary_provider_routes'' \<mapsto> JArray (map (\<lambda>(r, _). JString r) fallbacks))))"

definition NewFallbackProvider :: "'w provider option \<Rightarrow> string \<Rightarrow> 'w named_provider list \<Rightarrow> 'w provider" where
  "NewFallbackProvider primary primaryRoute fallbacks =
     (let route = trim_space primaryRoute in
      \<lparr>pvd_review = (\<lambda>request. chain_review primary route fallbacks (\<lambda>p. pvd_review p request)),
       pvd_request_payload = (\<lambda>request. chain_payload primary route fallbacks (\<lambda>p. pvd_request_payload p request)),
       pvd_dynamic = Some
         \<lparr>dyn_review = (\<lambda>request prompt. chain_review primary route fallbacks (\<lambda>p. reviewWithSystemPrompt p request prompt)),
          dyn_request_payload = (\<lambda>request prompt. chain_payload primary route fallbacks (\<lambda>p. requestPayloadWithSystemPrompt p request prompt))\<rparr>\<rparr>)"

subsection \<open>The registry\<close>

record 'w provider_registry =
  reg_providers :: "string \<rightharpoonup> 'w provider option"
  reg_default_route :: string
  reg_fallback_routes :: "string list"

definition NewProviderRegistry :: "string \<Rightarrow> 'w provider option \<Rightarrow> 'w provider_registry" where
  "NewProviderRegistry defaultRoute defaultProvider =
     \<lparr>reg_providers = [trim_space defaultRoute \<mapsto> defaultProvider], reg_default_route = trim_space defaultRoute, reg_fallback_routes = []\<rparr>"

definition Register :: "string \<Rightarrow> 'w provider option \<Rightarrow> 'w provider_registry \<Rightarrow> 'w provider_registry" where
  "Register route p r =
     (if trim_space route = [] \<or> p = None then r
      else r\<lparr>reg_providers := (reg_providers r)(trim_space route \<mapsto> p)\<rparr>)"

fun distinct_routes :: "string list \<Rightarrow> string list \<Rightarrow> string list" where
  "distinct_routes seen [] = []"
| "distinct_routes seen (r # rs) =
     (let route = trim_space r in
      if route = [] \<or> route \<in> set seen then distinct_routes seen rs else route # distinct_routes (route # seen) rs)"

definition SetFallbackRoutes :: "string list \<Rightarrow> 'w provider_registry \<Rightarrow> 'w provider_registry" where
  "SetFallbackRoutes routes r = r\<lparr>reg_fallback_routes := distinct_routes [] routes\<rparr>"

definition Resolve :: "'w provider_registry \<Rightarrow> string \<Rightarrow> 'w provider option \<times> string" where
  "Resolve r route =
     (let wanted = (if trim_space route = [] then reg_default_route r else trim_space route) in
      case reg_providers r wanted of
        Some p \<Rightarrow> (p, wanted)
      | None \<Rightarrow> (case reg_providers r (reg_default_route r) of Some p \<Rightarrow> p | None \<Rightarrow> None, reg_default_route r))"

fun fallback_providers :: "'w provider_registry \<Rightarrow> string list \<Rightarrow> string list \<Rightarrow> 'w named_provider list" where
  "fallback_providers r seen [] = []"
| "fallback_providers r seen (f # fs) =
     (let route = trim_space f in
      if route = [] \<or> route \<in> set seen then fallback_providers r seen fs
      else case Resolve r route of (p, resolved) \<Rightarrow>
        if resolved \<in> set seen then fallback_providers r seen fs
        else (resolved, p) # fallback_providers r (resolved # seen) fs)"

definition ResolveWithFallbackRoutes :: "'w provider_registry \<Rightarrow> string \<Rightarrow> string list \<Rightarrow> 'w provider option" where
  "ResolveWithFallbackRoutes r route fallbackRoutes = (case Resolve r route of (primary, resolved) \<Rightarrow>
     let fallbacks = fallback_providers r [resolved] fallbackRoutes in
     if fallbacks = [] then primary else Some (NewFallbackProvider primary resolved fallbacks))"

definition ResolveWithFallback :: "'w provider_registry \<Rightarrow> string \<Rightarrow> 'w provider option" where
  "ResolveWithFallback r route = ResolveWithFallbackRoutes r route (reg_fallback_routes r)"

subsection \<open>Which providers are called\<close>

primrec run_calls :: "('w \<Rightarrow> 'r \<times> 'w) list \<Rightarrow> 'w \<Rightarrow> 'r list \<times> 'w" where
  "run_calls [] w = ([], w)"
| "run_calls (c # cs) w = (case c w of (x, w1) \<Rightarrow> (case run_calls cs w1 of (xs, w2) \<Rightarrow> (x # xs, w2)))"

text \<open>The fallbacks that can be called.\<close>

definition usable :: "'w named_provider list \<Rightarrow> (string \<times> 'w provider) list" where
  "usable fs = List.map_filter (\<lambda>(route, p). case p of Some q \<Rightarrow> if route = [] then None else Some (route, q) | None \<Rightarrow> None) fs"

text \<open>The outcome of a chain: all providers before the \<open>k\<close>-th were called and failed in a way that lets the next one try, the
  \<open>k\<close>-th gave the response or the error, and none after it was called.\<close>

definition chain_outcome :: "('w provider \<Rightarrow> 'w provider_call) \<Rightarrow> string \<Rightarrow> (string \<times> 'w provider) list \<Rightarrow> 'w
    \<Rightarrow> provider_error + provider_response \<Rightarrow> 'w \<Rightarrow> nat \<Rightarrow> bool" where
  "chain_outcome call before steps w res w' k \<longleftrightarrow> k < length steps
     \<and> (\<exists>rs. run_calls (map (\<lambda>(_, p). call p) (take (Suc k) steps)) w = (rs, w') \<and> length rs = Suc k
         \<and> (\<forall>j < k. \<exists>e. rs ! j = Inl e \<and> shouldFallbackToSecondary e)
         \<and> (case res of
              Inr response \<Rightarrow> (\<exists>x. rs ! k = Inr x
                \<and> response = fallback_response (if k = 0 then before else fst (steps ! (k - 1))) (fst (steps ! k)) x)
            | Inl e \<Rightarrow> (\<exists>x failures. rs ! k = Inl x \<and> (Suc k = length steps \<or> \<not> shouldFallbackToSecondary x)
                \<and> e = chain_error failures x)))"

lemma usable_simps [simp]:
  "usable [] = []"
  "usable ((route, None) # fs) = usable fs"
  "usable ((route, Some q) # fs) = (if route = [] then usable fs else (route, q) # usable fs)"
  by (simp_all add: usable_def map_filter_simps)

lemma chain_outcome_first:
  assumes "call q w = (x, w')" and "case res of
      Inr response \<Rightarrow> (\<exists>y. x = Inr y \<and> response = fallback_response before route y)
    | Inl e \<Rightarrow> (\<exists>y failures. x = Inl y \<and> (steps = [] \<or> \<not> shouldFallbackToSecondary y) \<and> e = chain_error failures y)"
  shows "chain_outcome call before ((route, q) # steps) w res w' 0"
  using assms unfolding chain_outcome_def by (auto split: sum.splits)

lemma chain_outcome_next:
  assumes "call q w = (Inl e, w1)" and "shouldFallbackToSecondary e" and "chain_outcome call route steps w1 res w' k"
  shows "chain_outcome call before ((route, q) # steps) w res w' (Suc k)"
proof -
  from assms(3) obtain rs where k: "k < length steps" and
    rs: "run_calls (map (\<lambda>(_, p). call p) (take (Suc k) steps)) w1 = (rs, w')" "length rs = Suc k"
      "\<forall>j < k. \<exists>e. rs ! j = Inl e \<and> shouldFallbackToSecondary e"
    and res: "case res of
              Inr response \<Rightarrow> (\<exists>x. rs ! k = Inr x
                \<and> response = fallback_response (if k = 0 then route else fst (steps ! (k - 1))) (fst (steps ! k)) x)
            | Inl e \<Rightarrow> (\<exists>x failures. rs ! k = Inl x \<and> (Suc k = length steps \<or> \<not> shouldFallbackToSecondary x)
                \<and> e = chain_error failures x)"
    unfolding chain_outcome_def by blast
  have "run_calls (map (\<lambda>(_, p). call p) (take (Suc (Suc k)) ((route, q) # steps))) w = (Inl e # rs, w')"
    using assms(1) rs(1) by simp
  moreover have "\<forall>j < Suc k. \<exists>e'. (Inl e # rs) ! j = Inl e' \<and> shouldFallbackToSecondary e'"
    using rs(3) assms(2) by (auto simp: less_Suc_eq_0_disj)
  moreover have "case res of
              Inr response \<Rightarrow> (\<exists>x. (Inl e # rs) ! Suc k = Inr x
                \<and> response = fallback_response (if Suc k = 0 then before else fst (((route, q) # steps) ! (Suc k - 1))) (fst (((route, q) # steps) ! Suc k)) x)
            | Inl e' \<Rightarrow> (\<exists>x failures. (Inl e # rs) ! Suc k = Inl x \<and> (Suc (Suc k) = length ((route, q) # steps) \<or> \<not> shouldFallbackToSecondary x)
                \<and> e' = chain_error failures x)"
    using res by (cases k) (auto split: sum.splits)
  ultimately show ?thesis unfolding chain_outcome_def using k rs(2) by (intro conjI exI [of _ "Inl e # rs"]) simp_all
qed

lemma fallback_loop_outcome:
  assumes "fallback_loop call fs before perr failures w = (res, w')"
  shows "usable fs = [] \<and> w' = w \<and> res = Inl (chain_error failures perr) \<or> (\<exists>k. chain_outcome call before (usable fs) w res w' k)"
  using assms
proof (induction fs arbitrary: before perr failures w)
  case (Cons f fs)
  obtain route p where f: "f = (route, p)" by (cases f)
  show ?case
  proof (cases "p = None \<or> route = []")
    case True
    then have "usable (f # fs) = usable fs" "fallback_loop call fs before perr failures w = (res, w')"
      using Cons.prems by (auto simp: f split: option.splits)
    with Cons.IH show ?thesis by metis
  next
    case False
    then obtain q where q: "p = Some q" "route \<noteq> []" by auto
    obtain x w1 where x: "call q w = (x, w1)" by fastforce
    have "\<exists>k. chain_outcome call before ((route, q) # usable fs) w res w' k"
    proof (cases x)
      case (Inr y)
      with Cons.prems q x have "res = Inr (fallback_response before route y)" "w1 = w'" by (simp_all add: f)
      then show ?thesis using x Inr by (intro exI [of _ 0] chain_outcome_first) auto
    next
      case (Inl e)
      define fails where "fails = failures @ [failure_text route e]"
      show ?thesis
      proof (cases "shouldFallbackToSecondary e")
        case False
        with Cons.prems q x Inl have "res = Inl (chain_error fails e)" "w1 = w'" by (simp_all add: f fails_def Let_def)
        then show ?thesis using x Inl False by (intro exI [of _ 0] chain_outcome_first) auto
      next
        case True
        with Cons.prems q x Inl have loop: "fallback_loop call fs route e fails w1 = (res, w')" by (simp add: f fails_def Let_def)
        from Cons.IH [OF this] show ?thesis
        proof
          assume "usable fs = [] \<and> w' = w1 \<and> res = Inl (chain_error fails e)"
          then show ?thesis using x Inl by (intro exI [of _ 0] chain_outcome_first) auto
        next
          assume "\<exists>k. chain_outcome call route (usable fs) w1 res w' k"
          then show ?thesis using chain_outcome_next [of call q w e w1 route "usable fs" res w' _ before] x Inl True by blast
        qed
      qed
    qed
    then show ?thesis using q by (simp add: f)
  qed
qed simp

text \<open>The routes of a chain are distinct, the resolved primary route included.\<close>

lemma fallback_providers_distinct:
  "distinct (map fst (fallback_providers r seen fs)) \<and> set (map fst (fallback_providers r seen fs)) \<inter> set seen = {}"
proof (induction fs arbitrary: seen)
  case (Cons f fs)
  obtain p resolved where res: "Resolve r (trim_space f) = (p, resolved)" by fastforce
  show ?case using Cons.IH [of seen] Cons.IH [of "resolved # seen"] by (auto simp: Let_def res)
qed simp

lemma usable_routes: "set (map fst (usable fs)) \<subseteq> set (map fst fs)"
  by (induction fs) (auto simp: usable_def map_filter_simps split: option.splits if_splits)

lemma distinct_usable: "distinct (map fst fs) \<Longrightarrow> distinct (map fst (usable fs))"
proof (induction fs)
  case (Cons f fs)
  obtain route p where f: "f = (route, p)" by (cases f)
  have "route \<notin> set (map fst (usable fs))" using Cons.prems usable_routes [of fs] by (auto simp: f)
  with Cons show ?case by (cases p) (auto simp: f)
qed simp

definition registry_ok :: "'w provider_registry \<Rightarrow> bool" where
  "registry_ok r \<longleftrightarrow> trim_space (reg_default_route r) = reg_default_route r"

lemma registry_ok_operations:
  "registry_ok (NewProviderRegistry route p)"
  "registry_ok r \<Longrightarrow> registry_ok (Register route p r)"
  "registry_ok r \<Longrightarrow> registry_ok (SetFallbackRoutes routes r)"
  by (simp_all add: registry_ok_def NewProviderRegistry_def Register_def SetFallbackRoutes_def trim_space_idem)

lemma Resolve_trimmed: "registry_ok r \<Longrightarrow> Resolve r route = (p, resolved) \<Longrightarrow> trim_space resolved = resolved"
  by (auto simp: Resolve_def registry_ok_def Let_def trim_space_idem split: option.splits if_splits)

text \<open>C17 (provider chain). A request with a prompt to a resolved route calls the providers of the route and of its fallbacks, no route
  twice, one after the other in their order: each one only after the one before it failed with a timeout or an error
  of the server, and none after the first answer or the first other failure. The answer is that of the last
  provider called, marked with its route when it is not the first; the error is that of the last one called, so a timeout
  stays recognisable.\<close>

theorem provider_chain:
  assumes "registry_ok r" and "Resolve r route = (Some p, resolved)"
    and "ResolveWithFallbackRoutes r route fallbackRoutes = Some q" and "reviewWithSystemPrompt q request prompt w = (res, w')"
    and "steps = (resolved, p) # usable (fallback_providers r [resolved] fallbackRoutes)"
  shows "distinct (map fst steps)
    \<and> (\<exists>k < length steps. \<exists>rs. run_calls (map (\<lambda>(_, p). reviewWithSystemPrompt p request prompt) (take (Suc k) steps)) w = (rs, w')
        \<and> length rs = Suc k \<and> (\<forall>j < k. \<exists>e. rs ! j = Inl e \<and> shouldFallbackToSecondary e)
        \<and> (case res of
            Inr response \<Rightarrow> (\<exists>x. rs ! k = Inr x
              \<and> response = (if k = 0 then x else fallback_response (fst (steps ! (k - 1))) (fst (steps ! k)) x))
          | Inl e \<Rightarrow> (\<exists>x. rs ! k = Inl x \<and> (Suc k = length steps \<or> \<not> shouldFallbackToSecondary x)
              \<and> (e = x \<or> (\<exists>failures. e = chain_error failures x)))))"
proof
  let ?fs = "fallback_providers r [resolved] fallbackRoutes"
  let ?call = "\<lambda>p. reviewWithSystemPrompt p request prompt"
  have "distinct (map fst (usable ?fs))" "resolved \<notin> set (map fst (usable ?fs))"
    using fallback_providers_distinct [of r "[resolved]" fallbackRoutes] usable_routes [of ?fs] distinct_usable [of ?fs] by auto
  then show "distinct (map fst steps)" by (simp add: assms(5))
  have q: "chain_review (Some p) resolved ?fs ?call w = (res, w')"
  proof (cases "?fs = []")
    case True
    then have "q = p" using assms(2,3) by (simp add: ResolveWithFallbackRoutes_def)
    then show ?thesis using assms(4) True by (simp add: chain_review_def split: prod.splits sum.splits)
  next
    case False
    then have "q = NewFallbackProvider (Some p) resolved ?fs" using assms(2,3) by (simp add: ResolveWithFallbackRoutes_def)
    then have "reviewWithSystemPrompt q request prompt = chain_review (Some p) resolved ?fs ?call"
      using Resolve_trimmed [OF assms(1,2)] by (subst reviewWithSystemPrompt_def) (simp add: NewFallbackProvider_def Let_def)
    then show ?thesis using assms(4) by simp
  qed
  obtain x w1 where x: "?call p w = (x, w1)" by fastforce
  show "\<exists>k < length steps. \<exists>rs. run_calls (map (\<lambda>(_, p). ?call p) (take (Suc k) steps)) w = (rs, w')
        \<and> length rs = Suc k \<and> (\<forall>j < k. \<exists>e. rs ! j = Inl e \<and> shouldFallbackToSecondary e)
        \<and> (case res of
            Inr response \<Rightarrow> (\<exists>x. rs ! k = Inr x
              \<and> response = (if k = 0 then x else fallback_response (fst (steps ! (k - 1))) (fst (steps ! k)) x))
          | Inl e \<Rightarrow> (\<exists>x. rs ! k = Inl x \<and> (Suc k = length steps \<or> \<not> shouldFallbackToSecondary x)
              \<and> (e = x \<or> (\<exists>failures. e = chain_error failures x))))"
    (is "\<exists>k < _. ?P k")
  proof (cases "\<exists>e. x = Inl e \<and> shouldFallbackToSecondary e \<and> ?fs \<noteq> []")
    case False
    with q x have "x = res \<and> w1 = w'" by (cases x) (auto simp: chain_review_def split: if_splits)
    moreover have "Suc 0 = length steps \<or> \<not> shouldFallbackToSecondary e" if "x = Inl e" for e
      using False that by (auto simp: assms(5))
    ultimately have "?P 0" using x by (cases res) (simp_all add: assms(5))
    then show ?thesis by (intro exI [of _ 0]) (simp add: assms(5))
  next
    case True
    then obtain e where e: "x = Inl e" "shouldFallbackToSecondary e" by blast
    from True e q x have "fallback_loop ?call ?fs resolved e [failure_text resolved e] w1 = (res, w')"
      by (simp add: chain_review_def reviewFallbackChain_def)
    from fallback_loop_outcome [OF this] show ?thesis
    proof
      assume "usable ?fs = [] \<and> w' = w1 \<and> res = Inl (chain_error [failure_text resolved e] e)"
      then have "?P 0" using x e by (auto simp: assms(5))
      then show ?thesis by (intro exI [of _ 0]) (simp add: assms(5))
    next
      assume "\<exists>k. chain_outcome ?call resolved (usable ?fs) w1 res w' k"
      then obtain k where "chain_outcome ?call resolved (usable ?fs) w1 res w' k" ..
      note c = chain_outcome_next [where call = ?call and before = "[]", OF x [unfolded e(1)] e(2) this, folded assms(5)]
      then have "?P (Suc k)" unfolding chain_outcome_def
        by (cases res) (elim conjE exE, rule exI, intro conjI, assumption+, force)+
      with c show ?thesis unfolding chain_outcome_def by (intro exI [of _ "Suc k"]) blast
    qed
  qed
qed

subsection \<open>The model catalog\<close>

record model_config =
  mdc_provider :: string
  mdc_base_url :: string
  mdc_api_key :: string
  mdc_model :: string
  mdc_output_mode :: string
  mdc_temperature :: rat
  mdc_max_tokens :: int
  mdc_max_completion_tokens :: int
  mdc_reasoning_effort :: string

record model_chain_config =
  mcc_primary :: string
  mcc_fallbacks :: "string list"

record catalog =
  cat_models :: "(string \<times> model_config) list"
  cat_model_chains :: "string \<rightharpoonup> model_chain_config"
  cat_review_chain :: string

record provider_config =
  pcg_kind :: string
  pcg_base_url :: string
  pcg_api_key :: string
  pcg_model :: string
  pcg_route_name :: string
  pcg_output_mode :: string
  pcg_max_tokens :: int
  pcg_max_completion_tokens :: int
  pcg_reasoning_effort :: string
  pcg_temperature :: rat

text \<open>The models are a Go map; the list gives the order its iteration takes.\<close>

fun build_configs :: "(string \<times> model_config) list \<Rightarrow> (string \<rightharpoonup> provider_config) \<Rightarrow> string + (string \<rightharpoonup> provider_config)" where
  "build_configs [] providers = Inr providers"
| "build_configs ((name, m) # ms) providers =
     (if trim_space name = [] then Inl ''models contains an empty model id''
      else if trim_space (mdc_provider m) = [] then Inl (''models.'' @ trim_space name @ ''.provider is required'')
      else if trim_space (mdc_model m) = [] then Inl (''models.'' @ trim_space name @ ''.model is required'')
      else build_configs ms (providers(trim_space name \<mapsto>
        \<lparr>pcg_kind = trim_space (mdc_provider m), pcg_base_url = trim_space (mdc_base_url m), pcg_api_key = trim_space (mdc_api_key m),
         pcg_model = trim_space (mdc_model m), pcg_route_name = trim_space name, pcg_output_mode = trim_space (mdc_output_mode m),
         pcg_max_tokens = mdc_max_tokens m, pcg_max_completion_tokens = mdc_max_completion_tokens m,
         pcg_reasoning_effort = trim_space (mdc_reasoning_effort m), pcg_temperature = mdc_temperature m\<rparr>)))"

definition BuildProviderConfigs :: "catalog \<Rightarrow> string + (string \<rightharpoonup> provider_config)" where
  "BuildProviderConfigs c =
     (if cat_models c = [] then Inl ''models configuration is required'' else build_configs (cat_models c) Map.empty)"

definition configured :: "catalog \<Rightarrow> string \<Rightarrow> bool" where
  "configured c name \<longleftrightarrow> map_of (cat_models c) name \<noteq> None"

fun chain_fallbacks :: "catalog \<Rightarrow> string \<Rightarrow> string list \<Rightarrow> string + string list" where
  "chain_fallbacks c primary [] = Inr []"
| "chain_fallbacks c primary (f # fs) =
     (let fallback = trim_space f in
      if fallback = [] \<or> fallback = primary then chain_fallbacks c primary fs
      else if \<not> configured c fallback then Inl (''models.'' @ fallback @ '' is not configured'')
      else case chain_fallbacks c primary fs of Inl e \<Rightarrow> Inl e | Inr rest \<Rightarrow> Inr (fallback # rest))"

text \<open>\<open>quote\<close> is the verb \<^verbatim>\<open>%q\<close>.\<close>

definition ResolveProviderReference :: "(string \<Rightarrow> string) \<Rightarrow> catalog \<Rightarrow> string \<Rightarrow> string + string \<times> string list" where
  "ResolveProviderReference quote c ref0 =
     (let ref = trim_space ref0 in
      if ref = [] then Inl ''provider reference is required''
      else case cat_model_chains c ref of
        Some chain \<Rightarrow>
          (let primary = trim_space (mcc_primary chain) in
           if primary = [] then Inl (''model_chains.'' @ ref @ ''.primary is required'')
           else if \<not> configured c primary then Inl (''models.'' @ primary @ '' is not configured'')
           else case chain_fallbacks c primary (mcc_fallbacks chain) of Inl e \<Rightarrow> Inl e | Inr fs \<Rightarrow> Inr (primary, fs))
      | None \<Rightarrow> if configured c ref then Inr (ref, []) else Inl (''provider reference '' @ quote ref @ '' is not configured''))"

text \<open>A name that is no key of \<^verbatim>\<open>providers\<close> gives the zero value of the struct.\<close>

definition no_config :: provider_config where
  "no_config = \<lparr>pcg_kind = [], pcg_base_url = [], pcg_api_key = [], pcg_model = [], pcg_route_name = [], pcg_output_mode = [],
     pcg_max_tokens = 0, pcg_max_completion_tokens = 0, pcg_reasoning_effort = [], pcg_temperature = 0\<rparr>"

fun chain_configs :: "(string \<rightharpoonup> provider_config) \<Rightarrow> string list \<Rightarrow> (string \<rightharpoonup> provider_config) \<Rightarrow> string \<rightharpoonup> provider_config" where
  "chain_configs providers [] m = m"
| "chain_configs providers (f # fs) m =
     chain_configs providers fs (m(trim_space f \<mapsto> (case providers (trim_space f) of Some x \<Rightarrow> x | None \<Rightarrow> no_config)))"

definition ResolveModelChain :: "(string \<Rightarrow> string) \<Rightarrow> catalog \<Rightarrow> string \<Rightarrow> string + string \<times> string list \<times> (string \<rightharpoonup> provider_config)" where
  "ResolveModelChain quote c chainName =
     (if trim_space chainName = [] then Inl ''model chain is required''
      else case BuildProviderConfigs c of
        Inl e \<Rightarrow> Inl e
      | Inr providers \<Rightarrow> (case ResolveProviderReference quote c (trim_space chainName) of
          Inl e \<Rightarrow> Inl e
        | Inr (primary, fallbacks) \<Rightarrow>
            Inr (primary, fallbacks, chain_configs providers fallbacks
              [primary \<mapsto> (case providers primary of Some x \<Rightarrow> x | None \<Rightarrow> no_config)])))"

definition ResolveReviewCatalog :: "(string \<Rightarrow> string) \<Rightarrow> catalog \<Rightarrow> string + string \<times> string list \<times> (string \<rightharpoonup> provider_config)" where
  "ResolveReviewCatalog quote c = (case BuildProviderConfigs c of
     Inl e \<Rightarrow> Inl e
   | Inr providers \<Rightarrow> (case ResolveProviderReference quote c (trim_space (cat_review_chain c)) of
       Inl e \<Rightarrow> Inl e | Inr (primary, fallbacks) \<Rightarrow> Inr (primary, fallbacks, providers)))"

text \<open>A reference that is configured wrongly fails every call; it takes no prompt.\<close>

definition invalidProviderReference :: "(string \<Rightarrow> string) \<Rightarrow> string \<Rightarrow> string \<Rightarrow> 'w provider" where
  "invalidProviderReference quote name err =
     \<lparr>pvd_review = (\<lambda>_ w. (Inl \<lparr>perr_text = ''config: invalid provider reference '' @ quote name @ '': '' @ err, perr_timeout = False\<rparr>, w)),
      pvd_request_payload = (\<lambda>_. [''provider_route'' \<mapsto> JString name, ''invalid_provider_reference'' \<mapsto> JBool True]),
      pvd_dynamic = None\<rparr>"

definition ResolveProvider :: "(string \<Rightarrow> string) \<Rightarrow> catalog \<Rightarrow> 'w provider_registry \<Rightarrow> string \<Rightarrow> string list \<Rightarrow> string \<Rightarrow> 'w provider option" where
  "ResolveProvider quote c r defaultPrimary defaultFallbacks ref0 =
     (let ref = trim_space ref0 in
      if ref = [] then ResolveWithFallbackRoutes r defaultPrimary defaultFallbacks
      else case ResolveProviderReference quote c ref of
        Inr (primary, fallbacks) \<Rightarrow> ResolveWithFallbackRoutes r primary (if fallbacks = [] then defaultFallbacks else fallbacks)
      | Inl e \<Rightarrow>
          if cat_model_chains c ref \<noteq> None \<or> configured c ref then Some (invalidProviderReference quote ref e)
          else ResolveWithFallbackRoutes r ref defaultFallbacks)"

text \<open>When every configured model is registered, a chain of the catalog calls exactly its own models: no unknown route is
  replaced by the default one.\<close>

lemma chain_fallbacks_configured:
  "chain_fallbacks c primary fs = Inr rs \<Longrightarrow> list_all (\<lambda>n. configured c n \<and> trim_space n = n \<and> n \<noteq> []) rs"
  by (induction c primary fs arbitrary: rs rule: chain_fallbacks.induct)
    (auto simp: Let_def trim_space_idem split: if_splits sum.splits)

lemma ResolveProviderReference_configured:
  assumes "ResolveProviderReference quote c ref = Inr (primary, fallbacks)"
  shows "list_all (\<lambda>n. configured c n \<and> trim_space n = n \<and> n \<noteq> []) (primary # fallbacks)"
  using assms chain_fallbacks_configured
  by (fastforce simp: ResolveProviderReference_def Let_def trim_space_idem split: if_splits option.splits sum.splits)

lemma fallback_providers_registered:
  assumes "list_all (\<lambda>n. reg_providers r n = Some (Some (impl n)) \<and> trim_space n = n \<and> n \<noteq> []) fs"
  shows "usable (fallback_providers r seen fs) = map (\<lambda>n. (n, impl n)) (distinct_routes seen fs)"
  using assms by (induction fs arbitrary: seen) (auto simp: Let_def Resolve_def)

lemma configured_chain:
  assumes "ResolveProviderReference quote c ref = Inr (primary, fallbacks)"
    and "\<And>n. configured c n \<Longrightarrow> reg_providers r n = Some (Some (impl n))"
  shows "Resolve r primary = (Some (impl primary), primary)"
    and "usable (fallback_providers r [primary] fallbacks) = map (\<lambda>n. (n, impl n)) (distinct_routes [primary] fallbacks)"
proof -
  note c = ResolveProviderReference_configured [OF assms(1)]
  show "Resolve r primary = (Some (impl primary), primary)" using c assms(2) by (simp add: Resolve_def)
  have "list_all (\<lambda>n. reg_providers r n = Some (Some (impl n)) \<and> trim_space n = n \<and> n \<noteq> []) fallbacks"
    using c assms(2) by (simp add: list_all_iff)
  then show "usable (fallback_providers r [primary] fallbacks) = map (\<lambda>n. (n, impl n)) (distinct_routes [primary] fallbacks)"
    by (rule fallback_providers_registered)
qed

text \<open>In a catalog that builds, every name a reference resolves to has a configuration under its own route.\<close>

lemma build_configs_named:
  "build_configs ms providers = Inr m \<Longrightarrow> (\<And>n x. providers n = Some x \<Longrightarrow> pcg_route_name x = n) \<Longrightarrow> m n = Some x \<Longrightarrow> pcg_route_name x = n"
proof (induction ms arbitrary: providers)
  case (Cons a ms)
  obtain name c where a: "a = (name, c)" by (cases a)
  from Cons.prems(1) obtain x' where x': "build_configs ms (providers(trim_space name \<mapsto> x')) = Inr m" "pcg_route_name x' = trim_space name"
    by (simp add: a split: if_splits)
  have "pcg_route_name y = k" if "(providers(trim_space name \<mapsto> x')) k = Some y" for k y
    using that Cons.prems(2) x'(2) by (cases "k = trim_space name") auto
  from Cons.IH [OF x'(1) this Cons.prems(3)] show ?case .
qed simp

lemma build_configs_dom:
  "build_configs ms providers = Inr m \<Longrightarrow> dom m = dom providers \<union> trim_space ` fst ` set ms"
proof (induction ms arbitrary: providers)
  case (Cons a ms)
  obtain name c where a: "a = (name, c)" by (cases a)
  from Cons.prems obtain x' where x': "build_configs ms (providers(trim_space name \<mapsto> x')) = Inr m"
    by (simp add: a split: if_splits)
  from Cons.IH [OF this] show ?case by (auto simp: a)
qed simp

lemma reference_has_config:
  assumes "BuildProviderConfigs c = Inr providers" and "ResolveProviderReference quote c ref = Inr (primary, fallbacks)"
    and "name \<in> set (primary # fallbacks)"
  shows "\<exists>x. providers name = Some x \<and> pcg_route_name x = name"
proof -
  have b: "build_configs (cat_models c) Map.empty = Inr providers" using assms(1) by (simp add: BuildProviderConfigs_def split: if_splits)
  have "configured c name" "trim_space name = name"
    using ResolveProviderReference_configured [OF assms(2)] assms(3) by (auto simp: list_all_iff)
  then obtain m where "(name, m) \<in> set (cat_models c)" by (auto simp: configured_def dest: map_of_SomeD)
  then have "name \<in> trim_space ` fst ` set (cat_models c)"
    using \<open>trim_space name = name\<close> by (metis fst_conv image_eqI)
  then have "name \<in> dom providers" using build_configs_dom [OF b] by simp
  then obtain x where "providers name = Some x" by blast
  then show ?thesis using build_configs_named [OF b] by simp
qed

subsection \<open>Examples\<close>

text \<open>A provider that times out and one that answers; the world counts the calls.\<close>

definition plain_answer :: provider_response where
  "plain_answer = \<lparr>prs_result = \<lparr>rs_schema_version = ''1.0'', rs_review_run_id = ''1'', rs_summary = ''fine'', rs_findings = [], rs_status = ''completed'',
     rs_summary_note = None, rs_blind_spots = []\<rparr>, prs_raw_text = [], prs_latency = 0, prs_tokens = 0, prs_fallback_stage = [], prs_model = [],
     prs_response_payload = Map.empty\<rparr>"

definition slow_provider :: "nat provider" where
  "slow_provider = \<lparr>pvd_review = (\<lambda>_ n. (Inl \<lparr>perr_text = ''deadline'', perr_timeout = True\<rparr>, Suc n)), pvd_request_payload = (\<lambda>_. Map.empty), pvd_dynamic = None\<rparr>"

definition quick_provider :: "nat provider" where
  "quick_provider = \<lparr>pvd_review = (\<lambda>_ n. (Inr plain_answer, Suc n)), pvd_request_payload = (\<lambda>_. Map.empty), pvd_dynamic = None\<rparr>"

definition two_routes :: "nat provider_registry" where
  "two_routes = Register ''quick'' (Some quick_provider) (NewProviderRegistry ''slow'' (Some slow_provider))"

definition slow_chain :: "nat provider" where
  "slow_chain = NewFallbackProvider (Some slow_provider) ''slow'' [(''quick'', Some quick_provider)]"

theorem provider_chain_witness:
  "\<forall>request. \<exists>k rs. k < 2 \<and> run_calls (map (\<lambda>(_, p). reviewWithSystemPrompt p request ''p'')
      (take (Suc k) [(''slow'', slow_provider), (''quick'', quick_provider)])) 0 = (rs, snd (reviewWithSystemPrompt slow_chain request ''p'' 0))"
proof
  fix request
  have eval: "trim_space ''slow'' = ''slow''" "trim_space ''quick'' = ''quick''" "trim_space [] = []" by code_simp+
  have ok: "registry_ok two_routes" by (simp add: two_routes_def registry_ok_operations)
  have res: "Resolve two_routes ''slow'' = (Some slow_provider, ''slow'')" "Resolve two_routes ''quick'' = (Some quick_provider, ''quick'')"
    by (simp_all add: Resolve_def two_routes_def Register_def NewProviderRegistry_def eval)
  have fs: "fallback_providers two_routes [''slow''] [''quick''] = [(''quick'', Some quick_provider)]"
    by (simp add: eval res)
  have q: "ResolveWithFallbackRoutes two_routes ''slow'' [''quick''] = Some slow_chain"
    unfolding ResolveWithFallbackRoutes_def res by (simp add: slow_chain_def fs del: fallback_providers.simps)
  have steps: "(''slow'', slow_provider) # usable (fallback_providers two_routes [''slow''] [''quick''])
      = [(''slow'', slow_provider), (''quick'', quick_provider)]" unfolding fs by simp
  obtain k rs where k: "k < length [(''slow'', slow_provider), (''quick'', quick_provider)]"
    "run_calls (map (\<lambda>(_, p). reviewWithSystemPrompt p request ''p'')
      (take (Suc k) [(''slow'', slow_provider), (''quick'', quick_provider)])) 0 = (rs, snd (reviewWithSystemPrompt slow_chain request ''p'' 0))"
    using provider_chain [OF ok res(1) q surjective_pairing steps [symmetric], of request "''p''" 0] by blast
  moreover have "k < 2" using k by simp
  ultimately show "\<exists>k rs. k < 2 \<and> run_calls (map (\<lambda>(_, p). reviewWithSystemPrompt p request ''p'')
      (take (Suc k) [(''slow'', slow_provider), (''quick'', quick_provider)])) 0 = (rs, snd (reviewWithSystemPrompt slow_chain request ''p'' 0))"
    by blast
qed

end
