(* ===== verification/Review_Pack.thy ===== *)
theory Review_Pack
  imports Legacy_Bridge Model_Providers Engine_Processor "HOL-Library.Sublist"
begin

text \<open>
  The reviewers and how a run is wired: the contracts of the packs and the runner that asks a model under one of them
  (\<^verbatim>\<open>internal/reviewpack/pack.go\<close>), the advisor (\<^verbatim>\<open>internal/reviewadvisor/advisor.go\<close>), the engine with its advisor and the processor
  of a worker (\<^verbatim>\<open>internal/reviewruntime/runtime.go\<close>). A provider is called in the state \<open>'w\<close> of the world. Reading a
  request from its JSON form, the verb \<^verbatim>\<open>%q\<close>, and the JSON form of the advisor's context are parameters.
\<close>

subsection \<open>Contracts\<close>

record contract =
  con_id :: string
  con_focus_areas :: "string list"
  con_category_anchors :: "string list"
  con_exclusion_bypass_keywords :: "string list"
  con_output_schema :: string
  con_standards :: "string list"
  con_hard_exclusions :: "string list"
  con_confidence_gate :: rat
  con_new_issues_only :: bool
  con_exploitability_focus :: string
  con_prompt :: string
  con_evidence_requirements :: "string list"
  con_rubric :: "string list"

text \<open>The confidence gates 0.85, 0.78 and 0.72 are the nearest \<^verbatim>\<open>float64\<close> values.\<close>

definition security_pack :: contract where
  "security_pack = \<lparr>con_id = ''security'',
     con_focus_areas = [''trust boundaries'', ''input validation'', ''authentication and authorization'',
       ''unsafe data access and dangerous sinks'', ''secret exposure and privilege escalation paths''],
     con_category_anchors = [''authorization bypass'', ''injection'', ''secret exposure'', ''privilege escalation'',
       ''unsafe deserialization''],
     con_exclusion_bypass_keywords = [''attacker'', ''authorization'', ''auth bypass'', ''tenant check'', ''privilege escalation'',
       ''secret'', ''injection'', ''exploit'', ''trust boundary''],
     con_output_schema = ''review_finding_v1'',
     con_standards = [''owasp'', ''asvs''],
     con_hard_exclusions = [''historical debt'', ''test-only fixtures'', ''vague best-practice'',
       ''pure dos concern without a concrete exploit path'', ''resource exhaustion speculation without attacker leverage'',
       ''theoretical race without a changed trust boundary'', ''generic dependency age complaint'',
       ''frontend framework default escaping concern without a concrete bypass path'', ''reliability'', ''missing import'',
       ''missing dependency'', ''startup crash'', ''build break'', ''runtime crash''],
     con_confidence_gate = 7656119366529843 / 9007199254740992,
     con_new_issues_only = True,
     con_exploitability_focus = ''Prioritize attacker-controlled input, reachable dangerous sinks, broken authorization decisions, exposed secrets, concrete escalation paths, and explicit attacker leverage.'',
     con_prompt = ''Use OWASP and ASVS as your security review framing. First identify whether the diff introduces a new reachable vulnerability, then explain the exploit scenario, impact, and safest remediation. Do not report missing imports, missing dependencies, startup crashes, or generic reliability failures unless they create a concrete attacker leverage or trust-boundary break. Report only newly introduced security issues with enough evidence to justify reviewer trust.'',
     con_evidence_requirements = [''Point to the exact changed path and line or hunk when possible.'',
       ''Explain the attacker-controlled input, dangerous sink, or broken authorization decision.'',
       ''State the realistic exploit scenario and impact if the issue is exploitable.'',
       ''Say what remains uncertain when the impact could be high but exploitability evidence is incomplete.''],
     con_rubric = [''Find authorization, injection, secret handling, deserialization, authentication, and trust-boundary regressions.'',
       ''Prefer concrete exploitability over vague best-practice complaints.'',
       ''Treat standards like OWASP A01, A03, A04, and ASVS access-control or input-validation controls as review lenses, not as box-checking exercises.'',
       ''Call out only issues that are materially supported by the diff and surrounding context.'']\<rparr>"

definition architecture_pack :: contract where
  "architecture_pack = \<lparr>con_id = ''architecture'',
     con_focus_areas = [''module and service boundaries'', ''state transitions and error propagation'',
       ''control flow and side-effect ordering'', ''coupling, ownership, and change isolation'',
       ''concurrency, retries, and idempotency assumptions''],
     con_category_anchors = [],
     con_exclusion_bypass_keywords = [],
     con_output_schema = ''review_finding_v1'',
     con_standards = [],
     con_hard_exclusions = [''generic refactor request'', ''style preference'', ''naming preference'',
       ''future maintainability hand-wave'', ''possible duplication without a concrete failure mode''],
     con_confidence_gate = 3512807709348987 / 4503599627370496,
     con_new_issues_only = True,
     con_exploitability_focus = [],
     con_prompt = ''Act like a staff-plus engineer reviewing architectural integrity. Run two passes mentally: first for blocking risks that could make the changed behavior incorrect or fragile in production, then for medium-severity structural regressions that clearly increase coupling or break ownership boundaries. Avoid generic refactor requests.'',
     con_evidence_requirements = [''Name the concrete state flow, call chain, retry path, or side-effect sequence that makes the issue real.'',
       ''Point to the changed boundary where ownership, ordering, or invariants become unclear.'',
       ''Explain the production symptom or maintenance hazard, not just the abstract design principle.''],
     con_rubric = [''Prioritize incorrect control flow, broken invariants, hidden side effects, leaky boundaries, and retry/idempotency regressions.'',
       ''Only report maintainability concerns when they create a realistic path to wrong behavior, fragile changes, or duplicated source of truth.'',
       ''Prefer one precise structural issue over several generic cleanup comments.'']\<rparr>"

definition database_pack :: contract where
  "database_pack = \<lparr>con_id = ''database'',
     con_focus_areas = [''schema and migration safety'', ''transaction boundaries and consistency'',
       ''query correctness and lock behavior'', ''index usage and access patterns'',
       ''backfills, defaults, nullability, and destructive writes'',
       ''application-layer data consistency and multi-step persistence flows''],
     con_category_anchors = [''destructive migration'', ''partial write'', ''read/write mismatch'', ''transaction hole'',
       ''nullability backfill'', ''destructive update or delete''],
     con_exclusion_bypass_keywords = [],
     con_output_schema = ''review_finding_v1'',
     con_standards = [''migration-safety'', ''transactional-correctness''],
     con_hard_exclusions = [''generic add an index'', ''performance speculation without a concrete query path'', ''orm preference'',
       ''style-only sql comment'', ''historical schema debt unrelated to the diff''],
     con_confidence_gate = 3242591731706757 / 4503599627370496,
     con_new_issues_only = True,
     con_exploitability_focus = [],
     con_prompt = ''Act like a database-focused reviewer. Prioritize data correctness, operational safety, and migration risk over stylistic SQL feedback. Review both explicit database changes and application-layer changes that can create partial writes, read/write mismatches, stale persisted state, broken idempotency, or non-transactional multi-step persistence flows. Report only issues that are grounded in the changed query path, migration step, transaction boundary, locking behavior, or persistence semantics.'',
     con_evidence_requirements = [''Point to the exact query, migration step, read/write path, or transaction boundary involved.'',
       ''Explain the concrete failure mode: bad data, partial write, lock contention, deadlock risk, failed deploy, or backwards-incompatible migration.'',
       ''State why the changed code introduces the risk now, rather than describing long-standing database debt.''],
     con_rubric = [''Find destructive migration hazards, incompatible schema transitions, transaction holes, stale-read/write ordering problems, and missing idempotency around persistence.'',
       ''Flag indexing issues only when the changed access path makes the degradation or lock behavior plausible.'',
       ''Prefer correctness and operational safety findings over generic performance advice.'']\<rparr>"


definition DefaultPacks :: "contract list" where
  "DefaultPacks = [security_pack, architecture_pack, database_pack]"

definition listed :: "string \<Rightarrow> string list \<Rightarrow> string \<Rightarrow> string list" where
  "listed label items sep = (if items = [] then [] else [label @ '': '' @ join items sep @ ''.''])"

definition buildCapabilityPrompt :: "contract \<Rightarrow> string" where
  "buildCapabilityPrompt c = join ([''You are a specialist code reviewer.'']
     @ (if con_id c \<noteq> [] then [''Reviewer pack: '' @ con_id c @ ''.''] else [])
     @ listed ''Focus areas'' (con_focus_areas c) '', ''
     @ listed ''Category anchors'' (con_category_anchors c) '', ''
     @ listed ''Standards'' (con_standards c) '', ''
     @ listed ''Rubric'' (con_rubric c) ''; ''
     @ listed ''Evidence requirements'' (con_evidence_requirements c) ''; ''
     @ listed ''Hard exclusions'' (con_hard_exclusions c) ''; ''
     @ (if con_new_issues_only c then [''Report only newly introduced issues from this diff.''] else [])
     @ (if con_exploitability_focus c \<noteq> [] then [con_exploitability_focus c] else [])
     @ (if con_prompt c \<noteq> [] then [con_prompt c] else [])
     @ [''Return only valid JSON matching the provided review schema.'']) '' ''"

definition isPackSelected :: "string \<Rightarrow> string list \<Rightarrow> bool" where
  "isPackSelected packID selected \<longleftrightarrow> selected = [] \<or> list_ex (\<lambda>item. equal_fold (trim_space item) (trim_space packID)) selected"

definition mentions :: "string \<Rightarrow> string \<Rightarrow> bool" where
  "mentions txt marker \<longleftrightarrow> norm_lower marker \<noteq> [] \<and> contains txt (norm_lower marker)"

definition shouldBypassExclusions :: "contract \<Rightarrow> core_finding \<Rightarrow> bool" where
  "shouldBypassExclusions c f =
     (let txt = to_lower (join [cf_category f, cf_title f, cf_claim f, cf_body f] [CHR 0x0A]) in
      list_ex (mentions txt) (con_category_anchors c) \<or> list_ex (mentions txt) (con_exclusion_bypass_keywords c))"

definition isExcludedFinding :: "contract \<Rightarrow> core_finding \<Rightarrow> bool" where
  "isExcludedFinding c f =
     (if con_hard_exclusions c = [] then False
      else if shouldBypassExclusions c f then False
      else let txt = to_lower (join [cf_title f, cf_category f, cf_claim f, cf_body f] [CHR 0x0A]) in
        list_ex (mentions txt) (con_hard_exclusions c))"

definition filterFindings :: "contract \<Rightarrow> core_finding list \<Rightarrow> core_finding list" where
  "filterFindings c fs =
     filter (\<lambda>f. \<not> (con_confidence_gate c > 0 \<and> cf_confidence f > 0 \<and> cf_confidence f < con_confidence_gate c)
       \<and> \<not> isExcludedFinding c f) fs"

subsection \<open>The runner of a pack\<close>

definition reviewWithCapabilityPrompt :: "'w provider \<Rightarrow> review_request \<Rightarrow> string \<Rightarrow> 'w provider_call" where
  "reviewWithCapabilityPrompt p request systemPrompt w = (case pvd_dynamic p of
     Some d \<Rightarrow> dyn_review d request systemPrompt w
   | None \<Rightarrow>
       if trim_space systemPrompt \<noteq> [] then (Inl \<lparr>perr_text = ''reviewpack: provider does not support dynamic system prompts'', perr_timeout = False\<rparr>, w)
       else pvd_review p request w)"

text \<open>What the runners use of other packages, and the resolver of routes.\<close>

record 'w pack_env =
  pe_resolve :: "string \<Rightarrow> 'w provider option"
  pe_decode_request :: "string \<Rightarrow> review_request option"
  pe_marshal :: "members option \<Rightarrow> string option"
  pe_decode :: "string \<Rightarrow> json option"
  pe_quote :: "string \<Rightarrow> string"
  pe_advisor_context :: "review_bundle \<Rightarrow> string option"

definition empty_target :: review_target where
  "empty_target = \<lparr>rt_platform = [], rt_url = [], rt_repository = [], rt_project_id = 0, rt_change_number = 0, rt_base_url = []\<rparr>"

definition no_artifact :: reviewer_artifact where
  "no_artifact = \<lparr>ra_reviewer_id = [], ra_reviewer_kind = [], ra_target = empty_target, ra_summary = [], ra_findings = []\<rparr>"

definition pack_route :: "built_input \<Rightarrow> run_options \<Rightarrow> string" where
  "pack_route input opts =
     (let route = trim_space (ro_route_override opts) in
      if route \<noteq> [] then route
      else let policy = trim_space (ep_provider_route (ri_effective_policy input)) in
        if policy \<noteq> [] then policy
        else trim_space (case map_of (ri_metadata input) ''provider_route'' of Some r \<Rightarrow> r | None \<Rightarrow> []))"

definition pack_request :: "'w pack_env \<Rightarrow> built_input \<Rightarrow> review_request" where
  "pack_request env input =
     (if ri_request_payload input = [] then ri_request input
      else case pe_decode_request env (ri_request_payload input) of Some r \<Rightarrow> r | None \<Rightarrow> ri_request input)"

definition LegacyProviderRunner_Run :: "'w pack_env \<Rightarrow> contract \<Rightarrow> built_input \<Rightarrow> run_options \<Rightarrow> 'w \<Rightarrow> (string + reviewer_artifact) \<times> 'w" where
  "LegacyProviderRunner_Run env c input opts w =
     (if \<not> isPackSelected (con_id c) (ro_reviewer_packs opts) then (Inr no_artifact, w)
      else let route = pack_route input opts in
      case pe_resolve env route of
        None \<Rightarrow> (Inl (''reviewpack: provider route '' @ pe_quote env route @ '' is not configured''), w)
      | Some p \<Rightarrow>
          let systemPrompt = trim_space (join [trim_space (ri_system_prompt input), buildCapabilityPrompt c] [CHR 0x0A, CHR 0x0A]) in
          case reviewWithCapabilityPrompt p (pack_request env input) systemPrompt w of
            (Inl e, w') \<Rightarrow> (Inl (perr_text e), w')
          | (Inr response, w') \<Rightarrow>
              let artifact = ArtifactFromLegacyResult (pe_marshal env) (ri_target input) (con_id c) (prs_result response)
              in (Inr (artifact\<lparr>ra_reviewer_kind := ''pack'', ra_findings := filterFindings c (ra_findings artifact)\<rparr>), w'))"

subsection \<open>The advisor\<close>

definition mustAdvisorPrompt :: "'w pack_env \<Rightarrow> review_bundle \<Rightarrow> string" where
  "mustAdvisorPrompt env bundle =
     (let payload = (case pe_advisor_context env bundle of Some p \<Rightarrow> p
        | None \<Rightarrow> ''{\"judge_verdict\":\"unknown\",\"judge_summary\":\"advisor_context_encoding_failed\"}'')
      in trim_space (join [''You are the stronger second-opinion reviewer.'',
        ''Review the existing council artifacts and judge result. Only add omitted high-confidence findings, or explicitly affirm the current decision if it is sound.'',
        ''Do not restate weak concerns. Prefer challenging the council only when you have stronger evidence or a materially different verdict.'',
        ''Advisor input:'', payload] [CHR 0x0A, CHR 0x0A]))"

definition Advise :: "'w pack_env \<Rightarrow> built_input \<Rightarrow> review_bundle \<Rightarrow> string \<Rightarrow> 'w \<Rightarrow> (string + reviewer_artifact option) \<times> 'w" where
  "Advise env input bundle route w =
     (if trim_space route = [] then (Inr None, w)
      else case pe_resolve env route of
        None \<Rightarrow> (Inl (''review advisor: advisor route '' @ pe_quote env route @ '' is not configured''), w)
      | Some p \<Rightarrow>
          if ri_request_payload input = [] then (Inl ''review advisor: request payload is required'', w)
          else case pe_decode_request env (ri_request_payload input) of
            None \<Rightarrow> (Inl ''review advisor: decode request payload'', w)
          | Some request \<Rightarrow>
              let systemPrompt = trim_space (join [trim_space (ri_system_prompt input), mustAdvisorPrompt env bundle] [CHR 0x0A, CHR 0x0A]) in
              case pvd_dynamic p of
                None \<Rightarrow> (Inl ''review advisor: provider does not support dynamic system prompts'', w)
              | Some d \<Rightarrow> (case dyn_review d request systemPrompt w of
                  (Inl e, w') \<Rightarrow> (Inl (perr_text e), w')
                | (Inr response, w') \<Rightarrow>
                    (Inr (Some ((ArtifactFromLegacyResult (pe_marshal env) (ri_target input) ''advisor'' (prs_result response))
                       \<lparr>ra_reviewer_kind := ''advisor''\<rparr>)), w')))"

subsection \<open>The engine in the world\<close>

text \<open>\<^verbatim>\<open>Engine.Run\<close> asks its packs one after the other and stops at the first error; what follows reads their results only.\<close>

fun pack_results :: "(run_options \<Rightarrow> 'w \<Rightarrow> (string + reviewer_artifact) \<times> 'w) list \<Rightarrow> run_options \<Rightarrow> 'w \<Rightarrow> (string + reviewer_artifact) list \<times> 'w" where
  "pack_results [] opts w = ([], w)"
| "pack_results (p # ps) opts w = (case p opts w of
     (Inl e, w') \<Rightarrow> ([Inl e], w')
   | (Inr a, w') \<Rightarrow> (case pack_results ps opts w' of (rs, w'') \<Rightarrow> (Inr a # rs, w'')))"

type_synonym judge_fun = "reviewer_artifact list \<Rightarrow> core_decision"

definition council_Run :: "'w pack_env \<Rightarrow> contract list \<Rightarrow> judge_fun \<Rightarrow> built_input \<Rightarrow> run_options \<Rightarrow> 'w \<Rightarrow> (engine_error + review_bundle) \<times> 'w" where
  "council_Run env packs judge input opts w =
     (case pack_results (map (\<lambda>c. LegacyProviderRunner_Run env c input) packs) opts w of (rs, w') \<Rightarrow>
       (Run (pe_decode env) (pe_marshal env) (map (\<lambda>r _ _. r) rs) (Some judge) (review_input.truncate input) opts, w'))"

record advised_bundle = review_bundle +
  rb_advisor_artifact :: "reviewer_artifact option"

definition advised :: "review_bundle \<Rightarrow> reviewer_artifact option \<Rightarrow> advised_bundle" where
  "advised b a = review_bundle.extend b \<lparr>rb_advisor_artifact = a\<rparr>"

definition AdvisorAwareEngine_Run :: "'w pack_env \<Rightarrow> contract list \<Rightarrow> judge_fun \<Rightarrow> string \<Rightarrow> built_input \<Rightarrow> run_options \<Rightarrow> 'w
    \<Rightarrow> (engine_error + advised_bundle) \<times> 'w" where
  "AdvisorAwareEngine_Run env packs judge defaultAdvisorRef input opts w = (case council_Run env packs judge input opts w of
     (Inl e, w') \<Rightarrow> (Inl e, w')
   | (Inr bundle, w') \<Rightarrow>
       let ref = (if trim_space (ro_advisor_route opts) = [] then trim_space defaultAdvisorRef else trim_space (ro_advisor_route opts)) in
       if ref = [] then (Inr (advised bundle None), w')
       else case Advise env input bundle ref w' of
         (Inl e, w'') \<Rightarrow> (Inr (advised bundle None), w'')
       | (Inr artifact, w'') \<Rightarrow> (Inr (advised bundle artifact), w''))"

subsection \<open>The processor of a worker\<close>

fun normalize_packs :: "string list \<Rightarrow> string list \<Rightarrow> string list" where
  "normalize_packs seen [] = []"
| "normalize_packs seen (p # ps) =
     (let token = norm_lower p in
      if token = [] \<or> token \<in> set seen then normalize_packs seen ps else token # normalize_packs (token # seen) ps)"

definition NormalizeReviewPacks :: "string list \<Rightarrow> string list" where
  "NormalizeReviewPacks packs = normalize_packs [] packs"

subsection \<open>Exclusions that never apply\<close>

lemma contains_append: "contains s p \<longleftrightarrow> (\<exists>a b. s = a @ p @ b)"
proof (induction s)
  case Nil
  show ?case by (auto simp: contains_def)
next
  case (Cons c s)
  have "contains (c # s) p \<longleftrightarrow> has_prefix (c # s) p \<or> contains s p" by (auto simp: contains_def)
  moreover have "has_prefix (c # s) p \<longleftrightarrow> (\<exists>b. c # s = p @ b)"
    unfolding has_prefix_def by (metis append_eq_conv_conj append_take_drop_id)
  moreover have "(\<exists>a b. c # s = a @ p @ b) \<longleftrightarrow> (\<exists>b. c # s = p @ b) \<or> (\<exists>a b. s = a @ p @ b)"
    by (metis append_Cons append_Nil append_eq_Cons_conv)
  ultimately show ?case using Cons.IH by blast
qed

lemma contains_mono: "contains s p \<Longrightarrow> contains p q \<Longrightarrow> contains s q"
  by (auto simp: contains_append) (metis append.assoc)

lemma contains_across:
  assumes "c \<notin> set p" shows "contains (x @ c # y) p \<longleftrightarrow> contains x p \<or> contains y p"
proof
  assume "contains (x @ c # y) p"
  then obtain a b where ab: "x @ c # y = a @ p @ b" by (auto simp: contains_append)
  then consider d where "x = a @ p @ d" | d where "y = d @ p @ b" | "\<exists>d e. p = d @ c # e"
    by (fastforce simp: append_eq_append_conv2 append_eq_Cons_conv Cons_eq_append_conv)
  then show "contains x p \<or> contains y p" using assms by cases (auto simp: contains_append)
next
  assume "contains x p \<or> contains y p"
  then show "contains (x @ c # y) p"
    by (auto simp: contains_append) (metis append.assoc append_Cons, metis append.assoc append_Cons)
qed

lemma to_lower_line: "to_lower (a @ CHR 0x0A # b) = to_lower a @ CHR 0x0A # to_lower b"
proof (induction a rule: to_lower.induct)
  case 1
  then show ?case by (simp add: lower_char_def)
next
  case (2 a s)
  have "take 2 (s @ CHR 0x0A # b) = [CHR 0x84, CHR 0xAA] \<longleftrightarrow> take 2 s = [CHR 0x84, CHR 0xAA]"
    "take 1 (s @ CHR 0x0A # b) = [CHR 0xB0] \<longleftrightarrow> take 1 s = [CHR 0xB0]"
    by (cases s rule: remdups_adj.cases; simp)+
  moreover have "take 2 s = [CHR 0x84, CHR 0xAA] \<Longrightarrow> drop 2 (s @ CHR 0x0A # b) = drop 2 s @ CHR 0x0A # b"
    "take 1 s = [CHR 0xB0] \<Longrightarrow> drop 1 (s @ CHR 0x0A # b) = drop 1 s @ CHR 0x0A # b"
    by (cases s rule: remdups_adj.cases; simp)+
  ultimately show ?case using 2 by simp
qed

text \<open>The texts of a finding, in whatever order, mention the same one-line patterns.\<close>

lemma finding_text_mentions:
  assumes "CHR 0x0A \<notin> set p"
  shows "contains (to_lower (join [a, b, c, d] [CHR 0x0A])) p
    \<longleftrightarrow> contains (to_lower a) p \<or> contains (to_lower b) p \<or> contains (to_lower c) p \<or> contains (to_lower d) p"
  by (simp add: to_lower_line contains_across [OF assms])

lemma excluded_bypassed:
  assumes "contains (to_lower (join [cf_title f, cf_category f, cf_claim f, cf_body f] [CHR 0x0A])) (norm_lower e)"
    and "CHR 0x0A \<notin> set (norm_lower e)" and "marker \<in> set (con_exclusion_bypass_keywords c)"
    and "norm_lower marker \<noteq> []" and "contains (norm_lower e) (norm_lower marker)"
  shows "shouldBypassExclusions c f"
proof -
  have "contains (to_lower (join [cf_category f, cf_title f, cf_claim f, cf_body f] [CHR 0x0A])) (norm_lower e)"
    using assms(1) unfolding finding_text_mentions [OF assms(2)] by blast
  then have "mentions (to_lower (join [cf_category f, cf_title f, cf_claim f, cf_body f] [CHR 0x0A])) marker"
    using assms(4,5) contains_mono by (auto simp: mentions_def)
  then show ?thesis using assms(3) by (auto simp: shouldBypassExclusions_def Let_def list_ex_iff)
qed

definition dead_exclusions :: "string list" where
  "dead_exclusions = [''pure dos concern without a concrete exploit path'', ''resource exhaustion speculation without attacker leverage'',
     ''theoretical race without a changed trust boundary'']"

text \<open>C18 (dead exclusions). Three of the hard exclusions of the security pack never exclude anything: each of them contains a
  keyword that lifts all exclusions, so the pack keeps and drops the same findings without them.\<close>

theorem security_exclusions_dead:
  "filterFindings security_pack fs = filterFindings (security_pack\<lparr>con_hard_exclusions :=
     filter (\<lambda>e. e \<notin> set dead_exclusions) (con_hard_exclusions security_pack)\<rparr>) fs"
proof -
  have dead: "list_all (\<lambda>e. CHR 0x0A \<notin> set (norm_lower e) \<and> list_ex (\<lambda>m. norm_lower m \<noteq> [] \<and> contains (norm_lower e) (norm_lower m))
      (con_exclusion_bypass_keywords security_pack)) dead_exclusions"
    by code_simp
  define live where "live = security_pack\<lparr>con_hard_exclusions := filter (\<lambda>e. e \<notin> set dead_exclusions) (con_hard_exclusions security_pack)\<rparr>"
  have ne: "con_hard_exclusions security_pack \<noteq> []" "con_hard_exclusions live \<noteq> []" unfolding live_def by code_simp+
  have bypass: "shouldBypassExclusions live f = shouldBypassExclusions security_pack f" for f
    by (simp add: shouldBypassExclusions_def live_def)
  have "isExcludedFinding security_pack f = isExcludedFinding live f" for f
  proof (cases "shouldBypassExclusions security_pack f")
    case False
    define words where "words = to_lower (join [cf_title f, cf_category f, cf_claim f, cf_body f] [CHR 0x0A])"
    have "\<not> mentions words e" if e: "e \<in> set dead_exclusions" for e
    proof
      assume "mentions words e"
      then have c: "contains words (norm_lower e)" by (simp add: mentions_def)
      from dead e obtain m where "CHR 0x0A \<notin> set (norm_lower e)" "m \<in> set (con_exclusion_bypass_keywords security_pack)"
        "norm_lower m \<noteq> []" "contains (norm_lower e) (norm_lower m)"
        by (auto simp: list_all_iff list_ex_iff)
      with excluded_bypassed [OF c [unfolded words_def]] False show False by blast
    qed
    then have "list_ex (mentions words) (con_hard_exclusions security_pack) = list_ex (mentions words) (con_hard_exclusions live)"
      by (auto simp: live_def list_ex_iff)
    then show ?thesis using False by (simp add: isExcludedFinding_def ne bypass words_def Let_def)
  qed (simp add: isExcludedFinding_def ne bypass)
  then show ?thesis unfolding live_def [symmetric] by (simp add: filterFindings_def live_def)
qed

subsection \<open>What a pack reports\<close>

text \<open>A pack that is asked reports the findings of the answer, each converted by itself and in their order, that its contract
  keeps; nothing else reaches the judge.\<close>

lemma LegacyProviderRunner_Run_artifact:
  assumes "LegacyProviderRunner_Run env c input opts w = (Inr a, w')" and "isPackSelected (con_id c) (ro_reviewer_packs opts)"
  obtains p response prompt where "pe_resolve env (pack_route input opts) = Some p"
    "reviewWithCapabilityPrompt p (pack_request env input) prompt w = (Inr response, w')"
    "ra_findings a = filterFindings c (map (findingFromLegacy (pe_marshal env)) (rs_findings (prs_result response)))"
    "ra_reviewer_id a = con_id c" "ra_target a = ri_target input"
  using assms by (auto simp: LegacyProviderRunner_Run_def Let_def ArtifactFromLegacyResult_def split: option.splits prod.splits sum.splits)

subsection \<open>The advisor changes nothing\<close>

lemma truncate_advised [simp]: "review_bundle.truncate (advised b a) = b"
  by (cases b) (simp add: advised_def review_bundle.defs)

text \<open>Whatever the advisor answers, the review is that of the council.\<close>

lemma advisor_inert:
  "map_sum id review_bundle.truncate (fst (AdvisorAwareEngine_Run env packs judge ref input opts w)) = fst (council_Run env packs judge input opts w)"
  by (auto simp: AdvisorAwareEngine_Run_def Let_def split: prod.splits sum.splits)

subsection \<open>Unknown packs\<close>

lemma no_pack_runs:
  assumes "list_all (\<lambda>c. \<not> isPackSelected (con_id c) (ro_reviewer_packs opts)) packs"
  shows "pack_results (map (\<lambda>c. LegacyProviderRunner_Run env c input) packs) opts w = (map (\<lambda>_. Inr no_artifact) packs, w)"
  using assms by (induction packs) (simp_all add: LegacyProviderRunner_Run_def)

lemma run_no_artifacts: "run_packs (map (\<lambda>r _ _. r) (map (\<lambda>_. Inr no_artifact) packs)) input opts = Inr []"
  by (induction packs) (simp_all add: no_artifact_def)

lemma JudgeAdapter_nothing:
  assumes "order [] = []"
  shows "JudgeAdapter to_upper order [] = \<lparr>cd_verdict = ''pass'', cd_merged_findings = [], cd_summary = JudgeSummary to_upper ''pass'' []\<rparr>"
  by (simp add: JudgeAdapter_def Decide_def byIdentity_def Let_def assms map_filter_simps)

lemma Run_nothing:
  assumes "run_packs packs input opts = Inr []" and "decide [] = \<lparr>cd_verdict = ''pass'', cd_merged_findings = [], cd_summary = summary\<rparr>"
    and "summary \<noteq> []"
    and "\<not> (case coverageSummaryFromInput input (ro_coverage_threshold opts) of None \<Rightarrow> False | Some c \<Rightarrow> cs_incomplete c)"
  shows "\<exists>b. Run decode marshal packs (Some decide) input opts = Inr b \<and> rb_verdict b = ''pass'' \<and> rb_artifacts b = []
    \<and> map pc_kind (rb_publish_candidates b) = [''summary'']"
  using assms by (simp add: Run_def Let_def split: option.splits)


definition misspelt :: run_options where
  "misspelt = sample_options\<lparr>ro_reviewer_packs := [''securty''], ro_advisor_route := []\<rparr>"


end
