(* ===== verification/Llm_Schema.thy ===== *)
theory Llm_Schema
  imports Llm_Parser "HOL-Library.List_Lexorder" "HOL-Library.Char_ord"
begin

text \<open>
  The schema of a review result and the strict validation against it: the schema functions of
  \<^verbatim>\<open>internal/llm/parser.go\<close>, their transformation for providers that want every property required, and the
  validator. A schema is the JSON value the code builds; a Go \<^verbatim>\<open>[]string\<close> in it is an array of strings.
\<close>

subsection \<open>Schemas\<close>

definition of_type :: "string \<Rightarrow> json" where
  "of_type t = JObject [(''type'', JString t)]"

definition string_array :: json where
  "string_array = JObject [(''type'', JString ''array''), (''items'', of_type ''string'')]"

definition object_schema :: "members \<Rightarrow> string list \<Rightarrow> json" where
  "object_schema props required = JObject [(''type'', JString ''object''), (''properties'', JObject props),
     (''required'', JArray (map JString required)), (''additionalProperties'', JBool False)]"

definition reviewFindingRequiredFields :: "string list" where
  "reviewFindingRequiredFields =
     [''category'', ''severity'', ''confidence'', ''title'', ''body_markdown'', ''path'', ''anchor_kind'']"

definition reviewFindingSchema :: json where
  "reviewFindingSchema = object_schema
     [(''category'', of_type ''string''), (''severity'', of_type ''string''), (''confidence'', of_type ''number''),
      (''title'', of_type ''string''), (''body_markdown'', of_type ''string''), (''path'', of_type ''string''),
      (''anchor_kind'', of_type ''string''), (''old_line'', of_type ''integer''), (''new_line'', of_type ''integer''),
      (''range_start_kind'', of_type ''string''), (''range_start_old_line'', of_type ''integer''),
      (''range_start_new_line'', of_type ''integer''), (''range_end_kind'', of_type ''string''),
      (''range_end_old_line'', of_type ''integer''), (''range_end_new_line'', of_type ''integer''),
      (''anchor_snippet'', of_type ''string''), (''evidence'', string_array), (''suggested_patch'', of_type ''string''),
      (''canonical_key'', of_type ''string''), (''symbol'', of_type ''string''), (''trigger_condition'', of_type ''string''),
      (''impact'', of_type ''string''), (''introduced_by_this_change'', of_type ''boolean''),
      (''blind_spots'', string_array), (''no_finding_reason'', of_type ''string'')]
     reviewFindingRequiredFields"

definition reviewFindingSchemaAnthropicCompact :: json where
  "reviewFindingSchemaAnthropicCompact = object_schema
     [(''category'', of_type ''string''), (''severity'', of_type ''string''), (''confidence'', of_type ''number''),
      (''title'', of_type ''string''), (''body_markdown'', of_type ''string''), (''path'', of_type ''string''),
      (''anchor_kind'', of_type ''string''), (''old_line'', of_type ''integer''), (''new_line'', of_type ''integer''),
      (''canonical_key'', of_type ''string''), (''symbol'', of_type ''string''),
      (''introduced_by_this_change'', of_type ''boolean'')]
     reviewFindingRequiredFields"

definition reviewResultSchemaWithFindingItem :: "json \<Rightarrow> json" where
  "reviewResultSchemaWithFindingItem item = object_schema
     [(''schema_version'', of_type ''string''), (''review_run_id'', of_type ''string''), (''status'', of_type ''string''),
      (''summary'', of_type ''string''),
      (''summary_note'', object_schema [(''body_markdown'', of_type ''string'')] [''body_markdown'']),
      (''blind_spots'', string_array),
      (''findings'', JObject [(''type'', JString ''array''), (''items'', item)])]
     [''schema_version'', ''review_run_id'', ''summary'', ''findings'']"

definition reviewResultSchema :: json where
  "reviewResultSchema = reviewResultSchemaWithFindingItem reviewFindingSchema"

definition reviewResultSchemaAnthropicCompact :: json where
  "reviewResultSchemaAnthropicCompact = reviewResultSchemaWithFindingItem reviewFindingSchemaAnthropicCompact"

subsection \<open>Transformation\<close>

fun first_non_null :: "json list \<Rightarrow> string" where
  "first_non_null [] = []"
| "first_non_null (JString t # vs) = (if t \<noteq> ''null'' then t else first_non_null vs)"
| "first_non_null (_ # vs) = first_non_null vs"

definition schemaTypeName :: "members \<Rightarrow> string" where
  "schemaTypeName schema = (case map_of schema ''type'' of
     Some (JString t) \<Rightarrow> t | Some (JArray vs) \<Rightarrow> first_non_null vs | _ \<Rightarrow> [])"

definition appendSchemaType :: "json option \<Rightarrow> string \<Rightarrow> json list" where
  "appendSchemaType value t = (case value of
     Some (JString u) \<Rightarrow> if u = t then [JString u] else [JString u, JString t]
   | Some (JArray vs) \<Rightarrow> if JString t \<in> set vs then vs else vs @ [JString t]
   | _ \<Rightarrow> [JString t])"

fun strings_in :: "json list \<Rightarrow> string list" where
  "strings_in [] = []"
| "strings_in (JString t # vs) = t # strings_in vs"
| "strings_in (_ # vs) = strings_in vs"

definition anyToStringSlice :: "json option \<Rightarrow> string list" where
  "anyToStringSlice v = (case v of Some (JArray vs) \<Rightarrow> strings_in vs | _ \<Rightarrow> [])"

text \<open>Assignment to a key of a map.\<close>

definition put :: "string \<Rightarrow> json \<Rightarrow> members \<Rightarrow> members" where
  "put k v m = (if k \<in> fst ` set m then map (\<lambda>(k', x). (k', if k' = k then v else x)) m else m @ [(k, v)])"

definition object_members :: "json option \<Rightarrow> members" where
  "object_members v = (case v of Some (JObject m) \<Rightarrow> m | _ \<Rightarrow> [])"

fun on_objects :: "(members \<Rightarrow> members) \<Rightarrow> json \<Rightarrow> json" where
  "on_objects f (JObject m) = JObject (f m)"
| "on_objects f (JArray vs) = JArray (map (on_objects f) vs)"
| "on_objects f v = v"

fun is_object :: "json \<Rightarrow> bool" where
  "is_object (JObject m) = True"
| "is_object _ = False"

text \<open>The recursion goes into properties that are themselves results of the transformation, so the first argument
  bounds its depth.\<close>

primrec transformJSONSchemaObject :: "nat \<Rightarrow> members \<Rightarrow> bool \<Rightarrow> bool \<Rightarrow> members" where
  "transformJSONSchemaObject 0 schema orNull requireAll = schema"
| "transformJSONSchemaObject (Suc n) schema orNull requireAll =
     (let out = map (\<lambda>(k, v). (k, on_objects (\<lambda>m. transformJSONSchemaObject n m False requireAll) v)) schema;
          t = schemaTypeName out;
          out1 =
            (if t = ''object'' then
               (let props = object_members (map_of out ''properties'');
                    required = anyToStringSlice (map_of out ''required'');
                    props1 = map (\<lambda>(k, v). (k, if is_object v
                        then JObject (transformJSONSchemaObject n (object_members (Some v)) (k \<notin> set required) requireAll) else v)) props;
                    out2 = put ''properties'' (JObject props1) out
                in if requireAll
                   then put ''required'' (JArray (map JString (sort (map fst (filter (is_object \<circ> snd) props))))) out2
                   else out2)
             else if t = ''array'' then
               (case map_of out ''items'' of
                  Some (JObject i) \<Rightarrow> put ''items'' (JObject (transformJSONSchemaObject n i False requireAll)) out
                | _ \<Rightarrow> out)
             else out)
      in if orNull then put ''type'' (JArray (appendSchemaType (map_of out1 ''type'') ''null'')) out1 else out1)"

fun odepth :: "json \<Rightarrow> nat" where
  "odepth (JObject m) = Suc (fold max (map (\<lambda>(k, v). odepth v) m) 0)"
| "odepth (JArray vs) = fold max (map odepth vs) 0"
| "odepth _ = 0"

definition transformJSONSchemaValue :: "json \<Rightarrow> bool \<Rightarrow> bool \<Rightarrow> json" where
  "transformJSONSchemaValue v orNull requireAll = (case v of
     JObject m \<Rightarrow> JObject (transformJSONSchemaObject (odepth v) m orNull requireAll)
   | _ \<Rightarrow> on_objects (\<lambda>m. transformJSONSchemaObject (odepth v) m False requireAll) v)"

definition reviewResultSchemaOpenAIStrict :: json where
  "reviewResultSchemaOpenAIStrict = transformJSONSchemaValue reviewResultSchema False True"

definition reviewResultValidationSchema :: json where
  "reviewResultValidationSchema = transformJSONSchemaValue reviewResultSchema False False"

subsection \<open>Validation\<close>

definition schemaAllowsNull :: "members \<Rightarrow> bool" where
  "schemaAllowsNull schema = (case map_of schema ''type'' of Some (JArray vs) \<Rightarrow> JString ''null'' \<in> set vs | _ \<Rightarrow> False)"

text \<open>The mismatch of a value that is not \<^verbatim>\<open>null\<close> with a type, objects and arrays left to the recursion.\<close>

definition type_errors :: "string \<Rightarrow> json \<Rightarrow> string \<Rightarrow> string list" where
  "type_errors typ v path =
     (if typ = ''object'' then (case v of JObject _ \<Rightarrow> [] | _ \<Rightarrow> [path @ '' must be object''])
      else if typ = ''array'' then (case v of JArray _ \<Rightarrow> [] | _ \<Rightarrow> [path @ '' must be array''])
      else if typ = ''string'' then (case v of JString _ \<Rightarrow> [] | _ \<Rightarrow> [path @ '' must be string''])
      else if typ = ''number'' then (case v of JNumber _ \<Rightarrow> [] | _ \<Rightarrow> [path @ '' must be number''])
      else if typ = ''integer'' then
        (case v of JNumber t \<Rightarrow> if isIntegralValue t then [] else [path @ '' must be integer''] | _ \<Rightarrow> [path @ '' must be integer''])
      else if typ = ''boolean'' then (case v of JBool _ \<Rightarrow> [] | _ \<Rightarrow> [path @ '' must be boolean''])
      else [])"

definition path_key :: "string \<Rightarrow> string \<Rightarrow> string" where
  "path_key path k = path @ ''.'' @ k"

definition path_index :: "string \<Rightarrow> nat \<Rightarrow> string" where
  "path_index path i = path @ ''['' @ itoa (int i) @ '']''"

definition is_typed :: "members \<Rightarrow> string \<Rightarrow> bool" where
  "is_typed schema t \<longleftrightarrow> schemaTypeName schema = t"

definition object_type :: string where
  "object_type = ''object''"

definition array_type :: string where
  "array_type = ''array''"

definition schema_props :: "members \<Rightarrow> members" where
  "schema_props schema = object_members (map_of schema ''properties'')"

definition schema_items :: "members \<Rightarrow> members" where
  "schema_items schema = object_members (map_of schema ''items'')"

definition object_errors :: "members \<Rightarrow> members \<Rightarrow> string \<Rightarrow> string list" where
  "object_errors obj schema path =
     (let props = schema_props schema;
          required = anyToStringSlice (map_of schema ''required'')
      in (if map_of schema ''additionalProperties'' = Some (JBool False)
          then map (\<lambda>k. path_key path k @ '' is not allowed'') (filter (\<lambda>k. map_of props k = None) (map fst obj)) else [])
         @ map (\<lambda>k. path_key path k @ '' is required'') (filter (\<lambda>k. map_of obj k = None) required))"

definition null_errors :: "members \<Rightarrow> string \<Rightarrow> string list" where
  "null_errors schema path =
     (if schemaAllowsNull schema \<or> schemaTypeName schema = [] then [] else [path @ '' must be '' @ schemaTypeName schema])"

fun validateValueAgainstSchema :: "json \<Rightarrow> members \<Rightarrow> string \<Rightarrow> string list"
  and validate_members :: "members \<Rightarrow> members \<Rightarrow> string \<Rightarrow> string list"
  and validate_items :: "json list \<Rightarrow> members \<Rightarrow> string \<Rightarrow> nat \<Rightarrow> string list" where
  "validateValueAgainstSchema JNull schema path = null_errors schema path"
| "validateValueAgainstSchema (JObject obj) schema path =
     (if is_typed schema object_type then object_errors obj schema path @ validate_members obj (schema_props schema) path
      else type_errors (schemaTypeName schema) (JObject obj) path)"
| "validateValueAgainstSchema (JArray vs) schema path =
     (if is_typed schema array_type then validate_items vs (schema_items schema) path 0
      else type_errors (schemaTypeName schema) (JArray vs) path)"
| "validateValueAgainstSchema (JBool b) schema path = type_errors (schemaTypeName schema) (JBool b) path"
| "validateValueAgainstSchema (JNumber t) schema path = type_errors (schemaTypeName schema) (JNumber t) path"
| "validateValueAgainstSchema (JString t) schema path = type_errors (schemaTypeName schema) (JString t) path"
| "validate_members [] props path = []"
| "validate_members ((k, v) # obj) props path =
     (case map_of props k of
        Some (JObject ps) \<Rightarrow> validateValueAgainstSchema v ps (path_key path k)
      | _ \<Rightarrow> []) @ validate_members obj props path"
| "validate_items [] schema path i = []"
| "validate_items (v # vs) schema path i =
     validateValueAgainstSchema v schema (path_index path i) @ validate_items vs schema path (Suc i)"

record schema_issue =
  si_path :: string
  si_message :: string

definition schemaIssueFromValidationMessage :: "string \<Rightarrow> schema_issue" where
  "schemaIssueFromValidationMessage message0 =
     (let message = trim_space message0 in
      if message = [] then \<lparr>si_path = ''$'', si_message = ''unknown validation error''\<rparr>
      else case index_of message '' '' of
        Some (Suc i) \<Rightarrow> \<lparr>si_path = trim_space (take (Suc i) message), si_message = trim_space (drop (Suc (Suc i)) message)\<rparr>
      | _ \<Rightarrow> \<lparr>si_path = ''$'', si_message = message\<rparr>)"

text \<open>\<open>None\<close> when the text is valid; \<open>syntax\<close> is the text of the reader's error.\<close>

definition validateReviewResultStrictIssues :: "reader \<Rightarrow> (string \<Rightarrow> string) \<Rightarrow> string \<Rightarrow> (schema_issue list \<times> string) option" where
  "validateReviewResultStrictIssues rd syntax raw =
     (let single = (\<lambda>e. Some ([\<lparr>si_path = ''$'', si_message = e\<rparr>], e)) in
      case rd raw of
        None \<Rightarrow> single (''llm: strict validation decode failed: '' @ syntax raw)
      | Some (v, rest) \<Rightarrow>
          if \<not> list_all json_space rest then single ''llm: strict validation found trailing JSON content''
          else let errs = validateValueAgainstSchema (go_value v) (object_members (Some reviewResultValidationSchema)) ''$'' in
            if errs = [] then None
            else Some (map schemaIssueFromValidationMessage errs, ''llm: strict validation failed: '' @ join errs ''; ''))"

definition validateReviewResultStrictJSON :: "reader \<Rightarrow> (string \<Rightarrow> string) \<Rightarrow> string \<Rightarrow> string option" where
  "validateReviewResultStrictJSON rd syntax raw = map_option snd (validateReviewResultStrictIssues rd syntax raw)"

text \<open>After a failed repair the answer is read once more with the tolerant parser.\<close>

definition salvageReviewResultAfterStrictValidationFailure :: "reader \<Rightarrow> string \<Rightarrow> string \<Rightarrow> string + review_result" where
  "salvageReviewResultAfterStrictValidationFailure rd raw validationErr = (case ParseReviewResult rd raw of
     Some (r, _) \<Rightarrow> Inr r
   | None \<Rightarrow> Inl (''llm: strict validation failed after repair: '' @ validationErr))"

subsection \<open>The schema of the summary\<close>

definition summaryResultSchema :: json where
  "summaryResultSchema = object_schema
     [(''schema_version'', of_type ''string''), (''review_run_id'', of_type ''string''), (''walkthrough'', of_type ''string''),
      (''risk_areas'', JObject [(''type'', JString ''array''), (''items'', object_schema
         [(''path'', of_type ''string''), (''description'', of_type ''string''), (''severity'', of_type ''string'')]
         [''path'', ''description'', ''severity''])]),
      (''blind_spots'', string_array), (''verdict'', of_type ''string'')]
     [''schema_version'', ''review_run_id'', ''walkthrough'', ''verdict'']"

subsection \<open>What strict validation accepts\<close>

text \<open>The contract of a review result, written down field by field: name, whether it is required, and the values
  it may have. A field that is not required may also be \<^verbatim>\<open>null\<close>.\<close>

type_synonym shape = "(string \<times> bool \<times> (json \<Rightarrow> bool)) list"

fun is_string :: "json \<Rightarrow> bool" where
  "is_string (JString t) = True"
| "is_string _ = False"

fun is_number :: "json \<Rightarrow> bool" where
  "is_number (JNumber t) = True"
| "is_number _ = False"

fun is_integer :: "json \<Rightarrow> bool" where
  "is_integer (JNumber t) = isIntegralValue t"
| "is_integer _ = False"

fun is_boolean :: "json \<Rightarrow> bool" where
  "is_boolean (JBool b) = True"
| "is_boolean _ = False"

fun all_items :: "(json \<Rightarrow> bool) \<Rightarrow> json \<Rightarrow> bool" where
  "all_items p (JArray vs) = list_all p vs"
| "all_items p _ = False"

fun has_shape :: "shape \<Rightarrow> json \<Rightarrow> bool" where
  "has_shape shp (JObject obj) \<longleftrightarrow>
     list_all (\<lambda>(k, v). case map_of shp k of None \<Rightarrow> False | Some (req, ok) \<Rightarrow> if v = JNull then \<not> req else ok v) obj
     \<and> list_all (\<lambda>(k, req, ok). req \<longrightarrow> map_of obj k \<noteq> None) shp"
| "has_shape shp _ = False"

definition finding_shape :: shape where
  "finding_shape =
     [(''category'', True, is_string), (''severity'', True, is_string), (''confidence'', True, is_number),
      (''title'', True, is_string), (''body_markdown'', True, is_string), (''path'', True, is_string),
      (''anchor_kind'', True, is_string), (''old_line'', False, is_integer), (''new_line'', False, is_integer),
      (''range_start_kind'', False, is_string), (''range_start_old_line'', False, is_integer),
      (''range_start_new_line'', False, is_integer), (''range_end_kind'', False, is_string),
      (''range_end_old_line'', False, is_integer), (''range_end_new_line'', False, is_integer),
      (''anchor_snippet'', False, is_string), (''evidence'', False, all_items is_string),
      (''suggested_patch'', False, is_string), (''canonical_key'', False, is_string), (''symbol'', False, is_string),
      (''trigger_condition'', False, is_string), (''impact'', False, is_string),
      (''introduced_by_this_change'', False, is_boolean), (''blind_spots'', False, all_items is_string),
      (''no_finding_reason'', False, is_string)]"

definition result_shape :: shape where
  "result_shape =
     [(''schema_version'', True, is_string), (''review_run_id'', True, is_string), (''status'', False, is_string),
      (''summary'', True, is_string), (''summary_note'', False, has_shape [(''body_markdown'', True, is_string)]),
      (''blind_spots'', False, all_items is_string), (''findings'', True, all_items (has_shape finding_shape))]"

text \<open>The schema the validator uses, computed.\<close>

definition or_null :: "string \<Rightarrow> json" where
  "or_null t = JObject [(''type'', JArray [JString t, JString ''null''])]"

definition string_array_or_null :: json where
  "string_array_or_null = JObject [(''type'', JArray [JString ''array'', JString ''null'']), (''items'', of_type ''string'')]"

definition finding_validation :: json where
  "finding_validation = object_schema
     [(''category'', of_type ''string''), (''severity'', of_type ''string''), (''confidence'', of_type ''number''),
      (''title'', of_type ''string''), (''body_markdown'', of_type ''string''), (''path'', of_type ''string''),
      (''anchor_kind'', of_type ''string''), (''old_line'', or_null ''integer''), (''new_line'', or_null ''integer''),
      (''range_start_kind'', or_null ''string''), (''range_start_old_line'', or_null ''integer''),
      (''range_start_new_line'', or_null ''integer''), (''range_end_kind'', or_null ''string''),
      (''range_end_old_line'', or_null ''integer''), (''range_end_new_line'', or_null ''integer''),
      (''anchor_snippet'', or_null ''string''), (''evidence'', string_array_or_null), (''suggested_patch'', or_null ''string''),
      (''canonical_key'', or_null ''string''), (''symbol'', or_null ''string''), (''trigger_condition'', or_null ''string''),
      (''impact'', or_null ''string''), (''introduced_by_this_change'', or_null ''boolean''),
      (''blind_spots'', string_array_or_null), (''no_finding_reason'', or_null ''string'')]
     reviewFindingRequiredFields"

definition note_validation :: json where
  "note_validation = JObject [(''type'', JArray [JString ''object'', JString ''null'']),
     (''properties'', JObject [(''body_markdown'', of_type ''string'')]),
     (''required'', JArray [JString ''body_markdown'']), (''additionalProperties'', JBool False)]"

definition result_validation :: json where
  "result_validation = object_schema
     [(''schema_version'', of_type ''string''), (''review_run_id'', of_type ''string''), (''status'', or_null ''string''),
      (''summary'', of_type ''string''), (''summary_note'', note_validation), (''blind_spots'', string_array_or_null),
      (''findings'', JObject [(''type'', JString ''array''), (''items'', finding_validation)])]
     [''schema_version'', ''review_run_id'', ''summary'', ''findings'']"

declare transformJSONSchemaObject.simps(2) [simp del]

lemmas transform_step = transformJSONSchemaObject.simps(2) schemaTypeName_def put_def appendSchemaType_def object_members_def

lemma transform_of_type:
  assumes "t \<noteq> ''object''" "t \<noteq> ''array''" "t \<noteq> ''null''"
  shows "transformJSONSchemaObject (Suc n) [(''type'', JString t)] b False =
      [(''type'', if b then JArray [JString t, JString ''null''] else JString t)]"
    and "transformJSONSchemaObject (Suc n) [(''type'', JArray [JString t, JString ''null''])] b False =
      [(''type'', JArray [JString t, JString ''null''])]"
  using assms by (simp_all add: transform_step Let_def)

lemma transform_array:
  "transformJSONSchemaObject (Suc n) [(''type'', JString ''array''), (''items'', JObject i)] b False =
     [(''type'', if b then JArray [JString ''array'', JString ''null''] else JString ''array''),
      (''items'', JObject (transformJSONSchemaObject n (transformJSONSchemaObject n i False False) False False))]"
  "transformJSONSchemaObject (Suc n) [(''type'', JArray [JString ''array'', JString ''null'']), (''items'', JObject i)] b False =
     [(''type'', JArray [JString ''array'', JString ''null'']),
      (''items'', JObject (transformJSONSchemaObject n (transformJSONSchemaObject n i False False) False False))]"
  by (simp_all add: transform_step Let_def)

text \<open>The properties of an object, first as part of the members and then one by one.\<close>

definition twice :: "nat \<Rightarrow> string list \<Rightarrow> string \<times> json \<Rightarrow> string \<times> json" where
  "twice n req = (\<lambda>(k, v). (k, JObject (transformJSONSchemaObject (Suc n)
     (transformJSONSchemaObject n (object_members (Some v)) False False) (k \<notin> set req) False)))"

lemma map_of_no_key: "k \<notin> fst ` set m \<Longrightarrow> map_of m k = None"
  by (simp add: map_of_eq_None_iff)

lemma strings_in_map [simp]: "strings_in (map JString xs) = xs"
  by (induction xs) auto

lemma transform_object:
  assumes props: "''type'' \<notin> fst ` set props" "\<forall>p \<in> set props. is_object (snd p)"
    and ty: "ty = JString ''object'' \<or> ty = JArray [JString ''object'', JString ''null'']"
  shows "transformJSONSchemaObject (Suc (Suc n)) [(''type'', ty), (''properties'', JObject props),
       (''required'', JArray (map JString req)), (''additionalProperties'', JBool False)] b False =
     [(''type'', if b then JArray [JString ''object'', JString ''null''] else ty), (''properties'', JObject (map (twice n req) props)),
      (''required'', JArray (map JString req)), (''additionalProperties'', JBool False)]"
proof -
  let ?f = "\<lambda>(k, v). (k, on_objects (\<lambda>m. transformJSONSchemaObject n m False False) v)"
  have "''type'' \<notin> fst ` set (map ?f props)" using props(1) by force
  then have inner: "transformJSONSchemaObject (Suc n) props False False = map ?f props"
    by (simp add: transformJSONSchemaObject.simps(2) Let_def schemaTypeName_def map_of_no_key)
  have obj: "map (\<lambda>(k, v). (k, if is_object v then JObject (transformJSONSchemaObject (Suc n) (object_members (Some v)) (k \<notin> set req) False) else v))
      (map ?f props) = map (twice n req) props"
  proof -
    have "(\<lambda>(k, v). (k, if is_object v then JObject (transformJSONSchemaObject (Suc n) (object_members (Some v)) (k \<notin> set req) False) else v)) (?f p)
        = twice n req p" if mem: "p \<in> set props" for p
    proof -
      obtain k v where p: "p = (k, v)" by (cases p)
      then have "is_object v" using props(2) mem by auto
      then obtain m where "v = JObject m" by (cases v) auto
      then show ?thesis by (simp add: p twice_def object_members_def)
    qed
    then show ?thesis by simp
  qed
  have strs: "map (on_objects f) (map JString req) = map JString req" for f by simp
  show ?thesis
    using ty obj
    by (auto simp: transformJSONSchemaObject.simps(2) [of "Suc n"] Let_def schemaTypeName_def inner strs put_def appendSchemaType_def
        anyToStringSlice_def object_members_def [of "Some (JObject m)" for m] simp del: map_map)
qed

lemma transform_finding:
  "transformJSONSchemaObject (Suc (Suc (Suc (Suc n)))) (object_members (Some reviewFindingSchema)) False False =
     object_members (Some finding_validation)"
  unfolding reviewFindingSchema_def finding_validation_def object_schema_def object_members_def option.case json.case
  by (subst transform_object)
    (simp_all add: of_type_def string_array_def twice_def object_members_def transform_of_type transform_array
      reviewFindingRequiredFields_def or_null_def string_array_or_null_def)

lemma transform_finding_again:
  "transformJSONSchemaObject (Suc (Suc (Suc (Suc n)))) (object_members (Some finding_validation)) False False =
     object_members (Some finding_validation)"
  unfolding finding_validation_def object_schema_def object_members_def option.case json.case
  by (subst transform_object)
    (simp_all add: of_type_def string_array_def twice_def object_members_def transform_of_type transform_array
      reviewFindingRequiredFields_def or_null_def string_array_or_null_def)

lemma odepth_result: "odepth reviewResultSchema = 7"
  by (simp add: reviewResultSchema_def reviewResultSchemaWithFindingItem_def reviewFindingSchema_def object_schema_def of_type_def
      string_array_def reviewFindingRequiredFields_def)

lemma transform_note:
  "transformJSONSchemaObject (Suc (Suc (Suc n))) (transformJSONSchemaObject (Suc (Suc (Suc m)))
      (object_members (Some (object_schema [(''body_markdown'', of_type ''string'')] [''body_markdown'']))) False False) True False =
     object_members (Some note_validation)"
proof -
  have tw: "map (twice (Suc k) [''body_markdown'']) [(''body_markdown'', of_type ''string'')] = [(''body_markdown'', of_type ''string'')]" for k
    by (simp add: twice_def of_type_def object_members_def transform_of_type)
  note tr = transform_object [where req = "[''body_markdown'']" and props = "[(''body_markdown'', of_type ''string'')]"]
  have "transformJSONSchemaObject (Suc (Suc (Suc k))) [(''type'', JString ''object''), (''properties'', JObject [(''body_markdown'', of_type ''string'')]),
       (''required'', JArray (map JString [''body_markdown''])), (''additionalProperties'', JBool False)] b False =
     [(''type'', if b then JArray [JString ''object'', JString ''null''] else JString ''object''), (''properties'', JObject [(''body_markdown'', of_type ''string'')]),
      (''required'', JArray (map JString [''body_markdown''])), (''additionalProperties'', JBool False)]" for k b
    using tr [where n = "Suc k" and ty = "JString ''object''" and b = b] unfolding tw by (simp add: of_type_def)
  then show ?thesis unfolding object_schema_def note_validation_def object_members_def option.case json.case by simp
qed

text \<open>Any bound from the depth of the schema on gives the same result.\<close>

lemma transform_depth_enough:
  "transformJSONSchemaObject (7 + n) (object_members (Some reviewResultSchema)) False False = object_members (Some result_validation)"
proof -
  obtain fi fv where fi: "reviewFindingSchema = JObject fi" and fv: "finding_validation = JObject fv"
    by (simp add: reviewFindingSchema_def finding_validation_def object_schema_def)
  have find: "transformJSONSchemaObject (Suc (Suc (Suc (Suc n)))) fi False False = fv"
    "transformJSONSchemaObject (Suc (Suc (Suc (Suc n)))) fv False False = fv" for n
    using transform_finding transform_finding_again by (simp_all add: fi fv object_members_def)
  obtain ni nv where ni: "object_schema [(''body_markdown'', of_type ''string'')] [''body_markdown''] = JObject ni" and nv: "note_validation = JObject nv"
    by (simp add: note_validation_def object_schema_def)
  have nt: "transformJSONSchemaObject (Suc (Suc (Suc n))) (transformJSONSchemaObject (Suc (Suc (Suc m))) ni False False) True False = nv" for n m
    using transform_note [of n m] by (simp add: ni nv object_members_def)
  let ?req = "[''schema_version'', ''review_run_id'', ''summary'', ''findings'']"
  let ?props = "[(''schema_version'', of_type ''string''), (''review_run_id'', of_type ''string''), (''status'', of_type ''string''),
      (''summary'', of_type ''string''), (''summary_note'', JObject ni), (''blind_spots'', string_array),
      (''findings'', JObject [(''type'', JString ''array''), (''items'', JObject fi)])]"
  have seven: "7 + n = Suc (Suc (Suc (Suc (Suc (Suc (Suc n))))))" by simp
  have tw: "map (twice (Suc (Suc (Suc (Suc (Suc n))))) ?req) ?props =
    [(''schema_version'', of_type ''string''), (''review_run_id'', of_type ''string''), (''status'', or_null ''string''),
      (''summary'', of_type ''string''), (''summary_note'', JObject nv), (''blind_spots'', string_array_or_null),
      (''findings'', JObject [(''type'', JString ''array''), (''items'', JObject fv)])]"
    by (simp add: twice_def object_members_def of_type_def string_array_def or_null_def string_array_or_null_def
        transform_of_type transform_array nt find)
  have "transformJSONSchemaObject (7 + n) [(''type'', JString ''object''), (''properties'', JObject ?props),
      (''required'', JArray (map JString ?req)), (''additionalProperties'', JBool False)] False False =
     [(''type'', JString ''object''), (''properties'', JObject (map (twice (Suc (Suc (Suc (Suc (Suc n))))) ?req) ?props)),
      (''required'', JArray (map JString ?req)), (''additionalProperties'', JBool False)]"
    unfolding seven by (subst transform_object) (simp_all add: of_type_def string_array_def)
  then show ?thesis unfolding tw
    unfolding reviewResultSchema_def reviewResultSchemaWithFindingItem_def result_validation_def fi fv nv ni
    by (simp add: object_schema_def object_members_def)
qed

lemma reviewResultValidationSchema_computed: "reviewResultValidationSchema = result_validation"
proof -
  obtain m r where m: "reviewResultSchema = JObject m" and r: "result_validation = JObject r"
    by (simp add: reviewResultSchema_def reviewResultSchemaWithFindingItem_def result_validation_def object_schema_def)
  show ?thesis
    using transform_depth_enough [of 0] odepth_result
    unfolding reviewResultValidationSchema_def transformJSONSchemaValue_def object_members_def m r option.case json.case by simp
qed

definition checks :: "json \<Rightarrow> bool \<Rightarrow> (json \<Rightarrow> bool) \<Rightarrow> bool" where
  "checks schema req ok \<longleftrightarrow> (\<exists>m. schema = JObject m \<and>
     (\<forall>v path. validateValueAgainstSchema v m path = [] \<longleftrightarrow> (if v = JNull then \<not> req else ok v)))"

lemma leaf_checks:
  assumes "\<And>v path. v \<noteq> JNull \<Longrightarrow> type_errors t v path = [] \<longleftrightarrow> ok v" and "t \<noteq> []" "t \<noteq> ''object''" "t \<noteq> ''array''" "t \<noteq> ''null''"
  shows "checks (of_type t) True ok" "checks (or_null t) False ok"
proof -
  have "validateValueAgainstSchema v [(''type'', JString t)] path = [] \<longleftrightarrow> (if v = JNull then \<not> True else ok v)" for v path
    using assms by (cases v) (auto simp: null_errors_def schemaAllowsNull_def schemaTypeName_def is_typed_def object_type_def array_type_def)
  then show "checks (of_type t) True ok" unfolding checks_def of_type_def by blast
  have "validateValueAgainstSchema v [(''type'', JArray [JString t, JString ''null''])] path = [] \<longleftrightarrow> (if v = JNull then \<not> False else ok v)" for v path
    using assms by (cases v) (auto simp: null_errors_def schemaAllowsNull_def schemaTypeName_def is_typed_def object_type_def array_type_def)
  then show "checks (or_null t) False ok" unfolding checks_def or_null_def by blast
qed

lemma type_errors_leaf:
  "v \<noteq> JNull \<Longrightarrow> type_errors ''string'' v path = [] \<longleftrightarrow> is_string v"
  "v \<noteq> JNull \<Longrightarrow> type_errors ''number'' v path = [] \<longleftrightarrow> is_number v"
  "v \<noteq> JNull \<Longrightarrow> type_errors ''integer'' v path = [] \<longleftrightarrow> is_integer v"
  "v \<noteq> JNull \<Longrightarrow> type_errors ''boolean'' v path = [] \<longleftrightarrow> is_boolean v"
  by (cases v; simp add: type_errors_def)+

lemma leaf_types:
  "checks (of_type ''string'') True is_string" "checks (or_null ''string'') False is_string"
  "checks (of_type ''number'') True is_number" "checks (or_null ''integer'') False is_integer"
  "checks (or_null ''boolean'') False is_boolean"
  by (rule leaf_checks, rule type_errors_leaf; simp)+

lemma validate_items_Nil:
  assumes "\<And>v path. validateValueAgainstSchema v m path = [] \<longleftrightarrow> p v"
  shows "validate_items vs m path i = [] \<longleftrightarrow> list_all p vs"
  using assms by (induction vs arbitrary: i) auto

lemma array_checks:
  assumes "checks item True p" and "\<not> p JNull"
  shows "checks (JObject [(''type'', JString ''array''), (''items'', item)]) True (all_items p)"
    and "checks (JObject [(''type'', JArray [JString ''array'', JString ''null'']), (''items'', item)]) False (all_items p)"
proof -
  obtain m where m: "item = JObject m" and v: "\<And>v path. validateValueAgainstSchema v m path = [] \<longleftrightarrow> p v"
    using assms unfolding checks_def by metis
  show "checks (JObject [(''type'', JString ''array''), (''items'', item)]) True (all_items p)"
    unfolding checks_def
  proof (intro exI conjI allI, rule refl)
    fix v path
    show "validateValueAgainstSchema v [(''type'', JString ''array''), (''items'', item)] path = [] \<longleftrightarrow> (if v = JNull then \<not> True else all_items p v)"
      by (cases v) (auto simp: m null_errors_def schemaAllowsNull_def schemaTypeName_def is_typed_def object_type_def array_type_def
          type_errors_def schema_items_def object_members_def validate_items_Nil [OF v])
  qed
  show "checks (JObject [(''type'', JArray [JString ''array'', JString ''null'']), (''items'', item)]) False (all_items p)"
    unfolding checks_def
  proof (intro exI conjI allI, rule refl)
    fix v path
    show "validateValueAgainstSchema v [(''type'', JArray [JString ''array'', JString ''null'']), (''items'', item)] path = []
        \<longleftrightarrow> (if v = JNull then \<not> False else all_items p v)"
      by (cases v) (auto simp: m null_errors_def schemaAllowsNull_def schemaTypeName_def is_typed_def object_type_def array_type_def
          type_errors_def schema_items_def object_members_def validate_items_Nil [OF v])
  qed
qed

definition implements :: "members \<Rightarrow> string list \<Rightarrow> shape \<Rightarrow> bool" where
  "implements props req shp \<longleftrightarrow> set req \<subseteq> fst ` set props
     \<and> list_all2 (\<lambda>(k, ps) (k', r, ok). k = k' \<and> r = (k \<in> set req) \<and> checks ps r ok) props shp"

lemma implements_lookup:
  assumes "list_all2 (\<lambda>(k, ps) (k', r, ok). k = k' \<and> r = (k \<in> set req) \<and> checks ps r ok) props shp"
  shows "map_of props k = None \<and> map_of shp k = None
     \<or> (\<exists>ps ok. map_of props k = Some ps \<and> map_of shp k = Some (k \<in> set req, ok) \<and> checks ps (k \<in> set req) ok)"
  using assms by (induction rule: list_all2_induct) auto

lemma validate_members_Nil:
  "validate_members obj props path = [] \<longleftrightarrow> list_all (\<lambda>(k, v). case map_of props k of
     Some (JObject ps) \<Rightarrow> validateValueAgainstSchema v ps (path_key path k) = [] | _ \<Rightarrow> True) obj"
proof (induction obj)
  case (Cons p obj)
  obtain k v where p: "p = (k, v)" by (cases p)
  have "(case map_of props k of Some (JObject ps) \<Rightarrow> validateValueAgainstSchema v ps (path_key path k) | _ \<Rightarrow> []) = []
      \<longleftrightarrow> (case map_of props k of Some (JObject ps) \<Rightarrow> validateValueAgainstSchema v ps (path_key path k) = [] | _ \<Rightarrow> True)"
    by (auto split: option.splits json.splits)
  with Cons.IH show ?case by (simp add: p)
qed simp

lemma implements_required:
  assumes "list_all2 (\<lambda>(k, ps) (k', r, ok). k = k' \<and> r = (k \<in> set req) \<and> checks ps r ok) props shp"
  shows "list_all (\<lambda>(k, r, ok). r \<longrightarrow> p k) shp \<longleftrightarrow> (\<forall>k \<in> fst ` set props. k \<in> set req \<longrightarrow> p k)"
  using assms by (induction rule: list_all2_induct) auto

lemma validate_object:
  assumes imp: "implements props req shp" and ty: "is_typed schema object_type" "schema_props schema = props"
    "map_of schema ''required'' = Some (JArray (map JString req))" "map_of schema ''additionalProperties'' = Some (JBool False)"
  shows "validateValueAgainstSchema (JObject obj) schema path = [] \<longleftrightarrow> has_shape shp (JObject obj)"
proof -
  have l2: "list_all2 (\<lambda>(k, ps) (k', r, ok). k = k' \<and> r = (k \<in> set req) \<and> checks ps r ok) props shp"
    and sub: "set req \<subseteq> fst ` set props" using imp by (simp_all add: implements_def)
  have members: "(map_of props k \<noteq> None \<and> (case map_of props k of Some (JObject ps) \<Rightarrow> validateValueAgainstSchema v ps pth = [] | _ \<Rightarrow> True))
      \<longleftrightarrow> (case map_of shp k of None \<Rightarrow> False | Some (r, ok) \<Rightarrow> if v = JNull then \<not> r else ok v)" for k v pth
    using implements_lookup [OF l2, of k] by (auto simp: checks_def)
  have req: "list_all (\<lambda>(k, r, ok). r \<longrightarrow> map_of obj k \<noteq> None) shp \<longleftrightarrow> (\<forall>k \<in> set req. map_of obj k \<noteq> None)"
    using implements_required [OF l2, of "\<lambda>k. map_of obj k \<noteq> None"] sub by blast
  have "validateValueAgainstSchema (JObject obj) schema path = [] \<longleftrightarrow>
      (\<forall>(k, v) \<in> set obj. map_of props k \<noteq> None \<and> (case map_of props k of
         Some (JObject ps) \<Rightarrow> validateValueAgainstSchema v ps (path_key path k) = [] | _ \<Rightarrow> True))
      \<and> (\<forall>k \<in> set req. map_of obj k \<noteq> None)"
    using ty by (auto simp: object_errors_def Let_def validate_members_Nil list_all_iff anyToStringSlice_def filter_empty_conv)
  then show ?thesis unfolding members has_shape.simps req by (simp only: list_all_iff)
qed

lemma object_checks:
  assumes imp: "implements props req shp"
  shows "checks (object_schema props req) True (has_shape shp)"
    and "checks (JObject [(''type'', JArray [JString ''object'', JString ''null'']), (''properties'', JObject props),
        (''required'', JArray (map JString req)), (''additionalProperties'', JBool False)]) False (has_shape shp)"
proof -
  have go: "validateValueAgainstSchema v schema path = [] \<longleftrightarrow> (if v = JNull then \<not> r else has_shape shp v)"
    if "schema = [(''type'', ty), (''properties'', JObject props), (''required'', JArray (map JString req)), (''additionalProperties'', JBool False)]"
      and "ty = (if r then JString ''object'' else JArray [JString ''object'', JString ''null''])" for v schema path ty r
  proof (cases v)
    case (JObject obj)
    have "validateValueAgainstSchema (JObject obj) schema path = [] \<longleftrightarrow> has_shape shp (JObject obj)"
      by (rule validate_object [OF imp])
        (auto simp: that is_typed_def object_type_def schemaTypeName_def schema_props_def object_members_def)
    then show ?thesis by (simp add: JObject)
  qed (auto simp: that null_errors_def schemaAllowsNull_def schemaTypeName_def type_errors_def is_typed_def object_type_def array_type_def
      split: if_splits)
  show "checks (object_schema props req) True (has_shape shp)"
    unfolding checks_def object_schema_def by (intro exI conjI allI, rule refl) (rule go, rule refl, simp)
  show "checks (JObject [(''type'', JArray [JString ''object'', JString ''null'']), (''properties'', JObject props),
        (''required'', JArray (map JString req)), (''additionalProperties'', JBool False)]) False (has_shape shp)"
    unfolding checks_def by (intro exI conjI allI, rule refl) (rule go, rule refl, simp)
qed

lemma string_array_checks: "checks string_array_or_null False (all_items is_string)"
  unfolding string_array_or_null_def by (rule array_checks(2) [OF leaf_types(1)]) simp

lemma note_checks: "checks note_validation False (has_shape [(''body_markdown'', True, is_string)])"
  unfolding note_validation_def
  using object_checks(2) [of "[(''body_markdown'', of_type ''string'')]" "[''body_markdown'']" "[(''body_markdown'', True, is_string)]"]
  by (simp add: implements_def leaf_types)

lemma finding_checks: "checks finding_validation True (has_shape finding_shape)"
  unfolding finding_validation_def
  by (rule object_checks(1)) (simp add: implements_def finding_shape_def reviewFindingRequiredFields_def leaf_types string_array_checks)

lemma result_checks: "checks result_validation True (has_shape result_shape)"
proof -
  have "checks (JObject [(''type'', JString ''array''), (''items'', finding_validation)]) True (all_items (has_shape finding_shape))"
    by (rule array_checks(1) [OF finding_checks]) simp
  then show ?thesis unfolding result_validation_def
    by (intro object_checks(1)) (simp add: implements_def result_shape_def leaf_types string_array_checks note_checks)
qed

text \<open>C28 (strict validation accepts exactly the contract). A text passes strict validation exactly when it is one
  JSON value, with nothing but space behind it, that has the shape of a review result: only the named members,
  the required ones present, each with a value of its type, optional ones possibly \<^verbatim>\<open>null\<close>. The shape is written
  down by hand; the schema it is compared with is the one the code computes.\<close>

theorem strict_validation_contract:
  "validateReviewResultStrictJSON rd syntax raw = None \<longleftrightarrow>
     (\<exists>v rest. rd raw = Some (v, rest) \<and> list_all json_space rest \<and> has_shape result_shape (go_value v))"
proof -
  have schema: "validateValueAgainstSchema v (object_members (Some reviewResultValidationSchema)) path = [] \<longleftrightarrow> has_shape result_shape v" for v path
  proof -
    obtain m where m: "result_validation = JObject m"
      and v: "validateValueAgainstSchema v m path = [] \<longleftrightarrow> (if v = JNull then \<not> True else has_shape result_shape v)"
      using result_checks unfolding checks_def by blast
    show ?thesis unfolding reviewResultValidationSchema_computed m object_members_def option.case json.case v by simp
  qed
  show ?thesis
    by (auto simp: validateReviewResultStrictJSON_def validateReviewResultStrictIssues_def Let_def schema split: option.splits prod.splits)
qed

end
