(* ===== verification/Llm_Util.thy ===== *)
theory Llm_Util
  imports Go_Json
begin

text \<open>
  Redaction of what is stored of provider requests and responses: \<^verbatim>\<open>internal/llm/util.go\<close>. The pass through
  \<^verbatim>\<open>json.Marshal\<close> and the decoder that precedes it is the parameter \<open>norm\<close>, \<open>None\<close> when it fails.
\<close>

definition truncateText :: "string \<Rightarrow> int \<Rightarrow> string" where
  "truncateText value0 limit =
     (let value = trim_space value0 in
      if limit \<le> 0 \<or> int (length value) \<le> limit then value else take (nat limit) value @ ''...[truncated]'')"

definition normalizeRedactionKey :: "string \<Rightarrow> string" where
  "normalizeRedactionKey key = replace_all (replace_all (norm_lower key) ''_'' []) ''-'' []"

definition secret_key :: "string \<Rightarrow> bool" where
  "secret_key k \<longleftrightarrow> (let l = normalizeRedactionKey k in
     contains l ''apikey'' \<or> contains l ''authorization'' \<or> contains l ''token'' \<or> contains l ''cookie'')"

definition content_key :: "string \<Rightarrow> bool" where
  "content_key k \<longleftrightarrow> normalizeRedactionKey k = ''content''"

fun redactValue :: "json \<Rightarrow> json" where
  "redactValue (JObject kvs) = JObject (map (\<lambda>(k, item). (k,
     if secret_key k then JString ''[REDACTED]'' else if content_key k then JString ''[OMITTED]'' else redactValue item)) kvs)"
| "redactValue (JArray items) = JArray (map redactValue items)"
| "redactValue (JString t) = (if length t > 256 then JString (take 256 t @ ''...[truncated]'') else JString t)"
| "redactValue v = v"

definition redactPayload :: "(json \<Rightarrow> json option) \<Rightarrow> json \<Rightarrow> members" where
  "redactPayload norm payload = (case norm payload of
     None \<Rightarrow> [(''redacted'', JBool True)]
   | Some v \<Rightarrow> (case redactValue v of JObject m \<Rightarrow> m | _ \<Rightarrow> [(''redacted'', JBool True)]))"

definition redactURL :: "string \<Rightarrow> string" where
  "redactURL raw = trim_right_set raw ''/''"

subsection \<open>Secrets do not influence what is stored\<close>

text \<open>Two values that an observer of the redacted form may not tell apart: they differ only in members with a secret
  or content key and in what follows the first 256 bytes of a long text.\<close>

inductive same_public :: "json \<Rightarrow> json \<Rightarrow> bool" where
  same: "same_public v v"
| long_text: "take 256 t = take 256 u \<Longrightarrow> length t > 256 \<Longrightarrow> length u > 256 \<Longrightarrow> same_public (JString t) (JString u)"
| items: "list_all2 same_public vs ws \<Longrightarrow> same_public (JArray vs) (JArray ws)"
| members: "list_all2 (\<lambda>p q. fst p = fst q \<and> (secret_key (fst p) \<or> content_key (fst p) \<or> same_public (snd p) (snd q))) kvs kws
    \<Longrightarrow> same_public (JObject kvs) (JObject kws)"

lemma map_redact:
  "list_all2 (\<lambda>v w. same_public v w \<and> redactValue v = redactValue w) vs ws \<Longrightarrow> map redactValue vs = map redactValue ws"
  by (induction rule: list_all2_induct) auto

lemma map_redact_members:
  "list_all2 (\<lambda>p q. fst p = fst q \<and> (secret_key (fst p) \<or> content_key (fst p)
       \<or> same_public (snd p) (snd q) \<and> redactValue (snd p) = redactValue (snd q))) kvs kws
   \<Longrightarrow> redactValue (JObject kvs) = redactValue (JObject kws)"
  by (induction rule: list_all2_induct) auto

lemma redactValue_public: "same_public v w \<Longrightarrow> redactValue v = redactValue w"
proof (induction rule: same_public.induct)
  case (items vs ws)
  then show ?case by (simp add: map_redact)
next
  case (members kvs kws)
  then show ?case by (rule map_redact_members)
qed auto


text \<open>Redacted values are bounded: no text is longer than 270 bytes.\<close>

fun texts_bounded :: "json \<Rightarrow> bool" where
  "texts_bounded (JObject kvs) = list_all (\<lambda>(k, v). texts_bounded v) kvs"
| "texts_bounded (JArray vs) = list_all texts_bounded vs"
| "texts_bounded (JString t) = (length t \<le> 270)"
| "texts_bounded _ = True"

lemma redactValue_bounded: "texts_bounded (redactValue v)"
  by (induction v rule: redactValue.induct) (auto simp: list_all_iff)

definition sample_payload :: "string \<Rightarrow> json" where
  "sample_payload secret = JObject [(''model'', JString ''m''), (''headers'', JObject [(''X-Api-Key'', JString secret)])]"


end
