(* ===== verification/Rate_Limiter.thy ===== *)
theory Rate_Limiter
  imports Go_Strings
begin

text \<open>
  The rate limiter of provider calls, \<^verbatim>\<open>internal/llm/ratelimit.go\<close>: a fixed window per scope. Times and durations
  are integers in nanoseconds; the clock and the sleep are parameters. The lock makes one look at the state atomic.
\<close>

record rate_limit_config =
  rc_requests :: int
  rc_window :: int

record rate_limit_state =
  rw_window_start :: "int option"
  rw_count :: int

record rate_limiter =
  li_limits :: "string \<rightharpoonup> rate_limit_config"
  li_states :: "string \<rightharpoonup> rate_limit_state"
  li_default :: rate_limit_config

definition NewInMemoryRateLimiter :: "rate_limit_config \<Rightarrow> rate_limiter" where
  "NewInMemoryRateLimiter defaultCfg = \<lparr>li_limits = Map.empty, li_states = Map.empty, li_default = defaultCfg\<rparr>"

definition scope_name :: "string \<Rightarrow> string" where
  "scope_name scope = (if trim_space scope = [] then ''global'' else trim_space scope)"

definition SetLimit :: "string \<Rightarrow> rate_limit_config \<Rightarrow> rate_limiter \<Rightarrow> rate_limiter" where
  "SetLimit scope cfg l = l\<lparr>li_limits := (li_limits l)(scope_name scope \<mapsto> cfg)\<rparr>"

definition config_for :: "string \<Rightarrow> rate_limiter \<Rightarrow> rate_limit_config" where
  "config_for scope l = (case li_limits l scope of Some c \<Rightarrow> c | None \<Rightarrow> li_default l)"

text \<open>One round of the loop of \<^verbatim>\<open>Wait\<close> under the lock: admitted, or the time to wait.\<close>

definition window_at :: "rate_limit_config \<Rightarrow> rate_limit_state \<Rightarrow> int \<Rightarrow> rate_limit_state" where
  "window_at cfg st now = (case rw_window_start st of
     None \<Rightarrow> \<lparr>rw_window_start = Some now, rw_count = 0\<rparr>
   | Some ws \<Rightarrow> if now - ws \<ge> rc_window cfg then \<lparr>rw_window_start = Some now, rw_count = 0\<rparr> else st)"

definition wait_round :: "string \<Rightarrow> int \<Rightarrow> rate_limiter \<Rightarrow> (int option) \<times> rate_limiter" where
  "wait_round scope now l =
     (let cfg = config_for scope l in
      if rc_requests cfg \<le> 0 \<or> rc_window cfg \<le> 0 then (None, l)
      else let st0 = (case li_states l scope of Some s \<Rightarrow> s | None \<Rightarrow> \<lparr>rw_window_start = None, rw_count = 0\<rparr>);
               st = window_at cfg st0 now
           in if rw_count st < rc_requests cfg
              then (None, l\<lparr>li_states := (li_states l)(scope \<mapsto> st\<lparr>rw_count := rw_count st + 1\<rparr>)\<rparr>)
              else (Some ((case rw_window_start st of Some ws \<Rightarrow> ws | None \<Rightarrow> 0) + rc_window cfg - now), l))"

text \<open>The loop: \<open>sleep d now\<close> is the time after sleeping for \<open>d\<close>, or \<open>None\<close> when the context ends. Not returning
  within the given number of rounds is \<open>None\<close>.\<close>

fun wait_loop :: "(int \<Rightarrow> int \<Rightarrow> int option) \<Rightarrow> string \<Rightarrow> nat \<Rightarrow> int \<Rightarrow> rate_limiter \<Rightarrow> (bool \<times> int \<times> rate_limiter) option" where
  "wait_loop sleep scope 0 now l = None"
| "wait_loop sleep scope (Suc n) now l = (case wait_round scope now l of
     (None, l') \<Rightarrow> Some (True, now, l')
   | (Some d, l') \<Rightarrow>
       if d \<le> 0 then wait_loop sleep scope n now l'
       else (case sleep d now of None \<Rightarrow> Some (False, now, l') | Some now' \<Rightarrow> wait_loop sleep scope n now' l'))"

definition Wait :: "(int \<Rightarrow> int \<Rightarrow> int option) \<Rightarrow> nat \<Rightarrow> string \<Rightarrow> int \<Rightarrow> rate_limiter \<Rightarrow> (bool \<times> int \<times> rate_limiter) option" where
  "Wait sleep rounds scope now l = wait_loop sleep (scope_name scope) rounds now l"

subsection \<open>Waiting ends\<close>

lemma wait_round_blocked:
  assumes "wait_round scope now l = (Some d, l')"
  shows "l' = l \<and> 0 < d \<and> (now' \<ge> now + d \<longrightarrow> fst (wait_round scope now' l) = None)"
proof -
  let ?cfg = "config_for scope l"
  let ?st0 = "case li_states l scope of Some s \<Rightarrow> s | None \<Rightarrow> \<lparr>rw_window_start = None, rw_count = 0\<rparr>"
  have pos: "0 < rc_requests ?cfg" "0 < rc_window ?cfg" and full: "\<not> rw_count (window_at ?cfg ?st0 now) < rc_requests ?cfg"
    and d: "d = (case rw_window_start (window_at ?cfg ?st0 now) of Some ws \<Rightarrow> ws | None \<Rightarrow> 0) + rc_window ?cfg - now" "l' = l"
    using assms by (auto simp: wait_round_def Let_def split: if_splits)
  obtain ws where ws: "rw_window_start ?st0 = Some ws" "now - ws < rc_window ?cfg"
    using full pos by (auto simp: window_at_def split: option.splits if_splits)
  then have st: "window_at ?cfg ?st0 now = ?st0" by (simp add: window_at_def)
  have "d = ws + rc_window ?cfg - now" using d(1) by (simp add: st ws(1))
  moreover have "fst (wait_round scope now' l) = None" if "now' \<ge> ws + rc_window ?cfg"
  proof -
    have "window_at ?cfg ?st0 now' = \<lparr>rw_window_start = Some now', rw_count = 0\<rparr>" using ws(1) that by (simp add: window_at_def)
    then show ?thesis using pos by (simp add: wait_round_def Let_def)
  qed
  ultimately show ?thesis using ws(2) d(2) by simp
qed


definition two_per_minute :: rate_limiter where
  "two_per_minute = SetLimit '' openai '' \<lparr>rc_requests = 2, rc_window = 60\<rparr> (NewInMemoryRateLimiter \<lparr>rc_requests = 0, rc_window = 0\<rparr>)
     \<lparr>li_states := [''openai'' \<mapsto> \<lparr>rw_window_start = Some 100, rw_count = 2\<rparr>]\<rparr>"


subsection \<open>How many are admitted\<close>

text \<open>The admissions of one scope with a positive limit, for a list of request times: the state, and the times at
  which a request was admitted.\<close>

fun admissions :: "rate_limit_config \<Rightarrow> rate_limit_state \<Rightarrow> int list \<Rightarrow> int list" where
  "admissions cfg st [] = []"
| "admissions cfg st (now # rest) =
     (let w = window_at cfg st now in
      if rw_count w < rc_requests cfg then now # admissions cfg (w\<lparr>rw_count := rw_count w + 1\<rparr>) rest
      else admissions cfg st rest)"

lemma admissions_ge: "sorted (t # ts) \<Longrightarrow> x \<in> set (admissions cfg st ts) \<Longrightarrow> t \<le> x"
  by (induction ts arbitrary: st t) (auto simp: Let_def split: if_splits)

definition within :: "int \<Rightarrow> int \<Rightarrow> int list \<Rightarrow> nat" where
  "within a b xs = length (filter (\<lambda>x. a \<le> x \<and> x < b) xs)"

text \<open>Within the running window at most what is left of the limit is admitted.\<close>

lemma admissions_in_window:
  assumes "rw_window_start st = Some ws" and "0 \<le> rw_count st" "rw_count st \<le> rc_requests cfg"
  shows "int (within a (ws + rc_window cfg) (admissions cfg st ts)) \<le> rc_requests cfg - rw_count st \<or> \<not> sorted ts"
  using assms
proof (induction ts arbitrary: st)
  case (Cons t ts)
  show ?case
  proof (cases "sorted (t # ts)")
    case True
    then have srt: "sorted ts" by simp
    show ?thesis
    proof (cases "t - ws < rc_window cfg")
      case True
      then have w: "window_at cfg st t = st" using Cons.prems(1) by (simp add: window_at_def)
      show ?thesis
      proof (cases "rw_count st < rc_requests cfg")
        case True
        have "int (within a (ws + rc_window cfg) (admissions cfg (st\<lparr>rw_count := rw_count st + 1\<rparr>) ts)) \<le> rc_requests cfg - (rw_count st + 1)"
          using Cons.IH [of "st\<lparr>rw_count := rw_count st + 1\<rparr>"] Cons.prems True srt by simp
        then show ?thesis using True w by (auto simp: within_def)
      next
        case False
        then show ?thesis using Cons.IH [OF Cons.prems] srt w by simp
      qed
    next
      case False
      have "within a (ws + rc_window cfg) (admissions cfg st (t # ts)) = 0"
      proof -
        have "ws + rc_window cfg \<le> x" if "x \<in> set (admissions cfg st (t # ts))" for x
          using admissions_ge [of t "t # ts" x cfg st] that \<open>sorted (t # ts)\<close> False by auto
        then show ?thesis by (force simp: within_def filter_empty_conv)
      qed
      then show ?thesis using Cons.prems by simp
    qed
  qed simp
qed (simp add: within_def)

text \<open>A fresh window counts from nothing.\<close>

lemma admissions_fresh:
  "window_at cfg st t = \<lparr>rw_window_start = Some t, rw_count = 0\<rparr> \<Longrightarrow> 0 < rc_window cfg \<Longrightarrow> 0 < rc_requests cfg
   \<Longrightarrow> admissions cfg st (t # ts) = admissions cfg \<lparr>rw_window_start = Some t, rw_count = 0\<rparr> (t # ts)"
  by (simp add: window_at_def)

lemma within_mono: "a' \<le> a \<Longrightarrow> b \<le> b' \<Longrightarrow> within a b xs \<le> within a' b' xs"
  by (induction xs) (auto simp: within_def)

lemma within_split: "within a b xs \<le> within a c xs + within c b xs"
  by (induction xs) (auto simp: within_def)

lemma admissions_fresh_bound:
  assumes "window_at cfg st t = \<lparr>rw_window_start = Some t, rw_count = 0\<rparr>" and "0 < rc_window cfg" "0 < rc_requests cfg"
    and "sorted (t # ts)" and "b \<le> t + rc_window cfg"
  shows "int (within a b (admissions cfg st (t # ts))) \<le> rc_requests cfg"
proof -
  have "int (within a (t + rc_window cfg) (admissions cfg st (t # ts))) \<le> rc_requests cfg"
    using admissions_in_window [of "\<lparr>rw_window_start = Some t, rw_count = 0\<rparr>" t cfg a "t # ts"] assms(2-4)
    by (simp only: admissions_fresh [OF assms(1-3)]) simp
  moreover have "within a b (admissions cfg st (t # ts)) \<le> within a (t + rc_window cfg) (admissions cfg st (t # ts))"
    by (rule within_mono) (use assms(5) in simp_all)
  ultimately show ?thesis by linarith
qed

lemma window_at_cases:
  "rw_window_start st = Some ws \<Longrightarrow>
   (t < ws + rc_window cfg \<and> window_at cfg st t = st)
   \<or> (ws + rc_window cfg \<le> t \<and> window_at cfg st t = \<lparr>rw_window_start = Some t, rw_count = 0\<rparr>)"
  by (auto simp: window_at_def)

lemma admissions_next_window:
  assumes "rw_window_start st = Some ws" and "0 < rc_window cfg" "0 < rc_requests cfg" and "sorted ts"
    and "b \<le> ws + 2 * rc_window cfg"
  shows "int (within (ws + rc_window cfg) b (admissions cfg st ts)) \<le> rc_requests cfg"
  using assms(1,4)
proof (induction ts arbitrary: st)
  case Nil
  then show ?case using assms(3) by (simp add: within_def)
next
  case (Cons t ts)
  from window_at_cases [OF Cons.prems(1), of t cfg] show ?case
  proof
    assume w: "t < ws + rc_window cfg \<and> window_at cfg st t = st"
    then have "within (ws + rc_window cfg) b (admissions cfg st (t # ts))
        = within (ws + rc_window cfg) b (admissions cfg (if rw_count st < rc_requests cfg then st\<lparr>rw_count := rw_count st + 1\<rparr> else st) ts)"
      by (simp add: within_def)
    then show ?thesis using Cons.IH [of "if rw_count st < rc_requests cfg then st\<lparr>rw_count := rw_count st + 1\<rparr> else st"] Cons.prems by simp
  next
    assume w: "ws + rc_window cfg \<le> t \<and> window_at cfg st t = \<lparr>rw_window_start = Some t, rw_count = 0\<rparr>"
    show ?thesis
      by (rule admissions_fresh_bound) (use w assms Cons.prems in simp_all)
  qed
qed

lemma admissions_bound:
  assumes "rw_window_start st = Some ws" and "1 \<le> rw_count st" and "rw_count st \<le> rc_requests cfg"
    and "0 < rc_window cfg" "0 < rc_requests cfg" and "sorted ts" and "b \<le> a + rc_window cfg"
  shows "int (within a b (admissions cfg st ts)) \<le> 2 * rc_requests cfg - 1"
  using assms(1-3,6)
proof (induction ts arbitrary: st ws)
  case Nil
  then show ?case using assms(5) by (simp add: within_def)
next
  case (Cons t ts)
  let ?w = "window_at cfg st t"
  let ?next = "if rw_count ?w < rc_requests cfg then ?w\<lparr>rw_count := rw_count ?w + 1\<rparr> else st"
  show ?case
  proof (cases "t < a")
    case True
    have "within a b (admissions cfg st (t # ts)) = within a b (admissions cfg ?next ts)"
      using True by (simp add: within_def Let_def)
    moreover have "\<exists>ws'. rw_window_start ?next = Some ws' \<and> 1 \<le> rw_count ?next \<and> rw_count ?next \<le> rc_requests cfg"
      using Cons.prems assms(5) by (auto simp: window_at_def)
    ultimately show ?thesis using Cons.IH [of ?next] Cons.prems(4) by auto
  next
    case late: False
    from window_at_cases [OF Cons.prems(1), of t cfg] show ?thesis
    proof
      assume w: "t < ws + rc_window cfg \<and> ?w = st"
      have "int (within a (ws + rc_window cfg) (admissions cfg st (t # ts))) \<le> rc_requests cfg - 1"
        using admissions_in_window [OF Cons.prems(1) _ Cons.prems(3), of a "t # ts"] Cons.prems(2,4) by linarith
      moreover have "int (within (ws + rc_window cfg) b (admissions cfg st (t # ts))) \<le> rc_requests cfg"
        by (rule admissions_next_window [OF Cons.prems(1) assms(4,5) Cons.prems(4)]) (use assms(7) w late in linarith)
      ultimately show ?thesis using within_split [of a b "admissions cfg st (t # ts)" "ws + rc_window cfg"] by linarith
    next
      assume w: "ws + rc_window cfg \<le> t \<and> ?w = \<lparr>rw_window_start = Some t, rw_count = 0\<rparr>"
      have "int (within a b (admissions cfg st (t # ts))) \<le> rc_requests cfg"
        by (rule admissions_fresh_bound [OF _ assms(4,5) Cons.prems(4)]) (use w late assms(7) in simp_all)
      then show ?thesis using assms(5) by linarith
    qed
  qed
qed

text \<open>The same for the limiter itself: the requests of one scope reach the lock at the times of a list, and \<open>admitted\<close>
  are the times at which the look at the state lets the request pass.\<close>

fun admitted :: "string \<Rightarrow> rate_limiter \<Rightarrow> int list \<Rightarrow> int list" where
  "admitted scope l [] = []"
| "admitted scope l (t # ts) = (case wait_round scope t l of
     (None, l') \<Rightarrow> t # admitted scope l' ts
   | (Some d, l') \<Rightarrow> admitted scope l' ts)"

definition state_of :: "string \<Rightarrow> rate_limiter \<Rightarrow> rate_limit_state" where
  "state_of scope l = (case li_states l scope of Some s \<Rightarrow> s | None \<Rightarrow> \<lparr>rw_window_start = None, rw_count = 0\<rparr>)"

lemma config_for_states [simp]: "config_for scope (l\<lparr>li_states := x\<rparr>) = config_for scope l"
  by (cases "li_limits l scope") (simp_all add: config_for_def)

lemma admitted_admissions:
  assumes "0 < rc_window (config_for scope l)" "0 < rc_requests (config_for scope l)"
  shows "admitted scope l ts = admissions (config_for scope l) (state_of scope l) ts"
  using assms
proof (induction ts arbitrary: l)
  case (Cons t ts)
  let ?w = "window_at (config_for scope l) (state_of scope l) t"
  show ?case
  proof (cases "rw_count ?w < rc_requests (config_for scope l)")
    case True
    let ?l = "l\<lparr>li_states := (li_states l)(scope \<mapsto> ?w\<lparr>rw_count := rw_count ?w + 1\<rparr>)\<rparr>"
    have "wait_round scope t l = (None, ?l)" using True Cons.prems by (simp add: wait_round_def state_of_def [symmetric] Let_def)
    moreover have "config_for scope ?l = config_for scope l" "state_of scope ?l = ?w\<lparr>rw_count := rw_count ?w + 1\<rparr>"
      by (simp_all add: state_of_def)
    ultimately show ?thesis using Cons.IH [of ?l] Cons.prems True by (simp add: Let_def)
  next
    case False
    then have "\<exists>d. wait_round scope t l = (Some d, l)" using Cons.prems by (simp add: wait_round_def state_of_def [symmetric] Let_def)
    then show ?thesis using Cons.IH [of l] Cons.prems False by (auto simp: Let_def)
  qed
qed simp


definition idle_limiter :: rate_limiter where
  "idle_limiter = NewInMemoryRateLimiter \<lparr>rc_requests = 2, rc_window = 60\<rparr>"


end
