(* ===== verification/Spec2Isabelle.thy ===== *)
theory Spec2Isabelle
  imports System Review_Pack Llm_Schema Llm_Util Rate_Limiter
begin

text \<open>
  Verification of mreviewer, a service that reviews merge requests with language models.

  \<^bold>\<open>The program.\<close> A webhook delivery of GitLab or GitHub (\<^verbatim>\<open>internal/hooks\<close>, \<^verbatim>\<open>internal/githubhooks\<close>) is authenticated, de-duplicated and normalised; in one
  transaction the event is recorded and the run service (\<^verbatim>\<open>internal/runs\<close>) creates, supersedes or cancels
  review runs; a comment command (\<^verbatim>\<open>internal/notecommand\<close>, \<^verbatim>\<open>internal/commands\<close>) may do the same or close a
  finding. Workers (\<^verbatim>\<open>internal/scheduler\<close>) claim runs from the store, process them, retry with back-off,
  and reap the runs of dead workers. Processing a run (\<^verbatim>\<open>internal/reviewrun\<close>) loads the rules of the repository
  (\<^verbatim>\<open>internal/rules\<close>), assembles the request (\<^verbatim>\<open>internal/context\<close>, \<^verbatim>\<open>internal/reviewinput\<close>), reviews the change with several
  packs and merges their findings (\<^verbatim>\<open>internal/reviewcore\<close>, \<^verbatim>\<open>internal/judge\<close>), stores the findings against those of earlier
  runs (\<^verbatim>\<open>internal/llm/dedup.go\<close>), posts them as comments (\<^verbatim>\<open>internal/writer\<close>, \<^verbatim>\<open>internal/platform\<close>) and computes the merge
  gate (\<^verbatim>\<open>internal/gate\<close>). Operators act on runs and identities through \<^verbatim>\<open>internal/adminapi\<close>. All services share one SQL
  store (\<^verbatim>\<open>internal/db\<close>, \<^verbatim>\<open>internal/db/sqlitedb\<close>).

  \<^bold>\<open>The theories.\<close>
  \<^item> \<open>Go_Strings\<close>, \<open>Go_Json\<close>, \<open>Go_Float\<close>: the prelude. The parts of \<^verbatim>\<open>strings\<close>, \<^verbatim>\<open>strconv\<close>, \<^verbatim>\<open>fmt\<close>,
    \<^verbatim>\<open>encoding/json\<close> and of \<^verbatim>\<open>float64\<close> that the code uses, with the lemmas the components share.
  \<^item> \<open>Db\<close>: the rows of \<^verbatim>\<open>internal/db/models.go\<close>, tables with their auto-increment, the state \<open>db\<close> (tables,
    clock, and a list of failures that the next calls meet), programs \<open>'a dbm\<close> that return a Go error or
    a value, and \<^verbatim>\<open>RunTx\<close> with its rollback. The locale \<open>store_rel\<close> is the contract of a relation that
    every statement keeps: its laws lift it through sequencing, case distinction, loops and
    transactions. The locale \<open>keyed_insert\<close> is the contract of a table with a unique key.
  \<^item> \<open>Db_Runs\<close>, \<open>Db_Entities\<close>, \<open>Db_Findings\<close>: the statements of \<^verbatim>\<open>internal/db/sqlitedb\<close>, one definition each,
    with the interpretations of \<open>keyed_insert\<close> and of \<open>if_running_write\<close> (writes guarded by the status).
  \<^item> \<open>Hooks_Normalize\<close>, \<open>Hooks_Handler\<close>, \<open>Github_Hooks\<close>, \<open>Runs\<close>, \<open>Note_Commands\<close>: the ingress side.
  \<^item> \<open>Scheduler\<close>, \<open>Gate\<close>, \<open>Dedup\<close>: the worker side.
  \<^item> \<open>Rules_Policy\<close>, \<open>Rules\<close>: the effective policy from platform, group, project and repository, the instructions of
    directories, suspicious contents and the system prompt. \<open>Go_Regexp\<close> and \<open>Glob\<close>: the regular expressions the code compiles and
    the path patterns it translates to them, with a reference semantics of patterns.
  \<^item> \<open>Review_Request\<close>, \<open>Hunks\<close>, \<open>Assembler\<close>, \<open>Review_Input\<close>: the request of a review. Diffs are read into hunks, files are excluded,
    ordered and cut to the limits, and the coverage accounts for every changed line.
  \<^item> \<open>Diff_Index\<close>, \<open>Judge\<close>, \<open>Engine\<close>: the review of one change.
  \<^item> \<open>Writer_Render\<close>, \<open>Writer\<close>: positions and texts of comments, and the writer with its comment actions. The
    locale \<open>writer_invariant\<close> is the contract of a property that every call of the writer keeps; \<open>writer_store\<close>
    derives it from a relation on the store. The goroutines that write the findings of a group are taken one
    finding after the other in the order of a schedule parameter.
  \<^item> \<open>Platform_Publish\<close>: the publishers of both platforms. \<open>Identity_Mappings\<close>: the users behind commit authors.
  \<^item> \<open>Engine_Processor\<close>: the processor of a run and the write-back around it. The locale \<open>result_store\<close> extends \<open>store_rel\<close> by
    what storing a review writes; \<open>runs_rel\<close>, a relation on the runs alone, is a sublocale of it.
  \<^item> \<open>Model_Providers\<close>, \<open>Legacy_Bridge\<close>, \<open>Review_Pack\<close>: which models are asked and in which order, how the findings of an answer
    become findings of the engine with a location, the contracts of the reviewer packs, the advisor, and the engine
    with its packs in a world that providers act on.
  \<^item> \<open>Gitlab_Client\<close>, \<open>Manual_Trigger\<close>: the GitLab client with its retries, pages and snapshots, and the command that starts a run.
  \<^item> \<open>Admin_Actions\<close>: the requests of operators. The locale \<open>run_action\<close> is the contract of an action, when it may run and
    what it makes of the run; it is interpreted on retry, cancel, requeue and rerun.
  \<^item> \<open>Llm_Parser\<close>, \<open>Llm_Schema\<close>, \<open>Llm_Util\<close>, \<open>Rate_Limiter\<close>: the answer of a model is read, repaired and validated
    against a schema, what is stored of a call is redacted, and calls are limited per scope.
  \<^item> \<open>System\<close>: deliveries of both platforms, manual triggers, workers with the processor and its write-back, the reaper and operators as steps on
    one store.

  \<^bold>\<open>What is proved.\<close> Atomicity and idempotence of event processing; re-deliveries and unauthenticated
  requests change nothing but the audit log; claiming is exclusive and follows the claim order; a
  processed run is completed, retried or failed as the code means it, a cancelled run is never
  overwritten, the back-off stays within its bounds; the gate fails exactly on blocking findings; the
  changed-line index agrees with a reference numbering of the hunk lines; every merged finding is
  published once, inline only on changed lines; an incomplete review never passes and rounding never
  changes that decision; stored findings move only along the transition table; printed commands and hunk
  headers are read back; a comment is posted at most once per idempotency key and every finding ends posted or with
  the run failed; an accepted model answer is complete, strict validation accepts exactly a contract stated field
  by field; redacted payloads do not depend on secrets; the rate limiter admits at most \<open>2n - 1\<close> calls per window
  length and every caller in the end; the policy depends on the base of the change alone and no file of the repository
  changes the settings of the host; patterns match as globs do; printed hunks are read back; reviewed and skipped lines add up
  to the change, requests stay within their limits, and a pass means that four fifths of the changed lines were shown; a GitHub delivery
  that changes anything was signed; a manual resolution of an identity outlives every observation; an operator's
  request either changes no table or does what it is named for and is audited; the providers of a chain are asked in order and
  only after a timeout or an error of the server; a finding of a model is posted at the place it names; unknown packs let a change
  pass unseen, what the client returns when pages of the diffs fail, what a manual trigger does; which exclusions of a pack never apply; the status a stored review gives its run, and what
  happens when its comments cannot be posted; from the empty store no interleaving creates two runs with one key or loses a run.

  \<^bold>\<open>Parameters.\<close> SHA-256, JSON reading and writing, the random part of delivery keys, the model based
  matcher of findings, the status publishers, the loader of inputs and the engine of a processor, repository readers, the YAML
  package, the retriever of related files, HMAC, the clients of both platforms, sleeping, the text of errors, the value
  of \<^verbatim>\<open>LastInsertId\<close> after an upsert (the driver decides it), and the iteration order of a Go map are
  arguments of the definitions that use them. Driver failures are part of the state: \<open>faults\<close> says which
  of the next statements fail, and the theorems about errors hold for every such list.

  \<^bold>\<open>Bounds.\<close> \<^verbatim>\<open>runWorkerLoop\<close> takes as fuel the number of iterations until its context ends; the claim loop
  runs \<^verbatim>\<open>claimRetryCount\<close> (8) times as in the code. Durations are integers in nanoseconds with the bounds of
  \<^verbatim>\<open>int64\<close> in the theorem on the back-off. The coverage ratio is exact rounding to 53 bits; the theorem on
  it needs fewer than \<open>2^45\<close> changed lines. The transformation of schemas recurses to the depth of the schema
  (\<open>transform_depth_enough\<close>: every larger bound gives the same value). \<^verbatim>\<open>Wait\<close> takes a number of rounds, and two are
  proved to be enough. The pages of a list end because their numbers grow and have 64 bits; the wait of a manual trigger takes the
  list of what other processes do until its context ends. All other loops are structural or have a measure.

  \<^bold>\<open>Not modelled.\<close> The HTTP clients of GitHub and of the model providers, the admin pages, the
  command line, metrics, tracing and logging: input and output only. The MySQL queries generated by sqlc
  are the same statements as those of \<^verbatim>\<open>sqlitedb\<close>. Goroutines: the interleaving of workers is the order in
  which their transactions reach the store.
\<close>

end
